(* ===== verification/Prelude.thy ===== *)
theory Prelude
  imports Main "HOL-Library.Multiset"
begin

text \<open>
  Shared vocabulary of the development.

  A request handler of the back end reads and writes the database through a pool, may stop at
  any statement with an HTTP error, and leaves effects behind.  It is modelled as an action:
  a function from the state to a result (\<open>Inl\<close> an error answer, \<open>Inr\<close> a value) and the next
  state.  The \<open>?\<close> operator and the early returns of the Rust code are \<open>andthen\<close>.  The
  predicate \<open>wp\<close> reads an action as a transformer of conditions: \<open>Q\<close> is what has to hold
  after a success and \<open>E\<close> after an error answer.  The collection \<open>wp_simps\<close> computes it.

  The last part holds the generic lemmas on tables (lists of rows) and on step relations that
  the components share.
\<close>

named_theorems wp_simps \<open>equations that compute weakest preconditions\<close>
named_theorems quiet_intros \<open>actions that only consume faults\<close>

section \<open>Error answers\<close>

datatype api_error = ApiError (err_status: nat) (err_code: string)

abbreviation bad_request :: "string \<Rightarrow> api_error" where
  "bad_request \<equiv> ApiError 400"

abbreviation unauthorized :: "string \<Rightarrow> api_error" where
  "unauthorized \<equiv> ApiError 401"

abbreviation forbidden :: "string \<Rightarrow> api_error" where
  "forbidden \<equiv> ApiError 403"

abbreviation not_found :: "string \<Rightarrow> api_error" where
  "not_found \<equiv> ApiError 404"

abbreviation conflict :: "string \<Rightarrow> api_error" where
  "conflict \<equiv> ApiError 409"

abbreviation gone :: "string \<Rightarrow> api_error" where
  "gone \<equiv> ApiError 410"

definition db_error :: api_error where
  "db_error = ApiError 500 ''db_error''"

definition internal_error :: api_error where
  "internal_error = ApiError 500 ''internal_error''"

lemma err_status_internal [simp]:
  "err_status db_error = 500" "err_status internal_error = 500"
  by (simp_all add: db_error_def internal_error_def)

section \<open>Actions\<close>

type_synonym ('s, 'a) action = "'s \<Rightarrow> (api_error + 'a) \<times> 's"

definition return :: "'a \<Rightarrow> ('s, 'a) action" where
  "return x = (\<lambda>s. (Inr x, s))"

definition throw :: "api_error \<Rightarrow> ('s, 'a) action" where
  "throw e = (\<lambda>s. (Inl e, s))"

definition andthen :: "('s, 'a) action \<Rightarrow> ('a \<Rightarrow> ('s, 'b) action) \<Rightarrow> ('s, 'b) action" where
  "andthen m f = (\<lambda>s. case m s of (Inl e, s') \<Rightarrow> (Inl e, s') | (Inr x, s') \<Rightarrow> f x s')"

text \<open>An early return: the error answer unless the condition holds.\<close>

definition require :: "bool \<Rightarrow> api_error \<Rightarrow> ('s, unit) action" where
  "require b e = (if b then return () else throw e)"

definition some_or :: "'a option \<Rightarrow> api_error \<Rightarrow> ('s, 'a) action" where
  "some_or x e = (case x of Some v \<Rightarrow> return v | None \<Rightarrow> throw e)"

definition get_state :: "('s, 's) action" where
  "get_state = (\<lambda>s. (Inr s, s))"

text \<open>\<open>attempt m\<close> makes the outcome of \<open>m\<close> a value, as \<open>.ok()\<close> and \<open>match\<close> on a result do.\<close>

definition attempt :: "('s, 'a) action \<Rightarrow> ('s, 'a option) action" where
  "attempt m = (\<lambda>s. case m s of (Inl e, s') \<Rightarrow> (Inr None, s') | (Inr x, s') \<Rightarrow> (Inr (Some x), s'))"

text \<open>The answer is an error of the caller's choice whatever the error of \<open>m\<close> is.\<close>

definition map_error :: "(api_error \<Rightarrow> api_error) \<Rightarrow> ('s, 'a) action \<Rightarrow> ('s, 'a) action" where
  "map_error h m = (\<lambda>s. case m s of (Inl e, s') \<Rightarrow> (Inl (h e), s') | (Inr x, s') \<Rightarrow> (Inr x, s'))"

fun for_each :: "'x list \<Rightarrow> ('x \<Rightarrow> ('s, unit) action) \<Rightarrow> ('s, unit) action" where
  "for_each [] f = return ()"
| "for_each (x # xs) f = andthen (f x) (\<lambda>_. for_each xs f)"

definition from_result :: "api_error + 'a \<Rightarrow> ('s, 'a) action" where
  "from_result r = (\<lambda>s. (r, s))"

section \<open>Weakest preconditions\<close>

definition wp :: "('s, 'a) action \<Rightarrow> ('a \<Rightarrow> 's \<Rightarrow> bool) \<Rightarrow> (api_error \<Rightarrow> 's \<Rightarrow> bool) \<Rightarrow> 's \<Rightarrow> bool" where
  "wp m Q E s = (case m s of (Inl e, s') \<Rightarrow> E e s' | (Inr x, s') \<Rightarrow> Q x s')"

lemma wp_success: "wp f Q E w \<Longrightarrow> isl (fst (f w)) = False \<Longrightarrow> \<exists>a. Q a (snd (f w))"
  by (auto simp: wp_def split: prod.splits sum.splits)

lemma wp_return [wp_simps, simp]: "wp (return x) Q E s = Q x s"
  by (simp add: wp_def return_def)

lemma wp_throw [wp_simps, simp]: "wp (throw e) Q E s = E e s"
  by (simp add: wp_def throw_def)

lemma wp_andthen [wp_simps]: "wp (andthen m f) Q E s = wp m (\<lambda>x. wp (f x) Q E) E s"
  by (auto simp: wp_def andthen_def split: prod.splits sum.splits)

lemma wp_require [wp_simps]: "wp (require b e) Q E s = (if b then Q () s else E e s)"
  by (simp add: require_def)

lemma wp_some_or [wp_simps]:
  "wp (some_or x e) Q E s = (case x of Some v \<Rightarrow> Q v s | None \<Rightarrow> E e s)"
  by (simp add: some_or_def split: option.split)

lemma wp_get_state [wp_simps, simp]: "wp get_state Q E s = Q s s"
  by (simp add: wp_def get_state_def)

lemma wp_attempt [wp_simps]:
  "wp (attempt m) Q E s = wp m (\<lambda>x. Q (Some x)) (\<lambda>_. Q None) s"
  by (auto simp: wp_def attempt_def split: prod.splits sum.splits)

lemma wp_map_error [wp_simps]: "wp (map_error h m) Q E s = wp m Q (\<lambda>e. E (h e)) s"
  by (auto simp: wp_def map_error_def split: prod.splits sum.splits)

lemma wp_from_result [wp_simps]:
  "wp (from_result r) Q E s = (case r of Inl e \<Rightarrow> E e s | Inr x \<Rightarrow> Q x s)"
  by (simp add: wp_def from_result_def split: sum.split)

lemma wp_if [wp_simps]:
  "wp (if b then m else n) Q E s = (if b then wp m Q E s else wp n Q E s)"
  by simp

lemma wp_case_option [wp_simps]:
  "wp (case x of None \<Rightarrow> m | Some v \<Rightarrow> n v) Q E s =
     (case x of None \<Rightarrow> wp m Q E s | Some v \<Rightarrow> wp (n v) Q E s)"
  by (simp split: option.split)

lemma wp_case_prod [wp_simps]:
  "wp (case p of (a, b) \<Rightarrow> m a b) Q E s = (case p of (a, b) \<Rightarrow> wp (m a b) Q E s)"
  by (simp split: prod.split)

lemma wp_mono:
  assumes "wp m Q E s"
    and "\<And>x s'. Q x s' \<Longrightarrow> Q' x s'" and "\<And>e s'. E e s' \<Longrightarrow> E' e s'"
  shows "wp m Q' E' s"
  using assms by (auto simp: wp_def split: prod.splits sum.splits)

lemma wp_conj:
  "wp m Q E s \<Longrightarrow> wp m Q' E' s \<Longrightarrow> wp m (\<lambda>x t. Q x t \<and> Q' x t) (\<lambda>e t. E e t \<and> E' e t) s"
  by (auto simp: wp_def split: prod.splits sum.splits)

text \<open>Reading a fact about a run off its weakest precondition, and back.\<close>

lemma wp_Inr: "wp m Q E s \<Longrightarrow> m s = (Inr x, s') \<Longrightarrow> Q x s'"
  by (simp add: wp_def)

lemma wp_Inl: "wp m Q E s \<Longrightarrow> m s = (Inl e, s') \<Longrightarrow> E e s'"
  by (simp add: wp_def)

lemma wp_snd: "wp m (\<lambda>_. P) (\<lambda>_. P) s \<Longrightarrow> P (snd (m s))"
  by (auto simp: wp_def split: prod.splits sum.splits)

lemma wp_iff_cases:
  "wp m Q E s \<longleftrightarrow> (\<forall>x s'. m s = (Inr x, s') \<longrightarrow> Q x s') \<and> (\<forall>e s'. m s = (Inl e, s') \<longrightarrow> E e s')"
  by (auto simp: wp_def split: prod.splits sum.splits)

lemma wp_for_each:
  assumes "I s"
    and "\<And>x s. x \<in> set xs \<Longrightarrow> I s \<Longrightarrow> wp (f x) (\<lambda>_. I) E s"
    and "\<And>s. I s \<Longrightarrow> Q () s"
  shows "wp (for_each xs f) Q E s"
  using assms
proof (induction xs arbitrary: s)
  case Nil
  then show ?case by simp
next
  case (Cons x xs)
  have "wp (f x) (\<lambda>_. I) E s"
    using Cons.prems by simp
  moreover have "wp (for_each xs f) Q E s'" if "I s'" for s'
    using Cons.IH [OF that] Cons.prems by simp
  ultimately show ?case
    by (auto simp: wp_simps elim: wp_mono)
qed

section \<open>Tables\<close>

text \<open>
  A table is the list of its rows; \<open>UPDATE .. WHERE\<close> is \<open>update_where\<close> and
  \<open>DELETE .. WHERE\<close> is \<open>delete_where\<close>.
\<close>

definition update_where :: "('r \<Rightarrow> bool) \<Rightarrow> ('r \<Rightarrow> 'r) \<Rightarrow> 'r list \<Rightarrow> 'r list" where
  "update_where p f rows = map (\<lambda>r. if p r then f r else r) rows"

definition delete_where :: "('r \<Rightarrow> bool) \<Rightarrow> 'r list \<Rightarrow> 'r list" where
  "delete_where p rows = filter (\<lambda>r. \<not> p r) rows"

definition count_where :: "('r \<Rightarrow> bool) \<Rightarrow> 'r list \<Rightarrow> nat" where
  "count_where p rows = length (filter p rows)"

definition exists_where :: "('r \<Rightarrow> bool) \<Rightarrow> 'r list \<Rightarrow> bool" where
  "exists_where p rows = list_ex p rows"

lemma exists_where_iff [simp]: "exists_where p rows \<longleftrightarrow> (\<exists>r \<in> set rows. p r)"
  by (simp add: exists_where_def list_ex_iff)

lemma set_delete_where [simp]: "set (delete_where p rows) = {r \<in> set rows. \<not> p r}"
  by (auto simp: delete_where_def)

lemma set_update_where [simp]:
  "set (update_where p f rows) = (\<lambda>r. if p r then f r else r) ` set rows"
  by (simp add: update_where_def)

lemma bex_update_where:
  assumes "\<And>r. P (f r) = P r"
  shows "(\<exists>r \<in> set (update_where p f rows). P r) \<longleftrightarrow> (\<exists>r \<in> set rows. P r)"
  using assms by (induction rows) (auto simp: update_where_def)

lemma update_where_nil [simp]: "update_where p f [] = []"
  by (simp add: update_where_def)

lemma delete_where_nil [simp]: "delete_where p [] = []"
  by (simp add: delete_where_def)

lemma map_update_where_key [simp]:
  assumes "\<And>r. k (f r) = k r"
  shows "map k (update_where p f rows) = map k rows"
  using assms by (simp add: update_where_def)

lemma update_where_none: "(\<And>r. r \<in> set rows \<Longrightarrow> \<not> p r) \<Longrightarrow> update_where p f rows = rows"
  by (induction rows) (auto simp: update_where_def)

lemma delete_where_none: "(\<And>r. r \<in> set rows \<Longrightarrow> \<not> p r) \<Longrightarrow> delete_where p rows = rows"
  by (induction rows) (auto simp: delete_where_def)

lemma distinct_map_delete_where [intro]:
  "distinct (map k rows) \<Longrightarrow> distinct (map k (delete_where p rows))"
  by (simp add: delete_where_def distinct_map_filter)

lemma count_where_nil [simp]: "count_where p [] = 0"
  by (simp add: count_where_def)

lemma count_where_cons [simp]:
  "count_where p (r # rows) = (if p r then Suc (count_where p rows) else count_where p rows)"
  by (simp add: count_where_def)

lemma count_where_append [simp]:
  "count_where p (xs @ ys) = count_where p xs + count_where p ys"
  by (simp add: count_where_def)

lemma count_where_delete:
  "count_where p (delete_where q rows) = count_where (\<lambda>r. p r \<and> \<not> q r) rows"
  by (induction rows) (auto simp: delete_where_def)

lemma count_where_eq_0: "count_where p rows = 0 \<longleftrightarrow> (\<forall>r \<in> set rows. \<not> p r)"
  by (induction rows) auto

lemma count_where_cong:
  "(\<And>r. r \<in> set rows \<Longrightarrow> p r = q r) \<Longrightarrow> count_where p rows = count_where q rows"
  by (induction rows) auto

lemma count_where_split:
  "count_where p rows = count_where (\<lambda>r. p r \<and> q r) rows + count_where (\<lambda>r. p r \<and> \<not> q r) rows"
  by (induction rows) auto

lemma find_Some_iff_key:
  assumes "distinct (map k rows)"
  shows "find (\<lambda>r. k r = i) rows = Some r \<longleftrightarrow> r \<in> set rows \<and> k r = i"
  using assms by (induction rows) (auto simp: rev_image_eqI)

lemma find_Some_iff_pair:
  assumes "distinct (map (\<lambda>r. (f r, g r)) rows)"
  shows "find (\<lambda>r. f r = a \<and> g r = b) rows = Some r \<longleftrightarrow> r \<in> set rows \<and> f r = a \<and> g r = b"
  using find_Some_iff_key [OF assms, of "(a, b)" r] by simp

lemma find_SomeD: "find p rows = Some r \<Longrightarrow> r \<in> set rows \<and> p r"
  by (induction rows) (auto split: if_splits)

lemma find_append: "find p (xs @ ys) = (case find p xs of None \<Rightarrow> find p ys | Some x \<Rightarrow> Some x)"
  by (induction xs) auto

lemma update_where_cons: "update_where p f (r # rows) = (if p r then f r else r) # update_where p f rows"
  by (simp add: update_where_def)

lemma find_update_where:
  assumes "\<And>r. k (f r) = k r"
  shows "find (\<lambda>r. k r = i) (update_where (\<lambda>r. k r = i) f rows)
    = map_option f (find (\<lambda>r. k r = i) rows)"
  using assms by (induction rows) (auto simp: update_where_def)

lemma distinct_map_inj: "distinct (map k xs) \<Longrightarrow> x \<in> set xs \<Longrightarrow> y \<in> set xs \<Longrightarrow> k x = k y \<Longrightarrow> x = y"
  by (induction xs) (auto simp: rev_image_eqI)

lemma count_where_key:
  assumes "distinct (map k rows)" and "r \<in> set rows"
  shows "count_where (\<lambda>x. k x = k r) rows = 1"
  using assms by (induction rows) (auto simp: count_where_eq_0 rev_image_eqI image_iff)

text \<open>\<open>sort\<close> followed by \<open>dedup\<close> removes every repetition.\<close>

lemma distinct_remdups_adj_sorted:
  fixes xs :: "'a :: linorder list"
  shows "sorted xs \<Longrightarrow> distinct (remdups_adj xs)"
  by (induction xs rule: remdups_adj.induct) fastforce+

lemma distinct_sort_dedup [simp]: "distinct (remdups_adj (sort xs))"
  by (simp add: distinct_remdups_adj_sorted)

section \<open>Step relations\<close>

inductive reachable :: "('s \<Rightarrow> bool) \<Rightarrow> ('s \<Rightarrow> 's \<Rightarrow> bool) \<Rightarrow> 's \<Rightarrow> bool"
  for init step where
  start: "init s \<Longrightarrow> reachable init step s"
| next_step: "reachable init step s \<Longrightarrow> step s t \<Longrightarrow> reachable init step t"

text \<open>The interface of a component with an invariant: any number of steps keep it.\<close>

locale invariant_system =
  fixes init :: "'s \<Rightarrow> bool" and step :: "'s \<Rightarrow> 's \<Rightarrow> bool" and inv :: "'s \<Rightarrow> bool"
  assumes init_inv: "init s \<Longrightarrow> inv s"
    and step_inv: "inv s \<Longrightarrow> step s t \<Longrightarrow> inv t"
begin

lemma reachable_inv: "reachable init step s \<Longrightarrow> inv s"
  by (induction rule: reachable.induct) (auto intro: init_inv step_inv)

lemma steps_inv: "step\<^sup>*\<^sup>* s t \<Longrightarrow> inv s \<Longrightarrow> inv t"
  by (induction rule: rtranclp_induct) (auto intro: step_inv)

end

end
