(* ===== verification/Text.thy ===== *)
theory Text
  imports Prelude "HOL-Library.Char_ord" "HOL-Library.List_Lexorder"
begin

text \<open>
  Rust strings.  A \<open>String\<close> is its UTF-8 bytes, one \<open>char\<close> per byte, so \<open>length\<close> is
  \<open>str::len\<close>.  The operations of the standard library that the handlers use are here: \<open>trim\<close>,
  \<open>starts_with\<close>, \<open>contains\<close>, \<open>to_string\<close> and \<open>parse::<i64>\<close> of integers.  The Unicode lower-case
  mapping is a parameter wherever it is used.
\<close>

section \<open>Prefixes and substrings\<close>

fun starts_with :: "string \<Rightarrow> string \<Rightarrow> bool" where
  "starts_with [] s = True"
| "starts_with (c # cs) [] = False"
| "starts_with (c # cs) (d # s) = (c = d \<and> starts_with cs s)"

fun has_sub :: "string \<Rightarrow> string \<Rightarrow> bool" where
  "has_sub t [] = (t = [])"
| "has_sub t (c # s) = (starts_with t (c # s) \<or> has_sub t s)"

fun join_with :: "string \<Rightarrow> string list \<Rightarrow> string" where
  "join_with sep [] = []"
| "join_with sep [x] = x"
| "join_with sep (x # y # xs) = x @ sep @ join_with sep (y # xs)"

lemma starts_with_iff: "starts_with p s \<longleftrightarrow> (\<exists>r. s = p @ r)"
  by (induction p s rule: starts_with.induct) auto

lemma starts_with_length: "starts_with p s \<Longrightarrow> length p \<le> length s"
  by (auto simp: starts_with_iff)

lemma has_sub_iff: "has_sub t s \<longleftrightarrow> (\<exists>a b. s = a @ t @ b)"
proof (induction s)
  case Nil
  then show ?case by simp
next
  case (Cons c s)
  show ?case
  proof
    assume "has_sub t (c # s)"
    then consider "starts_with t (c # s)" | "has_sub t s" by auto
    then show "\<exists>a b. c # s = a @ t @ b"
    proof cases
      case 1
      then obtain r where "c # s = [] @ t @ r" by (auto simp: starts_with_iff)
      then show ?thesis by blast
    next
      case 2
      then obtain a b where "s = a @ t @ b" using Cons.IH by blast
      then have "c # s = (c # a) @ t @ b" by simp
      then show ?thesis by blast
    qed
  next
    assume "\<exists>a b. c # s = a @ t @ b"
    then obtain a b where eq: "c # s = a @ t @ b" by blast
    show "has_sub t (c # s)"
    proof (cases a)
      case Nil
      then have "starts_with t (c # s)" using eq by (auto simp: starts_with_iff)
      then show ?thesis by simp
    next
      case (Cons d a')
      then have "s = a' @ t @ b" using eq by simp
      then show ?thesis using Cons.IH by auto
    qed
  qed
qed

text \<open>The accented letter of the messages.\<close>

definition e_acute :: string where
  "e_acute = [CHR 0xC3, CHR 0xA9]"

section \<open>Trimming\<close>

text \<open>The UTF-8 encodings of the characters with the Unicode property \<open>White_Space\<close>.\<close>

definition white_space :: "string list" where
  "white_space =
    [[CHR 0x09], [CHR 0x0A], [CHR 0x0B], [CHR 0x0C], [CHR 0x0D], [CHR 0x20],
     [CHR 0xC2, CHR 0x85], [CHR 0xC2, CHR 0xA0], [CHR 0xE1, CHR 0x9A, CHR 0x80],
     [CHR 0xE2, CHR 0x80, CHR 0x80], [CHR 0xE2, CHR 0x80, CHR 0x81],
     [CHR 0xE2, CHR 0x80, CHR 0x82], [CHR 0xE2, CHR 0x80, CHR 0x83],
     [CHR 0xE2, CHR 0x80, CHR 0x84], [CHR 0xE2, CHR 0x80, CHR 0x85],
     [CHR 0xE2, CHR 0x80, CHR 0x86], [CHR 0xE2, CHR 0x80, CHR 0x87],
     [CHR 0xE2, CHR 0x80, CHR 0x88], [CHR 0xE2, CHR 0x80, CHR 0x89],
     [CHR 0xE2, CHR 0x80, CHR 0x8A], [CHR 0xE2, CHR 0x80, CHR 0xA8],
     [CHR 0xE2, CHR 0x80, CHR 0xA9], [CHR 0xE2, CHR 0x80, CHR 0xAF],
     [CHR 0xE2, CHR 0x81, CHR 0x9F], [CHR 0xE3, CHR 0x80, CHR 0x80]]"

function strip_left :: "string list \<Rightarrow> string \<Rightarrow> string" where
  "strip_left ws s =
     (case find (\<lambda>w. w \<noteq> [] \<and> starts_with w s) ws of
        None \<Rightarrow> s
      | Some w \<Rightarrow> strip_left ws (drop (length w) s))"
  by pat_completeness auto
termination
  by (relation "measure (\<lambda>(ws, s). length s)")
    (auto dest!: find_SomeD starts_with_length simp: neq_Nil_conv)

declare strip_left.simps [simp del]

definition trim :: "string \<Rightarrow> string" where
  "trim s = rev (strip_left (map rev white_space) (rev (strip_left white_space s)))"

lemma strip_left_nil [simp]: "strip_left ws [] = []"
proof (cases "find (\<lambda>w. w \<noteq> [] \<and> starts_with w []) ws")
  case None
  then show ?thesis by (subst strip_left.simps) simp
next
  case (Some w)
  then have "w \<noteq> [] \<and> starts_with w []" using find_SomeD by fast
  then show ?thesis by (cases w) auto
qed

lemma trim_nil [simp]: "trim [] = []"
  by (simp add: trim_def)

lemma length_strip_left: "length (strip_left ws s) \<le> length s"
proof (induction ws s rule: strip_left.induct)
  case (1 ws s)
  then show ?case
    by (subst strip_left.simps) (auto split: option.splits intro: le_trans)
qed

lemma length_trim: "length (trim s) \<le> length s"
  using length_strip_left [of white_space s]
    length_strip_left [of "map rev white_space" "rev (strip_left white_space s)"]
  by (simp add: trim_def)

section \<open>ASCII and single characters\<close>

definition ascii_lower_char :: "char \<Rightarrow> char" where
  "ascii_lower_char c = (let n = of_char c :: nat in if 65 \<le> n \<and> n \<le> 90 then char_of (n + 32) else c)"

definition to_ascii_lowercase :: "string \<Rightarrow> string" where
  "to_ascii_lowercase s = map ascii_lower_char s"

definition eq_ignore_ascii_case :: "string \<Rightarrow> string \<Rightarrow> bool" where
  "eq_ignore_ascii_case a b \<longleftrightarrow> to_ascii_lowercase a = to_ascii_lowercase b"

definition trim_start_char :: "char \<Rightarrow> string \<Rightarrow> string" where
  "trim_start_char c s = dropWhile (\<lambda>x. x = c) s"

definition trim_end_char :: "char \<Rightarrow> string \<Rightarrow> string" where
  "trim_end_char c s = rev (dropWhile (\<lambda>x. x = c) (rev s))"

definition ends_with :: "string \<Rightarrow> string \<Rightarrow> bool" where
  "ends_with suffix s = starts_with (rev suffix) (rev s)"

definition replace_char :: "char \<Rightarrow> string \<Rightarrow> string \<Rightarrow> string" where
  "replace_char c t s = concat (map (\<lambda>x. if x = c then t else [x]) s)"

text \<open>\<open>chars().count()\<close>: the bytes that do not continue a character.\<close>

definition char_count :: "string \<Rightarrow> nat" where
  "char_count s = length (filter (\<lambda>c. (of_char c :: nat) div 64 \<noteq> 2) s)"

definition a_grave :: string where
  "a_grave = [CHR 0xC3, CHR 0xA0]"

lemma eq_ignore_ascii_case_refl [simp]: "eq_ignore_ascii_case s s"
  by (simp add: eq_ignore_ascii_case_def)

lemma eq_ignore_ascii_case_sym: "eq_ignore_ascii_case s t = eq_ignore_ascii_case t s"
  by (auto simp: eq_ignore_ascii_case_def)

lemma set_replace_char: "set (replace_char c t s) \<subseteq> (set s - {c}) \<union> set t"
  by (auto simp: replace_char_def split: if_splits)

section \<open>Decimal numbers\<close>

definition digit :: "nat \<Rightarrow> char" where
  "digit n = char_of (48 + n)"

fun show_nat :: "nat \<Rightarrow> string" where
  "show_nat n = (if n < 10 then [digit n] else show_nat (n div 10) @ [digit (n mod 10)])"

declare show_nat.simps [simp del]

definition show_int :: "int \<Rightarrow> string" where
  "show_int i = (if i < 0 then CHR ''-'' # show_nat (nat (- i)) else show_nat (nat i))"

definition digit_value :: "char \<Rightarrow> nat option" where
  "digit_value c = (let n = of_char c :: nat in if 48 \<le> n \<and> n \<le> 57 then Some (n - 48) else None)"

fun parse_digits :: "nat \<Rightarrow> string \<Rightarrow> nat option" where
  "parse_digits acc [] = Some acc"
| "parse_digits acc (c # cs) =
     (case digit_value c of None \<Rightarrow> None | Some d \<Rightarrow> parse_digits (10 * acc + d) cs)"

definition parse_unsigned :: "string \<Rightarrow> nat option" where
  "parse_unsigned s = (if s = [] then None else parse_digits 0 s)"

text \<open>\<open>str::parse::<i64>\<close>: an optional sign, at least one digit, and a value in range.\<close>

definition parse_i64 :: "string \<Rightarrow> int option" where
  "parse_i64 s =
     (let v = (case s of
                 [] \<Rightarrow> None
               | c # cs \<Rightarrow>
                   if c = CHR ''-'' then map_option (\<lambda>n. - int n) (parse_unsigned cs)
                   else if c = CHR ''+'' then map_option int (parse_unsigned cs)
                   else map_option int (parse_unsigned s))
      in case v of None \<Rightarrow> None | Some i \<Rightarrow> if - (2 ^ 63) \<le> i \<and> i < 2 ^ 63 then Some i else None)"

lemma digit_value_digit [simp]: "n < 10 \<Longrightarrow> digit_value (digit n) = Some n"
  by (simp add: digit_value_def digit_def Let_def)

lemma parse_digits_append:
  "parse_digits acc (xs @ ys) =
     (case parse_digits acc xs of None \<Rightarrow> None | Some a \<Rightarrow> parse_digits a ys)"
  by (induction xs arbitrary: acc) (auto split: option.split)

lemma show_nat_nonempty [simp]: "show_nat n \<noteq> []"
  by (subst show_nat.simps) simp

lemma parse_show_nat: "parse_digits 0 (show_nat n) = Some n"
proof (induction n rule: show_nat.induct)
  case (1 n)
  show ?case
  proof (cases "n < 10")
    case True
    then show ?thesis by (subst show_nat.simps) simp
  next
    case False
    with 1 show ?thesis
      by (subst show_nat.simps) (simp add: parse_digits_append)
  qed
qed

lemma parse_digits_all: "parse_digits acc s = Some n \<Longrightarrow> c \<in> set s \<Longrightarrow> digit_value c \<noteq> None"
  by (induction s arbitrary: acc) (auto split: option.splits)

lemma show_nat_head_not_sign:
  assumes "show_nat n = c # cs"
  shows "c \<noteq> CHR ''-'' \<and> c \<noteq> CHR ''+''"
proof -
  have "digit_value c \<noteq> None"
    using parse_digits_all [OF parse_show_nat [of n], of c] assms by simp
  then show ?thesis by (auto simp: digit_value_def Let_def)
qed

lemma parse_unsigned_show_nat [simp]: "parse_unsigned (show_nat n) = Some n"
  by (simp add: parse_unsigned_def parse_show_nat)

theorem parse_show_int:
  assumes "- (2 ^ 63) \<le> i" and "i < 2 ^ 63"
  shows "parse_i64 (show_int i) = Some i"
proof (cases "i < 0")
  case True
  then show ?thesis using assms by (simp add: parse_i64_def show_int_def Let_def)
next
  case False
  then obtain c cs where "show_nat (nat i) = c # cs"
    by (meson neq_Nil_conv show_nat_nonempty)
  moreover from this have "c \<noteq> CHR ''-'' \<and> c \<noteq> CHR ''+''"
    by (rule show_nat_head_not_sign)
  moreover have "parse_unsigned (c # cs) = Some (nat i)"
    using calculation(1) by (metis parse_unsigned_show_nat)
  ultimately show ?thesis
    using False assms by (simp add: parse_i64_def show_int_def)
qed

lemma show_nat_inj: "show_nat m = show_nat n \<Longrightarrow> m = n"
  by (metis option.inject parse_show_nat)

lemma show_int_inj: "show_int i = show_int j \<Longrightarrow> i = j"
proof -
  assume eq: "show_int i = show_int j"
  obtain c cs where i: "show_nat (nat (\<bar>i\<bar>)) = c # cs" by (meson neq_Nil_conv show_nat_nonempty)
  obtain d ds where j: "show_nat (nat (\<bar>j\<bar>)) = d # ds" by (meson neq_Nil_conv show_nat_nonempty)
  have "(i < 0) = (j < 0)"
    using eq i j show_nat_head_not_sign [OF i] show_nat_head_not_sign [OF j]
    by (auto simp: show_int_def split: if_splits)
  then show "i = j"
    using eq by (auto simp: show_int_def split: if_splits dest!: show_nat_inj)
qed

lemma show_int_digits: "c \<in> set (show_int i) \<Longrightarrow> c = CHR ''-'' \<or> digit_value c \<noteq> None"
  using parse_digits_all [OF parse_show_nat]
  by (auto simp: show_int_def split: if_splits)

end
