(* ===== verification/World.thy ===== *)
theory World
  imports Text "HOL-Library.Word"
begin

text \<open>
  The state the handlers act on: the tables of the PostgreSQL database (one list of rows per
  table, named after the migrations), the sequences behind the \<open>BIGSERIAL\<close> columns, the clock,
  the messages handed to Redis, the names of the files in the directory of avatars, and the services the code calls as parameters in \<open>config\<close>.

  A statement that is sent to the database may fail for reasons outside the program; the list
  \<open>faults\<close> says which of the coming statements do.  Theorems quantify over it, so they cover
  every pattern of failures.  \<open>transact\<close> is a \<open>sqlx\<close> transaction: an early return rolls the
  tables back (dropping the transaction), as does a failed \<open>COMMIT\<close>; sequences are not rolled back.

  Columns that hold ciphertext are modelled by the text they decrypt to.  Timestamps are
  microseconds since the epoch, identifiers are integers, \<open>f64\<close> coordinates are their bit
  patterns (they are only copied).
\<close>

type_synonym micros = int
type_synonym uuid = nat
type_synonym f64_bits = nat

abbreviation seconds :: "int \<Rightarrow> micros" where
  "seconds n \<equiv> n * 1000000"

abbreviation minutes :: "int \<Rightarrow> micros" where
  "minutes n \<equiv> n * 60000000"

abbreviation days :: "int \<Rightarrow> micros" where
  "days n \<equiv> n * 86400000000"

named_theorems grows_intros \<open>actions that never turn a sequence back\<close>
named_theorems tail_intros \<open>actions whose errors are all the server's\<close>
named_theorems keeps_intros \<open>actions that keep a condition on worlds\<close>

section \<open>JSON values\<close>

datatype json =
    JNull
  | JBool bool
  | JInt int
  | JStr string
  | JArr "json list"
  | JObj "(string \<times> json) list"

fun json_get :: "string \<Rightarrow> json \<Rightarrow> json option" where
  "json_get k (JObj fs) = map_of fs k"
| "json_get k _ = None"

section \<open>Rows\<close>

record user =
  u_id :: int
  u_public_id :: uuid
  u_email :: string
  u_email_hash :: string
  u_handle :: string
  u_avatar_url :: "string option"
  u_session_version :: int
  u_suspended :: bool
  u_password_hash :: string
  u_password_login :: bool

text \<open>
  The columns of an event that its organiser fills in.  Dates are days since the epoch, times
  microseconds since midnight.
\<close>

record event_form =
  ef_description :: string
  ef_date_event :: int
  ef_start_time :: micros
  ef_end_date :: "int option"
  ef_end_time :: "micros option"
  ef_timezone :: string
  ef_address :: string
  ef_latitude :: "f64_bits option"
  ef_longitude :: "f64_bits option"
  ef_payment_provider_id :: "int option"
  ef_payment_identifier :: "string option"
  ef_payment_requested_amount :: "f64_bits option"
  ef_payment_per_person :: bool
  ef_playlist_url :: "string option"
  ef_playlist_provider :: "string option"
  ef_enabled_features :: "string list"

record event =
  e_id :: int
  e_name :: string
  e_owner_id :: int
  e_starts_at :: micros
  e_effective_ends_at :: micros
  e_invitation_deadline :: "int option"
  e_deleted_at :: "micros option"
  e_purge_at :: "micros option"
  e_deletion_reason :: "string option"
  e_moderation_hidden :: bool
  e_form :: event_form

datatype invitation_status = Waiting | Accepted | Declined | Expired

record invitation =
  i_event_id :: int
  i_user_id :: int
  i_status :: invitation_status
  i_date :: micros
  i_id :: int

record carpool =
  c_id :: int
  c_event_id :: int
  c_driver_id :: int
  c_origin :: string
  c_origin_latitude :: "f64_bits option"
  c_origin_longitude :: "f64_bits option"
  c_depart_at :: micros
  c_seats_total :: int
  c_seats_taken :: int
  c_notes :: "string option"
  c_created_at :: micros
  c_updated_at :: micros

record carpool_passenger =
  cp_carpool_id :: int
  cp_event_id :: int
  cp_user_id :: int
  cp_joined_at :: micros

record expense =
  x_id :: int
  x_event_id :: int
  x_paid_by :: int
  x_created_by :: int
  x_title :: string
  x_amount_cents :: int
  x_note :: "string option"
  x_date :: micros
  x_created_at :: micros

record expense_participant =
  xp_expense_id :: int
  xp_user_id :: int
  xp_share_weight :: int

record poll =
  p_id :: int
  p_event_id :: int
  p_question :: string
  p_allow_multiple :: bool
  p_expires_at :: micros
  p_created_at :: micros
  p_created_by :: "int option"

record poll_option =
  o_id :: int
  o_poll_id :: int
  o_label :: string
  o_position :: int

record poll_vote =
  v_poll_id :: int
  v_option_id :: int
  v_user_id :: int

datatype request_status = ReqPending | ReqAccepted | ReqDeclined

record friend_request =
  fr_id :: int
  fr_sender_id :: int
  fr_receiver_id :: int
  fr_status :: request_status
  fr_created_at :: micros
  fr_responded_at :: "micros option"

record friendship =
  fs_user_a :: int
  fs_user_b :: int
  fs_created_at :: micros

record user_block =
  ub_blocker_id :: int
  ub_blocked_id :: int
  ub_created_at :: micros

record user_item =
  ui_user_id :: int
  ui_event_id :: int
  ui_item_id :: int
  ui_quantity :: int

record event_item =
  ei_event_id :: int
  ei_item_id :: int
  ei_max_quantity :: int
  ei_quantity :: int
  ei_created_by :: "int option"

datatype item_kind = Need | Bring

record item =
  it_id :: int
  it_type_id :: int
  it_name :: string
  it_max_quantity :: int
  it_unit_label :: string
  it_kind :: item_kind

record item_type =
  ty_id :: int
  ty_name :: string

record share_token =
  st_token_hash :: string
  st_event_id :: int
  st_created_by :: "int option"
  st_used_at :: "micros option"
  st_used_by :: "int option"
  st_expires_at :: micros
  st_target_email :: "string option"
  st_target_hash :: "string option"
  st_created_at :: micros

record event_checkin =
  k_token_hash :: string
  k_event_id :: int
  k_user_id :: int
  k_generated_at :: micros
  k_scanned_at :: "micros option"
  k_scanned_by :: "int option"
  k_is_valid :: bool

record payment_provider =
  pp_id :: int
  pp_name :: string
  pp_url_template :: string
  pp_validation_regex :: string
  pp_is_active :: bool

datatype outbox_status = Pending | Processing | Retry | Sent | Dead

record outbox_row =
  n_id :: int
  n_user_id :: int
  n_title :: string
  n_body :: string
  n_data :: json
  n_dedup_key :: "string option"
  n_status :: outbox_status
  n_attempts :: int
  n_available_at :: micros
  n_locked_at :: "micros option"
  n_sent_at :: "micros option"
  n_last_error :: "string option"
  n_created_at :: micros
  n_dedup_expires_at :: "micros option"

record user_device =
  d_user_id :: int
  d_token :: string
  d_platform :: string
  d_locale :: "string option"
  d_app_version :: "string option"
  d_created_at :: micros
  d_last_seen :: micros
  d_disabled_at :: "micros option"

record apple_credential =
  ac_user_id :: int
  ac_client_id :: string
  ac_refresh_token :: string

record oauth_identity =
  oi_provider :: string
  oi_user_id :: int
  oi_subject_hash :: string
  oi_last_login :: "micros option"

record mobile_session =
  ms_id :: uuid
  ms_user_id :: int
  ms_session_version :: int
  ms_token_hash :: string
  ms_previous_hash :: "string option"
  ms_previous_until :: "micros option"
  ms_token :: string
  ms_created_at :: micros
  ms_expires_at :: micros

record pending_registration =
  pr_email_hash :: string
  pr_email :: string
  pr_password_hash :: string
  pr_handle :: string
  pr_token_hash :: string
  pr_token :: "string option"
  pr_expires_at :: micros

record password_reset =
  pw_user_id :: int
  pw_token_hash :: string
  pw_expires_at :: micros
  pw_requested_at :: micros

datatype report_status = ReportOpen | ReportResolved | ReportDismissed

record abuse_report =
  ab_public_id :: uuid
  ab_reporter_id :: "int option"
  ab_target_id :: "int option"
  ab_event_id :: "int option"
  ab_reason :: string
  ab_comment :: string
  ab_status :: report_status
  ab_created_at :: micros
  ab_resolved_at :: "micros option"

record database =
  users :: "user list"
  events :: "event list"
  invitations :: "invitation list"
  carpools :: "carpool list"
  passengers :: "carpool_passenger list"
  expenses :: "expense list"
  participants :: "expense_participant list"
  polls :: "poll list"
  poll_options :: "poll_option list"
  poll_votes :: "poll_vote list"
  friendships :: "friendship list"
  friend_requests :: "friend_request list"
  user_blocks :: "user_block list"
  share_tokens :: "share_token list"
  checkins :: "event_checkin list"
  payment_providers :: "payment_provider list"
  items :: "item list"
  item_types :: "item_type list"
  events_items :: "event_item list"
  user_items :: "user_item list"
  outbox :: "outbox_row list"
  user_devices :: "user_device list"
  apple_credentials :: "apple_credential list"
  apple_revocations :: "(string \<times> string) list"
  oauth_identities :: "oauth_identity list"
  moderation_terms :: "string list"
  revoked_tokens :: "(string \<times> micros) list"
  mobile_sessions :: "mobile_session list"
  pending_registrations :: "pending_registration list"
  password_resets :: "password_reset list"
  abuse_reports :: "abuse_report list"

section \<open>The world\<close>

datatype seq_name = CarpoolSeq | ExpenseSeq | PollSeq | OptionSeq | RequestSeq | OutboxSeq
  | ItemSeq | TypeSeq | EventSeq | InvitationSeq | UserSeq | ProviderSeq

datatype jwt_failure = ExpiredSignature | InvalidToken | OtherJwtError

record claims =
  cl_sub :: string
  cl_handle :: string
  cl_exp :: nat
  cl_session_version :: int

text \<open>
  What the code takes from other programs: the SQL functions built on \<open>pgcrypto\<close> and on the
  collation of the database, the Unicode tables of the Rust library, JWT verification, SHA-256,
  UUID parsing; and the settings of \<open>AppState\<close> that the handlers read.
\<close>

datatype fcm_reply = NoAccessToken | TransportFailure | Reply nat string

record fcm_response =
  fcm_success :: "int option"
  fcm_failure :: "int option"
  fcm_results :: "string option list option"

datatype local_time = Single micros | Ambiguous micros micros | Skipped

datatype ip_addr = V4 "8 word list" | V6 "16 word list"

datatype mail_reply = MailAccepted | MailRefused nat | MailTransportError

text \<open>
  An e-mail: its text and its HTML part are given by what is put into their templates.
\<close>

record mail =
  m_from :: string
  m_to :: string
  m_subject :: string
  m_event_name :: string
  m_date :: int
  m_time :: micros
  m_link :: string
  m_html_event_name :: string
  m_html_owner :: string
  m_html_link :: string

record event_cursor =
  ec_version :: nat
  ec_start :: micros
  ec_id :: int
  ec_criteria :: string

text \<open>What the image library makes of an upload.\<close>

datatype avatar_error = InvalidImage | EncodeFailed

type_synonym push_message = "string \<times> string \<times> json"

record config =
  email_lookup :: "string \<Rightarrow> string"
  sql_lower :: "string \<Rightarrow> string"
  sql_sort_key :: "string \<Rightarrow> string"
  sql_like :: "string \<Rightarrow> string \<Rightarrow> bool"
  sql_timestamp_from_ms :: "int \<Rightarrow> micros option"
  lowercase :: "string \<Rightarrow> string"
  jwt_verify :: "micros \<Rightarrow> string \<Rightarrow> jwt_failure + claims"
  jwt_sign :: "string option \<Rightarrow> uuid \<Rightarrow> claims \<Rightarrow> string option"
  jwt_has_no_kind :: "micros \<Rightarrow> string \<Rightarrow> bool"
  argon2_hash :: "uuid \<Rightarrow> string \<Rightarrow> string option"
  argon2_verify :: "string \<Rightarrow> string \<Rightarrow> bool"
  avatar_base_url :: string
  process_avatar :: "string \<Rightarrow> avatar_error + string"
  any_uppercase :: "string \<Rightarrow> bool"
  any_lowercase :: "string \<Rightarrow> bool"
  lookup_text :: "string \<Rightarrow> string"
  reset_link :: "string \<Rightarrow> string \<Rightarrow> string option"
  google_client_ids :: "string list"
  google_tokeninfo :: "string option \<Rightarrow> string option \<Rightarrow> (unit + json) option"
  google_userinfo :: "string \<Rightarrow> json option"
  datetime_from_seconds :: "int \<Rightarrow> micros option"
  sha256_hex :: "string \<Rightarrow> string"
  uuid_parse :: "string \<Rightarrow> uuid option"
  uuid_show :: "uuid \<Rightarrow> string"
  timezone_known :: "string \<Rightarrow> bool"
  from_local_datetime :: "string \<Rightarrow> int \<Rightarrow> micros \<Rightarrow> local_time"
  sql_at_time_zone :: "string \<Rightarrow> int \<Rightarrow> micros \<Rightarrow> micros"
  regex_is_match :: "string \<Rightarrow> string \<Rightarrow> bool option"
  url_parse :: "string \<Rightarrow> (string \<times> string option) option"
  ip_parse :: "string \<Rightarrow> ip_addr option"
  send_mail :: "mail \<Rightarrow> mail_reply"
  invitation_email_sender :: "string option"
  invitation_email_api_key :: "string option"
  app_base_url :: string
  trust_proxy_headers :: bool
  cursor_parse :: "string \<Rightarrow> event_cursor option"
  cursor_show :: "event_cursor \<Rightarrow> string"
  json_strings :: "string list \<Rightarrow> string"
  redis_configured :: bool
  fcm_v1_configured :: bool
  fcm_server_key :: bool
  fcm_v1_send :: "string \<Rightarrow> push_message \<Rightarrow> fcm_reply"
  fcm_legacy_send :: "string list \<Rightarrow> push_message \<Rightarrow> (nat \<times> fcm_response option) option"
  admin_emails :: "string list"
  enforce_page_defaults :: bool

record world =
  db :: database
  seqs :: "seq_name \<Rightarrow> int"
  clock :: micros
  faults :: "bool list"
  published :: "(string \<times> json) list"
  pushed :: "(string \<times> push_message) list"
  mailed :: "mail list"
  avatar_files :: "string list"
  cfg :: config

type_synonym 'a act = "(world, 'a) action"

text \<open>A successful answer: the HTTP status and the body.\<close>

datatype 'a answer = Answer (ans_status: nat) (ans_body: 'a)

record request =
  r_authorization :: "string option"
  r_session_cookie :: "string option"

section \<open>Statements\<close>

datatype sql_error = Unavailable | UniqueViolation | ForeignKeyViolation | CheckViolation

definition fault :: "world \<Rightarrow> bool" where
  "fault w = (case faults w of [] \<Rightarrow> False | b # _ \<Rightarrow> b)"

definition tick :: "world \<Rightarrow> world" where
  "tick w = w\<lparr>faults := tl (faults w)\<rparr>"

definition stmt :: "(sql_error \<Rightarrow> api_error) \<Rightarrow> (world \<Rightarrow> (sql_error + 'a) \<times> world) \<Rightarrow> 'a act" where
  "stmt h f = (\<lambda>w. if fault w then (Inl (h Unavailable), tick w)
     else case f (tick w) of (Inl e, w') \<Rightarrow> (Inl (h e), w') | (Inr x, w') \<Rightarrow> (Inr x, w'))"

definition query :: "api_error \<Rightarrow> (world \<Rightarrow> 'a) \<Rightarrow> 'a act" where
  "query e f = (\<lambda>w. if fault w then (Inl e, tick w) else (Inr (f (tick w)), tick w))"

text \<open>A statement whose only effect is on the tables, and that no constraint can stop.\<close>

definition execute :: "api_error \<Rightarrow> (world \<Rightarrow> 'a \<times> database) \<Rightarrow> 'a act" where
  "execute e f = (\<lambda>w. if fault w then (Inl e, tick w)
     else (Inr (fst (f (tick w))), (tick w)\<lparr>db := snd (f (tick w))\<rparr>))"

definition transact :: "api_error \<Rightarrow> 'a act \<Rightarrow> 'a act" where
  "transact e body = (\<lambda>w. if fault w then (Inl e, tick w)
     else case body (tick w) of
       (Inl x, w') \<Rightarrow> (Inl x, w'\<lparr>db := db w\<rparr>)
     | (Inr x, w') \<Rightarrow> if fault w' then (Inl e, (tick w')\<lparr>db := db w\<rparr>) else (Inr x, tick w'))"

definition nextval :: "seq_name \<Rightarrow> world \<Rightarrow> int \<times> world" where
  "nextval s w = (seqs w s + 1, w\<lparr>seqs := (seqs w)(s := seqs w s + 1)\<rparr>)"

definition now :: "micros act" where
  "now = (\<lambda>w. (Inr (clock w), w))"

text \<open>Publishing is best effort: nothing happens without Redis, and a failure is ignored.\<close>

definition publish_json :: "string \<Rightarrow> json \<Rightarrow> unit act" where
  "publish_json channel payload = (\<lambda>w.
     if redis_configured (cfg w) \<and> \<not> fault w
     then (Inr (), (tick w)\<lparr>published := published w @ [(channel, payload)]\<rparr>)
     else (Inr (), if redis_configured (cfg w) then tick w else w))"

definition event_channel :: "int \<Rightarrow> string" where
  "event_channel event_id = ''fiestaaa:event:'' @ show_int event_id"

definition global_channel :: string where
  "global_channel = ''fiestaaa:global''"

definition publish_event :: "int \<Rightarrow> json \<Rightarrow> unit act" where
  "publish_event event_id payload = publish_json (event_channel event_id) payload"

definition publish_global_type :: "string \<Rightarrow> unit act" where
  "publish_global_type event_type = publish_json global_channel (JObj [(''type'', JStr event_type)])"

definition publish_event_type :: "int \<Rightarrow> string \<Rightarrow> unit act" where
  "publish_event_type event_id event_type =
     publish_event event_id (JObj [(''type'', JStr event_type), (''event_id'', JInt event_id)])"

text \<open>
  The trigger \<open>fiestaaa_filter_text\<close>: the text columns it looks at, joined by blanks, must not
  contain a moderation term.
\<close>

definition content_not_allowed :: "world \<Rightarrow> string list \<Rightarrow> bool" where
  "content_not_allowed w vals =
     (vals \<noteq> [] \<and> list_ex (\<lambda>t. has_sub t (sql_lower (cfg w) (join_with '' '' vals)))
                       (moderation_terms (db w)))"

text \<open>\<open>fiestaaa_contact_blocked\<close>\<close>

definition contact_blocked :: "database \<Rightarrow> int \<Rightarrow> int \<Rightarrow> bool" where
  "contact_blocked d a b \<longleftrightarrow> exists_where (\<lambda>r. ub_blocker_id r = a \<and> ub_blocked_id r = b
     \<or> ub_blocker_id r = b \<and> ub_blocked_id r = a) (user_blocks d)"

lemma contact_blocked_sym: "contact_blocked d a b = contact_blocked d b a"
  by (auto simp: contact_blocked_def)

section \<open>How statements act on the world\<close>

lemma tick_simps [simp]:
  "db (tick w) = db w" "clock (tick w) = clock w" "cfg (tick w) = cfg w"
  "seqs (tick w) = seqs w" "published (tick w) = published w" "pushed (tick w) = pushed w" "mailed (tick w) = mailed w" "faults (tick w) = tl (faults w)"
  by (simp_all add: tick_def)

lemma fault_no_faults [simp]: "faults w = [] \<Longrightarrow> \<not> fault w"
  by (simp add: fault_def)

lemma fault_faults: "fault w \<Longrightarrow> faults w \<noteq> []"
  by auto

lemma fault_update [simp]:
  "fault (w\<lparr>db := d\<rparr>) = fault w" "fault (w\<lparr>published := p\<rparr>) = fault w"
  "fault (w\<lparr>seqs := q\<rparr>) = fault w" "fault (w\<lparr>clock := t\<rparr>) = fault w"
  by (simp_all add: fault_def)

lemma tick_update [simp]:
  "tick (w\<lparr>db := d\<rparr>) = (tick w)\<lparr>db := d\<rparr>"
  "tick (w\<lparr>published := p\<rparr>) = (tick w)\<lparr>published := p\<rparr>"
  "tick (w\<lparr>seqs := q\<rparr>) = (tick w)\<lparr>seqs := q\<rparr>"
  by (simp_all add: tick_def)

lemma tick_no_faults [simp]: "faults w = [] \<Longrightarrow> tick w = w"
  by (simp add: tick_def)

lemma wp_stmt [wp_simps]:
  "wp (stmt h f) Q E w =
     (if fault w then E (h Unavailable) (tick w)
      else (case f (tick w) of (Inl e, w') \<Rightarrow> E (h e) w' | (Inr x, w') \<Rightarrow> Q x w'))"
  by (auto simp: wp_def stmt_def split: prod.split sum.split)

lemma wp_stmtI:
  assumes "\<And>x w'. f (tick w) = (Inr x, w') \<Longrightarrow> Q x w'" and "\<And>e w'. f (tick w) = (Inl e, w') \<Longrightarrow> E (h e) w'"
    and "fault w \<Longrightarrow> E (h Unavailable) (tick w)"
  shows "wp (stmt h f) Q E w"
  unfolding wp_stmt using assms by (auto split: prod.split sum.split)

lemma wp_query [wp_simps]:
  "wp (query e f) Q E w = (if fault w then E e (tick w) else Q (f (tick w)) (tick w))"
  by (simp add: wp_def query_def)

lemma wp_execute [wp_simps]:
  "wp (execute e f) Q E w =
     (if fault w then E e (tick w)
      else Q (fst (f (tick w))) ((tick w)\<lparr>db := snd (f (tick w))\<rparr>))"
  by (simp add: wp_def execute_def)

lemma wp_transact [wp_simps]:
  "wp (transact e body) Q E w =
     (if fault w then E e (tick w)
      else wp body
        (\<lambda>x w'. if fault w' then E e ((tick w')\<lparr>db := db w\<rparr>) else Q x (tick w'))
        (\<lambda>x w'. E x (w'\<lparr>db := db w\<rparr>)) (tick w))"
  by (auto simp: wp_def transact_def split: prod.split sum.split)

lemma wp_now [wp_simps]: "wp now Q E w = Q (clock w) w"
  by (simp add: wp_def now_def)

text \<open>An action that touches neither the tables nor the sequences, the clock or the settings.\<close>

definition same_data :: "world \<Rightarrow> world \<Rightarrow> bool" where
  "same_data w w' \<longleftrightarrow> db w' = db w \<and> seqs w' = seqs w \<and> clock w' = clock w \<and> cfg w' = cfg w
     \<and> (faults w = [] \<longrightarrow> faults w' = [])"

definition quiet :: "'a act \<Rightarrow> bool" where
  "quiet m \<longleftrightarrow> (\<forall>w. same_data w (snd (m w)))"

lemma same_data_refl [simp]: "same_data w w"
  by (simp add: same_data_def)

lemma same_data_trans: "same_data u v \<Longrightarrow> same_data v w \<Longrightarrow> same_data u w"
  by (simp add: same_data_def)

lemma same_data_tick [simp]: "same_data w (tick w)"
  by (simp add: same_data_def)

lemma same_data_tick_right [simp]: "same_data w v \<Longrightarrow> same_data w (tick v)"
  by (simp add: same_data_def)

lemma quietD: "quiet m \<Longrightarrow> same_data w (snd (m w))"
  by (simp add: quiet_def)

lemma wp_quiet:
  assumes "quiet m" and "\<And>x w'. same_data w w' \<Longrightarrow> Q x w'" and "\<And>e w'. same_data w w' \<Longrightarrow> E e w'"
  shows "wp m Q E w"
  using assms(2,3) quietD [OF assms(1), of w]
  by (auto simp: wp_def split: prod.split sum.split)

text \<open>One check in a chain of checks, all of which only read.\<close>

lemma wp_check:
  assumes "same_data w v"
    and "wp m (\<lambda>x v'. same_data v v' \<and> P x) (\<lambda>_ v'. same_data v v') v"
    and "\<And>x v'. same_data w v' \<Longrightarrow> P x \<Longrightarrow> wp (f x) Q E v'"
    and "\<And>e v'. same_data w v' \<Longrightarrow> E e v'"
  shows "wp (andthen m f) Q E v"
  unfolding wp_andthen
  by (rule wp_mono [OF assms(2)]) (auto intro: assms(3,4) same_data_trans [OF assms(1)])

lemma wp_check_quiet:
  assumes "same_data w v" and "quiet m"
    and "\<And>x v'. same_data w v' \<Longrightarrow> wp (f x) Q E v'" and "\<And>e v'. same_data w v' \<Longrightarrow> E e v'"
  shows "wp (andthen m f) Q E v"
  by (rule wp_check [OF assms(1), where P = "\<lambda>_. True"])
    (use assms(3,4) in \<open>auto intro: wp_quiet [OF assms(2)]\<close>)

lemma quiet_return [quiet_intros]: "quiet (return x)"
  by (simp add: quiet_def return_def)

lemma quiet_throw [quiet_intros]: "quiet (throw e)"
  by (simp add: quiet_def throw_def)

lemma quiet_require [quiet_intros]: "quiet (require b e)"
  by (simp add: require_def quiet_intros)

lemma quiet_some_or [quiet_intros]: "quiet (some_or x e)"
  by (simp add: some_or_def quiet_intros split: option.split)

lemma quiet_get_state [quiet_intros]: "quiet get_state"
  by (simp add: quiet_def get_state_def)

lemma quiet_now [quiet_intros]: "quiet now"
  by (simp add: quiet_def now_def)

lemma quiet_from_result [quiet_intros]: "quiet (from_result r)"
  by (simp add: quiet_def from_result_def)

lemma quiet_query [quiet_intros]: "quiet (query e f)"
  by (simp add: quiet_def query_def)

lemma quiet_publish_json [quiet_intros]: "quiet (publish_json ch p)"
  by (simp add: quiet_def publish_json_def same_data_def)

lemma quiet_publish [quiet_intros]:
  "quiet (publish_event ev p)" "quiet (publish_global_type ty)" "quiet (publish_event_type ev ty)"
  by (simp_all add: publish_event_def publish_global_type_def publish_event_type_def quiet_publish_json)

lemma quiet_andthen [quiet_intros]:
  assumes "quiet m" and "\<And>x. quiet (f x)"
  shows "quiet (andthen m f)"
  unfolding quiet_def
proof
  fix w
  show "same_data w (snd (andthen m f w))"
    using quietD [OF assms(1), of w]
    by (auto simp: andthen_def split: prod.split sum.split intro: same_data_trans quietD [OF assms(2)])
qed

lemma quiet_attempt [quiet_intros]: "quiet m \<Longrightarrow> quiet (attempt m)"
  by (auto simp: quiet_def attempt_def split: prod.split sum.split) (metis snd_conv)+

lemma quiet_map_error [quiet_intros]: "quiet m \<Longrightarrow> quiet (map_error h m)"
  by (auto simp: quiet_def map_error_def split: prod.split sum.split) (metis snd_conv)+

lemma quiet_if [quiet_intros]: "quiet m \<Longrightarrow> quiet n \<Longrightarrow> quiet (if b then m else n)"
  by simp

lemma quiet_option [quiet_intros]:
  "quiet m \<Longrightarrow> (\<And>x. quiet (f x)) \<Longrightarrow> quiet (case v of None \<Rightarrow> m | Some x \<Rightarrow> f x)"
  by (simp split: option.split)

lemma quiet_prod [quiet_intros]:
  "(\<And>a b. quiet (f a b)) \<Longrightarrow> quiet (case p of (a, b) \<Rightarrow> f a b)"
  by (simp split: prod.split)

text \<open>
  Error answers that leave the tables alone.  Within a transaction every error does; the answers
  with a status below 500 are the ones the code chooses itself.
\<close>

definition rejects_cleanly :: "'a act \<Rightarrow> bool" where
  "rejects_cleanly m \<longleftrightarrow> (\<forall>w. wp m (\<lambda>_ _. True) (\<lambda>e w'. err_status e < 500 \<longrightarrow> db w' = db w) w)"

lemma quiet_rejects: "quiet m \<Longrightarrow> wp m (\<lambda>_ w'. db w' = db w) (\<lambda>_ w'. db w' = db w) w"
  by (rule wp_quiet) (auto simp: same_data_def)

lemma rejects_quiet_andthen:
  assumes "quiet m" and "\<And>x. rejects_cleanly (f x)"
  shows "rejects_cleanly (andthen m f)"
  unfolding rejects_cleanly_def wp_andthen
proof
  fix w
  show "wp m (\<lambda>x. wp (f x) (\<lambda>_ _. True) (\<lambda>e w'. err_status e < 500 \<longrightarrow> db w' = db w))
          (\<lambda>e w'. err_status e < 500 \<longrightarrow> db w' = db w) w"
  proof (rule wp_quiet [OF assms(1)])
    fix x w' assume "same_data w w'"
    then show "wp (f x) (\<lambda>_ _. True) (\<lambda>e w'. err_status e < 500 \<longrightarrow> db w' = db w) w'"
      using assms(2) [of x, unfolded rejects_cleanly_def, rule_format, of w']
      by (simp add: same_data_def)
  qed (simp add: same_data_def)
qed

lemma transact_error_rolls_back:
  "wp (transact e body) (\<lambda>_ _. True) (\<lambda>_ w'. db w' = db w) w"
  by (auto simp: wp_def transact_def split: prod.splits sum.splits if_splits)

text \<open>What a transaction does when it succeeds, whatever it does before it fails.\<close>

lemma wp_transact_success:
  assumes "wp body Q (\<lambda>_ _. True) (tick w)" and "\<And>x w'. Q x w' \<Longrightarrow> Q x (tick w')"
  shows "wp (transact e body) Q (\<lambda>_ w'. db w' = db w) w"
  using assms
  by (auto simp: wp_def transact_def split: prod.splits sum.splits if_splits)

lemma rejects_transact: "rejects_cleanly (transact e body)"
  unfolding rejects_cleanly_def
  by (intro allI wp_mono [OF transact_error_rolls_back]) simp_all

lemma rejects_quiet: "quiet m \<Longrightarrow> rejects_cleanly m"
  unfolding rejects_cleanly_def
  by (intro allI wp_mono [OF quiet_rejects]) simp_all

text \<open>After the last change of the tables only errors of the server can follow.\<close>

definition server_errors :: "'a act \<Rightarrow> bool" where
  "server_errors m \<longleftrightarrow> (\<forall>w. wp m (\<lambda>_ _. True) (\<lambda>e _. 500 \<le> err_status e) w)"

lemma server_errors_andthen [tail_intros]:
  assumes "server_errors m" and "\<And>x. server_errors (f x)"
  shows "server_errors (andthen m f)"
  unfolding server_errors_def wp_andthen
proof
  fix w
  show "wp m (\<lambda>x. wp (f x) (\<lambda>_ _. True) (\<lambda>e _. 500 \<le> err_status e)) (\<lambda>e _. 500 \<le> err_status e) w"
    by (rule wp_mono [OF assms(1) [unfolded server_errors_def, rule_format]])
      (simp_all add: assms(2) [unfolded server_errors_def])
qed

lemma server_errors_simple [tail_intros]:
  "server_errors (return x)" "server_errors get_state" "server_errors now" "server_errors (attempt m)"
  "server_errors (publish_json ch p)" "server_errors (publish_event ev p)"
  "server_errors (publish_global_type ty)" "server_errors (publish_event_type ev ty)"
  "500 \<le> err_status e \<Longrightarrow> server_errors (query e f)"
  "500 \<le> err_status e \<Longrightarrow> server_errors (some_or v e)"
  "(\<And>x. 500 \<le> err_status (h x)) \<Longrightarrow> server_errors (map_error h m')"
  by (auto simp: server_errors_def wp_def return_def get_state_def now_def attempt_def query_def
      publish_json_def publish_event_def publish_global_type_def publish_event_type_def
      some_or_def throw_def map_error_def split: prod.split sum.split option.split)

lemma server_errors_cases [tail_intros]:
  "server_errors m \<Longrightarrow> server_errors n \<Longrightarrow> server_errors (if b then m else n)"
  "server_errors m \<Longrightarrow> (\<And>x. server_errors (f x)) \<Longrightarrow>
     server_errors (case v of None \<Rightarrow> m | Some x \<Rightarrow> f x)"
  "(\<And>a b. server_errors (g a b)) \<Longrightarrow> server_errors (case p of (a, b) \<Rightarrow> g a b)"
  by (simp_all split: option.split prod.split)

lemma server_errors_for_each [tail_intros]:
  "(\<And>x. server_errors (f x)) \<Longrightarrow> server_errors (for_each xs f)"
  by (induction xs) (auto intro: tail_intros)

lemma rejects_before_tail:
  assumes "rejects_cleanly m" and "\<And>x. server_errors (f x)"
  shows "rejects_cleanly (andthen m f)"
  unfolding rejects_cleanly_def wp_andthen
proof
  fix w
  have "wp m (\<lambda>_ _. True) (\<lambda>e w'. err_status e < 500 \<longrightarrow> db w' = db w) w"
    using assms(1) by (simp add: rejects_cleanly_def)
  then show "wp m (\<lambda>x. wp (f x) (\<lambda>_ _. True) (\<lambda>e w'. err_status e < 500 \<longrightarrow> db w' = db w))
          (\<lambda>e w'. err_status e < 500 \<longrightarrow> db w' = db w) w"
  proof (rule wp_mono)
    fix x w'
    show "wp (f x) (\<lambda>_ _. True) (\<lambda>e w'. err_status e < 500 \<longrightarrow> db w' = db w) w'"
      by (rule wp_mono [OF assms(2) [unfolded server_errors_def, rule_format]]) simp_all
  qed simp
qed

section \<open>Invariants of the tables\<close>

text \<open>
  A run never turns a sequence back, it changes neither the clock nor the settings, and it makes
  no fault of its own.  An
  action \<open>keeps\<close> a condition on worlds when it leads from worlds that satisfy it to such worlds,
  after a success as after an error.
\<close>

definition later :: "world \<Rightarrow> world \<Rightarrow> bool" where
  "later w w' \<longleftrightarrow> clock w' = clock w \<and> cfg w' = cfg w \<and> (\<forall>s. seqs w s \<le> seqs w' s)
     \<and> (faults w = [] \<longrightarrow> faults w' = [])"

definition grows :: "'a act \<Rightarrow> bool" where
  "grows m \<longleftrightarrow> (\<forall>w. later w (snd (m w)))"

definition keeps :: "(world \<Rightarrow> bool) \<Rightarrow> 'a act \<Rightarrow> bool" where
  "keeps I m \<longleftrightarrow> (\<forall>w. I w \<longrightarrow> I (snd (m w)))"

lemma later_refl [simp]: "later w w"
  by (simp add: later_def)

lemma later_trans: "later u v \<Longrightarrow> later v w \<Longrightarrow> later u w"
  unfolding later_def by (metis order_trans)

lemma later_tick [simp]:
  "later w (tick w)" "later w v \<Longrightarrow> later w (tick v)" "later w (v\<lparr>db := d\<rparr>) = later w v"
  by (simp_all add: later_def)

lemma later_nextval: "later w (snd (nextval s w))"
  by (simp add: later_def nextval_def)

lemma growsD: "grows m \<Longrightarrow> later w (snd (m w))"
  by (simp add: grows_def)

lemma wp_grows:
  assumes "grows m" and "later v w"
  shows "wp m (\<lambda>_. later v) (\<lambda>_. later v) w"
  using later_trans [OF assms(2) growsD [OF assms(1)]]
  by (auto simp: wp_def split: prod.split sum.split)

text \<open>
  A transaction: \<open>Q\<close> after a success, the tables as before and \<open>E\<close> after an error that is not the
  failure of a statement.
\<close>

lemma wp_transact_spec:
  assumes "grows body"
    and "wp body Q (\<lambda>x _. x = e \<and> faults w \<noteq> [] \<or> E x) (tick w)"
    and "\<And>x w'. Q x w' \<Longrightarrow> Q x (tick w')"
  shows "wp (transact e body) Q (\<lambda>x w'. db w' = db w \<and> (x = e \<and> faults w \<noteq> [] \<or> E x)) w"
proof -
  have "wp body (\<lambda>x w'. Q x w' \<and> later w w') (\<lambda>x w'. (x = e \<and> faults w \<noteq> [] \<or> E x) \<and> later w w') (tick w)"
    by (intro wp_conj assms(2) wp_grows [OF assms(1)] later_tick(1))
  then show ?thesis
    unfolding wp_transact
    by (auto elim!: wp_mono intro: assms(3) simp: later_def dest: fault_faults)
qed

lemma grows_quiet: "quiet m \<Longrightarrow> grows m"
  by (simp add: grows_def quiet_def later_def same_data_def)

lemma grows_execute [grows_intros]: "grows (execute e f)"
  by (simp add: grows_def execute_def)

lemma grows_stmt [grows_intros]:
  assumes "\<And>w. later w (snd (f w))"
  shows "grows (stmt h f)"
  unfolding grows_def
proof
  fix w
  show "later w (snd (stmt h f w))"
    using assms [of "tick w"]
    by (auto simp: stmt_def split: prod.split sum.split intro: later_trans [OF later_tick(1)])
qed

lemma grows_andthen [grows_intros]:
  assumes "grows m" and "\<And>x. grows (f x)"
  shows "grows (andthen m f)"
  unfolding grows_def
proof
  fix w
  show "later w (snd (andthen m f w))"
    using growsD [OF assms(1), of w]
    by (auto simp: andthen_def split: prod.split sum.split intro: later_trans growsD [OF assms(2)])
qed

lemma grows_attempt [grows_intros]: "grows m \<Longrightarrow> grows (attempt m)"
  by (auto simp: grows_def attempt_def split: prod.split sum.split) (metis snd_conv)+

lemma grows_map_error [grows_intros]: "grows m \<Longrightarrow> grows (map_error h m)"
  by (auto simp: grows_def map_error_def split: prod.split sum.split) (metis snd_conv)+

lemma grows_transact: "grows body \<Longrightarrow> grows (transact e body)"
  unfolding grows_def transact_def
  by (auto split: prod.split sum.split intro: later_trans [OF later_tick(1)])
    (metis later_tick later_trans snd_conv)+

lemma grows_if [grows_intros]: "grows m \<Longrightarrow> grows n \<Longrightarrow> grows (if b then m else n)"
  by simp

lemma grows_option [grows_intros]:
  "grows m \<Longrightarrow> (\<And>x. grows (f x)) \<Longrightarrow> grows (case v of None \<Rightarrow> m | Some x \<Rightarrow> f x)"
  by (simp split: option.split)

lemma grows_prod [grows_intros]:
  "(\<And>a b. grows (f a b)) \<Longrightarrow> grows (case p of (a, b) \<Rightarrow> f a b)"
  by (simp split: prod.split)

lemma grows_for_each [grows_intros]: "(\<And>x. grows (f x)) \<Longrightarrow> grows (for_each xs f)"
  by (induction xs) (auto intro: grows_intros grows_quiet quiet_intros)

lemma keepsI: "(\<And>w. I w \<Longrightarrow> wp m (\<lambda>_. I) (\<lambda>_. I) w) \<Longrightarrow> keeps I m"
  by (simp add: keeps_def wp_snd)

lemma keepsD: "keeps I m \<Longrightarrow> I w \<Longrightarrow> wp m (\<lambda>_. I) (\<lambda>_. I) w"
  by (auto simp: keeps_def wp_def split: prod.split sum.split)

lemma keeps_snd: "keeps I m \<Longrightarrow> I w \<Longrightarrow> I (snd (m w))"
  by (simp add: keeps_def)

lemma keeps_andthen [keeps_intros]:
  assumes "keeps I m" and "\<And>x. keeps I (f x)"
  shows "keeps I (andthen m f)"
proof (rule keepsI)
  fix w assume "I w"
  show "wp (andthen m f) (\<lambda>_. I) (\<lambda>_. I) w"
    unfolding wp_andthen
    by (rule wp_mono [OF keepsD [OF assms(1) \<open>I w\<close>]]) (rule keepsD [OF assms(2)])
qed

lemma keeps_attempt [keeps_intros]: "keeps I m \<Longrightarrow> keeps I (attempt m)"
  by (rule keepsI) (simp add: wp_attempt keepsD)

lemma keeps_map_error [keeps_intros]: "keeps I m \<Longrightarrow> keeps I (map_error h m)"
  by (rule keepsI) (simp add: wp_map_error keepsD)

lemma keeps_if [keeps_intros]: "keeps I m \<Longrightarrow> keeps I n \<Longrightarrow> keeps I (if b then m else n)"
  by simp

lemma keeps_option [keeps_intros]:
  "keeps I m \<Longrightarrow> (\<And>x. keeps I (f x)) \<Longrightarrow> keeps I (case v of None \<Rightarrow> m | Some x \<Rightarrow> f x)"
  by (simp split: option.split)

lemma keeps_prod [keeps_intros]:
  "(\<And>a b. keeps I (f a b)) \<Longrightarrow> keeps I (case p of (a, b) \<Rightarrow> f a b)"
  by (simp split: prod.split)

lemma keeps_return [keeps_intros]: "keeps I (return x)"
  by (rule keepsI) simp

lemma keeps_for_each [keeps_intros]: "(\<And>x. keeps I (f x)) \<Longrightarrow> keeps I (for_each xs f)"
  by (induction xs) (auto intro: keeps_intros)

text \<open>
  The interface of an invariant of the tables: it does not look at the log of faults or of
  messages, and it survives a rollback, after which only the sequences have moved on.  Then every
  action that only reads keeps it, and a transaction keeps it when a run to its end does.
\<close>

locale table_invariant =
  fixes inv :: "world \<Rightarrow> bool"
  assumes rollback: "inv w \<Longrightarrow> db w' = db w \<Longrightarrow> later w w' \<Longrightarrow> inv w'"
begin

lemma inv_tick [simp]: "inv w \<Longrightarrow> inv (tick w)"
  by (erule rollback) simp_all

lemma inv_same_data: "inv w \<Longrightarrow> same_data w w' \<Longrightarrow> inv w'"
  by (erule rollback) (simp_all add: same_data_def later_def)

lemma keeps_quiet: "quiet m \<Longrightarrow> keeps inv m"
  unfolding keeps_def quiet_def by (blast intro: inv_same_data)

lemma keeps_transact:
  assumes grows: "grows body" and body: "\<And>w. inv w \<Longrightarrow> wp body (\<lambda>_. inv) (\<lambda>_ _. True) w"
  shows "keeps inv (transact e body)"
proof (rule keepsI)
  fix w assume inv: "inv w"
  have "wp body (\<lambda>_ w'. inv w' \<and> later w w') (\<lambda>_ w'. True \<and> later w w') (tick w)"
    by (intro wp_conj body inv_tick inv wp_grows [OF grows] later_tick(1))
  then show "wp (transact e body) (\<lambda>_. inv) (\<lambda>_. inv) w"
    unfolding wp_transact using inv by (auto elim!: wp_mono intro: rollback [OF inv] later_trans)
qed

lemma keeps_transact_body:
  assumes "grows body" and "keeps inv body"
  shows "keeps inv (transact e body)"
  by (rule keeps_transact [OF assms(1)]) (erule wp_mono [OF keepsD [OF assms(2)]], simp_all)

lemma keeps_stmt:
  assumes "\<And>w r w'. inv w \<Longrightarrow> f w = (r, w') \<Longrightarrow> inv w'"
  shows "keeps inv (stmt h f)"
proof (rule keepsI)
  fix w assume "inv w"
  then have "inv (tick w)" by simp
  from assms [OF this] \<open>inv (tick w)\<close>
  show "wp (stmt h f) (\<lambda>_. inv) (\<lambda>_. inv) w"
    unfolding wp_stmt by (auto split: prod.split sum.split)
qed

lemma keeps_execute:
  assumes "\<And>w. inv w \<Longrightarrow> inv (w\<lparr>db := snd (f w)\<rparr>)"
  shows "keeps inv (execute e f)"
  using assms by (intro keepsI) (simp add: wp_execute)

end

end
