(* ===== verification/Auth.thy ===== *)
theory Auth
  imports World
begin

text \<open>
  Authentication (\<open>src/auth.rs\<close>): the token of a request comes from the \<open>Authorization\<close> header
  or the session cookie; its claims name a user; the session is live when the token is not
  revoked, the account not suspended and the session version of the claims is current.
\<close>

definition looks_like_email :: "string \<Rightarrow> bool" where
  "looks_like_email input \<longleftrightarrow> CHR ''@'' \<in> set input"

definition extract_token_from_auth :: "request \<Rightarrow> api_error + string" where
  "extract_token_from_auth req =
     (case r_authorization req of
        Some header \<Rightarrow>
          if \<not> starts_with ''Bearer '' header
          then Inl (unauthorized ''invalid_authorization_scheme'')
          else Inr (drop (length ''Bearer '') header)
      | None \<Rightarrow>
          (case r_session_cookie req of
             Some cookie \<Rightarrow> Inr cookie
           | None \<Rightarrow> Inl (unauthorized ''missing_authorization_header'')))"

definition extract_token_from_auth_optional :: "request \<Rightarrow> string option" where
  "extract_token_from_auth_optional req =
     (case r_authorization req of
        Some header \<Rightarrow>
          if starts_with ''Bearer '' header then Some (drop (length ''Bearer '') header)
          else r_session_cookie req
      | None \<Rightarrow> r_session_cookie req)"

definition decode_jwt :: "string \<Rightarrow> claims act" where
  "decode_jwt token = andthen get_state (\<lambda>w.
     case jwt_verify (cfg w) (clock w) token of
       Inr claims \<Rightarrow> return claims
     | Inl ExpiredSignature \<Rightarrow> throw (unauthorized ''token_expired'')
     | Inl InvalidToken \<Rightarrow> throw (unauthorized ''invalid_token'')
     | Inl OtherJwtError \<Rightarrow> throw (unauthorized ''token_error''))"

definition user_by_email :: "world \<Rightarrow> string \<Rightarrow> user option" where
  "user_by_email w email = find (\<lambda>u. u_email_hash u = email_lookup (cfg w) email) (users (db w))"

definition token_revoked :: "world \<Rightarrow> string \<Rightarrow> bool" where
  "token_revoked w hash = exists_where (\<lambda>r. fst r = hash) (revoked_tokens (db w))"

definition find_active_user_by_subject_and_token ::
    "string \<Rightarrow> string \<Rightarrow> (user \<times> bool) option act" where
  "find_active_user_by_subject_and_token subject hash = andthen get_state (\<lambda>w.
     let trimmed = trim subject in
     if looks_like_email trimmed
     then query db_error (\<lambda>w. map_option (\<lambda>u. (u, token_revoked w hash)) (user_by_email w trimmed))
     else case uuid_parse (cfg w) trimmed of
         None \<Rightarrow> return None
       | Some public_id \<Rightarrow>
           query db_error (\<lambda>w. map_option (\<lambda>u. (u, token_revoked w hash))
             (find (\<lambda>u. u_public_id u = public_id) (users (db w)))))"

definition extract_authenticated_user :: "request \<Rightarrow> user act" where
  "extract_authenticated_user req =
     andthen (from_result (extract_token_from_auth req)) (\<lambda>token.
     andthen (decode_jwt token) (\<lambda>claims.
     andthen get_state (\<lambda>w.
     andthen (find_active_user_by_subject_and_token (cl_sub claims) (sha256_hex (cfg w) token))
       (\<lambda>found. case found of
          None \<Rightarrow> throw (unauthorized ''user_not_found'')
        | Some (user, revoked) \<Rightarrow>
            if revoked \<or> u_suspended user \<or> u_session_version user \<noteq> cl_session_version claims
            then throw (unauthorized ''revoked_token'')
            else return user))))"

text \<open>
  \<open>extract_active_claims_from_auth\<close> hands the handlers the user's e-mail and handle as claims.
\<close>

definition extract_active_claims_from_auth :: "request \<Rightarrow> user act" where
  "extract_active_claims_from_auth req = extract_authenticated_user req"

definition expiration_timestamp_to_datetime :: "world \<Rightarrow> nat \<Rightarrow> micros option" where
  "expiration_timestamp_to_datetime w exp =
     datetime_from_seconds (cfg w) (if exp < 2 ^ 63 then int exp else int exp - 2 ^ 64)"

definition revoke_auth_token :: "string \<Rightarrow> unit act" where
  "revoke_auth_token token =
     andthen (attempt (decode_jwt token)) (\<lambda>decoded. case decoded of
       None \<Rightarrow> return ()
     | Some claims \<Rightarrow> andthen get_state (\<lambda>w.
         case expiration_timestamp_to_datetime w (cl_exp claims) of
           None \<Rightarrow> return ()
         | Some expires_at \<Rightarrow>
             execute db_error (\<lambda>w. let hash = sha256_hex (cfg w) token in
               ((), if token_revoked w hash then db w
                    else (db w)\<lparr>revoked_tokens := revoked_tokens (db w) @ [(hash, expires_at)]\<rparr>))))"

definition revoke_auth_token_from_request :: "request \<Rightarrow> unit act" where
  "revoke_auth_token_from_request req =
     (case extract_token_from_auth_optional req of
        None \<Rightarrow> return ()
      | Some token \<Rightarrow> revoke_auth_token token)"

definition cleanup_expired_revoked_tokens :: "nat act" where
  "cleanup_expired_revoked_tokens = execute db_error (\<lambda>w.
     (count_where (\<lambda>r. snd r \<le> clock w) (revoked_tokens (db w)),
      (db w)\<lparr>revoked_tokens := delete_where (\<lambda>r. snd r \<le> clock w) (revoked_tokens (db w))\<rparr>))"

section \<open>Properties\<close>

text \<open>The session a request stands for, as a specification over the tables.\<close>

definition live_session :: "world \<Rightarrow> request \<Rightarrow> user \<Rightarrow> bool" where
  "live_session w req u \<longleftrightarrow>
     (\<exists>token claims. extract_token_from_auth req = Inr token
        \<and> jwt_verify (cfg w) (clock w) token = Inr claims
        \<and> u \<in> set (users (db w)) \<and> \<not> u_suspended u
        \<and> u_session_version u = cl_session_version claims
        \<and> \<not> token_revoked w (sha256_hex (cfg w) token)
        \<and> (u_email_hash u = email_lookup (cfg w) (trim (cl_sub claims))
           \<or> uuid_parse (cfg w) (trim (cl_sub claims)) = Some (u_public_id u)))"

lemma quiet_decode_jwt [quiet_intros]: "quiet (decode_jwt token)"
  unfolding decode_jwt_def
  by (auto intro!: quiet_intros split: sum.split jwt_failure.split)

lemma quiet_find_active_user [quiet_intros]:
  "quiet (find_active_user_by_subject_and_token subject hash)"
  unfolding find_active_user_by_subject_and_token_def Let_def
  by (intro quiet_intros)

lemma quiet_extract_authenticated_user [quiet_intros]: "quiet (extract_authenticated_user req)"
  unfolding extract_authenticated_user_def
  by (intro quiet_intros)

lemma quiet_extract_active_claims [quiet_intros]: "quiet (extract_active_claims_from_auth req)"
  unfolding extract_active_claims_from_auth_def by (rule quiet_extract_authenticated_user)

lemma wp_decode_jwt:
  "wp (decode_jwt token) Q E w =
     (case jwt_verify (cfg w) (clock w) token of
        Inr claims \<Rightarrow> Q claims w
      | Inl ExpiredSignature \<Rightarrow> E (unauthorized ''token_expired'') w
      | Inl InvalidToken \<Rightarrow> E (unauthorized ''invalid_token'') w
      | Inl OtherJwtError \<Rightarrow> E (unauthorized ''token_error'') w)"
  by (simp add: decode_jwt_def wp_simps split: sum.split jwt_failure.split)

lemma live_session_same_data: "same_data w w' \<Longrightarrow> live_session w' req u = live_session w req u"
  by (simp add: same_data_def live_session_def token_revoked_def)

lemma extract_authenticated_user_live:
  "wp (extract_authenticated_user req) (\<lambda>u w'. live_session w req u \<and> same_data w w')
     (\<lambda>_ w'. same_data w w') w"
  unfolding extract_authenticated_user_def find_active_user_by_subject_and_token_def
  by (auto simp: wp_simps wp_decode_jwt live_session_def user_by_email_def token_revoked_def
      Let_def split: sum.split option.split jwt_failure.split dest!: find_SomeD)

end
