(* ===== verification/Access.thy ===== *)
theory Access
  imports Auth
begin

text \<open>
  Access checks shared by the handlers: \<open>src/repositories/event_repository.rs\<close>,
  \<open>src/routes/event_access.rs\<close> and the helpers at the top of \<open>src/routes/events/mod.rs\<close>.
  An event in the trash (\<open>deleted_at\<close> set) does not exist for them.
\<close>

section \<open>Reading events and members\<close>

definition live_event :: "database \<Rightarrow> int \<Rightarrow> event option" where
  "live_event d event_id = find (\<lambda>e. e_id e = event_id \<and> e_deleted_at e = None) (events d)"

record event_timing =
  starts_at :: micros
  effective_ends_at :: micros

definition fetch_event_timing :: "int \<Rightarrow> event_timing act" where
  "fetch_event_timing event_id =
     andthen (query db_error (\<lambda>w. live_event (db w) event_id)) (\<lambda>row.
     some_or (map_option (\<lambda>e. \<lparr>starts_at = e_starts_at e, effective_ends_at = e_effective_ends_at e\<rparr>) row)
       (not_found ''event_not_found''))"

definition fetch_event_owner_id :: "int \<Rightarrow> int act" where
  "fetch_event_owner_id event_id =
     andthen (query db_error (\<lambda>w. map_option e_owner_id (live_event (db w) event_id)))
       (\<lambda>row. some_or row (not_found ''event_not_found''))"

definition fetch_user_id_by_email :: "string \<Rightarrow> int option act" where
  "fetch_user_id_by_email email = query db_error (\<lambda>w. map_option u_id (user_by_email w email))"

definition accepted_member :: "database \<Rightarrow> int \<Rightarrow> int \<Rightarrow> bool" where
  "accepted_member d event_id user_id =
     exists_where (\<lambda>i. i_event_id i = event_id \<and> i_user_id i = user_id \<and> i_status i = Accepted)
       (invitations d)"

definition is_accepted_event_member :: "int \<Rightarrow> string \<Rightarrow> bool act" where
  "is_accepted_event_member event_id email = query db_error (\<lambda>w.
     case user_by_email w email of None \<Rightarrow> False | Some u \<Rightarrow> accepted_member (db w) event_id (u_id u))"

section \<open>Life cycle of an event\<close>

datatype lifecycle_status = Upcoming | Ongoing | Finished

definition status_from_timing :: "micros \<Rightarrow> event_timing \<Rightarrow> lifecycle_status" where
  "status_from_timing t timing =
     (if t < starts_at timing then Upcoming
      else if t \<le> effective_ends_at timing then Ongoing
      else Finished)"

definition ensure_event_writable :: "int \<Rightarrow> unit act" where
  "ensure_event_writable event_id =
     andthen (fetch_event_timing event_id) (\<lambda>timing.
     andthen now (\<lambda>t.
     if status_from_timing t timing = Finished then throw (forbidden ''event_finished'')
     else return ()))"

definition ensure_event_member_email :: "int \<Rightarrow> string \<Rightarrow> unit act" where
  "ensure_event_member_email event_id email =
     andthen (fetch_event_owner_id event_id) (\<lambda>owner_user_id.
     andthen (fetch_user_id_by_email email) (\<lambda>requester_id.
     if requester_id = Some owner_user_id then return ()
     else andthen (is_accepted_event_member event_id email) (\<lambda>is_member.
       require is_member (forbidden ''forbidden''))))"

section \<open>The helpers of the event routes\<close>

definition claims_email :: "request \<Rightarrow> string act" where
  "claims_email req =
     andthen (extract_active_claims_from_auth req) (\<lambda>u.
     andthen get_state (\<lambda>w. return (lowercase (cfg w) (u_email u))))"

definition events_fetch_user_id :: "string \<Rightarrow> int act" where
  "events_fetch_user_id email =
     andthen (query db_error (\<lambda>w. map_option u_id (user_by_email w email)))
       (\<lambda>row. some_or row (not_found ''user_not_found''))"

definition fetch_event_owner_identity :: "int \<Rightarrow> int act" where
  "fetch_event_owner_identity event_id =
     andthen (query db_error (\<lambda>w.
         Option.bind (live_event (db w) event_id) (\<lambda>e.
         map_option u_id (find (\<lambda>u. u_id u = e_owner_id e) (users (db w))))))
       (\<lambda>row. some_or row (not_found ''event_not_found''))"

definition events_fetch_event_owner_id :: "int \<Rightarrow> int act" where
  "events_fetch_event_owner_id event_id = fetch_event_owner_identity event_id"

definition events_ensure_event_owner :: "request \<Rightarrow> int \<Rightarrow> int act" where
  "events_ensure_event_owner req event_id =
     andthen (claims_email req) (\<lambda>requester.
     andthen (events_fetch_user_id requester) (\<lambda>requester_id.
     andthen get_state (\<lambda>w.
     if requester \<in> set (admin_emails (cfg w)) then return requester_id
     else andthen (events_fetch_event_owner_id event_id) (\<lambda>owner_id.
       if owner_id = requester_id then return requester_id else throw (forbidden ''forbidden'')))))"

definition events_ensure_event_member :: "request \<Rightarrow> int \<Rightarrow> unit act" where
  "events_ensure_event_member req event_id =
     andthen (claims_email req) (\<lambda>requester.
     andthen (events_fetch_user_id requester) (\<lambda>requester_id.
     andthen (events_fetch_event_owner_id event_id) (\<lambda>owner_id.
     if owner_id = requester_id then return ()
     else andthen (query db_error (\<lambda>w. accepted_member (db w) event_id requester_id)) (\<lambda>is_member.
       require is_member (forbidden ''forbidden'')))))"

definition ensure_event_exists :: "int \<Rightarrow> unit act" where
  "ensure_event_exists event_id =
     andthen (query db_error (\<lambda>w. live_event (db w) event_id \<noteq> None)) (\<lambda>present.
       require present (not_found ''event_not_found''))"

definition ensure_contact :: "int \<Rightarrow> int \<Rightarrow> unit act" where
  "ensure_contact a b =
     andthen (query (ApiError 503 ''safety_unavailable'') (\<lambda>w. contact_blocked (db w) a b)) (\<lambda>blocked.
       require (\<not> blocked) (forbidden ''contact_unavailable''))"

section \<open>Properties\<close>

text \<open>
  Specifications: who belongs to an event, and whether it may still be changed.  They read the
  tables directly, without the statements the code needs.
\<close>

definition belongs :: "world \<Rightarrow> int \<Rightarrow> int \<Rightarrow> bool" where
  "belongs w event_id user_id \<longleftrightarrow>
     (\<exists>e. live_event (db w) event_id = Some e \<and> e_owner_id e = user_id)
     \<or> (live_event (db w) event_id \<noteq> None \<and> accepted_member (db w) event_id user_id)"

definition writable :: "world \<Rightarrow> int \<Rightarrow> bool" where
  "writable w event_id \<longleftrightarrow>
     (\<exists>e. live_event (db w) event_id = Some e
        \<and> (clock w < e_starts_at e \<or> clock w \<le> e_effective_ends_at e))"

lemma belongs_same_data: "same_data w w' \<Longrightarrow> belongs w' ev u = belongs w ev u"
  by (simp add: same_data_def belongs_def)

lemma writable_same_data: "same_data w w' \<Longrightarrow> writable w' ev = writable w ev"
  by (simp add: same_data_def writable_def)

lemma access_tick [simp]:
  "belongs (tick w) ev u = belongs w ev u" "writable (tick w) ev = writable w ev"
  by (simp_all add: belongs_def writable_def)

lemma quiet_access [quiet_intros]:
  "quiet (fetch_event_timing ev)" "quiet (fetch_event_owner_id ev)"
  "quiet (fetch_user_id_by_email em)" "quiet (is_accepted_event_member ev em)"
  "quiet (ensure_event_writable ev)" "quiet (ensure_event_member_email ev em)"
  unfolding fetch_event_timing_def fetch_event_owner_id_def fetch_user_id_by_email_def
    is_accepted_event_member_def ensure_event_writable_def ensure_event_member_email_def
  by (intro quiet_intros)+

lemma quiet_event_helpers [quiet_intros]:
  "quiet (claims_email req)" "quiet (events_fetch_user_id em)"
  "quiet (fetch_event_owner_identity ev)" "quiet (events_fetch_event_owner_id ev)"
  "quiet (events_ensure_event_owner req ev)" "quiet (events_ensure_event_member req ev)"
  "quiet (ensure_event_exists ev)" "quiet (ensure_contact a b)"
  unfolding claims_email_def events_fetch_user_id_def fetch_event_owner_identity_def
    events_fetch_event_owner_id_def events_ensure_event_owner_def events_ensure_event_member_def
    ensure_event_exists_def ensure_contact_def
  by (intro quiet_intros)+

text \<open>What a passed check means; each check leaves the data alone.\<close>

lemma ensure_event_writable_spec:
  "wp (ensure_event_writable ev) (\<lambda>_ w'. writable w ev \<and> same_data w w')
     (\<lambda>e w'. same_data w w' \<and> (e \<noteq> db_error \<longrightarrow> \<not> writable w ev)) w"
  unfolding ensure_event_writable_def fetch_event_timing_def status_from_timing_def
  by (auto simp: wp_simps writable_def split: option.split)

lemma ensure_contact_spec:
  "wp (ensure_contact a b) (\<lambda>_ w'. \<not> contact_blocked (db w) a b \<and> same_data w w')
     (\<lambda>e w'. same_data w w') w"
  unfolding ensure_contact_def by (auto simp: wp_simps)

lemma claims_email_spec:
  "wp (claims_email req)
     (\<lambda>email w'. same_data w w' \<and> (\<exists>u. live_session w req u \<and> email = lowercase (cfg w) (u_email u)))
     (\<lambda>_ w'. same_data w w') w"
  unfolding claims_email_def extract_active_claims_from_auth_def wp_andthen
  by (rule wp_mono [OF extract_authenticated_user_live])
    (auto simp: wp_simps same_data_def)

definition requester :: "world \<Rightarrow> request \<Rightarrow> int \<Rightarrow> bool" where
  "requester w req user_id \<longleftrightarrow>
     (\<exists>s u. live_session w req s
        \<and> user_by_email w (lowercase (cfg w) (u_email s)) = Some u \<and> u_id u = user_id)"

lemma requester_same_data: "same_data w w' \<Longrightarrow> requester w' req u = requester w req u"
  by (simp add: requester_def live_session_same_data user_by_email_def) (simp add: same_data_def)

lemma owner_identity_Some:
  "Option.bind (live_event d ev) (\<lambda>e. map_option u_id (find (\<lambda>u. u_id u = e_owner_id e) us)) = Some x
   \<Longrightarrow> \<exists>e. live_event d ev = Some e \<and> e_owner_id e = x"
  by (auto simp: bind_eq_Some_conv dest!: find_SomeD)

lemma events_fetch_user_id_spec:
  "wp (events_fetch_user_id email)
     (\<lambda>i w'. same_data w w' \<and> (\<exists>u. user_by_email w email = Some u \<and> u_id u = i))
     (\<lambda>_ w'. same_data w w') w"
  unfolding events_fetch_user_id_def
  by (auto simp: wp_simps user_by_email_def split: option.split)

lemma owner_id_spec:
  "wp (events_fetch_event_owner_id ev)
     (\<lambda>i w'. same_data w w' \<and> (\<exists>e. live_event (db w) ev = Some e \<and> e_owner_id e = i))
     (\<lambda>_ w'. same_data w w') w"
  unfolding events_fetch_event_owner_id_def fetch_event_owner_identity_def
  by (auto simp: wp_simps split: option.split dest: owner_identity_Some)

text \<open>The requester's id, from the e-mail of the live session.\<close>

lemma requester_spec:
  "wp (andthen (claims_email req) events_fetch_user_id)
     (\<lambda>i w'. same_data w w' \<and> requester w req i) (\<lambda>_ w'. same_data w w') w"
  unfolding wp_andthen
proof (rule wp_mono [OF claims_email_spec], elim conjE exE)
  fix email w' u
  assume "same_data w w'" "live_session w req u" "email = lowercase (cfg w) (u_email u)"
  then show "wp (events_fetch_user_id email) (\<lambda>i w'. same_data w w' \<and> requester w req i)
      (\<lambda>_ w'. same_data w w') w'"
    by (intro wp_mono [OF events_fetch_user_id_spec])
      (auto simp: requester_def user_by_email_def same_data_def)
qed

lemma events_ensure_event_member_spec:
  "wp (events_ensure_event_member req ev)
     (\<lambda>_ w'. same_data w w' \<and> (\<exists>u. requester w req u \<and> belongs w ev u))
     (\<lambda>_ w'. same_data w w') w"
proof -
  have tail: "wp (andthen (events_fetch_event_owner_id ev) (\<lambda>owner_id.
        if owner_id = u then return ()
        else andthen (query db_error (\<lambda>w. accepted_member (db w) ev u)) (\<lambda>is_member.
          require is_member (forbidden ''forbidden''))))
      (\<lambda>_ w'. same_data w w' \<and> belongs w ev u) (\<lambda>_ w'. same_data w w') w'"
    if "same_data w w'" for u w'
    unfolding wp_andthen [of "events_fetch_event_owner_id ev"] wp_if
    using that
    by (auto simp: belongs_def same_data_def wp_simps intro!: wp_mono [OF owner_id_spec])
  have split: "events_ensure_event_member req ev =
      andthen (andthen (claims_email req) events_fetch_user_id) (\<lambda>u.
        andthen (events_fetch_event_owner_id ev) (\<lambda>owner_id.
        if owner_id = u then return ()
        else andthen (query db_error (\<lambda>w. accepted_member (db w) ev u)) (\<lambda>is_member.
          require is_member (forbidden ''forbidden''))))"
    by (auto simp: events_ensure_event_member_def andthen_def fun_eq_iff
        split: prod.splits sum.splits)
  show ?thesis
    unfolding split wp_andthen [of "andthen (claims_email req) events_fetch_user_id"]
    by (rule wp_mono [OF requester_spec]) (auto elim: wp_mono [OF tail])
qed

end
