(* ===== verification/Outbox.thy ===== *)
theory Outbox
  imports Access
begin

text \<open>
  The notification outbox (\<open>src/notifications.rs\<close>): handlers queue rows, a worker claims a batch,
  checks again that the recipient may be contacted, hands the message to the push provider and
  records the outcome.  The provider is a parameter; every message handed to it is logged in
  \<open>pushed\<close>.
\<close>

section \<open>Queueing\<close>

record notification_request =
  nr_title :: string
  nr_body :: string
  nr_data :: json
  nr_dedup_base_key :: "string option"
  nr_dedup_ttl :: int

text \<open>\<open>INSERT .. ON CONFLICT (dedup_key) DO UPDATE .. WHERE\<close> the earlier entry has expired.\<close>

definition refresh_outbox_row :: "micros \<Rightarrow> outbox_row \<Rightarrow> outbox_row \<Rightarrow> outbox_row" where
  "refresh_outbox_row t new old = old\<lparr>
     n_user_id := n_user_id new, n_title := n_title new, n_body := n_body new,
     n_data := n_data new, n_status := Pending, n_attempts := 0, n_available_at := t,
     n_locked_at := None, n_sent_at := None, n_last_error := None, n_created_at := t,
     n_dedup_expires_at := n_dedup_expires_at new\<rparr>"

definition dedup_expired :: "micros \<Rightarrow> outbox_row \<Rightarrow> bool" where
  "dedup_expired t row = (case n_dedup_expires_at row of None \<Rightarrow> True | Some e \<Rightarrow> e \<le> t)"

definition same_dedup :: "outbox_row \<Rightarrow> outbox_row \<Rightarrow> bool" where
  "same_dedup new row \<longleftrightarrow> n_dedup_key new \<noteq> None \<and> n_dedup_key row = n_dedup_key new"

definition upsert_outbox :: "micros \<Rightarrow> outbox_row \<Rightarrow> outbox_row list \<Rightarrow> outbox_row list" where
  "upsert_outbox t new rows =
     (if exists_where (same_dedup new) rows
      then update_where (\<lambda>r. same_dedup new r \<and> dedup_expired t r) (refresh_outbox_row t new) rows
      else rows @ [new])"

definition new_outbox_row :: "micros \<Rightarrow> int \<Rightarrow> int \<Rightarrow> notification_request \<Rightarrow> outbox_row" where
  "new_outbox_row t i user_id r =
     (let key = map_option (\<lambda>base. base @ '':'' @ show_int user_id) (nr_dedup_base_key r)
      in \<lparr>n_id = i, n_user_id = user_id, n_title = nr_title r, n_body = nr_body r,
          n_data = nr_data r, n_dedup_key = key, n_status = Pending, n_attempts = 0,
          n_available_at = t, n_locked_at = None, n_sent_at = None, n_last_error = None,
          n_created_at = t,
          n_dedup_expires_at = map_option (\<lambda>_. t + seconds (nr_dedup_ttl r)) key\<rparr>)"

definition insert_outbox :: "int \<Rightarrow> notification_request \<Rightarrow> world \<Rightarrow> (sql_error + unit) \<times> world" where
  "insert_outbox user_id r w =
     (let (i, w') = nextval OutboxSeq w; new = new_outbox_row (clock w) i user_id r in
      if \<not> exists_where (\<lambda>u. u_id u = user_id) (users (db w)) then (Inl ForeignKeyViolation, w')
      else (Inr (), w'\<lparr>db := (db w)\<lparr>outbox := upsert_outbox (clock w) new (outbox (db w))\<rparr>\<rparr>))"

definition enqueue_notifications_tx :: "int list \<Rightarrow> notification_request \<Rightarrow> unit act" where
  "enqueue_notifications_tx user_ids r =
     for_each user_ids (\<lambda>user_id. stmt (\<lambda>_. db_error) (insert_outbox user_id r))"

definition notify_users :: "int list \<Rightarrow> notification_request \<Rightarrow> unit act" where
  "notify_users user_ids r =
     for_each user_ids (\<lambda>user_id.
       andthen (attempt (stmt (\<lambda>_. db_error) (insert_outbox user_id r))) (\<lambda>_. return ()))"

definition is_enabled :: "config \<Rightarrow> bool" where
  "is_enabled c \<longleftrightarrow> fcm_server_key c \<or> fcm_v1_configured c"

definition event_member_user_ids :: "int \<Rightarrow> int list act" where
  "event_member_user_ids event_id =
     andthen (query db_error (\<lambda>w. map_option e_owner_id (find (\<lambda>e. e_id e = event_id) (events (db w)))))
       (\<lambda>owner_id.
     andthen (query db_error (\<lambda>w. remdups (map i_user_id (filter
           (\<lambda>i. i_event_id i = event_id \<and> i_status i \<notin> {Declined, Expired}) (invitations (db w))))))
       (\<lambda>ids.
     return (remdups_adj (sort (ids @ (case owner_id of None \<Rightarrow> [] | Some owner \<Rightarrow> [owner]))))))"

section \<open>Delivery\<close>

datatype delivery_outcome =
    NoActiveDevice
  | Throttled
  | NotConfigured
  | ProviderAccepted
  | ProviderAcknowledged
  | InvalidDevice
  | ProviderRejected

definition completed :: "delivery_outcome \<Rightarrow> bool" where
  "completed outcome \<longleftrightarrow> outcome \<noteq> ProviderRejected"

definition tokens_by_user :: "int \<Rightarrow> world \<Rightarrow> string list" where
  "tokens_by_user user_id w =
     map d_token (filter (\<lambda>d. d_disabled_at d = None \<and> d_user_id d = user_id) (user_devices (db w)))"

definition push :: "string list \<Rightarrow> push_message \<Rightarrow> unit act" where
  "push tokens msg = (\<lambda>w. (Inr (), w\<lparr>pushed := pushed w @ map (\<lambda>t. (t, msg)) tokens\<rparr>))"

definition disable_devices :: "string list \<Rightarrow> unit act" where
  "disable_devices tokens = execute db_error (\<lambda>w. ((), (db w)\<lparr>user_devices :=
     update_where (\<lambda>d. d_token d \<in> set tokens) (\<lambda>d. d\<lparr>d_disabled_at := Some (clock w)\<rparr>)
       (user_devices (db w))\<rparr>))"

definition is_success :: "nat \<Rightarrow> bool" where
  "is_success status \<longleftrightarrow> 200 \<le> status \<and> status < 300"

definition send_v1 :: "string \<Rightarrow> push_message \<Rightarrow> delivery_outcome act" where
  "send_v1 token msg = andthen get_state (\<lambda>w.
     case fcm_v1_send (cfg w) token msg of
       NoAccessToken \<Rightarrow> return ProviderRejected
     | TransportFailure \<Rightarrow> andthen (push [token] msg) (\<lambda>_. return ProviderRejected)
     | Reply status body \<Rightarrow> andthen (push [token] msg) (\<lambda>_.
         if status = 404 \<or> has_sub ''UNREGISTERED'' body \<or> has_sub ''INVALID_ARGUMENT'' body
         then andthen (attempt (disable_devices [token])) (\<lambda>_. return InvalidDevice)
         else return (if is_success status then ProviderAccepted else ProviderRejected)))"

definition merge_outcome :: "delivery_outcome \<Rightarrow> delivery_outcome \<Rightarrow> delivery_outcome" where
  "merge_outcome outcome next =
     (if next = ProviderRejected \<or> outcome = ProviderRejected then ProviderRejected
      else if next = ProviderAccepted then next else outcome)"

fun send_v1_all :: "string list \<Rightarrow> push_message \<Rightarrow> delivery_outcome \<Rightarrow> delivery_outcome act" where
  "send_v1_all [] msg outcome = return outcome"
| "send_v1_all (tok # toks) msg outcome =
     andthen (send_v1 tok msg) (\<lambda>next. send_v1_all toks msg (merge_outcome outcome next))"

definition invalid_tokens :: "string list \<Rightarrow> fcm_response \<Rightarrow> string list" where
  "invalid_tokens sent body =
     (case fcm_results body of
        None \<Rightarrow> []
      | Some results \<Rightarrow>
          map fst (filter (\<lambda>(tok, err). err \<in> {Some ''NotRegistered'', Some ''InvalidRegistration'',
                                                Some ''MissingRegistration''}) (zip sent results)))"

definition handle_invalid_tokens :: "string list \<Rightarrow> fcm_response \<Rightarrow> unit act" where
  "handle_invalid_tokens sent body =
     (let invalid = invalid_tokens sent body in
      if invalid = [] then return () else disable_devices invalid)"

definition send_legacy :: "string list \<Rightarrow> push_message \<Rightarrow> delivery_outcome act" where
  "send_legacy tokens msg =
     andthen get_state (\<lambda>w. andthen (push tokens msg) (\<lambda>_.
     case fcm_legacy_send (cfg w) tokens msg of
       None \<Rightarrow> return ProviderRejected
     | Some (status, None) \<Rightarrow>
         return (if is_success status then ProviderAcknowledged else ProviderRejected)
     | Some (status, Some body) \<Rightarrow>
         andthen (attempt (handle_invalid_tokens tokens body)) (\<lambda>_.
         return
           (if is_success status
            then (if fcm_failure body = Some 0 \<and> fcm_success body = Some (int (length tokens))
                  then ProviderAccepted else ProviderAcknowledged)
            else ProviderRejected))))"

text \<open>The worker passes no throttling key, so \<open>is_throttled\<close> is not consulted here.\<close>

definition send_to_tokens_diagnosed :: "string list \<Rightarrow> push_message \<Rightarrow> delivery_outcome act" where
  "send_to_tokens_diagnosed tokens msg = andthen get_state (\<lambda>w.
     if tokens = [] then return NoActiveDevice
     else if fcm_v1_configured (cfg w) then send_v1_all tokens msg InvalidDevice
     else if \<not> fcm_server_key (cfg w) then return NotConfigured
     else send_legacy tokens msg)"

section \<open>The worker\<close>

definition eligible :: "micros \<Rightarrow> outbox_row \<Rightarrow> bool" where
  "eligible t row \<longleftrightarrow>
     n_status row \<in> {Pending, Retry} \<and> n_available_at row \<le> t
     \<or> n_status row = Processing
        \<and> (case n_locked_at row of None \<Rightarrow> False | Some l \<Rightarrow> l < t - minutes 5)"

definition purgeable :: "micros \<Rightarrow> outbox_row \<Rightarrow> bool" where
  "purgeable t row \<longleftrightarrow> n_status row \<in> {Sent, Dead}
     \<and> (case n_sent_at row of None \<Rightarrow> n_created_at row | Some s \<Rightarrow> s) < t - days 30"

definition claim_row :: "micros \<Rightarrow> outbox_row \<Rightarrow> outbox_row" where
  "claim_row t row =
     row\<lparr>n_status := Processing, n_attempts := n_attempts row + 1, n_locked_at := Some t\<rparr>"

definition picked :: "micros \<Rightarrow> outbox_row list \<Rightarrow> outbox_row list" where
  "picked t rows = take 20 (sort_key n_id (filter (eligible t) rows))"

definition claim_batch :: "outbox_row list act" where
  "claim_batch = execute db_error (\<lambda>w.
     let rows = picked (clock w) (outbox (db w)); ids = map n_id rows in
     (map (claim_row (clock w)) rows,
      (db w)\<lparr>outbox :=
        update_where (\<lambda>r. n_id r \<in> set ids) (claim_row (clock w))
          (delete_where (purgeable (clock w)) (outbox (db w)))\<rparr>))"

definition json_int :: "string \<Rightarrow> json \<Rightarrow> int option" where
  "json_int k data = (case json_get k data of Some (JInt i) \<Rightarrow> Some i | _ \<Rightarrow> None)"

definition delivery_allowed :: "outbox_row \<Rightarrow> world \<Rightarrow> bool" where
  "delivery_allowed row w =
     (let data = n_data row; d = db w; me = n_user_id row in
      if json_get ''type'' data \<in> {Some (JStr ''friend_request''), Some (JStr ''friend_response'')}
      then exists_where (\<lambda>f. json_int ''request_id'' data = Some (fr_id f)
             \<and> \<not> contact_blocked d (fr_sender_id f) (fr_receiver_id f)) (friend_requests d)
      else if json_get ''type'' data = Some (JStr ''invite_received'')
      then exists_where (\<lambda>e. json_int ''event_id'' data = Some (e_id e)
             \<and> exists_where (\<lambda>i. i_event_id i = e_id e \<and> i_user_id i = me \<and> i_status i \<noteq> Expired)
                 (invitations d)
             \<and> \<not> contact_blocked d (e_owner_id e) me) (events d)
      else if json_get ''type'' data = Some (JStr ''poll_created'')
      then exists_where (\<lambda>p. json_int ''poll_id'' data = Some (p_id p)
             \<and> json_int ''event_id'' data = Some (p_event_id p)
             \<and> accepted_member d (p_event_id p) me
             \<and> (case p_created_by p of None \<Rightarrow> False | Some c \<Rightarrow> c \<noteq> me)) (polls d)
      else True)"


definition set_outbox :: "int \<Rightarrow> (micros \<Rightarrow> outbox_row \<Rightarrow> outbox_row) \<Rightarrow> unit act" where
  "set_outbox i f = execute db_error (\<lambda>w. ((), (db w)\<lparr>outbox :=
     update_where (\<lambda>r. n_id r = i) (f (clock w)) (outbox (db w))\<rparr>))"

definition mark_dead :: "micros \<Rightarrow> outbox_row \<Rightarrow> outbox_row" where
  "mark_dead t r =
     r\<lparr>n_status := Dead, n_last_error := Some ''contact_unavailable'', n_locked_at := None\<rparr>"

definition mark_sent :: "micros \<Rightarrow> outbox_row \<Rightarrow> outbox_row" where
  "mark_sent t r =
     r\<lparr>n_status := Sent, n_sent_at := Some t, n_locked_at := None, n_last_error := None\<rparr>"

definition retry_delay_seconds :: "int \<Rightarrow> int" where
  "retry_delay_seconds attempts = min (2 ^ nat (max 1 (min 10 attempts))) 3600"

definition mark_retry :: "int \<Rightarrow> string \<Rightarrow> micros \<Rightarrow> outbox_row \<Rightarrow> outbox_row" where
  "mark_retry attempts err t r =
     r\<lparr>n_status := (if attempts \<ge> 8 then Dead else Retry),
       n_available_at := t + seconds (retry_delay_seconds attempts),
       n_locked_at := None, n_last_error := Some (take 500 err)\<rparr>"

definition retry_row :: "int \<Rightarrow> int \<Rightarrow> string \<Rightarrow> unit act" where
  "retry_row i attempts err =
     andthen (attempt (set_outbox i (mark_retry attempts err))) (\<lambda>_. return ())"

definition deliver_row :: "outbox_row \<Rightarrow> unit act" where
  "deliver_row row =
     andthen (attempt (query db_error (delivery_allowed row))) (\<lambda>allowed. case allowed of
       None \<Rightarrow> retry_row (n_id row) (n_attempts row) ''contact_check_unavailable''
     | Some allowed \<Rightarrow>
         if \<not> allowed then andthen (attempt (set_outbox (n_id row) mark_dead)) (\<lambda>_. return ())
         else andthen (attempt (query db_error (tokens_by_user (n_user_id row)))) (\<lambda>tokens.
           case tokens of
             None \<Rightarrow> retry_row (n_id row) (n_attempts row) ''device_lookup_failed''
           | Some tokens \<Rightarrow>
               andthen (send_to_tokens_diagnosed tokens (n_title row, n_body row, n_data row))
                 (\<lambda>delivered.
               if completed delivered
               then andthen (attempt (set_outbox (n_id row) mark_sent)) (\<lambda>_. return ())
               else retry_row (n_id row) (n_attempts row) ''push delivery failed'')))"

definition process_batch :: "unit act" where
  "process_batch = andthen claim_batch (\<lambda>rows. for_each rows deliver_row)"

section \<open>Frames\<close>

text \<open>Queueing touches only the outbox; the worker only the outbox and the devices.\<close>

definition only_outbox :: "world \<Rightarrow> world \<Rightarrow> bool" where
  "only_outbox w w' \<longleftrightarrow> clock w' = clock w \<and> cfg w' = cfg w
     \<and> (\<forall>s. s \<noteq> OutboxSeq \<longrightarrow> seqs w' s = seqs w s)
     \<and> (db w')\<lparr>outbox := [], user_devices := []\<rparr> = (db w)\<lparr>outbox := [], user_devices := []\<rparr>"

lemma only_outbox_refl [simp]: "only_outbox w w"
  by (simp add: only_outbox_def)

lemma only_outbox_trans: "only_outbox u v \<Longrightarrow> only_outbox v w \<Longrightarrow> only_outbox u w"
  by (simp add: only_outbox_def)

lemma only_outbox_same_data: "same_data w w' \<Longrightarrow> only_outbox w w'"
  by (simp add: only_outbox_def same_data_def)

lemma only_outbox_tables:
  assumes "only_outbox w w'"
  shows "users (db w') = users (db w)" "events (db w') = events (db w)"
    "invitations (db w') = invitations (db w)" "carpools (db w') = carpools (db w)"
    "passengers (db w') = passengers (db w)" "expenses (db w') = expenses (db w)"
    "participants (db w') = participants (db w)" "polls (db w') = polls (db w)"
    "poll_options (db w') = poll_options (db w)" "poll_votes (db w') = poll_votes (db w)"
    "friendships (db w') = friendships (db w)" "friend_requests (db w') = friend_requests (db w)"
    "user_blocks (db w') = user_blocks (db w)" "share_tokens (db w') = share_tokens (db w)"
    "item_types (db w') = item_types (db w)" "items (db w') = items (db w)"
    "events_items (db w') = events_items (db w)" "user_items (db w') = user_items (db w)"
  using assms by (cases "db w'"; cases "db w"; simp add: only_outbox_def)+

lemma insert_outbox_frame:
  "wp (stmt h (insert_outbox u r)) (\<lambda>_. only_outbox w) (\<lambda>e w'. (\<exists>x. e = h x) \<and> only_outbox w w') w"
  by (auto simp: wp_simps insert_outbox_def nextval_def Let_def only_outbox_def)

lemma notify_users_frame:
  "wp (notify_users us r) (\<lambda>_. only_outbox w) (\<lambda>_ _. False) w"
  unfolding notify_users_def
proof (rule wp_for_each [where I = "only_outbox w"])
  fix u s
  assume "only_outbox w s"
  then show "wp (andthen (attempt (stmt (\<lambda>_. db_error) (insert_outbox u r))) (\<lambda>_. return ()))
      (\<lambda>_. only_outbox w) (\<lambda>_ _. False) s"
    unfolding wp_andthen wp_attempt wp_return
    by (auto intro: wp_mono [OF insert_outbox_frame] only_outbox_trans)
qed simp_all

lemma enqueue_tx_frame:
  "wp (enqueue_notifications_tx us r) (\<lambda>_. only_outbox w)
     (\<lambda>e w'. e = db_error \<and> only_outbox w w') w"
  unfolding enqueue_notifications_tx_def
proof (rule wp_for_each [where I = "only_outbox w"])
  fix u s
  assume "only_outbox w s"
  then show "wp (stmt (\<lambda>_. db_error) (insert_outbox u r))
      (\<lambda>_. only_outbox w) (\<lambda>e w'. e = db_error \<and> only_outbox w w') s"
    by (auto intro: wp_mono [OF insert_outbox_frame] only_outbox_trans)
qed simp_all


text \<open>Queueing for users that exist only fails when a statement does.\<close>

lemma enqueue_tx_ok:
  assumes "\<And>u. u \<in> set us \<Longrightarrow> exists_where (\<lambda>x. u_id x = u) (users (db w))"
  shows "wp (enqueue_notifications_tx us r) (\<lambda>_. only_outbox w)
     (\<lambda>e w'. e = db_error \<and> faults w \<noteq> []) w"
  unfolding enqueue_notifications_tx_def
proof (rule wp_for_each [where I = "\<lambda>w'. only_outbox w w' \<and> (faults w = [] \<longrightarrow> faults w' = [])"])
  fix u s
  assume u: "u \<in> set us" and s: "only_outbox w s \<and> (faults w = [] \<longrightarrow> faults s = [])"
  have "exists_where (\<lambda>x. u_id x = u) (users (db s))"
    using assms [OF u] s by (simp add: only_outbox_tables(1) [of w s])
  then show "wp (stmt (\<lambda>_. db_error) (insert_outbox u r))
      (\<lambda>_ w'. only_outbox w w' \<and> (faults w = [] \<longrightarrow> faults w' = []))
      (\<lambda>e w'. e = db_error \<and> faults w \<noteq> []) s"
    using s by (cases "faults s = []")
      (auto simp: wp_simps insert_outbox_def nextval_def Let_def only_outbox_def)
qed simp_all

text \<open>After queueing, every recipient has a row under its deduplication key.\<close>

definition queued :: "notification_request \<Rightarrow> database \<Rightarrow> int \<Rightarrow> bool" where
  "queued r d u \<longleftrightarrow> exists_where (\<lambda>n. n_dedup_key n =
     map_option (\<lambda>base. base @ '':'' @ show_int u) (nr_dedup_base_key r)) (outbox d)"

lemma refresh_key [simp]: "n_dedup_key (refresh_outbox_row t new old) = n_dedup_key old"
  by (simp add: refresh_outbox_row_def)

lemma upsert_keeps_key:
  "n \<in> set rows \<Longrightarrow> \<exists>m \<in> set (upsert_outbox t new rows). n_dedup_key m = n_dedup_key n"
  unfolding upsert_outbox_def by (auto simp: bex_update_where simp del: set_update_where)

lemma upsert_has_key: "\<exists>m \<in> set (upsert_outbox t new rows). n_dedup_key m = n_dedup_key new"
proof (cases "exists_where (same_dedup new) rows")
  case True
  then obtain n where "n \<in> set rows" "n_dedup_key n = n_dedup_key new" by (auto simp: same_dedup_def)
  then show ?thesis using upsert_keeps_key by metis
qed (simp add: upsert_outbox_def)

lemma insert_outbox_queued:
  "wp (stmt h (insert_outbox u r))
     (\<lambda>_ w'. queued r (db w') u \<and> (\<forall>x. queued r (db w) x \<longrightarrow> queued r (db w') x)) (\<lambda>_ _. True) w"
proof -
  let ?new = "\<lambda>t i. new_outbox_row t i u r"
  have "\<exists>n \<in> set (upsert_outbox t (?new t i) rows). n_dedup_key n =
      map_option (\<lambda>base. base @ '':'' @ show_int u) (nr_dedup_base_key r)" for t i rows
    using upsert_has_key [of t "?new t i" rows] by (simp add: new_outbox_row_def Let_def)
  then show ?thesis
    by (auto simp: wp_simps insert_outbox_def nextval_def Let_def queued_def)
      (metis upsert_keeps_key)
qed

lemma enqueue_tx_queued:
  "wp (enqueue_notifications_tx us r)
     (\<lambda>_ w'. (\<forall>u \<in> set us. queued r (db w') u) \<and> (\<forall>x. queued r (db w) x \<longrightarrow> queued r (db w') x))
     (\<lambda>_ _. True) w"
proof (induction us arbitrary: w)
  case Nil
  show ?case by (simp add: enqueue_notifications_tx_def)
next
  case (Cons u us)
  show ?case
    unfolding enqueue_notifications_tx_def for_each.simps wp_andthen
    by (rule wp_mono [OF insert_outbox_queued])
      (auto intro: wp_mono [OF Cons.IH [unfolded enqueue_notifications_tx_def]])
qed

end
