(* ===== verification/Pagination.thy ===== *)
theory Pagination
  imports World
begin

text \<open>
  Pages of a listing (\<open>src/pagination.rs\<close>): a request asks for one row more than the page holds,
  and the answer carries the cursor of the last row it shows when there are more.
\<close>

record page_query =
  q_limit :: "int option"
  q_cursor :: "string option"

record page =
  pg_limit :: int
  pg_after_id :: "int option"

definition max_page_size :: int where
  "max_page_size = 100"

definition fetch_limit :: "page \<Rightarrow> int" where
  "fetch_limit p = pg_limit p + 1"

definition page_request :: "bool \<Rightarrow> page_query \<Rightarrow> api_error + page option" where
  "page_request enforce q =
     (if q_limit q = None \<and> q_cursor q = None \<and> \<not> enforce then Inr None
      else let limit = (case q_limit q of None \<Rightarrow> 50 | Some l \<Rightarrow> l) in
        if \<not> (1 \<le> limit \<and> limit \<le> max_page_size) then Inl (bad_request ''invalid_pagination'')
        else case q_cursor q of
            None \<Rightarrow> Inr (Some \<lparr>pg_limit = limit, pg_after_id = None\<rparr>)
          | Some value \<Rightarrow>
              (case parse_i64 value of
                 None \<Rightarrow> Inl (bad_request ''invalid_cursor'')
               | Some i \<Rightarrow> Inr (Some \<lparr>pg_limit = limit, pg_after_id = Some i\<rparr>)))"

text \<open>The rows of the answer and the \<open>X-Next-Cursor\<close> header.\<close>

definition json_page :: "'a list \<Rightarrow> int \<Rightarrow> ('a \<Rightarrow> string) \<Rightarrow> 'a list \<times> string option" where
  "json_page rows limit next_cursor =
     (let has_more = int (length rows) > limit;
          shown = (if has_more then take (nat limit) rows else rows)
      in (shown, if has_more \<and> shown \<noteq> [] then Some (next_cursor (last shown)) else None))"

lemma page_request_limit:
  "page_request enforce q = Inr (Some p) \<Longrightarrow> 1 \<le> pg_limit p \<and> pg_limit p \<le> 100"
  by (auto simp: page_request_def Let_def max_page_size_def split: if_splits option.splits)

section \<open>Following the cursors\<close>

text \<open>
  A page query returns the first \<open>fetch_limit\<close> rows that come after the cursor; \<open>after i r\<close> is
  the comparison the SQL makes.  A client that follows the cursors, \<open>fuel\<close> pages at most, collects
  rows until an answer has no cursor; \<open>None\<close> is a client that did not come to the end.
\<close>

definition fetch_after :: "(int \<Rightarrow> 'a \<Rightarrow> bool) \<Rightarrow> 'a list \<Rightarrow> int option \<Rightarrow> int \<Rightarrow> 'a list" where
  "fetch_after after rows cursor lim =
     take (nat lim) (filter (\<lambda>r. case cursor of None \<Rightarrow> True | Some i \<Rightarrow> after i r) rows)"

fun follow :: "(int option \<Rightarrow> int \<Rightarrow> 'a list) \<Rightarrow> ('a \<Rightarrow> string) \<Rightarrow> int \<Rightarrow> nat \<Rightarrow> int option
    \<Rightarrow> 'a list option" where
  "follow fetch cur limit 0 cursor = None"
| "follow fetch cur limit (Suc fuel) cursor =
     (case json_page (fetch cursor (limit + 1)) limit cur of
        (shown, None) \<Rightarrow> Some shown
      | (shown, Some c) \<Rightarrow>
          (case parse_i64 c of
             None \<Rightarrow> None
           | Some i \<Rightarrow> map_option (\<lambda>rest. shown @ rest) (follow fetch cur limit fuel (Some i))))"

lemma json_page_take:
  assumes "1 \<le> limit"
  shows "json_page (take (nat (limit + 1)) rows) limit cur =
     (if int (length rows) \<le> limit then (rows, None)
      else (take (nat limit) rows, Some (cur (last (take (nat limit) rows)))))"
  using assms by (auto simp: json_page_def Let_def min_def)

text \<open>The interface of a listing that is read page by page.\<close>

locale paged_listing =
  fixes ok :: "'d \<Rightarrow> bool" and listing :: "'d \<Rightarrow> 'a list" and ident :: "'a \<Rightarrow> int"
    and after :: "int \<Rightarrow> 'a \<Rightarrow> bool"
  assumes ident_range: "ok d \<Longrightarrow> r \<in> set (listing d) \<Longrightarrow> - (2 ^ 63) \<le> ident r \<and> ident r < 2 ^ 63"
    and listing_order: "ok d \<Longrightarrow> sorted_wrt (\<lambda>a b. after (ident a) b) (listing d)"
    and after_asym: "after (ident a) b \<Longrightarrow> \<not> after (ident b) a"
begin

lemma after_last:
  assumes "sorted_wrt (\<lambda>a b. after (ident a) b) (xs @ l # ys)"
  shows "filter (after (ident l)) (xs @ l # ys) = ys"
proof -
  have "\<not> after (ident l) x" if "x \<in> set xs" for x
    using assms that after_asym by (auto simp: sorted_wrt_append)
  moreover have "\<not> after (ident l) l" using after_asym by blast
  moreover have "after (ident l) y" if "y \<in> set ys" for y
    using assms that by (auto simp: sorted_wrt_append)
  ultimately show ?thesis by (auto simp: filter_empty_conv filter_id_conv)
qed

lemma follow_suffix:
  assumes "ok d" and "listing d = pre @ rest" and "1 \<le> limit" and "length rest < fuel"
    and "filter (\<lambda>r. case cursor of None \<Rightarrow> True | Some i \<Rightarrow> after i r) (listing d) = rest"
  shows "follow (fetch_after after (listing d)) (\<lambda>r. show_int (ident r)) limit fuel cursor = Some rest"
  using assms(2,4,5)
proof (induction fuel arbitrary: pre rest cursor)
  case 0
  then show ?case by simp
next
  case (Suc fuel)
  let ?n = "nat limit"
  have fetch: "fetch_after after (listing d) cursor (limit + 1) = take (nat (limit + 1)) rest"
    using Suc.prems(3) by (simp add: fetch_after_def)
  show ?case
  proof (cases "int (length rest) \<le> limit")
    case True
    then show ?thesis unfolding follow.simps fetch json_page_take [OF assms(3)] by simp
  next
    case False
    then have "take ?n rest \<noteq> []" using assms(3) by auto
    then obtain xs l where xs: "take ?n rest = xs @ [l]" by (meson rev_exhaust)
    then have "listing d = (pre @ xs) @ l # drop ?n rest"
      using Suc.prems(1) append_take_drop_id [of ?n rest] by simp
    note split = this
    have "l \<in> set (listing d)" using split by simp
    then have range: "parse_i64 (show_int (ident l)) = Some (ident l)"
      using ident_range [OF assms(1)] by (blast intro: parse_show_int)
    have tail: "filter (after (ident l)) (listing d) = drop ?n rest"
      using after_last listing_order [OF assms(1)] unfolding split by blast
    have "follow (fetch_after after (listing d)) (\<lambda>r. show_int (ident r)) limit fuel (Some (ident l))
        = Some (drop ?n rest)"
    proof (rule Suc.IH)
      show "listing d = (pre @ xs @ [l]) @ drop ?n rest" using split by simp
      show "length (drop ?n rest) < fuel" using Suc.prems(2) False assms(3) by simp
    qed (simp add: tail)
    then show ?thesis
      unfolding follow.simps fetch json_page_take [OF assms(3)]
      using False range append_take_drop_id [of ?n rest] by (simp add: xs)
  qed
qed

lemma follow_complete:
  assumes "ok d" and "1 \<le> limit" and "length (listing d) < fuel"
  shows "follow (fetch_after after (listing d)) (\<lambda>r. show_int (ident r)) limit fuel None
     = Some (listing d)"
  using follow_suffix [OF assms(1), of "[]" "listing d"] assms(2,3) by simp

end

end
