(* ===== verification/Carpools.thy ===== *)
theory Carpools
  imports Outbox Pagination
begin

text \<open>
  Carpools (\<open>src/routes/carpools.rs\<close>): a member of an event offers seats, other members take one
  each.  \<open>seats_taken\<close> is a counter that the handlers keep in step with the passenger rows inside
  one transaction.  A handler is its checks (which only read), one transaction, and a tail that
  publishes and notifies.
\<close>

section \<open>Payloads and views\<close>

record carpool_payload =
  pl_origin :: string
  pl_origin_latitude :: "f64_bits option"
  pl_origin_longitude :: "f64_bits option"
  pl_depart_at :: micros
  pl_seats_total :: int
  pl_notes :: "string option"

record carpool_patch =
  pa_origin :: "string option"
  pa_origin_latitude :: "f64_bits option"
  pa_origin_longitude :: "f64_bits option"
  pa_depart_at :: "micros option"
  pa_seats_total :: "int option"
  pa_notes :: "string option"

record passenger_view =
  pv_user_id :: int
  pv_handle :: string
  pv_avatar_url :: "string option"
  pv_joined_at :: micros

record carpool_view =
  cv_carpool :: carpool
  cv_driver_handle :: "string option"
  cv_driver_avatar_url :: "string option"
  cv_passengers :: "passenger_view list"

record seats_answer =
  sa_seats_taken :: int
  sa_seats_total :: int

section \<open>Checks\<close>

definition fetch_user_id :: "string \<Rightarrow> int act" where
  "fetch_user_id email =
     andthen (query db_error (\<lambda>w. map_option u_id (user_by_email w email)))
       (\<lambda>row. some_or row (unauthorized ''user_not_found''))"

definition ensure_event_member :: "request \<Rightarrow> int \<Rightarrow> unit act" where
  "ensure_event_member req event_id =
     andthen (claims_email req) (\<lambda>requester.
     andthen (fetch_user_id requester) (\<lambda>requester_id.
     andthen (query db_error (\<lambda>w. map_option e_owner_id (live_event (db w) event_id))) (\<lambda>row.
     andthen (some_or row (not_found ''event_not_found'')) (\<lambda>owner_id.
     if owner_id = requester_id then return ()
     else andthen (query db_error (\<lambda>w. accepted_member (db w) event_id requester_id)) (\<lambda>is_member.
       require is_member (forbidden ''forbidden''))))))"

definition carpool_by_id :: "database \<Rightarrow> int \<Rightarrow> carpool option" where
  "carpool_by_id d i = find (\<lambda>c. c_id c = i) (carpools d)"

definition ensure_carpool_driver :: "request \<Rightarrow> int \<Rightarrow> unit act" where
  "ensure_carpool_driver req carpool_id =
     andthen (claims_email req) (\<lambda>requester_email.
     andthen (fetch_user_id requester_email) (\<lambda>requester_id.
     andthen (query db_error (\<lambda>w. map_option c_driver_id (carpool_by_id (db w) carpool_id)))
       (\<lambda>driver_id. case driver_id of
          Some i \<Rightarrow> if i = requester_id then return () else throw (forbidden ''forbidden'')
        | None \<Rightarrow> throw (not_found ''carpool_not_found''))))"

text \<open>
  \<open>pg_advisory_xact_lock\<close>: transactions of one user on one event run one after the other, which
  is how \<open>transact\<close> reads them; only its failure is visible.
\<close>

definition lock_event_user :: "int \<Rightarrow> int \<Rightarrow> unit act" where
  "lock_event_user event_id user_id = query internal_error (\<lambda>_. ())"

definition fetch_carpool :: "int \<Rightarrow> carpool act" where
  "fetch_carpool carpool_id =
     andthen (query internal_error (\<lambda>w. carpool_by_id (db w) carpool_id))
       (\<lambda>row. some_or row (not_found ''carpool_not_found''))"

section \<open>Listing\<close>

definition apply_sort :: "string option \<Rightarrow> carpool list \<Rightarrow> carpool list" where
  "apply_sort sort_by rows =
     (if sort_by = Some ''departure_asc'' then sort_key c_depart_at rows
      else if sort_by = Some ''departure_desc'' then sort_key (\<lambda>c. - c_depart_at c) rows
      else if sort_by = Some ''seats_asc'' then sort_key c_seats_total rows
      else if sort_by = Some ''seats_desc'' then sort_key (\<lambda>c. - c_seats_total c) rows
      else if sort_by = Some ''available_seats_asc''
        then sort_key (\<lambda>c. c_seats_total c - c_seats_taken c) rows
      else if sort_by = Some ''available_seats_desc''
        then sort_key (\<lambda>c. - (c_seats_total c - c_seats_taken c)) rows
      else sort_key c_depart_at rows)"

text \<open>Without \<open>ORDER BY\<close> the rows come in the order of the table.\<close>

definition select_carpools :: "int \<Rightarrow> page option \<Rightarrow> database \<Rightarrow> carpool list" where
  "select_carpools event_id pg d =
     (let rows = filter (\<lambda>c. c_event_id c = event_id) (carpools d) in
      case pg of
        None \<Rightarrow> rows
      | Some p \<Rightarrow>
          take (nat (fetch_limit p))
            (filter (\<lambda>c. c_id c > (case pg_after_id p of None \<Rightarrow> 0 | Some i \<Rightarrow> i)) (sort_key c_id rows)))"

definition rides_along :: "database \<Rightarrow> int \<Rightarrow> carpool \<Rightarrow> bool" where
  "rides_along d user_id c =
     exists_where (\<lambda>p. cp_carpool_id p = c_id c \<and> cp_user_id p = user_id) (passengers d)"

definition group_for_user :: "string option \<Rightarrow> int \<Rightarrow> (carpool \<Rightarrow> bool) \<Rightarrow> carpool list \<Rightarrow> carpool list" where
  "group_for_user sort_by user_id is_passenger rows =
     apply_sort sort_by (filter (\<lambda>c. c_driver_id c = user_id) rows)
     @ apply_sort sort_by (filter (\<lambda>c. c_driver_id c \<noteq> user_id \<and> is_passenger c) rows)
     @ apply_sort sort_by (filter (\<lambda>c. c_driver_id c \<noteq> user_id \<and> \<not> is_passenger c) rows)"

definition passenger_views :: "database \<Rightarrow> int \<Rightarrow> passenger_view list" where
  "passenger_views d carpool_id =
     concat (map (\<lambda>p. case find (\<lambda>u. u_id u = cp_user_id p) (users d) of
          None \<Rightarrow> []
        | Some u \<Rightarrow> [\<lparr>pv_user_id = u_id u, pv_handle = u_handle u, pv_avatar_url = u_avatar_url u,
                     pv_joined_at = cp_joined_at p\<rparr>])
       (sort_key cp_joined_at (filter (\<lambda>p. cp_carpool_id p = carpool_id) (passengers d))))"

definition make_view :: "user list \<Rightarrow> (int \<Rightarrow> passenger_view list) \<Rightarrow> carpool \<Rightarrow> carpool_view" where
  "make_view drivers riders c =
     (let driver = find (\<lambda>u. u_id u = c_driver_id c) drivers in
      \<lparr>cv_carpool = c, cv_driver_handle = map_option u_handle driver,
       cv_driver_avatar_url = Option.bind driver u_avatar_url, cv_passengers = riders (c_id c)\<rparr>)"

definition fetch_carpool_views ::
    "int \<Rightarrow> int option \<Rightarrow> string option \<Rightarrow> page option \<Rightarrow> carpool_view list act" where
  "fetch_carpool_views event_id user_id sort_by pg =
     andthen (query db_error (\<lambda>w. select_carpools event_id pg (db w))) (\<lambda>rows.
     andthen
       (case user_id of
          None \<Rightarrow> return (apply_sort sort_by rows)
        | Some user_id \<Rightarrow>
            andthen (if rows = [] then return (\<lambda>_. False)
                     else query internal_error (\<lambda>w. rides_along (db w) user_id)) (\<lambda>is_passenger.
            return (group_for_user sort_by user_id is_passenger rows))) (\<lambda>sorted.
     andthen (if sorted = [] then return [] else query internal_error (\<lambda>w. users (db w))) (\<lambda>drivers.
     andthen (if sorted = [] then return (\<lambda>_. [])
              else query internal_error (\<lambda>w. passenger_views (db w))) (\<lambda>riders.
     return (map (make_view drivers riders) sorted)))))"

definition list_event_carpools ::
    "request \<Rightarrow> int \<Rightarrow> string option \<Rightarrow> page_query \<Rightarrow> (carpool_view list \<times> string option) answer act" where
  "list_event_carpools req event_id sort_by q =
     andthen (ensure_event_member req event_id) (\<lambda>_.
     andthen (ensure_event_writable event_id) (\<lambda>_.
     andthen (attempt (andthen (claims_email req) fetch_user_id)) (\<lambda>user_id.
     andthen get_state (\<lambda>w.
     andthen (from_result (page_request (enforce_page_defaults (cfg w)) q)) (\<lambda>pg.
     andthen (fetch_carpool_views event_id user_id sort_by pg) (\<lambda>views.
     return (Answer 200 (case pg of
         None \<Rightarrow> (views, None)
       | Some p \<Rightarrow> json_page views (pg_limit p) (\<lambda>v. show_int (c_id (cv_carpool v)))))))))))"

section \<open>Offering a carpool\<close>

definition clean_notes :: "string option \<Rightarrow> string option" where
  "clean_notes notes = (case notes of
       None \<Rightarrow> None
     | Some n \<Rightarrow> if trim n = [] then None else Some (trim n))"

definition in_carpool :: "database \<Rightarrow> int \<Rightarrow> int \<Rightarrow> bool" where
  "in_carpool d event_id user_id \<longleftrightarrow>
     exists_where (\<lambda>p. cp_user_id p = user_id
         \<and> exists_where (\<lambda>c. c_id c = cp_carpool_id p \<and> c_event_id c = event_id) (carpools d))
       (passengers d)
     \<or> exists_where (\<lambda>c. c_driver_id c = user_id \<and> c_event_id c = event_id) (carpools d)"

definition insert_carpool :: "(int \<Rightarrow> carpool) \<Rightarrow> world \<Rightarrow> (sql_error + int) \<times> world" where
  "insert_carpool row w =
     (let (i, w') = nextval CarpoolSeq w; c = row i; d = db w in
      if c_seats_total c \<le> 0 then (Inl CheckViolation, w')
      else if exists_where (\<lambda>x. c_event_id x = c_event_id c \<and> c_driver_id x = c_driver_id c) (carpools d)
        then (Inl UniqueViolation, w')
      else if \<not> exists_where (\<lambda>e. e_id e = c_event_id c) (events d)
              \<or> \<not> exists_where (\<lambda>u. u_id u = c_driver_id c) (users d)
        then (Inl ForeignKeyViolation, w')
      else (Inr i, w'\<lparr>db := d\<lparr>carpools := carpools d @ [c]\<rparr>\<rparr>))"

definition new_carpool :: "int \<Rightarrow> int \<Rightarrow> string \<Rightarrow> string option \<Rightarrow> carpool_payload \<Rightarrow> micros \<Rightarrow> int \<Rightarrow> carpool" where
  "new_carpool event_id user_id origin notes payload t i =
     \<lparr>c_id = i, c_event_id = event_id, c_driver_id = user_id, c_origin = origin,
      c_origin_latitude = pl_origin_latitude payload,
      c_origin_longitude = pl_origin_longitude payload,
      c_depart_at = pl_depart_at payload, c_seats_total = pl_seats_total payload,
      c_seats_taken = 0, c_notes = notes, c_created_at = t, c_updated_at = t\<rparr>"

definition create_carpool_tx ::
    "int \<Rightarrow> int \<Rightarrow> string \<Rightarrow> string option \<Rightarrow> carpool_payload \<Rightarrow> int act" where
  "create_carpool_tx event_id user_id origin notes payload = transact internal_error (
     andthen (lock_event_user event_id user_id) (\<lambda>_.
     andthen (query internal_error (\<lambda>w. in_carpool (db w) event_id user_id)) (\<lambda>existing_carpool.
     andthen (require (\<not> existing_carpool) (bad_request ''already_in_carpool'')) (\<lambda>_.
     stmt (\<lambda>e. if e = UniqueViolation then bad_request ''already_in_carpool'' else internal_error)
       (\<lambda>w. insert_carpool (new_carpool event_id user_id origin notes payload (clock w)) w)))))"

definition carpool_message :: "string \<Rightarrow> int \<Rightarrow> json" where
  "carpool_message ty carpool_id = JObj [(''type'', JStr ty), (''carpool_id'', JInt carpool_id)]"

definition answer_with_view :: "nat \<Rightarrow> int \<Rightarrow> int \<Rightarrow> carpool_view answer act" where
  "answer_with_view status event_id carpool_id =
     andthen (map_error (\<lambda>_. internal_error) (fetch_carpool_views event_id None None None)) (\<lambda>views.
     andthen (some_or (find (\<lambda>v. c_id (cv_carpool v) = carpool_id) views) internal_error) (\<lambda>v.
     return (Answer status v)))"

definition create_carpool :: "request \<Rightarrow> int \<Rightarrow> carpool_payload \<Rightarrow> carpool_view answer act" where
  "create_carpool req event_id payload =
     andthen (claims_email req) (\<lambda>requester_email.
     andthen (ensure_event_member req event_id) (\<lambda>_.
     andthen (ensure_event_writable event_id) (\<lambda>_.
     andthen (fetch_user_id requester_email) (\<lambda>user_id.
     let origin = trim (pl_origin payload) in
     andthen (require (origin \<noteq> []) (bad_request ''invalid_payload'')) (\<lambda>_.
     andthen (require (\<not> pl_seats_total payload < 1) (bad_request ''invalid_payload'')) (\<lambda>_.
     andthen now (\<lambda>t.
     andthen (require (\<not> pl_depart_at payload < t) (bad_request ''invalid_payload'')) (\<lambda>_.
     andthen (create_carpool_tx event_id user_id origin (clean_notes (pl_notes payload)) payload)
       (\<lambda>carpool_id.
     andthen (publish_event event_id (carpool_message ''carpool_created'' carpool_id)) (\<lambda>_.
     answer_with_view 201 event_id carpool_id))))))))))"

section \<open>Changing a carpool\<close>

definition apply_patch :: "carpool_patch \<Rightarrow> micros \<Rightarrow> carpool \<Rightarrow> carpool \<Rightarrow> carpool" where
  "apply_patch p t current row = row\<lparr>
     c_origin := (case pa_origin p of Some v \<Rightarrow> v | None \<Rightarrow> c_origin current),
     c_origin_latitude := (case pa_origin_latitude p of Some v \<Rightarrow> Some v | None \<Rightarrow> c_origin_latitude current),
     c_origin_longitude := (case pa_origin_longitude p of Some v \<Rightarrow> Some v | None \<Rightarrow> c_origin_longitude current),
     c_depart_at := (case pa_depart_at p of Some v \<Rightarrow> v | None \<Rightarrow> c_depart_at current),
     c_seats_total := (case pa_seats_total p of Some v \<Rightarrow> v | None \<Rightarrow> c_seats_total current),
     c_notes := (case pa_notes p of Some n \<Rightarrow> clean_notes (Some n) | None \<Rightarrow> c_notes current),
     c_updated_at := t\<rparr>"

definition seats_check :: "carpool \<Rightarrow> bool" where
  "seats_check c \<longleftrightarrow> 0 < c_seats_total c \<and> 0 \<le> c_seats_taken c \<and> c_seats_taken c \<le> c_seats_total c"

text \<open>\<open>UPDATE carpools .. WHERE carpool_id\<close>, under the check constraints of the table.\<close>

definition update_carpool_row :: "int \<Rightarrow> (carpool \<Rightarrow> carpool) \<Rightarrow> world \<Rightarrow> (sql_error + unit) \<times> world" where
  "update_carpool_row carpool_id f w =
     (let rows = update_where (\<lambda>c. c_id c = carpool_id) f (carpools (db w)) in
      if list_all (\<lambda>c. c_id c = carpool_id \<longrightarrow> seats_check c) rows
      then (Inr (), w\<lparr>db := (db w)\<lparr>carpools := rows\<rparr>\<rparr>) else (Inl CheckViolation, w))"

definition update_carpool_tx :: "int \<Rightarrow> carpool_patch \<Rightarrow> carpool act" where
  "update_carpool_tx carpool_id p = transact internal_error (
     andthen (fetch_carpool carpool_id) (\<lambda>current.
     andthen (ensure_event_writable (c_event_id current)) (\<lambda>_.
     let origin = (case pa_origin p of Some v \<Rightarrow> v | None \<Rightarrow> c_origin current);
         seats_total = (case pa_seats_total p of Some v \<Rightarrow> v | None \<Rightarrow> c_seats_total current);
         depart_at = (case pa_depart_at p of Some v \<Rightarrow> v | None \<Rightarrow> c_depart_at current) in
     andthen (require (trim origin \<noteq> []) (bad_request ''invalid_payload'')) (\<lambda>_.
     andthen (require (\<not> seats_total < 1) (bad_request ''invalid_payload'')) (\<lambda>_.
     andthen (require (\<not> seats_total < c_seats_taken current) (bad_request ''invalid_payload'')) (\<lambda>_.
     andthen now (\<lambda>t.
     andthen (require (\<not> depart_at < t) (bad_request ''invalid_payload'')) (\<lambda>_.
     andthen (stmt (\<lambda>_. internal_error) (\<lambda>w.
       update_carpool_row carpool_id (apply_patch p (clock w) current) w)) (\<lambda>_.
     return current)))))))))"

definition update_carpool :: "request \<Rightarrow> int \<Rightarrow> carpool_patch \<Rightarrow> carpool_view answer act" where
  "update_carpool req carpool_id p =
     andthen (ensure_carpool_driver req carpool_id) (\<lambda>_.
     andthen (update_carpool_tx carpool_id p) (\<lambda>current.
     andthen (publish_event (c_event_id current) (carpool_message ''carpool_updated'' carpool_id)) (\<lambda>_.
     answer_with_view 200 (c_event_id current) carpool_id)))"

section \<open>Withdrawing a carpool\<close>

text \<open>\<open>DELETE FROM carpools\<close>: the passenger rows go with it (\<open>ON DELETE CASCADE\<close>).\<close>

definition delete_carpool_row :: "int \<Rightarrow> database \<Rightarrow> database" where
  "delete_carpool_row carpool_id d = d\<lparr>
     carpools := delete_where (\<lambda>c. c_id c = carpool_id) (carpools d),
     passengers := delete_where (\<lambda>p. cp_carpool_id p = carpool_id) (passengers d)\<rparr>"

definition notification_data :: "string \<Rightarrow> int \<Rightarrow> int \<Rightarrow> json" where
  "notification_data ty event_id carpool_id =
     JObj [(''type'', JStr ty), (''event_id'', JInt event_id), (''carpool_id'', JInt carpool_id)]"

definition cancelled_notice :: "carpool \<Rightarrow> notification_request" where
  "cancelled_notice c = \<lparr>nr_title = ''Covoiturage annul'' @ e_acute,
     nr_body = ''Le covoiturage au d'' @ e_acute @ ''part de '' @ c_origin c @ '' a '' @ e_acute @ ''t''
       @ e_acute @ '' annul'' @ e_acute @ '' par le conducteur'',
     nr_data = notification_data ''carpool_cancelled'' (c_event_id c) (c_id c),
     nr_dedup_base_key = Some (''carpool_cancelled:'' @ show_int (c_id c)), nr_dedup_ttl = 300\<rparr>"

definition delete_carpool_tx :: "carpool \<Rightarrow> unit act" where
  "delete_carpool_tx current = transact internal_error (
     andthen (query internal_error (\<lambda>w. map cp_user_id
         (filter (\<lambda>p. cp_carpool_id p = c_id current) (passengers (db w))))) (\<lambda>passenger_ids.
     andthen (execute internal_error (\<lambda>w. ((), delete_carpool_row (c_id current) (db w)))) (\<lambda>_.
     if passenger_ids = [] then return ()
     else map_error (\<lambda>_. internal_error)
       (enqueue_notifications_tx passenger_ids (cancelled_notice current)))))"

definition delete_carpool :: "request \<Rightarrow> int \<Rightarrow> string answer act" where
  "delete_carpool req carpool_id =
     andthen (fetch_carpool carpool_id) (\<lambda>current.
     andthen (ensure_carpool_driver req carpool_id) (\<lambda>_.
     andthen (ensure_event_writable (c_event_id current)) (\<lambda>_.
     andthen (delete_carpool_tx current) (\<lambda>_.
     andthen (publish_event (c_event_id current) (carpool_message ''carpool_deleted'' carpool_id)) (\<lambda>_.
     return (Answer 200 ''deleted''))))))"

section \<open>Joining and leaving\<close>

definition reserve_seat :: "int \<Rightarrow> world \<Rightarrow> int option \<times> database" where
  "reserve_seat carpool_id w =
     (let free = (\<lambda>c. c_id c = carpool_id \<and> c_seats_taken c < c_seats_total c) in
      (map_option (\<lambda>c. c_seats_taken c + 1) (find free (carpools (db w))),
       (db w)\<lparr>carpools := update_where free
         (\<lambda>c. c\<lparr>c_seats_taken := c_seats_taken c + 1, c_updated_at := clock w\<rparr>) (carpools (db w))\<rparr>))"

definition insert_passenger :: "int \<Rightarrow> int \<Rightarrow> int \<Rightarrow> world \<Rightarrow> (sql_error + unit) \<times> world" where
  "insert_passenger carpool_id event_id user_id w =
     (let d = db w in
      if exists_where (\<lambda>p. cp_carpool_id p = carpool_id \<and> cp_user_id p = user_id
            \<or> cp_event_id p = event_id \<and> cp_user_id p = user_id) (passengers d)
      then (Inl UniqueViolation, w)
      else if \<not> exists_where (\<lambda>c. c_id c = carpool_id \<and> c_event_id c = event_id) (carpools d)
              \<or> \<not> exists_where (\<lambda>u. u_id u = user_id) (users d)
      then (Inl ForeignKeyViolation, w)
      else (Inr (), w\<lparr>db := d\<lparr>passengers := passengers d
        @ [\<lparr>cp_carpool_id = carpool_id, cp_event_id = event_id, cp_user_id = user_id,
            cp_joined_at = clock w\<rparr>]\<rparr>\<rparr>))"

definition joined_notice :: "carpool \<Rightarrow> int \<Rightarrow> string \<Rightarrow> notification_request" where
  "joined_notice c user_id handle = \<lparr>nr_title = ''Nouveau passager'',
     nr_body = handle @ '' a rejoint votre covoiturage'',
     nr_data = notification_data ''carpool_joined'' (c_event_id c) (c_id c),
     nr_dedup_base_key = Some (''carpool_join:'' @ show_int (c_id c) @ '':'' @ show_int user_id),
     nr_dedup_ttl = 300\<rparr>"

definition user_handle :: "int \<Rightarrow> world \<Rightarrow> string" where
  "user_handle user_id w = (case find (\<lambda>u. u_id u = user_id) (users (db w)) of
       Some u \<Rightarrow> u_handle u | None \<Rightarrow> ''Un utilisateur'')"

text \<open>The transaction: it locks, checks the roles of the user, then takes the seat.\<close>

definition join_checks :: "int \<Rightarrow> int \<Rightarrow> int \<Rightarrow> carpool act" where
  "join_checks locked_event user_id carpool_id =
     andthen (lock_event_user locked_event user_id) (\<lambda>_.
     andthen (fetch_carpool carpool_id) (\<lambda>carpool.
     andthen (require (c_driver_id carpool \<noteq> user_id) (bad_request ''cannot_join_own_carpool'')) (\<lambda>_.
     andthen (query internal_error (\<lambda>w. exists_where (\<lambda>c. c_driver_id c = user_id
         \<and> c_id c \<noteq> carpool_id \<and> c_event_id c = c_event_id carpool) (carpools (db w))))
       (\<lambda>is_driver_elsewhere.
     andthen (require (\<not> is_driver_elsewhere) (bad_request ''cannot_join_another_carpool'')) (\<lambda>_.
     andthen (query internal_error (\<lambda>w. exists_where (\<lambda>cp. cp_user_id cp = user_id
         \<and> cp_carpool_id cp \<noteq> carpool_id
         \<and> exists_where (\<lambda>c. c_id c = cp_carpool_id cp \<and> c_event_id c = c_event_id carpool)
             (carpools (db w))) (passengers (db w)))) (\<lambda>is_passenger_elsewhere.
     andthen (require (\<not> is_passenger_elsewhere) (bad_request ''already_in_another_carpool'')) (\<lambda>_.
     andthen (query internal_error (\<lambda>w. exists_where (\<lambda>p. cp_carpool_id p = carpool_id
         \<and> cp_user_id p = user_id) (passengers (db w)))) (\<lambda>already_joined.
     andthen (require (\<not> already_joined) (conflict ''already_joined'')) (\<lambda>_.
     return carpool)))))))))"

definition take_seat :: "int \<Rightarrow> int \<Rightarrow> carpool \<Rightarrow> int act" where
  "take_seat user_id carpool_id carpool =
     andthen (execute internal_error (reserve_seat carpool_id)) (\<lambda>reserved.
     andthen (some_or reserved (bad_request ''carpool_full'')) (\<lambda>new_seats_taken.
     andthen (stmt (\<lambda>e. if e = UniqueViolation then conflict ''already_in_carpool'' else internal_error)
       (insert_passenger carpool_id (c_event_id carpool) user_id)) (\<lambda>_.
     andthen (query internal_error (user_handle user_id)) (\<lambda>handle.
     andthen (map_error (\<lambda>_. internal_error)
       (enqueue_notifications_tx [c_driver_id carpool] (joined_notice carpool user_id handle))) (\<lambda>_.
     return new_seats_taken)))))"

definition join_carpool_tx :: "int \<Rightarrow> int \<Rightarrow> int \<Rightarrow> (carpool \<times> int) act" where
  "join_carpool_tx locked_event user_id carpool_id = transact internal_error (
     andthen (join_checks locked_event user_id carpool_id) (\<lambda>carpool.
     andthen (take_seat user_id carpool_id carpool) (\<lambda>new_seats_taken.
     return (carpool, new_seats_taken))))"

definition rider_message :: "string \<Rightarrow> int \<Rightarrow> int \<Rightarrow> json" where
  "rider_message ty carpool_id user_id =
     JObj [(''type'', JStr ty), (''carpool_id'', JInt carpool_id), (''user_id'', JInt user_id)]"

definition join_carpool :: "request \<Rightarrow> int \<Rightarrow> seats_answer answer act" where
  "join_carpool req carpool_id =
     andthen (claims_email req) (\<lambda>requester_email.
     andthen (fetch_user_id requester_email) (\<lambda>user_id.
     andthen (fetch_carpool carpool_id) (\<lambda>carpool.
     andthen (ensure_event_member req (c_event_id carpool)) (\<lambda>_.
     andthen (ensure_event_writable (c_event_id carpool)) (\<lambda>_.
     andthen (join_carpool_tx (c_event_id carpool) user_id carpool_id) (\<lambda>(carpool, new_seats_taken).
     andthen (publish_event (c_event_id carpool) (rider_message ''carpool_joined'' carpool_id user_id)) (\<lambda>_.
     return (Answer 200 \<lparr>sa_seats_taken = new_seats_taken, sa_seats_total = c_seats_total carpool\<rparr>))))))))"

definition release_seat :: "int \<Rightarrow> world \<Rightarrow> int option \<times> database" where
  "release_seat carpool_id w =
     (let less = (\<lambda>c. max (c_seats_taken c - 1) 0) in
      (map_option less (carpool_by_id (db w) carpool_id),
       (db w)\<lparr>carpools := update_where (\<lambda>c. c_id c = carpool_id)
         (\<lambda>c. c\<lparr>c_seats_taken := less c, c_updated_at := clock w\<rparr>) (carpools (db w))\<rparr>))"

definition leave_carpool_tx :: "int \<Rightarrow> int \<Rightarrow> int \<Rightarrow> (carpool \<times> int) act" where
  "leave_carpool_tx locked_event user_id carpool_id = transact internal_error (
     andthen (lock_event_user locked_event user_id) (\<lambda>_.
     andthen (fetch_carpool carpool_id) (\<lambda>carpool.
     andthen (execute internal_error (\<lambda>w.
         let gone = (\<lambda>p. cp_carpool_id p = carpool_id \<and> cp_user_id p = user_id) in
         (exists_where gone (passengers (db w)),
          (db w)\<lparr>passengers := delete_where gone (passengers (db w))\<rparr>))) (\<lambda>was_joined.
     andthen (require was_joined (bad_request ''not_joined'')) (\<lambda>_.
     andthen (execute internal_error (release_seat carpool_id)) (\<lambda>released.
     andthen (some_or released internal_error) (\<lambda>new_seats_taken.
     return (carpool, new_seats_taken))))))))"

definition left_notice :: "carpool \<Rightarrow> int \<Rightarrow> string \<Rightarrow> notification_request" where
  "left_notice c user_id handle = \<lparr>nr_title = ''Un passager est parti'',
     nr_body = handle @ '' a quitt'' @ e_acute @ '' votre covoiturage'',
     nr_data = notification_data ''carpool_left'' (c_event_id c) (c_id c),
     nr_dedup_base_key = Some (''carpool_leave:'' @ show_int (c_id c) @ '':'' @ show_int user_id),
     nr_dedup_ttl = 300\<rparr>"

definition notify_driver_left :: "carpool \<Rightarrow> int \<Rightarrow> unit act" where
  "notify_driver_left carpool user_id = andthen get_state (\<lambda>w.
     if \<not> is_enabled (cfg w) then return ()
     else andthen (attempt (query internal_error (user_handle user_id))) (\<lambda>handle.
       notify_users [c_driver_id carpool]
         (left_notice carpool user_id (case handle of Some h \<Rightarrow> h | None \<Rightarrow> ''Un utilisateur''))))"

definition leave_carpool :: "request \<Rightarrow> int \<Rightarrow> seats_answer answer act" where
  "leave_carpool req carpool_id =
     andthen (claims_email req) (\<lambda>requester_email.
     andthen (fetch_user_id requester_email) (\<lambda>user_id.
     andthen (fetch_carpool carpool_id) (\<lambda>carpool.
     andthen (ensure_event_writable (c_event_id carpool)) (\<lambda>_.
     andthen (leave_carpool_tx (c_event_id carpool) user_id carpool_id) (\<lambda>(carpool, new_seats_taken).
     andthen (publish_event (c_event_id carpool) (rider_message ''carpool_left'' carpool_id user_id)) (\<lambda>_.
     andthen (notify_driver_left carpool user_id) (\<lambda>_.
     return (Answer 200 \<lparr>sa_seats_taken = new_seats_taken, sa_seats_total = c_seats_total carpool\<rparr>))))))))"

end
