(* ===== verification/Carpool_Facts.thy ===== *)
theory Carpool_Facts
  imports Carpools
begin

text \<open>
  What the carpool handlers keep and promise: the consistency of the tables, an abstract view of
  them (who has which role in which event) that every transaction refines, the answers of every
  branch, and the listing.
\<close>

section \<open>Consistency of the tables\<close>

definition seats_counted :: "database \<Rightarrow> carpool \<Rightarrow> bool" where
  "seats_counted d c \<longleftrightarrow> 0 < c_seats_total c \<and> c_seats_taken c \<le> c_seats_total c
     \<and> c_seats_taken c = int (count_where (\<lambda>p. cp_carpool_id p = c_id c) (passengers d))"

definition seated :: "database \<Rightarrow> carpool_passenger \<Rightarrow> bool" where
  "seated d p \<longleftrightarrow>
     (\<exists>c \<in> set (carpools d). c_id c = cp_carpool_id p \<and> c_event_id c = cp_event_id p)
     \<and> (\<forall>c \<in> set (carpools d). c_event_id c = cp_event_id p \<longrightarrow> c_driver_id c \<noteq> cp_user_id p)"

definition carpool_ok :: "database \<Rightarrow> bool" where
  "carpool_ok d \<longleftrightarrow>
     distinct (map c_id (carpools d))
     \<and> distinct (map (\<lambda>c. (c_event_id c, c_driver_id c)) (carpools d))
     \<and> distinct (map (\<lambda>p. (cp_event_id p, cp_user_id p)) (passengers d))
     \<and> (\<forall>c \<in> set (carpools d). seats_counted d c)
     \<and> (\<forall>p \<in> set (passengers d). seated d p)"

definition carpool_inv :: "world \<Rightarrow> bool" where
  "carpool_inv w \<longleftrightarrow> carpool_ok (db w) \<and> 0 \<le> seqs w CarpoolSeq
     \<and> (\<forall>c \<in> set (carpools (db w)). 0 < c_id c \<and> c_id c \<le> seqs w CarpoolSeq)"

lemma carpool_okI:
  assumes "distinct (map c_id (carpools d))"
    and "distinct (map (\<lambda>c. (c_event_id c, c_driver_id c)) (carpools d))"
    and "distinct (map (\<lambda>p. (cp_event_id p, cp_user_id p)) (passengers d))"
    and "\<And>c. c \<in> set (carpools d) \<Longrightarrow> seats_counted d c"
    and "\<And>p. p \<in> set (passengers d) \<Longrightarrow> seated d p"
  shows "carpool_ok d"
  using assms by (simp add: carpool_ok_def)

lemma carpool_okD:
  assumes "carpool_ok d"
  shows "distinct (map c_id (carpools d))"
    and "distinct (map (\<lambda>c. (c_event_id c, c_driver_id c)) (carpools d))"
    and "distinct (map (\<lambda>p. (cp_event_id p, cp_user_id p)) (passengers d))"
    and "c \<in> set (carpools d) \<Longrightarrow> seats_counted d c"
    and "p \<in> set (passengers d) \<Longrightarrow> seated d p"
  using assms by (auto simp: carpool_ok_def)

lemma carpool_ok_cong:
  "carpools d' = carpools d \<Longrightarrow> passengers d' = passengers d \<Longrightarrow> carpool_ok d' = carpool_ok d"
  by (simp add: carpool_ok_def seats_counted_def seated_def)

lemma carpool_inv_mono:
  assumes "carpool_inv w" and "carpools (db w') = carpools (db w)"
    and "passengers (db w') = passengers (db w)" and "seqs w CarpoolSeq \<le> seqs w' CarpoolSeq"
  shows "carpool_inv w'"
  using assms carpool_ok_cong [of "db w'" "db w"] by (force simp: carpool_inv_def)

lemma carpool_by_id_iff:
  "carpool_ok d \<Longrightarrow> carpool_by_id d i = Some c \<longleftrightarrow> c \<in> set (carpools d) \<and> c_id c = i"
  unfolding carpool_by_id_def by (rule find_Some_iff_key) (rule carpool_okD)

lemma carpool_by_idD: "carpool_by_id d i = Some c \<Longrightarrow> c \<in> set (carpools d) \<and> c_id c = i"
  unfolding carpool_by_id_def by (drule find_SomeD) simp

lemma same_carpool:
  "carpool_ok d \<Longrightarrow> c \<in> set (carpools d) \<Longrightarrow> c' \<in> set (carpools d) \<Longrightarrow> c_id c = c_id c' \<Longrightarrow> c = c'"
  by (rule distinct_map_inj [OF carpool_okD(1)])

lemma passenger_event:
  assumes "carpool_ok d" and "c \<in> set (carpools d)" and "p \<in> set (passengers d)"
    and "cp_carpool_id p = c_id c"
  shows "cp_event_id p = c_event_id c"
  using carpool_okD(5) [OF assms(1,3)] same_carpool [OF assms(1,2)] assms(4)
  unfolding seated_def by metis

subsection \<open>Changes of the tables that keep them consistent\<close>

lemma carpool_ok_add:
  assumes ok: "carpool_ok d" and fresh: "\<And>x. x \<in> set (carpools d) \<Longrightarrow> c_id x \<noteq> c_id c"
    and total: "0 < c_seats_total c" and taken: "c_seats_taken c = 0"
    and idle: "\<not> in_carpool d (c_event_id c) (c_driver_id c)"
  shows "carpool_ok (d\<lparr>carpools := carpools d @ [c]\<rparr>)"
proof (rule carpool_okI)
  have none: "count_where (\<lambda>p. cp_carpool_id p = c_id c) (passengers d) = 0"
    using carpool_okD(5) [OF ok] fresh by (fastforce simp: count_where_eq_0 seated_def)
  fix x assume "x \<in> set (carpools (d\<lparr>carpools := carpools d @ [c]\<rparr>))"
  then show "seats_counted (d\<lparr>carpools := carpools d @ [c]\<rparr>) x"
    using carpool_okD(4) [OF ok] total taken none by (auto simp: seats_counted_def)
next
  fix p assume "p \<in> set (passengers (d\<lparr>carpools := carpools d @ [c]\<rparr>))"
  then have p: "p \<in> set (passengers d)" by simp
  then have "seated d p" using carpool_okD(5) [OF ok] by simp
  then show "seated (d\<lparr>carpools := carpools d @ [c]\<rparr>) p"
    using idle p by (fastforce simp: seated_def in_carpool_def)
qed (use carpool_okD(1-3) [OF ok] fresh idle in \<open>force simp: in_carpool_def\<close>)+

text \<open>A change of rows that keeps who drives where, under the check constraints.\<close>

lemma carpool_ok_update:
  assumes ok: "carpool_ok d"
    and keep: "\<And>c. c_id (f c) = c_id c" "\<And>c. c_event_id (f c) = c_event_id c"
      "\<And>c. c_driver_id (f c) = c_driver_id c"
    and pass: "distinct (map (\<lambda>p. (cp_event_id p, cp_user_id p)) ps)"
    and count: "\<And>c. c \<in> set (carpools d) \<Longrightarrow>
      seats_counted (d\<lparr>carpools := map f (carpools d), passengers := ps\<rparr>) (f c)"
    and seat: "\<And>p. p \<in> set ps \<Longrightarrow> seated d p"
  shows "carpool_ok (d\<lparr>carpools := map f (carpools d), passengers := ps\<rparr>)"
proof (rule carpool_okI)
  fix p assume "p \<in> set (passengers (d\<lparr>carpools := map f (carpools d), passengers := ps\<rparr>))"
  then show "seated (d\<lparr>carpools := map f (carpools d), passengers := ps\<rparr>) p"
    using seat by (force simp: seated_def keep)
qed (use carpool_okD(1-3) [OF ok] pass count in \<open>auto simp: comp_def keep\<close>)

lemma carpool_ok_delete:
  assumes ok: "carpool_ok d"
  shows "carpool_ok (delete_carpool_row i d)"
proof (rule carpool_okI)
  fix c assume "c \<in> set (carpools (delete_carpool_row i d))"
  then have "c \<in> set (carpools d)" "c_id c \<noteq> i" by (auto simp: delete_carpool_row_def)
  moreover have "count_where (\<lambda>p. cp_carpool_id p = c_id c) (passengers (delete_carpool_row i d))
      = count_where (\<lambda>p. cp_carpool_id p = c_id c) (passengers d)"
    using \<open>c_id c \<noteq> i\<close>
    by (auto simp: delete_carpool_row_def count_where_delete intro!: count_where_cong)
  ultimately show "seats_counted (delete_carpool_row i d) c"
    using carpool_okD(4) [OF ok, of c] by (simp add: seats_counted_def)
next
  fix p assume "p \<in> set (passengers (delete_carpool_row i d))"
  then have "p \<in> set (passengers d)" "cp_carpool_id p \<noteq> i" by (auto simp: delete_carpool_row_def)
  then show "seated (delete_carpool_row i d) p"
    using carpool_okD(5) [OF ok] by (force simp: seated_def delete_carpool_row_def)
qed (use carpool_okD(1-3) [OF ok] in
  \<open>auto simp: delete_carpool_row_def intro: distinct_map_delete_where\<close>)


section \<open>The transactions keep the tables consistent\<close>

text \<open>
  Whatever the arguments and whichever statements fail, each transaction leads from a consistent
  world to a consistent one.  Errors roll the tables back; only the sequence may have moved on.
\<close>

lemma quiet_carpool_reads [quiet_intros]:
  "quiet (fetch_carpool i)" "quiet (fetch_user_id email)" "quiet (ensure_event_member req ev)"
  "quiet (ensure_carpool_driver req i)" "quiet (lock_event_user ev u)"
  "quiet (fetch_carpool_views ev uid sort_by pg)" "quiet (answer_with_view st ev i)"
  "quiet (list_event_carpools req ev sort_by q)"
  unfolding fetch_carpool_def fetch_user_id_def ensure_event_member_def ensure_carpool_driver_def
    lock_event_user_def fetch_carpool_views_def answer_with_view_def list_event_carpools_def
  by (intro quiet_intros)+

interpretation carpool_tables: table_invariant carpool_inv
proof
  fix w w' assume "carpool_inv w" "db w' = db w" "later w w'"
  then show "carpool_inv w'"
    by (elim carpool_inv_mono) (simp_all add: later_def)
qed

lemma carpool_inv_only_outbox: "carpool_inv w \<Longrightarrow> only_outbox w w' \<Longrightarrow> carpool_inv w'"
  by (erule carpool_inv_mono) (simp_all add: only_outbox_tables, simp add: only_outbox_def)

lemma new_carpool_simps [simp]:
  "c_id (new_carpool ev u orig notes p t i) = i"
  "c_event_id (new_carpool ev u orig notes p t i) = ev"
  "c_driver_id (new_carpool ev u orig notes p t i) = u"
  "c_seats_taken (new_carpool ev u orig notes p t i) = 0"
  "c_seats_total (new_carpool ev u orig notes p t i) = pl_seats_total p"
  by (simp_all add: new_carpool_def)

lemma insert_carpool_ok:
  assumes "insert_carpool row w = (Inr i, w')"
  shows "i = seqs w CarpoolSeq + 1"
    and "w' = w\<lparr>seqs := (seqs w)(CarpoolSeq := i),
           db := (db w)\<lparr>carpools := carpools (db w) @ [row i]\<rparr>\<rparr>"
    and "0 < c_seats_total (row i)"
  using assms by (auto simp: insert_carpool_def nextval_def Let_def split: if_splits)

lemma carpool_inv_add:
  assumes "insert_carpool row w = (Inr i, w')" and "carpool_inv w"
    and "c_id (row i) = i" and "c_seats_taken (row i) = 0"
    and "\<not> in_carpool (db w) (c_event_id (row i)) (c_driver_id (row i))"
  shows "carpool_inv w'"
proof -
  have "carpool_ok ((db w)\<lparr>carpools := carpools (db w) @ [row i]\<rparr>)"
    using assms(2-5) insert_carpool_ok [OF assms(1)]
    by (intro carpool_ok_add) (force simp: carpool_inv_def)+
  then show ?thesis
    using assms(2,3) insert_carpool_ok [OF assms(1)] by (force simp: carpool_inv_def)
qed

lemma grows_carpool_statements [grows_intros]:
  "later w (snd (insert_carpool row w))" "later w (snd (update_carpool_row i f w))"
  "later w (snd (insert_passenger i e u w))" "later w (snd (insert_outbox u r w))"
  using later_nextval [of w CarpoolSeq] later_nextval [of w OutboxSeq]
  by (auto simp: insert_carpool_def update_carpool_row_def insert_passenger_def insert_outbox_def
      Let_def nextval_def)

lemmas grows_reads = grows_quiet [OF quiet_query] grows_quiet [OF quiet_require]
  grows_quiet [OF quiet_some_or] grows_quiet [OF quiet_return] grows_quiet [OF quiet_throw]
  grows_quiet [OF quiet_now] grows_quiet [OF quiet_access(5)] grows_quiet [OF quiet_carpool_reads(1)]

lemmas carpool_reads = carpool_tables.keeps_quiet [OF quiet_query]
  carpool_tables.keeps_quiet [OF quiet_require] carpool_tables.keeps_quiet [OF quiet_some_or]
  carpool_tables.keeps_quiet [OF quiet_throw] carpool_tables.keeps_quiet [OF quiet_now]
  carpool_tables.keeps_quiet [OF quiet_access(5)] carpool_tables.keeps_quiet [OF quiet_get_state]
  carpool_tables.keeps_quiet [OF quiet_carpool_reads(1)]
  carpool_tables.keeps_quiet [OF quiet_carpool_reads(2)]
  carpool_tables.keeps_quiet [OF quiet_carpool_reads(3)]
  carpool_tables.keeps_quiet [OF quiet_carpool_reads(4)]
  carpool_tables.keeps_quiet [OF quiet_carpool_reads(7)]
  carpool_tables.keeps_quiet [OF quiet_publish(1)]
  carpool_tables.keeps_quiet [OF quiet_event_helpers(1)]

lemma create_carpool_tx_keeps: "keeps carpool_inv (create_carpool_tx ev u orig notes p)"
  unfolding create_carpool_tx_def lock_event_user_def
proof (rule carpool_tables.keeps_transact, goal_cases)
  case 1
  show ?case by (intro grows_intros grows_reads)
next
  case (2 w)
  then show ?case
    by (auto simp: wp_simps split: prod.split sum.split elim: carpool_inv_add)
qed

subsection \<open>Changing a carpool\<close>

lemma apply_patch_simps [simp]:
  "c_id (apply_patch p t cur c) = c_id c" "c_event_id (apply_patch p t cur c) = c_event_id c"
  "c_driver_id (apply_patch p t cur c) = c_driver_id c"
  "c_seats_taken (apply_patch p t cur c) = c_seats_taken c"
  by (simp_all add: apply_patch_def)

lemma carpool_inv_replace:
  assumes "carpool_inv w"
    and keep: "\<And>c. c_id (f c) = c_id c" "\<And>c. c_event_id (f c) = c_event_id c"
      "\<And>c. c_driver_id (f c) = c_driver_id c"
    and "distinct (map (\<lambda>p. (cp_event_id p, cp_user_id p)) ps)"
    and "\<And>p. p \<in> set ps \<Longrightarrow> seated (db w) p"
    and "\<And>c. c \<in> set (carpools (db w)) \<Longrightarrow> 0 < c_seats_total (f c)
      \<and> c_seats_taken (f c) \<le> c_seats_total (f c)
      \<and> c_seats_taken (f c) = int (count_where (\<lambda>p. cp_carpool_id p = c_id c) ps)"
    and w': "carpools (db w') = map f (carpools (db w))" "passengers (db w') = ps"
      "seqs w' CarpoolSeq = seqs w CarpoolSeq"
  shows "carpool_inv w'"
proof -
  have "carpool_ok ((db w)\<lparr>carpools := map f (carpools (db w)), passengers := ps\<rparr>)"
  proof (rule carpool_ok_update)
    fix c assume "c \<in> set (carpools (db w))"
    then show "seats_counted ((db w)\<lparr>carpools := map f (carpools (db w)), passengers := ps\<rparr>) (f c)"
      using assms(7) [of c] by (simp add: seats_counted_def keep)
  qed (use assms(1,5,6) keep in \<open>auto simp: carpool_inv_def\<close>)
  then have "carpool_ok (db w')"
    by (subst carpool_ok_cong) (simp_all add: w')
  then show ?thesis
    using assms(1) by (simp add: carpool_inv_def w' keep)
qed

lemma update_carpool_row_inv:
  assumes "update_carpool_row i f w = (r, w')" and inv: "carpool_inv w"
    and keep: "\<And>c. c_id (f c) = c_id c" "\<And>c. c_event_id (f c) = c_event_id c"
      "\<And>c. c_driver_id (f c) = c_driver_id c" "\<And>c. c_seats_taken (f c) = c_seats_taken c"
  shows "carpool_inv w'"
proof -
  let ?f = "\<lambda>c. if c_id c = i then f c else c"
  consider "w' = w" | (changed) "w' = w\<lparr>db := (db w)\<lparr>carpools := map ?f (carpools (db w))\<rparr>\<rparr>"
      "\<And>c. c \<in> set (carpools (db w)) \<Longrightarrow> c_id c = i \<Longrightarrow> seats_check (f c)"
    using assms(1) by (auto simp: update_carpool_row_def Let_def list_all_iff keep
        update_where_def split: if_splits)
  then show ?thesis
  proof cases
    case 1
    then show ?thesis using inv by simp
  next
    case changed
    have ok: "carpool_ok (db w)" using inv by (simp add: carpool_inv_def)
    show ?thesis
    proof (rule carpool_inv_replace [OF inv, where f = ?f and ps = "passengers (db w)"])
      fix c assume c: "c \<in> set (carpools (db w))"
      then show "0 < c_seats_total (?f c) \<and> c_seats_taken (?f c) \<le> c_seats_total (?f c)
        \<and> c_seats_taken (?f c) = int (count_where (\<lambda>p. cp_carpool_id p = c_id c) (passengers (db w)))"
        using carpool_okD(4) [OF ok c] changed(2) [OF c]
        by (auto simp: seats_counted_def seats_check_def keep)
    qed (use carpool_okD(3,5) [OF ok] in \<open>auto simp: changed(1) keep\<close>)
  qed
qed

lemma update_carpool_tx_keeps: "keeps carpool_inv (update_carpool_tx i p)"
  unfolding update_carpool_tx_def Let_def
proof (rule carpool_tables.keeps_transact_body, goal_cases)
  case 1
  show ?case by (intro grows_intros grows_reads)
next
  case 2
  show ?case
    by (intro keeps_intros carpool_tables.keeps_stmt carpool_reads) (auto elim: update_carpool_row_inv)
qed

subsection \<open>Withdrawing a carpool\<close>

lemma enqueue_keeps: "keeps carpool_inv (enqueue_notifications_tx us r)"
  by (rule keepsI) (rule wp_mono [OF enqueue_tx_frame], auto intro: carpool_inv_only_outbox)

lemma enqueue_grows: "grows (enqueue_notifications_tx us r)"
  unfolding enqueue_notifications_tx_def by (intro grows_intros)

lemma delete_carpool_tx_keeps: "keeps carpool_inv (delete_carpool_tx current)"
  unfolding delete_carpool_tx_def
proof (rule carpool_tables.keeps_transact_body, goal_cases)
  case 1
  show ?case by (intro grows_intros grows_reads enqueue_grows)
next
  case 2
  have "carpool_inv (w\<lparr>db := delete_carpool_row (c_id current) (db w)\<rparr>)" if "carpool_inv w" for w
    using that carpool_ok_delete by (simp add: carpool_inv_def) (simp add: delete_carpool_row_def)
  then show ?case
    by (intro keeps_intros carpool_tables.keeps_execute carpool_reads enqueue_keeps) simp
qed

section \<open>Roles\<close>

text \<open>
  The abstract view of the tables: what each user does in each event.  In consistent tables a user
  has at most one role per event, so the view is a map.
\<close>

datatype role = Drives int | Rides int

definition role_of :: "database \<Rightarrow> int \<times> int \<Rightarrow> role option" where
  "role_of d = (\<lambda>(ev, u).
     case find (\<lambda>c. c_event_id c = ev \<and> c_driver_id c = u) (carpools d) of
       Some c \<Rightarrow> Some (Drives (c_id c))
     | None \<Rightarrow> map_option (\<lambda>p. Rides (cp_carpool_id p))
         (find (\<lambda>p. cp_event_id p = ev \<and> cp_user_id p = u) (passengers d)))"

lemma role_Drives:
  assumes "carpool_ok d"
  shows "role_of d (ev, u) = Some (Drives i) \<longleftrightarrow>
    (\<exists>c \<in> set (carpools d). c_id c = i \<and> c_event_id c = ev \<and> c_driver_id c = u)"
proof -
  have "role_of d (ev, u) = Some (Drives i) \<longleftrightarrow>
      (\<exists>c. find (\<lambda>c. c_event_id c = ev \<and> c_driver_id c = u) (carpools d) = Some c \<and> c_id c = i)"
    by (auto simp: role_of_def split: option.splits)
  then show ?thesis
    unfolding find_Some_iff_pair [OF carpool_okD(2) [OF assms]] by blast
qed

lemma role_Rides:
  assumes "carpool_ok d"
  shows "role_of d (ev, u) = Some (Rides i) \<longleftrightarrow>
    (\<exists>p \<in> set (passengers d). cp_carpool_id p = i \<and> cp_event_id p = ev \<and> cp_user_id p = u)"
proof -
  have "role_of d (ev, u) = Some (Rides i) \<longleftrightarrow>
      find (\<lambda>c. c_event_id c = ev \<and> c_driver_id c = u) (carpools d) = None
      \<and> (\<exists>p. find (\<lambda>p. cp_event_id p = ev \<and> cp_user_id p = u) (passengers d) = Some p
           \<and> cp_carpool_id p = i)"
    by (auto simp: role_of_def split: option.splits)
  also have "\<dots> \<longleftrightarrow>
      (\<exists>p \<in> set (passengers d). cp_carpool_id p = i \<and> cp_event_id p = ev \<and> cp_user_id p = u)"
    unfolding find_Some_iff_pair [OF carpool_okD(3) [OF assms]] find_None_iff
    using carpool_okD(5) [OF assms] by (fastforce simp: seated_def)
  finally show ?thesis .
qed

lemma role_eqI:
  assumes "\<And>k i. f k = Some (Drives i) \<longleftrightarrow> g k = Some (Drives i)"
    and "\<And>k i. f k = Some (Rides i) \<longleftrightarrow> g k = Some (Rides i)"
  shows "f = g"
proof
  fix k
  show "f k = g k"
    using assms [of k] by (metis not_Some_eq role.exhaust)
qed

lemma in_carpool_role:
  assumes "carpool_ok d"
  shows "in_carpool d ev u \<longleftrightarrow> (\<exists>i. role_of d (ev, u) = Some (Drives i))
      \<or> (\<exists>i. role_of d (ev, u) = Some (Rides i))"
proof -
  have "(\<exists>c \<in> set (carpools d). c_id c = cp_carpool_id p \<and> c_event_id c = ev)
      \<longleftrightarrow> cp_event_id p = ev" if "p \<in> set (passengers d)" for p
    using carpool_okD(5) [OF assms that] passenger_event [OF assms _ that]
    unfolding seated_def by metis
  then show ?thesis
    unfolding role_Drives [OF assms] role_Rides [OF assms] in_carpool_def by auto
qed

lemma role_None:
  assumes "carpool_ok d"
  shows "role_of d (ev, u) = None \<longleftrightarrow> \<not> in_carpool d ev u"
  unfolding in_carpool_role [OF assms] by (metis not_Some_eq option.distinct(1) role.exhaust)

section \<open>Joining\<close>

text \<open>The decision on a request to join, in terms of roles and free seats.\<close>

definition join_outcome :: "database \<Rightarrow> int \<Rightarrow> int \<Rightarrow> api_error + (carpool \<times> int)" where
  "join_outcome d u i = (case carpool_by_id d i of
       None \<Rightarrow> Inl (not_found ''carpool_not_found'')
     | Some c \<Rightarrow> (case role_of d (c_event_id c, u) of
           Some (Drives j) \<Rightarrow> Inl (bad_request
             (if j = i then ''cannot_join_own_carpool'' else ''cannot_join_another_carpool''))
         | Some (Rides j) \<Rightarrow> Inl
             (if j = i then conflict ''already_joined'' else bad_request ''already_in_another_carpool'')
         | None \<Rightarrow> if c_seats_taken c < c_seats_total c then Inr (c, c_seats_taken c + 1)
                   else Inl (bad_request ''carpool_full'')))"

definition after_join :: "micros \<Rightarrow> carpool \<Rightarrow> int \<Rightarrow> database \<Rightarrow> database" where
  "after_join t c u d = d\<lparr>
     carpools := update_where (\<lambda>x. c_id x = c_id c)
       (\<lambda>x. x\<lparr>c_seats_taken := c_seats_taken x + 1, c_updated_at := t\<rparr>) (carpools d),
     passengers := passengers d @ [\<lparr>cp_carpool_id = c_id c, cp_event_id = c_event_id c,
       cp_user_id = u, cp_joined_at = t\<rparr>]\<rparr>"

lemma role_change:
  assumes "carpool_ok d" and "carpool_ok d'"
    and "\<And>ev v i. role_of d' (ev, v) = Some (Drives i) \<longleftrightarrow> f (ev, v) = Some (Drives i)"
    and "\<And>ev v i. role_of d' (ev, v) = Some (Rides i) \<longleftrightarrow> f (ev, v) = Some (Rides i)"
  shows "role_of d' = f"
  by (rule role_eqI; case_tac k; simp add: assms)

lemma no_role:
  assumes "carpool_ok d" and "role_of d (ev, u) = None"
  shows "x \<in> set (carpools d) \<Longrightarrow> c_event_id x = ev \<Longrightarrow> c_driver_id x \<noteq> u"
    and "p \<in> set (passengers d) \<Longrightarrow> cp_event_id p = ev \<Longrightarrow> cp_user_id p \<noteq> u"
  using assms(2) role_Drives [OF assms(1), of ev u] role_Rides [OF assms(1), of ev u] by auto

lemma after_join_tables:
  "(\<exists>x \<in> set (carpools (after_join t c u d)). c_id x = i \<and> c_event_id x = ev \<and> c_driver_id x = v)
     \<longleftrightarrow> (\<exists>x \<in> set (carpools d). c_id x = i \<and> c_event_id x = ev \<and> c_driver_id x = v)"
  "(\<exists>p \<in> set (passengers (after_join t c u d)).
       cp_carpool_id p = i \<and> cp_event_id p = ev \<and> cp_user_id p = v)
     \<longleftrightarrow> (i, ev, v) = (c_id c, c_event_id c, u)
       \<or> (\<exists>p \<in> set (passengers d). cp_carpool_id p = i \<and> cp_event_id p = ev \<and> cp_user_id p = v)"
  unfolding after_join_def by (simp_all add: bex_update_where del: set_update_where) blast

lemma after_join_ok:
  assumes ok: "carpool_ok d" and c: "c \<in> set (carpools d)"
    and free: "c_seats_taken c < c_seats_total c" and idle: "role_of d (c_event_id c, u) = None"
  shows "carpool_ok (after_join t c u d)"
proof -
  let ?f = "\<lambda>x. if c_id x = c_id c then x\<lparr>c_seats_taken := c_seats_taken x + 1, c_updated_at := t\<rparr> else x"
  let ?p = "\<lparr>cp_carpool_id = c_id c, cp_event_id = c_event_id c, cp_user_id = u, cp_joined_at = t\<rparr>"
  note drv = no_role(1) [OF ok idle] and rid = no_role(2) [OF ok idle]
  have "carpool_ok (d\<lparr>carpools := map ?f (carpools d), passengers := passengers d @ [?p]\<rparr>)"
  proof (rule carpool_ok_update [OF ok])
    fix x assume x: "x \<in> set (carpools d)"
    show "seats_counted (d\<lparr>carpools := map ?f (carpools d), passengers := passengers d @ [?p]\<rparr>) (?f x)"
    proof (cases "c_id x = c_id c")
      case True
      then have "x = c" using same_carpool [OF ok c x] by simp
      then show ?thesis
        using carpool_okD(4) [OF ok x] free by (simp add: seats_counted_def)
    next
      case False
      then show ?thesis
        using carpool_okD(4) [OF ok x] by (simp add: seats_counted_def)
    qed
  next
    fix p assume "p \<in> set (passengers d @ [?p])"
    then show "seated d p"
      using carpool_okD(5) [OF ok] c drv by (auto simp: seated_def)
  qed (use carpool_okD(3) [OF ok] rid in \<open>force+\<close>)
  then show ?thesis
    by (simp add: after_join_def update_where_def)
qed

lemma after_join_roles:
  assumes ok: "carpool_ok d" and c: "c \<in> set (carpools d)"
    and free: "c_seats_taken c < c_seats_total c" and idle: "role_of d (c_event_id c, u) = None"
  shows "role_of (after_join t c u d) = (role_of d)((c_event_id c, u) \<mapsto> Rides (c_id c))"
proof (rule role_change [OF ok after_join_ok [OF assms]])
  note roles = role_Drives [OF after_join_ok [OF assms]] role_Drives [OF ok]
    role_Rides [OF after_join_ok [OF assms]] role_Rides [OF ok]
  note drv = no_role(1) [OF ok idle] and rid = no_role(2) [OF ok idle]
  fix ev v i
  show "role_of (after_join t c u d) (ev, v) = Some (Drives i) \<longleftrightarrow>
      ((role_of d)((c_event_id c, u) \<mapsto> Rides (c_id c))) (ev, v) = Some (Drives i)"
    using drv by (auto simp: roles after_join_tables)
  show "role_of (after_join t c u d) (ev, v) = Some (Rides i) \<longleftrightarrow>
      ((role_of d)((c_event_id c, u) \<mapsto> Rides (c_id c))) (ev, v) = Some (Rides i)"
    using rid by (auto simp: roles after_join_tables)
qed

text \<open>The checks of the handler decide on the roles.\<close>

lemma role_Some_cases:
  assumes "carpool_ok d" and "carpool_by_id d i = Some c"
  shows "c_driver_id c = u \<longleftrightarrow> role_of d (c_event_id c, u) = Some (Drives i)"
    and "exists_where (\<lambda>x. c_driver_id x = u \<and> c_id x \<noteq> i \<and> c_event_id x = c_event_id c) (carpools d)
      \<longleftrightarrow> (\<exists>j. j \<noteq> i \<and> role_of d (c_event_id c, u) = Some (Drives j))"
    and "exists_where (\<lambda>cp. cp_user_id cp = u \<and> cp_carpool_id cp \<noteq> i
         \<and> exists_where (\<lambda>x. c_id x = cp_carpool_id cp \<and> c_event_id x = c_event_id c) (carpools d))
        (passengers d)
      \<longleftrightarrow> (\<exists>j. j \<noteq> i \<and> role_of d (c_event_id c, u) = Some (Rides j))"
    and "exists_where (\<lambda>p. cp_carpool_id p = i \<and> cp_user_id p = u) (passengers d)
      \<longleftrightarrow> role_of d (c_event_id c, u) = Some (Rides i)"
proof -
  have c: "c \<in> set (carpools d)" "c_id c = i" using carpool_by_idD [OF assms(2)] by auto
  have event: "(\<exists>x \<in> set (carpools d). c_id x = cp_carpool_id p \<and> c_event_id x = c_event_id c)
      \<longleftrightarrow> cp_event_id p = c_event_id c" if "p \<in> set (passengers d)" for p
    using carpool_okD(5) [OF assms(1) that] passenger_event [OF assms(1) _ that]
    unfolding seated_def by metis
  show "c_driver_id c = u \<longleftrightarrow> role_of d (c_event_id c, u) = Some (Drives i)"
    using c same_carpool [OF assms(1) c(1)] unfolding role_Drives [OF assms(1)] by metis
  show "exists_where (\<lambda>x. c_driver_id x = u \<and> c_id x \<noteq> i \<and> c_event_id x = c_event_id c) (carpools d)
      \<longleftrightarrow> (\<exists>j. j \<noteq> i \<and> role_of d (c_event_id c, u) = Some (Drives j))"
    by (auto simp: role_Drives [OF assms(1)])
  show "exists_where (\<lambda>cp. cp_user_id cp = u \<and> cp_carpool_id cp \<noteq> i
         \<and> exists_where (\<lambda>x. c_id x = cp_carpool_id cp \<and> c_event_id x = c_event_id c) (carpools d))
        (passengers d)
      \<longleftrightarrow> (\<exists>j. j \<noteq> i \<and> role_of d (c_event_id c, u) = Some (Rides j))"
    using event by (auto simp: role_Rides [OF assms(1)])
  show "exists_where (\<lambda>p. cp_carpool_id p = i \<and> cp_user_id p = u) (passengers d)
      \<longleftrightarrow> role_of d (c_event_id c, u) = Some (Rides i)"
    using c passenger_event [OF assms(1) c(1)] by (auto simp: role_Rides [OF assms(1)])
qed

lemma join_checks_spec:
  assumes "carpool_ok (db w)"
  shows "wp (join_checks lev u i)
     (\<lambda>c w'. same_data w w'
        \<and> carpool_by_id (db w) i = Some c \<and> role_of (db w) (c_event_id c, u) = None)
     (\<lambda>e w'. e = internal_error \<and> faults w \<noteq> [] \<or> join_outcome (db w) u i = Inl e) w"
proof (cases "carpool_by_id (db w) i")
  case None
  then show ?thesis
    by (cases "faults w = []")
      (simp_all add: join_checks_def lock_event_user_def fetch_carpool_def wp_simps join_outcome_def)
next
  case (Some c)
  note cases = role_Some_cases [OF assms Some, of u]
  have idle: "role_of (db w) (c_event_id c, u) = None"
    if "role_of (db w) (c_event_id c, u) \<noteq> Some (Drives i)"
      "role_of (db w) (c_event_id c, u) \<noteq> Some (Rides i)"
      "\<forall>j. j = i \<or> role_of (db w) (c_event_id c, u) \<noteq> Some (Drives j)"
      "\<forall>j. j = i \<or> role_of (db w) (c_event_id c, u) \<noteq> Some (Rides j)"
    using that by (metis not_Some_eq role.exhaust)
  show ?thesis
    unfolding join_checks_def lock_event_user_def fetch_carpool_def wp_simps tick_simps Some
      option.case cases
    using idle
    by (cases "faults w = []") (auto simp: join_outcome_def Some same_data_def)
qed

text \<open>Taking the seat, when the user has no role yet.\<close>

lemma reserve_seat_spec:
  assumes ok: "carpool_ok (db w)" and c: "carpool_by_id (db w) i = Some c"
  shows "reserve_seat i w =
    (if c_seats_taken c < c_seats_total c
     then (Some (c_seats_taken c + 1), (db w)\<lparr>carpools := update_where (\<lambda>x. c_id x = i)
       (\<lambda>x. x\<lparr>c_seats_taken := c_seats_taken x + 1, c_updated_at := clock w\<rparr>) (carpools (db w))\<rparr>)
     else (None, db w))"
proof -
  have c': "c \<in> set (carpools (db w))" "c_id c = i" using carpool_by_idD [OF c] by auto
  have free: "c_id x = i \<and> c_seats_taken x < c_seats_total x
      \<longleftrightarrow> c_id x = i \<and> c_seats_taken c < c_seats_total c" if "x \<in> set (carpools (db w))" for x
    using same_carpool [OF ok that c'(1)] c'(2) by auto
  have "find (\<lambda>x. c_id x = i \<and> c_seats_taken x < c_seats_total x) (carpools (db w))
      = (if c_seats_taken c < c_seats_total c then Some c else None)"
    using c unfolding carpool_by_id_def by (subst find_cong [OF refl free]) (auto simp: find_None_iff)
  moreover have "update_where (\<lambda>x. c_id x = i \<and> c_seats_taken x < c_seats_total x) f (carpools (db w))
      = (if c_seats_taken c < c_seats_total c
         then update_where (\<lambda>x. c_id x = i) f (carpools (db w)) else carpools (db w))" for f
    using free by (auto simp: update_where_def intro!: map_idI)
  ultimately show ?thesis
    by (simp add: reserve_seat_def)
qed

definition registered :: "database \<Rightarrow> int \<Rightarrow> bool" where
  "registered d u = exists_where (\<lambda>x. u_id x = u) (users d)"

lemma take_seat_spec:
  assumes ok: "carpool_ok (db w)" and c: "carpool_by_id (db w) i = Some c"
    and idle: "role_of (db w) (c_event_id c, u) = None"
  shows "wp (take_seat u i c)
     (\<lambda>n w'. n = c_seats_taken c + 1 \<and> c_seats_taken c < c_seats_total c
        \<and> only_outbox (w\<lparr>db := after_join (clock w) c u (db w)\<rparr>) w')
     (\<lambda>e w'. e = internal_error
          \<and> (faults w \<noteq> [] \<or> \<not> registered (db w) u \<or> \<not> registered (db w) (c_driver_id c))
        \<or> e = bad_request ''carpool_full'' \<and> \<not> c_seats_taken c < c_seats_total c) w"
proof -
  have c': "c \<in> set (carpools (db w))" "c_id c = i" using carpool_by_idD [OF c] by auto
  have new: "\<not> (cp_carpool_id p = i \<and> cp_user_id p = u \<or> cp_event_id p = c_event_id c \<and> cp_user_id p = u)"
    if "p \<in> set (passengers (db w))" for p
    using no_role(2) [OF ok idle that] passenger_event [OF ok c'(1) that] c'(2) by auto
  let ?d = "(db w)\<lparr>carpools := update_where (\<lambda>x. c_id x = i)
    (\<lambda>x. x\<lparr>c_seats_taken := c_seats_taken x + 1, c_updated_at := clock w\<rparr>) (carpools (db w))\<rparr>"
  have reserve: "reserve_seat i (tick w) = reserve_seat i w"
    by (simp add: reserve_seat_def)
  have insert: "insert_passenger i (c_event_id c) u v =
      (if registered (db w) u then (Inr (), v\<lparr>db := after_join (clock w) c u (db w)\<rparr>)
       else (Inl ForeignKeyViolation, v))"
    if "db v = ?d" "clock v = clock w" for v
    using that new c'
    by (auto simp: registered_def insert_passenger_def Let_def after_join_def bex_update_where
        simp del: set_update_where)
  let ?v = "(tick (tick (tick w)))\<lparr>db := after_join (clock w) c u (db w)\<rparr>"
  have driver: "registered (db ?v) (c_driver_id c) = registered (db w) (c_driver_id c)"
    by (simp add: registered_def after_join_def)
  have queue: "wp (enqueue_notifications_tx [c_driver_id c] r)
      (\<lambda>_. only_outbox (w\<lparr>db := after_join (clock w) c u (db w)\<rparr>))
      (\<lambda>_ _. faults w = [] \<longrightarrow> \<not> registered (db w) (c_driver_id c)) ?v" for r
  proof (cases "registered (db w) (c_driver_id c)")
    case True
    show ?thesis
    proof (rule wp_mono [OF enqueue_tx_ok])
      fix e v assume "e = db_error \<and> faults ?v \<noteq> []"
      then show "faults w = [] \<longrightarrow> \<not> registered (db w) (c_driver_id c)" by auto
    qed (use True driver in \<open>auto simp: only_outbox_def registered_def\<close>)
  next
    case False
    then show ?thesis
      by (intro wp_mono [OF enqueue_tx_frame]) (auto simp: only_outbox_def)
  qed
  show ?thesis
    unfolding take_seat_def wp_simps reserve reserve_seat_spec [OF ok c]
    by (auto simp: insert queue dest: fault_faults)
qed

lemma grows_join: "grows (join_checks lev u i)" "grows (take_seat u i c)"
  unfolding join_checks_def take_seat_def
  by (intro grows_intros grows_reads enqueue_grows grows_quiet [OF quiet_carpool_reads(5)])+

lemma joined_tables:
  assumes ok: "carpool_ok d" and c: "carpool_by_id d i = Some c"
    and idle: "role_of d (c_event_id c, u) = None" and free: "c_seats_taken c < c_seats_total c"
    and d': "carpools d' = carpools (after_join t c u d)" "passengers d' = passengers (after_join t c u d)"
  shows "carpool_ok d'" and "role_of d' = (role_of d)((c_event_id c, u) \<mapsto> Rides i)"
proof -
  have c': "c \<in> set (carpools d)" "c_id c = i" using carpool_by_idD [OF c] by auto
  show "carpool_ok d'"
    using after_join_ok [OF ok c'(1) free idle] carpool_ok_cong [OF d'] by simp
  have "role_of d' = role_of (after_join t c u d)"
    unfolding role_of_def d' ..
  then show "role_of d' = (role_of d)((c_event_id c, u) \<mapsto> Rides i)"
    using after_join_roles [OF ok c'(1) free idle] c'(2) by simp
qed

lemma join_tx_spec:
  assumes ok: "carpool_ok (db w)"
  shows "wp (join_carpool_tx lev u i)
     (\<lambda>r w'. join_outcome (db w) u i = Inr r \<and> carpool_by_id (db w) i = Some (fst r)
        \<and> role_of (db w) (c_event_id (fst r), u) = None
        \<and> c_seats_taken (fst r) < c_seats_total (fst r)
        \<and> only_outbox (w\<lparr>db := after_join (clock w) (fst r) u (db w)\<rparr>) w')
     (\<lambda>e w'. db w' = db w \<and> (e = internal_error \<and> faults w \<noteq> []
        \<or> e = internal_error \<and> (\<not> registered (db w) u
            \<or> (\<exists>c \<in> set (carpools (db w)). \<not> registered (db w) (c_driver_id c)))
        \<or> join_outcome (db w) u i = Inl e)) w"
  unfolding join_carpool_tx_def
proof (rule wp_transact_spec, goal_cases)
  case 1
  show ?case by (intro grows_intros grows_reads grows_join)
next
  case 2
  have tick: "carpool_ok (db (tick w))" using ok by simp
  show ?case
    unfolding wp_andthen wp_return
  proof (rule wp_mono [OF join_checks_spec [OF tick]], goal_cases)
    case (1 c v)
    then have data: "db v = db w" "clock v = clock w" "cfg v = cfg w" "seqs v = seqs w"
      "faults w = [] \<longrightarrow> faults v = []"
      by (auto simp: same_data_def)
    have c: "carpool_by_id (db w) i = Some c" and idle: "role_of (db w) (c_event_id c, u) = None"
      using 1 by simp_all
    have "wp (take_seat u i c)
       (\<lambda>n w'. n = c_seats_taken c + 1 \<and> c_seats_taken c < c_seats_total c
          \<and> only_outbox (v\<lparr>db := after_join (clock v) c u (db v)\<rparr>) w')
       (\<lambda>e w'. e = internal_error
            \<and> (faults v \<noteq> [] \<or> \<not> registered (db v) u \<or> \<not> registered (db v) (c_driver_id c))
          \<or> e = bad_request ''carpool_full'' \<and> \<not> c_seats_taken c < c_seats_total c) v"
      by (rule take_seat_spec) (use ok c idle in \<open>simp_all add: data\<close>)
    then show ?case
      by (rule wp_mono)
        (use c idle data carpool_by_idD [OF c] in \<open>auto simp: join_outcome_def only_outbox_def\<close>)
  next
    case (2 e v)
    then show ?case by (auto dest: fault_faults)
  qed
qed (auto simp: only_outbox_def)

lemma join_carpool_tx_keeps: "keeps carpool_inv (join_carpool_tx lev u i)"
proof (rule keepsI)
  fix w assume inv: "carpool_inv w"
  then have ok: "carpool_ok (db w)" by (simp add: carpool_inv_def)
  have grows: "grows (join_carpool_tx lev u i)"
    unfolding join_carpool_tx_def by (intro grows_transact grows_intros grows_reads grows_join)
  show "wp (join_carpool_tx lev u i) (\<lambda>_. carpool_inv) (\<lambda>_. carpool_inv) w"
  proof (rule wp_mono [OF wp_conj [OF join_tx_spec [OF ok] wp_grows [OF grows later_refl]]], goal_cases)
    case (1 r v)
    then have "carpool_ok (db v)"
      by (intro joined_tables(1) [OF ok, where c = "fst r"]) (auto dest: only_outbox_tables)
    moreover have "\<exists>x \<in> set (carpools (db w)). c_id x = c_id y" if "y \<in> set (carpools (db v))" for y
      using 1 that by (force simp: only_outbox_tables(4) [of "w\<lparr>db := after_join (clock w) (fst r) u (db w)\<rparr>" v]
          after_join_def)
    ultimately show ?case
      using inv 1 unfolding carpool_inv_def later_def by (metis order_trans)
  next
    case (2 e v)
    then show ?case
      using inv by (auto intro: carpool_tables.rollback)
  qed
qed

section \<open>Leaving\<close>

definition leave_outcome :: "database \<Rightarrow> int \<Rightarrow> int \<Rightarrow> api_error + (carpool \<times> int)" where
  "leave_outcome d u i = (case carpool_by_id d i of
       None \<Rightarrow> Inl (not_found ''carpool_not_found'')
     | Some c \<Rightarrow> if role_of d (c_event_id c, u) = Some (Rides i) then Inr (c, c_seats_taken c - 1)
                 else Inl (bad_request ''not_joined''))"

definition after_leave :: "micros \<Rightarrow> carpool \<Rightarrow> int \<Rightarrow> database \<Rightarrow> database" where
  "after_leave t c u d = d\<lparr>
     carpools := update_where (\<lambda>x. c_id x = c_id c)
       (\<lambda>x. x\<lparr>c_seats_taken := max (c_seats_taken x - 1) 0, c_updated_at := t\<rparr>) (carpools d),
     passengers := delete_where (\<lambda>p. cp_carpool_id p = c_id c \<and> cp_user_id p = u) (passengers d)\<rparr>"

lemma one_passenger:
  assumes ok: "carpool_ok d" and c: "c \<in> set (carpools d)"
    and rides: "role_of d (c_event_id c, u) = Some (Rides (c_id c))"
  shows "count_where (\<lambda>p. cp_carpool_id p = c_id c) (passengers d)
    = Suc (count_where (\<lambda>p. cp_carpool_id p = c_id c)
        (delete_where (\<lambda>p. cp_carpool_id p = c_id c \<and> cp_user_id p = u) (passengers d)))"
proof -
  obtain p where p: "p \<in> set (passengers d)" "cp_carpool_id p = c_id c"
    "cp_event_id p = c_event_id c" "cp_user_id p = u"
    using rides unfolding role_Rides [OF ok] by blast
  have same: "cp_carpool_id q = c_id c \<and> cp_carpool_id q = c_id c \<and> cp_user_id q = u
      \<longleftrightarrow> (cp_event_id q, cp_user_id q) = (cp_event_id p, cp_user_id p)"
    if q: "q \<in> set (passengers d)" for q
  proof
    assume "(cp_event_id q, cp_user_id q) = (cp_event_id p, cp_user_id p)"
    then have "q = p"
      by (intro distinct_map_inj [OF carpool_okD(3) [OF ok] q p(1)])
    then show "cp_carpool_id q = c_id c \<and> cp_carpool_id q = c_id c \<and> cp_user_id q = u"
      using p by simp
  qed (use passenger_event [OF ok c q] p in simp)
  have "count_where (\<lambda>q. cp_carpool_id q = c_id c \<and> cp_carpool_id q = c_id c \<and> cp_user_id q = u)
      (passengers d) = 1"
    using count_where_key [OF carpool_okD(3) [OF ok] p(1)] by (subst count_where_cong [OF same]) simp_all
  then show ?thesis
    using count_where_split [of "\<lambda>p. cp_carpool_id p = c_id c" "passengers d"
        "\<lambda>p. cp_carpool_id p = c_id c \<and> cp_user_id p = u"]
    by (simp add: count_where_delete)
qed

lemma other_passengers:
  assumes "i \<noteq> j"
  shows "count_where (\<lambda>p. cp_carpool_id p = i)
      (delete_where (\<lambda>p. cp_carpool_id p = j \<and> cp_user_id p = u) ps)
    = count_where (\<lambda>p. cp_carpool_id p = i) ps"
  using assms by (auto simp: count_where_delete intro!: count_where_cong)

lemma after_leave_ok:
  assumes ok: "carpool_ok d" and c: "c \<in> set (carpools d)"
    and rides: "role_of d (c_event_id c, u) = Some (Rides (c_id c))"
  shows "carpool_ok (after_leave t c u d)"
proof -
  let ?f = "\<lambda>x. if c_id x = c_id c
    then x\<lparr>c_seats_taken := max (c_seats_taken x - 1) 0, c_updated_at := t\<rparr> else x"
  let ?ps = "delete_where (\<lambda>p. cp_carpool_id p = c_id c \<and> cp_user_id p = u) (passengers d)"
  have "carpool_ok (d\<lparr>carpools := map ?f (carpools d), passengers := ?ps\<rparr>)"
  proof (rule carpool_ok_update [OF ok])
    fix x assume x: "x \<in> set (carpools d)"
    show "seats_counted (d\<lparr>carpools := map ?f (carpools d), passengers := ?ps\<rparr>) (?f x)"
    proof (cases "c_id x = c_id c")
      case True
      then have "x = c" using same_carpool [OF ok c x] by simp
      then show ?thesis
        using carpool_okD(4) [OF ok x] one_passenger [OF assms] by (simp add: seats_counted_def)
    next
      case False
      then show ?thesis
        using carpool_okD(4) [OF ok x] by (simp add: seats_counted_def other_passengers)
    qed
  qed (use carpool_okD(3,5) [OF ok] in \<open>auto intro: distinct_map_delete_where\<close>)
  then show ?thesis
    by (simp add: after_leave_def update_where_def)
qed

lemma after_leave_tables:
  "(\<exists>x \<in> set (carpools (after_leave t c u d)). c_id x = i \<and> c_event_id x = ev \<and> c_driver_id x = v)
     \<longleftrightarrow> (\<exists>x \<in> set (carpools d). c_id x = i \<and> c_event_id x = ev \<and> c_driver_id x = v)"
  "(\<exists>p \<in> set (passengers (after_leave t c u d)).
       cp_carpool_id p = i \<and> cp_event_id p = ev \<and> cp_user_id p = v)
     \<longleftrightarrow> (i, v) \<noteq> (c_id c, u)
       \<and> (\<exists>p \<in> set (passengers d). cp_carpool_id p = i \<and> cp_event_id p = ev \<and> cp_user_id p = v)"
  unfolding after_leave_def by (simp_all add: bex_update_where del: set_update_where) blast

lemma after_leave_roles:
  assumes ok: "carpool_ok d" and c: "c \<in> set (carpools d)"
    and rides: "role_of d (c_event_id c, u) = Some (Rides (c_id c))"
  shows "role_of (after_leave t c u d) = (role_of d)((c_event_id c, u) := None)"
proof (rule role_change [OF ok after_leave_ok [OF assms]])
  note roles = role_Drives [OF after_leave_ok [OF assms]] role_Rides [OF after_leave_ok [OF assms]]
  fix ev v i
  have drives: "role_of d (c_event_id c, u) \<noteq> Some (Drives i)" using rides by simp
  show "role_of (after_leave t c u d) (ev, v) = Some (Drives i) \<longleftrightarrow>
      ((role_of d)((c_event_id c, u) := None)) (ev, v) = Some (Drives i)"
    using drives by (auto simp: roles after_leave_tables simp flip: role_Drives [OF ok])
  have "cp_event_id p = c_event_id c"
    if "p \<in> set (passengers d)" "cp_carpool_id p = c_id c" for p
    using passenger_event [OF ok c that] .
  moreover have "i = c_id c"
    if "role_of d (c_event_id c, u) = Some (Rides i)"
    using rides that by simp
  ultimately show "role_of (after_leave t c u d) (ev, v) = Some (Rides i) \<longleftrightarrow>
      ((role_of d)((c_event_id c, u) := None)) (ev, v) = Some (Rides i)"
    unfolding roles after_leave_tables fun_upd_apply role_Rides [OF ok] by auto (auto simp: role_Rides [OF ok])
qed

lemma leave_tx_spec:
  assumes ok: "carpool_ok (db w)"
  shows "wp (leave_carpool_tx lev u i)
     (\<lambda>r w'. leave_outcome (db w) u i = Inr r \<and> carpool_by_id (db w) i = Some (fst r)
        \<and> role_of (db w) (c_event_id (fst r), u) = Some (Rides i)
        \<and> db w' = after_leave (clock w) (fst r) u (db w))
     (\<lambda>e w'. db w' = db w \<and> (e = internal_error \<and> faults w \<noteq> [] \<or> leave_outcome (db w) u i = Inl e)) w"
  unfolding leave_carpool_tx_def
proof (rule wp_transact_spec, goal_cases)
  case 1
  show ?case by (intro grows_intros grows_reads grows_quiet [OF quiet_carpool_reads(5)])
next
  case 2
  show ?case
  proof (cases "carpool_by_id (db w) i")
    case None
    then show ?thesis
      by (auto simp: lock_event_user_def fetch_carpool_def wp_simps leave_outcome_def dest: fault_faults)
  next
    case (Some c)
    have c: "c \<in> set (carpools (db w))" "c_id c = i" using carpool_by_idD [OF Some] by auto
    have find: "carpool_by_id (d\<lparr>passengers := ps\<rparr>) i = carpool_by_id d i" for d ps
      by (simp add: carpool_by_id_def)
    have taken: "max (c_seats_taken c - 1) 0 = c_seats_taken c - 1"
      if "role_of (db w) (c_event_id c, u) = Some (Rides i)"
      using one_passenger [OF ok c(1), of u] carpool_okD(4) [OF ok c(1)] that c(2)
      by (auto simp: seats_counted_def)
    show ?thesis
      unfolding lock_event_user_def fetch_carpool_def wp_simps release_seat_def Let_def tick_simps
        tick_update fst_conv snd_conv option.case Some role_Some_cases(4) [OF ok Some]
      using Some taken c
      by (auto simp: find leave_outcome_def after_leave_def dest: fault_faults)
  qed
qed simp

lemma leave_carpool_tx_keeps: "keeps carpool_inv (leave_carpool_tx lev u i)"
proof (rule keepsI)
  fix w assume inv: "carpool_inv w"
  then have ok: "carpool_ok (db w)" by (simp add: carpool_inv_def)
  have grows: "grows (leave_carpool_tx lev u i)"
    unfolding leave_carpool_tx_def
    by (intro grows_transact grows_intros grows_reads grows_quiet [OF quiet_carpool_reads(5)])
  show "wp (leave_carpool_tx lev u i) (\<lambda>_. carpool_inv) (\<lambda>_. carpool_inv) w"
  proof (rule wp_mono [OF wp_conj [OF leave_tx_spec [OF ok] wp_grows [OF grows later_refl]]], goal_cases)
    case (1 r v)
    then have "carpool_ok (db v)"
      using after_leave_ok [OF ok] by (auto dest: carpool_by_idD)
    moreover have "\<exists>x \<in> set (carpools (db w)). c_id x = c_id y" if "y \<in> set (carpools (db v))" for y
      using 1 that by (force simp: after_leave_def)
    ultimately show ?case
      using inv 1 unfolding carpool_inv_def later_def by (metis order_trans)
  next
    case (2 e v)
    then show ?case
      using inv by (auto intro: carpool_tables.rollback)
  qed
qed

section \<open>Offering, changing and withdrawing\<close>

lemma carpool_added_roles:
  assumes ok: "carpool_ok d" and ok': "carpool_ok (d\<lparr>carpools := carpools d @ [c]\<rparr>)"
    and idle: "role_of d (c_event_id c, c_driver_id c) = None"
  shows "role_of (d\<lparr>carpools := carpools d @ [c]\<rparr>)
    = (role_of d)((c_event_id c, c_driver_id c) \<mapsto> Drives (c_id c))"
proof (rule role_change [OF ok ok'])
  note roles = role_Drives [OF ok'] role_Rides [OF ok'] role_Drives [OF ok] role_Rides [OF ok]
  note drv = no_role(1) [OF ok idle] and rid = no_role(2) [OF ok idle]
  fix ev v i
  show "role_of (d\<lparr>carpools := carpools d @ [c]\<rparr>) (ev, v) = Some (Drives i) \<longleftrightarrow>
      ((role_of d)((c_event_id c, c_driver_id c) \<mapsto> Drives (c_id c))) (ev, v) = Some (Drives i)"
    using drv by (auto simp: roles)
  show "role_of (d\<lparr>carpools := carpools d @ [c]\<rparr>) (ev, v) = Some (Rides i) \<longleftrightarrow>
      ((role_of d)((c_event_id c, c_driver_id c) \<mapsto> Drives (c_id c))) (ev, v) = Some (Rides i)"
    using rid by (auto simp: roles)
qed

lemma create_tx_spec:
  assumes inv: "carpool_inv w"
  shows "wp (create_carpool_tx ev u orig notes p)
     (\<lambda>i w'. role_of (db w) (ev, u) = None \<and> i = seqs w CarpoolSeq + 1
        \<and> carpool_by_id (db w') i = Some (new_carpool ev u orig notes p (clock w) i)
        \<and> role_of (db w') = (role_of (db w))((ev, u) \<mapsto> Drives i))
     (\<lambda>e w'. db w' = db w \<and> (e = internal_error \<and> faults w \<noteq> []
        \<or> (role_of (db w) (ev, u) \<noteq> None \<longrightarrow> e = bad_request ''already_in_carpool''))) w"
  unfolding create_carpool_tx_def
proof (rule wp_transact_spec, goal_cases)
  case 1
  show ?case by (intro grows_intros grows_reads grows_quiet [OF quiet_carpool_reads(5)])
next
  case 2
  have ok: "carpool_ok (db w)" using inv by (simp add: carpool_inv_def)
  have new: "role_of (db v') = (role_of (db w))((ev, u) \<mapsto> Drives i)"
    "i = seqs w CarpoolSeq + 1"
    "carpool_by_id (db v') i = Some (new_carpool ev u orig notes p (clock w) i)"
    if ins: "insert_carpool (new_carpool ev u orig notes p (clock w)) v = (Inr i, v')"
      and v: "carpool_inv v" "db v = db w" "seqs v = seqs w" "\<not> in_carpool (db w) ev u" for v i v'
  proof -
    have ok': "carpool_ok (db v')"
      using carpool_inv_add [OF ins v(1)] v by (simp add: carpool_inv_def)
    have idle: "role_of (db w) (ev, u) = None" using role_None [OF ok] v(4) by simp
    show "i = seqs w CarpoolSeq + 1" using insert_carpool_ok(1) [OF ins] v(3) by simp
    note v' = insert_carpool_ok(2) [OF ins]
    show "role_of (db v') = (role_of (db w))((ev, u) \<mapsto> Drives i)"
      using carpool_added_roles [OF ok, of "new_carpool ev u orig notes p (clock w) i"] ok' idle v(2) v'
      by simp
    show "carpool_by_id (db v') i = Some (new_carpool ev u orig notes p (clock w) i)"
      using ok' v' by (simp add: carpool_by_id_iff)
  qed
  have inv4: "carpool_inv (tick (tick (tick (tick w))))" using inv by simp
  show ?case
    by (auto simp: lock_event_user_def wp_simps role_None [OF ok] split: prod.split sum.split
        dest: fault_faults elim!: new [OF _ inv4])
qed simp

text \<open>A change never drops the seats below the passengers on board, and it moves nobody.\<close>

lemma role_of_update_where:
  assumes "\<And>c. c_id (f c) = c_id c" "\<And>c. c_event_id (f c) = c_event_id c"
    "\<And>c. c_driver_id (f c) = c_driver_id c"
    and "carpools d' = update_where p f (carpools d)" and "passengers d' = passengers d"
  shows "role_of d' = role_of d"
proof -
  have find: "map_option c_id (find (\<lambda>c. c_event_id c = ev \<and> c_driver_id c = u) (update_where p f cs))
      = map_option c_id (find (\<lambda>c. c_event_id c = ev \<and> c_driver_id c = u) cs)" for ev u cs
    by (induction cs) (auto simp: update_where_def assms(1-3))
  have "role_of x = (\<lambda>(ev, u). case map_option c_id
        (find (\<lambda>c. c_event_id c = ev \<and> c_driver_id c = u) (carpools x)) of
      Some i \<Rightarrow> Some (Drives i)
    | None \<Rightarrow> map_option (\<lambda>p. Rides (cp_carpool_id p))
         (find (\<lambda>p. cp_event_id p = ev \<and> cp_user_id p = u) (passengers x)))" for x
    by (auto simp: role_of_def fun_eq_iff split: option.split)
  then show ?thesis
    by (simp only: assms(4,5) find)
qed

lemma update_tx_spec:
  assumes ok: "carpool_ok (db w)"
  shows "wp (update_carpool_tx i p)
     (\<lambda>c w'. carpool_by_id (db w) i = Some c
        \<and> carpools (db w') = update_where (\<lambda>x. c_id x = i) (apply_patch p (clock w) c) (carpools (db w))
        \<and> passengers (db w') = passengers (db w)
        \<and> writable w (c_event_id c)
        \<and> c_seats_taken c \<le> c_seats_total (apply_patch p (clock w) c c)
        \<and> 1 \<le> c_seats_total (apply_patch p (clock w) c c)
        \<and> clock w \<le> c_depart_at (apply_patch p (clock w) c c)
        \<and> trim (c_origin (apply_patch p (clock w) c c)) \<noteq> [])
     (\<lambda>e w'. db w' = db w) w"
  unfolding update_carpool_tx_def Let_def
proof (rule wp_transact_success, goal_cases)
  case 1
  have quiet: "wp (ensure_event_writable ev) (\<lambda>_ w'. writable v ev \<and> same_data v w') (\<lambda>_ _. True) v" for ev v
    by (rule wp_mono [OF ensure_event_writable_spec]) simp_all
  show ?case
    unfolding fetch_carpool_def wp_simps
    by (auto simp: update_carpool_row_def Let_def apply_patch_def same_data_def writable_same_data
        split: option.split intro!: wp_mono [OF quiet])
qed simp

text \<open>Withdrawing a carpool takes the roles of everybody on board, and every passenger is told.\<close>

lemma deleted_tables:
  "(\<exists>x \<in> set (carpools (delete_carpool_row j d)). c_id x = i \<and> c_event_id x = ev \<and> c_driver_id x = v)
     \<longleftrightarrow> i \<noteq> j \<and> (\<exists>x \<in> set (carpools d). c_id x = i \<and> c_event_id x = ev \<and> c_driver_id x = v)"
  "(\<exists>p \<in> set (passengers (delete_carpool_row j d)).
       cp_carpool_id p = i \<and> cp_event_id p = ev \<and> cp_user_id p = v)
     \<longleftrightarrow> i \<noteq> j \<and> (\<exists>p \<in> set (passengers d). cp_carpool_id p = i \<and> cp_event_id p = ev \<and> cp_user_id p = v)"
  by (auto simp: delete_carpool_row_def)

definition drop_roles :: "int \<Rightarrow> role option \<Rightarrow> role option" where
  "drop_roles i r = (if r = Some (Drives i) \<or> r = Some (Rides i) then None else r)"

lemma deleted_roles:
  assumes ok: "carpool_ok d"
  shows "role_of (delete_carpool_row i d) = drop_roles i \<circ> role_of d"
proof (rule role_change [OF ok carpool_ok_delete [OF ok]])
  note roles = role_Drives [OF carpool_ok_delete [OF ok]] role_Rides [OF carpool_ok_delete [OF ok]]
  fix ev v j
  show "role_of (delete_carpool_row i d) (ev, v) = Some (Drives j)
      \<longleftrightarrow> (drop_roles i \<circ> role_of d) (ev, v) = Some (Drives j)"
    unfolding roles deleted_tables role_Drives [OF ok, symmetric] by (auto simp: drop_roles_def)
  show "role_of (delete_carpool_row i d) (ev, v) = Some (Rides j)
      \<longleftrightarrow> (drop_roles i \<circ> role_of d) (ev, v) = Some (Rides j)"
    unfolding roles deleted_tables role_Rides [OF ok, symmetric] by (auto simp: drop_roles_def)
qed

lemma delete_tx_spec:
  assumes ok: "carpool_ok (db w)"
  shows "wp (delete_carpool_tx c)
     (\<lambda>_ w'. role_of (db w') = drop_roles (c_id c) \<circ> role_of (db w)
        \<and> (\<forall>p \<in> set (passengers (db w)). cp_carpool_id p = c_id c \<longrightarrow>
             queued (cancelled_notice c) (db w') (cp_user_id p)))
     (\<lambda>_ w'. db w' = db w) w"
  unfolding delete_carpool_tx_def
proof (rule wp_transact_success, goal_cases)
  case 1
  have queue: "wp (enqueue_notifications_tx us r)
      (\<lambda>_ w'. only_outbox v w' \<and> (\<forall>u \<in> set us. queued r (db w') u)) (\<lambda>_ _. True) v" for us r v
    by (rule wp_mono [OF wp_conj [OF enqueue_tx_frame enqueue_tx_queued]]) simp_all
  have roles: "role_of (db w') = role_of (db v)" if "only_outbox v w'" for v w'
    unfolding role_of_def only_outbox_tables [OF that] ..
  show ?case
    unfolding wp_simps
    by (auto simp: filter_empty_conv roles deleted_roles [OF ok] intro!: wp_mono [OF queue])
qed simp

section \<open>The handlers\<close>

lemma notify_users_keeps: "keeps carpool_inv (notify_users us r)"
  by (rule keepsI) (rule wp_mono [OF notify_users_frame], auto intro: carpool_inv_only_outbox)

lemma notify_driver_left_keeps: "keeps carpool_inv (notify_driver_left c u)"
  unfolding notify_driver_left_def
  by (intro keeps_intros carpool_reads notify_users_keeps)

lemma carpool_handlers_keep:
  "keeps carpool_inv (create_carpool req ev p)"
  "keeps carpool_inv (update_carpool req i patch)"
  "keeps carpool_inv (delete_carpool req i)"
  "keeps carpool_inv (join_carpool req i)"
  "keeps carpool_inv (leave_carpool req i)"
  unfolding create_carpool_def update_carpool_def delete_carpool_def join_carpool_def
    leave_carpool_def Let_def
  by (intro keeps_intros carpool_reads create_carpool_tx_keeps update_carpool_tx_keeps
      delete_carpool_tx_keeps join_carpool_tx_keeps leave_carpool_tx_keeps notify_driver_left_keeps)+

lemmas carpool_reject_rules = rejects_quiet_andthen [OF quiet_event_helpers(1)]
  rejects_quiet_andthen [OF quiet_access(5)] rejects_quiet_andthen [OF quiet_carpool_reads(1)]
  rejects_quiet_andthen [OF quiet_carpool_reads(2)] rejects_quiet_andthen [OF quiet_carpool_reads(3)]
  rejects_quiet_andthen [OF quiet_carpool_reads(4)] rejects_quiet_andthen [OF quiet_require]
  rejects_quiet_andthen [OF quiet_now]

text \<open>
  A step is a request to one of the handlers, or anything that the rest of the program does and
  that leaves the two tables alone.
\<close>

inductive carpool_step :: "world \<Rightarrow> world \<Rightarrow> bool" where
  create: "carpool_step w (snd (create_carpool req ev p w))"
| update: "carpool_step w (snd (update_carpool req i patch w))"
| withdraw: "carpool_step w (snd (delete_carpool req i w))"
| join: "carpool_step w (snd (join_carpool req i w))"
| leave: "carpool_step w (snd (leave_carpool req i w))"
| elsewhere: "carpools (db w') = carpools (db w) \<Longrightarrow> passengers (db w') = passengers (db w)
    \<Longrightarrow> seqs w CarpoolSeq \<le> seqs w' CarpoolSeq \<Longrightarrow> carpool_step w w'"

definition no_carpools :: "world \<Rightarrow> bool" where
  "no_carpools w \<longleftrightarrow> carpools (db w) = [] \<and> passengers (db w) = [] \<and> seqs w CarpoolSeq = 0"

interpretation carpooling: invariant_system no_carpools carpool_step carpool_inv
proof
  fix w assume "no_carpools w"
  then show "carpool_inv w"
    by (simp add: no_carpools_def carpool_inv_def carpool_ok_def)
next
  fix w w' assume "carpool_inv w" and "carpool_step w w'"
  from this(2,1) show "carpool_inv w'"
    by (induction rule: carpool_step.induct) (auto intro: carpool_inv_mono keeps_snd carpool_handlers_keep)
qed

text \<open>An answer of the handler's own choice (a status below 500) leaves the tables as they were.\<close>

lemma rejects_carpool_tx:
  "rejects_cleanly (create_carpool_tx ev u orig notes p)" "rejects_cleanly (update_carpool_tx i patch)"
  "rejects_cleanly (delete_carpool_tx c)" "rejects_cleanly (join_carpool_tx ev u i)"
  "rejects_cleanly (leave_carpool_tx ev u i)"
  unfolding create_carpool_tx_def update_carpool_tx_def delete_carpool_tx_def join_carpool_tx_def
    leave_carpool_tx_def
  by (rule rejects_transact)+

lemma carpool_tails [tail_intros]:
  "server_errors (answer_with_view st ev i)" "server_errors (notify_users us r)"
  "server_errors (notify_driver_left c u)"
  unfolding answer_with_view_def notify_driver_left_def notify_users_def
  by (intro tail_intros | simp)+

lemma carpool_rejections:
  "rejects_cleanly (create_carpool req ev p)" "rejects_cleanly (update_carpool req i patch)"
  "rejects_cleanly (delete_carpool req i)" "rejects_cleanly (join_carpool req i)"
  "rejects_cleanly (leave_carpool req i)"
  unfolding create_carpool_def update_carpool_def delete_carpool_def join_carpool_def
    leave_carpool_def Let_def
  by (intro carpool_reject_rules rejects_before_tail rejects_carpool_tx tail_intros)+

end
