(* ===== verification/Example.thy ===== *)
theory Example
  imports Outbox
begin

text \<open>
  A small concrete world on which the theorems with hypotheses are applied: four users, one event
  of the first, of which the second and the third are members.  A token of this world is the e-mail address
  of its session; hashing, case folding and encryption do nothing.
\<close>

definition example_config :: config where
  "example_config = \<lparr>email_lookup = (\<lambda>e. e), sql_lower = (\<lambda>s. s), sql_sort_key = (\<lambda>s. s), sql_like = (\<lambda>s p. has_sub (filter (\<lambda>c. c \<noteq> CHR ''%'') p) s),
     sql_timestamp_from_ms = (\<lambda>ms. Some (ms * 1000)), lowercase = (\<lambda>s. s),
     jwt_verify = (\<lambda>t tok. Inr \<lparr>cl_sub = tok, cl_handle = tok, cl_exp = 0, cl_session_version = 0\<rparr>),
     jwt_sign = (\<lambda>_ _ c. Some (cl_sub c)), jwt_has_no_kind = (\<lambda>_ _. True),
     argon2_hash = (\<lambda>_ p. Some p), argon2_verify = (\<lambda>h p. h = p),
     avatar_base_url = ''https://fiestaaa.app/media/'', process_avatar = Inr,
     any_uppercase = list_ex (\<lambda>c. c \<in> set ''ABCDEFGHIJKLMNOPQRSTUVWXYZ''),
     any_lowercase = list_ex (\<lambda>c. c \<in> set ''abcdefghijklmnopqrstuvwxyz''), lookup_text = (\<lambda>s. s), reset_link = (\<lambda>u t. Some (u @ t)),
     google_client_ids = [''web''], google_tokeninfo = (\<lambda>_ _. None), google_userinfo = (\<lambda>_. None),
     datetime_from_seconds = (\<lambda>s. Some (seconds s)), sha256_hex = (\<lambda>t. t),
     uuid_parse = (\<lambda>_. None), uuid_show = show_int \<circ> int, timezone_known = (\<lambda>z. z = ''Europe/Paris''),
     from_local_datetime = (\<lambda>_ d t. Single (days d + t)), sql_at_time_zone = (\<lambda>_ d t. days d + t),
     regex_is_match = (\<lambda>_ _. Some True), url_parse = (\<lambda>_. Some (''https'', Some ''fiestaaa.app'')), ip_parse = (\<lambda>_. None),
     send_mail = (\<lambda>_. MailAccepted), invitation_email_sender = Some ''hello@fiestaaa.app'',
     invitation_email_api_key = Some ''key'', app_base_url = ''https://fiestaaa.app'', trust_proxy_headers = False,
     cursor_parse = (\<lambda>_. None), cursor_show = (\<lambda>c. show_int (ec_id c)), json_strings = concat, redis_configured = True, fcm_v1_configured = True,
     fcm_server_key = False, fcm_v1_send = (\<lambda>_ _. Reply 200 ''ok''),
     fcm_legacy_send = (\<lambda>_ _. None), admin_emails = [], enforce_page_defaults = False\<rparr>"

definition example_user :: "int \<Rightarrow> string \<Rightarrow> user" where
  "example_user i name = \<lparr>u_id = i, u_public_id = nat i, u_email = name @ ''@x'',
     u_email_hash = name @ ''@x'', u_handle = name, u_avatar_url = None, u_session_version = 0,
     u_suspended = False, u_password_hash = ''secret'', u_password_login = True\<rparr>"

definition example_form :: event_form where
  "example_form = \<lparr>ef_description = ''fun'', ef_date_event = 0, ef_start_time = 1000, ef_end_date = None,
     ef_end_time = None, ef_timezone = ''Europe/Paris'', ef_address = ''here'', ef_latitude = None, ef_longitude = None,
     ef_payment_provider_id = None, ef_payment_identifier = None, ef_payment_requested_amount = None,
     ef_payment_per_person = False, ef_playlist_url = None, ef_playlist_provider = None,
     ef_enabled_features = [''carpools'']\<rparr>"

definition example_event :: event where
  "example_event = \<lparr>e_id = 10, e_name = ''party'', e_owner_id = 1, e_starts_at = 1000,
     e_effective_ends_at = 2000, e_invitation_deadline = None, e_deleted_at = None,
     e_purge_at = None, e_deletion_reason = None, e_moderation_hidden = False, e_form = example_form\<rparr>"

definition example_db :: database where
  "example_db = \<lparr>users = [example_user 1 ''ada'', example_user 2 ''bob'', example_user 3 ''cyd'',
       example_user 4 ''dan''],
     events = [example_event],
     invitations = [\<lparr>i_event_id = 10, i_user_id = 2, i_status = Accepted, i_date = 0, i_id = 1\<rparr>,
                    \<lparr>i_event_id = 10, i_user_id = 3, i_status = Accepted, i_date = 0, i_id = 2\<rparr>],
     carpools = [], passengers = [], expenses = [], participants = [], polls = [],
     poll_options = [], poll_votes = [], friendships = [], friend_requests = [], user_blocks = [],
     share_tokens = [], checkins = [], payment_providers = [], items = [], item_types = [], events_items = [], user_items = [], outbox = [], user_devices = [],
     apple_credentials = [], apple_revocations = [], oauth_identities = [],
     moderation_terms = [], revoked_tokens = [],
     mobile_sessions = [], pending_registrations = [], password_resets = [], abuse_reports = []\<rparr>"

definition example_world :: "database \<Rightarrow> world" where
  "example_world d = \<lparr>db = d, seqs = (\<lambda>_. 100), clock = 500, faults = [], published = [],
     pushed = [], mailed = [], avatar_files = [], cfg = example_config\<rparr>"

lemma example_world_simps [simp]:
  "db (example_world d) = d" "seqs (example_world d) s = 100" "clock (example_world d) = 500"
  "faults (example_world d) = []" "cfg (example_world d) = example_config"
  "published (example_world d) = []" "pushed (example_world d) = []" "mailed (example_world d) = []"
  "\<not> fault (example_world d)" "tick (example_world d) = example_world d"
  by (simp_all add: example_world_def fault_def tick_def)

definition session_of :: "string \<Rightarrow> request" where
  "session_of name = \<lparr>r_authorization = None, r_session_cookie = Some (name @ ''@x'')\<rparr>"

text \<open>The answers of a handler, without its world.\<close>

definition succeeds :: "'a act \<Rightarrow> world \<Rightarrow> bool" where
  "succeeds m w \<longleftrightarrow> (case fst (m w) of Inl _ \<Rightarrow> False | Inr _ \<Rightarrow> True)"

lemma wp_succeeds:
  assumes "wp m Q E w" and "succeeds m w"
  shows "\<exists>x. Q x (snd (m w))"
  using assms by (auto simp: wp_def succeeds_def split: prod.splits sum.splits)

lemma wp_outcome: "wp m Q E w \<Longrightarrow> m w = (r, v) \<Longrightarrow> (case r of Inl e \<Rightarrow> E e v | Inr x \<Rightarrow> Q x v)"
  by (simp add: wp_def split: sum.split)

end
