(* ===== verification/Carpool_Listing.thy ===== *)
theory Carpool_Listing
  imports Carpool_Facts Example "HOL-Library.Product_Lexorder"
begin

text \<open>
  The listing of the carpools of an event: what it shows and in which order, the passengers of a
  view, and reading it page by page.
\<close>

section \<open>Order\<close>

definition sort_value :: "string option \<Rightarrow> carpool \<Rightarrow> int" where
  "sort_value sort_by c =
     (if sort_by = Some ''departure_asc'' then c_depart_at c
      else if sort_by = Some ''departure_desc'' then - c_depart_at c
      else if sort_by = Some ''seats_asc'' then c_seats_total c
      else if sort_by = Some ''seats_desc'' then - c_seats_total c
      else if sort_by = Some ''available_seats_asc'' then c_seats_total c - c_seats_taken c
      else if sort_by = Some ''available_seats_desc'' then - (c_seats_total c - c_seats_taken c)
      else c_depart_at c)"

text \<open>The user's own carpools come first, then those the user rides in, then the others.\<close>

definition group_rank :: "database \<Rightarrow> int \<Rightarrow> carpool \<Rightarrow> int" where
  "group_rank d u c = (if c_driver_id c = u then 0 else if rides_along d u c then 1 else 2)"

lemma apply_sort_key: "apply_sort sort_by rows = sort_key (sort_value sort_by) rows"
  by (simp add: apply_sort_def sort_value_def [abs_def])

lemma mset_group: "mset (group_for_user sort_by u f rows) = mset rows"
proof -
  have "mset (filter (\<lambda>c. c_driver_id c = u) rows)
      + (mset (filter (\<lambda>c. c_driver_id c \<noteq> u \<and> f c) rows)
      + mset (filter (\<lambda>c. c_driver_id c \<noteq> u \<and> \<not> f c) rows)) = mset rows"
    by (induction rows) auto
  then show ?thesis
    by (simp add: group_for_user_def apply_sort_key)
qed

lemma sorted_segment:
  assumes "\<And>c. c \<in> set cs \<Longrightarrow> r c = k"
  shows "sorted (map (\<lambda>c. (r c :: int, sort_value s c)) (apply_sort s cs))"
proof -
  have "sorted_wrt (\<lambda>a b. (k, sort_value s a) \<le> (k, sort_value s b)) (apply_sort s cs)"
    using sorted_sort_key [of "sort_value s" cs] by (simp add: apply_sort_key sorted_map)
  then show ?thesis
    unfolding sorted_map
    by (rule sorted_wrt_mono_rel [rotated]) (simp add: apply_sort_key assms)
qed

lemma sorted_group:
  "sorted (map (\<lambda>c. (group_rank d u c, sort_value s c)) (group_for_user s u (rides_along d u) rows))"
proof -
  let ?m = "map (\<lambda>c. (group_rank d u c, sort_value s c))"
  have "sorted (?m (apply_sort s (filter (\<lambda>c. c_driver_id c = u) rows)))"
    by (rule sorted_segment [where k = 0]) (simp add: group_rank_def)
  moreover have "sorted (?m (apply_sort s (filter (\<lambda>c. c_driver_id c \<noteq> u \<and> rides_along d u c) rows)))"
    by (rule sorted_segment [where k = 1]) (simp add: group_rank_def)
  moreover have "sorted (?m (apply_sort s (filter (\<lambda>c. c_driver_id c \<noteq> u \<and> \<not> rides_along d u c) rows)))"
    by (rule sorted_segment [where k = 2]) (simp add: group_rank_def)
  ultimately show ?thesis
    unfolding group_for_user_def map_append sorted_append
    by (simp add: apply_sort_key) (auto simp: group_rank_def)
qed

section \<open>The views\<close>

definition ordered_rows :: "int \<Rightarrow> int option \<Rightarrow> string option \<Rightarrow> page option \<Rightarrow> database \<Rightarrow> carpool list" where
  "ordered_rows ev user s pg d =
     (case user of
        None \<Rightarrow> apply_sort s (select_carpools ev pg d)
      | Some u \<Rightarrow> group_for_user s u (rides_along d u) (select_carpools ev pg d))"

lemma apply_sort_nil [simp]: "apply_sort s [] = []"
  by (simp add: apply_sort_key)

lemma group_nil [simp]: "group_for_user s u f [] = []"
  by (simp add: group_for_user_def)

lemma fetch_carpool_views_spec:
  "wp (fetch_carpool_views ev user s pg)
     (\<lambda>vs w'. same_data w w' \<and> map cv_carpool vs = ordered_rows ev user s pg (db w)
        \<and> (\<forall>v \<in> set vs. cv_passengers v = passenger_views (db w) (c_id (cv_carpool v))))
     (\<lambda>e w'. same_data w w' \<and> err_status e = 500) w"
proof -
  have 1: "map cv_carpool (map (make_view us ps) cs) = cs" for us ps cs
    by (simp add: make_view_def Let_def comp_def)
  have 2: "\<forall>v \<in> set (map (make_view us (passenger_views d)) cs).
      cv_passengers v = passenger_views d (c_id (cv_carpool v))" for us d cs
    by (simp add: make_view_def Let_def)
  show ?thesis
    unfolding fetch_carpool_views_def ordered_rows_def
    by (cases user; cases "select_carpools ev pg (db w) = []")
      (auto simp: wp_simps 1 make_view_def Let_def comp_def same_data_def)
qed

lemma passenger_views_count:
  assumes "\<And>p. p \<in> set (passengers d) \<Longrightarrow> registered d (cp_user_id p)"
  shows "length (passenger_views d i) = count_where (\<lambda>p. cp_carpool_id p = i) (passengers d)"
proof -
  have one: "length (case find (\<lambda>u. u_id u = cp_user_id p) (users d) of None \<Rightarrow> []
      | Some u \<Rightarrow> [\<lparr>pv_user_id = u_id u, pv_handle = u_handle u, pv_avatar_url = u_avatar_url u,
                   pv_joined_at = cp_joined_at p\<rparr>]) = 1" if "p \<in> set (passengers d)" for p
    using assms [OF that] by (auto simp: registered_def find_None_iff split: option.split)
  have "length (passenger_views d i)
      = sum_list (map (\<lambda>p. 1) (sort_key cp_joined_at (filter (\<lambda>p. cp_carpool_id p = i) (passengers d))))"
    unfolding passenger_views_def length_concat map_map comp_def
    by (rule arg_cong [where f = sum_list], rule map_cong [OF refl]) (auto simp: one)
  then show ?thesis
    by (simp add: count_where_def sum_list_triv)
qed

end
