(* ===== verification/Carpool_Properties.thy ===== *)
theory Carpool_Properties
  imports Carpool_Listing
begin

text \<open>
  The properties of the carpool component, each followed by its application to a concrete world
  where it has hypotheses.
\<close>

section \<open>A concrete event with carpools\<close>

definition ada_carpool :: carpool where
  "ada_carpool = \<lparr>c_id = 1, c_event_id = 10, c_driver_id = 1, c_origin = ''Lyon'',
     c_origin_latitude = None, c_origin_longitude = None, c_depart_at = 900, c_seats_total = 2,
     c_seats_taken = 1, c_notes = None, c_created_at = 100, c_updated_at = 100\<rparr>"

definition bob_rides :: carpool_passenger where
  "bob_rides = \<lparr>cp_carpool_id = 1, cp_event_id = 10, cp_user_id = 2, cp_joined_at = 200\<rparr>"

definition carpool_world :: world where
  "carpool_world = example_world (example_db\<lparr>carpools := [ada_carpool], passengers := [bob_rides]\<rparr>)"

lemma carpool_world_ok: "carpool_ok (db carpool_world)"
  by (simp add: carpool_world_def carpool_ok_def seats_counted_def seated_def ada_carpool_def
      bob_rides_def)

lemma carpool_world_inv: "carpool_inv carpool_world"
  using carpool_world_ok by (simp add: carpool_inv_def) (simp add: carpool_world_def ada_carpool_def)

lemma carpool_world_users:
  "registered (db carpool_world) 1" "registered (db carpool_world) 2" "registered (db carpool_world) 3"
  by (simp_all add: carpool_world_def example_db_def example_user_def registered_def)

lemma carpool_world_drivers:
  "c \<in> set (carpools (db carpool_world)) \<Longrightarrow> registered (db carpool_world) (c_driver_id c)"
  using carpool_world_users by (simp add: carpool_world_def ada_carpool_def)

lemma bob_on_board:
  "bob_rides \<in> set (passengers (db carpool_world))" "cp_carpool_id bob_rides = c_id ada_carpool"
  "cp_user_id bob_rides = 2"
  by (simp_all add: carpool_world_def bob_rides_def ada_carpool_def)

section \<open>Consistency\<close>



section \<open>What the transactions do\<close>

text \<open>
  Joining refines one step on the map of roles.  When a join succeeds, the decision of
  \<open>join_outcome\<close> was to accept: the carpool exists, the user has no role in its event and a seat is
  free; then the user rides in it, every other role is as before and the counter answered is one
  higher.  An error leaves the tables as they were and is the one \<open>join_outcome\<close> names, or the
  internal error of a statement that failed.
\<close>

theorem join_refines_roles:
  assumes "carpool_ok (db w)" and "registered (db w) u"
    and "\<And>c. c \<in> set (carpools (db w)) \<Longrightarrow> registered (db w) (c_driver_id c)"
  shows "wp (join_carpool_tx ev u i)
     (\<lambda>(c, n) w'. join_outcome (db w) u i = Inr (c, n) \<and> carpool_ok (db w')
        \<and> role_of (db w') = (role_of (db w))((c_event_id c, u) \<mapsto> Rides i))
     (\<lambda>e w'. db w' = db w \<and>
        (e = internal_error \<and> faults w \<noteq> [] \<or> join_outcome (db w) u i = Inl e)) w"
proof (rule wp_mono [OF join_tx_spec [OF assms(1)]], goal_cases)
  case (1 r v)
  then have t: "carpools (db v) = carpools (after_join (clock w) (fst r) u (db w))"
      "passengers (db v) = passengers (after_join (clock w) (fst r) u (db w))"
    by (auto dest: only_outbox_tables(4,5))
  show ?case
    using 1 joined_tables [OF assms(1) _ _ _ t] by (auto split: prod.split)
qed (use assms in auto)

theorem join_refines_roles_witness:
  "\<exists>v. fst (join_carpool_tx 10 3 1 carpool_world) = Inr (ada_carpool, 2)
     \<and> role_of (db (snd (join_carpool_tx 10 3 1 carpool_world))) (10, 3) = Some v"
proof -
  have "fst (join_carpool_tx 10 3 1 carpool_world) = Inr (ada_carpool, 2)"
    by code_simp
  then show ?thesis
    using join_refines_roles [OF carpool_world_ok carpool_world_users(3) carpool_world_drivers,
        of 10 1] by (auto simp: wp_def ada_carpool_def split: prod.splits)
qed

text \<open>
  Leaving is the inverse step: it succeeds exactly for a passenger of the carpool, whose role
  disappears while every other role stays, and it answers the counter one lower.
\<close>

theorem leave_refines_roles:
  assumes "carpool_ok (db w)"
  shows "wp (leave_carpool_tx ev u i)
     (\<lambda>(c, n) w'. leave_outcome (db w) u i = Inr (c, n) \<and> carpool_ok (db w')
        \<and> role_of (db w') = (role_of (db w))((c_event_id c, u) := None))
     (\<lambda>e w'. db w' = db w \<and>
        (e = internal_error \<and> faults w \<noteq> [] \<or> leave_outcome (db w) u i = Inl e)) w"
proof (rule wp_mono [OF leave_tx_spec [OF assms]], goal_cases)
  case (1 r v)
  then show ?case
    using carpool_by_idD [of "db w" i "fst r"] after_leave_ok [OF assms, of "fst r" u]
      after_leave_roles [OF assms, of "fst r" u]
    by (auto split: prod.split)
qed auto

theorem leave_refines_roles_witness:
  "fst (leave_carpool_tx 10 2 1 carpool_world) = Inr (ada_carpool, 0)
     \<and> role_of (db (snd (leave_carpool_tx 10 2 1 carpool_world))) (10, 2) = None"
proof -
  have "fst (leave_carpool_tx 10 2 1 carpool_world) = Inr (ada_carpool, 0)"
    by code_simp
  then show ?thesis
    using leave_refines_roles [OF carpool_world_ok, of 10 2 1]
    by (auto simp: wp_def ada_carpool_def split: prod.splits)
qed

text \<open>
  Offering a carpool gives the driver a role in the event, and nobody else: it succeeds only for a
  user without a role there, under the next identifier, with the row the payload describes and no
  seat taken; a user with a role is answered \<open>already_in_carpool\<close>.
\<close>

theorem create_gives_the_driver_a_role:
  assumes "carpool_inv w"
  shows "wp (create_carpool_tx ev u orig notes p)
     (\<lambda>i w'. role_of (db w) (ev, u) = None \<and> i = seqs w CarpoolSeq + 1
        \<and> carpool_by_id (db w') i = Some (new_carpool ev u orig notes p (clock w) i)
        \<and> role_of (db w') = (role_of (db w))((ev, u) \<mapsto> Drives i))
     (\<lambda>e w'. db w' = db w \<and> (e = internal_error \<and> faults w \<noteq> []
        \<or> (role_of (db w) (ev, u) \<noteq> None \<longrightarrow> e = bad_request ''already_in_carpool''))) w"
  by (rule create_tx_spec [OF assms])

definition small_payload :: carpool_payload where
  "small_payload = \<lparr>pl_origin = ''Nice'', pl_origin_latitude = None, pl_origin_longitude = None,
     pl_depart_at = 950, pl_seats_total = 3, pl_notes = None\<rparr>"

theorem create_gives_the_driver_a_role_witness:
  "fst (create_carpool_tx 10 3 ''Nice'' None small_payload carpool_world) = Inr 101
     \<and> role_of (db (snd (create_carpool_tx 10 3 ''Nice'' None small_payload carpool_world))) (10, 3)
         = Some (Drives 101)"
proof -
  have "fst (create_carpool_tx 10 3 ''Nice'' None small_payload carpool_world) = Inr 101"
    by code_simp
  then show ?thesis
    using create_gives_the_driver_a_role [OF carpool_world_inv, of 10 3 "''Nice''" None small_payload]
    by (auto simp: wp_def split: prod.splits)
qed

text \<open>
  A change of a carpool that succeeds was made on an event that is not over, never sets the
  seats below the passengers on board, keeps a departure in the future and an origin that is not
  blank, and moves nobody: every role and every passenger is as before.
\<close>

theorem update_moves_nobody:
  assumes "carpool_ok (db w)"
  shows "wp (update_carpool_tx i p)
     (\<lambda>c w'. carpool_by_id (db w) i = Some c
        \<and> (\<exists>c'. carpool_by_id (db w') i = Some c' \<and> c' = apply_patch p (clock w) c c
             \<and> c_seats_taken c' = c_seats_taken c \<and> c_seats_taken c' \<le> c_seats_total c'
             \<and> 1 \<le> c_seats_total c' \<and> clock w \<le> c_depart_at c' \<and> trim (c_origin c') \<noteq> [])
        \<and> writable w (c_event_id c)
        \<and> role_of (db w') = role_of (db w) \<and> passengers (db w') = passengers (db w))
     (\<lambda>e w'. db w' = db w) w"
proof (rule wp_mono [OF update_tx_spec [OF assms]], goal_cases)
  case (1 c v)
  have "role_of (db v) = role_of (db w)"
    using 1 by (intro role_of_update_where [where f = "apply_patch p (clock w) c"]) auto
  then show ?case
    using 1 by (simp add: carpool_by_id_def find_update_where)
qed simp

definition fewer_seats :: carpool_patch where
  "fewer_seats = \<lparr>pa_origin = None, pa_origin_latitude = None, pa_origin_longitude = None,
     pa_depart_at = None, pa_seats_total = Some 1, pa_notes = Some ''  ''\<rparr>"

theorem update_moves_nobody_witness:
  "fst (update_carpool_tx 1 fewer_seats carpool_world) = Inr ada_carpool
     \<and> role_of (db (snd (update_carpool_tx 1 fewer_seats carpool_world))) = role_of (db carpool_world)"
proof -
  have "fst (update_carpool_tx 1 fewer_seats carpool_world) = Inr ada_carpool"
    by code_simp
  then show ?thesis
    using update_moves_nobody [OF carpool_world_ok, of 1 fewer_seats]
    by (auto simp: wp_def split: prod.splits)
qed

text \<open>
  Withdrawing a carpool ends the roles of its driver and of its passengers and no other, and
  when it succeeds every passenger has a cancellation queued in the same transaction.
\<close>

theorem delete_tells_every_passenger:
  assumes "carpool_ok (db w)"
  shows "wp (delete_carpool_tx c)
     (\<lambda>_ w'. role_of (db w') = drop_roles (c_id c) \<circ> role_of (db w)
        \<and> (\<forall>p \<in> set (passengers (db w)). cp_carpool_id p = c_id c \<longrightarrow>
             queued (cancelled_notice c) (db w') (cp_user_id p)))
     (\<lambda>_ w'. db w' = db w) w"
  by (rule delete_tx_spec [OF assms])

theorem delete_tells_every_passenger_witness:
  "fst (delete_carpool_tx ada_carpool carpool_world) = Inr ()
     \<and> queued (cancelled_notice ada_carpool) (db (snd (delete_carpool_tx ada_carpool carpool_world))) 2"
proof -
  have "fst (delete_carpool_tx ada_carpool carpool_world) = Inr ()"
    by code_simp
  then show ?thesis
    using wp_Inr [OF delete_tells_every_passenger [OF carpool_world_ok, of ada_carpool],
        of "()" "snd (delete_carpool_tx ada_carpool carpool_world)"] bob_on_board
    by (metis prod.collapse)
qed

text \<open>
  Joining and then leaving is as if nothing had happened: every role and the seats of the
  carpool are what they were.
\<close>

theorem join_then_leave:
  assumes "carpool_ok (db w)" and "registered (db w) u"
    and "\<And>c. c \<in> set (carpools (db w)) \<Longrightarrow> registered (db w) (c_driver_id c)"
    and join: "join_carpool_tx ev u i w = (Inr (c, n), v)"
    and leave: "leave_carpool_tx ev' u i v = (Inr (c', m), w')"
  shows "role_of (db w') = role_of (db w) \<and> m = c_seats_taken c"
proof -
  have j: "role_of (db w) (c_event_id c, u) = None" "carpool_by_id (db w) i = Some c"
      "only_outbox (w\<lparr>db := after_join (clock w) c u (db w)\<rparr>) v" "c_seats_taken c < c_seats_total c"
    using wp_Inr [OF join_tx_spec [OF assms(1)] join] by simp_all
  note c = carpool_by_idD [OF j(2)]
  have t: "carpools (db v) = carpools (after_join (clock w) c u (db w))"
      "passengers (db v) = passengers (after_join (clock w) c u (db w))"
    using j(3) by (auto dest: only_outbox_tables(4,5))
  have ok: "carpool_ok (db v)" and roles: "role_of (db v) = (role_of (db w))((c_event_id c, u) \<mapsto> Rides i)"
    using joined_tables [OF assms(1) j(2,1,4) t] by simp_all
  have l: "carpool_by_id (db v) i = Some c'" "leave_outcome (db v) u i = Inr (c', m)"
      "role_of (db v) (c_event_id c', u) = Some (Rides i)"
    using wp_Inr [OF leave_tx_spec [OF ok] leave] by simp_all
  have c': "c' = c\<lparr>c_seats_taken := c_seats_taken c + 1, c_updated_at := clock w\<rparr>"
    using l(1) j(2) c by (simp add: carpool_by_id_def t(1)) (simp add: after_join_def find_update_where)
  have "db w' = after_leave (clock v) c' u (db v)"
    using wp_Inr [OF leave_tx_spec [OF ok] leave] by simp
  then have "role_of (db w') = (role_of (db v))((c_event_id c', u) := None)"
    using after_leave_roles [OF ok, of c' u "clock v"] carpool_by_idD [OF l(1)] l(3) by simp
  then show ?thesis
    using roles c' l j(1) by (auto simp: leave_outcome_def)
qed

theorem join_then_leave_witness:
  "fst (leave_carpool_tx 10 3 1 (snd (join_carpool_tx 10 3 1 carpool_world)))
      = Inr (ada_carpool\<lparr>c_seats_taken := 2, c_updated_at := 500\<rparr>, 1)
   \<and> role_of (db (snd (leave_carpool_tx 10 3 1 (snd (join_carpool_tx 10 3 1 carpool_world)))))
      = role_of (db carpool_world)"
proof -
  let ?v = "snd (join_carpool_tx 10 3 1 carpool_world)"
  have 1: "fst (join_carpool_tx 10 3 1 carpool_world) = Inr (ada_carpool, 2)"
    by code_simp
  have 2: "fst (leave_carpool_tx 10 3 1 ?v)
      = Inr (ada_carpool\<lparr>c_seats_taken := 2, c_updated_at := 500\<rparr>, 1)"
    by code_simp
  show ?thesis
    using join_then_leave [OF carpool_world_ok carpool_world_users(3) carpool_world_drivers,
        of 10 1 ada_carpool 2 ?v 10 "ada_carpool\<lparr>c_seats_taken := 2, c_updated_at := 500\<rparr>" 1
          "snd (leave_carpool_tx 10 3 1 ?v)"] 1 2
    by (simp add: prod_eq_iff)
qed

text \<open>
  A request to any of the five handlers that is answered with a status below 500 leaves every
  table of the database as it was: validation, access and conflict errors have no effect.
\<close>

theorem carpool_errors_change_nothing:
  "rejects_cleanly (create_carpool req ev p) \<and> rejects_cleanly (update_carpool req i patch)
   \<and> rejects_cleanly (delete_carpool req i) \<and> rejects_cleanly (join_carpool req i)
   \<and> rejects_cleanly (leave_carpool req i)"
  by (simp add: carpool_rejections)

section \<open>The listing\<close>

text \<open>
  The listing without paging shows every carpool of the event exactly once: first those the user
  drives, then those the user rides in, then the others, each group in the order asked for.
\<close>

theorem listing_order:
  "wp (fetch_carpool_views ev (Some u) s None)
     (\<lambda>vs w'. mset (map cv_carpool vs) = mset (filter (\<lambda>c. c_event_id c = ev) (carpools (db w)))
        \<and> sorted (map (\<lambda>v. (group_rank (db w) u (cv_carpool v), sort_value s (cv_carpool v))) vs))
     (\<lambda>e w'. err_status e = 500) w"
proof (rule wp_mono [OF fetch_carpool_views_spec], goal_cases)
  case (1 vs v)
  then have "map cv_carpool vs = group_for_user s u (rides_along (db w) u) (select_carpools ev None (db w))"
    by (simp add: ordered_rows_def)
  moreover have "map (\<lambda>v. (group_rank (db w) u (cv_carpool v), sort_value s (cv_carpool v))) vs
      = map (\<lambda>c. (group_rank (db w) u c, sort_value s c)) (map cv_carpool vs)"
    by simp
  ultimately show ?case
    using mset_group sorted_group by (simp only:) (simp add: select_carpools_def)
qed simp

text \<open>
  In consistent tables a view lists exactly as many passengers as its counter says.
\<close>

theorem shown_passengers_fill_the_seats:
  assumes "carpool_ok (db w)"
    and "\<And>p. p \<in> set (passengers (db w)) \<Longrightarrow> registered (db w) (cp_user_id p)"
  shows "wp (fetch_carpool_views ev user s None)
     (\<lambda>vs w'. \<forall>v \<in> set vs. int (length (cv_passengers v)) = c_seats_taken (cv_carpool v))
     (\<lambda>e w'. err_status e = 500) w"
proof (rule wp_mono [OF fetch_carpool_views_spec], goal_cases)
  case (1 vs v')
  have rows: "set (ordered_rows ev user s None (db w)) \<subseteq> set (carpools (db w))"
    unfolding ordered_rows_def
    by (auto simp: select_carpools_def apply_sort_key group_for_user_def split: option.splits)
  show ?case
  proof
    fix v assume v: "v \<in> set vs"
    then have "cv_carpool v \<in> set (map cv_carpool vs)" by simp
    then have "cv_carpool v \<in> set (carpools (db w))" using 1 rows by auto
    then show "int (length (cv_passengers v)) = c_seats_taken (cv_carpool v)"
      using 1 v carpool_okD(4) [OF assms(1)] passenger_views_count [OF assms(2)]
      by (simp add: seats_counted_def)
  qed
qed simp

theorem shown_passengers_fill_the_seats_witness:
  "wp (fetch_carpool_views 10 (Some 2) None None)
     (\<lambda>vs w'. \<forall>v \<in> set vs. int (length (cv_passengers v)) = c_seats_taken (cv_carpool v))
     (\<lambda>e w'. err_status e = 500) carpool_world"
  by (rule shown_passengers_fill_the_seats [OF carpool_world_ok])
    (simp add: carpool_world_def bob_rides_def registered_def example_db_def example_user_def)

definition offered :: "int \<Rightarrow> int \<Rightarrow> micros \<Rightarrow> carpool" where
  "offered i driver t = ada_carpool\<lparr>c_id := i, c_driver_id := driver, c_depart_at := t, c_seats_taken := 0\<rparr>"

definition paging_world :: world where
  "paging_world = example_world (example_db\<lparr>carpools :=
     [offered 1 2 930, offered 2 3 920, offered 3 4 910]\<rparr>)"

definition ada_request :: request where
  "ada_request = \<lparr>r_authorization = None, r_session_cookie = Some ''ada@x''\<rparr>"

definition page_ids ::
    "api_error + (carpool_view list \<times> string option) answer \<Rightarrow> (int list \<times> string option) option" where
  "page_ids r = (case r of Inl _ \<Rightarrow> None
     | Inr (Answer _ (vs, cursor)) \<Rightarrow> Some (map (\<lambda>v. c_id (cv_carpool v)) vs, cursor))"

text \<open>
  Reading the listing page by page loses rows.  A page is cut by identifier but then sorted by
  departure before its last row names the cursor: of three carpools that leave in the reverse order
  of their identifiers, pages of two show the third and the second, then the third again, and
  never the first.
\<close>

theorem carpool_pages_lose_rows:
  "page_ids (fst (list_event_carpools ada_request 10 None
      \<lparr>q_limit = Some 2, q_cursor = None\<rparr> paging_world)) = Some ([3, 2], Some ''2'')
   \<and> page_ids (fst (list_event_carpools ada_request 10 None
      \<lparr>q_limit = Some 2, q_cursor = Some ''2''\<rparr> paging_world)) = Some ([3], None)"
  by code_simp

end
