(* ===== verification/Expenses.thy ===== *)
theory Expenses
  imports Outbox Pagination "HOL-Library.AList" "HOL-Library.Signed_Division"
    "HOL-Library.Option_ord" "HOL-Library.Product_Lexorder"
begin

text \<open>
  Shared expenses (\<open>src/routes/events/expenses.rs\<close>): members record what they paid and for whom;
  the summary adds up what everybody paid and owes, to the cent, and proposes transfers that settle
  the accounts.  Amounts are \<open>i64\<close> in the code and its release build has no overflow checks, so the
  sums wrap around: \<open>wrap64\<close> writes this out.
\<close>

definition wrap64 :: "int \<Rightarrow> int" where
  "wrap64 x = (x + 2 ^ 63) mod 2 ^ 64 - 2 ^ 63"

section \<open>Payloads and views\<close>

record expense_payload =
  el_title :: string
  el_amount_cents :: int
  el_paid_by_user_id :: "int option"
  el_note :: "string option"
  el_expense_date :: "micros option"
  el_participant_user_ids :: "int list"

record participant_view =
  ev_user_id :: int
  ev_handle :: string
  ev_avatar_url :: "string option"

record expense_view =
  xv_expense :: expense
  xv_paid_by_handle :: string
  xv_paid_by_avatar_url :: "string option"
  xv_participants :: "participant_view list"

record balance_view =
  bv_user_id :: int
  bv_handle :: "string option"
  bv_avatar_url :: "string option"
  bv_paid_cents :: int
  bv_owed_cents :: int
  bv_balance_cents :: int

record settlement_view =
  sv_from_user_id :: int
  sv_from_handle :: "string option"
  sv_to_user_id :: int
  sv_to_handle :: "string option"
  sv_amount_cents :: int

record expenses_summary =
  es_total_cents :: int
  es_balances :: "balance_view list"
  es_settlements :: "settlement_view list"

section \<open>Reading\<close>

text \<open>The owner and the accepted members, with the user row they come from.\<close>

definition member_directory :: "int \<Rightarrow> database \<Rightarrow> user list" where
  "member_directory event_id d =
     filter (\<lambda>u. exists_where (\<lambda>e. e_id e = event_id \<and> e_owner_id e = u_id u) (events d)
               \<or> accepted_member d event_id (u_id u)) (users d)"

definition fetch_event_member_directory :: "int \<Rightarrow> user list act" where
  "fetch_event_member_directory event_id = query db_error (\<lambda>w. member_directory event_id (db w))"

definition expense_participants :: "world \<Rightarrow> int \<Rightarrow> participant_view list" where
  "expense_participants w expense_id =
     sort_key (\<lambda>p. (sql_sort_key (cfg w) (sql_lower (cfg w) (ev_handle p)), ev_user_id p))
       (concat (map (\<lambda>xp. case find (\<lambda>u. u_id u = xp_user_id xp) (users (db w)) of
            None \<Rightarrow> []
          | Some u \<Rightarrow> [\<lparr>ev_user_id = u_id u, ev_handle = u_handle u, ev_avatar_url = u_avatar_url u\<rparr>])
         (filter (\<lambda>xp. xp_expense_id xp = expense_id) (participants (db w)))))"

definition newest_first :: "expense list \<Rightarrow> expense list" where
  "newest_first xs = sort_key (\<lambda>x. (- x_date x, - x_id x)) xs"

definition paid_rows :: "int list \<Rightarrow> database \<Rightarrow> (expense \<times> user) list" where
  "paid_rows expense_ids d =
     concat (map (\<lambda>x. case find (\<lambda>u. u_id u = x_paid_by x) (users d) of
          None \<Rightarrow> [] | Some u \<Rightarrow> [(x, u)])
       (newest_first (filter (\<lambda>x. x_id x \<in> set expense_ids) (expenses d))))"

definition make_expense_view :: "(int \<Rightarrow> participant_view list) \<Rightarrow> expense \<times> user \<Rightarrow> expense_view" where
  "make_expense_view people = (\<lambda>(x, u).
     \<lparr>xv_expense = x, xv_paid_by_handle = u_handle u, xv_paid_by_avatar_url = u_avatar_url u,
      xv_participants = people (x_id x)\<rparr>)"

definition fetch_event_expenses_by_ids :: "int list \<Rightarrow> expense_view list act" where
  "fetch_event_expenses_by_ids expense_ids =
     (if expense_ids = [] then return []
      else andthen (query db_error (\<lambda>w. paid_rows expense_ids (db w))) (\<lambda>rows.
        andthen (query db_error expense_participants) (\<lambda>people.
        return (map (make_expense_view people) rows))))"

definition select_expense_ids :: "int \<Rightarrow> page option \<Rightarrow> database \<Rightarrow> int list" where
  "select_expense_ids event_id pg d =
     (let rows = filter (\<lambda>x. x_event_id x = event_id) (expenses d) in
      case pg of
        None \<Rightarrow> map x_id (newest_first rows)
      | Some p \<Rightarrow>
          take (nat (fetch_limit p))
            (filter (\<lambda>i. case pg_after_id p of None \<Rightarrow> True | Some a \<Rightarrow> i < a)
              (map x_id (sort_key (\<lambda>x. - x_id x) rows))))"

definition fetch_event_expenses :: "int \<Rightarrow> page option \<Rightarrow> expense_view list act" where
  "fetch_event_expenses event_id pg =
     andthen (query db_error (\<lambda>w. select_expense_ids event_id pg (db w))) fetch_event_expenses_by_ids"

definition fetch_event_expense_view :: "int \<Rightarrow> expense_view act" where
  "fetch_event_expense_view expense_id =
     andthen (fetch_event_expenses_by_ids [expense_id]) (\<lambda>views.
     case views of [] \<Rightarrow> throw (not_found ''expense_not_found'') | v # _ \<Rightarrow> return v)"

definition list_event_expenses ::
    "request \<Rightarrow> int \<Rightarrow> page_query \<Rightarrow> (expense_view list \<times> string option) answer act" where
  "list_event_expenses req event_id q =
     andthen (events_ensure_event_member req event_id) (\<lambda>_.
     andthen get_state (\<lambda>w.
     andthen (from_result (page_request (enforce_page_defaults (cfg w)) q)) (\<lambda>pg.
     andthen (fetch_event_expenses event_id pg) (\<lambda>views.
     return (Answer 200 (case pg of
         None \<Rightarrow> (views, None)
       | Some p \<Rightarrow> json_page views (pg_limit p) (\<lambda>v. show_int (x_id (xv_expense v)))))))))"

section \<open>Recording an expense\<close>

definition insert_expense :: "(int \<Rightarrow> expense) \<Rightarrow> world \<Rightarrow> (sql_error + int) \<times> world" where
  "insert_expense row w =
     (let (i, w') = nextval ExpenseSeq w; x = row i; d = db w in
      if content_not_allowed w (case x_note x of None \<Rightarrow> [] | Some n \<Rightarrow> [n])
      then (Inl CheckViolation, w')
      else if x_amount_cents x \<le> 0 then (Inl CheckViolation, w')
      else if \<not> exists_where (\<lambda>e. e_id e = x_event_id x) (events d)
              \<or> \<not> exists_where (\<lambda>u. u_id u = x_paid_by x) (users d)
              \<or> \<not> exists_where (\<lambda>u. u_id u = x_created_by x) (users d)
      then (Inl ForeignKeyViolation, w')
      else (Inr i, w'\<lparr>db := d\<lparr>expenses := expenses d @ [x]\<rparr>\<rparr>))"

definition insert_participant :: "int \<Rightarrow> int \<Rightarrow> world \<Rightarrow> (sql_error + unit) \<times> world" where
  "insert_participant expense_id user_id w =
     (let d = db w in
      if exists_where (\<lambda>p. xp_expense_id p = expense_id \<and> xp_user_id p = user_id) (participants d)
      then (Inl UniqueViolation, w)
      else if \<not> exists_where (\<lambda>x. x_id x = expense_id) (expenses d)
              \<or> \<not> exists_where (\<lambda>u. u_id u = user_id) (users d)
      then (Inl ForeignKeyViolation, w)
      else (Inr (), w\<lparr>db := d\<lparr>participants := participants d
        @ [\<lparr>xp_expense_id = expense_id, xp_user_id = user_id, xp_share_weight = 1\<rparr>]\<rparr>\<rparr>))"

definition new_expense :: "int \<Rightarrow> int \<Rightarrow> int \<Rightarrow> string \<Rightarrow> int \<Rightarrow> string option \<Rightarrow> micros \<Rightarrow> micros \<Rightarrow> int \<Rightarrow> expense" where
  "new_expense event_id paid_by created_by title amount note date t i =
     \<lparr>x_id = i, x_event_id = event_id, x_paid_by = paid_by, x_created_by = created_by,
      x_title = title, x_amount_cents = amount, x_note = note, x_date = date, x_created_at = t\<rparr>"

definition create_expense_tx :: "(micros \<Rightarrow> int \<Rightarrow> expense) \<Rightarrow> int list \<Rightarrow> int act" where
  "create_expense_tx row participant_user_ids = transact db_error (
     andthen (stmt (\<lambda>_. db_error) (\<lambda>w. insert_expense (row (clock w)) w)) (\<lambda>expense_id.
     andthen (for_each participant_user_ids (\<lambda>participant_user_id.
       stmt (\<lambda>_. db_error) (insert_participant expense_id participant_user_id))) (\<lambda>_.
     return expense_id)))"

definition expenses_changed :: "int \<Rightarrow> int \<Rightarrow> json" where
  "expenses_changed event_id expense_id = JObj [(''type'', JStr ''event_expenses_changed''),
     (''event_id'', JInt event_id), (''expense_id'', JInt expense_id)]"

definition clean_text :: "string option \<Rightarrow> string option" where
  "clean_text v = (case v of None \<Rightarrow> None | Some s \<Rightarrow> if trim s = [] then None else Some (trim s))"

text \<open>The checks on the payload: the title, the amount, the participants and the payer.\<close>

definition check_expense :: "int \<Rightarrow> int \<Rightarrow> expense_payload \<Rightarrow> (string \<times> int \<times> int list) act" where
  "check_expense event_id requester_id payload =
     (let title = trim (el_title payload);
          participant_user_ids = remdups_adj (sort (el_participant_user_ids payload)) in
      andthen (require (title \<noteq> []) (bad_request ''invalid_payload'')) (\<lambda>_.
      andthen (require (0 < el_amount_cents payload) (bad_request ''invalid_payload'')) (\<lambda>_.
      andthen (require (participant_user_ids \<noteq> []) (bad_request ''invalid_payload'')) (\<lambda>_.
      andthen (fetch_event_member_directory event_id) (\<lambda>members.
      let member_ids = map u_id members;
          paid_by_user_id = (case el_paid_by_user_id payload of Some i \<Rightarrow> i | None \<Rightarrow> requester_id) in
      andthen (require (paid_by_user_id \<in> set member_ids) (bad_request ''invalid_payer'')) (\<lambda>_.
      andthen (require (list_all (\<lambda>i. i \<in> set member_ids) participant_user_ids)
        (bad_request ''invalid_participants'')) (\<lambda>_.
      return (title, paid_by_user_id, participant_user_ids))))))))"

text \<open>What follows the checks: the transaction, the message to the event, the answer.\<close>

definition record_expense ::
    "int \<Rightarrow> int \<Rightarrow> expense_payload \<Rightarrow> string \<times> int \<times> int list \<Rightarrow> expense_view answer act" where
  "record_expense event_id requester_id payload =
     (\<lambda>(title, paid_by_user_id, participant_user_ids).
     andthen now (\<lambda>t.
     let date = (case el_expense_date payload of Some v \<Rightarrow> v | None \<Rightarrow> t) in
     andthen (create_expense_tx (new_expense event_id paid_by_user_id requester_id title
         (el_amount_cents payload) (clean_text (el_note payload)) date) participant_user_ids)
       (\<lambda>expense_id.
     andthen (publish_event event_id (expenses_changed event_id expense_id)) (\<lambda>_.
     andthen (fetch_event_expense_view expense_id) (\<lambda>v.
     return (Answer 201 v))))))"

definition create_event_expense :: "request \<Rightarrow> int \<Rightarrow> expense_payload \<Rightarrow> expense_view answer act" where
  "create_event_expense req event_id payload =
     andthen (extract_active_claims_from_auth req) (\<lambda>claims.
     andthen (events_ensure_event_member req event_id) (\<lambda>_.
     andthen (ensure_event_writable event_id) (\<lambda>_.
     andthen (events_fetch_user_id (u_email claims)) (\<lambda>requester_id.
     andthen (check_expense event_id requester_id payload)
       (record_expense event_id requester_id payload)))))"

section \<open>Deleting an expense\<close>

text \<open>\<open>DELETE FROM event_expenses\<close>: the participant rows go with it (\<open>ON DELETE CASCADE\<close>).\<close>

definition delete_expense_row :: "int \<Rightarrow> int \<Rightarrow> database \<Rightarrow> nat \<times> database" where
  "delete_expense_row event_id expense_id d =
     (let hit = (\<lambda>x. x_id x = expense_id \<and> x_event_id x = event_id) in
      (count_where hit (expenses d),
       if exists_where hit (expenses d)
       then d\<lparr>expenses := delete_where hit (expenses d),
              participants := delete_where (\<lambda>p. xp_expense_id p = expense_id) (participants d)\<rparr>
       else d))"

text \<open>Only the organiser, the payer and the creator of an expense may delete it.\<close>

definition find_deletable :: "int \<Rightarrow> int \<Rightarrow> int \<Rightarrow> expense act" where
  "find_deletable event_id expense_id requester_id =
     andthen (events_fetch_event_owner_id event_id) (\<lambda>owner_id.
     let is_owner = (owner_id = requester_id) in
     andthen (query db_error (\<lambda>w. find (\<lambda>x. x_id x = expense_id \<and> x_event_id x = event_id)
         (expenses (db w)))) (\<lambda>row.
     andthen (some_or row (not_found ''expense_not_found'')) (\<lambda>x.
     andthen (require (\<not> (\<not> is_owner \<and> requester_id \<noteq> x_paid_by x \<and> requester_id \<noteq> x_created_by x))
       (forbidden ''forbidden'')) (\<lambda>_.
     return x))))"

definition remove_expense :: "int \<Rightarrow> int \<Rightarrow> string answer act" where
  "remove_expense event_id expense_id =
     andthen (execute db_error (\<lambda>w. delete_expense_row event_id expense_id (db w))) (\<lambda>rows_affected.
     andthen (require (rows_affected \<noteq> 0) (not_found ''expense_not_found'')) (\<lambda>_.
     andthen (publish_event event_id (expenses_changed event_id expense_id)) (\<lambda>_.
     return (Answer 200 ''deleted''))))"

definition delete_event_expense :: "request \<Rightarrow> int \<Rightarrow> int \<Rightarrow> string answer act" where
  "delete_event_expense req event_id expense_id =
     andthen (extract_active_claims_from_auth req) (\<lambda>claims.
     andthen (events_ensure_event_member req event_id) (\<lambda>_.
     andthen (ensure_event_writable event_id) (\<lambda>_.
     andthen (events_fetch_user_id (u_email claims)) (\<lambda>requester_id.
     andthen (find_deletable event_id expense_id requester_id) (\<lambda>_.
     remove_expense event_id expense_id)))))"

section \<open>The summary\<close>

type_synonym ledger = "(int \<times> int \<times> int) list"

text \<open>\<open>entry(user).or_insert((0, 0))\<close> on what each user paid and owes.\<close>

definition with_entry :: "int \<Rightarrow> (int \<times> int \<Rightarrow> int \<times> int) \<Rightarrow> ledger \<Rightarrow> ledger" where
  "with_entry user_id f m =
     AList.update user_id (f (case map_of m user_id of Some v \<Rightarrow> v | None \<Rightarrow> (0, 0))) m"

definition add_paid :: "int \<Rightarrow> int \<Rightarrow> ledger \<Rightarrow> ledger" where
  "add_paid user_id amount = with_entry user_id (\<lambda>(paid, owed). (wrap64 (paid + amount), owed))"

definition add_owed :: "int \<Rightarrow> int \<Rightarrow> ledger \<Rightarrow> ledger" where
  "add_owed user_id amount = with_entry user_id (\<lambda>(paid, owed). (paid, wrap64 (owed + amount)))"

text \<open>The share of every participant: the first ones, by identifier, bear the remaining cents.\<close>

definition split_amount :: "int \<Rightarrow> int list \<Rightarrow> (int \<times> int) list" where
  "split_amount amount ids =
     (let participant_count = int (length ids);
          share_cents = amount sdiv participant_count;
          remainder = amount smod participant_count in
      map (\<lambda>(index, i). (i, wrap64 (share_cents + (if int index < remainder then 1 else 0))))
        (enumerate 0 ids))"

definition add_expense :: "expense_view \<Rightarrow> ledger \<Rightarrow> ledger" where
  "add_expense v m =
     (let amount = x_amount_cents (xv_expense v);
          ids = remdups_adj (sort (map ev_user_id (xv_participants v)));
          paid = add_paid (x_paid_by (xv_expense v)) amount m in
      if ids = [] then paid
      else fold (\<lambda>(i, share). add_owed i share) (split_amount amount ids) paid)"

definition ledger_of :: "user list \<Rightarrow> expense_view list \<Rightarrow> ledger" where
  "ledger_of members views = fold add_expense views (map (\<lambda>u. (u_id u, 0, 0)) members)"

definition total_cents :: "expense_view list \<Rightarrow> int" where
  "total_cents views = fold (\<lambda>v total. wrap64 (total + x_amount_cents (xv_expense v))) views 0"

definition balance_of :: "user list \<Rightarrow> int \<times> int \<times> int \<Rightarrow> balance_view" where
  "balance_of members = (\<lambda>(user_id, paid, owed).
     let m = find (\<lambda>u. u_id u = user_id) members in
     \<lparr>bv_user_id = user_id, bv_handle = map_option u_handle m,
      bv_avatar_url = Option.bind m u_avatar_url, bv_paid_cents = paid, bv_owed_cents = owed,
      bv_balance_cents = wrap64 (paid - owed)\<rparr>)"

definition sort_balances :: "balance_view list \<Rightarrow> balance_view list" where
  "sort_balances bs = sort_key (\<lambda>b. (- bv_balance_cents b, bv_handle b, bv_user_id b)) bs"

text \<open>
  Creditors and debtors by their position among the balances, with the amount still open.  The loop
  moves two cursors over them; here what a cursor has passed is dropped.
\<close>

definition creditors_of :: "balance_view list \<Rightarrow> (nat \<times> int) list" where
  "creditors_of bs = map (\<lambda>(i, b). (i, bv_balance_cents b))
     (filter (\<lambda>(i, b). 0 < bv_balance_cents b) (enumerate 0 bs))"

definition debtors_of :: "balance_view list \<Rightarrow> (nat \<times> int) list" where
  "debtors_of bs = map (\<lambda>(i, b). (i, wrap64 (- bv_balance_cents b)))
     (filter (\<lambda>(i, b). bv_balance_cents b < 0) (enumerate 0 bs))"

definition open_amount :: "nat \<Rightarrow> int \<Rightarrow> (nat \<times> int) list \<Rightarrow> (nat \<times> int) list" where
  "open_amount i rest others = (if rest = 0 then others else (i, rest) # others)"

function settle :: "(nat \<times> int) list \<Rightarrow> (nat \<times> int) list \<Rightarrow> (nat \<times> nat \<times> int) list" where
  "settle ((c, credit) # cs) ((d, debt) # ds) =
     (let transfer = min credit debt in
      (d, c, transfer) # settle (open_amount c (credit - transfer) cs) (open_amount d (debt - transfer) ds))"
| "settle [] ds = []"
| "settle cs [] = []"
  by pat_completeness auto
termination
  by (relation "measure (\<lambda>(cs, ds). length cs + length ds)") (auto simp: open_amount_def)

definition make_settlement :: "balance_view list \<Rightarrow> nat \<times> nat \<times> int \<Rightarrow> settlement_view" where
  "make_settlement bs = (\<lambda>(d, c, transfer).
     \<lparr>sv_from_user_id = bv_user_id (bs ! d), sv_from_handle = bv_handle (bs ! d),
      sv_to_user_id = bv_user_id (bs ! c), sv_to_handle = bv_handle (bs ! c),
      sv_amount_cents = transfer\<rparr>)"

definition settle_balances :: "balance_view list \<Rightarrow> settlement_view list" where
  "settle_balances bs = map (make_settlement bs) (settle (creditors_of bs) (debtors_of bs))"

definition summarise :: "user list \<Rightarrow> expense_view list \<Rightarrow> expenses_summary" where
  "summarise members views =
     (let balances = sort_balances (map (balance_of members) (ledger_of members views)) in
      \<lparr>es_total_cents = total_cents views, es_balances = balances,
       es_settlements = settle_balances balances\<rparr>)"

definition build_event_expenses_summary :: "int \<Rightarrow> expenses_summary act" where
  "build_event_expenses_summary event_id =
     andthen (fetch_event_timing event_id) (\<lambda>_.
     andthen (fetch_event_member_directory event_id) (\<lambda>members.
     andthen (fetch_event_expenses event_id None) (\<lambda>views.
     return (summarise members views))))"

definition get_event_expenses_summary :: "request \<Rightarrow> int \<Rightarrow> expenses_summary answer act" where
  "get_event_expenses_summary req event_id =
     andthen (events_ensure_event_member req event_id) (\<lambda>_.
     andthen (build_event_expenses_summary event_id) (\<lambda>summary.
     return (Answer 200 summary)))"

end
