(* ===== verification/Items.thy ===== *)
theory Items
  imports Expenses
begin

text \<open>
  What to bring to an event (\<open>src/routes/events/items.rs\<close>) and the catalogue of items
  (\<open>src/routes/items.rs\<close>).  An event asks for a number of an item, members reserve parts of it, and
  the row of the event keeps the sum of the reservations.  Quantities are \<open>i32\<close>; the code adds
  them with wrap-around, which \<open>wrap32\<close> writes out, while PostgreSQL refuses a sum out of range.
\<close>

definition wrap32 :: "int \<Rightarrow> int" where
  "wrap32 x = (x + 2 ^ 31) mod 2 ^ 32 - 2 ^ 31"

section \<open>Payloads and views\<close>

record event_item_view =
  eiv_event_id :: int
  eiv_item_id :: int
  eiv_type_id :: int
  eiv_type_name :: string
  eiv_name_item :: string
  eiv_max_quantity :: int
  eiv_reserved_quantity :: int
  eiv_unit_label :: string
  eiv_item_kind :: item_kind
  eiv_created_by_email :: "string option"
  eiv_created_by_handle :: "string option"
  eiv_created_by_avatar_url :: "string option"

record item_contribution =
  ic_item_id :: int
  ic_quantity :: int
  ic_email :: string
  ic_handle :: string
  ic_avatar_url :: "string option"

record attach_payload =
  ap_item_id :: int
  ap_max_quantity :: int

record custom_item_payload =
  cu_name_item :: string
  cu_max_quantity :: int
  cu_unit_label :: "string option"
  cu_item_kind :: "string option"

record item_payload =
  ip_type_id :: int
  ip_name_item :: string
  ip_max_quantity :: int
  ip_unit_label :: string
  ip_item_kind :: "string option"

record item_patch_payload =
  ipp_type_id :: "int option"
  ipp_name_item :: "string option"
  ipp_max_quantity :: "int option"
  ipp_unit_label :: "string option"
  ipp_item_kind :: "string option"

datatype items_scope = All | Mine | ToCover | Completed

definition normalize_item_kind :: "(string \<Rightarrow> string) \<Rightarrow> string \<Rightarrow> item_kind option" where
  "normalize_item_kind lower v =
     (let normalized = lower (trim v) in
      if normalized = ''need'' then Some Need
      else if normalized = ''bring'' then Some Bring
      else None)"

definition normalize_event_items_scope :: "(string \<Rightarrow> string) \<Rightarrow> string \<Rightarrow> items_scope option" where
  "normalize_event_items_scope lower v =
     (let normalized = lower (trim v) in
      if normalized = ''all'' then Some All
      else if normalized = ''mine'' then Some Mine
      else if normalized = ''to_cover'' then Some ToCover
      else if normalized = ''completed'' then Some Completed
      else None)"

section \<open>Reading\<close>

text \<open>The joins behind a view: an item without its catalogue row or type is not shown.\<close>

definition event_item_view_of :: "database \<Rightarrow> event_item \<Rightarrow> event_item_view option" where
  "event_item_view_of d ei =
     (case find (\<lambda>i. it_id i = ei_item_id ei) (items d) of None \<Rightarrow> None | Some i \<Rightarrow>
      case find (\<lambda>ty. ty_id ty = it_type_id i) (item_types d) of None \<Rightarrow> None | Some ty \<Rightarrow>
      let cu = Option.bind (ei_created_by ei) (\<lambda>u. find (\<lambda>r. u_id r = u) (users d)) in
      Some \<lparr>eiv_event_id = ei_event_id ei, eiv_item_id = ei_item_id ei, eiv_type_id = ty_id ty,
        eiv_type_name = ty_name ty, eiv_name_item = it_name i, eiv_max_quantity = ei_max_quantity ei,
        eiv_reserved_quantity = ei_quantity ei, eiv_unit_label = it_unit_label i,
        eiv_item_kind = it_kind i, eiv_created_by_email = map_option u_email cu,
        eiv_created_by_handle = map_option u_handle cu,
        eiv_created_by_avatar_url = Option.bind cu u_avatar_url\<rparr>)"

definition event_item_views :: "int \<Rightarrow> world \<Rightarrow> event_item_view list" where
  "event_item_views event_id w =
     sort_key (\<lambda>v. (sql_sort_key (cfg w) (eiv_type_name v), sql_sort_key (cfg w) (eiv_name_item v)))
       (List.map_filter (event_item_view_of (db w))
         (filter (\<lambda>ei. ei_event_id ei = event_id) (events_items (db w))))"

definition in_scope :: "items_scope \<Rightarrow> event_item_view \<Rightarrow> bool" where
  "in_scope scope v =
     (case scope of
        All \<Rightarrow> True
      | Mine \<Rightarrow> True
      | ToCover \<Rightarrow> eiv_item_kind v = Need \<and> eiv_reserved_quantity v < eiv_max_quantity v
      | Completed \<Rightarrow> eiv_item_kind v = Need \<and> eiv_reserved_quantity v \<ge> eiv_max_quantity v)"

definition parse_scope :: "string option \<Rightarrow> items_scope act" where
  "parse_scope raw = andthen get_state (\<lambda>w.
     case raw of
       None \<Rightarrow> return All
     | Some v \<Rightarrow> some_or (normalize_event_items_scope (lowercase (cfg w)) v) (bad_request ''invalid_payload''))"

definition retain_mine :: "int \<Rightarrow> (string \<times> int) option \<Rightarrow> event_item_view list \<Rightarrow> event_item_view list act" where
  "retain_mine event_id mine views =
     (case mine of
        None \<Rightarrow> return views
      | Some (email, user_id) \<Rightarrow>
          andthen (query db_error (\<lambda>w. map ui_item_id (filter (\<lambda>r. ui_event_id r = event_id
              \<and> ui_user_id r = user_id) (user_items (db w))))) (\<lambda>contributed_ids.
          return (filter (\<lambda>v. (case eiv_created_by_email v of None \<Rightarrow> False
                                | Some e \<Rightarrow> eq_ignore_ascii_case e email)
              \<or> eiv_item_id v \<in> set contributed_ids) views)))"

definition list_event_items :: "request \<Rightarrow> int \<Rightarrow> string option \<Rightarrow> event_item_view list answer act" where
  "list_event_items req event_id raw_scope =
     andthen (parse_scope raw_scope) (\<lambda>scope.
     andthen (ensure_event_exists event_id) (\<lambda>_.
     andthen (events_ensure_event_member req event_id) (\<lambda>_.
     andthen (if scope = Mine
              then andthen (claims_email req) (\<lambda>email.
                   andthen (events_fetch_user_id email) (\<lambda>user_id. return (Some (email, user_id))))
              else return None) (\<lambda>mine_user.
     andthen (query db_error (event_item_views event_id)) (\<lambda>views.
     andthen (retain_mine event_id mine_user views) (\<lambda>views.
     return (Answer 200 (filter (in_scope scope) views))))))))"

definition contributions :: "int \<Rightarrow> database \<Rightarrow> item_contribution list" where
  "contributions event_id d =
     List.map_filter (\<lambda>r. map_option (\<lambda>u. \<lparr>ic_item_id = ui_item_id r, ic_quantity = ui_quantity r,
         ic_email = u_email u, ic_handle = u_handle u, ic_avatar_url = u_avatar_url u\<rparr>)
         (find (\<lambda>u. u_id u = ui_user_id r) (users d)))
       (filter (\<lambda>r. ui_event_id r = event_id) (user_items d))"

definition list_event_item_contributions :: "request \<Rightarrow> int \<Rightarrow> item_contribution list answer act" where
  "list_event_item_contributions req event_id =
     andthen (events_ensure_event_member req event_id) (\<lambda>_.
     andthen (query db_error (\<lambda>w. contributions event_id (db w))) (\<lambda>rows.
     return (Answer 200 rows)))"

definition fetch_event_item_view :: "int \<Rightarrow> int \<Rightarrow> event_item_view act" where
  "fetch_event_item_view event_id item_id =
     andthen (query db_error (\<lambda>w. Option.bind
         (find (\<lambda>ei. ei_event_id ei = event_id \<and> ei_item_id ei = item_id) (events_items (db w)))
         (event_item_view_of (db w)))) (\<lambda>row.
     some_or row (not_found ''event_item_not_found''))"

definition items_changed :: "int \<Rightarrow> int \<Rightarrow> json" where
  "items_changed event_id item_id = JObj [(''type'', JStr ''event.items.changed''),
     (''event_id'', JInt event_id), (''item_id'', JInt item_id)]"

text \<open>The end of the handlers that change an item: its view, and a message to the event.\<close>

definition answer_with_item :: "int \<Rightarrow> int \<Rightarrow> event_item_view answer act" where
  "answer_with_item event_id item_id =
     andthen (fetch_event_item_view event_id item_id) (\<lambda>view.
     andthen (publish_event event_id (items_changed event_id item_id)) (\<lambda>_.
     return (Answer 200 view)))"

section \<open>Attaching an item to an event\<close>

definition is_event_item :: "int \<Rightarrow> int \<Rightarrow> event_item \<Rightarrow> bool" where
  "is_event_item event_id item_id ei \<longleftrightarrow> ei_event_id ei = event_id \<and> ei_item_id ei = item_id"

definition ensure_item_exists :: "int \<Rightarrow> unit act" where
  "ensure_item_exists item_id =
     andthen (query db_error (\<lambda>w. exists_where (\<lambda>i. it_id i = item_id) (items (db w)))) (\<lambda>present.
     require present (not_found ''item_not_found''))"

text \<open>
  \<open>INSERT .. ON CONFLICT DO UPDATE\<close>: \<open>merge\<close> says what becomes of an existing limit; a result out
  of range is an error of the server, a missing row a violation of a foreign key.
\<close>

definition upsert_event_item ::
    "(int \<Rightarrow> int \<Rightarrow> int) \<Rightarrow> int \<Rightarrow> int \<Rightarrow> int \<Rightarrow> int \<Rightarrow> world \<Rightarrow> (sql_error + unit) \<times> world" where
  "upsert_event_item merge event_id item_id limit creator_id w =
     (let d = db w; hit = is_event_item event_id item_id in
      case find hit (events_items d) of
        Some ei \<Rightarrow>
          if merge (ei_max_quantity ei) limit \<ge> 2 ^ 31 \<or> merge (ei_max_quantity ei) limit \<le> 0
          then (Inl CheckViolation, w)
          else (Inr (), w\<lparr>db := d\<lparr>events_items :=
            update_where hit (\<lambda>r. r\<lparr>ei_max_quantity := merge (ei_max_quantity r) limit\<rparr>) (events_items d)\<rparr>\<rparr>)
      | None \<Rightarrow>
          if limit \<le> 0 then (Inl CheckViolation, w)
          else if \<not> exists_where (\<lambda>e. e_id e = event_id) (events d)
                  \<or> \<not> exists_where (\<lambda>i. it_id i = item_id) (items d)
                  \<or> \<not> exists_where (\<lambda>u. u_id u = creator_id) (users d)
          then (Inl ForeignKeyViolation, w)
          else (Inr (), w\<lparr>db := d\<lparr>events_items := events_items d
            @ [\<lparr>ei_event_id = event_id, ei_item_id = item_id, ei_max_quantity = limit, ei_quantity = 0,
                ei_created_by = Some creator_id\<rparr>]\<rparr>\<rparr>))"

definition attach_error :: "sql_error \<Rightarrow> api_error" where
  "attach_error e = (if e = ForeignKeyViolation then bad_request ''unknown_reference'' else db_error)"

definition attach_event_item :: "request \<Rightarrow> int \<Rightarrow> attach_payload \<Rightarrow> event_item_view answer act" where
  "attach_event_item req event_id payload =
     andthen (events_ensure_event_owner req event_id) (\<lambda>_.
     andthen (ensure_event_writable event_id) (\<lambda>_.
     andthen (claims_email req) (\<lambda>creator_email.
     andthen (require (0 < ap_max_quantity payload) (bad_request ''invalid_payload'')) (\<lambda>_.
     andthen (ensure_event_exists event_id) (\<lambda>_.
     andthen (ensure_item_exists (ap_item_id payload)) (\<lambda>_.
     andthen (events_fetch_user_id creator_email) (\<lambda>creator_id.
     andthen (stmt attach_error (upsert_event_item (\<lambda>_ new. new) event_id (ap_item_id payload)
         (ap_max_quantity payload) creator_id)) (\<lambda>_.
     answer_with_item event_id (ap_item_id payload)))))))))"

section \<open>Custom items\<close>

definition insert_item :: "(int \<Rightarrow> item) \<Rightarrow> world \<Rightarrow> (sql_error + item) \<times> world" where
  "insert_item row w =
     (let (i, w') = nextval ItemSeq w; it = row i; d = db w in
      if content_not_allowed w [it_name it] then (Inl CheckViolation, w')
      else if it_max_quantity it \<le> 0 then (Inl CheckViolation, w')
      else if \<not> exists_where (\<lambda>ty. ty_id ty = it_type_id it) (item_types d) then (Inl ForeignKeyViolation, w')
      else (Inr it, w'\<lparr>db := d\<lparr>items := items d @ [it]\<rparr>\<rparr>))"

text \<open>The type \<open>Autres\<close>, made when it is missing; its name is unique.\<close>

definition upsert_default_type :: "world \<Rightarrow> (sql_error + int) \<times> world" where
  "upsert_default_type w =
     (let (i, w') = nextval TypeSeq w; d = db w in
      case find (\<lambda>ty. ty_name ty = ''Autres'') (item_types d) of
        Some ty \<Rightarrow> (Inr (ty_id ty), w')
      | None \<Rightarrow> (Inr i, w'\<lparr>db := d\<lparr>item_types := item_types d @ [\<lparr>ty_id = i, ty_name = ''Autres''\<rparr>]\<rparr>\<rparr>))"

definition default_type :: "int act" where
  "default_type =
     andthen (query db_error (\<lambda>w. map_option ty_id (find (\<lambda>ty. ty_name ty = ''Autres'') (item_types (db w)))))
       (\<lambda>found. case found of
          Some i \<Rightarrow> return i
        | None \<Rightarrow> stmt (\<lambda>_. db_error) upsert_default_type)"

definition find_same_item :: "int \<Rightarrow> string \<Rightarrow> item_kind \<Rightarrow> world \<Rightarrow> int option" where
  "find_same_item event_id normalized_name kind w =
     map_option ei_item_id (find (\<lambda>ei. ei_event_id ei = event_id
       \<and> exists_where (\<lambda>i. it_id i = ei_item_id ei \<and> sql_lower (cfg w) (it_name i) = normalized_name
            \<and> it_kind i = kind) (items (db w))) (events_items (db w)))"

definition custom_item_tx :: "int \<Rightarrow> int \<Rightarrow> string \<Rightarrow> int \<Rightarrow> string \<Rightarrow> item_kind \<Rightarrow> int act" where
  "custom_item_tx event_id creator_id name limit unit_label kind = transact db_error (
     andthen get_state (\<lambda>w.
     andthen (query db_error (find_same_item event_id (lowercase (cfg w) name) kind)) (\<lambda>existing.
     andthen (case existing of
         Some item_id \<Rightarrow> return item_id
       | None \<Rightarrow>
           andthen default_type (\<lambda>type_id.
           andthen (stmt (\<lambda>_. db_error) (insert_item (\<lambda>i. \<lparr>it_id = i, it_type_id = type_id, it_name = name,
             it_max_quantity = limit, it_unit_label = unit_label, it_kind = kind\<rparr>))) (\<lambda>it.
           return (it_id it)))) (\<lambda>item_id.
     andthen (stmt (\<lambda>_. db_error) (upsert_event_item (+) event_id item_id limit creator_id)) (\<lambda>_.
     return item_id)))))"

text \<open>The checks on the payload: the name and the limit, the unit, and the kind of item.\<close>

definition check_custom_item :: "bool \<Rightarrow> custom_item_payload \<Rightarrow> (string \<times> string \<times> item_kind) act" where
  "check_custom_item is_owner payload =
     (let name = trim (cu_name_item payload);
          unit_label = (case clean_text (cu_unit_label payload) of
             Some v \<Rightarrow> v | None \<Rightarrow> ''pi'' @ [CHR 0xC3, CHR 0xA8] @ ''ce'') in
      andthen (require (\<not> (name = [] \<or> cu_max_quantity payload \<le> 0)) (bad_request ''invalid_payload'')) (\<lambda>_.
      andthen get_state (\<lambda>w.
      andthen (case cu_item_kind payload of
          Some raw \<Rightarrow> some_or (normalize_item_kind (lowercase (cfg w)) raw) (bad_request ''invalid_payload'')
        | None \<Rightarrow> return (if is_owner then Need else Bring)) (\<lambda>kind.
      andthen (require (\<not> (kind = Need \<and> \<not> is_owner)) (forbidden ''forbidden'')) (\<lambda>_.
      return (name, unit_label, kind))))))"

definition create_custom_event_item :: "request \<Rightarrow> int \<Rightarrow> custom_item_payload \<Rightarrow> event_item_view answer act" where
  "create_custom_event_item req event_id payload =
     andthen (events_ensure_event_member req event_id) (\<lambda>_.
     andthen (ensure_event_writable event_id) (\<lambda>_.
     andthen (claims_email req) (\<lambda>creator_email.
     andthen (events_fetch_user_id creator_email) (\<lambda>creator_id.
     andthen (events_fetch_event_owner_id event_id) (\<lambda>owner_id.
     andthen (check_custom_item (owner_id = creator_id) payload) (\<lambda>(name, unit_label, kind).
     andthen (custom_item_tx event_id creator_id name (cu_max_quantity payload) unit_label kind)
       (answer_with_item event_id)))))))"

section \<open>Reserving\<close>

definition is_reservation :: "int \<Rightarrow> int \<Rightarrow> int \<Rightarrow> user_item \<Rightarrow> bool" where
  "is_reservation user_id event_id item_id r \<longleftrightarrow>
     ui_user_id r = user_id \<and> ui_event_id r = event_id \<and> ui_item_id r = item_id"

text \<open>What the transaction checks: the new sum of the reservations, from the row of the item and the user's own.\<close>

definition check_reservation :: "int \<Rightarrow> int \<Rightarrow> int \<Rightarrow> int \<Rightarrow> int act" where
  "check_reservation user_id event_id item_id requested =
     andthen (query db_error (\<lambda>w. find (is_event_item event_id item_id) (events_items (db w)))) (\<lambda>row.
     andthen (some_or row (not_found ''event_item_not_found'')) (\<lambda>ei.
     andthen (query db_error (\<lambda>w. find (is_reservation user_id event_id item_id) (user_items (db w)))) (\<lambda>mine.
     let existing_user_qty = (case mine of None \<Rightarrow> 0 | Some r \<Rightarrow> ui_quantity r);
         new_total = wrap32 (wrap32 (ei_quantity ei - existing_user_qty) + requested) in
     andthen (require (\<not> (new_total < 0 \<or> new_total > ei_max_quantity ei)) (bad_request ''invalid_quantity'')) (\<lambda>_.
     return new_total))))"

definition delete_reservation :: "int \<Rightarrow> int \<Rightarrow> int \<Rightarrow> database \<Rightarrow> database" where
  "delete_reservation user_id event_id item_id d =
     d\<lparr>user_items := delete_where (is_reservation user_id event_id item_id) (user_items d)\<rparr>"

definition upsert_reservation :: "int \<Rightarrow> int \<Rightarrow> int \<Rightarrow> int \<Rightarrow> world \<Rightarrow> (sql_error + unit) \<times> world" where
  "upsert_reservation user_id event_id item_id requested w =
     (let d = db w; hit = is_reservation user_id event_id item_id in
      if requested \<le> 0 then (Inl CheckViolation, w)
      else if exists_where hit (user_items d)
      then (Inr (), w\<lparr>db := d\<lparr>user_items :=
             update_where hit (\<lambda>r. r\<lparr>ui_quantity := requested\<rparr>) (user_items d)\<rparr>\<rparr>)
      else if \<not> exists_where (\<lambda>u. u_id u = user_id) (users d)
              \<or> \<not> exists_where (is_event_item event_id item_id) (events_items d)
      then (Inl ForeignKeyViolation, w)
      else (Inr (), w\<lparr>db := d\<lparr>user_items := user_items d
             @ [\<lparr>ui_user_id = user_id, ui_event_id = event_id, ui_item_id = item_id, ui_quantity = requested\<rparr>]\<rparr>\<rparr>))"

definition set_quantity :: "int \<Rightarrow> int \<Rightarrow> int \<Rightarrow> database \<Rightarrow> database" where
  "set_quantity event_id item_id new_total d =
     d\<lparr>events_items := update_where (is_event_item event_id item_id) (\<lambda>r. r\<lparr>ei_quantity := new_total\<rparr>) (events_items d)\<rparr>"

definition reserve_tx :: "int \<Rightarrow> int \<Rightarrow> int \<Rightarrow> int \<Rightarrow> unit act" where
  "reserve_tx user_id event_id item_id requested = transact db_error (
     andthen (check_reservation user_id event_id item_id requested) (\<lambda>new_total.
     andthen (if requested = 0
              then execute db_error (\<lambda>w. ((), delete_reservation user_id event_id item_id (db w)))
              else stmt (\<lambda>_. db_error) (upsert_reservation user_id event_id item_id requested)) (\<lambda>_.
     execute db_error (\<lambda>w. ((), set_quantity event_id item_id new_total (db w))))))"

definition reserve_event_item :: "request \<Rightarrow> int \<Rightarrow> int \<Rightarrow> int \<Rightarrow> event_item_view answer act" where
  "reserve_event_item req event_id item_id requested =
     andthen (extract_active_claims_from_auth req) (\<lambda>claims.
     andthen (events_ensure_event_member req event_id) (\<lambda>_.
     andthen (require (\<not> requested < 0) (bad_request ''invalid_payload'')) (\<lambda>_.
     andthen (events_fetch_user_id (u_email claims)) (\<lambda>user_id.
     andthen (ensure_event_exists event_id) (\<lambda>_.
     andthen (ensure_event_writable event_id) (\<lambda>_.
     andthen (reserve_tx user_id event_id item_id requested) (\<lambda>_.
     answer_with_item event_id item_id)))))))"

section \<open>Taking an item off an event\<close>

definition delete_event_item_rows :: "int \<Rightarrow> int \<Rightarrow> unit act" where
  "delete_event_item_rows event_id item_id =
     andthen (execute db_error (\<lambda>w. ((), (db w)\<lparr>user_items :=
         delete_where (\<lambda>r. ui_event_id r = event_id \<and> ui_item_id r = item_id) (user_items (db w))\<rparr>))) (\<lambda>_.
     execute db_error (\<lambda>w. ((), (db w)\<lparr>
         user_items := delete_where (\<lambda>r. ui_event_id r = event_id \<and> ui_item_id r = item_id) (user_items (db w)),
         events_items := delete_where (is_event_item event_id item_id) (events_items (db w))\<rparr>)))"

definition check_item_creator :: "int \<Rightarrow> int \<Rightarrow> int \<Rightarrow> int \<Rightarrow> unit act" where
  "check_item_creator user_id owner_id event_id item_id =
     andthen (query db_error (\<lambda>w. find (is_event_item event_id item_id) (events_items (db w)))) (\<lambda>row.
     andthen (some_or row (not_found ''event_item_not_found'')) (\<lambda>ei.
     let is_owner = (owner_id = user_id); is_creator = (ei_created_by ei = Some user_id) in
     require (\<not> (\<not> is_owner \<and> \<not> is_creator)) (forbidden ''forbidden'')))"

definition delete_event_item_tx :: "int \<Rightarrow> int \<Rightarrow> int \<Rightarrow> int \<Rightarrow> unit act" where
  "delete_event_item_tx user_id owner_id event_id item_id = transact db_error (
     andthen (check_item_creator user_id owner_id event_id item_id) (\<lambda>_.
     delete_event_item_rows event_id item_id))"

definition delete_event_item :: "request \<Rightarrow> int \<Rightarrow> int \<Rightarrow> string answer act" where
  "delete_event_item req event_id item_id =
     andthen (extract_active_claims_from_auth req) (\<lambda>claims.
     andthen (events_fetch_user_id (u_email claims)) (\<lambda>user_id.
     andthen (ensure_event_exists event_id) (\<lambda>_.
     andthen (ensure_event_writable event_id) (\<lambda>_.
     andthen (events_fetch_event_owner_id event_id) (\<lambda>owner_id.
     andthen (delete_event_item_tx user_id owner_id event_id item_id) (\<lambda>_.
     andthen (publish_event event_id (items_changed event_id item_id)) (\<lambda>_.
     return (Answer 200 ''deleted''))))))))"

section \<open>The catalogue\<close>

definition ensure_admin :: "request \<Rightarrow> unit act" where
  "ensure_admin req =
     andthen (extract_active_claims_from_auth req) (\<lambda>claims.
     andthen get_state (\<lambda>w.
     andthen (require (admin_emails (cfg w) \<noteq> []) (forbidden ''forbidden'')) (\<lambda>_.
     require (lowercase (cfg w) (u_email claims) \<in> set (admin_emails (cfg w))) (forbidden ''forbidden''))))"

definition list_items :: "item list answer act" where
  "list_items = andthen (query db_error (\<lambda>w. sort_key it_id (items (db w)))) (\<lambda>rows. return (Answer 200 rows))"

definition catalogue_error :: "sql_error \<Rightarrow> api_error" where
  "catalogue_error e = (if e = ForeignKeyViolation then bad_request ''unknown_type_id'' else db_error)"

definition parse_kind :: "string option \<Rightarrow> item_kind option act" where
  "parse_kind raw = andthen get_state (\<lambda>w.
     case raw of
       None \<Rightarrow> return None
     | Some v \<Rightarrow> andthen (some_or (normalize_item_kind (lowercase (cfg w)) v) (bad_request ''invalid_payload''))
                  (\<lambda>k. return (Some k)))"

definition check_item_payload :: "item_payload \<Rightarrow> unit act" where
  "check_item_payload payload =
     require (\<not> (trim (ip_name_item payload) = [] \<or> ip_max_quantity payload \<le> 0 \<or> trim (ip_unit_label payload) = []))
       (bad_request ''invalid_payload'')"

definition create_item :: "request \<Rightarrow> item_payload \<Rightarrow> item answer act" where
  "create_item req payload =
     andthen (ensure_admin req) (\<lambda>_.
     andthen (check_item_payload payload) (\<lambda>_.
     andthen (parse_kind (ip_item_kind payload)) (\<lambda>kind.
     andthen (stmt catalogue_error (insert_item (\<lambda>i. \<lparr>it_id = i, it_type_id = ip_type_id payload,
         it_name = trim (ip_name_item payload), it_max_quantity = ip_max_quantity payload,
         it_unit_label = trim (ip_unit_label payload),
         it_kind = (case kind of Some k \<Rightarrow> k | None \<Rightarrow> Need)\<rparr>))) (\<lambda>it.
     return (Answer 201 it)))))"

text \<open>
  \<open>UPDATE items .. RETURNING\<close>: the filter of the text looks at the name when it changes.
\<close>

definition update_item_row :: "int \<Rightarrow> (item \<Rightarrow> item) \<Rightarrow> world \<Rightarrow> (sql_error + item option) \<times> world" where
  "update_item_row item_id change w =
     (let d = db w in
      case find (\<lambda>i. it_id i = item_id) (items d) of
        None \<Rightarrow> (Inr None, w)
      | Some old \<Rightarrow>
          if it_name (change old) \<noteq> it_name old \<and> content_not_allowed w [it_name (change old)]
          then (Inl CheckViolation, w)
          else if it_max_quantity (change old) \<le> 0 then (Inl CheckViolation, w)
          else if \<not> exists_where (\<lambda>ty. ty_id ty = it_type_id (change old)) (item_types d)
          then (Inl ForeignKeyViolation, w)
          else (Inr (Some (change old)),
                w\<lparr>db := d\<lparr>items := update_where (\<lambda>i. it_id i = item_id) change (items d)\<rparr>\<rparr>))"

text \<open>The earlier kind is read for a log line only; a missing item is found out here already.\<close>

definition check_previous_kind :: "int \<Rightarrow> item_kind option \<Rightarrow> unit act" where
  "check_previous_kind item_id kind =
     (if kind = None then return ()
      else andthen (query db_error (\<lambda>w. find (\<lambda>i. it_id i = item_id) (items (db w)))) (\<lambda>row.
        andthen (some_or row (not_found ''item_not_found'')) (\<lambda>_. return ())))"

definition store_item :: "int \<Rightarrow> (item \<Rightarrow> item) \<Rightarrow> item answer act" where
  "store_item item_id change =
     andthen (stmt catalogue_error (update_item_row item_id change)) (\<lambda>row.
     andthen (some_or row (not_found ''item_not_found'')) (\<lambda>it.
     return (Answer 200 it)))"

definition replace_item :: "request \<Rightarrow> int \<Rightarrow> item_payload \<Rightarrow> item answer act" where
  "replace_item req item_id payload =
     andthen (ensure_admin req) (\<lambda>_.
     andthen (check_item_payload payload) (\<lambda>_.
     andthen (parse_kind (ip_item_kind payload)) (\<lambda>kind.
     andthen (check_previous_kind item_id kind) (\<lambda>_.
     store_item item_id (\<lambda>i. i\<lparr>it_type_id := ip_type_id payload, it_name := trim (ip_name_item payload),
       it_max_quantity := ip_max_quantity payload, it_unit_label := trim (ip_unit_label payload),
       it_kind := (case kind of Some k \<Rightarrow> k | None \<Rightarrow> it_kind i)\<rparr>)))))"

definition check_item_patch :: "item_patch_payload \<Rightarrow> unit act" where
  "check_item_patch p =
     andthen (require (case ipp_name_item p of None \<Rightarrow> True | Some v \<Rightarrow> trim v \<noteq> []) (bad_request ''invalid_payload'')) (\<lambda>_.
     andthen (require (case ipp_max_quantity p of None \<Rightarrow> True | Some q \<Rightarrow> \<not> q \<le> 0) (bad_request ''invalid_payload'')) (\<lambda>_.
     require (case ipp_unit_label p of None \<Rightarrow> True | Some v \<Rightarrow> trim v \<noteq> []) (bad_request ''invalid_payload'')))"

definition update_item :: "request \<Rightarrow> int \<Rightarrow> item_patch_payload \<Rightarrow> item answer act" where
  "update_item req item_id p =
     andthen (ensure_admin req) (\<lambda>_.
     andthen (check_item_patch p) (\<lambda>_.
     andthen (parse_kind (ipp_item_kind p)) (\<lambda>kind.
     andthen (check_previous_kind item_id kind) (\<lambda>_.
     store_item item_id (\<lambda>i. i\<lparr>
       it_type_id := (case ipp_type_id p of Some v \<Rightarrow> v | None \<Rightarrow> it_type_id i),
       it_name := (case clean_text (ipp_name_item p) of Some v \<Rightarrow> v | None \<Rightarrow> it_name i),
       it_max_quantity := (case ipp_max_quantity p of Some v \<Rightarrow> v | None \<Rightarrow> it_max_quantity i),
       it_unit_label := (case clean_text (ipp_unit_label p) of Some v \<Rightarrow> v | None \<Rightarrow> it_unit_label i),
       it_kind := (case kind of Some k \<Rightarrow> k | None \<Rightarrow> it_kind i)\<rparr>)))))"

text \<open>An item leaves the events it was attached to, with the reservations (\<open>ON DELETE CASCADE\<close>).\<close>

definition delete_item_row :: "int \<Rightarrow> database \<Rightarrow> nat \<times> database" where
  "delete_item_row item_id d =
     (count_where (\<lambda>i. it_id i = item_id) (items d),
      if exists_where (\<lambda>i. it_id i = item_id) (items d)
      then d\<lparr>items := delete_where (\<lambda>i. it_id i = item_id) (items d),
             events_items := delete_where (\<lambda>r. ei_item_id r = item_id) (events_items d),
             user_items := delete_where (\<lambda>r. ui_item_id r = item_id
               \<and> exists_where (is_event_item (ui_event_id r) item_id) (events_items d)) (user_items d)\<rparr>
      else d)"

definition delete_item :: "request \<Rightarrow> int \<Rightarrow> string answer act" where
  "delete_item req item_id =
     andthen (ensure_admin req) (\<lambda>_.
     andthen (execute db_error (\<lambda>w. delete_item_row item_id (db w))) (\<lambda>rows_affected.
     andthen (require (rows_affected \<noteq> 0) (not_found ''item_not_found'')) (\<lambda>_.
     return (Answer 200 ''deleted''))))"

end
