(* ===== verification/Event_View.thy ===== *)
theory Event_View
  imports Access
begin

text \<open>
  An event as the handlers answer it: its row, the part of its life it is in, and the e-mail address
  of its organiser (\<open>event_projection\<close> of \<open>src/routes/events/mod.rs\<close>).  \<open>CURRENT_DATE\<close> and
  \<open>Utc::now().date_naive()\<close> are the same day, since the database runs in UTC.
\<close>

definition day_of :: "micros \<Rightarrow> int" where
  "day_of t = t div days 1"

record event_view =
  evw_event :: event
  evw_lifecycle_status :: lifecycle_status
  evw_owner_email :: string

definition event_projection :: "micros \<Rightarrow> event \<Rightarrow> user \<Rightarrow> event_view" where
  "event_projection t e owner =
     \<lparr>evw_event = e,
      evw_lifecycle_status = (if t < e_starts_at e then Upcoming
        else if t \<le> e_effective_ends_at e then Ongoing else Finished),
      evw_owner_email = u_email owner\<rparr>"

text \<open>\<open>FROM events e JOIN users owner ON owner.id = e.owner_user_id\<close>, for one row.\<close>

definition with_owner :: "world \<Rightarrow> event \<Rightarrow> event_view option" where
  "with_owner w e = map_option (event_projection (clock w) e) (find (\<lambda>u. u_id u = e_owner_id e) (users (db w)))"

definition select_event :: "world \<Rightarrow> int \<Rightarrow> event_view option" where
  "select_event w event_id = Option.bind (find (\<lambda>e. e_id e = event_id) (events (db w))) (with_owner w)"

text \<open>The deadline for an answer has passed.\<close>

definition deadline_passed :: "int \<Rightarrow> event \<Rightarrow> bool" where
  "deadline_passed today e \<longleftrightarrow> (case e_invitation_deadline e of None \<Rightarrow> False | Some limit \<Rightarrow> today > limit)"

end
