(* ===== verification/Avatars.thy ===== *)
theory Avatars
  imports Outbox
begin

text \<open>
  The files behind the avatars (\<open>avatar_storage_path\<close> and \<open>cleanup_avatar_file\<close> of
  \<open>src/routes/users.rs\<close>).  A file is known by its name in the directory of uploads.
\<close>

definition strip_prefix :: "string \<Rightarrow> string \<Rightarrow> string option" where
  "strip_prefix p s = (if starts_with p s then Some (drop (length p) s) else None)"

definition avatar_storage_path :: "string \<Rightarrow> string \<Rightarrow> string option" where
  "avatar_storage_path base_url avatar_url =
     (let base = trim_end_char CHR ''/'' base_url in
      Option.bind (Option.bind (strip_prefix base avatar_url) (strip_prefix ''/'')) (\<lambda>filename.
      if filename = [] \<or> CHR ''/'' \<in> set filename \<or> CHR 0x5C \<in> set filename \<or> has_sub ''..'' filename
      then None else Some filename))"

text \<open>A file that cannot be removed stays; the request goes on.\<close>

definition cleanup_avatar_file :: "string option \<Rightarrow> unit act" where
  "cleanup_avatar_file avatar_url = (\<lambda>w.
     case avatar_url of
       None \<Rightarrow> (Inr (), w)
     | Some url \<Rightarrow>
         (case avatar_storage_path (avatar_base_url (cfg w)) url of
            None \<Rightarrow> (Inr (), w)
          | Some filename \<Rightarrow>
              (Inr (), if fault w then tick w
                 else (tick w)\<lparr>avatar_files := filter (\<lambda>f. f \<noteq> filename) (avatar_files w)\<rparr>)))"

lemma quiet_cleanup_avatar [quiet_intros]: "quiet (cleanup_avatar_file url)"
  by (auto simp: quiet_def cleanup_avatar_file_def same_data_def split: option.split)

lemma wp_cleanup_avatar:
  assumes "\<And>w'. same_data w w' \<Longrightarrow> Q () w'"
  shows "wp (cleanup_avatar_file url) Q E w"
  using assms by (auto simp: wp_def cleanup_avatar_file_def same_data_def split: option.split)

end
