(* ===== verification/Account.thy ===== *)
theory Account
  imports Items Event_View Avatars
begin

text \<open>
  Deleting an account (\<open>delete_account\<close> of \<open>src/routes/users.rs\<close>) and the periodic clean-up
  (\<open>src/cleanup.rs\<close>), with what the foreign keys of the tables do when users and events go.
\<close>

section \<open>Cascades\<close>

text \<open>What goes with some events, users staying (\<open>ON DELETE CASCADE\<close> on \<open>event_id\<close>).\<close>

definition delete_events :: "(event \<Rightarrow> bool) \<Rightarrow> database \<Rightarrow> database" where
  "delete_events doomed d =
     (let evs = map e_id (filter doomed (events d));
          cars = map c_id (filter (\<lambda>c. c_event_id c \<in> set evs) (carpools d));
          exps = map x_id (filter (\<lambda>x. x_event_id x \<in> set evs) (expenses d));
          pls = map p_id (filter (\<lambda>p. p_event_id p \<in> set evs) (polls d));
          opts = map o_id (filter (\<lambda>r. o_poll_id r \<in> set pls) (poll_options d)) in
      d\<lparr>events := delete_where doomed (events d),
        invitations := delete_where (\<lambda>i. i_event_id i \<in> set evs) (invitations d),
        carpools := delete_where (\<lambda>c. c_event_id c \<in> set evs) (carpools d),
        passengers := delete_where (\<lambda>p. cp_carpool_id p \<in> set cars) (passengers d),
        expenses := delete_where (\<lambda>x. x_event_id x \<in> set evs) (expenses d),
        participants := delete_where (\<lambda>p. xp_expense_id p \<in> set exps) (participants d),
        polls := delete_where (\<lambda>p. p_event_id p \<in> set evs) (polls d),
        poll_options := delete_where (\<lambda>r. o_poll_id r \<in> set pls) (poll_options d),
        poll_votes := delete_where (\<lambda>v. v_poll_id v \<in> set pls \<or> v_option_id v \<in> set opts) (poll_votes d),
        share_tokens := delete_where (\<lambda>t. st_event_id t \<in> set evs) (share_tokens d),
        checkins := delete_where (\<lambda>k. k_event_id k \<in> set evs) (checkins d),
        events_items := delete_where (\<lambda>r. ei_event_id r \<in> set evs) (events_items d),
        user_items := delete_where (\<lambda>r. ui_event_id r \<in> set evs
          \<and> exists_where (is_event_item (ui_event_id r) (ui_item_id r)) (events_items d)) (user_items d),
        abuse_reports := update_where (\<lambda>r. case ab_event_id r of None \<Rightarrow> False | Some i \<Rightarrow> i \<in> set evs)
          (\<lambda>r. r\<lparr>ab_event_id := None\<rparr>) (abuse_reports d)\<rparr>)"

text \<open>What goes with a user, besides the user's events.\<close>

definition delete_user_rows :: "int \<Rightarrow> database \<Rightarrow> database" where
  "delete_user_rows u d =
     (let cars = map c_id (filter (\<lambda>c. c_driver_id c = u) (carpools d));
          exps = map x_id (filter (\<lambda>x. x_paid_by x = u \<or> x_created_by x = u) (expenses d)) in
      d\<lparr>users := delete_where (\<lambda>r. u_id r = u) (users d),
        invitations := delete_where (\<lambda>i. i_user_id i = u) (invitations d),
        carpools := delete_where (\<lambda>c. c_driver_id c = u) (carpools d),
        passengers := delete_where (\<lambda>p. cp_user_id p = u \<or> cp_carpool_id p \<in> set cars) (passengers d),
        expenses := delete_where (\<lambda>x. x_paid_by x = u \<or> x_created_by x = u) (expenses d),
        participants := delete_where (\<lambda>p. xp_user_id p = u \<or> xp_expense_id p \<in> set exps) (participants d),
        polls := update_where (\<lambda>p. p_created_by p = Some u) (\<lambda>p. p\<lparr>p_created_by := None\<rparr>) (polls d),
        poll_votes := delete_where (\<lambda>v. v_user_id v = u) (poll_votes d),
        friendships := delete_where (\<lambda>f. fs_user_a f = u \<or> fs_user_b f = u) (friendships d),
        friend_requests := delete_where (\<lambda>r. fr_sender_id r = u \<or> fr_receiver_id r = u) (friend_requests d),
        user_blocks := delete_where (\<lambda>b. ub_blocker_id b = u \<or> ub_blocked_id b = u) (user_blocks d),
        share_tokens := map (\<lambda>t. t\<lparr>st_created_by := (if st_created_by t = Some u then None else st_created_by t),
            st_used_by := (if st_used_by t = Some u then None else st_used_by t)\<rparr>) (share_tokens d),
        checkins := update_where (\<lambda>k. k_scanned_by k = Some u) (\<lambda>k. k\<lparr>k_scanned_by := None\<rparr>)
          (delete_where (\<lambda>k. k_user_id k = u) (checkins d)),
        events_items := update_where (\<lambda>r. ei_created_by r = Some u) (\<lambda>r. r\<lparr>ei_created_by := None\<rparr>) (events_items d),
        user_items := delete_where (\<lambda>r. ui_user_id r = u) (user_items d),
        outbox := delete_where (\<lambda>n. n_user_id n = u) (outbox d),
        user_devices := delete_where (\<lambda>v. d_user_id v = u) (user_devices d),
        apple_credentials := delete_where (\<lambda>a. ac_user_id a = u) (apple_credentials d),
        oauth_identities := delete_where (\<lambda>i. oi_user_id i = u) (oauth_identities d),
        mobile_sessions := delete_where (\<lambda>s. ms_user_id s = u) (mobile_sessions d),
        password_resets := delete_where (\<lambda>p. pw_user_id p = u) (password_resets d),
        abuse_reports := map (\<lambda>r. r\<lparr>ab_reporter_id := (if ab_reporter_id r = Some u then None else ab_reporter_id r),
            ab_target_id := (if ab_target_id r = Some u then None else ab_target_id r)\<rparr>) (abuse_reports d)\<rparr>)"

text \<open>\<open>DELETE FROM users WHERE id=$1\<close>\<close>

definition delete_user :: "int \<Rightarrow> database \<Rightarrow> database" where
  "delete_user u d = delete_user_rows u (delete_events (\<lambda>e. e_owner_id e = u) d)"

section \<open>Deleting the account\<close>

definition unavailable :: api_error where
  "unavailable = ApiError 503 []"

definition needs_apple :: "int \<Rightarrow> database \<Rightarrow> bool" where
  "needs_apple u d \<longleftrightarrow> exists_where (\<lambda>i. oi_user_id i = u \<and> oi_provider i = ''apple'') (oauth_identities d)
     \<and> \<not> exists_where (\<lambda>a. ac_user_id a = u) (apple_credentials d)"

definition queue_revocations :: "int \<Rightarrow> database \<Rightarrow> database" where
  "queue_revocations u d = d\<lparr>apple_revocations := apple_revocations d
     @ map (\<lambda>a. (ac_client_id a, ac_refresh_token a)) (filter (\<lambda>a. ac_user_id a = u) (apple_credentials d))\<rparr>"

definition affected_items :: "int \<Rightarrow> database \<Rightarrow> (int \<times> int) list" where
  "affected_items u d = sort (map (\<lambda>r. (ei_event_id r, ei_item_id r)) (filter (\<lambda>r. ei_created_by r = Some u
     \<or> exists_where (is_reservation u (ei_event_id r) (ei_item_id r)) (user_items d)) (events_items d)))"

definition delete_own_reservations :: "int \<Rightarrow> database \<Rightarrow> database" where
  "delete_own_reservations u d = d\<lparr>user_items := delete_where (\<lambda>r. ui_user_id r = u) (user_items d)\<rparr>"

text \<open>\<open>COALESCE(SUM(quantity),0)::INT\<close>; the cast fails out of the range of \<open>INT\<close>.\<close>

definition sum_reserved :: "int \<times> int \<Rightarrow> world \<Rightarrow> (sql_error + unit) \<times> world" where
  "sum_reserved = (\<lambda>(event_id, item_id) w.
     (let total = sum_list (map ui_quantity (filter (\<lambda>r. ui_event_id r = event_id \<and> ui_item_id r = item_id)
            (user_items (db w)))) in
      if total \<ge> 2 ^ 31 then (Inl CheckViolation, w)
      else (Inr (), w\<lparr>db := set_quantity event_id item_id total (db w)\<rparr>)))"

text \<open>Personal brings disappear with their author, and the reservations of others on them.\<close>

definition delete_brings :: "int \<Rightarrow> database \<Rightarrow> database" where
  "delete_brings u d =
     (let doomed = (\<lambda>r. ei_created_by r = Some u
          \<and> exists_where (\<lambda>i. it_id i = ei_item_id r \<and> it_kind i = Bring) (items d)) in
      d\<lparr>events_items := delete_where doomed (events_items d),
        user_items := delete_where (\<lambda>s. exists_where (\<lambda>r. doomed r
          \<and> is_event_item (ui_event_id s) (ui_item_id s) r) (events_items d)) (user_items d)\<rparr>)"

definition delete_account_tx :: "user \<Rightarrow> (string option option \<times> (int \<times> int) list) act" where
  "delete_account_tx claims = transact unavailable (
     andthen (attempt (query unavailable (\<lambda>w. map_option u_id (user_by_email w (u_email claims))))) (\<lambda>row.
     andthen (some_or (Option.bind row id) (not_found [])) (\<lambda>user_id.
     andthen (query unavailable (\<lambda>w. needs_apple user_id (db w))) (\<lambda>needs.
     andthen (require (\<not> needs) (conflict ''apple_reauthentication_required'')) (\<lambda>_.
     andthen (execute unavailable (\<lambda>w. ((), queue_revocations user_id (db w)))) (\<lambda>_.
     andthen (query unavailable (\<lambda>w. affected_items user_id (db w))) (\<lambda>affected.
     andthen (execute unavailable (\<lambda>w. ((), delete_own_reservations user_id (db w)))) (\<lambda>_.
     andthen (for_each affected (\<lambda>key. stmt (\<lambda>_. unavailable) (sum_reserved key))) (\<lambda>_.
     andthen (execute unavailable (\<lambda>w. ((), delete_brings user_id (db w)))) (\<lambda>_.
     andthen (execute unavailable (\<lambda>w.
         (map_option u_avatar_url (find (\<lambda>r. u_id r = user_id) (users (db w))), delete_user user_id (db w)))) (\<lambda>row.
     return (row, affected))))))))))))"

text \<open>The avatar file is deleted afterwards, and the cookie of the session is cleared.\<close>

definition delete_account :: "request \<Rightarrow> string answer act" where
  "delete_account req =
     andthen (extract_authenticated_user req) (\<lambda>claims.
     andthen (delete_account_tx claims) (\<lambda>(row, affected).
     andthen (some_or row (not_found ''user_not_found'')) (\<lambda>avatar_url.
     andthen (cleanup_avatar_file avatar_url) (\<lambda>_.
     andthen (for_each (remdups_adj (sort (map fst affected)))
       (\<lambda>event_id. publish_event_type event_id ''event.items.changed'')) (\<lambda>_.
     return (Answer 200 ''account_deleted''))))))"

section \<open>The periodic clean-up\<close>

text \<open>Invitations still waiting after the deadline of their event; \<open>today\<close> is \<open>CURRENT_DATE\<close>.\<close>

definition expire_invitations :: "int \<Rightarrow> database \<Rightarrow> database" where
  "expire_invitations today d = d\<lparr>invitations := update_where
     (\<lambda>i. i_status i = Waiting \<and> exists_where (\<lambda>e. e_id e = i_event_id i
        \<and> (case e_invitation_deadline e of None \<Rightarrow> False | Some dl \<Rightarrow> today > dl)) (events d))
     (\<lambda>i. i\<lparr>i_status := Expired\<rparr>) (invitations d)\<rparr>"

definition old_session :: "micros \<Rightarrow> mobile_session \<Rightarrow> bool" where
  "old_session t s \<longleftrightarrow> ms_expires_at s \<le> t \<or> ms_created_at s + days 365 \<le> t"

definition cleanup_auth_state :: "unit act" where
  "cleanup_auth_state =
     andthen cleanup_expired_revoked_tokens (\<lambda>_.
     andthen (execute db_error (\<lambda>w. ((), (db w)\<lparr>mobile_sessions :=
       delete_where (old_session (clock w)) (mobile_sessions (db w))\<rparr>))) (\<lambda>_.
     andthen (execute db_error (\<lambda>w. ((), (db w)\<lparr>password_resets :=
       delete_where (\<lambda>p. pw_expires_at p \<le> clock w) (password_resets (db w))\<rparr>))) (\<lambda>_.
     execute db_error (\<lambda>w. ((), expire_invitations (day_of (clock w)) (db w))))))"

definition trash_events :: "micros \<Rightarrow> int \<Rightarrow> int \<Rightarrow> database \<Rightarrow> database" where
  "trash_events t keep_days purge_days d = d\<lparr>events := update_where
     (\<lambda>e. e_deleted_at e = None \<and> e_effective_ends_at e < t - days keep_days)
     (\<lambda>e. e\<lparr>e_deleted_at := Some t, e_purge_at := Some (t + days purge_days),
            e_deletion_reason := Some ''retention''\<rparr>) (events d)\<rparr>"

definition cleanup_expired_events :: "int \<Rightarrow> int \<Rightarrow> unit act" where
  "cleanup_expired_events keep_days purge_days =
     andthen (execute db_error (\<lambda>w. ((), trash_events (clock w) keep_days purge_days (db w)))) (\<lambda>_.
     execute db_error (\<lambda>w. ((), delete_events
       (\<lambda>e. case e_purge_at e of None \<Rightarrow> False | Some p \<Rightarrow> p \<le> clock w) (db w))))"

definition cleanup_now :: "int \<Rightarrow> nat act" where
  "cleanup_now keep_days = execute db_error (\<lambda>w.
     (count_where (\<lambda>e. e_deleted_at e = None \<and> e_effective_ends_at e < clock w - days keep_days) (events (db w)),
      trash_events (clock w) keep_days 30 (db w)))"

end
