(* ===== verification/Handles.thy ===== *)
theory Handles
  imports Access
begin

text \<open>
  Public handles (\<open>src/handles.rs\<close>): their syntax, and the generator that proposes one to a new
  account.  A handle is checked byte by byte; the bytes of a character outside ASCII are not
  allowed ones, so this is the check of its characters.  The random numbers of the generator are
  arguments.
\<close>

definition normalize_email :: "config \<Rightarrow> string \<Rightarrow> string" where
  "normalize_email c input = lowercase c (trim input)"

definition normalize_handle :: "config \<Rightarrow> string \<Rightarrow> string" where
  "normalize_handle c raw = lowercase c (trim raw)"

definition is_lower_alnum :: "char \<Rightarrow> bool" where
  "is_lower_alnum c \<longleftrightarrow> c \<in> set ''abcdefghijklmnopqrstuvwxyz0123456789''"

text \<open>The allowed characters have no capitals, so \<open>is_ascii_alphanumeric\<close> on them is this.\<close>

definition is_allowed_char :: "char \<Rightarrow> bool" where
  "is_allowed_char c \<longleftrightarrow> is_lower_alnum c \<or> c \<in> {CHR ''-'', CHR ''_'', CHR ''.''}"

definition is_valid_handle :: "string \<Rightarrow> bool" where
  "is_valid_handle raw \<longleftrightarrow>
     4 \<le> length raw \<and> length raw \<le> 32
     \<and> is_allowed_char (hd raw) \<and> is_lower_alnum (hd raw)
     \<and> list_all is_allowed_char raw \<and> is_lower_alnum (last raw)"

definition handle_available :: "string \<Rightarrow> bool act" where
  "handle_available handle = query db_error (\<lambda>w.
     \<not> exists_where (\<lambda>u. sql_lower (cfg w) (u_handle u) = sql_lower (cfg w) handle) (users (db w)))"

section \<open>The generator\<close>

definition handle_words :: "string list" where
  "handle_words = [''mango'', ''forest'', ''comet'', ''aurora'', ''lagoon'', ''ember'', ''cactus'',
     ''cosmo'', ''breeze'', ''delta'', ''fluffy'', ''coral'', ''pixel'', ''lotus'', ''canyon'',
     ''ember'', ''marble'', ''otter'', ''quartz'', ''salsa'', ''tango'', ''umbra'', ''velvet'',
     ''whisky'', ''yodel'', ''zephyr'', ''acorn'', ''bamboo'', ''cedar'', ''dandelion'', ''ember'',
     ''frost'', ''glow'', ''hazel'', ''iguana'', ''jasper'', ''koala'', ''lichen'', ''meadow'',
     ''nebula'', ''onyx'', ''papaya'', ''quokka'', ''ripple'', ''saffron'', ''topaz'', ''utopia'',
     ''vortex'', ''willow'', ''yucca'']"

text \<open>A draw: \<open>random_range(..n)\<close> is the remainder of the number drawn.\<close>

record draw =
  dr_first :: nat
  dr_second :: nat
  dr_number :: nat

definition pick_word :: "nat \<Rightarrow> string" where
  "pick_word r = handle_words ! (r mod length handle_words)"

definition pad4 :: "nat \<Rightarrow> string" where
  "pad4 n = [digit (n div 1000 mod 10), digit (n div 100 mod 10), digit (n div 10 mod 10), digit (n mod 10)]"

definition candidate :: "draw \<Rightarrow> string" where
  "candidate d = pick_word (dr_first d) @ ''-'' @ pick_word (dr_second d) @ ''-''
     @ pad4 (dr_number d mod 10000)"

definition hex_digit :: "nat \<Rightarrow> char" where
  "hex_digit n = ''0123456789abcdef'' ! (n mod 16)"

fun show_hex :: "nat \<Rightarrow> string" where
  "show_hex n = (if n < 16 then [hex_digit n] else show_hex (n div 16) @ [hex_digit (n mod 16)])"

declare show_hex.simps [simp del]

text \<open>The loop makes one attempt per draw.\<close>

fun try_candidates :: "draw list \<Rightarrow> string option act" where
  "try_candidates [] = return None"
| "try_candidates (d # ds) =
     andthen (handle_available (candidate d)) (\<lambda>free.
     if free then return (Some (candidate d)) else try_candidates ds)"

definition generate_unique_handle :: "(nat \<Rightarrow> draw) \<Rightarrow> nat \<Rightarrow> string act" where
  "generate_unique_handle draws suffix =
     andthen (try_candidates (map draws [0..<20])) (\<lambda>found. case found of
       Some handle \<Rightarrow> return handle
     | None \<Rightarrow>
         let fallback = ''fiestaaa-'' @ show_hex (suffix mod 2 ^ 64) in
         andthen (handle_available fallback) (\<lambda>_. return fallback))"

section \<open>Facts\<close>

lemma quiet_handle_available [quiet_intros]: "quiet (handle_available h)"
  unfolding handle_available_def by (intro quiet_intros)

definition handle_taken :: "world \<Rightarrow> string \<Rightarrow> bool" where
  "handle_taken w h \<longleftrightarrow>
     (\<exists>u \<in> set (users (db w)). sql_lower (cfg w) (u_handle u) = sql_lower (cfg w) h)"

lemma handle_taken_same_data: "same_data w v \<Longrightarrow> handle_taken v h = handle_taken w h"
  by (simp add: handle_taken_def same_data_def)

lemma try_candidates_spec:
  "wp (try_candidates ds)
     (\<lambda>r w'. same_data w w' \<and> (case r of
        Some h \<Rightarrow> h \<in> candidate ` set ds \<and> \<not> handle_taken w h
      | None \<Rightarrow> \<forall>d \<in> set ds. handle_taken w (candidate d)))
     (\<lambda>e w'. same_data w w' \<and> e = db_error \<and> faults w \<noteq> []) w"
proof (induction ds arbitrary: w)
  case Nil
  show ?case by simp
next
  case (Cons d ds)
  show ?case
    unfolding try_candidates.simps handle_available_def wp_andthen wp_query
  proof (clarsimp simp: fault_faults [simplified], intro conjI impI, goal_cases)
    case (2)
    then show ?case
      by (intro wp_mono [OF Cons.IH])
        (auto simp: handle_taken_def same_data_def fault_def split: option.splits list.splits)
  qed (auto simp: handle_taken_def fault_def split: list.splits)
qed

lemma digit_alnum [simp]: "n < 10 \<Longrightarrow> is_lower_alnum (digit n)"
proof -
  assume "n < 10"
  then have "n = 0 \<or> n = 1 \<or> n = 2 \<or> n = 3 \<or> n = 4 \<or> n = 5 \<or> n = 6 \<or> n = 7 \<or> n = 8 \<or> n = 9" by arith
  then show ?thesis by (elim disjE) (simp_all add: is_lower_alnum_def digit_def char_of_def bit_Suc_0_iff)
qed

definition word_ok :: "nat \<Rightarrow> string \<Rightarrow> bool" where
  "word_ok n s \<longleftrightarrow> s \<noteq> [] \<and> length s \<le> n \<and> list_all is_lower_alnum s"

lemma handle_words_ok: "list_all (word_ok 9) handle_words"
  by code_simp

lemma word_ok_pick: "word_ok 9 (pick_word r)"
  using handle_words_ok unfolding pick_word_def list_all_length
  by (metis handle_words_def list.discI length_greater_0_conv mod_less_divisor)

lemma alnum_allowed [simp]: "is_lower_alnum c \<Longrightarrow> is_allowed_char c"
  by (simp add: is_allowed_char_def)

lemma candidate_valid: "is_valid_handle (candidate d)"
proof -
  define a where "a = pick_word (dr_first d)"
  define b where "b = pick_word (dr_second d)"
  have ok: "word_ok 9 a" "word_ok 9 b"
    by (simp_all add: a_def b_def word_ok_pick)
  then have "list_all is_allowed_char a" "list_all is_allowed_char b" "is_lower_alnum (hd a)"
    by (auto simp: word_ok_def list_all_iff)
  then show ?thesis
    unfolding candidate_def a_def [symmetric] b_def [symmetric]
    using ok by (auto simp: is_valid_handle_def word_ok_def pad4_def is_allowed_char_def)
qed

lemma hex_digit_alnum [simp]: "is_lower_alnum (hex_digit n)"
proof -
  have "list_all is_lower_alnum ''0123456789abcdef''" by code_simp
  moreover have "n mod 16 < length ''0123456789abcdef''" by simp
  ultimately show ?thesis unfolding hex_digit_def list_all_length by blast
qed

lemma show_hex_alnum: "list_all is_lower_alnum (show_hex n) \<and> show_hex n \<noteq> []"
proof (induction n rule: show_hex.induct)
  case (1 n)
  then show ?case by (subst show_hex.simps, subst (2) show_hex.simps) simp
qed

lemma show_hex_length: "n < 16 ^ Suc k \<Longrightarrow> length (show_hex n) \<le> Suc k"
proof (induction k arbitrary: n)
  case 0
  then show ?case by (subst show_hex.simps) simp
next
  case (Suc k)
  then have "n div 16 < 16 ^ Suc k" by (simp add: div_less_iff_less_mult mult.commute)
  from Suc.IH [OF this] show ?case by (subst show_hex.simps) simp
qed

lemma fallback_valid: "is_valid_handle (''fiestaaa-'' @ show_hex (suffix mod 2 ^ 64))"
proof -
  let ?h = "show_hex (suffix mod 2 ^ 64)"
  have "suffix mod 2 ^ 64 < (16::nat) ^ Suc 15" by simp
  then have "length ?h \<le> 16" using show_hex_length by fastforce
  moreover have "list_all is_allowed_char ''fiestaaa-''" by code_simp
  moreover have "list_all is_allowed_char ?h" "is_lower_alnum (last ?h)" "1 \<le> length ?h"
    using show_hex_alnum [of "suffix mod 2 ^ 64"] by (auto simp: list_all_iff Suc_leI)
  moreover have "is_lower_alnum (CHR ''f'')" by code_simp
  ultimately show ?thesis
    using show_hex_alnum [of "suffix mod 2 ^ 64"] by (simp add: is_valid_handle_def)
qed

lemma generate_unique_handle_spec:
  "wp (generate_unique_handle draws suffix)
     (\<lambda>h w'. same_data w w' \<and> is_valid_handle h
        \<and> (\<not> handle_taken w h \<or> (\<forall>k < 20. handle_taken w (candidate (draws k)))))
     (\<lambda>e w'. same_data w w' \<and> e = db_error \<and> faults w \<noteq> []) w"
  unfolding generate_unique_handle_def wp_andthen [of "try_candidates _"]
proof (rule wp_mono [OF try_candidates_spec], goal_cases)
  case (1 r v)
  show ?case
  proof (cases r)
    case None
    then show ?thesis
      using 1 by (auto simp: wp_simps Let_def handle_available_def fallback_valid [simplified] same_data_def fault_def
          split: list.splits)
  next
    case (Some h)
    then show ?thesis using 1 candidate_valid by auto
  qed
qed

end
