(* ===== verification/Friends.thy ===== *)
theory Friends
  imports Handles Outbox Pagination "HOL-Library.Product_Lexorder"
begin

text \<open>
  Friends (\<open>src/routes/friends.rs\<close>) and blocks (\<open>src/routes/safety.rs\<close>): a user asks another, the
  other accepts or declines, either ends the friendship, and either may block the other.  The
  triggers \<open>fiestaaa_guard_contact\<close> and \<open>fiestaaa_block_cleanup\<close> of \<open>011_store_beta.sql\<close> are part of the
  statements they run under.
\<close>

section \<open>Users and identifiers\<close>

definition ordered_pair :: "int \<Rightarrow> int \<Rightarrow> int \<times> int" where
  "ordered_pair a b = (if a < b then (a, b) else (b, a))"

definition find_user_by_email :: "string \<Rightarrow> user option act" where
  "find_user_by_email email = andthen get_state (\<lambda>w.
     let normalized = normalize_email (cfg w) email in
     andthen (require (normalized \<noteq> []) (bad_request ''invalid_email'')) (\<lambda>_.
     query db_error (\<lambda>w. user_by_email w normalized)))"

definition find_user_by_handle :: "string \<Rightarrow> user option act" where
  "find_user_by_handle handle = query db_error (\<lambda>w.
     find (\<lambda>u. sql_lower (cfg w) (u_handle u) = sql_lower (cfg w) handle) (users (db w)))"

definition current_user :: "request \<Rightarrow> user act" where
  "current_user req =
     andthen (extract_active_claims_from_auth req) (\<lambda>claims.
     andthen (find_user_by_email (u_email claims)) (\<lambda>found.
     some_or found (unauthorized ''user_not_found'')))"

datatype target_identifier = ByEmail string | ByHandle string

definition parse_identifier :: "config \<Rightarrow> string \<Rightarrow> api_error + target_identifier" where
  "parse_identifier c raw =
     (let trimmed = trim raw in
      if trimmed = [] then Inl (bad_request ''invalid_identifier'')
      else if looks_like_email trimmed then Inr (ByEmail (lowercase c trimmed))
      else let normalized = normalize_handle c trimmed in
        if \<not> is_valid_handle normalized then Inl (bad_request ''invalid_handle'')
        else Inr (ByHandle normalized))"

definition resolve_identifier :: "string \<Rightarrow> user act" where
  "resolve_identifier raw = andthen get_state (\<lambda>w.
     andthen (from_result (parse_identifier (cfg w) raw)) (\<lambda>target.
     andthen (case target of
         ByEmail email \<Rightarrow> find_user_by_email email
       | ByHandle handle \<Rightarrow> find_user_by_handle handle) (\<lambda>found.
     some_or found (not_found ''user_not_found''))))"

section \<open>Reading friendships and requests\<close>

definition is_friendship :: "database \<Rightarrow> int \<Rightarrow> int \<Rightarrow> bool" where
  "is_friendship d a b = exists_where (\<lambda>f. (fs_user_a f, fs_user_b f) = ordered_pair a b) (friendships d)"

definition are_friends :: "int \<Rightarrow> int \<Rightarrow> bool act" where
  "are_friends a b = query db_error (\<lambda>w. is_friendship (db w) a b)"

definition between :: "int \<Rightarrow> int \<Rightarrow> friend_request \<Rightarrow> bool" where
  "between a b r \<longleftrightarrow> fr_sender_id r = a \<and> fr_receiver_id r = b
     \<or> fr_sender_id r = b \<and> fr_receiver_id r = a"

definition is_pending :: "database \<Rightarrow> int \<Rightarrow> int \<Rightarrow> bool" where
  "is_pending d a b = exists_where (\<lambda>r. fr_status r = ReqPending \<and> between a b r) (friend_requests d)"

definition pending_request_exists :: "int \<Rightarrow> int \<Rightarrow> bool act" where
  "pending_request_exists a b = query db_error (\<lambda>w. is_pending (db w) a b)"

record request_view =
  rv_id :: int
  rv_sender_email :: string
  rv_sender_handle :: string
  rv_sender_avatar_url :: "string option"
  rv_receiver_email :: string
  rv_receiver_handle :: string
  rv_receiver_avatar_url :: "string option"
  rv_status :: request_status
  rv_created_at :: micros

text \<open>The row joined with its two users.\<close>

definition request_view_of :: "database \<Rightarrow> friend_request \<Rightarrow> request_view option" where
  "request_view_of d r =
     Option.bind (find (\<lambda>u. u_id u = fr_sender_id r) (users d)) (\<lambda>sender.
     map_option (\<lambda>receiver.
       \<lparr>rv_id = fr_id r, rv_sender_email = u_email sender, rv_sender_handle = u_handle sender,
        rv_sender_avatar_url = u_avatar_url sender, rv_receiver_email = u_email receiver,
        rv_receiver_handle = u_handle receiver, rv_receiver_avatar_url = u_avatar_url receiver,
        rv_status = fr_status r, rv_created_at = fr_created_at r\<rparr>)
       (find (\<lambda>u. u_id u = fr_receiver_id r) (users d)))"

definition fetch_request_view :: "int \<Rightarrow> request_view act" where
  "fetch_request_view i =
     andthen (query db_error (\<lambda>w.
       Option.bind (find (\<lambda>r. fr_id r = i) (friend_requests (db w))) (request_view_of (db w))))
       (\<lambda>row. some_or row db_error)"

section \<open>Listings\<close>

record friend_view =
  fv_email :: string
  fv_handle :: string
  fv_avatar_url :: "string option"
  fv_since :: micros

definition friend_view_of :: "database \<Rightarrow> int \<Rightarrow> friendship \<Rightarrow> friend_view list" where
  "friend_view_of d user_id f =
     (case (find (\<lambda>u. u_id u = fs_user_a f) (users d), find (\<lambda>u. u_id u = fs_user_b f) (users d)) of
        (Some u1, Some u2) \<Rightarrow>
          let u = (if fs_user_a f = user_id then u2 else u1) in
          [\<lparr>fv_email = u_email u, fv_handle = u_handle u, fv_avatar_url = u_avatar_url u,
            fv_since = fs_created_at f\<rparr>]
      | _ \<Rightarrow> [])"

text \<open>
  The cursor of a page of friends counts milliseconds; \<open>sql_timestamp_from_ms\<close> is
  \<open>to_timestamp(.. / 1000)\<close>, which fails on a number it cannot represent.
\<close>

definition select_friends :: "int \<Rightarrow> micros option \<Rightarrow> database \<Rightarrow> friend_view list" where
  "select_friends user_id before d =
     concat (map (friend_view_of d user_id)
       (sort_key (\<lambda>f. - fs_created_at f)
         (filter (\<lambda>f. (fs_user_a f = user_id \<or> fs_user_b f = user_id)
            \<and> (case before of None \<Rightarrow> True | Some t \<Rightarrow> fs_created_at f < t)) (friendships d))))"

definition friends_statement :: "int \<Rightarrow> page option \<Rightarrow> world \<Rightarrow> (sql_error + friend_view list) \<times> world" where
  "friends_statement user_id pg w =
     (case pg of
        None \<Rightarrow> (Inr (select_friends user_id None (db w)), w)
      | Some p \<Rightarrow>
          (case pg_after_id p of
             None \<Rightarrow> (Inr (take (nat (fetch_limit p)) (select_friends user_id None (db w))), w)
           | Some ms \<Rightarrow>
               (case sql_timestamp_from_ms (cfg w) ms of
                  None \<Rightarrow> (Inl Unavailable, w)
                | Some t \<Rightarrow> (Inr (take (nat (fetch_limit p)) (select_friends user_id (Some t) (db w))), w))))"

definition timestamp_millis :: "micros \<Rightarrow> int" where
  "timestamp_millis t = t div 1000"

definition list_friends :: "request \<Rightarrow> page_query \<Rightarrow> (friend_view list \<times> string option) answer act" where
  "list_friends req q =
     andthen (current_user req) (\<lambda>user.
     andthen get_state (\<lambda>w.
     andthen (from_result (page_request (enforce_page_defaults (cfg w)) q)) (\<lambda>pg.
     andthen (stmt (\<lambda>_. db_error) (friends_statement (u_id user) pg)) (\<lambda>rows.
     return (Answer 200 (case pg of
         None \<Rightarrow> (rows, None)
       | Some p \<Rightarrow> json_page rows (pg_limit p) (\<lambda>f. show_int (timestamp_millis (fv_since f)))))))))"

definition search_limit :: "int option \<Rightarrow> int" where
  "search_limit l = max 1 (min 15 (case l of None \<Rightarrow> 8 | Some v \<Rightarrow> v))"

definition find_strangers :: "int \<Rightarrow> string \<Rightarrow> int \<Rightarrow> world \<Rightarrow> user list" where
  "find_strangers user_id pattern limit w =
     take (nat limit) (sort_key (\<lambda>u. sql_sort_key (cfg w) (sql_lower (cfg w) (u_handle u)))
       (filter (\<lambda>u. sql_like (cfg w) (sql_lower (cfg w) (u_handle u)) (sql_lower (cfg w) pattern)
           \<and> u_id u \<noteq> user_id
           \<and> \<not> exists_where (\<lambda>f. fs_user_a f = user_id \<and> fs_user_b f = u_id u
                 \<or> fs_user_b f = user_id \<and> fs_user_a f = u_id u) (friendships (db w))
           \<and> \<not> is_pending (db w) user_id (u_id u)) (users (db w))))"

definition search_friends :: "request \<Rightarrow> string option \<Rightarrow> int option \<Rightarrow> (string \<times> string option) list answer act" where
  "search_friends req q limit =
     andthen (current_user req) (\<lambda>user.
     let raw_q = trim (case q of None \<Rightarrow> [] | Some s \<Rightarrow> s) in
     if length raw_q < 2 then return (Answer 200 [])
     else andthen (query db_error (find_strangers (u_id user) (''%'' @ raw_q @ ''%'') (search_limit limit)))
       (\<lambda>rows. return (Answer 200 (map (\<lambda>u. (u_handle u, u_avatar_url u)) rows))))"

definition select_requests :: "int \<Rightarrow> database \<Rightarrow> friend_request list" where
  "select_requests user_id d =
     filter (\<lambda>r. (fr_sender_id r = user_id \<or> fr_receiver_id r = user_id) \<and> request_view_of d r \<noteq> None)
       (friend_requests d)"

definition request_views :: "int \<Rightarrow> page option \<Rightarrow> database \<Rightarrow> request_view list" where
  "request_views user_id pg d = List.map_filter (request_view_of d)
     (case pg of
        None \<Rightarrow> sort_key (\<lambda>r. (- fr_created_at r, - fr_id r)) (select_requests user_id d)
      | Some p \<Rightarrow> fetch_after (\<lambda>i r. fr_id r < i)
          (sort_key (\<lambda>r. - fr_id r) (select_requests user_id d)) (pg_after_id p) (fetch_limit p))"

definition list_friend_requests ::
    "request \<Rightarrow> page_query \<Rightarrow> (request_view list \<times> string option) answer act" where
  "list_friend_requests req q =
     andthen (current_user req) (\<lambda>user.
     andthen get_state (\<lambda>w.
     andthen (from_result (page_request (enforce_page_defaults (cfg w)) q)) (\<lambda>pg.
     andthen (query db_error (\<lambda>w. request_views (u_id user) pg (db w))) (\<lambda>rows.
     return (Answer 200 (case pg of
         None \<Rightarrow> (rows, None)
       | Some p \<Rightarrow> json_page rows (pg_limit p) (\<lambda>v. show_int (rv_id v))))))))"

section \<open>Asking\<close>

text \<open>
  \<open>INSERT INTO friend_requests\<close>: the guard refuses blocked contacts, and the partial unique index
  allows one pending request between two users, whoever asks.
\<close>

definition insert_request :: "int \<Rightarrow> int \<Rightarrow> world \<Rightarrow> (sql_error + int) \<times> world" where
  "insert_request sender_id receiver_id w =
     (let (i, w') = nextval RequestSeq w; d = db w in
      if contact_blocked d sender_id receiver_id then (Inl CheckViolation, w')
      else if is_pending d sender_id receiver_id then (Inl UniqueViolation, w')
      else if \<not> exists_where (\<lambda>u. u_id u = sender_id) (users d)
              \<or> \<not> exists_where (\<lambda>u. u_id u = receiver_id) (users d)
      then (Inl ForeignKeyViolation, w')
      else (Inr i, w'\<lparr>db := d\<lparr>friend_requests := friend_requests d
        @ [\<lparr>fr_id = i, fr_sender_id = sender_id, fr_receiver_id = receiver_id,
            fr_status = ReqPending, fr_created_at = clock w, fr_responded_at = None\<rparr>]\<rparr>\<rparr>))"

definition request_checks :: "int \<Rightarrow> int \<Rightarrow> unit act" where
  "request_checks requester_id target_id =
     andthen (ensure_contact requester_id target_id) (\<lambda>_.
     andthen (require (target_id \<noteq> requester_id) (bad_request ''cannot_friend_self'')) (\<lambda>_.
     andthen (are_friends requester_id target_id) (\<lambda>friends.
     andthen (require (\<not> friends) (conflict ''already_friends'')) (\<lambda>_.
     andthen (pending_request_exists requester_id target_id) (\<lambda>pending.
     require (\<not> pending) (conflict ''request_exists''))))))"

definition request_notice :: "request_view \<Rightarrow> notification_request" where
  "request_notice v = \<lparr>nr_title = ''Nouvelle demande d'' @ [CHR 0x27] @ ''ami'',
     nr_body = rv_sender_handle v @ '' souhaite t'' @ [CHR 0x27] @ ''ajouter'',
     nr_data = JObj [(''type'', JStr ''friend_request''), (''request_id'', JInt (rv_id v)),
       (''from_email'', JStr (rv_sender_email v)), (''from_handle'', JStr (rv_sender_handle v))],
     nr_dedup_base_key = Some (''friend_request:'' @ show_int (rv_id v)), nr_dedup_ttl = 600\<rparr>"

definition announce_request :: "int \<Rightarrow> int \<Rightarrow> request_view answer act" where
  "announce_request target_id i =
     andthen (fetch_request_view i) (\<lambda>v.
     andthen (notify_users [target_id] (request_notice v)) (\<lambda>_.
     andthen (publish_global_type ''friend_requests.changed'') (\<lambda>_.
     return (Answer 201 v))))"

definition create_friend_request :: "request \<Rightarrow> string \<Rightarrow> request_view answer act" where
  "create_friend_request req identifier =
     andthen (current_user req) (\<lambda>requester.
     andthen (resolve_identifier identifier) (\<lambda>target.
     andthen (request_checks (u_id requester) (u_id target)) (\<lambda>_.
     andthen (stmt (\<lambda>e. if e = UniqueViolation then conflict ''request_exists'' else db_error)
       (insert_request (u_id requester) (u_id target))) (\<lambda>i.
     announce_request (u_id target) i))))"

section \<open>Answering\<close>

definition parse_answer :: "string \<Rightarrow> request_status option" where
  "parse_answer status =
     (if trim status = ''Accepted'' then Some ReqAccepted
      else if trim status = ''Declined'' then Some ReqDeclined else None)"

definition answer_request :: "int \<Rightarrow> request_status \<Rightarrow> world \<Rightarrow> (sql_error + unit) \<times> world" where
  "answer_request i status w =
     (if exists_where (\<lambda>r. fr_id r = i \<and> contact_blocked (db w) (fr_sender_id r) (fr_receiver_id r))
           (friend_requests (db w))
      then (Inl CheckViolation, w)
      else (Inr (), w\<lparr>db := (db w)\<lparr>friend_requests := update_where (\<lambda>r. fr_id r = i)
        (\<lambda>r. r\<lparr>fr_status := status, fr_responded_at := Some (clock w)\<rparr>) (friend_requests (db w))\<rparr>\<rparr>))"

definition insert_friendship :: "int \<times> int \<Rightarrow> world \<Rightarrow> (sql_error + unit) \<times> world" where
  "insert_friendship = (\<lambda>(a, b) w. let d = db w in
     if contact_blocked d a b \<or> \<not> a < b then (Inl CheckViolation, w)
     else if exists_where (\<lambda>f. fs_user_a f = a \<and> fs_user_b f = b) (friendships d) then (Inr (), w)
     else if \<not> exists_where (\<lambda>u. u_id u = a) (users d) \<or> \<not> exists_where (\<lambda>u. u_id u = b) (users d)
     then (Inl ForeignKeyViolation, w)
     else (Inr (), w\<lparr>db := d\<lparr>friendships := friendships d
       @ [\<lparr>fs_user_a = a, fs_user_b = b, fs_created_at = clock w\<rparr>]\<rparr>\<rparr>))"

definition respond_tx :: "int \<Rightarrow> int \<Rightarrow> request_status \<Rightarrow> int act" where
  "respond_tx user_id i target_status = transact db_error (
     andthen (query db_error (\<lambda>w. find (\<lambda>r. fr_id r = i) (friend_requests (db w)))) (\<lambda>row.
     andthen (some_or row (not_found ''request_not_found'')) (\<lambda>r.
     andthen (require (fr_receiver_id r = user_id) (forbidden ''forbidden'')) (\<lambda>_.
     andthen (require (fr_status r = ReqPending) (conflict ''request_already_processed'')) (\<lambda>_.
     andthen (stmt (\<lambda>_. db_error) (answer_request i target_status)) (\<lambda>_.
     andthen (if target_status = ReqAccepted
              then stmt (\<lambda>_. db_error) (insert_friendship (ordered_pair (fr_sender_id r) (fr_receiver_id r)))
              else return ()) (\<lambda>_.
     return (fr_sender_id r))))))))"

definition response_notice :: "request_status \<Rightarrow> request_view \<Rightarrow> notification_request" where
  "response_notice target_status v =
     (let status_label = (if target_status = ReqAccepted then ''accept'' @ e_acute @ ''e''
                          else ''refus'' @ e_acute @ ''e'');
          status_name = (if target_status = ReqAccepted then ''Accepted'' else ''Declined'') in
      \<lparr>nr_title = ''Demande d'' @ [CHR 0x27] @ ''ami '' @ status_label,
       nr_body = rv_receiver_handle v @ '' a '' @ status_label @ '' votre demande'',
       nr_data = JObj [(''type'', JStr ''friend_response''), (''request_id'', JInt (rv_id v)),
         (''status'', JStr status_name), (''from_email'', JStr (rv_receiver_email v)),
         (''from_handle'', JStr (rv_receiver_handle v))],
       nr_dedup_base_key = Some (''friend_response:'' @ show_int (rv_id v) @ '':'' @ status_name),
       nr_dedup_ttl = 300\<rparr>)"

definition announce_response :: "int \<Rightarrow> request_status \<Rightarrow> int \<Rightarrow> request_view answer act" where
  "announce_response i target_status sender_id =
     andthen (fetch_request_view i) (\<lambda>v.
     andthen (notify_users [sender_id] (response_notice target_status v)) (\<lambda>_.
     andthen (publish_global_type ''friend_requests.changed'') (\<lambda>_.
     andthen (if target_status = ReqAccepted then publish_global_type ''friendships.changed''
              else return ()) (\<lambda>_.
     return (Answer 200 v)))))"

definition respond_friend_request :: "request \<Rightarrow> int \<Rightarrow> string \<Rightarrow> request_view answer act" where
  "respond_friend_request req i status =
     andthen (current_user req) (\<lambda>user.
     andthen (some_or (parse_answer status) (bad_request ''invalid_status'')) (\<lambda>target_status.
     andthen (respond_tx (u_id user) i target_status) (\<lambda>sender_id.
     announce_response i target_status sender_id)))"

section \<open>Ending a friendship\<close>

definition delete_friendship :: "int \<times> int \<Rightarrow> database \<Rightarrow> nat \<times> database" where
  "delete_friendship p d =
     (count_where (\<lambda>f. (fs_user_a f, fs_user_b f) = p) (friendships d),
      d\<lparr>friendships := delete_where (\<lambda>f. (fs_user_a f, fs_user_b f) = p) (friendships d)\<rparr>)"

definition delete_friend :: "request \<Rightarrow> string \<Rightarrow> string answer act" where
  "delete_friend req identifier =
     andthen (current_user req) (\<lambda>user.
     andthen (resolve_identifier identifier) (\<lambda>target.
     andthen (execute db_error (\<lambda>w. delete_friendship (ordered_pair (u_id user) (u_id target)) (db w)))
       (\<lambda>rows_affected.
     andthen (require (rows_affected \<noteq> 0) (not_found ''friend_not_found'')) (\<lambda>_.
     andthen (publish_global_type ''friendships.changed'') (\<lambda>_.
     return (Answer 200 ''deleted''))))))"

section \<open>Blocking\<close>

abbreviation unavailable :: api_error where
  "unavailable \<equiv> ApiError 503 ''safety_unavailable''"

definition list_blocks :: "request \<Rightarrow> (uuid \<times> string) list answer act" where
  "list_blocks req =
     andthen (extract_authenticated_user req) (\<lambda>user.
     andthen (query unavailable (\<lambda>w. concat (map (\<lambda>b.
         case find (\<lambda>u. u_id u = ub_blocked_id b) (users (db w)) of
           None \<Rightarrow> [] | Some u \<Rightarrow> [(u_public_id u, u_handle u)])
       (sort_key (\<lambda>b. - ub_created_at b)
         (filter (\<lambda>b. ub_blocker_id b = u_id user) (user_blocks (db w))))))) (\<lambda>rows.
     return (Answer 200 rows)))"

text \<open>\<open>fiestaaa_block_cleanup\<close>: what two users share goes when one blocks the other.\<close>

definition owned_by :: "database \<Rightarrow> int \<Rightarrow> int \<Rightarrow> bool" where
  "owned_by d event_id user_id = exists_where (\<lambda>e. e_id e = event_id \<and> e_owner_id e = user_id) (events d)"

definition addressed_to :: "database \<Rightarrow> share_token \<Rightarrow> int \<Rightarrow> bool" where
  "addressed_to d t user_id \<longleftrightarrow>
     exists_where (\<lambda>u. u_id u = user_id \<and> st_target_hash t = Some (u_email_hash u)) (users d)"

definition block_cleanup :: "int \<Rightarrow> int \<Rightarrow> database \<Rightarrow> database" where
  "block_cleanup a b d = d\<lparr>
     friendships := delete_where (\<lambda>f. fs_user_a f = min a b \<and> fs_user_b f = max a b) (friendships d),
     friend_requests := delete_where (between a b) (friend_requests d),
     invitations := delete_where (\<lambda>i. i_status i = Waiting
       \<and> (i_user_id i = a \<and> owned_by d (i_event_id i) b \<or> i_user_id i = b \<and> owned_by d (i_event_id i) a))
       (invitations d),
     share_tokens := delete_where (\<lambda>t.
       addressed_to d t a \<and> owned_by d (st_event_id t) b \<or> addressed_to d t b \<and> owned_by d (st_event_id t) a)
       (share_tokens d)\<rparr>"

text \<open>
  \<open>INSERT INTO user_blocks .. ON CONFLICT DO NOTHING\<close>: the trigger runs first, also when the block
  is there already.
\<close>

definition insert_block :: "int \<Rightarrow> int \<Rightarrow> world \<Rightarrow> (sql_error + unit) \<times> world" where
  "insert_block blocker_id blocked_id w =
     (let d = block_cleanup blocker_id blocked_id (db w) in
      if blocker_id = blocked_id then (Inl CheckViolation, w)
      else if exists_where (\<lambda>r. ub_blocker_id r = blocker_id \<and> ub_blocked_id r = blocked_id) (user_blocks d)
      then (Inr (), w\<lparr>db := d\<rparr>)
      else if \<not> exists_where (\<lambda>u. u_id u = blocker_id) (users d)
              \<or> \<not> exists_where (\<lambda>u. u_id u = blocked_id) (users d)
      then (Inl ForeignKeyViolation, w)
      else (Inr (), w\<lparr>db := d\<lparr>user_blocks := user_blocks d
        @ [\<lparr>ub_blocker_id = blocker_id, ub_blocked_id = blocked_id, ub_created_at = clock w\<rparr>]\<rparr>\<rparr>))"

definition block :: "request \<Rightarrow> uuid \<Rightarrow> string answer act" where
  "block req public_id =
     andthen (extract_authenticated_user req) (\<lambda>user.
     andthen (require (u_public_id user \<noteq> public_id) (bad_request [])) (\<lambda>_.
     andthen (query unavailable (\<lambda>w. map_option u_id (find (\<lambda>u. u_public_id u = public_id) (users (db w)))))
       (\<lambda>target.
     andthen (some_or target (not_found [])) (\<lambda>i.
     andthen (stmt (\<lambda>_. unavailable) (insert_block (u_id user) i)) (\<lambda>_.
     return (Answer 200 ''blocked''))))))"

definition delete_block :: "int \<Rightarrow> uuid \<Rightarrow> database \<Rightarrow> database" where
  "delete_block blocker_id public_id d = d\<lparr>user_blocks := delete_where (\<lambda>r. ub_blocker_id r = blocker_id
     \<and> map_option u_id (find (\<lambda>u. u_public_id u = public_id) (users d)) = Some (ub_blocked_id r))
     (user_blocks d)\<rparr>"

definition unblock :: "request \<Rightarrow> uuid \<Rightarrow> string answer act" where
  "unblock req public_id =
     andthen (extract_authenticated_user req) (\<lambda>user.
     andthen (execute unavailable (\<lambda>w. ((), delete_block (u_id user) public_id (db w)))) (\<lambda>_.
     return (Answer 200 ''unblocked'')))"

end
