(* ===== verification/Invitations.thy ===== *)
theory Invitations
  imports Account Event_View Friends Carpools
begin

text \<open>
  Invitations (\<open>src/routes/invitations.rs\<close>): the organiser invites a user by handle, or an e-mail
  address, which gets a link by mail; the guest accepts or declines.  A guest who declines gives
  back what was reserved and leaves the carpools of the event.
\<close>

section \<open>Who may do what\<close>

definition inv_fetch_user_by_email :: "string \<Rightarrow> user act" where
  "inv_fetch_user_by_email email =
     andthen (find_user_by_email email) (\<lambda>row. some_or row (not_found ''user_not_found''))"

definition inv_find_user_by_handle :: "string \<Rightarrow> user option act" where
  "inv_find_user_by_handle handle = find_user_by_handle handle"

definition owner_of :: "database \<Rightarrow> int \<Rightarrow> user option" where
  "owner_of d event_id = Option.bind (find (\<lambda>e. e_id e = event_id) (events d)) (\<lambda>e.
     find (\<lambda>u. u_id u = e_owner_id e) (users d))"

definition fetch_event_owner_email :: "int \<Rightarrow> string act" where
  "fetch_event_owner_email event_id =
     andthen (query db_error (\<lambda>w. map_option u_email (owner_of (db w) event_id))) (\<lambda>owner.
     some_or owner (not_found ''event_not_found''))"

text \<open>
  Unlike the helpers of the event routes, these have no exception for administrators and look at
  events in the trash as well.
\<close>

definition inv_ensure_event_owner :: "request \<Rightarrow> int \<Rightarrow> string act" where
  "inv_ensure_event_owner req event_id =
     andthen (claims_email req) (\<lambda>email.
     andthen (inv_fetch_user_by_email email) (\<lambda>requester.
     andthen (query db_error (\<lambda>w. owner_of (db w) event_id)) (\<lambda>row.
     andthen (some_or row (not_found ''event_not_found'')) (\<lambda>owner.
     andthen (require (u_id owner = u_id requester) (forbidden ''forbidden'')) (\<lambda>_.
     return (u_email owner))))))"

definition ensure_event_participant :: "request \<Rightarrow> int \<Rightarrow> unit act" where
  "ensure_event_participant req event_id =
     andthen (claims_email req) (\<lambda>email.
     andthen (inv_fetch_user_by_email email) (\<lambda>requester.
     andthen (query db_error (\<lambda>w. map_option e_owner_id (find (\<lambda>e. e_id e = event_id) (events (db w))))) (\<lambda>row.
     andthen (some_or row (not_found ''event_not_found'')) (\<lambda>owner_id.
     if owner_id = u_id requester then return ()
     else andthen (query db_error (\<lambda>w. accepted_member (db w) event_id (u_id requester))) (\<lambda>is_member.
       require is_member (forbidden ''forbidden''))))))"

text \<open>
  The limiter decides on a key; \<open>allowed\<close> is its verdict, which \<open>Rate_Limit\<close> describes.
\<close>

record client =
  realip_remote_addr :: "string option"
  peer_ip :: "string option"

definition invitation_rate_limit_remote :: "config \<Rightarrow> client \<Rightarrow> string" where
  "invitation_rate_limit_remote c client =
     (let addr = (if trust_proxy_headers c then realip_remote_addr client else peer_ip client)
      in case addr of Some a \<Rightarrow> a | None \<Rightarrow> ''unknown'')"

definition enforce_invitation_rate_limit :: "(string \<Rightarrow> bool) \<Rightarrow> client \<Rightarrow> string \<Rightarrow> unit act" where
  "enforce_invitation_rate_limit allowed client owner_email = andthen get_state (\<lambda>w.
     require (allowed (''invitation:email:'' @ lowercase (cfg w) owner_email @ '':''
         @ invitation_rate_limit_remote (cfg w) client))
       (ApiError 429 ''rate_limited''))"

definition expire_overdue_invitations :: "unit act" where
  "expire_overdue_invitations = execute db_error (\<lambda>w. ((), expire_invitations (day_of (clock w)) (db w)))"

section \<open>Views\<close>

record invitation_view =
  iv_invitation_id :: "int option"
  iv_event_id :: int
  iv_user_id :: "int option"
  iv_email :: string
  iv_handle :: "string option"
  iv_avatar_url :: "string option"
  iv_status :: invitation_status
  iv_date_invi :: micros
  iv_event_name :: "string option"

definition invitation_view_of :: "user \<Rightarrow> event \<Rightarrow> invitation_status \<Rightarrow> invitation \<Rightarrow> invitation_view" where
  "invitation_view_of u e status i =
     \<lparr>iv_invitation_id = Some (i_id i), iv_event_id = i_event_id i, iv_user_id = Some (u_id u),
      iv_email = u_email u, iv_handle = Some (u_handle u), iv_avatar_url = u_avatar_url u,
      iv_status = status, iv_date_invi = i_date i, iv_event_name = Some (e_name e)\<rparr>"

definition shown_status :: "int \<Rightarrow> event \<Rightarrow> invitation_status \<Rightarrow> invitation_status" where
  "shown_status today e status = (if status = Waiting \<and> deadline_passed today e then Expired else status)"

definition is_invitation :: "int \<Rightarrow> int \<Rightarrow> invitation \<Rightarrow> bool" where
  "is_invitation event_id user_id i \<longleftrightarrow> i_event_id i = event_id \<and> i_user_id i = user_id"

section \<open>The guests of an event\<close>

definition owner_row :: "micros \<Rightarrow> database \<Rightarrow> event \<Rightarrow> invitation_view list" where
  "owner_row t d e =
     (case find (\<lambda>u. u_id u = e_owner_id e) (users d) of
        None \<Rightarrow> []
      | Some u \<Rightarrow> [\<lparr>iv_invitation_id = None, iv_event_id = e_id e, iv_user_id = Some (u_id u),
          iv_email = u_email u, iv_handle = Some (u_handle u), iv_avatar_url = u_avatar_url u,
          iv_status = Accepted, iv_date_invi = t, iv_event_name = Some (e_name e)\<rparr>])"

definition guest_rows :: "micros \<Rightarrow> database \<Rightarrow> event \<Rightarrow> invitation_view list" where
  "guest_rows t d e = List.map_filter (\<lambda>i.
       map_option (\<lambda>u. invitation_view_of u e (shown_status (day_of t) e (i_status i)) i)
         (find (\<lambda>u. u_id u = i_user_id i) (users d)))
     (filter (\<lambda>i. i_event_id i = e_id e \<and> i_user_id i \<noteq> e_owner_id e) (invitations d))"

text \<open>\<open>SELECT DISTINCT ON (target_email_lookup_hash)\<close>: the latest link of every address.\<close>

fun first_of_each :: "('a \<Rightarrow> 'k) \<Rightarrow> 'a list \<Rightarrow> 'a list" where
  "first_of_each k [] = []"
| "first_of_each k (x # xs) = x # first_of_each k (filter (\<lambda>y. k y \<noteq> k x) xs)"

definition open_link :: "micros \<Rightarrow> int \<Rightarrow> share_token \<Rightarrow> bool" where
  "open_link t event_id s \<longleftrightarrow> st_event_id s = event_id \<and> st_target_hash s \<noteq> None \<and> st_used_at s = None
     \<and> st_expires_at s \<ge> t"

definition pending_rows :: "config \<Rightarrow> micros \<Rightarrow> database \<Rightarrow> event \<Rightarrow> invitation_view list" where
  "pending_rows c t d e = map (\<lambda>s.
       \<lparr>iv_invitation_id = None, iv_event_id = st_event_id s, iv_user_id = None,
        iv_email = (case st_target_email s of None \<Rightarrow> [] | Some a \<Rightarrow> a), iv_handle = None, iv_avatar_url = None,
        iv_status = Waiting, iv_date_invi = st_created_at s, iv_event_name = Some (e_name e)\<rparr>)
     (first_of_each st_target_hash
       (sort_key (\<lambda>s. (map_option (sql_sort_key c) (st_target_hash s), - st_created_at s))
         (filter (open_link t (e_id e)) (share_tokens d))))"

definition invitation_union :: "int \<Rightarrow> world \<Rightarrow> invitation_view list" where
  "invitation_union event_id w =
     (case live_event (db w) event_id of
        None \<Rightarrow> []
      | Some e \<Rightarrow> owner_row (clock w) (db w) e @ guest_rows (clock w) (db w) e
          @ pending_rows (cfg w) (clock w) (db w) e)"

definition invitation_page :: "int \<Rightarrow> page \<Rightarrow> micros option \<Rightarrow> world \<Rightarrow> invitation_view list" where
  "invitation_page event_id p before w =
     take (nat (fetch_limit p))
       (sort_key (\<lambda>v. (- iv_date_invi v, - (case iv_user_id v of None \<Rightarrow> 0 | Some i \<Rightarrow> i)))
         (filter (\<lambda>v. case before of None \<Rightarrow> True | Some t \<Rightarrow> iv_date_invi v < t) (invitation_union event_id w)))"

definition invitations_statement :: "int \<Rightarrow> page option \<Rightarrow> world \<Rightarrow> (sql_error + invitation_view list) \<times> world" where
  "invitations_statement event_id pg w =
     (case pg of
        None \<Rightarrow> (Inr (sort_key (\<lambda>v. - iv_date_invi v) (invitation_union event_id w)), w)
      | Some p \<Rightarrow>
          (case pg_after_id p of
             None \<Rightarrow> (Inr (invitation_page event_id p None w), w)
           | Some ms \<Rightarrow>
               (case sql_timestamp_from_ms (cfg w) ms of
                  None \<Rightarrow> (Inl Unavailable, w)
                | Some t \<Rightarrow> (Inr (invitation_page event_id p (Some t) w), w))))"

text \<open>A guest sees neither the pending links nor the addresses of other guests.\<close>

definition hide_from_guest :: "string \<Rightarrow> string \<Rightarrow> invitation_view list \<Rightarrow> invitation_view list" where
  "hide_from_guest owner_email reader rows =
     (if eq_ignore_ascii_case owner_email reader then rows
      else map (\<lambda>v. if \<not> eq_ignore_ascii_case (iv_email v) reader
                       \<and> \<not> eq_ignore_ascii_case (iv_email v) owner_email
                    then v\<lparr>iv_email := []\<rparr> else v)
             (filter (\<lambda>v. iv_user_id v \<noteq> None) rows))"

definition list_event_invitations ::
    "request \<Rightarrow> int \<Rightarrow> page_query \<Rightarrow> (invitation_view list \<times> string option) answer act" where
  "list_event_invitations req event_id q =
     andthen (claims_email req) (\<lambda>requester.
     andthen (fetch_event_owner_email event_id) (\<lambda>owner_email.
     andthen (ensure_event_participant req event_id) (\<lambda>_.
     andthen get_state (\<lambda>w.
     andthen (from_result (page_request (enforce_page_defaults (cfg w)) q)) (\<lambda>pg.
     andthen (stmt (\<lambda>_. db_error) (invitations_statement event_id pg)) (\<lambda>rows.
     let list = hide_from_guest owner_email requester rows in
     return (Answer 200 (case pg of
         None \<Rightarrow> (list, None)
       | Some p \<Rightarrow> json_page list (pg_limit p) (\<lambda>v. show_int (timestamp_millis (iv_date_invi v))))))))))) "

definition my_invitations :: "string \<Rightarrow> page option \<Rightarrow> world \<Rightarrow> invitation_view list" where
  "my_invitations email pg w =
     (let mine = List.map_filter (\<lambda>i. Option.bind (find (\<lambda>u. u_id u = i_user_id i) (users (db w))) (\<lambda>u.
            if u_email_hash u \<noteq> email_lookup (cfg w) email then None
            else map_option (\<lambda>e. invitation_view_of u e (shown_status (day_of (clock w)) e (i_status i)) i)
              (live_event (db w) (i_event_id i)))) (invitations (db w)) in
      case pg of
        None \<Rightarrow> sort_key (\<lambda>v. (- iv_date_invi v, - iv_event_id v)) mine
      | Some p \<Rightarrow> fetch_after (\<lambda>i v. iv_event_id v < i) (sort_key (\<lambda>v. - iv_event_id v) mine)
          (pg_after_id p) (fetch_limit p))"

definition list_my_invitations :: "request \<Rightarrow> page_query \<Rightarrow> (invitation_view list \<times> string option) answer act" where
  "list_my_invitations req q =
     andthen (claims_email req) (\<lambda>email.
     andthen get_state (\<lambda>w.
     andthen (from_result (page_request (enforce_page_defaults (cfg w)) q)) (\<lambda>pg.
     andthen (query db_error (my_invitations email pg)) (\<lambda>list.
     return (Answer 200 (case pg of
         None \<Rightarrow> (list, None)
       | Some p \<Rightarrow> json_page list (pg_limit p) (\<lambda>v. show_int (iv_event_id v))))))))"

section \<open>Inviting an address\<close>

record event_email_metadata =
  em_name :: string
  em_date :: int
  em_start_time :: micros

definition fetch_event_email_metadata :: "int \<Rightarrow> event_email_metadata act" where
  "fetch_event_email_metadata event_id =
     andthen (query db_error (\<lambda>w. map_option (\<lambda>e. \<lparr>em_name = e_name e,
         em_date = ef_date_event (e_form e), em_start_time = ef_start_time (e_form e)\<rparr>)
       (find (\<lambda>e. e_id e = event_id) (events (db w))))) (\<lambda>row.
     some_or row (not_found ''event_not_found''))"

definition build_share_link :: "config \<Rightarrow> string \<Rightarrow> uuid \<Rightarrow> string" where
  "build_share_link c base_url token =
     (let canonical = (if trim_end_char CHR ''/'' base_url = ''https://fiestaaa.app''
                       then ''https://fiestaaa.app/link'' else base_url);
          trimmed = trim_end_char CHR ''/'' canonical in
      if CHR ''?'' \<in> set trimmed then trimmed @ ''&shareToken='' @ uuid_show c token
      else trimmed @ ''?shareToken='' @ uuid_show c token)"

definition escape_html :: "string \<Rightarrow> string" where
  "escape_html input =
     replace_char (CHR 0x27) ''&#39;'' (replace_char (CHR 0x22) ''&quot;''
       (replace_char CHR ''>'' ''&gt;'' (replace_char CHR ''<'' ''&lt;'' (replace_char CHR ''&'' ''&amp;'' input))))"

definition post_mail :: "mail \<Rightarrow> unit act" where
  "post_mail m = (\<lambda>w. case send_mail (cfg w) m of
       MailAccepted \<Rightarrow> (Inr (), w\<lparr>mailed := mailed w @ [m]\<rparr>)
     | MailRefused status \<Rightarrow> (Inl (ApiError 502 ''email_send_failed''), w)
     | MailTransportError \<Rightarrow> (Inl (ApiError 502 ''email_send_failed''), w))"

definition send_invitation_email :: "string \<Rightarrow> string \<Rightarrow> string \<Rightarrow> event_email_metadata \<Rightarrow> unit act" where
  "send_invitation_email to_email owner_email share_link meta = andthen get_state (\<lambda>w.
     andthen (some_or (invitation_email_sender (cfg w)) (ApiError 503 ''email_not_configured'')) (\<lambda>sender.
     andthen (some_or (invitation_email_api_key (cfg w)) (ApiError 503 ''email_not_configured'')) (\<lambda>_.
     post_mail \<lparr>m_from = sender, m_to = to_email,
       m_subject = owner_email @ '' t'' @ [CHR 0x27] @ ''invite '' @ a_grave @ '' '' @ [CHR 0x22] @ em_name meta
         @ [CHR 0x22] @ '' sur Fiestaaa'',
       m_event_name = em_name meta, m_date = em_date meta, m_time = em_start_time meta, m_link = share_link,
       m_html_event_name = escape_html (em_name meta), m_html_owner = escape_html owner_email,
       m_html_link = escape_html share_link\<rparr>)))"

text \<open>\<open>guard_targeted_links\<close>: a link for a user and an organiser who blocked one another.\<close>

definition blocked_target :: "database \<Rightarrow> share_token \<Rightarrow> bool" where
  "blocked_target d s \<longleftrightarrow>
     (case (Option.bind (st_target_hash s) (\<lambda>h. find (\<lambda>u. u_email_hash u = h) (users d)),
            find (\<lambda>e. e_id e = st_event_id s) (events d)) of
        (Some u, Some e) \<Rightarrow> contact_blocked d (e_owner_id e) (u_id u)
      | _ \<Rightarrow> False)"

definition insert_share_token :: "share_token \<Rightarrow> world \<Rightarrow> (sql_error + unit) \<times> world" where
  "insert_share_token s w =
     (let d = db w in
      if blocked_target d s then (Inl CheckViolation, w)
      else if exists_where (\<lambda>r. st_token_hash r = st_token_hash s) (share_tokens d) then (Inl UniqueViolation, w)
      else if \<not> exists_where (\<lambda>e. e_id e = st_event_id s) (events d)
              \<or> (case st_created_by s of None \<Rightarrow> False | Some u \<Rightarrow> \<not> exists_where (\<lambda>r. u_id r = u) (users d))
      then (Inl ForeignKeyViolation, w)
      else (Inr (), w\<lparr>db := d\<lparr>share_tokens := share_tokens d @ [s]\<rparr>\<rparr>))"

definition store_link :: "int \<Rightarrow> string \<Rightarrow> string \<Rightarrow> string \<Rightarrow> unit act" where
  "store_link event_id invitee owner_email hash = transact db_error (
     andthen get_state (\<lambda>w.
     andthen (inv_fetch_user_by_email owner_email) (\<lambda>owner.
     stmt (\<lambda>_. db_error) (insert_share_token
       \<lparr>st_token_hash = hash, st_event_id = event_id, st_created_by = Some (u_id owner), st_used_at = None,
        st_used_by = None, st_expires_at = clock w + days 7, st_target_email = Some invitee,
        st_target_hash = Some (email_lookup (cfg w) invitee), st_created_at = clock w\<rparr>))))"

definition drop_link :: "string \<Rightarrow> database \<Rightarrow> database" where
  "drop_link hash d = d\<lparr>share_tokens := delete_where (\<lambda>s. st_token_hash s = hash) (share_tokens d)\<rparr>"

text \<open>\<open>m\<close>, and \<open>c\<close> after an error of \<open>m\<close>, whose answer it keeps.\<close>

definition on_error :: "'a act \<Rightarrow> unit act \<Rightarrow> 'a act" where
  "on_error m c = (\<lambda>w. case m w of (Inl e, w') \<Rightarrow> (Inl e, snd (c w')) | (Inr x, w') \<Rightarrow> (Inr x, w'))"

datatype invite_body = EmailSent | Invited invitation_view

abbreviation email_accepted :: "invite_body answer" where
  "email_accepted \<equiv> Answer 202 EmailSent"

text \<open>An address that is not written to gives the same answer as one that is.\<close>

definition mail_a_link :: "int \<Rightarrow> string \<Rightarrow> string \<Rightarrow> uuid \<Rightarrow> event_email_metadata \<Rightarrow> invite_body answer act" where
  "mail_a_link event_id invitee owner_email token meta = andthen get_state (\<lambda>w.
     let hash = sha256_hex (cfg w) (uuid_show (cfg w) token) in
     andthen (store_link event_id invitee owner_email hash) (\<lambda>_.
     andthen (on_error (send_invitation_email invitee owner_email
         (build_share_link (cfg w) (app_base_url (cfg w)) token) meta)
       (execute db_error (\<lambda>w. ((), drop_link hash (db w))))) (\<lambda>_.
     andthen (publish_event_type event_id ''event.invitations.changed'') (\<lambda>_.
     andthen (publish_global_type ''invitations.changed'') (\<lambda>_.
     return email_accepted)))))"

definition invite_email_target :: "int \<Rightarrow> string \<Rightarrow> string \<Rightarrow> uuid \<Rightarrow> invite_body answer act" where
  "invite_email_target event_id invitee_email owner_email token = andthen get_state (\<lambda>w.
     let invitee = normalize_email (cfg w) invitee_email in
     andthen (require (invitee \<noteq> []) (bad_request ''invalid_email'')) (\<lambda>_.
     if eq_ignore_ascii_case invitee owner_email then return email_accepted
     else andthen (query (ApiError 503 []) (\<lambda>w.
         case (user_by_email w invitee, find (\<lambda>e. e_id e = event_id) (events (db w))) of
           (Some u, Some e) \<Rightarrow> contact_blocked (db w) (e_owner_id e) (u_id u)
         | _ \<Rightarrow> False)) (\<lambda>blocked.
     if blocked then return email_accepted
     else andthen (fetch_event_email_metadata event_id) (\<lambda>meta.
     andthen (query db_error (\<lambda>w. case user_by_email w invitee of None \<Rightarrow> False
         | Some u \<Rightarrow> exists_where (\<lambda>i. is_invitation event_id (u_id u) i \<and> i_status i \<noteq> Expired)
             (invitations (db w)))) (\<lambda>already_invited.
     if already_invited then return email_accepted
     else andthen (query db_error (\<lambda>w. exists_where (\<lambda>s. open_link (clock w) event_id s
         \<and> st_target_hash s = Some (email_lookup (cfg w) invitee)) (share_tokens (db w)))) (\<lambda>existing_pending.
     if existing_pending then return email_accepted
     else mail_a_link event_id invitee owner_email token meta))))))"

section \<open>Inviting a user\<close>

text \<open>
  \<open>INSERT INTO invitations .. ON CONFLICT DO UPDATE .. WHERE status = 'Expired'\<close> under the trigger
  \<open>guard_invitations\<close>.
\<close>

definition insert_invitation_for_user :: "int \<Rightarrow> user \<Rightarrow> world \<Rightarrow> (sql_error + invitation_view option) \<times> world" where
  "insert_invitation_for_user event_id u w =
     (let (k, w') = nextval InvitationSeq w; d = db w;
          ev = find (\<lambda>e. e_id e = event_id) (events d);
          view = (\<lambda>i. (invitation_view_of u (the ev) Waiting i)) in
      if (case ev of None \<Rightarrow> False | Some e \<Rightarrow> contact_blocked d (e_owner_id e) (u_id u))
      then (Inl CheckViolation, w')
      else case find (is_invitation event_id (u_id u)) (invitations d) of
        Some i \<Rightarrow>
          if i_status i = Expired
          then (Inr (Some (view (i\<lparr>i_date := clock w\<rparr>))), w'\<lparr>db := d\<lparr>invitations := update_where
                 (is_invitation event_id (u_id u)) (\<lambda>i. i\<lparr>i_status := Waiting, i_date := clock w\<rparr>) (invitations d)\<rparr>\<rparr>)
          else (Inr None, w')
      | None \<Rightarrow>
          if ev = None \<or> \<not> exists_where (\<lambda>r. u_id r = u_id u) (users d) then (Inl ForeignKeyViolation, w')
          else (let i = \<lparr>i_event_id = event_id, i_user_id = u_id u, i_status = Waiting, i_date = clock w, i_id = k\<rparr>
                in (Inr (Some (view i)), w'\<lparr>db := d\<lparr>invitations := invitations d @ [i]\<rparr>\<rparr>)))"

definition invite_error :: "sql_error \<Rightarrow> api_error" where
  "invite_error e =
     (case e of CheckViolation \<Rightarrow> forbidden ''contact_unavailable''
      | UniqueViolation \<Rightarrow> conflict ''invitation_exists''
      | _ \<Rightarrow> db_error)"

definition invite_notice :: "int \<Rightarrow> string \<Rightarrow> invitation_view \<Rightarrow> notification_request" where
  "invite_notice event_id owner_email v =
     (let event_name = (case iv_event_name v of Some n \<Rightarrow> n | None \<Rightarrow> ''un '' @ e_acute @ ''v'' @ e_acute @ ''nement'') in
      \<lparr>nr_title = ''Invitation '' @ a_grave @ '' '' @ event_name,
       nr_body = owner_email @ '' t'' @ [CHR 0x27] @ ''a invit'' @ e_acute @ ''(e) '' @ a_grave @ '' '' @ event_name,
       nr_data = JObj [(''type'', JStr ''invite_received''), (''event_id'', JInt event_id),
         (''event_name'', (case iv_event_name v of Some n \<Rightarrow> JStr n | None \<Rightarrow> JNull))],
       nr_dedup_base_key = Some (''invite_received:'' @ show_int event_id), nr_dedup_ttl = 600\<rparr>)"

definition invite_handle_target :: "int \<Rightarrow> string \<Rightarrow> string \<Rightarrow> invite_body answer act" where
  "invite_handle_target event_id handle owner_email =
     andthen (inv_find_user_by_handle handle) (\<lambda>row.
     andthen (some_or row (not_found ''user_not_found'')) (\<lambda>user.
     andthen (stmt invite_error (insert_invitation_for_user event_id user)) (\<lambda>inserted.
     andthen (some_or inserted (conflict ''invitation_exists'')) (\<lambda>v.
     andthen (publish_event_type event_id ''event.invitations.changed'') (\<lambda>_.
     andthen (publish_global_type ''invitations.changed'') (\<lambda>_.
     andthen (notify_users [u_id user] (invite_notice event_id owner_email v)) (\<lambda>_.
     return (Answer 201 (Invited v)))))))))"

definition create_invitation ::
    "(string \<Rightarrow> bool) \<Rightarrow> client \<Rightarrow> uuid \<Rightarrow> request \<Rightarrow> int \<Rightarrow> string \<Rightarrow> invite_body answer act" where
  "create_invitation allowed client token req event_id raw =
     andthen (inv_ensure_event_owner req event_id) (\<lambda>owner_email.
     andthen (ensure_event_writable event_id) (\<lambda>_.
     andthen (query db_error (\<lambda>w. find (\<lambda>e. e_id e = event_id) (events (db w)))) (\<lambda>row.
     andthen get_state (\<lambda>w.
     andthen (require (\<not> (case row of None \<Rightarrow> False | Some e \<Rightarrow> deadline_passed (day_of (clock w)) e))
       (gone ''invitation_expired'')) (\<lambda>_.
     andthen (from_result (parse_identifier (cfg w) raw)) (\<lambda>identifier.
     case identifier of
       ByEmail email \<Rightarrow>
         andthen (enforce_invitation_rate_limit allowed client owner_email) (\<lambda>_.
         invite_email_target event_id email owner_email token)
     | ByHandle handle \<Rightarrow> invite_handle_target event_id handle owner_email))))))"

section \<open>Taking an invitation back\<close>

definition delete_invitations :: "(invitation \<Rightarrow> bool) \<Rightarrow> database \<Rightarrow> nat \<times> database" where
  "delete_invitations p d = (count_where p (invitations d), d\<lparr>invitations := delete_where p (invitations d)\<rparr>)"

definition delete_invitation :: "request \<Rightarrow> int \<Rightarrow> string \<Rightarrow> string answer act" where
  "delete_invitation req event_id identifier =
     andthen (inv_ensure_event_owner req event_id) (\<lambda>_.
     andthen (ensure_event_writable event_id) (\<lambda>_.
     andthen (case parse_i64 identifier of
         Some invitation_id \<Rightarrow> execute db_error (\<lambda>w.
           delete_invitations (\<lambda>i. i_event_id i = event_id \<and> i_id i = invitation_id) (db w))
       | None \<Rightarrow>
           andthen (fetch_event_owner_email event_id) (\<lambda>owner_email.
           andthen (require (\<not> eq_ignore_ascii_case owner_email (trim identifier)) (bad_request ''cannot_remove_owner'')) (\<lambda>_.
           andthen (inv_fetch_user_by_email identifier) (\<lambda>user.
           execute db_error (\<lambda>w. delete_invitations (is_invitation event_id (u_id user)) (db w)))))) (\<lambda>rows_affected.
     andthen (require (rows_affected \<noteq> 0) (not_found ''invitation_not_found'')) (\<lambda>_.
     andthen (publish_event_type event_id ''event.invitations.changed'') (\<lambda>_.
     andthen (publish_global_type ''invitations.changed'') (\<lambda>_.
     return (Answer 200 ''deleted'')))))))"

section \<open>Answering\<close>

definition parse_response :: "string option \<Rightarrow> invitation_status option" where
  "parse_response status =
     (case status of
        None \<Rightarrow> None
      | Some s \<Rightarrow> if trim s = ''Accepted'' then Some Accepted
                  else if trim s = ''Declined'' then Some Declined else None)"

definition set_status :: "int \<Rightarrow> int \<Rightarrow> invitation_status \<Rightarrow> database \<Rightarrow> database" where
  "set_status event_id user_id status d =
     d\<lparr>invitations := update_where (is_invitation event_id user_id) (\<lambda>i. i\<lparr>i_status := status\<rparr>) (invitations d)\<rparr>"

definition answered_view :: "int \<Rightarrow> int \<Rightarrow> invitation_status \<Rightarrow> database \<Rightarrow> invitation_view option" where
  "answered_view event_id user_id status d =
     Option.bind (find (is_invitation event_id user_id) (invitations d)) (\<lambda>i.
     Option.bind (find (\<lambda>u. u_id u = i_user_id i) (users d)) (\<lambda>u.
     map_option (\<lambda>e. invitation_view_of u e status i) (find (\<lambda>e. e_id e = i_event_id i) (events d))))"

definition lower_quantity :: "int \<Rightarrow> user_item \<Rightarrow> database \<Rightarrow> database" where
  "lower_quantity event_id r d = d\<lparr>events_items := update_where (is_event_item event_id (ui_item_id r))
     (\<lambda>e. e\<lparr>ei_quantity := max (ei_quantity e - ui_quantity r) 0\<rparr>) (events_items d)\<rparr>"

definition is_own_reservation :: "int \<Rightarrow> int \<Rightarrow> user_item \<Rightarrow> bool" where
  "is_own_reservation event_id user_id r \<longleftrightarrow> ui_user_id r = user_id \<and> ui_event_id r = event_id"

definition return_reservations :: "int \<Rightarrow> int \<Rightarrow> unit act" where
  "return_reservations event_id user_id =
     andthen (query db_error (\<lambda>w. filter (is_own_reservation event_id user_id) (user_items (db w)))) (\<lambda>reservations.
     andthen (for_each reservations (\<lambda>r. execute db_error (\<lambda>w. ((), lower_quantity event_id r (db w))))) (\<lambda>_.
     execute db_error (\<lambda>w. ((), (db w)\<lparr>user_items :=
       delete_where (is_own_reservation event_id user_id) (user_items (db w))\<rparr>))))"

definition drop_own_carpool :: "int \<Rightarrow> int \<Rightarrow> unit act" where
  "drop_own_carpool event_id carpool_id =
     andthen (execute db_error (\<lambda>w. ((), (db w)\<lparr>passengers :=
       delete_where (\<lambda>p. cp_carpool_id p = carpool_id) (passengers (db w))\<rparr>))) (\<lambda>_.
     andthen (execute db_error (\<lambda>w. ((), (db w)\<lparr>carpools :=
       delete_where (\<lambda>c. c_id c = carpool_id) (carpools (db w))\<rparr>))) (\<lambda>_.
     publish_event event_id (carpool_message ''carpool_deleted'' carpool_id)))"

definition give_up_seat :: "int \<Rightarrow> int \<Rightarrow> int \<Rightarrow> unit act" where
  "give_up_seat event_id user_id carpool_id =
     andthen (execute db_error (\<lambda>w. ((), (db w)\<lparr>passengers :=
       delete_where (\<lambda>p. cp_carpool_id p = carpool_id \<and> cp_user_id p = user_id) (passengers (db w))\<rparr>))) (\<lambda>_.
     andthen (execute db_error (\<lambda>w. ((), (db w)\<lparr>carpools := update_where (\<lambda>c. c_id c = carpool_id)
       (\<lambda>c. c\<lparr>c_seats_taken := max (c_seats_taken c - 1) 0\<rparr>) (carpools (db w))\<rparr>))) (\<lambda>_.
     publish_event event_id (JObj [(''type'', JStr ''carpool_left''), (''carpool_id'', JInt carpool_id),
       (''user_id'', JInt user_id)])))"

definition driver_carpool :: "int \<Rightarrow> int \<Rightarrow> database \<Rightarrow> int option" where
  "driver_carpool event_id user_id d =
     map_option c_id (find (\<lambda>c. c_driver_id c = user_id \<and> c_event_id c = event_id) (carpools d))"

definition passenger_carpool :: "int \<Rightarrow> int \<Rightarrow> database \<Rightarrow> int option" where
  "passenger_carpool event_id user_id d =
     map_option cp_carpool_id (find (\<lambda>p. cp_user_id p = user_id
       \<and> exists_where (\<lambda>c. c_id c = cp_carpool_id p \<and> c_event_id c = event_id) (carpools d)) (passengers d))"

text \<open>
  The errors of the two lookups are ignored, but PostgreSQL refuses every later statement of a
  transaction in which one failed, and turns its \<open>COMMIT\<close> into a rollback.  The result says whether
  that happened.
\<close>

definition leave_carpools :: "int \<Rightarrow> int \<Rightarrow> bool act" where
  "leave_carpools event_id user_id =
     andthen (attempt (query db_error (\<lambda>w. driver_carpool event_id user_id (db w)))) (\<lambda>driver.
     andthen (case driver of Some (Some carpool_id) \<Rightarrow> drop_own_carpool event_id carpool_id | _ \<Rightarrow> return ()) (\<lambda>_.
     andthen (attempt (query db_error (\<lambda>w. passenger_carpool event_id user_id (db w)))) (\<lambda>passenger.
     andthen (case (driver, passenger) of
         (Some _, Some (Some carpool_id)) \<Rightarrow> give_up_seat event_id user_id carpool_id | _ \<Rightarrow> return ()) (\<lambda>_.
     return (driver = None \<or> passenger = None)))))"

definition respond_body :: "int \<Rightarrow> int \<Rightarrow> invitation_status \<Rightarrow> (invitation_view \<times> bool) act" where
  "respond_body event_id user_id target =
     andthen (query db_error (\<lambda>w. map_option i_status (find (is_invitation event_id user_id) (invitations (db w))))) (\<lambda>row.
     andthen (some_or row (not_found ''invitation_not_found'')) (\<lambda>current.
     andthen (require (current \<noteq> Expired) (gone ''invitation_expired'')) (\<lambda>_.
     andthen (execute db_error (\<lambda>w. (answered_view event_id user_id target (db w),
       set_status event_id user_id target (db w)))) (\<lambda>res.
     andthen (some_or res (not_found ''invitation_not_found'')) (\<lambda>updated.
     andthen (if target = Declined
       then andthen (return_reservations event_id user_id) (\<lambda>_. leave_carpools event_id user_id)
       else return False) (\<lambda>aborted.
     return (updated, aborted)))))))"

definition commit_unless_aborted :: "api_error \<Rightarrow> ('a \<times> bool) act \<Rightarrow> 'a act" where
  "commit_unless_aborted e body = (\<lambda>w. if fault w then (Inl e, tick w)
     else case body (tick w) of
       (Inl x, w') \<Rightarrow> (Inl x, w'\<lparr>db := db w\<rparr>)
     | (Inr (x, aborted), w') \<Rightarrow>
         if fault w' then (Inl e, (tick w')\<lparr>db := db w\<rparr>)
         else (Inr x, if aborted then (tick w')\<lparr>db := db w\<rparr> else tick w'))"

definition find_user_id_by_email :: "string \<Rightarrow> int option act" where
  "find_user_id_by_email email = query db_error (\<lambda>w. map_option u_id (user_by_email w email))"

definition status_name :: "invitation_status \<Rightarrow> string" where
  "status_name s = (case s of Waiting \<Rightarrow> ''Waiting'' | Accepted \<Rightarrow> ''Accepted'' | Declined \<Rightarrow> ''Declined''
     | Expired \<Rightarrow> ''Expired'')"

definition invite_response_notice :: "int \<Rightarrow> int \<Rightarrow> invitation_status \<Rightarrow> invitation_view \<Rightarrow> notification_request" where
  "invite_response_notice event_id user_id target updated =
     (let label = (if target = Accepted then ''accept'' @ e_acute else ''refus'' @ e_acute);
          event_name = (case iv_event_name updated of Some n \<Rightarrow> n | None \<Rightarrow> ''un '' @ e_acute @ ''v'' @ e_acute @ ''nement'');
          author = (case iv_handle updated of Some h \<Rightarrow> h | None \<Rightarrow> iv_email updated) in
      \<lparr>nr_title = ''R'' @ e_acute @ ''ponse '' @ a_grave @ '' ton invitation'',
       nr_body = author @ '' a '' @ label @ '' l'' @ [CHR 0x27] @ ''invitation '' @ a_grave @ '' '' @ event_name,
       nr_data = JObj [(''type'', JStr ''invite_response''), (''event_id'', JInt event_id),
         (''status'', JStr (status_name target)), (''user_email'', JStr (iv_email updated)),
         (''user_handle'', (case iv_handle updated of Some h \<Rightarrow> JStr h | None \<Rightarrow> JNull))],
       nr_dedup_base_key = Some (''invite_response:'' @ show_int event_id @ '':'' @ show_int user_id),
       nr_dedup_ttl = 300\<rparr>)"

definition announce_answer ::
    "int \<Rightarrow> int \<Rightarrow> string \<Rightarrow> string \<Rightarrow> invitation_status \<Rightarrow> invitation_view \<Rightarrow> unit act" where
  "announce_answer event_id user_id email owner_email target updated =
     andthen (publish_event_type event_id ''event.invitations.changed'') (\<lambda>_.
     andthen (publish_global_type ''invitations.changed'') (\<lambda>_.
     andthen (if target = Declined
       then publish_event event_id (JObj [(''type'', JStr ''event.items.changed''), (''event_id'', JInt event_id),
         (''reason'', JStr ''invitation_declined'')])
       else return ()) (\<lambda>_.
     if eq_ignore_ascii_case owner_email email then return ()
     else andthen (attempt (find_user_id_by_email owner_email)) (\<lambda>found. case found of
         Some (Some owner_id) \<Rightarrow> notify_users [owner_id] (invite_response_notice event_id user_id target updated)
       | _ \<Rightarrow> return ()))))"

definition respond_invitation :: "request \<Rightarrow> int \<Rightarrow> string option \<Rightarrow> invitation_view answer act" where
  "respond_invitation req event_id status =
     andthen (claims_email req) (\<lambda>email.
     andthen (ensure_event_writable event_id) (\<lambda>_.
     andthen (some_or (parse_response status) (bad_request ''invalid_status'')) (\<lambda>target.
     andthen (inv_fetch_user_by_email email) (\<lambda>user.
     andthen (fetch_event_owner_email event_id) (\<lambda>owner_email.
     andthen expire_overdue_invitations (\<lambda>_.
     andthen (commit_unless_aborted db_error (respond_body event_id (u_id user) target)) (\<lambda>updated.
     andthen (announce_answer event_id (u_id user) email owner_email target updated) (\<lambda>_.
     return (Answer 200 updated)))))))))"

end
