(* ===== verification/Share_Links.thy ===== *)
theory Share_Links
  imports Invitations
begin

text \<open>
  Links that invite whoever opens them (\<open>src/routes/events/share_links.rs\<close>): the organiser makes one,
  good for a day; a link sent by mail is good for a week and for its address only.  A link is used
  once.  Only the hash of its token is stored.
\<close>

record share_token_response =
  sh_token :: uuid
  sh_event_id :: int

definition create_share_link :: "uuid \<Rightarrow> request \<Rightarrow> int \<Rightarrow> share_token_response answer act" where
  "create_share_link token req event_id =
     andthen (claims_email req) (\<lambda>owner_email.
     andthen (events_fetch_user_id owner_email) (\<lambda>owner_user_id.
     andthen (events_ensure_event_owner req event_id) (\<lambda>_.
     andthen (ensure_event_writable event_id) (\<lambda>_.
     andthen (ensure_event_exists event_id) (\<lambda>_.
     andthen get_state (\<lambda>w.
     andthen (stmt (\<lambda>_. db_error) (insert_share_token
       \<lparr>st_token_hash = sha256_hex (cfg w) (uuid_show (cfg w) token), st_event_id = event_id,
        st_created_by = Some owner_user_id, st_used_at = None, st_used_by = None,
        st_expires_at = clock w + seconds (24 * 3600), st_target_email = None, st_target_hash = None,
        st_created_at = clock w\<rparr>)) (\<lambda>_.
     return (Answer 201 \<lparr>sh_token = token, sh_event_id = event_id\<rparr>))))))))"

text \<open>\<open>INSERT INTO invitations .. ON CONFLICT DO NOTHING\<close>; the result says whether there is a new row.\<close>

definition insert_if_absent :: "int \<Rightarrow> int \<Rightarrow> world \<Rightarrow> (sql_error + bool) \<times> world" where
  "insert_if_absent event_id user_id w =
     (let (k, w') = nextval InvitationSeq w; d = db w;
          ev = find (\<lambda>e. e_id e = event_id) (events d) in
      if (case ev of None \<Rightarrow> False | Some e \<Rightarrow> contact_blocked d (e_owner_id e) user_id)
      then (Inl CheckViolation, w')
      else if exists_where (is_invitation event_id user_id) (invitations d) then (Inr False, w')
      else if ev = None \<or> \<not> exists_where (\<lambda>r. u_id r = user_id) (users d) then (Inl ForeignKeyViolation, w')
      else (Inr True, w'\<lparr>db := d\<lparr>invitations := invitations d
        @ [\<lparr>i_event_id = event_id, i_user_id = user_id, i_status = Waiting, i_date = clock w, i_id = k\<rparr>]\<rparr>\<rparr>))"

definition use_token :: "string \<Rightarrow> int \<Rightarrow> world \<Rightarrow> (sql_error + unit) \<times> world" where
  "use_token hash user_id w =
     (let d = db w; hit = (\<lambda>s. st_token_hash s = hash) in
      if exists_where (\<lambda>s. hit s \<and> blocked_target d s) (share_tokens d) then (Inl CheckViolation, w)
      else (Inr (), w\<lparr>db := d\<lparr>share_tokens := update_where hit
        (\<lambda>s. s\<lparr>st_used_at := Some (clock w), st_used_by := Some user_id\<rparr>) (share_tokens d)\<rparr>\<rparr>))"

text \<open>The link must be unused, in time, and for this address.\<close>

definition check_token :: "string \<Rightarrow> string \<Rightarrow> share_token act" where
  "check_token email hash =
     andthen (query db_error (\<lambda>w. find (\<lambda>s. st_token_hash s = hash) (share_tokens (db w)))) (\<lambda>row.
     andthen (some_or row (not_found ''token_not_found'')) (\<lambda>token_row.
     andthen (require (st_used_at token_row = None) (gone ''token_used'')) (\<lambda>_.
     andthen now (\<lambda>t.
     andthen (require (\<not> st_expires_at token_row < t) (gone ''token_expired'')) (\<lambda>_.
     andthen (require (case st_target_email token_row of None \<Rightarrow> True
         | Some expected \<Rightarrow> eq_ignore_ascii_case expected email) (forbidden ''token_recipient_mismatch'')) (\<lambda>_.
     return token_row))))))"

definition claim_body :: "string \<Rightarrow> string \<Rightarrow> (event_view \<times> bool) act" where
  "claim_body email hash =
     andthen (check_token email hash) (\<lambda>token_row.
     andthen (ensure_event_writable (st_event_id token_row)) (\<lambda>_.
     andthen (query db_error (\<lambda>w. select_event w (st_event_id token_row))) (\<lambda>row.
     andthen (some_or row (not_found ''event_not_found'')) (\<lambda>event.
     andthen now (\<lambda>t.
     andthen (require (\<not> deadline_passed (day_of t) (evw_event event)) (gone ''invitation_expired'')) (\<lambda>_.
     andthen (events_fetch_user_id email) (\<lambda>user_id.
     andthen (stmt (\<lambda>_. db_error) (insert_if_absent (e_id (evw_event event)) user_id)) (\<lambda>invitation_inserted.
     andthen (stmt (\<lambda>_. db_error) (use_token hash user_id)) (\<lambda>_.
     return (event, invitation_inserted))))))))))"

definition claim_share_link :: "request \<Rightarrow> string \<Rightarrow> event_view answer act" where
  "claim_share_link req raw =
     andthen (extract_active_claims_from_auth req) (\<lambda>claims.
     let token = trim raw in
     andthen (require (token \<noteq> []) (bad_request ''invalid_token'')) (\<lambda>_.
     andthen get_state (\<lambda>w.
     andthen (some_or (uuid_parse (cfg w) token) (bad_request ''invalid_token'')) (\<lambda>parsed_token.
     andthen (transact db_error (claim_body (u_email claims)
         (sha256_hex (cfg w) (uuid_show (cfg w) parsed_token)))) (\<lambda>(event, invitation_inserted).
     andthen (if invitation_inserted
       then andthen (publish_event_type (e_id (evw_event event)) ''event.invitations.changed'') (\<lambda>_.
         publish_global_type ''invitations.changed'')
       else return ()) (\<lambda>_.
     return (Answer 200 event)))))))"

end
