(* ===== verification/Checks.thy ===== *)
theory Checks
  imports Outbox
begin

text \<open>
  The guards in front of every handler.  A guard reads the tables, leaves them alone, and either
  answers an error or yields a value of which something is known; \<open>checks m P\<close> says so, for a
  condition \<open>P\<close> on the world in which the request began.  Handlers are a row of guards followed by
  one effect, and \<open>wp_checked\<close> takes the guards off one by one.  After the effect come messages,
  notifications and the view for the answer; such a tail fails with a server error or not at all,
  and touches nothing but the outbox (\<open>trails\<close>).
\<close>

named_theorems check_intros \<open>what is known after a guard\<close>

definition stable :: "(world \<Rightarrow> 'a \<Rightarrow> bool) \<Rightarrow> bool" where
  "stable P \<longleftrightarrow> (\<forall>w v x. same_data w v \<longrightarrow> P v x = P w x)"

definition checks :: "'a act \<Rightarrow> (world \<Rightarrow> 'a \<Rightarrow> bool) \<Rightarrow> bool" where
  "checks m P \<longleftrightarrow> stable P
     \<and> (\<forall>w. wp m (\<lambda>x v. same_data w v \<and> P w x) (\<lambda>_ v. same_data w v) w)"

lemma checksI:
  assumes "stable P" and "\<And>w. wp m (\<lambda>x v. same_data w v \<and> P w x) (\<lambda>_ v. same_data w v) w"
  shows "checks m P"
  using assms by (simp add: checks_def)

lemma checksD: "checks m P \<Longrightarrow> wp m (\<lambda>x v. same_data w v \<and> P w x) (\<lambda>_ v. same_data w v) w"
  by (simp add: checks_def)

lemma checks_wp:
  assumes "checks m P" and "same_data w u"
    and "\<And>x v. same_data w v \<Longrightarrow> P w x \<Longrightarrow> Q x v"
    and "\<And>e v. same_data w v \<Longrightarrow> E e v"
  shows "wp m Q E u"
proof (rule wp_mono [OF checksD [OF assms(1)]])
  fix x v assume "same_data u v \<and> P u x"
  then show "Q x v"
    using assms(1,2) by (intro assms(3) same_data_trans [OF assms(2)]) (auto simp: checks_def stable_def)
next
  fix e v assume "same_data u v"
  then show "E e v" by (intro assms(4) same_data_trans [OF assms(2)])
qed

lemma wp_checked:
  assumes "checks m P" and "same_data w u"
    and "\<And>x v. same_data w v \<Longrightarrow> P w x \<Longrightarrow> wp (f x) Q E v"
    and "\<And>e v. same_data w v \<Longrightarrow> E e v"
  shows "wp (andthen m f) Q E u"
  unfolding wp_andthen using assms by (rule checks_wp)

lemma checks_mono:
  assumes "checks m P" and "stable R" and "\<And>w x. P w x \<Longrightarrow> R w x"
  shows "checks m R"
  using assms by (intro checksI) (auto intro: wp_mono [OF checksD])

lemma checks_andthen:
  assumes "checks m P" and "\<And>x. checks (f x) (R x)"
  shows "checks (andthen m f) (\<lambda>w y. \<exists>x. P w x \<and> R x w y)"
proof (rule checksI)
  have "stable P" "stable (R x)" for x using assms by (auto simp: checks_def)
  then show "stable (\<lambda>w y. \<exists>x. P w x \<and> R x w y)" by (simp add: stable_def)
  fix w
  show "wp (andthen m f) (\<lambda>y v. same_data w v \<and> (\<exists>x. P w x \<and> R x w y)) (\<lambda>_ v. same_data w v) w"
  proof (rule wp_checked [OF assms(1) same_data_refl])
    fix x v assume "same_data w v" "P w x"
    then show "wp (f x) (\<lambda>y v. same_data w v \<and> (\<exists>x. P w x \<and> R x w y)) (\<lambda>_ v. same_data w v) v"
      by (intro checks_wp [OF assms(2)]) auto
  qed
qed

lemma checks_quiet: "quiet m \<Longrightarrow> checks m (\<lambda>_ _. True)"
  by (intro checksI) (simp_all add: stable_def wp_quiet)

lemma quiet_checks: "checks m P \<Longrightarrow> quiet m"
  unfolding quiet_def
proof
  fix w assume "checks m P"
  then have "wp m (\<lambda>_. same_data w) (\<lambda>_. same_data w) w"
    by (intro wp_mono [OF checksD]) auto
  then show "same_data w (snd (m w))" by (rule wp_snd)
qed

section \<open>The guards\<close>

lemma checks_require [check_intros]: "checks (require b e) (\<lambda>_ _. b)"
  by (intro checksI) (simp_all add: stable_def wp_require)

lemma checks_some_or [check_intros]: "checks (some_or x e) (\<lambda>_ y. x = Some y)"
  by (intro checksI) (simp_all add: stable_def wp_some_or split: option.split)

lemma checks_return [check_intros]: "checks (return x) (\<lambda>_ y. y = x)"
  by (intro checksI) (simp_all add: stable_def)

lemma checks_now [check_intros]: "checks now (\<lambda>w t. t = clock w)"
  by (intro checksI) (simp_all add: stable_def wp_now same_data_def)

lemma checks_from_result [check_intros]: "checks (from_result r) (\<lambda>_ y. r = Inr y)"
  by (intro checksI) (simp_all add: stable_def wp_from_result split: sum.split)

lemma checks_get_state [check_intros]:
  "checks get_state (\<lambda>w s. db s = db w \<and> seqs s = seqs w \<and> clock s = clock w \<and> cfg s = cfg w)"
  by (intro checksI) (auto simp: stable_def same_data_def)

text \<open>A query that reads the tables, the clock and the settings only.\<close>

definition reads_data :: "(world \<Rightarrow> 'a) \<Rightarrow> bool" where
  "reads_data g \<longleftrightarrow> (\<forall>w v. same_data w v \<longrightarrow> g v = g w)"

lemma reads_dataI: "(\<And>w v. db v = db w \<Longrightarrow> seqs v = seqs w \<Longrightarrow> clock v = clock w \<Longrightarrow> cfg v = cfg w \<Longrightarrow> g v = g w)
    \<Longrightarrow> reads_data g"
  unfolding reads_data_def same_data_def by blast

lemma checks_query:
  assumes "reads_data g"
  shows "checks (query e g) (\<lambda>w x. x = g w)"
proof (rule checksI)
  show "stable (\<lambda>w x. x = g w)"
    using assms unfolding stable_def reads_data_def by metis
  show "wp (query e g) (\<lambda>x v. same_data w v \<and> x = g w) (\<lambda>_. same_data w) w" for w
    unfolding wp_query using assms [unfolded reads_data_def, rule_format, OF same_data_tick, of w] by simp
qed

lemma checks_query_db [check_intros]: "checks (query e (\<lambda>w. g (db w))) (\<lambda>w x. x = g (db w))"
  by (intro checks_query reads_dataI) simp

lemma checks_attempt: "quiet m \<Longrightarrow> checks (attempt m) (\<lambda>_ _. True)"
  by (intro checks_quiet quiet_attempt)

lemma checks_session [check_intros]: "checks (extract_active_claims_from_auth req) (\<lambda>w. live_session w req)"
  by (intro checksI) (auto simp: stable_def live_session_same_data extract_active_claims_from_auth_def
      intro: wp_mono [OF extract_authenticated_user_live])

lemma user_by_email_stable: "same_data w v \<Longrightarrow> user_by_email v e = user_by_email w e"
  by (simp add: user_by_email_def same_data_def)

lemma checks_user_id [check_intros]:
  "checks (events_fetch_user_id email) (\<lambda>w i. \<exists>u. user_by_email w email = Some u \<and> u_id u = i)"
  by (intro checksI) (auto simp: stable_def user_by_email_stable intro: wp_mono [OF events_fetch_user_id_spec])

lemma checks_owner_id [check_intros]:
  "checks (events_fetch_event_owner_id ev) (\<lambda>w i. \<exists>e. live_event (db w) ev = Some e \<and> e_owner_id e = i)"
  by (intro checksI) (auto simp: stable_def same_data_def intro: wp_mono [OF owner_id_spec])

lemma checks_member [check_intros]:
  "checks (events_ensure_event_member req ev) (\<lambda>w _. \<exists>u. requester w req u \<and> belongs w ev u)"
  by (intro checksI) (auto simp: stable_def requester_same_data belongs_same_data
      intro: wp_mono [OF events_ensure_event_member_spec])

lemma checks_writable [check_intros]: "checks (ensure_event_writable ev) (\<lambda>w _. writable w ev)"
  by (intro checksI) (auto simp: stable_def writable_same_data intro: wp_mono [OF ensure_event_writable_spec])

lemma checks_event_exists [check_intros]:
  "checks (ensure_event_exists ev) (\<lambda>w _. live_event (db w) ev \<noteq> None)"
  unfolding ensure_event_exists_def
  by (rule checks_mono [OF checks_andthen [OF checks_query_db checks_require]]) (auto simp: stable_def same_data_def)

lemma checks_contact [check_intros]: "checks (ensure_contact a b) (\<lambda>w _. \<not> contact_blocked (db w) a b)"
  by (intro checksI) (auto simp: stable_def same_data_def intro: wp_mono [OF ensure_contact_spec])

lemma checks_claims_email [check_intros]:
  "checks (claims_email req) (\<lambda>w email. \<exists>u. live_session w req u \<and> email = lowercase (cfg w) (u_email u))"
proof (rule checksI)
  show "stable (\<lambda>w email. \<exists>u. live_session w req u \<and> email = lowercase (cfg w) (u_email u))"
    unfolding stable_def
  proof (intro allI impI)
    fix w v email assume "same_data w v"
    then show "(\<exists>u. live_session v req u \<and> email = lowercase (cfg v) (u_email u))
        = (\<exists>u. live_session w req u \<and> email = lowercase (cfg w) (u_email u))"
      using live_session_same_data [of w v] by (simp add: same_data_def)
  qed
qed (rule wp_mono [OF claims_email_spec], auto)

text \<open>The account named by the live session of a request, and the organiser of an event.\<close>

definition acting :: "world \<Rightarrow> request \<Rightarrow> int \<Rightarrow> bool" where
  "acting w req u \<longleftrightarrow>
     (\<exists>s r. live_session w req s \<and> user_by_email w (u_email s) = Some r \<and> u_id r = u)"

definition owns :: "world \<Rightarrow> int \<Rightarrow> int \<Rightarrow> bool" where
  "owns w ev u \<longleftrightarrow> (\<exists>e. live_event (db w) ev = Some e \<and> e_owner_id e = u)"

text \<open>\<open>ensure_event_owner\<close> lets the organiser pass, and the addresses of the administrators.\<close>

definition administers :: "world \<Rightarrow> request \<Rightarrow> bool" where
  "administers w req \<longleftrightarrow>
     (\<exists>s. live_session w req s \<and> lowercase (cfg w) (u_email s) \<in> set (admin_emails (cfg w)))"

lemma checks_owner [check_intros]:
  "checks (events_ensure_event_owner req ev)
     (\<lambda>w u. requester w req u \<and> (administers w req \<or> owns w ev u))"
proof (rule checksI)
  show "stable (\<lambda>w u. requester w req u \<and> (administers w req \<or> owns w ev u))"
    unfolding stable_def
  proof (intro allI impI)
    fix w v u assume same: "same_data w v"
    then have "cfg v = cfg w" "db v = db w" by (simp_all add: same_data_def)
    then show "(requester v req u \<and> (administers v req \<or> owns v ev u))
        = (requester w req u \<and> (administers w req \<or> owns w ev u))"
      by (simp add: requester_same_data [OF same] live_session_same_data [OF same] administers_def owns_def)
  qed
  fix w
  have last: "checks (andthen (events_fetch_event_owner_id ev) (\<lambda>owner.
        if owner = u then return u else throw (forbidden ''forbidden'')))
      (\<lambda>w x. owns w ev u \<and> x = u)" for u
  proof -
    have "checks (if owner = u then return u else throw (forbidden ''forbidden'')) (\<lambda>_ x. owner = u \<and> x = u)" for owner
      by (intro checksI) (simp_all add: stable_def)
    from checks_andthen [OF checks_owner_id this] show ?thesis
      by (rule checks_mono) (auto simp: owns_def stable_def same_data_def)
  qed
  show "wp (events_ensure_event_owner req ev)
     (\<lambda>u v. same_data w v \<and> requester w req u \<and> (administers w req \<or> owns w ev u)) (\<lambda>_. same_data w) w"
    unfolding events_ensure_event_owner_def
  proof (rule wp_checked [OF checks_claims_email same_data_refl], goal_cases)
    case (1 em v1)
    show ?case
    proof (rule wp_checked [OF checks_user_id 1(1)], goal_cases)
      case (1 u v2)
      then have u: "requester w req u"
        using \<open>\<exists>s. live_session w req s \<and> em = lowercase (cfg w) (u_email s)\<close> by (auto simp: requester_def)
      show ?case
      proof (rule wp_checked [OF checks_get_state 1(1)], goal_cases)
        case (1 s v3)
        then have "administers w req" if "em \<in> set (admin_emails (cfg s))"
          using that \<open>\<exists>s. live_session w req s \<and> em = lowercase (cfg w) (u_email s)\<close>
          by (auto simp: administers_def)
        then show ?case
          using 1 u by (auto simp: wp_if intro!: checks_wp [OF last])
      qed
    qed
  qed
qed

text \<open>The rule \<open>wp_checked\<close> for every guard.\<close>

lemmas guards = check_intros [THEN wp_checked]

section \<open>After the effect\<close>

named_theorems trail_intros \<open>tails of handlers\<close>

definition trails :: "'a act \<Rightarrow> bool" where
  "trails m \<longleftrightarrow> (\<forall>w. wp m (\<lambda>_. only_outbox w) (\<lambda>e v. 500 \<le> err_status e \<and> only_outbox w v) w)"

lemma wp_trails:
  assumes "trails m" and "only_outbox w u"
    and "\<And>x v. only_outbox w v \<Longrightarrow> Q x v"
    and "\<And>e v. 500 \<le> err_status e \<Longrightarrow> only_outbox w v \<Longrightarrow> E e v"
  shows "wp m Q E u"
  by (rule wp_mono [OF assms(1) [unfolded trails_def, rule_format]])
    (auto intro: assms(3,4) only_outbox_trans [OF assms(2)])

lemma wp_trailed:
  assumes "trails m" and "only_outbox w u"
    and "\<And>x v. only_outbox w v \<Longrightarrow> wp (f x) Q E v"
    and "\<And>e v. 500 \<le> err_status e \<Longrightarrow> only_outbox w v \<Longrightarrow> E e v"
  shows "wp (andthen m f) Q E u"
  unfolding wp_andthen using assms by (rule wp_trails)

lemma trails_andthen [trail_intros]:
  assumes "trails m" and "\<And>x. trails (f x)"
  shows "trails (andthen m f)"
  unfolding trails_def
  by (intro allI wp_trailed [OF assms(1) only_outbox_refl] wp_trails [OF assms(2)]) auto

lemma trails_quiet:
  assumes "quiet m" and "server_errors m"
  shows "trails m"
  unfolding trails_def
proof
  fix w
  show "wp m (\<lambda>_. only_outbox w) (\<lambda>e v. 500 \<le> err_status e \<and> only_outbox w v) w"
    by (rule wp_mono [OF wp_conj [OF wp_quiet [OF assms(1), where Q = "\<lambda>_. same_data w" and E = "\<lambda>_. same_data w"]
            assms(2) [unfolded server_errors_def, rule_format]]])
      (auto intro: only_outbox_same_data)
qed

lemma trails_simple [trail_intros]:
  "trails (return x)" "trails get_state" "trails now" "quiet m \<Longrightarrow> trails (attempt m)"
  "trails (publish_event ev p)" "trails (publish_global_type ty)" "trails (publish_event_type ev ty)"
  "500 \<le> err_status e \<Longrightarrow> trails (query e f)"
  "500 \<le> err_status e \<Longrightarrow> trails (some_or v e)"
  by (intro trails_quiet quiet_intros tail_intros; assumption?)+

lemma trails_cases [trail_intros]:
  "trails m \<Longrightarrow> trails n \<Longrightarrow> trails (if b then m else n)"
  "trails m \<Longrightarrow> (\<And>x. trails (f x)) \<Longrightarrow> trails (case v of None \<Rightarrow> m | Some x \<Rightarrow> f x)"
  "(\<And>a b. trails (g a b)) \<Longrightarrow> trails (case p of (a, b) \<Rightarrow> g a b)"
  by (simp_all split: option.split prod.split)

lemma trails_notify [trail_intros]: "trails (notify_users us r)"
  unfolding trails_def by (intro allI wp_mono [OF notify_users_frame]) auto

text \<open>Messages and notifications that never fail.\<close>

named_theorems tell_intros \<open>tails that cannot fail\<close>

definition tells :: "'a act \<Rightarrow> bool" where
  "tells m \<longleftrightarrow> (\<forall>w. wp m (\<lambda>_. only_outbox w) (\<lambda>_ _. False) w)"

lemma wp_tells:
  assumes "tells m" and "only_outbox w u" and "\<And>x v. only_outbox w v \<Longrightarrow> Q x v"
  shows "wp m Q E u"
  by (rule wp_mono [OF assms(1) [unfolded tells_def, rule_format]])
    (auto intro: assms(3) only_outbox_trans [OF assms(2)])

lemma wp_told:
  assumes "tells m" and "only_outbox w u" and "\<And>x v. only_outbox w v \<Longrightarrow> wp (f x) Q E v"
  shows "wp (andthen m f) Q E u"
  unfolding wp_andthen using assms by (rule wp_tells)

lemma tells_andthen [tell_intros]:
  assumes "tells m" and "\<And>x. tells (f x)"
  shows "tells (andthen m f)"
  unfolding tells_def by (intro allI wp_told [OF assms(1) only_outbox_refl] wp_tells [OF assms(2)]) auto

lemma tells_simple [tell_intros]:
  "tells (return x)" "tells (publish_event ev p)" "tells (publish_global_type ty)" "tells (publish_event_type ev ty)"
  by (auto simp: tells_def wp_def return_def publish_event_def publish_global_type_def publish_event_type_def
      publish_json_def only_outbox_def)

lemma tells_attempt [tell_intros]: "quiet m \<Longrightarrow> tells (attempt m)"
  unfolding tells_def wp_attempt by (auto intro!: wp_quiet only_outbox_same_data)

lemma tells_cases [tell_intros]:
  "tells m \<Longrightarrow> tells n \<Longrightarrow> tells (if b then m else n)"
  "tells m \<Longrightarrow> (\<And>x. tells (g x)) \<Longrightarrow> tells (case v of None \<Rightarrow> m | Some x \<Rightarrow> g x)"
  by (simp_all split: option.split)

lemma tells_notify [tell_intros]: "tells (notify_users us r)"
  unfolding tells_def by (intro allI notify_users_frame)

text \<open>An invariant that does not look at the outbox survives a tail.\<close>

lemma keeps_trails:
  assumes "\<And>w v. I w \<Longrightarrow> only_outbox w v \<Longrightarrow> I v" and "trails m"
  shows "keeps I m"
  by (rule keepsI) (rule wp_trails [OF assms(2) only_outbox_refl], auto intro: assms(1))

lemma keeps_checks:
  assumes "\<And>w v. I w \<Longrightarrow> only_outbox w v \<Longrightarrow> I v" and "checks m P"
  shows "keeps I m"
  by (rule keepsI) (rule checks_wp [OF assms(2) same_data_refl], auto intro: assms(1) only_outbox_same_data)

end
