(* ===== verification/Item_Facts.thy ===== *)
theory Item_Facts
  imports Items Checks
begin

text \<open>
  The ledger of reservations: the row of an item of an event carries the sum of the users' parts.
  Every operation keeps the ledger, and a reservation sets the part of one user.
\<close>

section \<open>The ledger\<close>

definition reserved :: "database \<Rightarrow> int \<Rightarrow> int \<Rightarrow> int" where
  "reserved d event_id item_id =
     sum_list (map ui_quantity (filter (\<lambda>r. ui_event_id r = event_id \<and> ui_item_id r = item_id) (user_items d)))"

definition ledger_rows :: "database \<Rightarrow> bool" where
  "ledger_rows d \<longleftrightarrow> distinct (map (\<lambda>r. (ei_event_id r, ei_item_id r)) (events_items d))
     \<and> distinct (map (\<lambda>r. (ui_user_id r, ui_event_id r, ui_item_id r)) (user_items d))
     \<and> (\<forall>r \<in> set (user_items d). 0 < ui_quantity r
          \<and> (\<exists>e \<in> set (events_items d). is_event_item (ui_event_id r) (ui_item_id r) e))
     \<and> (\<forall>e \<in> set (events_items d). 0 < ei_max_quantity e \<and> ei_max_quantity e < 2 ^ 31
          \<and> ei_quantity e = reserved d (ei_event_id e) (ei_item_id e) \<and> ei_quantity e < 2 ^ 31)"

lemma ledger_rowsI:
  assumes "distinct (map (\<lambda>r. (ei_event_id r, ei_item_id r)) (events_items d))"
    and "distinct (map (\<lambda>r. (ui_user_id r, ui_event_id r, ui_item_id r)) (user_items d))"
    and "\<And>r. r \<in> set (user_items d) \<Longrightarrow> 0 < ui_quantity r
          \<and> (\<exists>e \<in> set (events_items d). is_event_item (ui_event_id r) (ui_item_id r) e)"
    and "\<And>e. e \<in> set (events_items d) \<Longrightarrow> 0 < ei_max_quantity e \<and> ei_max_quantity e < 2 ^ 31
          \<and> ei_quantity e = reserved d (ei_event_id e) (ei_item_id e) \<and> ei_quantity e < 2 ^ 31"
  shows "ledger_rows d"
  unfolding ledger_rows_def using assms by blast

lemma ledger_rowsD:
  assumes "ledger_rows d"
  shows "distinct (map (\<lambda>r. (ei_event_id r, ei_item_id r)) (events_items d))"
    and "distinct (map (\<lambda>r. (ui_user_id r, ui_event_id r, ui_item_id r)) (user_items d))"
    and "r \<in> set (user_items d) \<Longrightarrow> 0 < ui_quantity r
          \<and> (\<exists>e \<in> set (events_items d). is_event_item (ui_event_id r) (ui_item_id r) e)"
    and "e \<in> set (events_items d) \<Longrightarrow> 0 < ei_max_quantity e \<and> ei_max_quantity e < 2 ^ 31
          \<and> ei_quantity e = reserved d (ei_event_id e) (ei_item_id e) \<and> ei_quantity e < 2 ^ 31"
  using assms unfolding ledger_rows_def by blast+

text \<open>Items of events are in the catalogue, and every item of it has a type.\<close>

definition catalogue_ok :: "database \<Rightarrow> bool" where
  "catalogue_ok d \<longleftrightarrow> (\<forall>e \<in> set (events_items d). \<exists>i \<in> set (items d). it_id i = ei_item_id e)
     \<and> (\<forall>i \<in> set (items d). \<exists>ty \<in> set (item_types d). ty_id ty = it_type_id i)"

definition ledger_inv :: "world \<Rightarrow> bool" where
  "ledger_inv w \<longleftrightarrow> ledger_rows (db w) \<and> catalogue_ok (db w)"

lemma ledger_inv_tables:
  assumes "ledger_inv w" and "items (db w') = items (db w)" and "item_types (db w') = item_types (db w)"
    and "events_items (db w') = events_items (db w)" and "user_items (db w') = user_items (db w)"
  shows "ledger_inv w'"
  using assms(1) unfolding ledger_inv_def ledger_rows_def catalogue_ok_def reserved_def assms(2-5) .

interpretation ledger_tables: table_invariant ledger_inv
  by standard (erule ledger_inv_tables, simp_all)

lemma ledger_inv_only_outbox: "ledger_inv w \<Longrightarrow> only_outbox w w' \<Longrightarrow> ledger_inv w'"
  by (elim ledger_inv_tables) (simp_all add: only_outbox_tables [of w w'])

section \<open>The part of one user\<close>

definition share :: "database \<Rightarrow> int \<times> int \<times> int \<Rightarrow> int" where
  "share d = (\<lambda>(u, ev, it). case find (is_reservation u ev it) (user_items d) of None \<Rightarrow> 0 | Some r \<Rightarrow> ui_quantity r)"

definition rest :: "database \<Rightarrow> int \<Rightarrow> int \<Rightarrow> int \<Rightarrow> int" where
  "rest d u ev it = sum_list (map ui_quantity (filter (\<lambda>r. ui_event_id r = ev \<and> ui_item_id r = it)
     (delete_where (is_reservation u ev it) (user_items d))))"

lemma delete_where_absent:
  "distinct (map k xs) \<Longrightarrow> (\<And>x. x \<in> set xs \<Longrightarrow> p x \<longleftrightarrow> k x = a) \<Longrightarrow> a \<notin> k ` set xs \<Longrightarrow> delete_where p xs = xs"
  by (rule delete_where_none) auto

lemma reserved_share:
  assumes "distinct (map (\<lambda>r. (ui_user_id r, ui_event_id r, ui_item_id r)) (user_items d))"
  shows "reserved d ev it = share d (u, ev, it) + rest d u ev it"
proof -
  have "sum_list (map ui_quantity (filter (\<lambda>r. ui_event_id r = ev \<and> ui_item_id r = it) rs))
      = (case find (is_reservation u ev it) rs of None \<Rightarrow> 0 | Some r \<Rightarrow> ui_quantity r)
        + sum_list (map ui_quantity (filter (\<lambda>r. ui_event_id r = ev \<and> ui_item_id r = it)
            (delete_where (is_reservation u ev it) rs)))"
    if "distinct (map (\<lambda>r. (ui_user_id r, ui_event_id r, ui_item_id r)) rs)" for rs
    using that
  proof (induction rs)
    case (Cons r rs)
    show ?case
    proof (cases "is_reservation u ev it r")
      case True
      then have "\<not> is_reservation u ev it s" if "s \<in> set rs" for s
        using Cons.prems that True by (auto simp: is_reservation_def image_iff)
      then have "delete_where (is_reservation u ev it) rs = rs" by (intro delete_where_none)
      then show ?thesis using True by (simp add: is_reservation_def delete_where_def)
    next
      case False
      then show ?thesis using Cons by (auto simp: delete_where_def)
    qed
  qed simp
  from this [OF assms] show ?thesis
    by (simp add: reserved_def share_def rest_def)
qed

lemma rest_nonneg:
  assumes "\<forall>r \<in> set (user_items d). 0 < ui_quantity r"
  shows "0 \<le> rest d u ev it"
  unfolding rest_def using assms by (intro sum_list_nonneg) (auto simp: less_imp_le)

text \<open>The reservations after the part of one user has been set.\<close>

definition set_share :: "int \<Rightarrow> int \<Rightarrow> int \<Rightarrow> int \<Rightarrow> user_item list \<Rightarrow> user_item list" where
  "set_share u ev it q us =
     (let hit = is_reservation u ev it in
      if q = 0 then delete_where hit us
      else if exists_where hit us then update_where hit (\<lambda>r. r\<lparr>ui_quantity := q\<rparr>) us
      else us @ [\<lparr>ui_user_id = u, ui_event_id = ev, ui_item_id = it, ui_quantity = q\<rparr>])"

lemma set_share_members:
  "r \<in> set (set_share u ev it q us) \<Longrightarrow> \<not> is_reservation u ev it r \<and> r \<in> set us
     \<or> is_reservation u ev it r \<and> ui_quantity r = q \<and> q \<noteq> 0"
  by (auto simp: set_share_def Let_def is_reservation_def update_where_def split: if_splits)

lemma set_share_present:
  assumes "q \<noteq> 0"
  shows "exists_where (is_reservation u ev it) (set_share u ev it q us)"
proof (cases "exists_where (is_reservation u ev it) us")
  case True
  then obtain r where r: "r \<in> set us" "is_reservation u ev it r" by auto
  then have "r\<lparr>ui_quantity := q\<rparr> \<in> set (set_share u ev it q us)"
    using assms True by (auto simp: set_share_def Let_def simp del: exists_where_iff)
  moreover have "is_reservation u ev it (r\<lparr>ui_quantity := q\<rparr>)"
    using r by (simp add: is_reservation_def)
  ultimately show ?thesis unfolding exists_where_iff by blast
next
  case False
  then have "\<lparr>ui_user_id = u, ui_event_id = ev, ui_item_id = it, ui_quantity = q\<rparr> \<in> set (set_share u ev it q us)"
    using assms by (simp add: set_share_def Let_def del: exists_where_iff)
  moreover have "is_reservation u ev it \<lparr>ui_user_id = u, ui_event_id = ev, ui_item_id = it, ui_quantity = q\<rparr>"
    by (simp add: is_reservation_def)
  ultimately show ?thesis unfolding exists_where_iff by blast
qed

lemma set_share_others:
  assumes "\<And>r. is_reservation u ev it r \<Longrightarrow> \<not> p r"
    and "\<And>r. is_reservation u ev it r \<Longrightarrow> \<not> p (r\<lparr>ui_quantity := q\<rparr>)"
  shows "filter p (set_share u ev it q us) = filter p us"
proof -
  have "filter p (delete_where (is_reservation u ev it) us) = filter p us"
    using assms(1) by (auto simp: delete_where_def intro!: filter_cong)
  moreover have "filter p (update_where (is_reservation u ev it) (\<lambda>r. r\<lparr>ui_quantity := q\<rparr>) us) = filter p us"
    using assms by (induction us) (auto simp: update_where_def)
  moreover have "\<not> p \<lparr>ui_user_id = u, ui_event_id = ev, ui_item_id = it, ui_quantity = q\<rparr>"
    using assms(1) by (simp add: is_reservation_def)
  ultimately show ?thesis by (auto simp: set_share_def Let_def)
qed

lemma set_share_distinct:
  assumes "distinct (map (\<lambda>r. (ui_user_id r, ui_event_id r, ui_item_id r)) us)"
  shows "distinct (map (\<lambda>r. (ui_user_id r, ui_event_id r, ui_item_id r)) (set_share u ev it q us))"
  using assms by (auto simp: set_share_def Let_def is_reservation_def)

lemma set_share_sum:
  assumes "distinct (map (\<lambda>r. (ui_user_id r, ui_event_id r, ui_item_id r)) (user_items d))"
  shows "sum_list (map ui_quantity (filter (\<lambda>r. ui_event_id r = ev \<and> ui_item_id r = it)
      (set_share u ev it q (user_items d)))) = q + rest d u ev it"
proof -
  let ?d = "d\<lparr>user_items := set_share u ev it q (user_items d)\<rparr>"
  have "reserved ?d ev it = share ?d (u, ev, it) + rest ?d u ev it"
    using reserved_share set_share_distinct [OF assms] by simp
  moreover have "delete_where (is_reservation u ev it) (set_share u ev it q (user_items d))
      = delete_where (is_reservation u ev it) (user_items d)"
    unfolding delete_where_def by (rule set_share_others) (simp_all add: is_reservation_def)
  moreover have "(case find (is_reservation u ev it) (set_share u ev it q (user_items d)) of
      None \<Rightarrow> 0 | Some r \<Rightarrow> ui_quantity r) = q"
  proof (cases "find (is_reservation u ev it) (set_share u ev it q (user_items d))")
    case None
    have "q = 0"
    proof (rule ccontr)
      assume "q \<noteq> 0"
      then have "exists_where (is_reservation u ev it) (set_share u ev it q (user_items d))"
        by (rule set_share_present)
      then show False using None by (auto simp: find_None_iff)
    qed
    then show ?thesis using None by simp
  next
    case (Some r)
    then show ?thesis
      using set_share_members [of r u ev it q "user_items d"] by (auto dest: find_SomeD)
  qed
  ultimately show ?thesis
    by (simp add: reserved_def share_def rest_def)
qed

section \<open>Reserving\<close>

definition with_share :: "int \<Rightarrow> int \<Rightarrow> int \<Rightarrow> int \<Rightarrow> database \<Rightarrow> database" where
  "with_share u ev it q d = set_quantity ev it (rest d u ev it + q)
     (d\<lparr>user_items := set_share u ev it q (user_items d)\<rparr>)"

text \<open>A reservation that fits: the item is on the event and the new sum stays within its limit.\<close>

definition fits :: "database \<Rightarrow> int \<Rightarrow> int \<Rightarrow> int \<Rightarrow> int \<Rightarrow> bool" where
  "fits d u ev it q \<longleftrightarrow> (\<exists>e \<in> set (events_items d). is_event_item ev it e \<and> rest d u ev it + q \<le> ei_max_quantity e)"

lemma wrap32_sum:
  assumes "0 \<le> a" "a < 2 ^ 31" "0 \<le> b" "b < 2 ^ 31"
  shows "wrap32 (wrap32 a + b) = (if a + b < 2 ^ 31 then a + b else a + b - 2 ^ 32)"
proof -
  have "wrap32 a = a" using assms(1,2) by (simp add: wrap32_def)
  moreover have "(a + b + 2 ^ 31) mod 2 ^ 32 = a + b - 2 ^ 31" if "\<not> a + b < 2 ^ 31"
  proof -
    have "(a + b + 2 ^ 31) mod 2 ^ 32 = (a + b + 2 ^ 31 - 2 ^ 32) mod 2 ^ 32"
      by (rule minus_mod_self2 [symmetric])
    also have "\<dots> = a + b + 2 ^ 31 - 2 ^ 32"
      using assms that by (intro mod_pos_pos_trivial) auto
    finally show ?thesis by simp
  qed
  ultimately show ?thesis using assms by (auto simp: wrap32_def)
qed

lemma ledger_rest:
  assumes rows: "ledger_rows d" and e: "e \<in> set (events_items d)" "is_event_item ev it e"
  shows "ei_quantity e = share d (u, ev, it) + rest d u ev it"
    and "0 \<le> rest d u ev it" and "rest d u ev it < 2 ^ 31"
proof -
  have "ei_quantity e = reserved d ev it" "ei_quantity e < 2 ^ 31"
    using assms unfolding ledger_rows_def is_event_item_def by metis+
  moreover have sum: "reserved d ev it = share d (u, ev, it) + rest d u ev it"
    using rows by (intro reserved_share) (simp add: ledger_rows_def)
  moreover have "0 \<le> share d (u, ev, it)"
    using rows by (auto simp: share_def ledger_rows_def less_imp_le split: option.split dest!: find_SomeD)
  moreover show "0 \<le> rest d u ev it"
    using rows by (intro rest_nonneg) (simp add: ledger_rows_def)
  ultimately show "ei_quantity e = share d (u, ev, it) + rest d u ev it" "rest d u ev it < 2 ^ 31"
    by simp_all
qed

lemma checks_reservation:
  "checks (check_reservation u ev it q) (\<lambda>w n. ledger_rows (db w) \<and> 0 \<le> q \<and> q < 2 ^ 31 \<longrightarrow>
     n = rest (db w) u ev it + q \<and> fits (db w) u ev it q)"
proof (rule checksI)
  show "stable (\<lambda>w n. ledger_rows (db w) \<and> 0 \<le> q \<and> q < 2 ^ 31 \<longrightarrow>
     n = rest (db w) u ev it + q \<and> fits (db w) u ev it q)"
    by (simp add: stable_def same_data_def)
  show "wp (check_reservation u ev it q) (\<lambda>n v. same_data w v \<and> (ledger_rows (db w) \<and> 0 \<le> q \<and> q < 2 ^ 31 \<longrightarrow>
     n = rest (db w) u ev it + q \<and> fits (db w) u ev it q)) (\<lambda>_. same_data w) w" for w
    unfolding check_reservation_def Let_def
  proof (intro guards [where w = w] same_data_refl, goal_cases)
    case (4 row v1 e v2 mine v3 x v4)
    let ?total = "wrap32 (wrap32 (ei_quantity e - (case mine of None \<Rightarrow> 0 | Some r \<Rightarrow> ui_quantity r)) + q)"
    have e: "e \<in> set (events_items (db w))" "is_event_item ev it e"
      using 4 by (auto dest!: find_SomeD [OF sym])
    have "?total = rest (db w) u ev it + q \<and> fits (db w) u ev it q"
      if ok: "ledger_rows (db w)" "0 \<le> q" "q < 2 ^ 31"
    proof -
      note facts = ledger_rest [OF ok(1) e, of u]
      have "ei_quantity e - (case mine of None \<Rightarrow> 0 | Some r \<Rightarrow> ui_quantity r) = rest (db w) u ev it"
        using 4 facts(1) by (simp add: share_def)
      then have "?total = (if rest (db w) u ev it + q < 2 ^ 31 then rest (db w) u ev it + q
          else rest (db w) u ev it + q - 2 ^ 32)"
        using wrap32_sum [OF facts(2,3) ok(2,3)] by simp
      moreover have "0 \<le> ?total" "?total \<le> ei_max_quantity e" using 4 by auto
      ultimately show ?thesis
        using ok facts e by (auto simp: fits_def split: if_splits)
    qed
    with 4 show ?case by simp
  qed auto
qed

lemma set_quantity_sums:
  "user_items (set_quantity ev it n d) = user_items d"
  "items (set_quantity ev it n d) = items d" "item_types (set_quantity ev it n d) = item_types d"
  by (simp_all add: set_quantity_def)

lemma with_share_tables:
  "user_items (with_share u ev it q d) = set_share u ev it q (user_items d)"
  "events_items (with_share u ev it q d) = update_where (is_event_item ev it)
     (\<lambda>r. r\<lparr>ei_quantity := rest d u ev it + q\<rparr>) (events_items d)"
  "items (with_share u ev it q d) = items d" "item_types (with_share u ev it q d) = item_types d"
  by (simp_all add: with_share_def set_quantity_def)

lemma event_item_keys:
  "(\<exists>f \<in> set es. is_event_item a b f) \<longleftrightarrow> (a, b) \<in> (\<lambda>r. (ei_event_id r, ei_item_id r)) ` set es"
  unfolding is_event_item_def by (auto simp: image_iff)

lemma update_where_unique:
  assumes "z \<in> set (update_where p f xs)" and "\<And>y. y \<in> set xs \<Longrightarrow> p y \<Longrightarrow> y = e"
  shows "z = f e \<or> (z \<in> set xs \<and> \<not> p z)"
proof -
  obtain y where "y \<in> set xs" "z = (if p y then f y else y)"
    using assms(1) by (auto simp: update_where_def)
  then show ?thesis using assms(2) [of y] by (cases "p y") auto
qed

lemma with_share_ok:
  assumes rows: "ledger_rows d" and q: "0 \<le> q" and fits: "fits d u ev it q"
  shows "ledger_rows (with_share u ev it q d)"
proof -
  let ?us = "set_share u ev it q (user_items d)"
  have dist: "distinct (map (\<lambda>r. (ui_user_id r, ui_event_id r, ui_item_id r)) (user_items d))"
    using rows by (simp add: ledger_rows_def)
  obtain e where e: "e \<in> set (events_items d)" "is_event_item ev it e" "rest d u ev it + q \<le> ei_max_quantity e"
    using fits by (auto simp: fits_def)
  have same: "f = e" if "f \<in> set (events_items d)" "is_event_item ev it f" for f
    using rows e that distinct_map_inj [of "\<lambda>r. (ei_event_id r, ei_item_id r)" "events_items d" f e]
    by (simp add: ledger_rows_def is_event_item_def)
  have total: "reserved (with_share u ev it q d) ev it = q + rest d u ev it"
    by (simp add: reserved_def with_share_tables set_share_sum [OF dist])
  have others: "reserved (with_share u ev it q d) ev' it' = reserved d ev' it'" if "(ev', it') \<noteq> (ev, it)" for ev' it'
    unfolding reserved_def with_share_tables
    by (subst set_share_others) (use that in \<open>auto simp: is_reservation_def\<close>)
  have keys: "map (\<lambda>r. (ei_event_id r, ei_item_id r)) (events_items (with_share u ev it q d))
      = map (\<lambda>r. (ei_event_id r, ei_item_id r)) (events_items d)"
    by (simp add: with_share_tables)
  have users: "0 < ui_quantity r \<and> (\<exists>f \<in> set (events_items (with_share u ev it q d)). is_event_item (ui_event_id r) (ui_item_id r) f)"
    if "r \<in> set ?us" for r
  proof -
    have "0 < ui_quantity r \<and> (\<exists>f \<in> set (events_items d). is_event_item (ui_event_id r) (ui_item_id r) f)"
      using set_share_members [OF that] rows q e(1,2)
      by (auto simp: ledger_rows_def is_reservation_def)
    moreover have "(\<lambda>r. (ei_event_id r, ei_item_id r)) ` set (events_items (with_share u ev it q d))
        = (\<lambda>r. (ei_event_id r, ei_item_id r)) ` set (events_items d)"
      using arg_cong [OF keys, of set] by simp
    ultimately show ?thesis unfolding event_item_keys by blast
  qed
  have events: "0 < ei_max_quantity f \<and> ei_max_quantity f < 2 ^ 31
      \<and> ei_quantity f = reserved (with_share u ev it q d) (ei_event_id f) (ei_item_id f) \<and> ei_quantity f < 2 ^ 31"
    if f: "f \<in> set (events_items (with_share u ev it q d))" for f
  proof -
    consider (hit) "f = e\<lparr>ei_quantity := rest d u ev it + q\<rparr>"
      | (other) "f \<in> set (events_items d)" "\<not> is_event_item ev it f"
      using update_where_unique [OF f [unfolded with_share_tables] same] by blast
    then show ?thesis
    proof cases
      case hit
      then have "ei_event_id f = ev" "ei_item_id f = it" "ei_quantity f = rest d u ev it + q" "ei_max_quantity f = ei_max_quantity e"
        using e(2) by (simp_all add: is_event_item_def)
      moreover have "0 < ei_max_quantity e" "ei_max_quantity e < 2 ^ 31"
        using rows e(1) by (simp_all add: ledger_rows_def)
      ultimately show ?thesis using total e(3) by simp
    next
      case other
      then show ?thesis
        using rows others [of "ei_event_id f" "ei_item_id f"] by (auto simp: ledger_rows_def is_event_item_def)
    qed
  qed
  show ?thesis
  proof (rule ledger_rowsI)
    show "distinct (map (\<lambda>r. (ei_event_id r, ei_item_id r)) (events_items (with_share u ev it q d)))"
      unfolding keys using rows by (rule ledger_rowsD(1))
    show "distinct (map (\<lambda>r. (ui_user_id r, ui_event_id r, ui_item_id r)) (user_items (with_share u ev it q d)))"
      unfolding with_share_tables by (rule set_share_distinct [OF dist])
  qed (use users events in \<open>unfold with_share_tables(1), blast+\<close>)
qed

lemma find_filter:
  assumes "filter p xs = filter p ys"
  shows "find p xs = find p ys"
proof -
  have "find p zs = (case filter p zs of [] \<Rightarrow> None | z # _ \<Rightarrow> Some z)" for zs
    by (induction zs) auto
  then show ?thesis using assms by simp
qed

lemma with_share_refines:
  assumes "ledger_rows d" and "fits d u ev it q"
  shows "share (with_share u ev it q d) = (share d)((u, ev, it) := q)"
proof (rule ext, clarify)
  fix u' ev' it'
  let ?us = "set_share u ev it q (user_items d)"
  show "share (with_share u ev it q d) (u', ev', it') = ((share d)((u, ev, it) := q)) (u', ev', it')"
  proof (cases "(u', ev', it') = (u, ev, it)")
    case True
    have "reserved (with_share u ev it q d) ev it = q + rest d u ev it"
      using assms(1) by (simp add: reserved_def with_share_tables set_share_sum ledger_rows_def)
    moreover have "reserved (with_share u ev it q d) ev it
        = share (with_share u ev it q d) (u, ev, it) + rest (with_share u ev it q d) u ev it"
      using assms(1) by (intro reserved_share) (simp add: with_share_tables set_share_distinct ledger_rows_def)
    moreover have "rest (with_share u ev it q d) u ev it = rest d u ev it"
      unfolding rest_def with_share_tables delete_where_def
      by (subst set_share_others) (simp_all add: is_reservation_def)
    ultimately show ?thesis using True by simp
  next
    case False
    have "filter (is_reservation u' ev' it') ?us = filter (is_reservation u' ev' it') (user_items d)"
      by (rule set_share_others) (use False in \<open>auto simp: is_reservation_def\<close>)
    then have "find (is_reservation u' ev' it') ?us = find (is_reservation u' ev' it') (user_items d)"
      by (rule find_filter)
    then show ?thesis using False by (auto simp: share_def with_share_tables)
  qed
qed

lemma upsert_reservation_okD:
  assumes "upsert_reservation u ev it q w = (Inr x, w')"
  shows "w' = w\<lparr>db := (db w)\<lparr>user_items := set_share u ev it q (user_items (db w))\<rparr>\<rparr>"
  using assms by (auto simp: upsert_reservation_def set_share_def Let_def split: if_splits)

lemma grows_upserts: "later w (snd (upsert_reservation u ev it q w))"
  "later w (snd (upsert_event_item merge ev it n c w))" "later w (snd (insert_item row w))"
  "later w (snd (upsert_default_type w))"
  using later_nextval [of w ItemSeq] later_nextval [of w TypeSeq]
  by (auto simp: upsert_reservation_def upsert_event_item_def insert_item_def upsert_default_type_def
      Let_def nextval_def split: option.split)

text \<open>A reservation: the ledger is sound before, the quantity is an \<open>i32\<close> that is not negative.\<close>

lemma reserve_tx_spec:
  assumes rows: "ledger_rows (db w)" and q: "0 \<le> q" "q < 2 ^ 31"
  shows "wp (reserve_tx u ev it q)
     (\<lambda>_ w'. fits (db w) u ev it q \<and> db w' = with_share u ev it q (db w)) (\<lambda>_ w'. db w' = db w) w"
  unfolding reserve_tx_def
proof (rule wp_transact_success, goal_cases)
  case 1
  show ?case
  proof (rule wp_checked [OF checks_reservation same_data_refl], goal_cases)
    case (1 n v)
    then have n: "n = rest (db w) u ev it + q" and fit: "fits (db w) u ev it q" and v: "db v = db w"
      using rows q by (auto simp: same_data_def)
    show ?case
    proof (cases "q = 0")
      case True
      then show ?thesis
        using fit by (simp add: wp_simps v n with_share_def set_share_def Let_def delete_reservation_def)
    next
      case False
      then show ?thesis
        using fit by (auto simp: wp_simps v n with_share_def split: prod.split sum.split dest!: upsert_reservation_okD)
    qed
  qed simp
qed simp

lemma grows_reserve: "grows (reserve_tx u ev it q)"
  unfolding reserve_tx_def
  by (intro grows_transact grows_intros grows_upserts grows_quiet [OF quiet_checks [OF checks_reservation]])

lemma reserve_tx_keeps:
  assumes "0 \<le> q" "q < 2 ^ 31"
  shows "keeps ledger_inv (reserve_tx u ev it q)"
proof (rule keepsI)
  fix w assume inv: "ledger_inv w"
  then have rows: "ledger_rows (db w)" by (simp add: ledger_inv_def)
  show "wp (reserve_tx u ev it q) (\<lambda>_. ledger_inv) (\<lambda>_. ledger_inv) w"
  proof (rule wp_mono [OF wp_conj [OF reserve_tx_spec [OF rows assms] wp_grows [OF grows_reserve later_refl]]], goal_cases)
    case (1 x w')
    then have "ledger_rows (db w')" using with_share_ok rows assms by auto
    moreover have "catalogue_ok (db w')"
      using inv 1 by (auto simp: ledger_inv_def catalogue_ok_def with_share_tables)
    ultimately show ?case by (simp add: ledger_inv_def)
  next
    case (2 e w')
    then show ?case using inv by (auto intro: ledger_tables.rollback)
  qed
qed

section \<open>Attaching, custom items, deleting\<close>

lemma upsert_event_item_keeps:
  assumes inv: "ledger_inv w" and n: "0 < n" "n < 2 ^ 31" and merge: "\<And>a b. 0 < a \<Longrightarrow> 0 < b \<Longrightarrow> 0 < merge a b"
    and res: "upsert_event_item merge ev it n c w = (r, w')"
  shows "ledger_inv w'"
proof (cases "find (is_event_item ev it) (events_items (db w))")
  case None
  then have new: "\<not> is_event_item ev it e" if "e \<in> set (events_items (db w))" for e
    using that by (auto simp: find_None_iff)
  have rows: "ledger_rows (db w)" and cat: "catalogue_ok (db w)"
    using inv by (simp_all add: ledger_inv_def)
  have "\<not> (ui_event_id r = ev \<and> ui_item_id r = it)" if "r \<in> set (user_items (db w))" for r
    using rows new that unfolding ledger_rows_def by blast
  then have "filter (\<lambda>r. ui_event_id r = ev \<and> ui_item_id r = it) (user_items (db w)) = []"
    by (auto simp: filter_empty_conv)
  then have zero: "reserved (db w) ev it = 0"
    by (simp add: reserved_def)
  show ?thesis
  proof (cases "w' = w")
    case False
    then have w': "w' = w\<lparr>db := (db w)\<lparr>events_items := events_items (db w)
            @ [\<lparr>ei_event_id = ev, ei_item_id = it, ei_max_quantity = n, ei_quantity = 0, ei_created_by = Some c\<rparr>]\<rparr>\<rparr>"
      and known: "exists_where (\<lambda>i. it_id i = it) (items (db w))"
      using res None by (auto simp: upsert_event_item_def Let_def split: if_splits)
    have "ledger_rows (db w')"
      using rows new n zero unfolding w' ledger_rows_def reserved_def
      by (auto simp: is_event_item_def)
    moreover have "catalogue_ok (db w')"
      using cat known unfolding w' catalogue_ok_def by auto
    ultimately show ?thesis by (simp add: ledger_inv_def)
  qed (use inv in simp)
next
  case (Some e)
  then have e: "e \<in> set (events_items (db w))" "is_event_item ev it e" by (auto dest: find_SomeD)
  have rows: "ledger_rows (db w)" and cat: "catalogue_ok (db w)"
    using inv by (simp_all add: ledger_inv_def)
  have same: "f = e" if "f \<in> set (events_items (db w))" "is_event_item ev it f" for f
    using rows e that distinct_map_inj [of "\<lambda>r. (ei_event_id r, ei_item_id r)" "events_items (db w)" f e]
    by (simp add: ledger_rows_def is_event_item_def)
  show ?thesis
  proof (cases "w' = w")
    case False
    let ?m = "merge (ei_max_quantity e) n"
    have w': "w' = w\<lparr>db := (db w)\<lparr>events_items := update_where (is_event_item ev it)
        (\<lambda>r. r\<lparr>ei_max_quantity := merge (ei_max_quantity r) n\<rparr>) (events_items (db w))\<rparr>\<rparr>"
      and m: "0 < ?m" "?m < 2 ^ 31"
      using res Some False by (auto simp: upsert_event_item_def Let_def split: if_splits)
    have keys: "map (\<lambda>r. (ei_event_id r, ei_item_id r)) (events_items (db w'))
        = map (\<lambda>r. (ei_event_id r, ei_item_id r)) (events_items (db w))"
      by (simp add: w')
    have res': "reserved (db w') = reserved (db w)" by (simp add: w' reserved_def fun_eq_iff)
    have table: "events_items (db w') = update_where (is_event_item ev it)
        (\<lambda>r. r\<lparr>ei_max_quantity := merge (ei_max_quantity r) n\<rparr>) (events_items (db w))"
      by (simp add: w')
    have members: "f = e\<lparr>ei_max_quantity := ?m\<rparr> \<or> f \<in> set (events_items (db w))"
      if "f \<in> set (events_items (db w'))" for f
      using update_where_unique [OF that [unfolded table] same] by blast
    have same_keys: "(\<exists>f \<in> set (events_items (db w')). is_event_item a b f) \<longleftrightarrow> (\<exists>f \<in> set (events_items (db w)). is_event_item a b f)" for a b
      using arg_cong [OF keys, of set] unfolding event_item_keys by simp
    have "ledger_rows (db w')"
    proof (rule ledger_rowsI)
      fix f assume "f \<in> set (events_items (db w'))"
      then show "0 < ei_max_quantity f \<and> ei_max_quantity f < 2 ^ 31
          \<and> ei_quantity f = reserved (db w') (ei_event_id f) (ei_item_id f) \<and> ei_quantity f < 2 ^ 31"
        using members [of f] ledger_rowsD(4) [OF rows, of f] ledger_rowsD(4) [OF rows e(1)] m by (auto simp: res')
    next
      fix r assume "r \<in> set (user_items (db w'))"
      then show "0 < ui_quantity r \<and> (\<exists>e \<in> set (events_items (db w')). is_event_item (ui_event_id r) (ui_item_id r) e)"
        using ledger_rowsD(3) [OF rows, of r] by (simp only: same_keys) (simp add: w')
    qed (use ledger_rowsD(1,2) [OF rows] keys in \<open>simp_all add: w'\<close>)
    moreover have "catalogue_ok (db w')"
    proof -
      have "\<exists>i \<in> set (items (db w)). it_id i = ei_item_id f" if "f \<in> set (events_items (db w'))" for f
        using members [OF that] cat e(1) by (auto simp: catalogue_ok_def)
      moreover have "items (db w') = items (db w)" "item_types (db w') = item_types (db w)"
        by (simp_all add: w')
      ultimately show ?thesis
        using cat by (simp add: catalogue_ok_def)
    qed
    ultimately show ?thesis by (simp add: ledger_inv_def)
  qed (use inv in simp)
qed

lemma ledger_rows_tables:
  assumes "ledger_rows d" and "events_items d' = events_items d" and "user_items d' = user_items d"
  shows "ledger_rows d'"
  using assms(1) unfolding ledger_rows_def reserved_def assms(2-3) .

lemma insert_item_keeps:
  assumes inv: "ledger_inv w" and res: "insert_item row w = (r, w')"
  shows "ledger_inv w'"
proof -
  have "ledger_rows (db w')"
    using inv res by (elim ledger_rows_tables [OF conjunct1 [OF iffD1 [OF ledger_inv_def]]])
      (auto simp: insert_item_def Let_def nextval_def split: if_splits)
  moreover have "catalogue_ok (db w')"
    using inv res by (auto simp: insert_item_def Let_def nextval_def ledger_inv_def catalogue_ok_def split: if_splits)
  ultimately show ?thesis by (simp add: ledger_inv_def)
qed

lemma default_type_keeps:
  assumes inv: "ledger_inv w" and res: "upsert_default_type w = (r, w')"
  shows "ledger_inv w'"
proof -
  have "ledger_rows (db w')"
    using inv res by (elim ledger_rows_tables [OF conjunct1 [OF iffD1 [OF ledger_inv_def]]])
      (auto simp: upsert_default_type_def Let_def nextval_def split: option.splits)
  moreover have "catalogue_ok (db w')"
    using inv res by (fastforce simp: upsert_default_type_def Let_def nextval_def ledger_inv_def catalogue_ok_def split: option.splits)
  ultimately show ?thesis by (simp add: ledger_inv_def)
qed

lemma custom_item_tx_keeps:
  assumes "0 < n" and "n < 2 ^ 31"
  shows "keeps ledger_inv (custom_item_tx ev c name n unit kind)"
proof -
  have types: "keeps ledger_inv default_type"
    unfolding default_type_def
    by (intro keeps_andthen keeps_option keeps_return ledger_tables.keeps_quiet quiet_query ledger_tables.keeps_stmt)
      (rule default_type_keeps)
  have add: "keeps ledger_inv (stmt h (insert_item row))" for h row
    by (rule ledger_tables.keeps_stmt) (rule insert_item_keeps)
  have attach: "keeps ledger_inv (stmt h (upsert_event_item (+) ev it n c))" for h it
    by (rule ledger_tables.keeps_stmt) (erule upsert_event_item_keeps [OF _ assms _], simp_all)
  have grow: "grows default_type"
    unfolding default_type_def by (intro grows_intros grows_quiet quiet_query quiet_return grows_upserts)
  show ?thesis
    unfolding custom_item_tx_def
    by (intro ledger_tables.keeps_transact_body keeps_andthen keeps_option keeps_return types add attach
        ledger_tables.keeps_quiet quiet_query quiet_get_state grows_intros grow grows_upserts
        grows_quiet [OF quiet_query] grows_quiet [OF quiet_get_state] grows_quiet [OF quiet_return])
qed

text \<open>An item taken off an event, with its reservations.\<close>

definition without_item :: "int \<Rightarrow> int \<Rightarrow> database \<Rightarrow> database" where
  "without_item ev it d = d\<lparr>
     user_items := delete_where (\<lambda>r. ui_event_id r = ev \<and> ui_item_id r = it) (user_items d),
     events_items := delete_where (is_event_item ev it) (events_items d)\<rparr>"

lemma delete_where_twice [simp]: "delete_where p (delete_where p xs) = delete_where p xs"
  by (simp add: delete_where_def)

lemma checks_item_creator: "checks (check_item_creator u o' ev it)
    (\<lambda>w _. \<exists>e \<in> set (events_items (db w)). is_event_item ev it e \<and> (o' = u \<or> ei_created_by e = Some u))"
proof (rule checksI)
  show "stable (\<lambda>w (_::unit). \<exists>e \<in> set (events_items (db w)). is_event_item ev it e \<and> (o' = u \<or> ei_created_by e = Some u))"
    by (simp add: stable_def same_data_def)
  show "wp (check_item_creator u o' ev it) (\<lambda>_ v. same_data w v
      \<and> (\<exists>e \<in> set (events_items (db w)). is_event_item ev it e \<and> (o' = u \<or> ei_created_by e = Some u))) (\<lambda>_. same_data w) w" for w
    unfolding check_item_creator_def Let_def
    by (intro guards [where w = w] same_data_refl) (auto simp: wp_require dest!: find_SomeD [OF sym])
qed

lemma delete_event_item_tx_spec:
  "wp (delete_event_item_tx u o' ev it)
     (\<lambda>_ w'. db w' = without_item ev it (db w)
        \<and> (\<exists>e \<in> set (events_items (db w)). is_event_item ev it e \<and> (o' = u \<or> ei_created_by e = Some u)))
     (\<lambda>_ w'. db w' = db w) w"
  unfolding delete_event_item_tx_def
proof (rule wp_transact_success, goal_cases)
  case 1
  show ?case
    by (rule wp_checked [OF checks_item_creator same_data_refl])
      (auto simp: delete_event_item_rows_def wp_simps without_item_def same_data_def)
qed simp

lemma without_item_ok:
  assumes "ledger_rows d"
  shows "ledger_rows (without_item ev it d)"
proof (rule ledger_rowsI)
  fix r assume r: "r \<in> set (user_items (without_item ev it d))"
  then have "\<not> (ui_event_id r = ev \<and> ui_item_id r = it)" "r \<in> set (user_items d)"
    by (simp_all add: without_item_def)
  then show "0 < ui_quantity r \<and> (\<exists>e \<in> set (events_items (without_item ev it d)). is_event_item (ui_event_id r) (ui_item_id r) e)"
    using ledger_rowsD(3) [OF assms, of r] by (fastforce simp: without_item_def is_event_item_def)
next
  fix e assume e: "e \<in> set (events_items (without_item ev it d))"
  then have "filter (\<lambda>r. ui_event_id r = ei_event_id e \<and> ui_item_id r = ei_item_id e) (user_items (without_item ev it d))
      = filter (\<lambda>r. ui_event_id r = ei_event_id e \<and> ui_item_id r = ei_item_id e) (user_items d)"
    by (auto simp: without_item_def delete_where_def is_event_item_def intro!: filter_cong)
  then have "reserved (without_item ev it d) (ei_event_id e) (ei_item_id e) = reserved d (ei_event_id e) (ei_item_id e)"
    by (simp add: reserved_def)
  then show "0 < ei_max_quantity e \<and> ei_max_quantity e < 2 ^ 31
      \<and> ei_quantity e = reserved (without_item ev it d) (ei_event_id e) (ei_item_id e) \<and> ei_quantity e < 2 ^ 31"
    using ledger_rowsD(4) [OF assms, of e] e by (simp add: without_item_def)
qed (use ledger_rowsD(1,2) [OF assms] in \<open>auto simp: without_item_def\<close>)

lemma delete_item_row_ok:
  assumes rows: "ledger_rows d" and cat: "catalogue_ok d"
  shows "ledger_rows (snd (delete_item_row it d)) \<and> catalogue_ok (snd (delete_item_row it d))"
proof (cases "exists_where (\<lambda>i. it_id i = it) (items d)")
  case True
  define d' where "d' = snd (delete_item_row it d)"
  have "ui_item_id r = it \<and> exists_where (is_event_item (ui_event_id r) it) (events_items d) \<longleftrightarrow> ui_item_id r = it"
    if "r \<in> set (user_items d)" for r
    using ledger_rowsD(3) [OF rows that] by auto
  then have us: "user_items d' = delete_where (\<lambda>r. ui_item_id r = it) (user_items d)"
    using True by (auto simp: d'_def delete_item_row_def delete_where_def simp del: exists_where_iff intro!: filter_cong)
  have es: "events_items d' = delete_where (\<lambda>r. ei_item_id r = it) (events_items d)"
    and its: "items d' = delete_where (\<lambda>i. it_id i = it) (items d)" and tys: "item_types d' = item_types d"
    using True by (simp_all add: d'_def delete_item_row_def del: exists_where_iff)
  have "ledger_rows d'"
  proof (rule ledger_rowsI)
    fix r assume "r \<in> set (user_items d')"
    then show "0 < ui_quantity r \<and> (\<exists>e \<in> set (events_items d'). is_event_item (ui_event_id r) (ui_item_id r) e)"
      using ledger_rowsD(3) [OF rows, of r] by (fastforce simp: us es is_event_item_def)
  next
    fix e assume e: "e \<in> set (events_items d')"
    then have "reserved d' (ei_event_id e) (ei_item_id e) = reserved d (ei_event_id e) (ei_item_id e)"
      by (auto simp: reserved_def us es delete_where_def intro!: arg_cong [where f = sum_list] arg_cong [where f = "map ui_quantity"] filter_cong)
    then show "0 < ei_max_quantity e \<and> ei_max_quantity e < 2 ^ 31
        \<and> ei_quantity e = reserved d' (ei_event_id e) (ei_item_id e) \<and> ei_quantity e < 2 ^ 31"
      using ledger_rowsD(4) [OF rows, of e] e by (simp add: es)
  qed (use ledger_rowsD(1,2) [OF rows] in \<open>auto simp: us es\<close>)
  moreover have "catalogue_ok d'"
    using cat unfolding catalogue_ok_def its es tys by fastforce
  ultimately show ?thesis by (simp add: d'_def)
next
  case False
  then show ?thesis using assms by (simp add: delete_item_row_def del: exists_where_iff)
qed

lemma update_item_row_keeps:
  assumes inv: "ledger_inv w" and id: "\<And>i. it_id (change i) = it_id i"
    and types: "(\<forall>i. it_type_id (change i) = t) \<or> (\<forall>i. it_type_id (change i) = it_type_id i)"
    and res: "update_item_row it change w = (r, w')"
  shows "ledger_inv w'"
proof (cases "w' = w")
  case False
  obtain old where known: "exists_where (\<lambda>ty. ty_id ty = it_type_id (change old)) (item_types (db w))"
    and w': "w' = w\<lparr>db := (db w)\<lparr>items := update_where (\<lambda>i. it_id i = it) change (items (db w))\<rparr>\<rparr>"
    using res False by (auto simp: update_item_row_def Let_def split: option.splits if_splits)
  have cat: "catalogue_ok (db w)" using inv by (simp add: ledger_inv_def)
  have "\<exists>ty \<in> set (item_types (db w)). ty_id ty = it_type_id (change i)" if "i \<in> set (items (db w))" for i
    using types known cat that by (auto simp: catalogue_ok_def)
  then have typed: "\<exists>ty \<in> set (item_types (db w')). ty_id ty = it_type_id i" if "i \<in> set (items (db w'))" for i
    using that cat by (auto simp: w' catalogue_ok_def)
  have "map it_id (items (db w')) = map it_id (items (db w))"
    by (simp add: w' id)
  then have ids: "it_id ` set (items (db w')) = it_id ` set (items (db w))"
    by (metis list.set_map)
  have "\<exists>i \<in> set (items (db w')). it_id i = ei_item_id e" if "e \<in> set (events_items (db w'))" for e
  proof -
    have "ei_item_id e \<in> it_id ` set (items (db w))"
      using cat that by (force simp: catalogue_ok_def w')
    then show ?thesis unfolding ids [symmetric] by auto
  qed
  then have "catalogue_ok (db w')"
    using typed by (simp add: catalogue_ok_def)
  moreover have "ledger_rows (db w')"
    using inv by (elim ledger_rows_tables [OF conjunct1 [OF iffD1 [OF ledger_inv_def]]]) (simp_all add: w')
  ultimately show ?thesis by (simp add: ledger_inv_def)
qed (use inv in simp)

section \<open>The handlers\<close>

lemma event_item_view_exists:
  assumes "catalogue_ok d" and "e \<in> set (events_items d)"
  shows "event_item_view_of d e \<noteq> None"
proof -
  obtain i where i: "find (\<lambda>i. it_id i = ei_item_id e) (items d) = Some i"
    using assms by (cases "find (\<lambda>i. it_id i = ei_item_id e) (items d)") (auto simp: find_None_iff catalogue_ok_def)
  then obtain ty where "find (\<lambda>ty. ty_id ty = it_type_id i) (item_types d) = Some ty"
    using assms(1) find_SomeD [OF i]
    by (cases "find (\<lambda>ty. ty_id ty = it_type_id i) (item_types d)") (auto simp: find_None_iff catalogue_ok_def)
  with i show ?thesis by (simp add: event_item_view_of_def Let_def)
qed

text \<open>When the item is there, the answer with its view is at worst an error of the server.\<close>

lemma answer_with_item_spec:
  assumes "catalogue_ok (db w)" and "\<exists>e \<in> set (events_items (db w)). is_event_item ev it e"
  shows "wp (answer_with_item ev it) (\<lambda>a w'. ans_status a = 200 \<and> db w' = db w)
     (\<lambda>e w'. 500 \<le> err_status e \<and> db w' = db w) w"
proof -
  have pub: "wp (publish_event ev m) Q E v" if "\<And>v'. same_data v v' \<Longrightarrow> Q () v'" for m Q E v
    using that quietD [OF quiet_publish(1), of v ev m]
    by (auto simp: wp_def publish_event_def publish_json_def)
  obtain e where "find (\<lambda>ei. ei_event_id ei = ev \<and> ei_item_id ei = it) (events_items (db w)) = Some e"
    using assms(2) by (cases "find (\<lambda>ei. ei_event_id ei = ev \<and> ei_item_id ei = it) (events_items (db w))")
      (auto simp: find_None_iff is_event_item_def)
  moreover from this have "event_item_view_of (db w) e \<noteq> None"
    using event_item_view_exists [OF assms(1)] by (auto dest: find_SomeD)
  ultimately show ?thesis
    unfolding answer_with_item_def fetch_event_item_view_def
    by (auto simp: wp_simps same_data_def intro!: pub)
qed

lemma quiet_answer_with_item: "quiet (answer_with_item ev it)"
  unfolding answer_with_item_def fetch_event_item_view_def by (intro quiet_intros)

text \<open>A reservation: on an event that is not over, a member sets the own part; it must fit.\<close>

lemma reserve_event_item_spec:
  assumes inv: "ledger_inv w" and q: "q < 2 ^ 31"
  shows "wp (reserve_event_item req ev it q)
     (\<lambda>a w'. ans_status a = 200 \<and> writable w ev \<and> 0 \<le> q
        \<and> (\<exists>u. acting w req u \<and> fits (db w) u ev it q \<and> db w' = with_share u ev it q (db w))
        \<and> (\<exists>u. requester w req u \<and> belongs w ev u))
     (\<lambda>e w'. err_status e < 500 \<longrightarrow> db w' = db w) w"
  unfolding reserve_event_item_def
proof (intro guards [where w = w] same_data_refl, goal_cases)
  case (6 s v1 x1 v2 x2 v3 u v4 x4 v5 x5 v6)
  then have u: "acting w req u" by (auto simp: acting_def)
  have v: "db v6 = db w" using 6 by (simp add: same_data_def)
  have rows: "ledger_rows (db v6)" "catalogue_ok (db v6)" and q0: "0 \<le> q"
    using inv 6 by (simp_all add: v ledger_inv_def)
  show ?case
    unfolding wp_andthen [of "reserve_tx _ _ _ _"]
  proof (rule wp_mono [OF reserve_tx_spec [OF rows(1) q0 q]], goal_cases)
    case (1 x v')
    have "catalogue_ok (db v')"
      using rows(2) 1 by (auto simp: catalogue_ok_def with_share_tables)
    moreover have "(\<exists>e \<in> set (events_items (with_share u ev it q (db v6))). is_event_item ev it e)
        = (\<exists>e \<in> set (events_items (db v6)). is_event_item ev it e)"
      unfolding with_share_tables by (rule bex_update_where) (simp add: is_event_item_def)
    then have "\<exists>e \<in> set (events_items (db v')). is_event_item ev it e"
      using 1 by (auto simp: fits_def)
    ultimately show ?case
      using 1 6 u q0 by (intro wp_mono [OF answer_with_item_spec]) (auto simp: v)
  qed (simp add: v)
qed (auto simp: same_data_def)

lemma delete_event_item_spec:
  "wp (delete_event_item req ev it)
     (\<lambda>_ w'. writable w ev \<and> db w' = without_item ev it (db w)
        \<and> (\<exists>u. acting w req u \<and> (\<exists>e \<in> set (events_items (db w)). is_event_item ev it e
             \<and> (owns w ev u \<or> ei_created_by e = Some u))))
     (\<lambda>_ w'. db w' = db w) w"
  unfolding delete_event_item_def
proof (intro guards [where w = w] same_data_refl, goal_cases)
  case (5 s v1 u v2 x2 v3 x3 v4 o' v5)
  then have u: "acting w req u" "owns w ev o'" by (auto simp: acting_def owns_def)
  have v: "db v5 = db w" using 5 by (simp add: same_data_def)
  have pub: "wp (publish_event ev m) Q E v" if "\<And>v'. same_data v v' \<Longrightarrow> Q () v'" for m Q E v
    using that quietD [OF quiet_publish(1), of v ev m]
    by (auto simp: wp_def publish_event_def publish_json_def)
  show ?case
    unfolding wp_andthen [of "delete_event_item_tx _ _ _ _"]
  proof (rule wp_mono [OF delete_event_item_tx_spec], goal_cases)
    case (1 x v')
    then obtain e where "e \<in> set (events_items (db w))" "is_event_item ev it e" "owns w ev u \<or> ei_created_by e = Some u"
      using u v by auto
    with 1 5 u v show ?case
      unfolding wp_andthen by (intro pub) (auto simp: same_data_def)
  qed (simp add: v)
qed (auto simp: same_data_def)

section \<open>Every request keeps the ledger\<close>

lemmas ledger_quiet = ledger_tables.keeps_quiet [OF quiet_checks]

lemma answer_keeps: "keeps ledger_inv (answer_with_item ev it)"
  by (intro ledger_tables.keeps_quiet quiet_answer_with_item)

lemma reserve_event_item_keeps:
  assumes "q < 2 ^ 31"
  shows "keeps ledger_inv (reserve_event_item req ev it q)"
proof (rule keepsI)
  fix w assume inv: "ledger_inv w"
  show "wp (reserve_event_item req ev it q) (\<lambda>_. ledger_inv) (\<lambda>_. ledger_inv) w"
    unfolding reserve_event_item_def
  proof (intro guards [where w = w] same_data_refl, goal_cases)
    case (6 s v1 x1 v2 x2 v3 u v4 x4 v5 x5 v6)
    then have "keeps ledger_inv (andthen (reserve_tx u ev it q) (\<lambda>_. answer_with_item ev it))"
      by (intro keeps_andthen answer_keeps reserve_tx_keeps assms) simp
    then show ?case using 6 inv by (auto intro: keepsD ledger_tables.inv_same_data)
  qed (use inv in \<open>auto intro: ledger_tables.inv_same_data\<close>)
qed

lemma ensure_item_exists_quiet: "quiet (ensure_item_exists i)"
  unfolding ensure_item_exists_def by (intro quiet_intros)

lemma attach_event_item_keeps:
  assumes "ap_max_quantity p < 2 ^ 31"
  shows "keeps ledger_inv (attach_event_item req ev p)"
proof -
  have attach: "keeps ledger_inv (andthen (require (0 < ap_max_quantity p) e) (\<lambda>_. m))"
    if "0 < ap_max_quantity p \<Longrightarrow> keeps ledger_inv m" for e and m :: "'z act"
    using that by (cases "0 < ap_max_quantity p") (auto intro: keepsI keepsD simp: wp_andthen wp_require keepsD)
  show ?thesis
    unfolding attach_event_item_def
  proof (intro keeps_andthen [of _ "events_ensure_event_owner _ _"] keeps_andthen [of _ "ensure_event_writable _"]
      keeps_andthen [of _ "claims_email _"] attach ledger_quiet [OF checks_owner]
      ledger_quiet [OF checks_writable] ledger_quiet [OF checks_claims_email])
    fix x1 x2 email assume "0 < ap_max_quantity p"
    then have upsert: "keeps ledger_inv (stmt h (upsert_event_item (\<lambda>_ n. n) ev (ap_item_id p) (ap_max_quantity p) c))" for h c
      by (intro ledger_tables.keeps_stmt) (erule upsert_event_item_keeps [OF _ _ assms _], simp_all)
    show "keeps ledger_inv (andthen (ensure_event_exists ev) (\<lambda>_.
     andthen (ensure_item_exists (ap_item_id p)) (\<lambda>_.
     andthen (events_fetch_user_id email) (\<lambda>creator_id.
     andthen (stmt attach_error (upsert_event_item (\<lambda>_ new. new) ev (ap_item_id p) (ap_max_quantity p) creator_id)) (\<lambda>_.
     answer_with_item ev (ap_item_id p))))))"
      by (intro keeps_andthen answer_keeps upsert ledger_quiet [OF checks_event_exists] ledger_quiet [OF checks_user_id]
          ledger_tables.keeps_quiet ensure_item_exists_quiet)
  qed
qed

lemma checks_custom_item: "checks (check_custom_item o' p) (\<lambda>_ _. 0 < cu_max_quantity p)"
proof (rule checksI)
  show "wp (check_custom_item o' p) (\<lambda>_ v. same_data w v \<and> 0 < cu_max_quantity p) (\<lambda>_. same_data w) w" for w
    unfolding check_custom_item_def Let_def
    by (auto simp: wp_simps split: option.split)
qed (simp add: stable_def)

lemma create_custom_event_item_keeps:
  assumes "cu_max_quantity p < 2 ^ 31"
  shows "keeps ledger_inv (create_custom_event_item req ev p)"
proof (rule keepsI)
  fix w assume inv: "ledger_inv w"
  show "wp (create_custom_event_item req ev p) (\<lambda>_. ledger_inv) (\<lambda>_. ledger_inv) w"
    unfolding create_custom_event_item_def
  proof (intro guards [where w = w] wp_checked [OF checks_custom_item, where w = w] same_data_refl, goal_cases)
    case (6 x1 v1 x2 v2 email v3 c v4 o' v5 r v6)
    obtain name unit kind where r: "r = (name, unit, kind)" by (cases r) auto
    have "keeps ledger_inv (andthen (custom_item_tx ev c name (cu_max_quantity p) unit kind) (answer_with_item ev))"
      using 6 by (intro keeps_andthen answer_keeps custom_item_tx_keeps assms) simp
    then show ?case using 6 inv r by (auto intro: keepsD ledger_tables.inv_same_data)
  qed (use inv in \<open>auto intro: ledger_tables.inv_same_data\<close>)
qed

lemma delete_event_item_keeps: "keeps ledger_inv (delete_event_item req ev it)"
proof (rule keepsI)
  fix w assume inv: "ledger_inv w"
  then have "ledger_rows (without_item ev it (db w))" "catalogue_ok (without_item ev it (db w))"
    by (auto simp: ledger_inv_def without_item_ok) (auto simp: catalogue_ok_def without_item_def)
  then show "wp (delete_event_item req ev it) (\<lambda>_. ledger_inv) (\<lambda>_. ledger_inv) w"
    using inv by (intro wp_mono [OF delete_event_item_spec]) (auto simp: ledger_inv_def)
qed

lemma catalogue_quiet: "quiet (ensure_admin req)" "quiet (check_item_payload p)" "quiet (parse_kind k)"
  "quiet (check_previous_kind i k')" "quiet (check_item_patch q)"
  unfolding ensure_admin_def check_item_payload_def parse_kind_def check_previous_kind_def check_item_patch_def
  by (intro quiet_intros)+

lemma catalogue_keeps:
  "keeps ledger_inv (create_item req p)" "keeps ledger_inv (replace_item req i p)"
  "keeps ledger_inv (update_item req i q)" "keeps ledger_inv (delete_item req i)"
proof -
  note quiet = catalogue_quiet [THEN ledger_tables.keeps_quiet]
  have insert: "keeps ledger_inv (stmt h (insert_item row))" for h row
    by (rule ledger_tables.keeps_stmt) (rule insert_item_keeps)
  show "keeps ledger_inv (create_item req p)"
    unfolding create_item_def by (intro keeps_andthen quiet insert keeps_return)
  have store: "keeps ledger_inv (store_item i change)"
    if "\<And>i. it_id (change i) = it_id i"
      "(\<forall>i. it_type_id (change i) = t) \<or> (\<forall>i. it_type_id (change i) = it_type_id i)" for change t
  proof -
    have "keeps ledger_inv (stmt h (update_item_row i change))" for h
      by (rule ledger_tables.keeps_stmt) (erule update_item_row_keeps [OF _ that])
    then show ?thesis
      unfolding store_item_def
      by (intro keeps_andthen keeps_return ledger_tables.keeps_quiet [OF quiet_some_or])
  qed
  show "keeps ledger_inv (replace_item req i p)"
    unfolding replace_item_def by (intro keeps_andthen quiet store [of _ "ip_type_id p"]) simp_all
  show "keeps ledger_inv (update_item req i q)"
    unfolding update_item_def
    by (intro keeps_andthen quiet store [of _ "case ipp_type_id q of Some v \<Rightarrow> v | None \<Rightarrow> 0"])
      (simp_all split: option.split)
  have "keeps ledger_inv (execute e (\<lambda>w. delete_item_row i (db w)))" for e
    by (rule ledger_tables.keeps_execute) (simp add: ledger_inv_def delete_item_row_ok)
  then show "keeps ledger_inv (delete_item req i)"
    unfolding delete_item_def
    by (intro keeps_andthen quiet keeps_return ledger_tables.keeps_quiet [OF quiet_require])
qed

text \<open>The quantities of requests are \<open>i32\<close>, hence below \<open>2 ^ 31\<close>.\<close>

inductive item_step :: "world \<Rightarrow> world \<Rightarrow> bool" where
  attach: "ap_max_quantity p < 2 ^ 31 \<Longrightarrow> item_step w (snd (attach_event_item req ev p w))"
| custom: "cu_max_quantity c < 2 ^ 31 \<Longrightarrow> item_step w (snd (create_custom_event_item req ev c w))"
| reserve: "q < 2 ^ 31 \<Longrightarrow> item_step w (snd (reserve_event_item req ev it q w))"
| remove: "item_step w (snd (delete_event_item req ev it w))"
| create: "item_step w (snd (create_item req ip w))"
| replace: "item_step w (snd (replace_item req it ip w))"
| update: "item_step w (snd (update_item req it ipp w))"
| delete: "item_step w (snd (delete_item req it w))"
| elsewhere: "items (db w') = items (db w) \<Longrightarrow> item_types (db w') = item_types (db w)
    \<Longrightarrow> events_items (db w') = events_items (db w) \<Longrightarrow> user_items (db w') = user_items (db w) \<Longrightarrow> item_step w w'"

definition no_event_items :: "world \<Rightarrow> bool" where
  "no_event_items w \<longleftrightarrow> items (db w) = [] \<and> events_items (db w) = [] \<and> user_items (db w) = []"

interpretation bringing: invariant_system no_event_items item_step ledger_inv
proof
  fix w assume "no_event_items w"
  then show "ledger_inv w"
    by (simp add: no_event_items_def ledger_inv_def ledger_rows_def catalogue_ok_def)
next
  fix w w' assume "ledger_inv w" and "item_step w w'"
  from this(2,1) show "ledger_inv w'"
    by (induction rule: item_step.induct)
      (blast intro: ledger_inv_tables keeps_snd attach_event_item_keeps create_custom_event_item_keeps
        reserve_event_item_keeps delete_event_item_keeps catalogue_keeps)+
qed

end
