(* ===== verification/Polls.thy ===== *)
theory Polls
  imports Outbox
begin

text \<open>
  Polls (\<open>src/routes/events/polls.rs\<close>): the organiser asks a question with two to twelve options,
  members vote until the poll expires, and a new vote replaces the earlier one.
\<close>

section \<open>Payloads and views\<close>

record poll_create_payload =
  pc_question :: string
  pc_options :: "string list"
  pc_duration_minutes :: int
  pc_allow_multiple :: "bool option"

record poll_option_voter =
  pov_email :: string
  pov_handle :: string
  pov_avatar_url :: "string option"

record poll_option_view =
  ov_option_id :: int
  ov_label :: string
  ov_vote_count :: int
  ov_voters :: "poll_option_voter list"

record poll_view =
  pv_poll_id :: int
  pv_event_id :: int
  pv_question :: string
  pv_allow_multiple :: bool
  pv_expires_at :: micros
  pv_created_at :: micros
  pv_created_by_email :: "string option"
  pv_options :: "poll_option_view list"
  pv_my_votes :: "int list"
  pv_total_votes :: int
  pv_has_expired :: bool

section \<open>Reading\<close>

text \<open>The three statements of \<open>fetch_poll_views\<close>.\<close>

definition poll_rows :: "int \<Rightarrow> database \<Rightarrow> (poll \<times> string option) list" where
  "poll_rows event_id d =
     map (\<lambda>p. (p, Option.bind (p_created_by p) (\<lambda>i. map_option u_email (find (\<lambda>u. u_id u = i) (users d)))))
       (sort_key (\<lambda>p. - p_created_at p) (filter (\<lambda>p. p_event_id p = event_id) (polls d)))"

definition option_rows :: "int list \<Rightarrow> database \<Rightarrow> poll_option list" where
  "option_rows poll_ids d =
     sort_key o_position (sort_key o_id (filter (\<lambda>r. o_poll_id r \<in> set poll_ids) (poll_options d)))"

definition vote_rows :: "int list \<Rightarrow> database \<Rightarrow> (poll_vote \<times> user) list" where
  "vote_rows poll_ids d =
     concat (map (\<lambda>v. case find (\<lambda>u. u_id u = v_user_id v) (users d) of None \<Rightarrow> [] | Some u \<Rightarrow> [(v, u)])
       (filter (\<lambda>v. v_poll_id v \<in> set poll_ids) (poll_votes d)))"

text \<open>Putting the rows together: \<open>polls\<close> is the vector, \<open>options_by_poll\<close> the hash map of the code.\<close>

type_synonym options_by_poll = "int \<Rightarrow> (poll_option_view \<times> int) list option"

definition blank_view :: "int \<Rightarrow> micros \<Rightarrow> poll \<times> string option \<Rightarrow> poll_view" where
  "blank_view event_id t = (\<lambda>(p, email).
     \<lparr>pv_poll_id = p_id p, pv_event_id = event_id, pv_question = p_question p,
      pv_allow_multiple = p_allow_multiple p, pv_expires_at = p_expires_at p,
      pv_created_at = p_created_at p, pv_created_by_email = email, pv_options = [],
      pv_my_votes = [], pv_total_votes = 0, pv_has_expired = (p_expires_at p < t)\<rparr>)"

definition push_option :: "poll_option \<Rightarrow> options_by_poll \<Rightarrow> options_by_poll" where
  "push_option r m = m(o_poll_id r \<mapsto>
     (case m (o_poll_id r) of None \<Rightarrow> [] | Some l \<Rightarrow> l)
       @ [(\<lparr>ov_option_id = o_id r, ov_label = o_label r, ov_vote_count = 0, ov_voters = []\<rparr>, o_position r)])"

text \<open>\<open>iter_mut().find(..)\<close>: the first element that satisfies the condition is changed.\<close>

fun update_first :: "('a \<Rightarrow> bool) \<Rightarrow> ('a \<Rightarrow> 'a) \<Rightarrow> 'a list \<Rightarrow> 'a list" where
  "update_first p f [] = []"
| "update_first p f (x # xs) = (if p x then f x # xs else x # update_first p f xs)"

definition count_in_poll :: "int \<Rightarrow> poll_vote \<Rightarrow> poll_view \<Rightarrow> poll_view" where
  "count_in_poll user_id v p = p\<lparr>pv_total_votes := pv_total_votes p + 1,
     pv_my_votes := pv_my_votes p @ (if v_user_id v = user_id then [v_option_id v] else [])\<rparr>"

definition count_in_option :: "user \<Rightarrow> poll_option_view \<times> int \<Rightarrow> poll_option_view \<times> int" where
  "count_in_option u = (\<lambda>(opt, pos). (opt\<lparr>ov_vote_count := ov_vote_count opt + 1,
     ov_voters := ov_voters opt
       @ [\<lparr>pov_email = u_email u, pov_handle = u_handle u, pov_avatar_url = u_avatar_url u\<rparr>]\<rparr>, pos))"

definition count_vote ::
    "int \<Rightarrow> poll_vote \<times> user \<Rightarrow> poll_view list \<times> options_by_poll \<Rightarrow> poll_view list \<times> options_by_poll" where
  "count_vote user_id = (\<lambda>(v, u) (views, m).
     (update_first (\<lambda>p. pv_poll_id p = v_poll_id v) (count_in_poll user_id v) views,
      case m (v_poll_id v) of
        None \<Rightarrow> m
      | Some l \<Rightarrow> m(v_poll_id v \<mapsto>
          update_first (\<lambda>(opt, _). ov_option_id opt = v_option_id v) (count_in_option u) l)))"

text \<open>The last loop takes the options out of the map and sorts the votes of the reader.\<close>

fun attach_options :: "poll_view list \<Rightarrow> options_by_poll \<Rightarrow> poll_view list" where
  "attach_options [] m = []"
| "attach_options (p # ps) m =
     p\<lparr>pv_options := (case m (pv_poll_id p) of
          None \<Rightarrow> pv_options p
        | Some l \<Rightarrow> map fst (sort_key snd l)),
       pv_my_votes := remdups_adj (sort (pv_my_votes p))\<rparr>
     # attach_options ps (m(pv_poll_id p := None))"

definition assemble ::
    "int \<Rightarrow> int \<Rightarrow> micros \<Rightarrow> (poll \<times> string option) list \<Rightarrow> poll_option list \<Rightarrow> (poll_vote \<times> user) list
     \<Rightarrow> poll_view list" where
  "assemble event_id user_id t prows orows vrows =
     (let (views, m) = fold (count_vote user_id) vrows
            (map (blank_view event_id t) prows, fold push_option orows (\<lambda>_. None))
      in attach_options views m)"

definition fetch_poll_views :: "int \<Rightarrow> int \<Rightarrow> poll_view list act" where
  "fetch_poll_views event_id user_id =
     andthen (query db_error (\<lambda>w. poll_rows event_id (db w))) (\<lambda>prows.
     if prows = [] then return []
     else let poll_ids = map (p_id \<circ> fst) prows in
       andthen (query db_error (\<lambda>w. option_rows poll_ids (db w))) (\<lambda>orows.
       andthen (query db_error (\<lambda>w. vote_rows poll_ids (db w))) (\<lambda>vrows.
       andthen now (\<lambda>t.
       return (assemble event_id user_id t prows orows vrows)))))"

definition list_event_polls :: "request \<Rightarrow> int \<Rightarrow> poll_view list answer act" where
  "list_event_polls req event_id =
     andthen (extract_active_claims_from_auth req) (\<lambda>claims.
     andthen (events_ensure_event_member req event_id) (\<lambda>_.
     andthen (events_fetch_user_id (u_email claims)) (\<lambda>user_id.
     andthen (fetch_poll_views event_id user_id) (\<lambda>views.
     return (Answer 200 views)))))"

text \<open>The answer of a change: the view of the poll it was about.\<close>

definition poll_view_of :: "int \<Rightarrow> int \<Rightarrow> int \<Rightarrow> poll_view act" where
  "poll_view_of event_id user_id poll_id =
     andthen (fetch_poll_views event_id user_id) (\<lambda>views.
     some_or (find (\<lambda>p. pv_poll_id p = poll_id) views) db_error)"

definition polls_changed :: "int \<Rightarrow> int \<Rightarrow> (string \<times> json) list \<Rightarrow> json" where
  "polls_changed event_id poll_id extra = JObj ([(''type'', JStr ''event.polls.changed''),
     (''event_id'', JInt event_id), (''poll_id'', JInt poll_id)] @ extra)"

section \<open>Creating a poll\<close>

text \<open>Blank options are skipped, and an option that differs from an earlier one only by case.\<close>

fun collect_options :: "(string \<Rightarrow> string) \<Rightarrow> string list \<Rightarrow> string set \<Rightarrow> string list" where
  "collect_options lower [] seen = []"
| "collect_options lower (raw # raws) seen =
     (let trimmed = trim raw in
      if trimmed = [] then collect_options lower raws seen
      else if lower trimmed \<in> seen then collect_options lower raws seen
      else trimmed # collect_options lower raws (insert (lower trimmed) seen))"

definition check_poll :: "poll_create_payload \<Rightarrow> (string \<times> string list) act" where
  "check_poll payload =
     (let question = trim (pc_question payload) in
      andthen (require (question \<noteq> []) (bad_request ''invalid_payload'')) (\<lambda>_.
      andthen get_state (\<lambda>w.
      let options = collect_options (lowercase (cfg w)) (pc_options payload) {} in
      andthen (require (2 \<le> length options) (bad_request ''invalid_payload'')) (\<lambda>_.
      andthen (require (length options \<le> 12) (bad_request ''invalid_payload'')) (\<lambda>_.
      andthen (require (0 < pc_duration_minutes payload) (bad_request ''invalid_payload'')) (\<lambda>_.
      return (question, options)))))))"

definition insert_poll :: "(int \<Rightarrow> poll) \<Rightarrow> world \<Rightarrow> (sql_error + int) \<times> world" where
  "insert_poll row w =
     (let (i, w') = nextval PollSeq w; p = row i; d = db w in
      if content_not_allowed w [p_question p] then (Inl CheckViolation, w')
      else if \<not> exists_where (\<lambda>e. e_id e = p_event_id p) (events d)
              \<or> (case p_created_by p of None \<Rightarrow> False
                 | Some u \<Rightarrow> \<not> exists_where (\<lambda>r. u_id r = u) (users d))
      then (Inl ForeignKeyViolation, w')
      else (Inr i, w'\<lparr>db := d\<lparr>polls := polls d @ [p]\<rparr>\<rparr>))"

definition insert_poll_option :: "int \<Rightarrow> nat \<times> string \<Rightarrow> world \<Rightarrow> (sql_error + unit) \<times> world" where
  "insert_poll_option poll_id = (\<lambda>(idx, label) w.
     (let (i, w') = nextval OptionSeq w; d = db w in
      if content_not_allowed w [label] then (Inl CheckViolation, w')
      else if \<not> exists_where (\<lambda>p. p_id p = poll_id) (polls d) then (Inl ForeignKeyViolation, w')
      else (Inr (), w'\<lparr>db := d\<lparr>poll_options := poll_options d
        @ [\<lparr>o_id = i, o_poll_id = poll_id, o_label = label, o_position = int idx\<rparr>]\<rparr>\<rparr>)))"

definition new_poll :: "int \<Rightarrow> string \<Rightarrow> bool \<Rightarrow> micros \<Rightarrow> int \<Rightarrow> micros \<Rightarrow> int \<Rightarrow> poll" where
  "new_poll event_id question allow_multiple expires_at creator_id t i =
     \<lparr>p_id = i, p_event_id = event_id, p_question = question, p_allow_multiple = allow_multiple,
      p_expires_at = expires_at, p_created_at = t, p_created_by = Some creator_id\<rparr>"

definition create_poll_tx :: "(micros \<Rightarrow> int \<Rightarrow> poll) \<Rightarrow> string list \<Rightarrow> int act" where
  "create_poll_tx row options = transact db_error (
     andthen (stmt (\<lambda>_. db_error) (\<lambda>w. insert_poll (row (clock w)) w)) (\<lambda>poll_id.
     andthen (for_each (enumerate 0 options) (\<lambda>r. stmt (\<lambda>_. db_error) (insert_poll_option poll_id r))) (\<lambda>_.
     return poll_id)))"

definition poll_notice :: "int \<Rightarrow> int \<Rightarrow> string \<Rightarrow> string \<Rightarrow> string \<Rightarrow> notification_request" where
  "poll_notice event_id poll_id question sender event_name =
     \<lparr>nr_title = ''Nouveau sondage'',
      nr_body = sender @ '' a lanc'' @ e_acute @ '' un sondage dans '' @ event_name,
      nr_data = JObj [(''type'', JStr ''poll_created''), (''event_id'', JInt event_id),
        (''poll_id'', JInt poll_id), (''question'', JStr question)],
      nr_dedup_base_key = Some (''poll_created:'' @ show_int poll_id),
      nr_dedup_ttl = 600\<rparr>"

definition poll_audience :: "int \<Rightarrow> int \<Rightarrow> database \<Rightarrow> int list" where
  "poll_audience event_id creator_id d =
     remdups_adj (sort (map i_user_id (filter (\<lambda>i. i_event_id i = event_id \<and> i_status i = Accepted
       \<and> i_user_id i \<noteq> creator_id) (invitations d))))"

definition announce_poll :: "user \<Rightarrow> int \<Rightarrow> int \<Rightarrow> int \<Rightarrow> string \<Rightarrow> unit act" where
  "announce_poll claims event_id creator_id poll_id question = andthen get_state (\<lambda>w.
     if \<not> is_enabled (cfg w) then return ()
     else andthen (attempt (query db_error (\<lambda>w. poll_audience event_id creator_id (db w)))) (\<lambda>members.
       case members of
         None \<Rightarrow> return ()
       | Some members \<Rightarrow>
           andthen (attempt (query db_error (\<lambda>w. map_option e_name
               (find (\<lambda>e. e_id e = event_id) (events (db w)))))) (\<lambda>name.
           let event_name = (case name of Some (Some n) \<Rightarrow> n | _ \<Rightarrow> [CHR 0xC3, CHR 0x89] @ ''v'' @ e_acute @ ''nement'');
               sender = (if trim (u_handle claims) = [] then u_email claims else u_handle claims) in
           notify_users members (poll_notice event_id poll_id question sender event_name))))"

text \<open>What follows the checks of the payload.\<close>

definition record_poll ::
    "user \<Rightarrow> int \<Rightarrow> int \<Rightarrow> poll_create_payload \<Rightarrow> string \<times> string list \<Rightarrow> poll_view answer act" where
  "record_poll claims event_id creator_id payload = (\<lambda>(question, options).
     andthen (ensure_event_exists event_id) (\<lambda>_.
     andthen now (\<lambda>t.
     let duration_minutes = min (pc_duration_minutes payload) (60 * 24 * 7);
         expires_at = t + minutes duration_minutes;
         allow_multiple = (case pc_allow_multiple payload of Some b \<Rightarrow> b | None \<Rightarrow> True) in
     andthen (create_poll_tx (new_poll event_id question allow_multiple expires_at creator_id) options) (\<lambda>poll_id.
     andthen (poll_view_of event_id creator_id poll_id) (\<lambda>poll.
     andthen (publish_event event_id (polls_changed event_id poll_id [])) (\<lambda>_.
     andthen (announce_poll claims event_id creator_id poll_id question) (\<lambda>_.
     return (Answer 201 poll))))))))"

definition create_event_poll :: "request \<Rightarrow> int \<Rightarrow> poll_create_payload \<Rightarrow> poll_view answer act" where
  "create_event_poll req event_id payload =
     andthen (extract_active_claims_from_auth req) (\<lambda>claims.
     andthen (events_ensure_event_owner req event_id) (\<lambda>_.
     andthen (ensure_event_writable event_id) (\<lambda>_.
     andthen (events_fetch_user_id (u_email claims)) (\<lambda>creator_id.
     andthen (check_poll payload) (record_poll claims event_id creator_id payload)))))"

section \<open>Voting\<close>

definition clear_votes :: "int \<Rightarrow> int \<Rightarrow> database \<Rightarrow> database" where
  "clear_votes poll_id user_id d =
     d\<lparr>poll_votes := delete_where (\<lambda>v. v_poll_id v = poll_id \<and> v_user_id v = user_id) (poll_votes d)\<rparr>"

definition insert_vote :: "int \<Rightarrow> int \<Rightarrow> int \<Rightarrow> world \<Rightarrow> (sql_error + unit) \<times> world" where
  "insert_vote poll_id user_id opt_id w =
     (let d = db w in
      if exists_where (\<lambda>v. v_poll_id v = poll_id \<and> v_option_id v = opt_id \<and> v_user_id v = user_id) (poll_votes d)
      then (Inl UniqueViolation, w)
      else if \<not> exists_where (\<lambda>p. p_id p = poll_id) (polls d)
              \<or> \<not> exists_where (\<lambda>r. o_id r = opt_id) (poll_options d)
              \<or> \<not> exists_where (\<lambda>u. u_id u = user_id) (users d)
      then (Inl ForeignKeyViolation, w)
      else (Inr (), w\<lparr>db := d\<lparr>poll_votes := poll_votes d
        @ [\<lparr>v_poll_id = poll_id, v_option_id = opt_id, v_user_id = user_id\<rparr>]\<rparr>\<rparr>))"

text \<open>The checks of a vote, with the row of the poll locked.\<close>

definition check_vote :: "int \<Rightarrow> int \<Rightarrow> int list \<Rightarrow> (int list) act" where
  "check_vote event_id poll_id payload_ids =
     andthen (query db_error (\<lambda>w. find (\<lambda>p. p_id p = poll_id) (polls (db w)))) (\<lambda>row.
     andthen (some_or row (not_found ''poll_not_found'')) (\<lambda>p.
     andthen (require (p_event_id p = event_id) (not_found ''poll_not_found'')) (\<lambda>_.
     andthen now (\<lambda>t.
     andthen (require (\<not> p_expires_at p < t) (gone ''poll_expired'')) (\<lambda>_.
     let option_ids = remdups_adj (sort payload_ids) in
     andthen (require (p_allow_multiple p \<or> length option_ids \<le> 1) (bad_request ''invalid_payload'')) (\<lambda>_.
     andthen (query db_error (\<lambda>w. map o_id (filter (\<lambda>r. o_poll_id r = poll_id) (poll_options (db w)))))
       (\<lambda>valid_option_ids.
     andthen (require (list_all (\<lambda>i. i \<in> set valid_option_ids) option_ids) (bad_request ''invalid_option'')) (\<lambda>_.
     return option_ids))))))))"

definition replace_votes :: "int \<Rightarrow> int \<Rightarrow> int list \<Rightarrow> unit act" where
  "replace_votes poll_id user_id option_ids =
     andthen (execute db_error (\<lambda>w. ((), clear_votes poll_id user_id (db w)))) (\<lambda>_.
     for_each option_ids (\<lambda>opt_id. stmt (\<lambda>_. db_error) (insert_vote poll_id user_id opt_id)))"

definition vote_tx :: "int \<Rightarrow> int \<Rightarrow> int \<Rightarrow> int list \<Rightarrow> unit act" where
  "vote_tx event_id poll_id user_id payload_ids = transact db_error (
     andthen (check_vote event_id poll_id payload_ids) (replace_votes poll_id user_id))"

definition vote_event_poll :: "request \<Rightarrow> int \<Rightarrow> int \<Rightarrow> int list \<Rightarrow> poll_view answer act" where
  "vote_event_poll req event_id poll_id option_ids =
     andthen (extract_active_claims_from_auth req) (\<lambda>claims.
     andthen (events_fetch_user_id (u_email claims)) (\<lambda>user_id.
     andthen (events_ensure_event_member req event_id) (\<lambda>_.
     andthen (ensure_event_writable event_id) (\<lambda>_.
     andthen (vote_tx event_id poll_id user_id option_ids) (\<lambda>_.
     andthen (poll_view_of event_id user_id poll_id) (\<lambda>poll.
     andthen (publish_event event_id (polls_changed event_id poll_id [])) (\<lambda>_.
     return (Answer 200 poll))))))))"

section \<open>Deleting a poll\<close>

text \<open>The options and the votes go with the poll (\<open>ON DELETE CASCADE\<close>).\<close>

definition delete_poll_row :: "int \<Rightarrow> database \<Rightarrow> nat \<times> database" where
  "delete_poll_row poll_id d =
     (let gone_options = map o_id (filter (\<lambda>r. o_poll_id r = poll_id) (poll_options d)) in
      (count_where (\<lambda>p. p_id p = poll_id) (polls d),
       if exists_where (\<lambda>p. p_id p = poll_id) (polls d)
       then d\<lparr>polls := delete_where (\<lambda>p. p_id p = poll_id) (polls d),
              poll_options := delete_where (\<lambda>r. o_poll_id r = poll_id) (poll_options d),
              poll_votes := delete_where (\<lambda>v. v_poll_id v = poll_id \<or> v_option_id v \<in> set gone_options)
                (poll_votes d)\<rparr>
       else d))"

definition check_delete_poll :: "user \<Rightarrow> int \<Rightarrow> int \<Rightarrow> unit act" where
  "check_delete_poll claims event_id poll_id =
     andthen (query db_error (\<lambda>w. find (\<lambda>p. p_id p = poll_id) (polls (db w)))) (\<lambda>row.
     andthen (some_or row (not_found ''poll_not_found'')) (\<lambda>p.
     andthen (require (p_event_id p = event_id) (not_found ''poll_not_found'')) (\<lambda>_.
     andthen (events_fetch_user_id (u_email claims)) (\<lambda>user_id.
     andthen (events_fetch_event_owner_id event_id) (\<lambda>owner_id.
     let is_owner = (owner_id = user_id); is_creator = (p_created_by p = Some user_id) in
     require (\<not> (\<not> is_owner \<and> \<not> is_creator)) (forbidden ''forbidden''))))))"

definition remove_poll :: "int \<Rightarrow> int \<Rightarrow> string answer act" where
  "remove_poll event_id poll_id =
     andthen (execute db_error (\<lambda>w. delete_poll_row poll_id (db w))) (\<lambda>rows_affected.
     andthen (require (rows_affected \<noteq> 0) (not_found ''poll_not_found'')) (\<lambda>_.
     andthen (publish_event event_id (polls_changed event_id poll_id [(''deleted'', JBool True)])) (\<lambda>_.
     return (Answer 200 ''deleted''))))"

definition delete_event_poll :: "request \<Rightarrow> int \<Rightarrow> int \<Rightarrow> string answer act" where
  "delete_event_poll req event_id poll_id =
     andthen (extract_active_claims_from_auth req) (\<lambda>claims.
     andthen (ensure_event_exists event_id) (\<lambda>_.
     andthen (ensure_event_writable event_id) (\<lambda>_.
     andthen (check_delete_poll claims event_id poll_id) (\<lambda>_.
     remove_poll event_id poll_id))))"

end
