(* ===== verification/Poll_Facts.thy ===== *)
theory Poll_Facts
  imports Polls Checks
begin

text \<open>
  Facts about polls: the view put together by the loops equals a tally read off the rows, the
  invariant of the three tables, and what voting and deleting change.
\<close>

section \<open>The tally\<close>

text \<open>The reference definition: every number of a view is a count of rows.\<close>

definition tally_option :: "(poll_vote \<times> user) list \<Rightarrow> poll_option \<Rightarrow> poll_option_view" where
  "tally_option vrows r =
     (let mine = filter (\<lambda>(v, u). v_poll_id v = o_poll_id r \<and> v_option_id v = o_id r) vrows in
      \<lparr>ov_option_id = o_id r, ov_label = o_label r, ov_vote_count = int (length mine),
       ov_voters = map (\<lambda>(v, u). \<lparr>pov_email = u_email u, pov_handle = u_handle u, pov_avatar_url = u_avatar_url u\<rparr>) mine\<rparr>)"

definition ballots :: "(poll_vote \<times> user) list \<Rightarrow> int \<Rightarrow> poll_vote list" where
  "ballots vrows poll_id = filter (\<lambda>v. v_poll_id v = poll_id) (map fst vrows)"

definition tally_poll ::
    "int \<Rightarrow> int \<Rightarrow> micros \<Rightarrow> poll_option list \<Rightarrow> (poll_vote \<times> user) list \<Rightarrow> poll \<times> string option \<Rightarrow> poll_view" where
  "tally_poll event_id user_id t orows vrows r =
     (blank_view event_id t r)\<lparr>
       pv_total_votes := int (length (ballots vrows (p_id (fst r)))),
       pv_my_votes := remdups_adj (sort (map v_option_id
         (filter (\<lambda>v. v_user_id v = user_id) (ballots vrows (p_id (fst r)))))),
       pv_options := map (tally_option vrows)
         (sort_key o_position (filter (\<lambda>o'. o_poll_id o' = p_id (fst r)) orows))\<rparr>"

lemma update_first_key:
  "distinct (map k xs) \<Longrightarrow> update_first (\<lambda>x. k x = a) f xs = map (\<lambda>x. if k x = a then f x else x) xs"
proof (induction xs)
  case (Cons x xs)
  have "map (\<lambda>y. if k y = k x then f y else y) xs = xs"
    using Cons.prems by (intro map_idI) (metis distinct.simps(2) image_eqI list.set_map list.simps(9))
  then show ?case using Cons by auto
qed simp

lemma attach_options_map:
  "distinct (map pv_poll_id ps) \<Longrightarrow> attach_options ps m = map (\<lambda>p. p\<lparr>pv_options := (case m (pv_poll_id p) of
          None \<Rightarrow> pv_options p | Some l \<Rightarrow> map fst (sort_key snd l)),
       pv_my_votes := remdups_adj (sort (pv_my_votes p))\<rparr>) ps"
proof (induction ps arbitrary: m)
  case (Cons p ps)
  have "pv_poll_id q \<noteq> pv_poll_id p" if "q \<in> set ps" for q
    using Cons.prems that by (metis distinct.simps(2) image_eqI list.set_map list.simps(9))
  then show ?case
    using Cons by (auto cong: map_cong)
qed simp

lemma insort_key_map: "insort_key f (g x) (map g xs) = map g (insort_key (f \<circ> g) x xs)"
  by (induction xs) auto

lemma sort_key_map: "sort_key f (map g xs) = map g (sort_key (f \<circ> g) xs)"
  by (induction xs) (simp_all add: insort_key_map [unfolded comp_def] comp_def)

text \<open>The hash map of the options, and what it holds after some of the votes.\<close>

definition counted_option :: "(poll_vote \<times> user) list \<Rightarrow> poll_option \<Rightarrow> poll_option_view \<times> int" where
  "counted_option vrows r = (tally_option vrows r, o_position r)"

definition counted_map :: "poll_option list \<Rightarrow> (poll_vote \<times> user) list \<Rightarrow> options_by_poll" where
  "counted_map orows vrows = (\<lambda>i. let rs = filter (\<lambda>r. o_poll_id r = i) orows in
     if rs = [] then None else Some (map (counted_option vrows) rs))"

definition counted_view :: "int \<Rightarrow> int \<Rightarrow> micros \<Rightarrow> (poll_vote \<times> user) list \<Rightarrow> poll \<times> string option \<Rightarrow> poll_view" where
  "counted_view event_id user_id t vrows r =
     (blank_view event_id t r)\<lparr>
       pv_total_votes := int (length (ballots vrows (p_id (fst r)))),
       pv_my_votes := map v_option_id (filter (\<lambda>v. v_user_id v = user_id) (ballots vrows (p_id (fst r))))\<rparr>"

lemma push_options: "fold push_option orows (\<lambda>_. None) = counted_map orows []"
proof (induction orows rule: rev_induct)
  case Nil
  show ?case by (simp add: counted_map_def)
next
  case (snoc r orows)
  then show ?case
    by (auto simp: push_option_def counted_map_def Let_def fun_eq_iff counted_option_def tally_option_def)
qed

lemma count_vote_poll:
  assumes "distinct (map (p_id \<circ> fst) prows)"
  shows "update_first (\<lambda>p. pv_poll_id p = v_poll_id v) (count_in_poll user_id v)
      (map (counted_view event_id user_id t vrows) prows)
    = map (counted_view event_id user_id t (vrows @ [(v, u)])) prows"
proof -
  have ids: "map pv_poll_id (map (counted_view event_id user_id t vrows) prows) = map (p_id \<circ> fst) prows"
    by (simp add: counted_view_def blank_view_def case_prod_beta)
  show ?thesis
    unfolding update_first_key [OF assms [folded ids]] map_map
    by (intro map_cong refl) (auto simp: counted_view_def blank_view_def ballots_def count_in_poll_def)
qed

lemma counted_option_snoc:
  "counted_option (vrows @ [(v, u)]) r = (if v_poll_id v = o_poll_id r \<and> v_option_id v = o_id r
     then count_in_option u (counted_option vrows r) else counted_option vrows r)"
  by (simp add: counted_option_def tally_option_def Let_def count_in_option_def)

lemma count_vote_option:
  assumes "distinct (map o_id orows)"
  shows "(case counted_map orows vrows (v_poll_id v) of
        None \<Rightarrow> counted_map orows vrows
      | Some l \<Rightarrow> (counted_map orows vrows)(v_poll_id v \<mapsto>
          update_first (\<lambda>(opt, _). ov_option_id opt = v_option_id v) (count_in_option u) l))
    = counted_map orows (vrows @ [(v, u)])"
proof
  fix i
  let ?rs = "filter (\<lambda>r. o_poll_id r = v_poll_id v) orows"
  have other: "counted_map orows (vrows @ [(v, u)]) i = counted_map orows vrows i" if "i \<noteq> v_poll_id v"
    using that by (auto simp: counted_map_def Let_def counted_option_snoc)
  have "map (ov_option_id \<circ> fst) (map (counted_option vrows) ?rs) = map o_id ?rs"
    by (simp add: counted_option_def tally_option_def Let_def)
  moreover have "distinct (map o_id ?rs)"
    using assms by (simp add: distinct_map_filter)
  ultimately have "distinct (map (ov_option_id \<circ> fst) (map (counted_option vrows) ?rs))"
    by (simp only:)
  from update_first_key [OF this, of "v_option_id v" "count_in_option u"]
  have "update_first (\<lambda>(opt, _). ov_option_id opt = v_option_id v) (count_in_option u) (map (counted_option vrows) ?rs)
      = map (counted_option (vrows @ [(v, u)])) ?rs"
    by (auto simp: case_prod_beta' counted_option_snoc counted_option_def [of vrows] tally_option_def Let_def)
  then show "(case counted_map orows vrows (v_poll_id v) of
        None \<Rightarrow> counted_map orows vrows
      | Some l \<Rightarrow> (counted_map orows vrows)(v_poll_id v \<mapsto>
          update_first (\<lambda>(opt, _). ov_option_id opt = v_option_id v) (count_in_option u) l)) i
    = counted_map orows (vrows @ [(v, u)]) i"
    using other by (cases "i = v_poll_id v") (auto simp: counted_map_def Let_def)
qed

lemma count_votes:
  assumes "distinct (map (p_id \<circ> fst) prows)" and "distinct (map o_id orows)"
  shows "fold (count_vote user_id) vrows (map (blank_view event_id t) prows, fold push_option orows (\<lambda>_. None))
    = (map (counted_view event_id user_id t vrows) prows, counted_map orows vrows)"
proof (induction vrows rule: rev_induct)
  case Nil
  show ?case
    unfolding push_options by (auto simp: counted_view_def blank_view_def ballots_def)
next
  case (snoc x vrows)
  obtain v u where x: "x = (v, u)" by force
  show ?case
    unfolding fold_append fold.simps comp_apply id_apply snoc.IH unfolding x count_vote_def prod.case
      count_vote_poll [OF assms(1), of v user_id event_id t vrows u] count_vote_option [OF assms(2)] ..
qed

text \<open>The loops compute the tally.\<close>

lemma assemble_tally:
  assumes "distinct (map (p_id \<circ> fst) prows)" and "distinct (map o_id orows)"
  shows "assemble event_id user_id t prows orows vrows = map (tally_poll event_id user_id t orows vrows) prows"
proof -
  have ids: "map pv_poll_id (map (counted_view event_id user_id t vrows) prows) = map (p_id \<circ> fst) prows"
    by (simp add: counted_view_def blank_view_def case_prod_beta)
  have sorted: "map fst (sort_key snd (map (counted_option vrows) rs)) = map (tally_option vrows) (sort_key o_position rs)" for rs
    by (simp add: sort_key_map counted_option_def o_def)
  show ?thesis
    unfolding assemble_def count_votes [OF assms] prod.case Let_def attach_options_map [OF assms(1) [folded ids]] map_map
    by (intro map_cong refl)
      (auto simp: counted_view_def blank_view_def tally_poll_def counted_map_def Let_def sorted filter_empty_conv)
qed

section \<open>The invariant\<close>

definition poll_ok :: "database \<Rightarrow> bool" where
  "poll_ok d \<longleftrightarrow> distinct (map p_id (polls d)) \<and> distinct (map o_id (poll_options d)) \<and> distinct (poll_votes d)
     \<and> (\<forall>r \<in> set (poll_options d). \<exists>p \<in> set (polls d). p_id p = o_poll_id r)
     \<and> (\<forall>v \<in> set (poll_votes d). \<exists>r \<in> set (poll_options d). o_id r = v_option_id v \<and> o_poll_id r = v_poll_id v)
     \<and> (\<forall>p \<in> set (polls d). \<not> p_allow_multiple p \<longrightarrow> (\<forall>v \<in> set (poll_votes d). \<forall>v' \<in> set (poll_votes d).
          v_poll_id v = p_id p \<and> v_poll_id v' = p_id p \<and> v_user_id v = v_user_id v' \<longrightarrow> v = v'))
     \<and> (\<forall>p \<in> set (polls d). p_created_at p < p_expires_at p \<and> p_expires_at p \<le> p_created_at p + days 7
          \<and> count_where (\<lambda>r. o_poll_id r = p_id p) (poll_options d) \<in> {2..12})"

definition poll_inv :: "world \<Rightarrow> bool" where
  "poll_inv w \<longleftrightarrow> poll_ok (db w)
     \<and> (\<forall>p \<in> set (polls (db w)). p_id p \<le> seqs w PollSeq)
     \<and> (\<forall>r \<in> set (poll_options (db w)). o_id r \<le> seqs w OptionSeq)"

lemma poll_inv_mono:
  assumes "poll_inv w" and "polls (db w') = polls (db w)" and "poll_options (db w') = poll_options (db w)"
    and "poll_votes (db w') = poll_votes (db w)"
    and "seqs w PollSeq \<le> seqs w' PollSeq" and "seqs w OptionSeq \<le> seqs w' OptionSeq"
  shows "poll_inv w'"
  using assms unfolding poll_inv_def poll_ok_def by (simp only:) (meson order_trans)

interpretation poll_tables: table_invariant poll_inv
proof
  fix w w' assume "poll_inv w" "db w' = db w" "later w w'"
  then show "poll_inv w'"
    by (elim poll_inv_mono) (simp_all add: later_def)
qed

lemma poll_inv_only_outbox: "poll_inv w \<Longrightarrow> only_outbox w w' \<Longrightarrow> poll_inv w'"
  by (elim poll_inv_mono) (simp_all add: only_outbox_tables [of w w'] only_outbox_def)

section \<open>Creating\<close>

fun option_rows_for :: "int \<Rightarrow> int \<Rightarrow> (nat \<times> string) list \<Rightarrow> poll_option list" where
  "option_rows_for poll_id n [] = []"
| "option_rows_for poll_id n ((idx, label) # rs) =
     \<lparr>o_id = n, o_poll_id = poll_id, o_label = label, o_position = int idx\<rparr> # option_rows_for poll_id (n + 1) rs"

lemma insert_options_spec:
  "wp (for_each rs (\<lambda>r. stmt h (insert_poll_option i r)))
     (\<lambda>_ w'. later w w' \<and> seqs w' PollSeq = seqs w PollSeq
        \<and> seqs w' OptionSeq = seqs w OptionSeq + int (length rs)
        \<and> db w' = (db w)\<lparr>poll_options := poll_options (db w) @ option_rows_for i (seqs w OptionSeq + 1) rs\<rparr>)
     (\<lambda>_ _. True) w"
proof (induction rs arbitrary: w)
  case Nil
  show ?case by simp
next
  case (Cons r rs)
  obtain idx label where r: "r = (idx, label)" by force
  have one: "wp (stmt h (insert_poll_option i r))
      (\<lambda>_ w'. later w w' \<and> seqs w' PollSeq = seqs w PollSeq \<and> seqs w' OptionSeq = seqs w OptionSeq + 1
         \<and> db w' = (db w)\<lparr>poll_options := poll_options (db w) @ option_rows_for i (seqs w OptionSeq + 1) [r]\<rparr>)
      (\<lambda>_ _. True) w"
    by (simp add: wp_stmt insert_poll_option_def r Let_def nextval_def) (simp add: later_def)
  show ?case
    unfolding for_each.simps wp_andthen
  proof (rule wp_mono [OF one], goal_cases)
    case (1 x w')
    then show ?case
      by (intro wp_mono [OF Cons.IH]) (auto simp: r add_ac intro: later_trans)
  qed simp
qed

lemma option_rows_for_facts:
  "map o_label (option_rows_for i n rs) = map snd rs"
  "map o_id (option_rows_for i n rs) = map (\<lambda>k. n + int k) [0..<length rs]"
  "r \<in> set (option_rows_for i n rs) \<Longrightarrow> o_poll_id r = i \<and> n \<le> o_id r \<and> o_id r < n + int (length rs)"
  "length (option_rows_for i n rs) = length rs"
proof (induction i n rs rule: option_rows_for.induct)
  case (2 i n idx label rs)
  { case 1 show ?case using 2 by simp
  next case 2 show ?case using \<open>map o_id _ = _\<close>
      by (simp add: upt_conv_Cons map_Suc_upt [symmetric] del: upt_Suc)
  next case 3 then show ?case using 2 by fastforce
  next case 4 show ?case using 2 by simp }
qed simp_all

lemma insert_poll_okD:
  assumes "insert_poll row w = (Inr i, w')"
  shows "i = seqs w PollSeq + 1
    \<and> w' = w\<lparr>seqs := (seqs w)(PollSeq := i), db := (db w)\<lparr>polls := polls (db w) @ [row i]\<rparr>\<rparr>
    \<and> \<not> content_not_allowed w [p_question (row i)]"
  using assms by (auto simp: insert_poll_def nextval_def Let_def split: if_splits)

text \<open>The tables after a poll has been recorded.\<close>

definition with_poll :: "poll \<Rightarrow> int \<Rightarrow> string list \<Rightarrow> database \<Rightarrow> database" where
  "with_poll p n labels d = d\<lparr>polls := polls d @ [p],
     poll_options := poll_options d @ option_rows_for (p_id p) n (enumerate 0 labels)\<rparr>"

lemma create_poll_tx_spec:
  assumes row: "\<And>t i. p_id (row t i) = i"
  shows "wp (create_poll_tx row labels)
     (\<lambda>i w'. i = seqs w PollSeq + 1 \<and> seqs w' PollSeq = i
        \<and> seqs w' OptionSeq = seqs w OptionSeq + int (length labels)
        \<and> db w' = with_poll (row (clock w) i) (seqs w OptionSeq + 1) labels (db w))
     (\<lambda>_ w'. db w' = db w) w"
  unfolding create_poll_tx_def
proof (rule wp_transact_success, goal_cases)
  case 1
  show ?case
    unfolding wp_andthen wp_stmt wp_return
    by (auto dest!: insert_poll_okD split: prod.split sum.split
        intro!: wp_mono [OF insert_options_spec] simp: with_poll_def row)
qed simp

lemma grows_poll_statements:
  "later w (snd (insert_poll row w))" "later w (snd (insert_poll_option i r w))" "later w (snd (insert_vote i u o' w))"
  using later_nextval [of w PollSeq] later_nextval [of w OptionSeq]
  by (auto simp: insert_poll_def insert_poll_option_def insert_vote_def Let_def nextval_def split: prod.split)

lemma grows_create_poll: "grows (create_poll_tx row labels)"
  unfolding create_poll_tx_def
  by (intro grows_transact grows_intros grows_quiet [OF quiet_return] grows_poll_statements)

lemma poll_ok_add:
  assumes ok: "poll_ok d" and fresh: "\<And>p. p \<in> set (polls d) \<Longrightarrow> p_id p \<noteq> p_id q"
    and fresh_options: "\<And>r. r \<in> set (poll_options d) \<Longrightarrow> o_id r < n"
    and labels: "2 \<le> length labels" "length labels \<le> 12"
    and times: "p_created_at q < p_expires_at q" "p_expires_at q \<le> p_created_at q + days 7"
  shows "poll_ok (with_poll q n labels d)"
proof -
  let ?new = "option_rows_for (p_id q) n (enumerate 0 labels)"
  have ids: "map o_id ?new = map (\<lambda>k. n + int k) [0..<length labels]"
    by (simp add: option_rows_for_facts)
  have new: "o_poll_id r = p_id q \<and> n \<le> o_id r" if "r \<in> set ?new" for r
    using option_rows_for_facts(3) [OF that] by simp
  have old: "o_poll_id r \<noteq> p_id q" if "r \<in> set (poll_options d)" for r
    using ok fresh that unfolding poll_ok_def by metis
  have ids_distinct: "distinct (map o_id (poll_options d @ ?new))"
  proof -
    have "distinct (map o_id ?new)" unfolding ids by (simp add: distinct_map inj_on_def)
    moreover have "o_id r \<noteq> o_id r'" if "r \<in> set (poll_options d)" "r' \<in> set ?new" for r r'
      using fresh_options [OF that(1)] new [OF that(2)] by simp
    ultimately show ?thesis
      using ok by (auto simp: poll_ok_def)
  qed
  have counts: "count_where (\<lambda>r. o_poll_id r = p_id p) (poll_options d @ ?new) =
      (if p_id p = p_id q then length labels else count_where (\<lambda>r. o_poll_id r = p_id p) (poll_options d))" for p
  proof (cases "p_id p = p_id q")
    case True
    have "count_where (\<lambda>r. o_poll_id r = p_id q) (poll_options d) = 0"
      using old by (simp add: count_where_eq_0)
    moreover have "count_where (\<lambda>r. o_poll_id r = p_id q) ?new = length ?new"
      using new by (simp add: count_where_def)
    ultimately show ?thesis using True by (simp add: option_rows_for_facts)
  next
    case False
    then have "count_where (\<lambda>r. o_poll_id r = p_id p) ?new = 0"
      using new by (auto simp: count_where_eq_0)
    then show ?thesis using False by simp
  qed
  have votes: "v_poll_id v \<noteq> p_id q" if "v \<in> set (poll_votes d)" for v
    using ok old that unfolding poll_ok_def by metis
  have tables: "polls (with_poll q n labels d) = polls d @ [q]" "poll_votes (with_poll q n labels d) = poll_votes d"
    "poll_options (with_poll q n labels d) = poll_options d @ ?new"
    by (simp_all add: with_poll_def)
  have refs: "\<forall>r \<in> set (poll_options d @ ?new). \<exists>p \<in> set (polls d @ [q]). p_id p = o_poll_id r"
    using ok new unfolding poll_ok_def by fastforce
  have sizes: "count_where (\<lambda>r. o_poll_id r = p_id p) (poll_options d @ ?new) \<in> {2..12}"
    if "p \<in> set (polls d @ [q])" for p
    unfolding counts using ok labels that fresh by (auto simp: poll_ok_def)
  have single: "\<forall>p \<in> set (polls d @ [q]). \<not> p_allow_multiple p \<longrightarrow> (\<forall>v \<in> set (poll_votes d). \<forall>v' \<in> set (poll_votes d).
          v_poll_id v = p_id p \<and> v_poll_id v' = p_id p \<and> v_user_id v = v_user_id v' \<longrightarrow> v = v')"
    using ok votes unfolding poll_ok_def by auto
  have chosen: "\<forall>v \<in> set (poll_votes d). \<exists>r \<in> set (poll_options d @ ?new).
      o_id r = v_option_id v \<and> o_poll_id r = v_poll_id v"
    using ok unfolding poll_ok_def by fastforce
  have "p_id q \<notin> p_id ` set (polls d)"
    using fresh by force
  then have "distinct (map p_id (polls d @ [q]))" "distinct (poll_votes d)"
    using ok by (auto simp: poll_ok_def)
  moreover have "p_created_at p < p_expires_at p \<and> p_expires_at p \<le> p_created_at p + days 7"
    if "p \<in> set (polls d @ [q])" for p
    using ok times that by (auto simp: poll_ok_def)
  ultimately show ?thesis
    unfolding poll_ok_def tables using ids_distinct refs sizes single chosen by blast
qed

lemma create_poll_tx_keeps:
  assumes row: "\<And>t i. p_id (row t i) = i" and labels: "2 \<le> length labels" "length labels \<le> 12"
  shows "keeps (\<lambda>w. poll_inv w \<and> (\<forall>i. p_created_at (row (clock w) i) < p_expires_at (row (clock w) i)
      \<and> p_expires_at (row (clock w) i) \<le> p_created_at (row (clock w) i) + days 7)) (create_poll_tx row labels)"
    (is "keeps ?I _")
proof (rule keepsI)
  fix w assume inv: "?I w"
  show "wp (create_poll_tx row labels) (\<lambda>_. ?I) (\<lambda>_. ?I) w"
  proof (rule wp_mono [OF wp_conj [OF create_poll_tx_spec [OF row] wp_grows [OF grows_create_poll later_refl]]],
      goal_cases)
    case (1 i w')
    let ?q = "row (clock w) i"
    have q: "p_id ?q = i" "i = seqs w PollSeq + 1" using row 1 by auto
    have "poll_ok (db w')"
      unfolding 1 [THEN conjunct1, THEN conjunct2, THEN conjunct2, THEN conjunct2]
      using inv q by (intro poll_ok_add labels) (fastforce simp: poll_inv_def)+
    moreover have "\<forall>p \<in> set (polls (db w')). p_id p \<le> seqs w' PollSeq"
      using 1 q inv by (fastforce simp: with_poll_def poll_inv_def)
    moreover have "\<forall>r \<in> set (poll_options (db w')). o_id r \<le> seqs w' OptionSeq"
      using 1 inv by (fastforce simp: with_poll_def poll_inv_def dest: option_rows_for_facts(3))
    ultimately show ?case
      using 1 inv by (auto simp: poll_inv_def later_def)
  next
    case (2 e w')
    then show ?case using inv by (auto intro: poll_tables.rollback simp: later_def)
  qed
qed

section \<open>Voting\<close>

text \<open>The votes of a user on a poll are replaced by these options.\<close>

definition voted :: "int \<Rightarrow> int \<Rightarrow> int list \<Rightarrow> database \<Rightarrow> database" where
  "voted poll_id user_id opts d =
     (clear_votes poll_id user_id d)\<lparr>poll_votes := poll_votes (clear_votes poll_id user_id d)
        @ map (\<lambda>i. \<lparr>v_poll_id = poll_id, v_option_id = i, v_user_id = user_id\<rparr>) opts\<rparr>"

lemma insert_votes_spec:
  "wp (for_each opts (\<lambda>i. stmt h (insert_vote p u i)))
     (\<lambda>_ w'. later w w' \<and> seqs w' = seqs w
        \<and> db w' = (db w)\<lparr>poll_votes := poll_votes (db w)
            @ map (\<lambda>i. \<lparr>v_poll_id = p, v_option_id = i, v_user_id = u\<rparr>) opts\<rparr>)
     (\<lambda>_ _. True) w"
proof (induction opts arbitrary: w)
  case Nil
  show ?case by simp
next
  case (Cons i opts)
  have one: "wp (stmt h (insert_vote p u i))
      (\<lambda>_ w'. later w w' \<and> seqs w' = seqs w
         \<and> db w' = (db w)\<lparr>poll_votes := poll_votes (db w) @ [\<lparr>v_poll_id = p, v_option_id = i, v_user_id = u\<rparr>]\<rparr>)
      (\<lambda>_ _. True) w"
    by (simp add: wp_stmt insert_vote_def Let_def)
  show ?case
    unfolding for_each.simps wp_andthen
  proof (rule wp_mono [OF one], goal_cases)
    case (1 x w')
    then show ?case
      by (intro wp_mono [OF Cons.IH]) (auto intro: later_trans)
  qed simp
qed

text \<open>A vote that is accepted, in the world in which it is cast.\<close>

definition votable :: "world \<Rightarrow> int \<Rightarrow> int \<Rightarrow> int list \<Rightarrow> bool" where
  "votable w event_id poll_id ids \<longleftrightarrow>
     (\<exists>p \<in> set (polls (db w)). p_id p = poll_id \<and> p_event_id p = event_id \<and> clock w \<le> p_expires_at p
        \<and> (p_allow_multiple p \<or> (\<forall>i \<in> set ids. \<forall>j \<in> set ids. i = j)))
     \<and> (\<forall>i \<in> set ids. \<exists>r \<in> set (poll_options (db w)). o_id r = i \<and> o_poll_id r = poll_id)"

lemma short_distinct: "length (remdups_adj (sort ids)) \<le> 1 \<Longrightarrow> i \<in> set ids \<Longrightarrow> j \<in> set ids \<Longrightarrow> i = j"
  for ids :: "int list"
  by (metis One_nat_def card_le_Suc0_iff_eq distinct_card distinct_sort_dedup finite_set remdups_adj_set set_sort)

lemma checks_vote: "checks (check_vote event_id poll_id ids)
    (\<lambda>w opts. votable w event_id poll_id ids \<and> opts = remdups_adj (sort ids))"
proof (rule checksI)
  show "stable (\<lambda>w opts. votable w event_id poll_id ids \<and> opts = remdups_adj (sort ids))"
    by (auto simp: stable_def votable_def same_data_def)
  show "wp (check_vote event_id poll_id ids)
      (\<lambda>opts v. same_data w v \<and> votable w event_id poll_id ids \<and> opts = remdups_adj (sort ids))
      (\<lambda>_. same_data w) w" for w
    unfolding check_vote_def Let_def
    by (intro guards [where w = w] same_data_refl)
      (auto simp: votable_def list_all_iff image_iff not_less dest!: find_SomeD [OF sym],
        (metis One_nat_def short_distinct)+)
qed

lemma vote_tx_spec:
  "wp (vote_tx event_id poll_id user_id ids)
     (\<lambda>_ w'. votable w event_id poll_id ids \<and> seqs w' = seqs w
        \<and> db w' = voted poll_id user_id (remdups_adj (sort ids)) (db w))
     (\<lambda>_ w'. db w' = db w) w"
  unfolding vote_tx_def
proof (rule wp_transact_success, goal_cases)
  case 1
  have "votable (tick w) event_id poll_id ids = votable w event_id poll_id ids"
    by (simp add: votable_def)
  then show ?case
    by (intro wp_checked [OF checks_vote same_data_refl])
      (auto simp: replace_votes_def wp_andthen wp_execute voted_def same_data_def clear_votes_def
        intro!: wp_mono [OF insert_votes_spec])
qed simp

lemma grows_vote_tx: "grows (vote_tx event_id poll_id user_id ids)"
  unfolding vote_tx_def replace_votes_def
  by (intro grows_transact grows_intros grows_poll_statements grows_quiet [OF quiet_checks [OF checks_vote]])

lemma voted_ok:
  assumes ok: "poll_ok d"
    and opts: "distinct opts" "\<forall>i \<in> set opts. \<exists>r \<in> set (poll_options d). o_id r = i \<and> o_poll_id r = poll_id"
    and single: "\<exists>p \<in> set (polls d). p_id p = poll_id \<and> (p_allow_multiple p \<or> (\<forall>i \<in> set opts. \<forall>j \<in> set opts. i = j))"
  shows "poll_ok (voted poll_id user_id opts d)"
proof -
  let ?new = "map (\<lambda>i. \<lparr>v_poll_id = poll_id, v_option_id = i, v_user_id = user_id\<rparr>) opts"
  let ?old = "delete_where (\<lambda>v. v_poll_id v = poll_id \<and> v_user_id v = user_id) (poll_votes d)"
  have tables: "polls (voted poll_id user_id opts d) = polls d" "poll_votes (voted poll_id user_id opts d) = ?old @ ?new"
    "poll_options (voted poll_id user_id opts d) = poll_options d"
    by (simp_all add: voted_def clear_votes_def)
  have "distinct (?old @ ?new)"
    using ok opts(1) by (auto simp: poll_ok_def distinct_map inj_on_def delete_where_def)
  moreover have "\<forall>v \<in> set (?old @ ?new). \<exists>r \<in> set (poll_options d). o_id r = v_option_id v \<and> o_poll_id r = v_poll_id v"
    using ok opts(2) by (auto simp: poll_ok_def)
  moreover have "v = v'" if p: "p \<in> set (polls d)" "\<not> p_allow_multiple p" and v: "v \<in> set (?old @ ?new)" "v' \<in> set (?old @ ?new)"
    and same: "v_poll_id v = p_id p" "v_poll_id v' = p_id p" "v_user_id v = v_user_id v'" for p v v'
  proof (cases "p_id p = poll_id \<and> v_user_id v = user_id")
    case True
    obtain q where q: "q \<in> set (polls d)" "p_id q = poll_id" "p_allow_multiple q \<or> (\<forall>i \<in> set opts. \<forall>j \<in> set opts. i = j)"
      using single by auto
    have "q = p"
      using ok p(1) q(1,2) True distinct_map_inj [of p_id "polls d" q p] by (simp add: poll_ok_def)
    then have "\<forall>i \<in> set opts. \<forall>j \<in> set opts. i = j" using q p by simp
    moreover have "v \<in> set ?new" "v' \<in> set ?new" using v same True by auto
    ultimately show ?thesis by auto
  next
    case False
    then have "v \<in> set (poll_votes d)" "v' \<in> set (poll_votes d)" using v same by auto
    then show ?thesis using ok p same unfolding poll_ok_def by blast
  qed
  ultimately show ?thesis
    using ok unfolding poll_ok_def tables by blast
qed

lemma vote_tx_keeps: "keeps poll_inv (vote_tx event_id poll_id user_id ids)"
proof (rule keepsI)
  fix w assume inv: "poll_inv w"
  show "wp (vote_tx event_id poll_id user_id ids) (\<lambda>_. poll_inv) (\<lambda>_. poll_inv) w"
  proof (rule wp_mono [OF wp_conj [OF vote_tx_spec wp_grows [OF grows_vote_tx later_refl]]], goal_cases)
    case (1 x w')
    then have "poll_ok (db w')"
      using inv voted_ok [of "db w" "remdups_adj (sort ids)" poll_id user_id] by (auto simp: poll_inv_def votable_def)
    then show ?case
      using 1 inv by (simp add: poll_inv_def voted_def clear_votes_def)
  next
    case (2 e w')
    then show ?case using inv by (auto intro: poll_tables.rollback)
  qed
qed

section \<open>Deleting\<close>

lemma delete_poll_tables:
  "polls (snd (delete_poll_row i d)) = delete_where (\<lambda>p. p_id p = i) (polls d)"
  "poll_options (snd (delete_poll_row i d))
    = (if exists_where (\<lambda>p. p_id p = i) (polls d) then delete_where (\<lambda>r. o_poll_id r = i) (poll_options d) else poll_options d)"
  by (auto simp: delete_poll_row_def Let_def delete_where_none simp del: exists_where_iff)
     (simp add: delete_where_none)

lemma delete_poll_ok:
  assumes ok: "poll_ok d"
  shows "poll_ok (snd (delete_poll_row i d))"
    and "poll_votes (snd (delete_poll_row i d)) = delete_where (\<lambda>v. v_poll_id v = i) (poll_votes d)"
proof -
  have same: "v_poll_id v = i \<or> v_option_id v \<in> o_id ` {r \<in> set (poll_options d). o_poll_id r = i} \<longleftrightarrow> v_poll_id v = i"
    if "v \<in> set (poll_votes d)" for v
  proof -
    obtain r where r: "r \<in> set (poll_options d)" "o_id r = v_option_id v" "o_poll_id r = v_poll_id v"
      using ok \<open>v \<in> _\<close> unfolding poll_ok_def by blast
    have "r' = r" if "r' \<in> set (poll_options d)" "o_id r' = v_option_id v" for r'
      using ok that r distinct_map_inj [of o_id "poll_options d" r' r] by (simp add: poll_ok_def)
    then show ?thesis using r by fastforce
  qed
  show votes: "poll_votes (snd (delete_poll_row i d)) = delete_where (\<lambda>v. v_poll_id v = i) (poll_votes d)"
  proof (cases "exists_where (\<lambda>p. p_id p = i) (polls d)")
    case True
    have "poll_votes (snd (delete_poll_row i d)) = delete_where (\<lambda>v. v_poll_id v = i
        \<or> v_option_id v \<in> set (map o_id (filter (\<lambda>r. o_poll_id r = i) (poll_options d)))) (poll_votes d)"
      unfolding delete_poll_row_def Let_def if_P [OF True] snd_conv by simp
    also have "\<dots> = delete_where (\<lambda>v. v_poll_id v = i) (poll_votes d)"
      unfolding delete_where_def using same by (intro filter_cong refl) (simp only: set_map set_filter)
    finally show ?thesis .
  next
    case False
    then have "p_id p \<noteq> i" if "p \<in> set (polls d)" for p using that by auto
    then have "v_poll_id v \<noteq> i" if "v \<in> set (poll_votes d)" for v
      using ok that unfolding poll_ok_def by metis
    then show ?thesis
      using False by (simp add: delete_poll_row_def Let_def delete_where_none del: exists_where_iff)
  qed
  have opts: "poll_options (snd (delete_poll_row i d)) = delete_where (\<lambda>r. o_poll_id r = i) (poll_options d)"
  proof (cases "exists_where (\<lambda>p. p_id p = i) (polls d)")
    case False
    then have "p_id p \<noteq> i" if "p \<in> set (polls d)" for p using that by auto
    then have "o_poll_id r \<noteq> i" if "r \<in> set (poll_options d)" for r
      using ok that unfolding poll_ok_def by metis
    then show ?thesis
      using False by (simp add: delete_poll_tables delete_where_none del: exists_where_iff)
  qed (simp add: delete_poll_tables del: exists_where_iff)
  have count: "count_where (\<lambda>r. o_poll_id r = p_id p) (delete_where (\<lambda>r. o_poll_id r = i) (poll_options d))
      = count_where (\<lambda>r. o_poll_id r = p_id p) (poll_options d)" if "p_id p \<noteq> i" for p
    using that by (auto simp: count_where_def delete_where_def intro!: arg_cong [where f = length] filter_cong)
  have refs: "\<forall>r \<in> set (delete_where (\<lambda>r. o_poll_id r = i) (poll_options d)).
      \<exists>p \<in> set (delete_where (\<lambda>p. p_id p = i) (polls d)). p_id p = o_poll_id r"
    using ok unfolding poll_ok_def by fastforce
  have chosen: "\<forall>v \<in> set (delete_where (\<lambda>v. v_poll_id v = i) (poll_votes d)).
      \<exists>r \<in> set (delete_where (\<lambda>r. o_poll_id r = i) (poll_options d)). o_id r = v_option_id v \<and> o_poll_id r = v_poll_id v"
    using ok unfolding poll_ok_def by fastforce
  have "distinct (map p_id (delete_where (\<lambda>p. p_id p = i) (polls d)))"
    "distinct (map o_id (delete_where (\<lambda>r. o_poll_id r = i) (poll_options d)))"
    "distinct (delete_where (\<lambda>v. v_poll_id v = i) (poll_votes d))"
    using ok by (auto simp: poll_ok_def delete_where_def distinct_map_filter)
  moreover have "\<not> p_allow_multiple p \<longrightarrow> (\<forall>v \<in> set (delete_where (\<lambda>v. v_poll_id v = i) (poll_votes d)).
      \<forall>v' \<in> set (delete_where (\<lambda>v. v_poll_id v = i) (poll_votes d)).
        v_poll_id v = p_id p \<and> v_poll_id v' = p_id p \<and> v_user_id v = v_user_id v' \<longrightarrow> v = v')"
    if "p \<in> set (delete_where (\<lambda>p. p_id p = i) (polls d))" for p
    using ok that unfolding poll_ok_def by (simp only: set_delete_where) blast
  moreover have "p_created_at p < p_expires_at p \<and> p_expires_at p \<le> p_created_at p + days 7
      \<and> count_where (\<lambda>r. o_poll_id r = p_id p) (delete_where (\<lambda>r. o_poll_id r = i) (poll_options d)) \<in> {2..12}"
    if "p \<in> set (delete_where (\<lambda>p. p_id p = i) (polls d))" for p
    using ok that count [of p] unfolding poll_ok_def by auto
  ultimately show "poll_ok (snd (delete_poll_row i d))"
    unfolding poll_ok_def votes opts delete_poll_tables(1) using refs chosen by blast
qed

section \<open>The handlers\<close>

lemma trails_views [trail_intros]: "trails (fetch_poll_views ev u)" "trails (poll_view_of ev u i)"
  "trails (announce_poll cl ev c i q)"
proof -
  show 1: "trails (fetch_poll_views ev u)"
    unfolding fetch_poll_views_def Let_def by (intro trail_intros | simp)+
  show "trails (poll_view_of ev u i)"
    unfolding poll_view_of_def by (intro trail_intros 1 | simp)+
  show "trails (announce_poll cl ev c i q)"
    unfolding announce_poll_def Let_def by (intro trail_intros quiet_intros | simp)+
qed

text \<open>What the checks of the payload yield: an acceptable question and its options.\<close>

definition good_poll :: "world \<Rightarrow> poll_create_payload \<Rightarrow> string \<times> string list \<Rightarrow> bool" where
  "good_poll w p r \<longleftrightarrow> fst r = trim (pc_question p) \<and> fst r \<noteq> [] \<and> 0 < pc_duration_minutes p
     \<and> snd r = collect_options (lowercase (cfg w)) (pc_options p) {}
     \<and> 2 \<le> length (snd r) \<and> length (snd r) \<le> 12"

lemma checks_poll: "checks (check_poll p) (\<lambda>w r. good_poll w p r)"
proof (rule checksI)
  show "stable (\<lambda>w r. good_poll w p r)"
    by (simp add: stable_def good_poll_def same_data_def)
  show "wp (check_poll p) (\<lambda>r v. same_data w v \<and> good_poll w p r) (\<lambda>_. same_data w) w" for w
    unfolding check_poll_def Let_def
    by (intro guards [where w = w] same_data_refl) (auto simp: good_poll_def)
qed

text \<open>Collected options are trimmed, not blank and distinct up to case.\<close>

lemma collected_options:
  "distinct (map lower (collect_options lower raws seen)) \<and> set (map lower (collect_options lower raws seen)) \<inter> seen = {}
   \<and> set (collect_options lower raws seen) \<subseteq> trim ` set raws - {[]}"
  by (induction lower raws seen rule: collect_options.induct) (auto simp: Let_def)

definition poll_row :: "world \<Rightarrow> int \<Rightarrow> int \<Rightarrow> poll_create_payload \<Rightarrow> micros \<Rightarrow> int \<Rightarrow> poll" where
  "poll_row w ev u p = new_poll ev (trim (pc_question p)) (case pc_allow_multiple p of Some b \<Rightarrow> b | None \<Rightarrow> True)
     (clock w + minutes (min (pc_duration_minutes p) (60 * 24 * 7))) u"

lemma poll_row_id [simp]: "p_id (poll_row w ev u p t i) = i" "p_created_at (poll_row w ev u p t i) = t"
  by (simp_all add: poll_row_def new_poll_def)

lemma poll_row_same_data: "same_data w v \<Longrightarrow> poll_row v = poll_row w"
  by (simp add: poll_row_def same_data_def fun_eq_iff)

text \<open>The world after a poll has been recorded, but for the outbox.\<close>

definition poll_recorded :: "world \<Rightarrow> int \<Rightarrow> int \<Rightarrow> poll_create_payload \<Rightarrow> world \<Rightarrow> bool" where
  "poll_recorded w ev u p w' \<longleftrightarrow> (\<exists>v. only_outbox v w'
     \<and> db v = with_poll (poll_row w ev u p (clock w) (seqs w PollSeq + 1)) (seqs w OptionSeq + 1)
         (collect_options (lowercase (cfg w)) (pc_options p) {}) (db w))"

lemma record_poll_spec:
  assumes same: "same_data w u" and good: "good_poll w p r"
  shows "wp (record_poll cl ev c p r) (\<lambda>a w'. ans_status a = 201 \<and> poll_recorded w ev c p w')
     (\<lambda>e w'. err_status e < 500 \<longrightarrow> db w' = db w) u"
proof -
  obtain q labels where r: "r = (q, labels)" by force
  show ?thesis
    unfolding record_poll_def r prod.case Let_def
  proof (rule wp_checked [OF checks_event_exists same], goal_cases)
    case (1 _ v)
    show ?case
    proof (rule wp_checked [OF checks_now 1(1)], goal_cases)
      case (1 t v)
      let ?row = "new_poll ev q (case pc_allow_multiple p of Some b \<Rightarrow> b | None \<Rightarrow> True)
        (t + minutes (min (pc_duration_minutes p) (60 * 24 * 7))) c"
      have row: "?row = poll_row w ev c p"
        using 1 good r by (simp add: poll_row_def good_poll_def)
      have v: "db v = db w" "seqs v = seqs w" "clock v = clock w" "cfg v = cfg w"
        using 1 by (simp_all add: same_data_def)
      show ?case
        unfolding wp_andthen [of "create_poll_tx _ _"] row
      proof (rule wp_mono [OF create_poll_tx_spec [OF poll_row_id(1)]], goal_cases)
        case (1 i v')
        then have rec: "poll_recorded w ev c p w'" if "only_outbox v' w'" for w'
          using that good r v by (auto simp: poll_recorded_def good_poll_def)
        show ?case
          by (intro wp_trailed [where w = v'] trail_intros only_outbox_refl) (simp_all add: rec)
      qed (simp add: v)
    qed (simp add: same_data_def)
  qed (simp add: same_data_def)
qed

lemma create_event_poll_spec:
  "wp (create_event_poll req ev p)
     (\<lambda>a w'. ans_status a = 201 \<and> writable w ev
        \<and> (\<exists>u r. acting w req u \<and> good_poll w p r \<and> poll_recorded w ev u p w')
        \<and> (\<exists>o'. requester w req o' \<and> (administers w req \<or> owns w ev o')))
     (\<lambda>e w'. err_status e < 500 \<longrightarrow> db w' = db w) w"
  unfolding create_event_poll_def
proof (intro guards [where w = w] wp_checked [OF checks_poll, where w = w] same_data_refl, goal_cases)
  case (5 s v o' v1 x v2 c v3 r v4)
  then have "acting w req c" by (auto simp: acting_def)
  with 5 show ?case
    by (intro wp_mono [OF record_poll_spec [of w _ p r]]) blast+
qed (auto simp: same_data_def)

lemma vote_event_poll_spec:
  "wp (vote_event_poll req ev i ids)
     (\<lambda>a w'. ans_status a = 200 \<and> writable w ev \<and> votable w ev i ids
        \<and> (\<exists>u. acting w req u \<and> (\<exists>v. only_outbox v w' \<and> db v = voted i u (remdups_adj (sort ids)) (db w)))
        \<and> (\<exists>u. requester w req u \<and> belongs w ev u))
     (\<lambda>e w'. err_status e < 500 \<longrightarrow> db w' = db w) w"
  unfolding vote_event_poll_def
proof (intro guards [where w = w] same_data_refl, goal_cases)
  case (4 s v1 c v2 x v3 y v4)
  then have c: "acting w req c" by (auto simp: acting_def)
  have v4: "db v4 = db w" "clock v4 = clock w" using 4 by (simp_all add: same_data_def)
  then have votable: "votable v4 ev i ids = votable w ev i ids" by (simp add: votable_def)
  show ?case
    unfolding wp_andthen [of "vote_tx _ _ _ _"]
  proof (rule wp_mono [OF vote_tx_spec], goal_cases)
    case (1 x v')
    then have "\<exists>v. only_outbox v w' \<and> db v = voted i c (remdups_adj (sort ids)) (db w)" if "only_outbox v' w'" for w'
      using that v4 by auto
    with 1 4 c show ?case
      unfolding votable by (intro wp_trailed [where w = v'] trail_intros only_outbox_refl) auto
  qed (simp add: v4)
qed (auto simp: same_data_def)

lemma checks_delete_poll: "checks (check_delete_poll cl ev i) (\<lambda>w _. \<exists>p \<in> set (polls (db w)). p_id p = i
    \<and> p_event_id p = ev \<and> (\<exists>u r. user_by_email w (u_email cl) = Some r \<and> u_id r = u
        \<and> (owns w ev u \<or> p_created_by p = Some u)))"
proof (rule checksI)
  show "stable (\<lambda>w (_::unit). \<exists>p \<in> set (polls (db w)). p_id p = i
    \<and> p_event_id p = ev \<and> (\<exists>u r. user_by_email w (u_email cl) = Some r \<and> u_id r = u
        \<and> (owns w ev u \<or> p_created_by p = Some u)))"
    by (auto simp: stable_def user_by_email_stable) (auto simp: same_data_def owns_def)
  show "wp (check_delete_poll cl ev i) (\<lambda>_ v. same_data w v \<and> (\<exists>p \<in> set (polls (db w)). p_id p = i
    \<and> p_event_id p = ev \<and> (\<exists>u r. user_by_email w (u_email cl) = Some r \<and> u_id r = u
        \<and> (owns w ev u \<or> p_created_by p = Some u)))) (\<lambda>_. same_data w) w" for w
    unfolding check_delete_poll_def Let_def
    by (intro guards [where w = w] same_data_refl)
      (auto simp: wp_require owns_def dest!: find_SomeD [OF sym])
qed

lemma remove_poll_spec:
  "wp (remove_poll ev i) (\<lambda>_ w'. db w' = snd (delete_poll_row i (db w))) (\<lambda>_ w'. db w' = db w) w"
proof -
  have pub: "wp (publish_event ev m) Q E v" if "\<And>v'. same_data v v' \<Longrightarrow> Q () v'" for m Q E v
    using that quietD [OF quiet_publish(1), of v ev m]
    by (auto simp: wp_def publish_event_def publish_json_def)
  have none: "snd (delete_poll_row i d) = d" if "fst (delete_poll_row i d) = 0" for d
    using that by (auto simp: delete_poll_row_def Let_def count_where_eq_0)
  show ?thesis
    unfolding remove_poll_def wp_andthen wp_execute wp_require wp_return
    by (auto simp: same_data_def none intro!: pub)
qed

lemma delete_event_poll_spec:
  "wp (delete_event_poll req ev i)
     (\<lambda>_ w'. writable w ev \<and> db w' = snd (delete_poll_row i (db w))
        \<and> (\<exists>u. acting w req u \<and> (\<exists>p \<in> set (polls (db w)). p_id p = i \<and> p_event_id p = ev
             \<and> (owns w ev u \<or> p_created_by p = Some u))))
     (\<lambda>_ w'. db w' = db w) w"
  unfolding delete_event_poll_def
proof (intro guards [where w = w] wp_checked [OF checks_delete_poll, where w = w] same_data_refl, goal_cases)
  case (4 s v1 x v2 y v3 z v4)
  then have "db v4 = db w" by (simp add: same_data_def)
  with 4 show ?case
    by (intro wp_mono [OF remove_poll_spec]) (auto simp: acting_def)
qed (auto simp: same_data_def)

section \<open>Every request keeps the invariant\<close>

lemmas poll_quiet = poll_tables.keeps_quiet [OF quiet_checks]
lemmas poll_tails = keeps_trails [of poll_inv, OF poll_inv_only_outbox]

lemma vote_event_poll_keeps: "keeps poll_inv (vote_event_poll req ev i ids)"
  unfolding vote_event_poll_def
  by (intro keeps_andthen vote_tx_keeps poll_quiet [OF checks_session] poll_quiet [OF checks_user_id]
      poll_quiet [OF checks_member] poll_quiet [OF checks_writable] poll_tails trail_intros)

lemma delete_event_poll_keeps: "keeps poll_inv (delete_event_poll req ev i)"
proof -
  have erase: "keeps poll_inv (execute db_error (\<lambda>w. delete_poll_row i (db w)))"
  proof (rule poll_tables.keeps_execute)
    fix w assume "poll_inv w"
    then show "poll_inv (w\<lparr>db := snd (delete_poll_row i (db w))\<rparr>)"
      using delete_poll_ok [of "db w" i] by (auto simp: poll_inv_def delete_poll_tables split: if_splits)
  qed
  show ?thesis
    unfolding delete_event_poll_def remove_poll_def
    by (intro keeps_andthen erase poll_quiet [OF checks_session] poll_quiet [OF checks_event_exists]
      poll_quiet [OF checks_writable] poll_quiet [OF checks_delete_poll] poll_quiet [OF checks_require] poll_tails trail_intros)
qed

lemma create_event_poll_keeps: "keeps poll_inv (create_event_poll req ev p)"
proof -
  have recording: "wp (record_poll cl ev c p r) (\<lambda>_. poll_inv) (\<lambda>_. poll_inv) v"
    if inv: "poll_inv w" and same: "same_data w v" and good: "good_poll w p r" for cl c r w v
  proof -
    have tx: "wp (create_poll_tx row labels) (\<lambda>_. poll_inv) (\<lambda>_. poll_inv) u"
      if "poll_inv u" "row = new_poll ev q b (clock u + minutes d) c" "0 < d" "d \<le> 60 * 24 * 7"
        "2 \<le> length labels" "length labels \<le> 12" for row q b d labels u
    proof (rule wp_mono [OF keepsD [OF create_poll_tx_keeps]])
      show "\<And>t i. p_id (row t i) = i" "2 \<le> length labels" "length labels \<le> 12"
        using that by (simp_all add: new_poll_def)
      show "poll_inv u \<and> (\<forall>i. p_created_at (row (clock u) i) < p_expires_at (row (clock u) i)
          \<and> p_expires_at (row (clock u) i) \<le> p_created_at (row (clock u) i) + days 7)"
        using that by (simp add: new_poll_def)
    qed simp_all
    obtain q labels where r: "r = (q, labels)" by force
    show ?thesis
      unfolding record_poll_def r prod.case Let_def
    proof (intro wp_checked [OF checks_event_exists same] wp_checked [OF checks_now, where w = w], goal_cases)
      case (2 _ v1 t v2)
      show ?case
        unfolding wp_andthen [of "create_poll_tx _ _"]
      proof (rule wp_mono [OF tx], goal_cases)
        case (7 i v3)
        then show ?case
          by (intro keepsD keeps_andthen poll_tails trail_intros)
      qed (use 2 good r poll_tables.inv_same_data [OF inv 2(3)] in \<open>auto simp: good_poll_def same_data_def\<close>)
    qed (use inv in \<open>auto intro: poll_tables.inv_same_data\<close>)
  qed
  show ?thesis
    unfolding create_event_poll_def
  proof (rule keepsI, goal_cases)
    case (1 w)
    then show ?case
      by (intro guards [where w = w] wp_checked [OF checks_poll, where w = w] same_data_refl recording)
        (auto intro: poll_tables.inv_same_data)
  qed
qed

inductive poll_step :: "world \<Rightarrow> world \<Rightarrow> bool" where
  create: "poll_step w (snd (create_event_poll req ev p w))"
| vote: "poll_step w (snd (vote_event_poll req ev i ids w))"
| delete: "poll_step w (snd (delete_event_poll req ev i w))"
| elsewhere: "polls (db w') = polls (db w) \<Longrightarrow> poll_options (db w') = poll_options (db w)
    \<Longrightarrow> poll_votes (db w') = poll_votes (db w) \<Longrightarrow> seqs w PollSeq \<le> seqs w' PollSeq
    \<Longrightarrow> seqs w OptionSeq \<le> seqs w' OptionSeq \<Longrightarrow> poll_step w w'"

definition no_polls :: "world \<Rightarrow> bool" where
  "no_polls w \<longleftrightarrow> polls (db w) = [] \<and> poll_options (db w) = [] \<and> poll_votes (db w) = []"

interpretation polling: invariant_system no_polls poll_step poll_inv
proof
  fix w assume "no_polls w"
  then show "poll_inv w"
    by (simp add: no_polls_def poll_inv_def poll_ok_def)
next
  fix w w' assume "poll_inv w" and "poll_step w w'"
  from this(2,1) show "poll_inv w'"
    by (induction rule: poll_step.induct)
      (auto intro: poll_inv_mono keeps_snd create_event_poll_keeps vote_event_poll_keeps delete_event_poll_keeps)
qed

end
