(* ===== verification/Friend_Facts.thy ===== *)
theory Friend_Facts
  imports Friends
begin

text \<open>
  The friends component under its handlers: the invariant of its three tables, and the social graph
  they stand for, on which every handler acts as a small set operation.
\<close>

section \<open>The invariant\<close>

definition friendships_ok :: "(int \<Rightarrow> int \<Rightarrow> bool) \<Rightarrow> friendship list \<Rightarrow> bool" where
  "friendships_ok blocked fs \<longleftrightarrow> distinct (map (\<lambda>f. (fs_user_a f, fs_user_b f)) fs)
     \<and> (\<forall>f \<in> set fs. fs_user_a f < fs_user_b f \<and> \<not> blocked (fs_user_a f) (fs_user_b f))"

definition requests_ok :: "(int \<Rightarrow> int \<Rightarrow> bool) \<Rightarrow> friend_request list \<Rightarrow> bool" where
  "requests_ok blocked rs \<longleftrightarrow> distinct (map fr_id rs)
     \<and> (\<forall>r \<in> set rs. fr_sender_id r \<noteq> fr_receiver_id r \<and> \<not> blocked (fr_sender_id r) (fr_receiver_id r))
     \<and> (\<forall>r \<in> set rs. \<forall>s \<in> set rs. fr_status r = ReqPending \<and> fr_status s = ReqPending
          \<and> between (fr_sender_id r) (fr_receiver_id r) s \<longrightarrow> r = s)"

definition blocks_ok :: "user_block list \<Rightarrow> bool" where
  "blocks_ok bs \<longleftrightarrow> distinct (map (\<lambda>b. (ub_blocker_id b, ub_blocked_id b)) bs)
     \<and> (\<forall>b \<in> set bs. ub_blocker_id b \<noteq> ub_blocked_id b)"

definition friend_ok :: "database \<Rightarrow> bool" where
  "friend_ok d \<longleftrightarrow> friendships_ok (contact_blocked d) (friendships d)
     \<and> requests_ok (contact_blocked d) (friend_requests d) \<and> blocks_ok (user_blocks d)"

lemma contact_blocked_cong: "user_blocks d' = user_blocks d \<Longrightarrow> contact_blocked d' = contact_blocked d"
  by (simp add: contact_blocked_def fun_eq_iff)

lemma contact_blocked_updates [simp]:
  "contact_blocked (d\<lparr>friend_requests := q\<rparr>) = contact_blocked d"
  "contact_blocked (d\<lparr>friendships := f\<rparr>) = contact_blocked d"
  by (simp_all add: contact_blocked_def fun_eq_iff)

definition friend_inv :: "world \<Rightarrow> bool" where
  "friend_inv w \<longleftrightarrow> friend_ok (db w) \<and> 0 \<le> seqs w RequestSeq
     \<and> (\<forall>r \<in> set (friend_requests (db w)). 0 < fr_id r \<and> fr_id r \<le> seqs w RequestSeq)"

lemma friend_inv_mono:
  assumes "friend_inv w" and "friendships (db w') = friendships (db w)"
    and "friend_requests (db w') = friend_requests (db w)" and "user_blocks (db w') = user_blocks (db w)"
    and "seqs w RequestSeq \<le> seqs w' RequestSeq"
  shows "friend_inv w'"
proof -
  have "contact_blocked (db w') = contact_blocked (db w)"
    using assms(4) by (rule contact_blocked_cong)
  then show ?thesis
    using assms by (auto simp: friend_inv_def friend_ok_def intro: order_trans)
qed

interpretation friend_tables: table_invariant friend_inv
proof
  fix w w' assume "friend_inv w" "db w' = db w" "later w w'"
  then show "friend_inv w'"
    by (elim friend_inv_mono) (simp_all add: later_def)
qed

lemma friend_inv_only_outbox: "friend_inv w \<Longrightarrow> only_outbox w w' \<Longrightarrow> friend_inv w'"
  by (elim friend_inv_mono) (simp_all add: only_outbox_tables [of w w'] only_outbox_def)

lemma ordered_pair_cases: "ordered_pair a b = (min a b, max a b)"
  by (auto simp: ordered_pair_def)

lemma ordered_pair_sym: "ordered_pair a b = ordered_pair b a"
  by (auto simp: ordered_pair_def)

lemma ordered_pair_eq:
  "ordered_pair a b = ordered_pair x y \<longleftrightarrow> (a = x \<and> b = y \<or> a = y \<and> b = x)"
  by (auto simp: ordered_pair_def)

lemma contact_blocked_min: "contact_blocked d (min a b) (max a b) = contact_blocked d a b"
  by (auto simp: contact_blocked_def min_def max_def)

section \<open>What the statements do to the tables\<close>

lemma insert_request_okD:
  assumes "insert_request s r w = (Inr i, w')"
  shows "i = seqs w RequestSeq + 1 \<and> \<not> contact_blocked (db w) s r \<and> \<not> is_pending (db w) s r
    \<and> w' = w\<lparr>seqs := (seqs w)(RequestSeq := i), db := (db w)\<lparr>friend_requests := friend_requests (db w)
        @ [\<lparr>fr_id = i, fr_sender_id = s, fr_receiver_id = r, fr_status = ReqPending,
            fr_created_at = clock w, fr_responded_at = None\<rparr>]\<rparr>\<rparr>"
  using assms by (auto simp: insert_request_def nextval_def Let_def split: if_splits)

lemma insert_request_error: "insert_request s r w = (Inl e, w') \<Longrightarrow> db w' = db w"
  by (auto simp: insert_request_def nextval_def Let_def split: if_splits)

lemma later_friend_statements [grows_intros]:
  "later w (snd (insert_request s r w))" "later w (snd (answer_request i st w))"
  "later w (snd (insert_friendship p w))" "later w (snd (insert_block a b w))"
  using later_nextval [of w RequestSeq]
  by (auto simp: insert_request_def answer_request_def insert_friendship_def insert_block_def Let_def
      nextval_def split: prod.split)

lemma requests_ok_ask:
  assumes "requests_ok blocked rs" and "\<And>q. q \<in> set rs \<Longrightarrow> fr_id r \<noteq> fr_id q"
    and "fr_sender_id r \<noteq> fr_receiver_id r" and "\<not> blocked (fr_sender_id r) (fr_receiver_id r)"
    and "\<And>q. q \<in> set rs \<Longrightarrow> fr_status q = ReqPending \<Longrightarrow> \<not> between (fr_sender_id r) (fr_receiver_id r) q"
  shows "requests_ok blocked (rs @ [r])"
proof -
  have "\<not> between (fr_sender_id q) (fr_receiver_id q) r" if "q \<in> set rs" "fr_status q = ReqPending" for q
    using assms(5) [OF that] by (auto simp: between_def)
  then show ?thesis
    using assms unfolding requests_ok_def by auto
qed

lemma insert_request_inv:
  assumes "friend_inv w" and "s \<noteq> r" and "insert_request s r w = (res, w')"
  shows "friend_inv w'"
proof (cases res)
  case (Inl e)
  then show ?thesis
    using assms insert_request_error [of s r w] later_friend_statements(1) [of w s r]
    by (auto intro: friend_tables.rollback)
next
  case (Inr i)
  let ?r = "\<lparr>fr_id = i, fr_sender_id = s, fr_receiver_id = r, fr_status = ReqPending,
     fr_created_at = clock w, fr_responded_at = None\<rparr>"
  note ins = insert_request_okD [OF assms(3) [unfolded Inr]]
  have "requests_ok (contact_blocked (db w)) (friend_requests (db w) @ [?r])"
    using assms(1,2) ins by (intro requests_ok_ask) (force simp: friend_inv_def friend_ok_def is_pending_def)+
  then show ?thesis
    using ins assms(1) by (auto simp: friend_inv_def friend_ok_def)
qed

lemma requests_ok_answer:
  assumes ok: "requests_ok blocked rs" and "st \<noteq> ReqPending"
  shows "requests_ok blocked (update_where (\<lambda>r. fr_id r = i)
    (\<lambda>r. r\<lparr>fr_status := st, fr_responded_at := t\<rparr>) rs)"
proof -
  let ?f = "\<lambda>r. if fr_id r = i then r\<lparr>fr_status := st, fr_responded_at := t\<rparr> else r"
  have f: "fr_sender_id (?f r) = fr_sender_id r" "fr_receiver_id (?f r) = fr_receiver_id r"
    "between a b (?f r) = between a b r" "fr_status (?f r) = ReqPending \<longleftrightarrow> fr_status r = ReqPending \<and> fr_id r \<noteq> i"
    for r a b
    using assms(2) by (auto simp: between_def)
  have "?f r = ?f s" if "r \<in> set rs" "s \<in> set rs" "fr_status (?f r) = ReqPending"
      "fr_status (?f s) = ReqPending" "between (fr_sender_id r) (fr_receiver_id r) s" for r s
    using ok that(1,2,5) that(3,4) [unfolded f(4)] unfolding requests_ok_def by metis
  then show ?thesis
    using ok unfolding requests_ok_def set_update_where ball_simps f by auto
qed

lemma answer_request_inv:
  assumes "friend_inv w" and "st \<noteq> ReqPending" and "answer_request i st w = (res, w')"
  shows "friend_inv w'"
  using assms requests_ok_answer [of "contact_blocked (db w)" "friend_requests (db w)" st i "Some (clock w)"]
  by (auto simp: answer_request_def friend_inv_def friend_ok_def split: if_splits)

lemma insert_friendship_inv:
  assumes "friend_inv w" and "insert_friendship p w = (res, w')"
  shows "friend_inv w'"
  using assms by (cases p) (fastforce simp: insert_friendship_def friend_inv_def friend_ok_def friendships_ok_def
      Let_def split: if_splits)

lemma friendships_ok_mono:
  "friendships_ok b fs \<Longrightarrow> (\<And>x y. b' x y \<Longrightarrow> b x y) \<Longrightarrow> friendships_ok b' (delete_where p fs)"
  by (auto simp: friendships_ok_def)

lemma requests_ok_mono:
  "requests_ok b rs \<Longrightarrow> (\<And>x y. b' x y \<Longrightarrow> b x y) \<Longrightarrow> requests_ok b' (delete_where p rs)"
  by (auto simp: requests_ok_def)

lemma blocks_ok_delete: "blocks_ok bs \<Longrightarrow> blocks_ok (delete_where p bs)"
  by (auto simp: blocks_ok_def)

lemma delete_where_False [simp]: "delete_where (\<lambda>_. False) xs = xs"
  by (simp add: delete_where_def)

lemma delete_friendship_inv: "friend_inv w \<Longrightarrow> friend_inv (w\<lparr>db := snd (delete_friendship p (db w))\<rparr>)"
  by (auto simp: friend_inv_def friend_ok_def delete_friendship_def intro: friendships_ok_mono)

lemma delete_block_inv: "friend_inv w \<Longrightarrow> friend_inv (w\<lparr>db := delete_block a i (db w)\<rparr>)"
proof -
  assume inv: "friend_inv w"
  let ?d = "delete_block a i (db w)"
  have less: "contact_blocked ?d x y \<Longrightarrow> contact_blocked (db w) x y" for x y
    by (auto simp: contact_blocked_def delete_block_def)
  have "friendships_ok (contact_blocked ?d) (friendships (db w))"
    using friendships_ok_mono [of _ _ _ "\<lambda>_. False"] inv less
    by (simp add: friend_inv_def friend_ok_def) metis
  moreover have "requests_ok (contact_blocked ?d) (friend_requests (db w))"
    using requests_ok_mono [of _ _ _ "\<lambda>_. False"] inv less
    by (simp add: friend_inv_def friend_ok_def) metis
  ultimately show ?thesis
    using inv by (simp add: friend_inv_def friend_ok_def delete_block_def blocks_ok_delete)
qed

lemma block_cleanup_ok:
  assumes ok: "friend_ok d" and new: "\<And>x y. blocked x y \<Longrightarrow>
      contact_blocked d x y \<or> x = a \<and> y = b \<or> x = b \<and> y = a"
  shows "friendships_ok blocked (friendships (block_cleanup a b d))"
    and "requests_ok blocked (friend_requests (block_cleanup a b d))"
proof -
  have "\<not> blocked (fs_user_a f) (fs_user_b f)"
    if "f \<in> set (friendships d)" "\<not> (fs_user_a f = min a b \<and> fs_user_b f = max a b)" for f
    using ok new [of "fs_user_a f" "fs_user_b f"] that
    by (auto simp: friend_ok_def friendships_ok_def min_def max_def split: if_splits)
  then show "friendships_ok blocked (friendships (block_cleanup a b d))"
    using ok by (auto simp: friend_ok_def friendships_ok_def block_cleanup_def)
  have "\<not> blocked (fr_sender_id r) (fr_receiver_id r)"
    if "r \<in> set (friend_requests d)" "\<not> between a b r" for r
    using ok new [of "fr_sender_id r" "fr_receiver_id r"] that
    by (auto simp: friend_ok_def requests_ok_def between_def)
  then show "requests_ok blocked (friend_requests (block_cleanup a b d))"
    using ok by (auto simp: friend_ok_def requests_ok_def block_cleanup_def)
qed

lemma block_cleanup_frame [simp]:
  "user_blocks (block_cleanup a b d) = user_blocks d" "users (block_cleanup a b d) = users d"
  by (simp_all add: block_cleanup_def)

lemma insert_block_inv:
  assumes inv: "friend_inv w" and res: "insert_block a b w = (r, w')"
  shows "friend_inv w'"
proof (cases "db w' = db w")
  case True
  then show ?thesis
    using assms later_friend_statements(4) [of w a b] by (auto intro: friend_tables.rollback)
next
  case False
  let ?d = "block_cleanup a b (db w)"
  have ok: "friend_ok (db w)" using inv by (simp add: friend_inv_def)
  from False res obtain bs where w': "w' = w\<lparr>db := ?d\<lparr>user_blocks := bs\<rparr>\<rparr>" "blocks_ok bs"
      and bs: "set bs \<subseteq> insert \<lparr>ub_blocker_id = a, ub_blocked_id = b, ub_created_at = clock w\<rparr>
        (set (user_blocks (db w)))"
  proof (cases "exists_where (\<lambda>r. ub_blocker_id r = a \<and> ub_blocked_id r = b) (user_blocks (db w))")
    case True
    then have "w' = w\<lparr>db := ?d\<rparr>"
      using res \<open>db w' \<noteq> db w\<close> by (simp add: insert_block_def Let_def split: if_splits)
    moreover have "?d\<lparr>user_blocks := user_blocks (db w)\<rparr> = ?d"
      by (simp add: block_cleanup_def)
    ultimately show ?thesis
      using that [of "user_blocks (db w)"] ok by (auto simp: friend_ok_def)
  next
    case False
    let ?bs = "user_blocks (db w) @ [\<lparr>ub_blocker_id = a, ub_blocked_id = b, ub_created_at = clock w\<rparr>]"
    have "w' = w\<lparr>db := ?d\<lparr>user_blocks := ?bs\<rparr>\<rparr>" "a \<noteq> b"
      using False res \<open>db w' \<noteq> db w\<close>
      by (simp_all add: insert_block_def Let_def del: exists_where_iff split: if_splits)
    moreover have "blocks_ok ?bs"
      using ok False \<open>a \<noteq> b\<close> by (auto simp: friend_ok_def blocks_ok_def)
    ultimately show ?thesis
      using that [of ?bs] by auto
  qed
  have "contact_blocked (?d\<lparr>user_blocks := bs\<rparr>) x y \<Longrightarrow>
      contact_blocked (db w) x y \<or> x = a \<and> y = b \<or> x = b \<and> y = a" for x y
    using bs by (auto simp: contact_blocked_def)
  from block_cleanup_ok [OF ok this] w'(2) show ?thesis
    using inv by (auto simp: w'(1) friend_inv_def friend_ok_def block_cleanup_def)
qed

section \<open>The handlers keep the invariant\<close>

lemma quiet_friend_reads [quiet_intros]:
  "quiet (find_user_by_email e)" "quiet (find_user_by_handle h)" "quiet (current_user req)"
  "quiet (resolve_identifier raw)" "quiet (are_friends a b)" "quiet (pending_request_exists a b)"
  "quiet (fetch_request_view i)" "quiet (request_checks a b)" "quiet (list_friend_requests req q)"
  "quiet (search_friends req s l)" "quiet (list_blocks req)"
proof -
  show 1: "quiet (find_user_by_email e)" "quiet (find_user_by_handle h)" "quiet (current_user req)"
    "quiet (are_friends a b)" "quiet (pending_request_exists a b)" "quiet (fetch_request_view i)" for e h req a b i
    unfolding find_user_by_email_def find_user_by_handle_def current_user_def are_friends_def
      pending_request_exists_def fetch_request_view_def Let_def
    by (intro quiet_intros)+
  show "quiet (resolve_identifier raw)"
    unfolding resolve_identifier_def
    by (intro quiet_andthen quiet_get_state quiet_from_result quiet_some_or)
      (auto split: target_identifier.split intro: 1)
  show "quiet (request_checks a b)" "quiet (list_friend_requests req q)" "quiet (search_friends req s l)"
    "quiet (list_blocks req)"
    unfolding request_checks_def list_friend_requests_def search_friends_def list_blocks_def Let_def
    by (intro quiet_intros 1)+
qed

lemma quiet_list_friends: "quiet (list_friends req q)"
proof -
  have "quiet (stmt h (friends_statement u pg))" for h u pg
    by (auto simp: quiet_def stmt_def friends_statement_def split: option.split)
  then show ?thesis
    unfolding list_friends_def by (intro quiet_intros quiet_friend_reads)
qed

lemma notify_keeps: "keeps friend_inv (notify_users us r)"
  by (rule keepsI, rule wp_mono [OF notify_users_frame]) (auto intro: friend_inv_only_outbox)

lemma announce_keeps:
  "keeps friend_inv (announce_request t i)" "keeps friend_inv (announce_response i st s)"
  unfolding announce_request_def announce_response_def
  by (intro keeps_andthen keeps_if keeps_return notify_keeps friend_tables.keeps_quiet quiet_friend_reads
      quiet_publish)+

lemma create_friend_request_keeps: "keeps friend_inv (create_friend_request req identifier)"
proof -
  have ask: "keeps friend_inv (andthen (request_checks a b) (\<lambda>_.
      andthen (stmt h (insert_request a b)) (announce_request b)))" for a b h
  proof (rule keepsI)
    fix w assume inv: "friend_inv w"
    show "wp (andthen (request_checks a b) (\<lambda>_. andthen (stmt h (insert_request a b)) (announce_request b)))
        (\<lambda>_. friend_inv) (\<lambda>_. friend_inv) w"
    proof (rule wp_check [OF same_data_refl, where P = "\<lambda>_. b \<noteq> a"], goal_cases)
      case 1
      show ?case
        unfolding request_checks_def ensure_contact_def are_friends_def pending_request_exists_def
        by (auto simp: wp_simps)
    next
      case (2 _ v)
      then have "a \<noteq> b" by simp
      then have "keeps friend_inv (stmt h (insert_request a b))"
        by (intro friend_tables.keeps_stmt) (rule insert_request_inv)
      then show ?case
        using 2 inv by (intro keepsD keeps_andthen announce_keeps)
          (auto intro: friend_tables.inv_same_data)
    qed (use inv in \<open>auto intro: friend_tables.inv_same_data\<close>)
  qed
  show ?thesis
    unfolding create_friend_request_def
    by (intro keeps_andthen ask friend_tables.keeps_quiet quiet_friend_reads)
qed

lemma grows_respond:
  "grows (andthen (query db_error (\<lambda>w. find (\<lambda>r. fr_id r = i) (friend_requests (db w)))) (\<lambda>row.
     andthen (some_or row (not_found ''request_not_found'')) (\<lambda>r.
     andthen (require (fr_receiver_id r = u) (forbidden ''forbidden'')) (\<lambda>_.
     andthen (require (fr_status r = ReqPending) (conflict ''request_already_processed'')) (\<lambda>_.
     andthen (stmt (\<lambda>_. db_error) (answer_request i st)) (\<lambda>_.
     andthen (if st = ReqAccepted
              then stmt (\<lambda>_. db_error) (insert_friendship (ordered_pair (fr_sender_id r) (fr_receiver_id r)))
              else return ()) (\<lambda>_.
     return (fr_sender_id r))))))))"
  by (intro grows_andthen grows_if grows_stmt later_friend_statements grows_quiet quiet_query quiet_some_or
      quiet_require quiet_return)

lemma respond_tx_keeps: "st \<noteq> ReqPending \<Longrightarrow> keeps friend_inv (respond_tx u i st)"
  unfolding respond_tx_def
  by (intro friend_tables.keeps_transact_body grows_respond keeps_andthen keeps_if keeps_return
      friend_tables.keeps_quiet quiet_query quiet_some_or quiet_require friend_tables.keeps_stmt)
    (auto intro: answer_request_inv insert_friendship_inv)

lemma respond_friend_request_keeps: "keeps friend_inv (respond_friend_request req i status)"
proof -
  have tail: "keeps friend_inv (andthen (some_or (parse_answer status) e) (\<lambda>st. andthen (respond_tx u i st) (announce_response i st)))"
    for u e
  proof (cases "parse_answer status")
    case None
    then show ?thesis by (intro keepsI) (simp add: wp_simps)
  next
    case (Some st)
    then have "st \<noteq> ReqPending" by (auto simp: parse_answer_def split: if_splits)
    then have "keeps friend_inv (andthen (respond_tx u i st) (announce_response i st))"
      by (intro keeps_andthen respond_tx_keeps announce_keeps)
    then show ?thesis
      by (intro keepsI) (simp add: Some wp_some_or wp_andthen [of "some_or _ _"] keepsD)
  qed
  show ?thesis
    unfolding respond_friend_request_def
    by (intro keeps_andthen [of _ "current_user req"] tail friend_tables.keeps_quiet quiet_friend_reads)
qed

lemma friend_statements_keep:
  "keeps friend_inv (execute db_error (\<lambda>w. delete_friendship p (db w)))"
  "keeps friend_inv (execute unavailable (\<lambda>w. ((), delete_block a i (db w))))"
  "keeps friend_inv (stmt h (insert_block a b))"
  by (rule friend_tables.keeps_execute friend_tables.keeps_stmt,
      simp_all add: delete_friendship_inv delete_block_inv insert_block_inv)+

lemma other_friend_handlers_keep:
  "keeps friend_inv (delete_friend req identifier)" "keeps friend_inv (block req p)"
  "keeps friend_inv (unblock req p)"
  unfolding delete_friend_def block_def unblock_def
  by (intro keeps_andthen keeps_return friend_statements_keep friend_tables.keeps_quiet quiet_friend_reads
      quiet_require quiet_some_or quiet_query quiet_publish quiet_extract_authenticated_user)+

inductive friend_step :: "world \<Rightarrow> world \<Rightarrow> bool" where
  ask: "friend_step w (snd (create_friend_request req identifier w))"
| respond: "friend_step w (snd (respond_friend_request req i status w))"
| unfriend: "friend_step w (snd (delete_friend req identifier w))"
| block: "friend_step w (snd (block req p w))"
| unblock: "friend_step w (snd (unblock req p w))"
| elsewhere: "friendships (db w') = friendships (db w) \<Longrightarrow> friend_requests (db w') = friend_requests (db w)
    \<Longrightarrow> user_blocks (db w') = user_blocks (db w) \<Longrightarrow> seqs w RequestSeq \<le> seqs w' RequestSeq
    \<Longrightarrow> friend_step w w'"

definition no_friends :: "world \<Rightarrow> bool" where
  "no_friends w \<longleftrightarrow> friendships (db w) = [] \<and> friend_requests (db w) = [] \<and> user_blocks (db w) = []
     \<and> seqs w RequestSeq = 0"

interpretation friending: invariant_system no_friends friend_step friend_inv
proof
  fix w assume "no_friends w"
  then show "friend_inv w"
    by (simp add: no_friends_def friend_inv_def friend_ok_def friendships_ok_def requests_ok_def blocks_ok_def)
next
  fix w w' assume "friend_inv w" and "friend_step w w'"
  from this(2,1) show "friend_inv w'"
    by (induction rule: friend_step.induct)
      (auto intro: friend_inv_mono keeps_snd create_friend_request_keeps respond_friend_request_keeps
        other_friend_handlers_keep)
qed

section \<open>The social graph\<close>

text \<open>
  The abstract state: who asked whom and waits for an answer, who is whose friend, who blocks whom.
\<close>

record graph =
  asked :: "(int \<times> int) set"
  befriended :: "(int \<times> int) set"
  blocking :: "(int \<times> int) set"

definition social :: "database \<Rightarrow> graph" where
  "social d =
     \<lparr>asked = {(a, b). \<exists>r \<in> set (friend_requests d). fr_status r = ReqPending
        \<and> fr_sender_id r = a \<and> fr_receiver_id r = b},
      befriended = {(a, b). is_friendship d a b},
      blocking = {(a, b). \<exists>r \<in> set (user_blocks d). ub_blocker_id r = a \<and> ub_blocked_id r = b}\<rparr>"

text \<open>The account a request acts for here, and the one an identifier names.\<close>

definition actor :: "world \<Rightarrow> request \<Rightarrow> int \<Rightarrow> bool" where
  "actor w req u \<longleftrightarrow> (\<exists>s r. live_session w req s
     \<and> user_by_email w (normalize_email (cfg w) (u_email s)) = Some r \<and> u_id r = u)"

definition names_user :: "world \<Rightarrow> string \<Rightarrow> int \<Rightarrow> bool" where
  "names_user w raw u \<longleftrightarrow> (\<exists>r. u_id r = u \<and> (case parse_identifier (cfg w) raw of
       Inl _ \<Rightarrow> False
     | Inr (ByEmail e) \<Rightarrow> user_by_email w (normalize_email (cfg w) e) = Some r
     | Inr (ByHandle h) \<Rightarrow>
         find (\<lambda>u. sql_lower (cfg w) (u_handle u) = sql_lower (cfg w) h) (users (db w)) = Some r))"

lemma user_by_email_tick [simp]: "user_by_email (tick w) e = user_by_email w e"
  by (simp add: user_by_email_def)

lemma find_user_by_email_spec:
  "wp (find_user_by_email e)
     (\<lambda>r w'. same_data w w' \<and> r = user_by_email w (normalize_email (cfg w) e)) (\<lambda>_ w'. same_data w w') w"
  by (simp add: find_user_by_email_def Let_def wp_simps)

lemma current_user_spec:
  "wp (current_user req) (\<lambda>r w'. same_data w w' \<and> actor w req (u_id r)) (\<lambda>_ w'. same_data w w') w"
  unfolding current_user_def
proof (rule wp_check [OF same_data_refl, where P = "live_session w req"], goal_cases)
  case 1
  show ?case
    unfolding extract_active_claims_from_auth_def
    by (rule wp_mono [OF extract_authenticated_user_live]) auto
next
  case (2 s v)
  then have v: "cfg v = cfg w" "users (db v) = users (db w)" by (simp_all add: same_data_def)
  show ?case
    unfolding wp_andthen wp_some_or
    by (rule wp_mono [OF find_user_by_email_spec])
      (use 2 v in \<open>auto simp: actor_def user_by_email_def intro: same_data_trans split: option.split\<close>)
qed

lemma resolve_identifier_spec:
  "wp (resolve_identifier raw) (\<lambda>r w'. same_data w w' \<and> names_user w raw (u_id r)) (\<lambda>_ w'. same_data w w') w"
proof (cases "parse_identifier (cfg w) raw")
  case (Inl e)
  then show ?thesis by (simp add: resolve_identifier_def wp_simps)
next
  case (Inr t)
  then show ?thesis
    unfolding resolve_identifier_def find_user_by_email_def find_user_by_handle_def Let_def
    by (cases t) (auto simp: wp_simps names_user_def split: option.split)
qed

lemma actor_same_data: "same_data w v \<Longrightarrow> actor v req u = actor w req u"
  by (simp add: actor_def live_session_same_data user_by_email_def) (simp add: same_data_def)

lemma names_user_same_data: "same_data w v \<Longrightarrow> names_user v raw u = names_user w raw u"
proof -
  assume "same_data w v"
  then have eqs: "cfg v = cfg w" "db v = db w" by (simp_all add: same_data_def)
  show ?thesis unfolding names_user_def user_by_email_def eqs ..
qed

text \<open>The two users of a handler: the actor and the one named.\<close>

lemma two_users:
  assumes "\<And>u t v. same_data w v \<Longrightarrow> actor w req (u_id u) \<Longrightarrow> names_user w raw (u_id t) \<Longrightarrow> wp (f u t) Q E v"
    and "\<And>e v. same_data w v \<Longrightarrow> E e v"
  shows "wp (andthen (current_user req) (\<lambda>u. andthen (resolve_identifier raw) (f u))) Q E w"
proof (rule wp_check [OF same_data_refl, where P = "\<lambda>r. actor w req (u_id r)"], goal_cases)
  case 1
  show ?case by (rule current_user_spec)
next
  case (2 u v)
  show ?case
    by (rule wp_check [OF 2(1), where P = "\<lambda>r. names_user w raw (u_id r)"])
      (use 2 assms in \<open>auto simp: names_user_same_data [OF 2(1), symmetric] intro: resolve_identifier_spec\<close>)
qed (rule assms(2))

end
