(* ===== verification/Expense_Facts.thy ===== *)
theory Expense_Facts
  imports Expenses
begin

text \<open>
  Arithmetic of the shared expenses: the split of an amount is exact, the ledger adds up what it
  should (modulo the wrap-around of \<open>i64\<close>), and the transfers settle every account.
\<close>

section \<open>Wrap-around\<close>

lemma wrap64_id: "- (2 ^ 63) \<le> x \<Longrightarrow> x < 2 ^ 63 \<Longrightarrow> wrap64 x = x"
  by (simp add: wrap64_def)

lemma wrap64_cong: "a mod 2 ^ 64 = b mod 2 ^ 64 \<Longrightarrow> wrap64 a = wrap64 b"
  unfolding wrap64_def by (metis mod_add_cong)

lemma wrap64_mod: "wrap64 a mod 2 ^ 64 = a mod 2 ^ 64"
  unfolding wrap64_def by (metis add_diff_cancel_right' mod_diff_left_eq)

lemma wrap64_add_left [simp]: "wrap64 (wrap64 a + b) = wrap64 (a + b)"
  by (intro wrap64_cong mod_add_cong wrap64_mod refl)

lemma wrap64_diff [simp]: "wrap64 (wrap64 a - wrap64 b) = wrap64 (a - b)"
  by (intro wrap64_cong mod_diff_cong wrap64_mod)

lemma wrap64_0 [simp]: "wrap64 0 = 0"
  by (simp add: wrap64_id)

section \<open>The split of an amount\<close>

lemma sdiv_nonneg: "0 \<le> a \<Longrightarrow> 0 < n \<Longrightarrow> a sdiv n = a div (n :: int)"
  by (cases "a = 0") (simp_all add: signed_divide_int_def sgn_if)

lemma smod_nonneg: "0 \<le> a \<Longrightarrow> 0 < n \<Longrightarrow> a smod n = a mod (n :: int)"
  by (cases "a = 0") (simp_all add: signed_modulo_int_def sgn_if)

lemma share_range:
  fixes a n :: int
  assumes "0 \<le> a" and "0 < n"
  shows "0 \<le> a div n" and "a div n \<le> a" and "0 < a mod n \<Longrightarrow> a div n + 1 \<le> a"
proof -
  show 1: "0 \<le> a div n" using assms by (simp add: pos_imp_zdiv_nonneg_iff)
  have "1 * (a div n) \<le> n * (a div n)"
    using assms 1 by (intro mult_right_mono) auto
  then show "a div n \<le> a" and "0 < a mod n \<Longrightarrow> a div n + 1 \<le> a"
    using mult_div_mod_eq [of n a] assms pos_mod_sign [of n a] by linarith+
qed

definition plain_split :: "int \<Rightarrow> int list \<Rightarrow> (int \<times> int) list" where
  "plain_split a ids = map (\<lambda>(index, i). (i, a div int (length ids)
     + (if int index < a mod int (length ids) then 1 else 0))) (enumerate 0 ids)"

lemma split_amount_plain:
  assumes "0 \<le> a" and "a < 2 ^ 63" and "ids \<noteq> []"
  shows "split_amount a ids = plain_split a ids"
proof -
  let ?n = "int (length ids)"
  have n: "0 < ?n" using assms(3) by simp
  have "wrap64 (a div ?n + (if int j < a mod ?n then 1 else 0))
      = a div ?n + (if int j < a mod ?n then 1 else 0)" for j
    using share_range [OF assms(1) n] assms(2) by (intro wrap64_id) auto
  then show ?thesis
    using assms(1) n by (simp add: split_amount_def plain_split_def Let_def sdiv_nonneg smod_nonneg)
qed

lemma map_fst_plain_split [simp]: "map fst (plain_split a ids) = ids"
proof -
  have "map fst (plain_split a ids) = map snd (enumerate 0 ids)"
    unfolding plain_split_def map_map by (rule map_cong) auto
  then show ?thesis by simp
qed

lemma extra_cents:
  "sum_list (map (\<lambda>(index, i). if int index < r then 1 else 0) (enumerate k xs))
     = max 0 (min (int (length xs)) (r - int k))"
  by (induction xs arbitrary: k) auto

lemma plain_split_sum:
  assumes "0 \<le> a" and "ids \<noteq> []"
  shows "sum_list (map snd (plain_split a ids)) = a"
proof -
  let ?n = "int (length ids)"
  have n: "0 < ?n" using assms(2) by simp
  have "map snd (plain_split a ids) = map (\<lambda>(index, i). a div ?n
      + (if int index < a mod ?n then 1 else 0)) (enumerate 0 ids)"
    by (auto simp: plain_split_def)
  also have "sum_list \<dots> = sum_list (map (\<lambda>_. a div ?n) (enumerate 0 ids))
      + sum_list (map (\<lambda>(index, i). if int index < a mod ?n then 1 else 0) (enumerate 0 ids))"
    unfolding sum_list_addf [symmetric] by (rule arg_cong [where f = sum_list]) auto
  also have "\<dots> = ?n * (a div ?n) + a mod ?n"
    using pos_mod_bound [OF n, of a] pos_mod_sign [OF n, of a]
    by (simp add: extra_cents sum_list_triv)
  finally show ?thesis by simp
qed

lemma plain_split_even:
  assumes "(i, s) \<in> set (plain_split a ids)"
  shows "s = a div int (length ids) \<or> s = a div int (length ids) + 1"
  using assms by (auto simp: plain_split_def split: if_splits)

section \<open>The ledger\<close>

definition entry :: "ledger \<Rightarrow> int \<Rightarrow> int \<times> int" where
  "entry m u = (case map_of m u of Some v \<Rightarrow> v | None \<Rightarrow> (0, 0))"

text \<open>A ledger tracks what everybody paid (\<open>P\<close>) and owes (\<open>Q\<close>), up to the wrap-around.\<close>

definition tracks :: "ledger \<Rightarrow> (int \<Rightarrow> int) \<Rightarrow> (int \<Rightarrow> int) \<Rightarrow> bool" where
  "tracks m P Q \<longleftrightarrow> (\<forall>u. entry m u = (wrap64 (P u), wrap64 (Q u)))"

lemma entry_with_entry: "entry (with_entry k f m) u = (if u = k then f (entry m k) else entry m u)"
  by (simp add: with_entry_def entry_def AList.update_conv')

lemma keys_with_entry: "fst ` set (with_entry k f m) = insert k (fst ` set m)"
  by (simp add: with_entry_def dom_update)

lemma distinct_with_entry: "distinct (map fst m) \<Longrightarrow> distinct (map fst (with_entry k f m))"
  by (simp add: with_entry_def distinct_update)

lemma tracks_paid: "tracks m P Q \<Longrightarrow> tracks (add_paid k a m) (\<lambda>u. P u + (if u = k then a else 0)) Q"
  by (auto simp: tracks_def add_paid_def entry_with_entry split: prod.splits)

lemma tracks_owed: "tracks m P Q \<Longrightarrow> tracks (add_owed k a m) P (\<lambda>u. Q u + (if u = k then a else 0))"
  by (auto simp: tracks_def add_owed_def entry_with_entry split: prod.splits)

definition share_in :: "('k \<times> int) list \<Rightarrow> 'k \<Rightarrow> int" where
  "share_in shares u = sum_list (map snd (filter (\<lambda>(i, s). i = u) shares))"

lemma tracks_shares:
  "tracks m P Q \<Longrightarrow> tracks (fold (\<lambda>(i, s). add_owed i s) shares m) P (\<lambda>u. Q u + share_in shares u)"
proof (induction shares arbitrary: m Q)
  case Nil
  then show ?case by (simp add: share_in_def)
next
  case (Cons p shares)
  obtain i s where p: "p = (i, s)" by force
  have "tracks (fold (\<lambda>(i, s). add_owed i s) shares (add_owed i s m)) P
      (\<lambda>u. (Q u + (if u = i then s else 0)) + share_in shares u)"
    by (rule Cons.IH [OF tracks_owed [OF Cons.prems]])
  moreover have "(\<lambda>u. (Q u + (if u = i then s else 0)) + share_in shares u)
      = (\<lambda>u. Q u + share_in (p # shares) u)"
    by (auto simp: share_in_def p)
  ultimately show ?case by (simp add: p)
qed

text \<open>What an expense costs, who bears it and how.\<close>

definition cost :: "expense_view \<Rightarrow> int" where
  "cost v = x_amount_cents (xv_expense v)"

definition bearers :: "expense_view \<Rightarrow> int list" where
  "bearers v = remdups_adj (sort (map ev_user_id (xv_participants v)))"

definition paid_total :: "expense_view list \<Rightarrow> int \<Rightarrow> int" where
  "paid_total views u = sum_list (map (\<lambda>v. if x_paid_by (xv_expense v) = u then cost v else 0) views)"

definition owed_total :: "expense_view list \<Rightarrow> int \<Rightarrow> int" where
  "owed_total views u = sum_list (map (\<lambda>v. if bearers v = [] then 0
     else share_in (split_amount (cost v) (bearers v)) u) views)"

lemma add_expense_eq:
  "add_expense v m = fold (\<lambda>(i, s). add_owed i s)
     (if bearers v = [] then [] else split_amount (cost v) (bearers v))
     (add_paid (x_paid_by (xv_expense v)) (cost v) m)"
  by (simp add: add_expense_def Let_def bearers_def cost_def)

lemma tracks_views:
  "tracks m P Q \<Longrightarrow>
     tracks (fold add_expense views m) (\<lambda>u. P u + paid_total views u) (\<lambda>u. Q u + owed_total views u)"
proof (induction views arbitrary: m P Q)
  case Nil
  then show ?case by (simp add: paid_total_def owed_total_def)
next
  case (Cons v views)
  let ?sh = "if bearers v = [] then [] else split_amount (cost v) (bearers v)"
  have "tracks (add_expense v m) (\<lambda>u. P u + (if u = x_paid_by (xv_expense v) then cost v else 0))
      (\<lambda>u. Q u + share_in ?sh u)"
    unfolding add_expense_eq by (intro tracks_shares tracks_paid Cons.prems)
  from Cons.IH [OF this] show ?case
    by (simp add: tracks_def paid_total_def owed_total_def share_in_def eq_commute add.assoc)
qed

lemma tracks_ledger: "tracks (ledger_of members views) (paid_total views) (owed_total views)"
proof -
  have "tracks (map (\<lambda>u. (u_id u, 0, 0)) members) (\<lambda>_. 0) (\<lambda>_. 0)"
    by (auto simp: tracks_def entry_def split: option.split dest!: map_of_SomeD)
  from tracks_views [OF this, of views] show ?thesis
    by (simp add: ledger_of_def)
qed

text \<open>Who appears in the ledger.\<close>

definition involved :: "user list \<Rightarrow> expense_view list \<Rightarrow> int set" where
  "involved members views = u_id ` set members
     \<union> (\<Union>v \<in> set views. insert (x_paid_by (xv_expense v)) (set (bearers v)))"

lemma keys_shares:
  "fst ` set (fold (\<lambda>(i, s). add_owed i s) shares m) = fst ` set shares \<union> fst ` set m"
  by (induction shares arbitrary: m) (auto simp: add_owed_def keys_with_entry split: prod.splits)

lemma distinct_shares:
  "distinct (map fst m) \<Longrightarrow> distinct (map fst (fold (\<lambda>(i, s). add_owed i s) shares m))"
  by (induction shares arbitrary: m) (auto simp: add_owed_def distinct_with_entry split: prod.splits)

lemma keys_split: "ids \<noteq> [] \<Longrightarrow> fst ` set (split_amount a ids) = set ids"
proof -
  have "map fst (split_amount a ids) = map snd (enumerate 0 ids)"
    unfolding split_amount_def Let_def map_map by (rule map_cong) auto
  then show ?thesis by (metis list.set_map map_snd_enumerate)
qed

lemma keys_add_expense:
  "fst ` set (add_expense v m) = insert (x_paid_by (xv_expense v)) (set (bearers v)) \<union> fst ` set m"
  unfolding add_expense_eq keys_shares by (auto simp: keys_split add_paid_def keys_with_entry)

lemma distinct_add_expense: "distinct (map fst m) \<Longrightarrow> distinct (map fst (add_expense v m))"
  unfolding add_expense_eq by (intro distinct_shares) (simp add: add_paid_def distinct_with_entry)

lemma keys_ledger: "fst ` set (ledger_of members views) = involved members views"
proof -
  have "fst ` set (fold add_expense views m) = fst ` set m
      \<union> (\<Union>v \<in> set views. insert (x_paid_by (xv_expense v)) (set (bearers v)))" for m
    by (induction views arbitrary: m) (auto simp: keys_add_expense)
  then show ?thesis
    unfolding ledger_of_def involved_def by (simp add: image_image)
qed

lemma distinct_ledger:
  assumes "distinct (map u_id members)"
  shows "distinct (map fst (ledger_of members views))"
proof -
  have "distinct (map fst m) \<Longrightarrow> distinct (map fst (fold add_expense views m))" for m
    by (induction views arbitrary: m) (auto intro: distinct_add_expense)
  then show ?thesis
    using assms by (simp add: ledger_of_def comp_def)
qed

lemma total_cents_wrap: "total_cents views = wrap64 (sum_list (map cost views))"
proof -
  have "fold (\<lambda>v total. wrap64 (total + x_amount_cents (xv_expense v))) views (wrap64 t)
      = wrap64 (t + sum_list (map cost views))" for t
    by (induction views arbitrary: t) (auto simp: cost_def add.assoc)
  from this [of 0] show ?thesis by (simp add: total_cents_def)
qed

text \<open>The balances: what each user is owed, modulo the wrap-around.\<close>

lemma ledger_entry:
  assumes "distinct (map u_id members)" and "(u, p, q) \<in> set (ledger_of members views)"
  shows "p = wrap64 (paid_total views u)" and "q = wrap64 (owed_total views u)"
  using tracks_ledger [of members views] map_of_is_SomeI [OF distinct_ledger [OF assms(1)] assms(2)]
  by (auto simp: tracks_def entry_def dest!: spec [of _ u])

lemma set_sort_balances [simp]: "set (sort_balances bs) = set bs"
  by (simp add: sort_balances_def)

lemma summary_balance:
  assumes "distinct (map u_id members)" and "b \<in> set (es_balances (summarise members views))"
  shows "bv_paid_cents b = wrap64 (paid_total views (bv_user_id b))"
    and "bv_owed_cents b = wrap64 (owed_total views (bv_user_id b))"
    and "bv_balance_cents b = wrap64 (paid_total views (bv_user_id b) - owed_total views (bv_user_id b))"
proof -
  obtain u p q where b: "b = balance_of members (u, p, q)" "(u, p, q) \<in> set (ledger_of members views)"
    using assms(2) by (auto simp: summarise_def Let_def)
  note pq = ledger_entry [OF assms(1) b(2)]
  show "bv_paid_cents b = wrap64 (paid_total views (bv_user_id b))"
    "bv_owed_cents b = wrap64 (owed_total views (bv_user_id b))"
    "bv_balance_cents b = wrap64 (paid_total views (bv_user_id b) - owed_total views (bv_user_id b))"
    unfolding b(1) by (simp_all add: balance_of_def Let_def pq)
qed

lemma summary_users:
  assumes "distinct (map u_id members)"
  shows "distinct (map bv_user_id (es_balances (summarise members views)))"
    and "set (map bv_user_id (es_balances (summarise members views))) = involved members views"
proof -
  have ids: "map bv_user_id (map (balance_of members) m) = map fst m" for m
    by (auto simp: balance_of_def Let_def)
  have "mset (map bv_user_id (es_balances (summarise members views)))
      = mset (map bv_user_id (map (balance_of members) (ledger_of members views)))"
    by (simp add: summarise_def Let_def sort_balances_def del: map_map)
  note this [unfolded ids]
  then show "distinct (map bv_user_id (es_balances (summarise members views)))"
    "set (map bv_user_id (es_balances (summarise members views))) = involved members views"
    using distinct_ledger [OF assms] keys_ledger
    by (metis mset_eq_imp_distinct_iff, metis list.set_map mset_eq_setD)
qed

section \<open>Balances add up to nothing\<close>

lemma sum_over_keys:
  assumes "finite K" and "k \<in> K"
  shows "(\<Sum>u \<in> K. if k = u then a else (0 :: int)) = a"
  using assms by simp

lemma sum_paid:
  assumes "finite K" and "\<And>v. v \<in> set views \<Longrightarrow> x_paid_by (xv_expense v) \<in> K"
  shows "(\<Sum>u \<in> K. paid_total views u) = sum_list (map cost views)"
  using assms(2)
  by (induction views) (simp_all add: paid_total_def sum.distrib assms(1))

lemma sum_share_in:
  assumes "finite K" and "fst ` set shares \<subseteq> K"
  shows "(\<Sum>u \<in> K. share_in shares u) = sum_list (map snd shares)"
  using assms(2)
proof (induction shares)
  case Nil
  then show ?case by (simp add: share_in_def)
next
  case (Cons p shares)
  have "share_in (p # shares) u = (if fst p = u then snd p else 0) + share_in shares u" for u
    by (simp add: share_in_def split: prod.split)
  then show ?case
    using Cons by (simp add: sum.distrib assms(1))
qed

lemma sum_owed:
  assumes "finite K" and "\<And>v. v \<in> set views \<Longrightarrow> set (bearers v) \<subseteq> K \<and> bearers v \<noteq> []
      \<and> 0 \<le> cost v \<and> cost v < 2 ^ 63"
  shows "(\<Sum>u \<in> K. owed_total views u) = sum_list (map cost views)"
  using assms(2)
proof (induction views)
  case Nil
  then show ?case by (simp add: owed_total_def)
next
  case (Cons v views)
  then have v: "set (bearers v) \<subseteq> K" "bearers v \<noteq> []" "0 \<le> cost v" "cost v < 2 ^ 63"
    by auto
  have "fst ` set (split_amount (cost v) (bearers v)) \<subseteq> K"
    using v by (simp add: keys_split)
  from sum_share_in [OF assms(1) this]
  have "(\<Sum>u \<in> K. share_in (split_amount (cost v) (bearers v)) u) = cost v"
    using v by (simp add: split_amount_plain plain_split_sum)
  then show ?case
    using Cons v(2) by (simp add: owed_total_def sum.distrib)
qed

text \<open>Without overflow: the amounts of the event add up to less than \<open>2 ^ 63\<close> cents.\<close>

definition sound_expenses :: "expense_view list \<Rightarrow> bool" where
  "sound_expenses views \<longleftrightarrow> (\<forall>v \<in> set views. 0 < cost v \<and> bearers v \<noteq> [])
     \<and> sum_list (map cost views) < 2 ^ 63"

lemma cost_le_sum:
  assumes "sound_expenses views" and "v \<in> set views"
  shows "cost v < 2 ^ 63"
proof -
  have "cost v \<le> sum_list (map cost views)"
    using assms by (intro member_le_sum_list) (auto simp: sound_expenses_def order.strict_implies_order)
  then show ?thesis using assms(1) by (simp add: sound_expenses_def)
qed

lemma share_in_range:
  assumes "\<And>p. p \<in> set shares \<Longrightarrow> 0 \<le> snd p"
  shows "0 \<le> share_in shares u" and "share_in shares u \<le> sum_list (map snd shares)"
proof -
  have "0 \<le> share_in shares u \<and> share_in shares u \<le> sum_list (map snd shares)"
    using assms
  proof (induction shares)
    case (Cons p shares)
    then have "0 \<le> snd p" "0 \<le> share_in shares u" "share_in shares u \<le> sum_list (map snd shares)"
      by simp_all
    then show ?case by (auto simp: share_in_def split: prod.split)
  qed (simp add: share_in_def)
  then show "0 \<le> share_in shares u" "share_in shares u \<le> sum_list (map snd shares)" by simp_all
qed

lemma plain_split_nonneg:
  assumes "0 \<le> a" and "p \<in> set (plain_split a ids)"
  shows "0 \<le> snd p"
  using assms share_range(1) [OF assms(1), of "int (length ids)"]
  by (cases "ids = []") (auto simp: plain_split_def)

lemma totals_range:
  assumes "sound_expenses views"
  shows "0 \<le> paid_total views u" and "paid_total views u \<le> sum_list (map cost views)"
    and "0 \<le> owed_total views u" and "owed_total views u \<le> sum_list (map cost views)"
proof -
  have v: "0 < cost v" "bearers v \<noteq> []" "cost v < 2 ^ 63" if "v \<in> set views" for v
    using assms that cost_le_sum [OF assms that] by (auto simp: sound_expenses_def)
  show "0 \<le> paid_total views u"
    unfolding paid_total_def using v by (intro sum_list_nonneg) (auto simp: order.strict_implies_order)
  show "paid_total views u \<le> sum_list (map cost views)"
    unfolding paid_total_def using v by (intro sum_list_mono) (auto simp: order.strict_implies_order)
  have s: "0 \<le> share_in (split_amount (cost v) (bearers v)) u
      \<and> share_in (split_amount (cost v) (bearers v)) u \<le> cost v" if "v \<in> set views" for v
    using share_in_range [of "plain_split (cost v) (bearers v)" u]
      plain_split_nonneg [of "cost v" _ "bearers v"] v [OF that]
    by (simp add: split_amount_plain plain_split_sum order.strict_implies_order)
  show "0 \<le> owed_total views u"
    unfolding owed_total_def using v s by (intro sum_list_nonneg) auto
  show "owed_total views u \<le> sum_list (map cost views)"
    unfolding owed_total_def using v s by (intro sum_list_mono) auto
qed

lemma balance_exact:
  assumes "distinct (map u_id members)" and "sound_expenses views"
    and "b \<in> set (es_balances (summarise members views))"
  shows "bv_paid_cents b = paid_total views (bv_user_id b)"
    and "bv_owed_cents b = owed_total views (bv_user_id b)"
    and "bv_balance_cents b = paid_total views (bv_user_id b) - owed_total views (bv_user_id b)"
    and "- (2 ^ 63) < bv_balance_cents b"
  unfolding summary_balance [OF assms(1,3)]
  using totals_range [OF assms(2), of "bv_user_id b"] assms(2)
  by (simp_all add: wrap64_id sound_expenses_def)

lemma balances_sum_zero:
  assumes "distinct (map u_id members)" and "sound_expenses views"
  shows "sum_list (map bv_balance_cents (es_balances (summarise members views))) = 0"
proof -
  let ?bs = "es_balances (summarise members views)"
  let ?g = "\<lambda>u. paid_total views u - owed_total views u"
  have "map bv_balance_cents ?bs = map ?g (map bv_user_id ?bs)"
    using balance_exact(3) [OF assms] by simp
  then have "sum_list (map bv_balance_cents ?bs) = (\<Sum>u \<in> involved members views. ?g u)"
    using sum_list_distinct_conv_sum_set [OF summary_users(1) [OF assms(1), of views], of ?g]
    by (simp only: summary_users(2) [OF assms(1)])
  also have "\<dots> = (\<Sum>u \<in> involved members views. paid_total views u)
      - (\<Sum>u \<in> involved members views. owed_total views u)"
    by (rule sum_subtractf)
  also have "\<dots> = 0"
  proof -
    have K: "finite (involved members views)" by (simp add: involved_def)
    have "set (bearers v) \<subseteq> involved members views \<and> bearers v \<noteq> [] \<and> 0 \<le> cost v \<and> cost v < 2 ^ 63"
      if "v \<in> set views" for v
      using that cost_le_sum [OF assms(2) that] assms(2)
      by (auto simp: sound_expenses_def involved_def)
    moreover have "x_paid_by (xv_expense v) \<in> involved members views" if "v \<in> set views" for v
      using that by (auto simp: involved_def)
    ultimately show ?thesis
      using sum_paid [OF K, of views] sum_owed [OF K, of views] by simp
  qed
  finally show ?thesis .
qed

section \<open>The transfers\<close>

lemma share_in_nil: "share_in [] k = 0"
  by (simp add: share_in_def)

lemma share_in_cons: "share_in ((i, a) # xs) k = (if i = k then a else 0) + share_in xs k"
  by (simp add: share_in_def)

lemma share_in_open: "share_in (open_amount i r xs) k = (if i = k then r else 0) + share_in xs k"
  by (simp add: open_amount_def share_in_cons)

lemma sum_open: "sum_list (map snd (open_amount i r xs)) = r + sum_list (map snd xs)"
  by (simp add: open_amount_def)

definition received :: "(nat \<times> nat \<times> int) list \<Rightarrow> nat \<Rightarrow> int" where
  "received ts k = share_in (map (\<lambda>(d, c, t). (c, t)) ts) k"

definition given :: "(nat \<times> nat \<times> int) list \<Rightarrow> nat \<Rightarrow> int" where
  "given ts k = share_in (map (\<lambda>(d, c, t). (d, t)) ts) k"

definition positive :: "(nat \<times> int) list \<Rightarrow> bool" where
  "positive xs \<longleftrightarrow> (\<forall>(i, a) \<in> set xs. 0 < a)"

lemma positive_open: "positive xs \<Longrightarrow> 0 \<le> r \<Longrightarrow> positive (open_amount i r xs)"
  by (auto simp: positive_def open_amount_def)

lemma positive_cons [simp]: "positive ((i, a) # xs) \<longleftrightarrow> 0 < a \<and> positive xs"
  by (simp add: positive_def)

lemma positive_sum_0: "positive xs \<Longrightarrow> sum_list (map snd xs) \<le> 0 \<Longrightarrow> xs = []"
proof (induction xs)
  case (Cons p xs)
  then have "0 < snd p" "0 \<le> sum_list (map snd xs)"
    by (auto simp: positive_def intro!: sum_list_nonneg)
  then show ?case using Cons.prems by simp
qed simp

lemma settle_balanced:
  assumes "positive cs" and "positive ds" and "sum_list (map snd cs) = sum_list (map snd ds)"
  shows "received (settle cs ds) k = share_in cs k \<and> given (settle cs ds) k = share_in ds k"
  using assms
proof (induction cs ds rule: settle.induct)
  case (1 c credit cs d debt ds)
  let ?t = "min credit debt"
  have "received (settle (open_amount c (credit - ?t) cs) (open_amount d (debt - ?t) ds)) k
        = share_in (open_amount c (credit - ?t) cs) k
      \<and> given (settle (open_amount c (credit - ?t) cs) (open_amount d (debt - ?t) ds)) k
        = share_in (open_amount d (debt - ?t) ds) k"
    using 1(2-4) by (intro 1(1) refl positive_open) (auto simp: sum_open)
  then show ?case
    by (simp add: Let_def received_def given_def share_in_open share_in_cons)
next
  case (2 ds)
  then have "ds = []" by (intro positive_sum_0) auto
  then show ?case by (simp add: received_def given_def share_in_def)
next
  case (3 cs)
  then have "cs = []" by (intro positive_sum_0) auto
  then show ?case by (simp add: received_def given_def share_in_def)
qed

lemma settle_transfers:
  assumes "positive cs" and "positive ds" and "(d, c, t) \<in> set (settle cs ds)"
  shows "0 < t \<and> d \<in> fst ` set ds \<and> c \<in> fst ` set cs"
  using assms
proof (induction cs ds rule: settle.induct)
  case (1 c' credit cs d' debt ds)
  let ?t = "min credit debt"
  have pos: "positive (open_amount c' (credit - ?t) cs)" "positive (open_amount d' (debt - ?t) ds)"
    using 1(2,3) by (auto intro!: positive_open)
  have "fst ` set (open_amount i r xs) \<subseteq> insert i (fst ` set xs)"
    for i :: nat and r :: int and xs
    by (auto simp: open_amount_def)
  note sub = this [of c' "credit - ?t" cs] this [of d' "debt - ?t" ds]
  show ?case
  proof (cases "(d, c, t) = (d', c', ?t)")
    case True
    then show ?thesis using 1(2,3) by simp
  next
    case False
    then have "(d, c, t) \<in> set (settle (open_amount c' (credit - ?t) cs) (open_amount d' (debt - ?t) ds))"
      using 1(4) by (auto simp: Let_def)
    from 1(1) [OF refl pos this] show ?thesis
      using sub by auto
  qed
qed simp_all

lemma settle_length:
  assumes "cs \<noteq> []" and "ds \<noteq> []"
  shows "length (settle cs ds) < length cs + length ds"
  using assms
proof (induction cs ds rule: settle.induct)
  case (1 c credit cs d debt ds)
  let ?t = "min credit debt"
  let ?cs = "open_amount c (credit - ?t) cs" and ?ds = "open_amount d (debt - ?t) ds"
  have len: "length ?cs + length ?ds \<le> Suc (length cs + length ds)"
    by (auto simp: open_amount_def)
  show ?case
  proof (cases "?cs = [] \<or> ?ds = []")
    case True
    then have "settle ?cs ?ds = []" by (cases ?cs) auto
    then show ?thesis by (simp add: Let_def)
  next
    case False
    then show ?thesis using 1(1) [OF refl] len by (simp add: Let_def)
  qed
qed simp_all

text \<open>The transfers of a list of balances that add up to nothing.\<close>

lemma share_in_enumerate:
  assumes "k < length bs"
  shows "share_in (map (\<lambda>(i, b). (i, f b)) (filter (\<lambda>(i, b). p b) (enumerate n bs))) (n + k)
    = (if p (bs ! k) then f (bs ! k) else 0)"
  using assms
proof (induction bs arbitrary: n k)
  case (Cons b bs)
  have none: "share_in (map (\<lambda>(i, b). (i, f b)) (filter (\<lambda>(i, b). p b) (enumerate (Suc n) bs))) n = 0"
    by (auto simp: share_in_def filter_empty_conv in_set_enumerate_eq intro!: sum_list_nonneg_eq_0_iff [THEN iffD2])
  show ?case
  proof (cases k)
    case 0
    then show ?thesis using none by (simp add: share_in_cons)
  next
    case (Suc j)
    then show ?thesis
      using Cons.IH [of j "Suc n"] Cons.prems by (simp add: share_in_cons)
  qed
qed simp

lemma creditors_share:
  "k < length bs \<Longrightarrow> share_in (creditors_of bs) k = max 0 (bv_balance_cents (bs ! k))"
  using share_in_enumerate [of k bs bv_balance_cents "\<lambda>b. 0 < bv_balance_cents b" 0]
  by (simp add: creditors_of_def)

lemma debtors_share:
  assumes "k < length bs" and "\<And>b. b \<in> set bs \<Longrightarrow> - (2 ^ 63) < bv_balance_cents b"
    and "\<And>b. b \<in> set bs \<Longrightarrow> bv_balance_cents b < 2 ^ 63"
  shows "share_in (debtors_of bs) k = max 0 (- bv_balance_cents (bs ! k))"
  using share_in_enumerate [of k bs "\<lambda>b. wrap64 (- bv_balance_cents b)" "\<lambda>b. bv_balance_cents b < 0" 0]
    assms(2,3) [of "bs ! k"] assms(1)
  by (simp add: debtors_of_def wrap64_id)

lemma sum_split_signs:
  fixes f :: "'a \<Rightarrow> int"
  shows "sum_list (map f (filter (\<lambda>x. 0 < f x) xs)) + sum_list (map f (filter (\<lambda>x. f x < 0) xs))
    = sum_list (map f xs)"
  by (induction xs) auto

lemma filter_enumerate:
  "map snd (map (\<lambda>(i, b). (i, f b)) (filter (\<lambda>(i, b). p b) (enumerate n bs))) = map f (filter p bs)"
  by (induction bs arbitrary: n) auto

lemma creditors_positive: "positive (creditors_of bs)"
  by (auto simp: positive_def creditors_of_def)

lemma debtors_positive:
  assumes "\<And>b. b \<in> set bs \<Longrightarrow> - (2 ^ 63) < bv_balance_cents b"
  shows "positive (debtors_of bs)"
proof -
  have "0 < wrap64 (- bv_balance_cents b)" if "b \<in> set bs" "bv_balance_cents b < 0" for b
    using assms [OF that(1)] that(2) by (simp add: wrap64_id)
  then show ?thesis
    by (auto simp: positive_def debtors_of_def in_set_enumerate_eq)
qed

lemma open_sums_equal:
  assumes "\<And>b. b \<in> set bs \<Longrightarrow> - (2 ^ 63) < bv_balance_cents b"
    and "sum_list (map bv_balance_cents bs) = 0"
  shows "sum_list (map snd (creditors_of bs)) = sum_list (map snd (debtors_of bs))"
proof -
  have "map (\<lambda>b. wrap64 (- bv_balance_cents b)) (filter (\<lambda>b. bv_balance_cents b < 0) bs)
      = map (\<lambda>b. - bv_balance_cents b) (filter (\<lambda>b. bv_balance_cents b < 0) bs)"
    using assms(1) by (force intro!: wrap64_id)
  then have "sum_list (map snd (debtors_of bs))
      = sum_list (map (\<lambda>b. - bv_balance_cents b) (filter (\<lambda>b. bv_balance_cents b < 0) bs))"
    unfolding debtors_of_def filter_enumerate by (rule arg_cong)
  moreover have "sum_list (map snd (creditors_of bs))
      = sum_list (map bv_balance_cents (filter (\<lambda>b. 0 < bv_balance_cents b) bs))"
    unfolding creditors_of_def filter_enumerate ..
  moreover have "sum_list (map (\<lambda>b. - f b) xs) = - sum_list (map f xs)" for f :: "balance_view \<Rightarrow> int" and xs
    by (induction xs) auto
  ultimately show ?thesis
    using sum_split_signs [of bv_balance_cents bs] assms(2) by simp
qed

text \<open>What a user gets from the transfers, less what the user pays.\<close>

definition net :: "settlement_view list \<Rightarrow> int \<Rightarrow> int" where
  "net ss u = sum_list (map (\<lambda>s. if sv_to_user_id s = u then sv_amount_cents s else 0) ss)
     - sum_list (map (\<lambda>s. if sv_from_user_id s = u then sv_amount_cents s else 0) ss)"

lemma received_given:
  "received ts k = sum_list (map (\<lambda>(d, c, t). if c = k then t else 0) ts)"
  "given ts k = sum_list (map (\<lambda>(d, c, t). if d = k then t else 0) ts)"
  unfolding received_def given_def
  by (induction ts) (simp_all add: share_in_nil share_in_cons split: prod.split)

lemma open_positions:
  "fst ` set (creditors_of bs) \<subseteq> {..<length bs}" "fst ` set (debtors_of bs) \<subseteq> {..<length bs}"
  by (auto simp: creditors_of_def debtors_of_def in_set_enumerate_eq)

lemma net_settle_balances:
  assumes "distinct (map bv_user_id bs)" and "sum_list (map bv_balance_cents bs) = 0"
    and range: "\<And>b. b \<in> set bs \<Longrightarrow> - (2 ^ 63) < bv_balance_cents b \<and> bv_balance_cents b < 2 ^ 63"
    and "b \<in> set bs"
  shows "net (settle_balances bs) (bv_user_id b) = bv_balance_cents b"
proof -
  obtain k where k: "k < length bs" "bs ! k = b" using assms(4) by (auto simp: in_set_conv_nth)
  let ?ts = "settle (creditors_of bs) (debtors_of bs)"
  have pos: "positive (creditors_of bs)" "positive (debtors_of bs)"
    using creditors_positive debtors_positive range by auto
  have inj: "bv_user_id (bs ! i) = bv_user_id b \<longleftrightarrow> i = k" if "i < length bs" for i
    using assms(1) k that by (auto simp: distinct_conv_nth)
  have ends: "d < length bs" "c < length bs" if "(d, c, t) \<in> set ?ts" for d c t
    using settle_transfers [OF pos that] open_positions [of bs] by auto
  have "net (settle_balances bs) (bv_user_id b)
      = sum_list (map (\<lambda>(d, c, t). if c = k then t else 0) ?ts)
        - sum_list (map (\<lambda>(d, c, t). if d = k then t else 0) ?ts)"
    unfolding net_def settle_balances_def map_map
    by (intro arg_cong2 [where f = "(-)"] arg_cong [where f = sum_list] map_cong refl)
      (auto simp: make_settlement_def inj ends)
  also have "\<dots> = share_in (creditors_of bs) k - share_in (debtors_of bs) k"
    using settle_balanced [OF pos open_sums_equal, of k] range assms(2)
    unfolding received_given by simp
  also have "\<dots> = bv_balance_cents b"
    using k range by (simp add: creditors_share debtors_share)
  finally show ?thesis .
qed

lemma settlements_few:
  assumes "settle_balances bs \<noteq> []"
  shows "length (settle_balances bs) < length (creditors_of bs) + length (debtors_of bs)"
proof -
  have "creditors_of bs \<noteq> []" "debtors_of bs \<noteq> []"
    using assms by (cases "creditors_of bs"; cases "debtors_of bs"; auto simp: settle_balances_def)+
  then show ?thesis
    using settle_length by (simp add: settle_balances_def)
qed

lemma length_filter_disjoint:
  assumes "\<And>x. p x \<Longrightarrow> \<not> q x"
  shows "length (filter p xs) + length (filter q xs) \<le> length xs"
  by (induction xs) (use assms in \<open>auto simp: le_Suc_eq\<close>)

lemma open_positions_few: "length (creditors_of bs) + length (debtors_of bs) \<le> length bs"
proof -
  have "length (filter (\<lambda>(i, b). 0 < bv_balance_cents b) xs)
      + length (filter (\<lambda>(i, b). bv_balance_cents b < 0) xs) \<le> length xs" for xs :: "(nat \<times> balance_view) list"
    by (rule length_filter_disjoint) auto
  from this [of "enumerate 0 bs"] show ?thesis
    by (simp add: creditors_of_def debtors_of_def)
qed

end
