(* ===== verification/Expense_Handlers.thy ===== *)
theory Expense_Handlers
  imports Expense_Facts Checks
begin

text \<open>
  The tables of the expenses under the handlers: what creating and deleting change, the invariant
  they keep, the access rules, and the listing page by page.
\<close>

section \<open>The invariant\<close>

text \<open>Every expense costs something and has a participant; participants belong to an expense.\<close>

definition expense_ok :: "database \<Rightarrow> bool" where
  "expense_ok d \<longleftrightarrow> distinct (map x_id (expenses d))
     \<and> distinct (map (\<lambda>p. (xp_expense_id p, xp_user_id p)) (participants d))
     \<and> (\<forall>x \<in> set (expenses d). 0 < x_amount_cents x
          \<and> (\<exists>p \<in> set (participants d). xp_expense_id p = x_id x))
     \<and> (\<forall>p \<in> set (participants d). \<exists>x \<in> set (expenses d). x_id x = xp_expense_id p)"

definition expense_inv :: "world \<Rightarrow> bool" where
  "expense_inv w \<longleftrightarrow> expense_ok (db w) \<and> 0 \<le> seqs w ExpenseSeq
     \<and> (\<forall>x \<in> set (expenses (db w)). 0 < x_id x \<and> x_id x \<le> seqs w ExpenseSeq)"

lemma expense_inv_mono:
  assumes "expense_inv w" and "expenses (db w') = expenses (db w)"
    and "participants (db w') = participants (db w)" and "seqs w ExpenseSeq \<le> seqs w' ExpenseSeq"
  shows "expense_inv w'"
  using assms by (force simp: expense_inv_def expense_ok_def)

interpretation expense_tables: table_invariant expense_inv
proof
  fix w w' assume "expense_inv w" "db w' = db w" "later w w'"
  then show "expense_inv w'"
    by (elim expense_inv_mono) (simp_all add: later_def)
qed

section \<open>Recording\<close>

definition rows_for :: "int \<Rightarrow> int list \<Rightarrow> expense_participant list" where
  "rows_for i ids = map (\<lambda>u. \<lparr>xp_expense_id = i, xp_user_id = u, xp_share_weight = 1\<rparr>) ids"

lemma insert_participants_spec:
  "wp (for_each ids (\<lambda>u. stmt h (insert_participant i u)))
     (\<lambda>_ w'. later w w' \<and> seqs w' = seqs w
        \<and> db w' = (db w)\<lparr>participants := participants (db w) @ rows_for i ids\<rparr>)
     (\<lambda>_ _. True) w"
proof (induction ids arbitrary: w)
  case Nil
  show ?case by (simp add: rows_for_def)
next
  case (Cons u ids)
  have one: "wp (stmt h (insert_participant i u))
      (\<lambda>_ w'. later w w' \<and> seqs w' = seqs w
         \<and> db w' = (db w)\<lparr>participants := participants (db w) @ rows_for i [u]\<rparr>) (\<lambda>_ _. True) w"
    by (simp add: wp_simps insert_participant_def Let_def rows_for_def)
  show ?case
    unfolding for_each.simps wp_andthen
  proof (rule wp_mono [OF one], goal_cases)
    case (1 x w')
    then show ?case
      by (intro wp_mono [OF Cons.IH]) (auto simp: rows_for_def intro: later_trans)
  qed simp
qed

lemma insert_expense_okD:
  assumes "insert_expense row w = (Inr i, w')"
  shows "i = seqs w ExpenseSeq + 1
    \<and> w' = w\<lparr>seqs := (seqs w)(ExpenseSeq := i), db := (db w)\<lparr>expenses := expenses (db w) @ [row i]\<rparr>\<rparr>
    \<and> 0 < x_amount_cents (row i)
    \<and> exists_where (\<lambda>u. u_id u = x_paid_by (row i)) (users (db w))
    \<and> \<not> content_not_allowed w (case x_note (row i) of None \<Rightarrow> [] | Some n \<Rightarrow> [n])"
  using assms by (auto simp: insert_expense_def nextval_def Let_def split: if_splits)

lemma grows_expense_statements [grows_intros]:
  "later w (snd (insert_expense row w))" "later w (snd (insert_participant i u w))"
  using later_nextval [of w ExpenseSeq]
  by (auto simp: insert_expense_def insert_participant_def Let_def nextval_def)

lemma create_expense_tx_spec:
  "wp (create_expense_tx row ids)
     (\<lambda>i w'. i = seqs w ExpenseSeq + 1 \<and> seqs w' ExpenseSeq = i
        \<and> db w' = (db w)\<lparr>expenses := expenses (db w) @ [row (clock w) i],
             participants := participants (db w) @ rows_for i ids\<rparr>
        \<and> 0 < x_amount_cents (row (clock w) i)
        \<and> exists_where (\<lambda>u. u_id u = x_paid_by (row (clock w) i)) (users (db w))
        \<and> later w w'
        \<and> \<not> content_not_allowed w (case x_note (row (clock w) i) of None \<Rightarrow> [] | Some n \<Rightarrow> [n]))
     (\<lambda>_ w'. db w' = db w) w"
  unfolding create_expense_tx_def
proof (rule wp_transact_success, goal_cases)
  case 1
  have filter_tick: "content_not_allowed (tick v) xs = content_not_allowed v xs" for v xs
    by (simp add: content_not_allowed_def)
  show ?case
    unfolding wp_andthen wp_stmt
    by (auto simp: filter_tick dest!: insert_expense_okD split: prod.split sum.split
        intro!: wp_mono [OF insert_participants_spec] simp: later_def)
qed simp

lemma expense_ok_add:
  assumes ok: "expense_ok d" and new: "\<And>x. x \<in> set (expenses d) \<Longrightarrow> x_id x \<noteq> x_id y"
    and "0 < x_amount_cents y" and "ids \<noteq> []" and "distinct ids"
  shows "expense_ok (d\<lparr>expenses := expenses d @ [y], participants := participants d @ rows_for (x_id y) ids\<rparr>)"
proof -
  have "xp_expense_id p \<noteq> x_id y" if "p \<in> set (participants d)" for p
    using ok new that by (force simp: expense_ok_def)
  then have "distinct (map (\<lambda>p. (xp_expense_id p, xp_user_id p)) (participants d @ rows_for (x_id y) ids))"
    using ok assms(5) by (auto simp: expense_ok_def rows_for_def distinct_map inj_on_def)
  moreover have "\<exists>p \<in> set (rows_for (x_id y) ids). xp_expense_id p = x_id y"
    using assms(4) by (cases ids) (auto simp: rows_for_def)
  moreover have "\<forall>p \<in> set (rows_for (x_id y) ids). xp_expense_id p = x_id y"
    by (auto simp: rows_for_def)
  ultimately show ?thesis
    using ok new assms(3) by (auto simp: expense_ok_def) (metis new)
qed

lemma grows_create_expense: "grows (create_expense_tx row ids)"
  unfolding create_expense_tx_def
  by (intro grows_transact grows_intros grows_quiet [OF quiet_return])

lemma create_expense_tx_keeps:
  assumes "\<And>t i. x_id (row t i) = i" and "ids \<noteq> []" and "distinct ids"
  shows "keeps expense_inv (create_expense_tx row ids)"
proof (rule keepsI)
  fix w assume inv: "expense_inv w"
  have grows: "later w w'" if "later w w'" for w' using that .
  show "wp (create_expense_tx row ids) (\<lambda>_. expense_inv) (\<lambda>_. expense_inv) w"
  proof (rule wp_mono [OF wp_conj [OF create_expense_tx_spec wp_grows [OF grows_create_expense later_refl]]],
      goal_cases)
    case (1 i w')
    then have "expense_ok (db w')"
      using inv assms expense_ok_add [of "db w" "row (clock w) i" ids]
      by (force simp: expense_inv_def)
    then show ?case
      using 1 inv assms(1) by (auto simp: expense_inv_def)
  next
    case (2 e w')
    then show ?case using inv by (auto intro: expense_tables.rollback)
  qed
qed

section \<open>Deleting\<close>

lemma delete_expense_ok:
  assumes ok: "expense_ok d"
  shows "expense_ok (snd (delete_expense_row ev i d))"
proof (cases "exists_where (\<lambda>x. x_id x = i \<and> x_event_id x = ev) (expenses d)")
  case True
  then obtain y where y: "y \<in> set (expenses d)" "x_id y = i" "x_event_id y = ev" by auto
  have same: "x_id x = i \<and> x_event_id x = ev \<longleftrightarrow> x_id x = i" if "x \<in> set (expenses d)" for x
    using distinct_map_inj [of x_id "expenses d" x y] ok that y by (auto simp: expense_ok_def)
  have exps: "delete_where (\<lambda>x. x_id x = i \<and> x_event_id x = ev) (expenses d)
      = delete_where (\<lambda>x. x_id x = i) (expenses d)"
    unfolding delete_where_def using same by (intro filter_cong refl) auto
  have "\<exists>p \<in> set (participants d). xp_expense_id p = x_id x \<and> xp_expense_id p \<noteq> i"
    if "x \<in> set (expenses d)" "x_id x \<noteq> i" for x
    using ok that by (force simp: expense_ok_def)
  moreover have "\<exists>x \<in> set (expenses d). x_id x = xp_expense_id p \<and> x_id x \<noteq> i"
    if "p \<in> set (participants d)" "xp_expense_id p \<noteq> i" for p
    using ok that by (force simp: expense_ok_def)
  ultimately have "expense_ok (d\<lparr>expenses := delete_where (\<lambda>x. x_id x = i) (expenses d),
      participants := delete_where (\<lambda>p. xp_expense_id p = i) (participants d)\<rparr>)"
    using ok by (fastforce simp: expense_ok_def intro: distinct_map_delete_where)
  then show ?thesis
    using True by (simp add: delete_expense_row_def Let_def exps del: exists_where_iff)
next
  case False
  then show ?thesis using ok by (simp add: delete_expense_row_def Let_def del: exists_where_iff)
qed

lemma delete_expense_keeps:
  "keeps expense_inv (execute db_error (\<lambda>w. delete_expense_row ev i (db w)))"
proof (rule expense_tables.keeps_execute)
  fix w assume "expense_inv w"
  then show "expense_inv (w\<lparr>db := snd (delete_expense_row ev i (db w))\<rparr>)"
    using delete_expense_ok [of "db w" ev i]
    by (auto simp: expense_inv_def delete_expense_row_def Let_def split: if_splits)
qed

section \<open>The handlers\<close>

lemma quiet_expense_reads [quiet_intros]:
  "quiet (fetch_event_expenses_by_ids ids)" "quiet (fetch_event_expense_view i)"
  "quiet (fetch_event_expenses ev pg)" "quiet (fetch_event_member_directory ev)"
  "quiet (check_expense ev u p)" "quiet (list_event_expenses req ev q)"
  "quiet (extract_active_claims_from_auth req)"
proof -
  show 1: "quiet (fetch_event_expenses_by_ids ids)" for ids
    unfolding fetch_event_expenses_by_ids_def by (intro quiet_intros)
  have case_list: "quiet (case vs of [] \<Rightarrow> m | v # x \<Rightarrow> f v x)"
    if "quiet m" "\<And>v x. quiet (f v x)" for vs :: "expense_view list" and m :: "'z act" and f
    using that by (simp split: list.split)
  show "quiet (fetch_event_expense_view i)"
    unfolding fetch_event_expense_view_def by (intro quiet_intros 1 case_list)
  show 2: "quiet (fetch_event_expenses ev pg)" for ev pg
    unfolding fetch_event_expenses_def by (intro quiet_intros 1)
  show 3: "quiet (fetch_event_member_directory ev)" for ev
    unfolding fetch_event_member_directory_def by (intro quiet_intros)
  show "quiet (check_expense ev u p)"
    unfolding check_expense_def Let_def by (intro quiet_intros 3)
  show "quiet (list_event_expenses req ev q)"
    unfolding list_event_expenses_def by (intro quiet_intros 2)
  show "quiet (extract_active_claims_from_auth req)"
    by (rule quiet_extract_active_claims)
qed

lemma check_expense_spec:
  "wp (check_expense ev u p)
     (\<lambda>(title, payer, ids) w'. same_data w w' \<and> title = trim (el_title p) \<and> title \<noteq> [] \<and> 0 < el_amount_cents p
        \<and> ids \<noteq> [] \<and> distinct ids \<and> set ids = set (el_participant_user_ids p)
        \<and> payer \<in> u_id ` set (member_directory ev (db w))
        \<and> set ids \<subseteq> u_id ` set (member_directory ev (db w)))
     (\<lambda>_ w'. same_data w w') w"
  unfolding check_expense_def Let_def fetch_event_member_directory_def
  by (auto simp: wp_simps list_all_iff)

lemma record_expense_keeps:
  assumes "ids \<noteq> []" and "distinct ids"
  shows "keeps expense_inv (record_expense ev u p (title, payer, ids))"
  unfolding record_expense_def Let_def prod.case
  by (intro keeps_intros create_expense_tx_keeps assms expense_tables.keeps_quiet quiet_now
      quiet_publish quiet_expense_reads) (simp add: new_expense_def)

lemma check_and_record_keeps:
  "keeps expense_inv (andthen (check_expense ev u p) (record_expense ev u p))"
proof (rule keepsI)
  fix w assume inv: "expense_inv w"
  have "wp (record_expense ev u p r) (\<lambda>_. expense_inv) (\<lambda>_. expense_inv) w'"
    if "same_data w w'" "snd (snd r) \<noteq> []" "distinct (snd (snd r))" for r w'
    using keepsD [OF record_expense_keeps expense_tables.inv_same_data [OF inv that(1)]] that(2,3)
    by (metis prod.collapse)
  then show "wp (andthen (check_expense ev u p) (record_expense ev u p))
      (\<lambda>_. expense_inv) (\<lambda>_. expense_inv) w"
    unfolding wp_andthen
    by (intro wp_mono [OF check_expense_spec])
      (auto split: prod.splits intro: expense_tables.inv_same_data [OF inv])
qed

lemma create_event_expense_keeps: "keeps expense_inv (create_event_expense req ev p)"
  unfolding create_event_expense_def
  by (intro check_and_record_keeps keeps_andthen expense_tables.keeps_quiet quiet_extract_active_claims
      quiet_event_helpers quiet_access)

lemma quiet_find_deletable: "quiet (find_deletable ev i u)"
  unfolding find_deletable_def Let_def by (intro quiet_intros)

lemma delete_event_expense_keeps: "keeps expense_inv (delete_event_expense req ev i)"
  unfolding delete_event_expense_def remove_expense_def
  by (intro keeps_intros delete_expense_keeps expense_tables.keeps_quiet quiet_extract_active_claims
      quiet_event_helpers quiet_access quiet_require quiet_publish quiet_find_deletable)

text \<open>What a successful request records, and that a refused one changes nothing.\<close>

definition recorded :: "world \<Rightarrow> int \<Rightarrow> int \<Rightarrow> expense_payload \<Rightarrow> int \<Rightarrow> int list \<Rightarrow> database" where
  "recorded w ev u p payer ids =
     (let i = seqs w ExpenseSeq + 1;
          date = (case el_expense_date p of Some v \<Rightarrow> v | None \<Rightarrow> clock w) in
      (db w)\<lparr>expenses := expenses (db w) @ [new_expense ev payer u (trim (el_title p))
           (el_amount_cents p) (clean_text (el_note p)) date (clock w) i],
         participants := participants (db w) @ rows_for i ids\<rparr>)"

lemma recorded_same_data:
  assumes "same_data w v"
  shows "recorded v ev u p payer ids = recorded w ev u p payer ids"
proof -
  have eqs: "db v = db w" "seqs v = seqs w" "clock v = clock w"
    using assms by (simp_all add: same_data_def)
  show ?thesis unfolding recorded_def eqs ..
qed

lemma fetch_view_after:
  assumes "x \<in> set (expenses (db w))" and "x_id x = i"
    and "exists_where (\<lambda>u. u_id u = x_paid_by x) (users (db w))"
  shows "wp (fetch_event_expense_view i) (\<lambda>_ w'. db w' = db w) (\<lambda>e w'. 500 \<le> err_status e \<and> db w' = db w) w"
proof -
  have "x \<in> set (newest_first (filter (\<lambda>x. x_id x = i) (expenses (db w))))"
    using assms(1,2) by (simp add: newest_first_def)
  then have "paid_rows [i] (db w) \<noteq> []"
    using assms(3) by (fastforce simp: paid_rows_def find_None_iff split: option.splits)
  then show ?thesis
    unfolding fetch_event_expense_view_def fetch_event_expenses_by_ids_def
    by (auto simp: wp_simps neq_Nil_conv)
qed

lemma publish_event_quiet:
  assumes "\<And>v. same_data w v \<Longrightarrow> Q () v"
  shows "wp (publish_event ev m) Q E w"
  using assms quietD [OF quiet_publish(1), of w ev m]
  by (auto simp: wp_def publish_event_def publish_json_def)

lemma record_expense_spec:
  "wp (record_expense ev u p (trim (el_title p), payer, ids))
     (\<lambda>a w'. ans_status a = 201 \<and> db w' = recorded w ev u p payer ids)
     (\<lambda>e w'. err_status e < 500 \<longrightarrow> db w' = db w) w"
proof -
  let ?row = "new_expense ev payer u (trim (el_title p)) (el_amount_cents p) (clean_text (el_note p))
    (case el_expense_date p of Some v \<Rightarrow> v | None \<Rightarrow> clock w)"
  show ?thesis
    unfolding record_expense_def prod.case Let_def wp_andthen wp_now wp_return
  proof (rule wp_mono [OF create_expense_tx_spec], goal_cases)
    case (1 i v)
    let ?x = "?row (clock w) i"
    have v: "db v = recorded w ev u p payer ids" "i = seqs w ExpenseSeq + 1"
      using 1 by (auto simp: recorded_def Let_def)
    have x: "?x \<in> set (expenses (db v))" "x_id ?x = i" "users (db v) = users (db w)"
      using v by (auto simp: recorded_def Let_def new_expense_def)
    show ?case
    proof (rule publish_event_quiet)
      fix v' assume "same_data v v'"
      then have v': "db v' = db v" by (simp add: same_data_def)
      show "wp (fetch_event_expense_view i)
          (\<lambda>x w'. ans_status (Answer 201 x) = 201 \<and> db w' = recorded w ev u p payer ids)
          (\<lambda>e w'. err_status e < 500 \<longrightarrow> db w' = db w) v'"
        by (rule wp_mono [OF fetch_view_after [of ?x]]) (use x 1 v v' in auto)
    qed
  qed simp
qed

inductive expense_step :: "world \<Rightarrow> world \<Rightarrow> bool" where
  create: "expense_step w (snd (create_event_expense req ev p w))"
| delete: "expense_step w (snd (delete_event_expense req ev i w))"
| elsewhere: "expenses (db w') = expenses (db w) \<Longrightarrow> participants (db w') = participants (db w)
    \<Longrightarrow> seqs w ExpenseSeq \<le> seqs w' ExpenseSeq \<Longrightarrow> expense_step w w'"

definition no_expenses :: "world \<Rightarrow> bool" where
  "no_expenses w \<longleftrightarrow> expenses (db w) = [] \<and> participants (db w) = [] \<and> seqs w ExpenseSeq = 0"

interpretation expense_sharing: invariant_system no_expenses expense_step expense_inv
proof
  fix w assume "no_expenses w"
  then show "expense_inv w"
    by (simp add: no_expenses_def expense_inv_def expense_ok_def)
next
  fix w w' assume "expense_inv w" and "expense_step w w'"
  from this(2,1) show "expense_inv w'"
    by (induction rule: expense_step.induct)
      (auto intro: expense_inv_mono keeps_snd create_event_expense_keeps delete_event_expense_keeps)
qed

section \<open>What the views show\<close>

definition event_views :: "world \<Rightarrow> int \<Rightarrow> page option \<Rightarrow> expense_view list" where
  "event_views w ev pg = map (make_expense_view (expense_participants w))
     (paid_rows (select_expense_ids ev pg (db w)) (db w))"

lemma expense_participants_tick [simp]: "expense_participants (tick w) = expense_participants w"
  by (simp add: expense_participants_def fun_eq_iff)

lemma paid_rows_nil [simp]: "paid_rows [] d = []"
  by (simp add: paid_rows_def newest_first_def)

lemma fetch_event_expenses_spec:
  "wp (fetch_event_expenses ev pg) (\<lambda>vs w'. same_data w w' \<and> vs = event_views w ev pg)
     (\<lambda>_ w'. same_data w w') w"
  unfolding fetch_event_expenses_def fetch_event_expenses_by_ids_def event_views_def
  by (cases "select_expense_ids ev pg (db w) = []") (auto simp: wp_simps)

text \<open>In tables whose references resolve, every expense of the event is shown once.\<close>

definition expense_refs :: "database \<Rightarrow> bool" where
  "expense_refs d \<longleftrightarrow> (\<forall>x \<in> set (expenses d). exists_where (\<lambda>u. u_id u = x_paid_by x) (users d))
     \<and> (\<forall>p \<in> set (participants d). exists_where (\<lambda>u. u_id u = xp_user_id p) (users d))"

lemma fst_paid_rows:
  assumes "expense_refs d"
  shows "map fst (paid_rows ids d) = newest_first (filter (\<lambda>x. x_id x \<in> set ids) (expenses d))"
proof -
  have "map fst (concat (map (\<lambda>x. case find (\<lambda>u. u_id u = x_paid_by x) (users d) of
      None \<Rightarrow> [] | Some u \<Rightarrow> [(x, u)]) xs)) = xs" if "set xs \<subseteq> set (expenses d)" for xs
    using that
  proof (induction xs)
    case (Cons x xs)
    then have "find (\<lambda>u. u_id u = x_paid_by x) (users d) \<noteq> None"
      using assms by (auto simp: expense_refs_def find_None_iff)
    then show ?case using Cons by auto
  qed simp
  then show ?thesis
    unfolding paid_rows_def by (auto simp: newest_first_def)
qed

lemma event_view_rows:
  assumes "expense_refs (db w)" and "expense_ok (db w)"
  shows "map xv_expense (event_views w ev None)
    = newest_first (filter (\<lambda>x. x_event_id x = ev) (expenses (db w)))"
proof -
  have "x_id x \<in> x_id ` set (filter (\<lambda>x. x_event_id x = ev) (expenses (db w))) \<longleftrightarrow> x_event_id x = ev"
    if "x \<in> set (expenses (db w))" for x
    using assms(2) that by (auto simp: expense_ok_def dest: distinct_map_inj)
  then have "filter (\<lambda>x. x_id x \<in> set (select_expense_ids ev None (db w))) (expenses (db w))
      = filter (\<lambda>x. x_event_id x = ev) (expenses (db w))"
    by (intro filter_cong refl) (simp add: select_expense_ids_def newest_first_def)
  moreover have "map xv_expense (event_views w ev None)
      = map fst (paid_rows (select_expense_ids ev None (db w)) (db w))"
    by (auto simp: event_views_def make_expense_view_def)
  ultimately show ?thesis
    by (simp add: fst_paid_rows [OF assms(1)])
qed

lemma event_view_participants:
  "v \<in> set (event_views w ev pg) \<Longrightarrow> xv_participants v = expense_participants w (x_id (xv_expense v))"
  by (auto simp: event_views_def make_expense_view_def)

lemma bearers_of_view:
  assumes "expense_refs (db w)" and "v \<in> set (event_views w ev pg)"
  shows "set (bearers v) = xp_user_id ` {p \<in> set (participants (db w)). xp_expense_id p = x_id (xv_expense v)}"
proof -
  have "ev_user_id ` set (case find (\<lambda>u. u_id u = xp_user_id p) (users (db w)) of
        None \<Rightarrow> []
      | Some u \<Rightarrow> [\<lparr>ev_user_id = u_id u, ev_handle = u_handle u, ev_avatar_url = u_avatar_url u\<rparr>])
    = {xp_user_id p}" if p: "p \<in> set (participants (db w))" for p
  proof -
    obtain u where "find (\<lambda>u. u_id u = xp_user_id p) (users (db w)) = Some u"
      using assms(1) p
      by (cases "find (\<lambda>u. u_id u = xp_user_id p) (users (db w))")
        (fastforce simp: expense_refs_def find_None_iff)+
    then show ?thesis by (auto dest: find_SomeD)
  qed
  then show ?thesis
    unfolding bearers_def event_view_participants [OF assms(2)] expense_participants_def
    by (auto simp: image_UN)
qed

lemma event_views_sound:
  assumes refs: "expense_refs (db w)" and ok: "expense_ok (db w)"
    and bound: "sum_list (map x_amount_cents (filter (\<lambda>x. x_event_id x = ev) (expenses (db w)))) < 2 ^ 63"
  shows "sound_expenses (event_views w ev None)"
    and "sum_list (map cost (event_views w ev None))
      = sum_list (map x_amount_cents (filter (\<lambda>x. x_event_id x = ev) (expenses (db w))))"
proof -
  note rows = event_view_rows [OF refs ok, of ev]
  have "map cost (event_views w ev None) = map x_amount_cents (map xv_expense (event_views w ev None))"
    by (simp add: cost_def)
  then have "mset (map cost (event_views w ev None))
      = mset (map x_amount_cents (filter (\<lambda>x. x_event_id x = ev) (expenses (db w))))"
    unfolding rows by (simp add: newest_first_def)
  then show sum: "sum_list (map cost (event_views w ev None))
      = sum_list (map x_amount_cents (filter (\<lambda>x. x_event_id x = ev) (expenses (db w))))"
    by (metis sum_mset_sum_list)
  have "0 < cost v \<and> bearers v \<noteq> []" if v: "v \<in> set (event_views w ev None)" for v
  proof -
    have "xv_expense v \<in> set (map xv_expense (event_views w ev None))" using v by simp
    then have x: "xv_expense v \<in> set (expenses (db w))"
      unfolding rows by (auto simp: newest_first_def)
    then have "set (bearers v) \<noteq> {}"
      unfolding bearers_of_view [OF refs v] using ok by (auto simp: expense_ok_def)
    then show ?thesis using ok x by (auto simp: expense_ok_def cost_def)
  qed
  then show "sound_expenses (event_views w ev None)"
    using bound sum by (simp add: sound_expenses_def)
qed

lemma distinct_members: "distinct (map u_id (users d)) \<Longrightarrow> distinct (map u_id (member_directory ev d))"
  by (simp add: member_directory_def distinct_map_filter)

lemma build_summary_spec:
  "wp (build_event_expenses_summary ev)
     (\<lambda>s w'. same_data w w' \<and> s = summarise (member_directory ev (db w)) (event_views w ev None))
     (\<lambda>_ w'. same_data w w') w"
proof -
  have views: "event_views v ev None = event_views w ev None" if "same_data w v" for v
  proof -
    have "expense_participants v = expense_participants w"
      using that by (simp add: same_data_def expense_participants_def fun_eq_iff)
    then show ?thesis
      using that by (simp add: same_data_def event_views_def)
  qed
  show ?thesis
    unfolding build_event_expenses_summary_def
  proof (rule wp_check_quiet [OF same_data_refl quiet_access(1)], goal_cases)
    case (1 _ v)
    show ?case
    proof (rule wp_check [OF 1, where P = "\<lambda>ms. ms = member_directory ev (db w)"], goal_cases)
      case 1
      then show ?case using \<open>same_data w v\<close>
        by (auto simp: fetch_event_member_directory_def wp_query same_data_def)
    next
      case (2 ms v')
      show ?case
        by (rule wp_check [OF 2(1), where P = "\<lambda>vs. vs = event_views w ev None"])
          (use 2 views [OF 2(1)] in \<open>auto intro: wp_mono [OF fetch_event_expenses_spec]\<close>)
    qed
  qed
qed

section \<open>Who may delete\<close>

definition may_delete :: "world \<Rightarrow> int \<Rightarrow> expense \<Rightarrow> int \<Rightarrow> bool" where
  "may_delete w ev x u \<longleftrightarrow> u = x_paid_by x \<or> u = x_created_by x
     \<or> (\<exists>e. live_event (db w) ev = Some e \<and> e_owner_id e = u)"

lemma find_deletable_spec:
  "wp (find_deletable ev i u)
     (\<lambda>x w'. same_data w w' \<and> x \<in> set (expenses (db w)) \<and> x_id x = i \<and> x_event_id x = ev
        \<and> may_delete w ev x u) (\<lambda>_ w'. same_data w w') w"
  unfolding find_deletable_def Let_def wp_andthen [of "events_fetch_event_owner_id ev"]
  by (rule wp_mono [OF owner_id_spec])
    (auto simp: wp_simps may_delete_def same_data_def split: option.split dest!: find_SomeD)

lemma remove_expense_spec:
  "wp (remove_expense ev i) (\<lambda>_ w'. db w' = snd (delete_expense_row ev i (db w)))
     (\<lambda>_ w'. db w' = db w) w"
proof -
  have pub: "wp (publish_event ev m) Q E v" if "\<And>v'. same_data v v' \<Longrightarrow> Q () v'" for m Q E v
    using that quietD [OF quiet_publish(1), of v ev m]
    by (auto simp: wp_def publish_event_def publish_json_def)
  have none: "snd (delete_expense_row ev i d) = d" if "fst (delete_expense_row ev i d) = 0" for d
    using that by (auto simp: delete_expense_row_def Let_def count_where_eq_0)
  show ?thesis
    unfolding remove_expense_def wp_andthen wp_execute wp_require wp_return
    by (auto simp: same_data_def none intro!: pub)
qed

lemma may_delete_same_data: "same_data w v \<Longrightarrow> may_delete v ev x u = may_delete w ev x u"
  by (simp add: may_delete_def same_data_def)

lemma user_by_email_same_data: "same_data w v \<Longrightarrow> user_by_email v e = user_by_email w e"
  by (simp add: user_by_email_def same_data_def)

lemma delete_event_expense_spec:
  "wp (delete_event_expense req ev i)
     (\<lambda>_ w'. \<exists>u x. acting w req u \<and> x \<in> set (expenses (db w)) \<and> x_id x = i \<and> x_event_id x = ev
        \<and> writable w ev \<and> may_delete w ev x u \<and> db w' = snd (delete_expense_row ev i (db w)))
     (\<lambda>_ w'. db w' = db w) w"
  unfolding delete_event_expense_def
proof (rule wp_check [OF same_data_refl, where P = "live_session w req"], goal_cases)
  case 1
  show ?case
    unfolding extract_active_claims_from_auth_def
    by (rule wp_mono [OF extract_authenticated_user_live]) auto
next
  case (2 s v)
  note s = 2(2)
  show ?case
  proof (rule wp_check_quiet [OF 2(1) quiet_event_helpers(6)], goal_cases)
    case (1 _ v)
    show ?case
    proof (rule wp_check [OF 1, where P = "\<lambda>_. writable w ev"], goal_cases)
      case 1
      then show ?case using writable_same_data [OF \<open>same_data w v\<close>]
        by (auto intro: wp_mono [OF ensure_event_writable_spec])
    next
      case (2 _ v)
      note wr = 2(2)
      show ?case
      proof (rule wp_check [OF 2(1), where P = "\<lambda>u. \<exists>r. user_by_email w (u_email s) = Some r \<and> u_id r = u"],
          goal_cases)
        case 1
        show ?case
          by (rule wp_mono [OF events_fetch_user_id_spec]) (auto simp: user_by_email_same_data [OF 2(1)])
      next
        case (2 u v)
        then have u: "acting w req u" using s by (auto simp: acting_def)
        show ?case
        proof (rule wp_check [OF 2(1), where P = "\<lambda>x. x \<in> set (expenses (db w)) \<and> x_id x = i
              \<and> x_event_id x = ev \<and> may_delete w ev x u"], goal_cases)
          case 1
          show ?case
            by (rule wp_mono [OF find_deletable_spec])
              (use 2(1) in \<open>auto simp: may_delete_same_data [OF 2(1)], auto simp: same_data_def\<close>)
        next
          case (2 x v)
          then show ?case
            using u wr by (intro wp_mono [OF remove_expense_spec]) (auto simp: same_data_def)
        qed (simp add: same_data_def)
      qed (simp add: same_data_def)
    qed (simp add: same_data_def)
  qed (simp add: same_data_def)
qed (simp add: same_data_def)

section \<open>Who may record, and what\<close>

lemma create_event_expense_spec:
  "wp (create_event_expense req ev p)
     (\<lambda>a w'. ans_status a = 201 \<and> writable w ev
        \<and> (\<exists>u payer ids. acting w req u \<and> db w' = recorded w ev u p payer ids
             \<and> trim (el_title p) \<noteq> [] \<and> 0 < el_amount_cents p
             \<and> ids \<noteq> [] \<and> distinct ids \<and> set ids = set (el_participant_user_ids p)
             \<and> insert payer (set ids) \<subseteq> u_id ` set (member_directory ev (db w))))
     (\<lambda>e w'. err_status e < 500 \<longrightarrow> db w' = db w) w"
  unfolding create_event_expense_def
proof (rule wp_check [OF same_data_refl, where P = "live_session w req"], goal_cases)
  case 1
  show ?case
    unfolding extract_active_claims_from_auth_def
    by (rule wp_mono [OF extract_authenticated_user_live]) auto
next
  case (2 s v)
  note s = 2(2)
  show ?case
  proof (rule wp_check_quiet [OF 2(1) quiet_event_helpers(6)], goal_cases)
    case (1 _ v)
    show ?case
    proof (rule wp_check [OF 1, where P = "\<lambda>_. writable w ev"], goal_cases)
      case 1
      then show ?case using writable_same_data [OF \<open>same_data w v\<close>]
        by (auto intro: wp_mono [OF ensure_event_writable_spec])
    next
      case (2 _ v)
      note wr = 2(2)
      show ?case
      proof (rule wp_check [OF 2(1), where P = "\<lambda>u. \<exists>r. user_by_email w (u_email s) = Some r \<and> u_id r = u"],
          goal_cases)
        case 1
        show ?case
          by (rule wp_mono [OF events_fetch_user_id_spec]) (auto simp: user_by_email_same_data [OF 2(1)])
      next
        case (2 u v)
        then have u: "acting w req u" using s by (auto simp: acting_def)
        note w_v = 2(1)
        show ?case
          unfolding wp_andthen
        proof (rule wp_mono [OF check_expense_spec], goal_cases)
          case (1 r v')
          obtain title payer ids where r: "r = (title, payer, ids)" by (cases r) auto
          have same: "same_data w v'" using 1 r w_v by (auto intro: same_data_trans)
          then have "recorded v' ev u p payer ids = recorded w ev u p payer ids" "db v' = db w" and dbv: "db v = db w"
            using w_v recorded_same_data by (auto simp: same_data_def)
          moreover have "title = trim (el_title p)" using 1 r by simp
          ultimately have "wp (record_expense ev u p r)
              (\<lambda>a w'. ans_status a = 201 \<and> db w' = recorded w ev u p payer ids)
              (\<lambda>e w'. err_status e < 500 \<longrightarrow> db w' = db w) v'"
            using record_expense_spec [of ev u p payer ids v'] r by simp
          moreover have "acting w req u \<and> db v' = recorded w ev u p payer ids
              \<and> trim (el_title p) \<noteq> [] \<and> 0 < el_amount_cents p \<and> ids \<noteq> [] \<and> distinct ids
              \<and> set ids = set (el_participant_user_ids p)
              \<and> insert payer (set ids) \<subseteq> u_id ` set (member_directory ev (db w))"
            if "db v' = recorded w ev u p payer ids" for v'
            using that 1 r u dbv by auto
          ultimately show ?case
            using wr by (elim wp_mono) blast+
        qed (use w_v in \<open>simp add: same_data_def\<close>)
      qed (simp add: same_data_def)
    qed (simp add: same_data_def)
  qed (simp add: same_data_def)
qed (simp add: same_data_def)

lemma expense_rejections:
  "rejects_cleanly (create_event_expense req ev p)" "rejects_cleanly (delete_event_expense req ev i)"
proof -
  show "rejects_cleanly (create_event_expense req ev p)"
    unfolding rejects_cleanly_def by (intro allI wp_mono [OF create_event_expense_spec]) auto
  show "rejects_cleanly (delete_event_expense req ev i)"
    unfolding rejects_cleanly_def by (intro allI wp_mono [OF delete_event_expense_spec]) auto
qed

end
