(* ===== verification/Account_Facts.thy ===== *)
theory Account_Facts
  imports Account Item_Facts Poll_Facts Friend_Facts Expense_Handlers Carpool_Facts
begin

text \<open>
  What a deleted account leaves behind: no row that names the user, a sound ledger of items, sound
  polls and a sound social graph, but stale seats and expenses.
\<close>

section \<open>The ledger of items\<close>

definition drop_items :: "(event_item \<Rightarrow> bool) \<Rightarrow> database \<Rightarrow> database" where
  "drop_items p d = d\<lparr>events_items := delete_where p (events_items d),
     user_items := delete_where (\<lambda>s. \<exists>r \<in> set (events_items d). p r
       \<and> is_event_item (ui_event_id s) (ui_item_id s) r) (user_items d)\<rparr>"

lemma drop_items_ok:
  assumes "ledger_rows d"
  shows "ledger_rows (drop_items p d)"
proof (rule ledger_rowsI)
  fix r assume "r \<in> set (user_items (drop_items p d))"
  then have r: "r \<in> set (user_items d)" and kept: "\<not> (\<exists>e \<in> set (events_items d). p e \<and> is_event_item (ui_event_id r) (ui_item_id r) e)"
    by (auto simp: drop_items_def)
  obtain e where "e \<in> set (events_items d)" "is_event_item (ui_event_id r) (ui_item_id r) e" "0 < ui_quantity r"
    using ledger_rowsD(3) [OF assms r] by blast
  then show "0 < ui_quantity r \<and> (\<exists>e \<in> set (events_items (drop_items p d)). is_event_item (ui_event_id r) (ui_item_id r) e)"
    using kept by (auto simp: drop_items_def)
next
  fix e assume "e \<in> set (events_items (drop_items p d))"
  then have e: "e \<in> set (events_items d)" "\<not> p e" by (auto simp: drop_items_def)
  have same: "f = e" if "f \<in> set (events_items d)" "is_event_item (ei_event_id e) (ei_item_id e) f" for f
    using ledger_rowsD(1) [OF assms] e(1) that
      distinct_map_inj [of "\<lambda>r. (ei_event_id r, ei_item_id r)" "events_items d" f e]
    by (simp add: is_event_item_def)
  have "\<not> (p f \<and> is_event_item (ei_event_id e) (ei_item_id e) f)" if "f \<in> set (events_items d)" for f
    using same [OF that] e(2) by auto
  then have "filter (\<lambda>r. ui_event_id r = ei_event_id e \<and> ui_item_id r = ei_item_id e) (user_items (drop_items p d))
      = filter (\<lambda>r. ui_event_id r = ei_event_id e \<and> ui_item_id r = ei_item_id e) (user_items d)"
    by (auto simp: drop_items_def delete_where_def intro!: filter_cong)
  then show "0 < ei_max_quantity e \<and> ei_max_quantity e < 2 ^ 31
      \<and> ei_quantity e = reserved (drop_items p d) (ei_event_id e) (ei_item_id e) \<and> ei_quantity e < 2 ^ 31"
    using ledger_rowsD(4) [OF assms e(1)] by (simp add: reserved_def)
qed (use ledger_rowsD(1,2) [OF assms] in \<open>auto simp: drop_items_def\<close>)

text \<open>The sums after the reservations of the user have gone.\<close>

definition recomputed :: "(int \<times> int) list \<Rightarrow> database \<Rightarrow> database" where
  "recomputed keys d = d\<lparr>events_items := update_where (\<lambda>e. (ei_event_id e, ei_item_id e) \<in> set keys)
     (\<lambda>e. e\<lparr>ei_quantity := reserved d (ei_event_id e) (ei_item_id e)\<rparr>) (events_items d)\<rparr>"

lemma recomputed_nil: "recomputed [] d = d"
  by (simp add: recomputed_def update_where_none)

lemma recomputed_cons:
  "recomputed keys (set_quantity a b (reserved d a b) d) = recomputed ((a, b) # keys) d"
proof -
  have "reserved (set_quantity a b (reserved d a b) d) = reserved d"
    by (simp add: reserved_def set_quantity_def fun_eq_iff)
  then have "update_where (\<lambda>e. (ei_event_id e, ei_item_id e) \<in> set keys)
      (\<lambda>e. e\<lparr>ei_quantity := reserved (set_quantity a b (reserved d a b) d) (ei_event_id e) (ei_item_id e)\<rparr>)
      (events_items (set_quantity a b (reserved d a b) d))
    = update_where (\<lambda>e. (ei_event_id e, ei_item_id e) \<in> set ((a, b) # keys))
      (\<lambda>e. e\<lparr>ei_quantity := reserved d (ei_event_id e) (ei_item_id e)\<rparr>) (events_items d)"
    by (auto simp: set_quantity_def update_where_def is_event_item_def)
  then show ?thesis by (simp add: recomputed_def set_quantity_def)
qed

lemma recompute_spec:
  "wp (for_each keys (\<lambda>key. stmt h (sum_reserved key))) (\<lambda>_ w'. db w' = recomputed keys (db w)) (\<lambda>_ _. True) w"
proof (induction keys arbitrary: w)
  case Nil
  show ?case by (simp add: recomputed_nil)
next
  case (Cons key keys)
  obtain a b where key: "key = (a, b)" by force
  have one: "wp (stmt h (sum_reserved key)) (\<lambda>_ w'. db w' = set_quantity a b (reserved (db w) a b) (db w)) (\<lambda>_ _. True) w"
    by (simp add: wp_stmt sum_reserved_def key Let_def reserved_def)
  show ?case
    unfolding for_each.simps wp_andthen
  proof (rule wp_mono [OF one], goal_cases)
    case (1 x w')
    then show ?case
      by (intro wp_mono [OF Cons.IH]) (simp_all add: key recomputed_cons)
  qed simp
qed

lemma without_user_ok:
  assumes rows: "ledger_rows d"
  shows "ledger_rows (recomputed (affected_items u d) (delete_own_reservations u d))"
proof -
  let ?d = "delete_own_reservations u d"
  let ?r = "recomputed (affected_items u d) ?d"
  have keys: "map (\<lambda>r. (ei_event_id r, ei_item_id r)) (events_items ?r) = map (\<lambda>r. (ei_event_id r, ei_item_id r)) (events_items d)"
    by (simp add: recomputed_def delete_own_reservations_def)
  have items: "user_items ?r = delete_where (\<lambda>r. ui_user_id r = u) (user_items d)"
    by (simp add: recomputed_def delete_own_reservations_def)
  have res: "reserved ?r = reserved ?d" by (simp add: reserved_def recomputed_def fun_eq_iff)
  show ?thesis
  proof (rule ledger_rowsI)
    show "distinct (map (\<lambda>r. (ei_event_id r, ei_item_id r)) (events_items ?r))"
      unfolding keys by (rule ledger_rowsD(1) [OF rows])
    show "distinct (map (\<lambda>r. (ui_user_id r, ui_event_id r, ui_item_id r)) (user_items ?r))"
      unfolding items using ledger_rowsD(2) [OF rows] by blast
  next
    fix r assume "r \<in> set (user_items ?r)"
    then have "r \<in> set (user_items d)" by (simp add: items)
    then have "0 < ui_quantity r" "(ui_event_id r, ui_item_id r) \<in> (\<lambda>r. (ei_event_id r, ei_item_id r)) ` set (events_items d)"
      using ledger_rowsD(3) [OF rows] unfolding event_item_keys by blast+
    then show "0 < ui_quantity r \<and> (\<exists>e \<in> set (events_items ?r). is_event_item (ui_event_id r) (ui_item_id r) e)"
      unfolding event_item_keys using arg_cong [OF keys, of set] by simp
  next
    fix f assume "f \<in> set (events_items ?r)"
    then obtain e where e: "e \<in> set (events_items d)"
      and f: "f = (if (ei_event_id e, ei_item_id e) \<in> set (affected_items u d)
        then e\<lparr>ei_quantity := reserved ?d (ei_event_id e) (ei_item_id e)\<rparr> else e)"
      by (auto simp: recomputed_def delete_own_reservations_def update_where_def)
    have old: "0 < ei_max_quantity e \<and> ei_max_quantity e < 2 ^ 31
        \<and> ei_quantity e = reserved d (ei_event_id e) (ei_item_id e) \<and> ei_quantity e < 2 ^ 31"
      using ledger_rowsD(4) [OF rows e] .
    have parts: "share d (u, ei_event_id e, ei_item_id e) \<ge> 0"
      using rows by (auto simp: share_def ledger_rows_def less_imp_le split: option.split dest!: find_SomeD)
    have "filter (\<lambda>r. ui_event_id r = a \<and> ui_item_id r = b) (delete_where (\<lambda>r. ui_user_id r = u) (user_items d))
        = filter (\<lambda>r. ui_event_id r = a \<and> ui_item_id r = b) (delete_where (is_reservation u a b) (user_items d))" for a b
      by (auto simp: delete_where_def is_reservation_def intro!: filter_cong)
    then have left: "reserved ?d a b = rest d u a b" for a b
      by (simp add: reserved_def delete_own_reservations_def rest_def)
    have sum: "reserved d (ei_event_id e) (ei_item_id e)
        = share d (u, ei_event_id e, ei_item_id e) + reserved ?d (ei_event_id e) (ei_item_id e)"
      unfolding left by (rule reserved_share [OF ledger_rowsD(2) [OF rows]])
    have "share d (u, ei_event_id e, ei_item_id e) = 0" if "(ei_event_id e, ei_item_id e) \<notin> set (affected_items u d)"
    proof -
      have "find (is_reservation u (ei_event_id e) (ei_item_id e)) (user_items d) = None"
        using that e by (auto simp: affected_items_def find_None_iff image_iff)
      then show ?thesis by (simp add: share_def)
    qed
    then show "0 < ei_max_quantity f \<and> ei_max_quantity f < 2 ^ 31
        \<and> ei_quantity f = reserved ?r (ei_event_id f) (ei_item_id f) \<and> ei_quantity f < 2 ^ 31"
      unfolding res f using old sum parts by auto
  qed
qed

lemma ledger_created_by:
  assumes rows: "ledger_rows d"
  shows "ledger_rows (d\<lparr>events_items := update_where p (\<lambda>r. r\<lparr>ei_created_by := None\<rparr>) (events_items d)\<rparr>)"
proof -
  let ?es = "update_where p (\<lambda>r. r\<lparr>ei_created_by := None\<rparr>) (events_items d)"
  have keys: "map (\<lambda>r. (ei_event_id r, ei_item_id r)) ?es = map (\<lambda>r. (ei_event_id r, ei_item_id r)) (events_items d)"
    by simp
  have same: "(\<exists>e \<in> set ?es. is_event_item a b e) \<longleftrightarrow> (\<exists>e \<in> set (events_items d). is_event_item a b e)" for a b
    by (rule bex_update_where) (simp add: is_event_item_def)
  have res: "reserved (d\<lparr>events_items := es\<rparr>) = reserved d" for es
    by (simp add: reserved_def fun_eq_iff)
  show ?thesis
  proof (rule ledger_rowsI)
    fix f assume "f \<in> set (events_items (d\<lparr>events_items := ?es\<rparr>))"
    then obtain e where "e \<in> set (events_items d)" "f = (if p e then e\<lparr>ei_created_by := None\<rparr> else e)"
      by (auto simp: update_where_def)
    then show "0 < ei_max_quantity f \<and> ei_max_quantity f < 2 ^ 31
      \<and> ei_quantity f = reserved (d\<lparr>events_items := ?es\<rparr>) (ei_event_id f) (ei_item_id f) \<and> ei_quantity f < 2 ^ 31"
      using ledger_rowsD(4) [OF rows, of e] by (simp add: res)
  next
    fix r assume "r \<in> set (user_items (d\<lparr>events_items := ?es\<rparr>))"
    then show "0 < ui_quantity r \<and> (\<exists>e \<in> set (events_items (d\<lparr>events_items := ?es\<rparr>)). is_event_item (ui_event_id r) (ui_item_id r) e)"
      using ledger_rowsD(3) [OF rows, of r] same by simp
  qed (use ledger_rowsD(1,2) [OF rows] keys in simp_all)
qed

lemma delete_events_items:
  assumes rows: "ledger_rows d"
  shows "ledger_rows (delete_events q d)"
    and "set (user_items (delete_events q d)) \<subseteq> set (user_items d)"
    and "set (events_items (delete_events q d)) \<subseteq> set (events_items d)"
    and "items (delete_events q d) = items d" and "item_types (delete_events q d) = item_types d"
proof -
  define evs where "evs = set (map e_id (filter q (events d)))"
  have eq: "ui_event_id s \<in> evs \<and> exists_where (is_event_item (ui_event_id s) (ui_item_id s)) (events_items d)
      \<longleftrightarrow> (\<exists>r \<in> set (events_items d). ei_event_id r \<in> evs \<and> is_event_item (ui_event_id s) (ui_item_id s) r)" for s
    unfolding exists_where_iff is_event_item_def by metis
  have "user_items (delete_events q d) = delete_where (\<lambda>s. ui_event_id s \<in> evs
      \<and> exists_where (is_event_item (ui_event_id s) (ui_item_id s)) (events_items d)) (user_items d)"
    by (simp add: delete_events_def Let_def evs_def del: exists_where_iff)
  then have "user_items (delete_events q d) = user_items (drop_items (\<lambda>r. ei_event_id r \<in> evs) d)"
    unfolding eq by (simp add: drop_items_def)
  moreover have "events_items (delete_events q d) = events_items (drop_items (\<lambda>r. ei_event_id r \<in> evs) d)"
    by (simp add: delete_events_def Let_def drop_items_def evs_def)
  ultimately have same: "user_items (delete_events q d) = user_items (drop_items (\<lambda>r. ei_event_id r \<in> evs) d)"
    "events_items (delete_events q d) = events_items (drop_items (\<lambda>r. ei_event_id r \<in> evs) d)" .
  show "ledger_rows (delete_events q d)"
    by (rule ledger_rows_tables [OF drop_items_ok [OF rows] same(2,1)])
  show "set (user_items (delete_events q d)) \<subseteq> set (user_items d)"
    "set (events_items (delete_events q d)) \<subseteq> set (events_items d)"
    unfolding same by (auto simp: drop_items_def)
  show "items (delete_events q d) = items d" "item_types (delete_events q d) = item_types d"
    by (simp_all add: delete_events_def Let_def)
qed

lemma delete_user_items_ok:
  assumes rows: "ledger_rows d" and none: "\<forall>r \<in> set (user_items d). ui_user_id r \<noteq> u"
  shows "ledger_rows (delete_user u d)"
proof -
  let ?d = "delete_events (\<lambda>e. e_owner_id e = u) d"
  have "delete_where (\<lambda>r. ui_user_id r = u) (user_items ?d) = user_items ?d"
    using none delete_events_items(2) [OF rows, of "\<lambda>e. e_owner_id e = u"] by (intro delete_where_none) auto
  then show ?thesis
    using ledger_created_by [OF delete_events_items(1) [OF rows, of "\<lambda>e. e_owner_id e = u"], of "\<lambda>r. ei_created_by r = Some u"]
    by (auto intro: ledger_rows_tables simp: delete_user_def delete_user_rows_def Let_def)
qed

section \<open>The transaction\<close>

definition erased :: "int \<Rightarrow> database \<Rightarrow> database" where
  "erased u d = (let q = queue_revocations u d in
     delete_user u (delete_brings u (recomputed (affected_items u q) (delete_own_reservations u q))))"

lemma delete_account_tx_spec:
  "wp (delete_account_tx cl)
     (\<lambda>r w'. \<exists>s. user_by_email w (u_email cl) = Some s \<and> db w' = erased (u_id s) (db w)
        \<and> \<not> needs_apple (u_id s) (db w) \<and> fst r \<noteq> None) (\<lambda>_ w'. db w' = db w) w"
  unfolding delete_account_tx_def
proof (rule wp_transact_success, goal_cases)
  case 1
  have tick: "user_by_email (tick w) = user_by_email w" for w by (simp add: user_by_email_def fun_eq_iff)
  have found: "\<exists>z. find (\<lambda>r. u_id r = u_id s) (users (db v)) = Some z" if "user_by_email v em = Some s" for v em s
    using that unfolding not_None_eq [symmetric] by (auto simp: user_by_email_def find_None_iff dest!: find_SomeD)
  have kept: "users (delete_brings u d) = users d" "users (recomputed k d) = users d"
    "users (delete_own_reservations u d) = users d" "users (queue_revocations u d) = users d" for u k d
    by (simp_all add: delete_brings_def Let_def recomputed_def delete_own_reservations_def queue_revocations_def)
  show ?case
    unfolding wp_andthen
    by (auto simp: wp_simps tick erased_def Let_def bind_eq_Some_conv kept found split: option.split
        intro!: wp_mono [OF recompute_spec])
qed simp

section \<open>What is left\<close>

lemma erased_ledger:
  assumes "ledger_rows d"
  shows "ledger_rows (erased u d)"
proof -
  let ?q = "queue_revocations u d"
  let ?r = "recomputed (affected_items u ?q) (delete_own_reservations u ?q)"
  have "ledger_rows ?q"
    by (rule ledger_rows_tables [OF assms]) (simp_all add: queue_revocations_def)
  then have rows: "ledger_rows ?r" by (rule without_user_ok)
  have drop: "delete_brings u ?r = drop_items (\<lambda>r. ei_created_by r = Some u
      \<and> exists_where (\<lambda>i. it_id i = ei_item_id r \<and> it_kind i = Bring) (items ?r)) ?r"
    by (simp add: delete_brings_def drop_items_def Let_def conj_assoc)
  have "\<forall>r \<in> set (user_items (delete_brings u ?r)). ui_user_id r \<noteq> u"
    by (auto simp: delete_brings_def Let_def recomputed_def delete_own_reservations_def)
  then show ?thesis
    using delete_user_items_ok [OF drop_items_ok [OF rows]] by (simp add: erased_def Let_def drop)
qed

lemma erased_catalogue:
  assumes "catalogue_ok d"
  shows "catalogue_ok (erased u d)"
proof -
  have "ei_item_id ` set (events_items (erased u d)) \<subseteq> ei_item_id ` set (events_items d)"
    by (auto simp: erased_def Let_def delete_user_def delete_user_rows_def delete_events_def delete_brings_def
        recomputed_def delete_own_reservations_def queue_revocations_def)
  moreover have "items (erased u d) = items d" "item_types (erased u d) = item_types d"
    by (simp_all add: erased_def Let_def delete_user_def delete_user_rows_def delete_events_def delete_brings_def
        recomputed_def delete_own_reservations_def queue_revocations_def)
  ultimately show ?thesis
    using assms by (fastforce simp: catalogue_ok_def)
qed

text \<open>The other tables are those after \<open>delete_user\<close>.\<close>

lemma erased_tables:
  "polls (erased u d) = polls (delete_user u d)" "poll_options (erased u d) = poll_options (delete_user u d)"
  "poll_votes (erased u d) = poll_votes (delete_user u d)"
  "friendships (erased u d) = friendships (delete_user u d)"
  "friend_requests (erased u d) = friend_requests (delete_user u d)"
  "user_blocks (erased u d) = user_blocks (delete_user u d)"
  by (simp_all add: erased_def Let_def delete_user_def delete_user_rows_def delete_events_def delete_brings_def
        recomputed_def delete_own_reservations_def queue_revocations_def)

lemma erased_friends:
  assumes "friend_ok d"
  shows "friend_ok (erased u d)"
proof -
  have fewer: "contact_blocked (erased u d) x y \<Longrightarrow> contact_blocked d x y" for x y
    by (auto simp: contact_blocked_def erased_tables delete_user_def delete_user_rows_def delete_events_def Let_def)
  have "friendships (erased u d) = delete_where (\<lambda>f. fs_user_a f = u \<or> fs_user_b f = u) (friendships d)"
    "friend_requests (erased u d) = delete_where (\<lambda>r. fr_sender_id r = u \<or> fr_receiver_id r = u) (friend_requests d)"
    "user_blocks (erased u d) = delete_where (\<lambda>b. ub_blocker_id b = u \<or> ub_blocked_id b = u) (user_blocks d)"
    by (simp_all add: erased_tables delete_user_def delete_user_rows_def delete_events_def Let_def)
  moreover have "friendships_ok (contact_blocked (erased u d)) (delete_where p (friendships d))" for p
    by (rule friendships_ok_mono [where b = "contact_blocked d"]) (use assms fewer in \<open>simp_all add: friend_ok_def\<close>)
  moreover have "requests_ok (contact_blocked (erased u d)) (delete_where p (friend_requests d))" for p
    by (rule requests_ok_mono [where b = "contact_blocked d"]) (use assms fewer in \<open>simp_all add: friend_ok_def\<close>)
  ultimately show ?thesis
    using assms blocks_ok_delete unfolding friend_ok_def by simp
qed

text \<open>Polls: some polls go with their options and votes, some votes go.\<close>

lemma poll_ok_subset:
  assumes ok: "poll_ok d" and pls: "pls = set (map p_id (filter g (polls d)))"
    and tables: "polls d' = update_where q (\<lambda>p. p\<lparr>p_created_by := None\<rparr>) (delete_where g (polls d))"
      "poll_options d' = delete_where (\<lambda>r. o_poll_id r \<in> pls) (poll_options d)"
      "poll_votes d' = delete_where h (poll_votes d)"
    and votes: "\<And>v. v_poll_id v \<in> pls \<Longrightarrow> h v"
  shows "poll_ok d'"
proof -
  have ids: "map p_id (polls d') = map p_id (delete_where g (polls d))"
    by (simp add: tables)
  have kept: "p_id p \<notin> pls \<longleftrightarrow> \<not> g p" if "p \<in> set (polls d)" for p
    using ok that distinct_map_inj [of p_id "polls d"] by (auto simp: pls poll_ok_def image_iff)
  have row: "\<exists>p' \<in> set (polls d). \<not> g p' \<and> p_id p = p_id p' \<and> p_allow_multiple p = p_allow_multiple p'
      \<and> p_created_at p = p_created_at p' \<and> p_expires_at p = p_expires_at p'" if "p \<in> set (polls d')" for p
  proof -
    obtain p' where "p' \<in> set (delete_where g (polls d))" "p = (if q p' then p'\<lparr>p_created_by := None\<rparr> else p')"
      using \<open>p \<in> _\<close> by (auto simp: tables update_where_def)
    then show ?thesis by (intro bexI [of _ p']) auto
  qed
  have count: "count_where (\<lambda>r. o_poll_id r = i) (poll_options d') = count_where (\<lambda>r. o_poll_id r = i) (poll_options d)"
    if "i \<notin> pls" for i
    using that by (auto simp: tables count_where_def delete_where_def intro!: arg_cong [where f = length] filter_cong)
  have "distinct (map p_id (polls d'))" "distinct (map o_id (poll_options d'))" "distinct (poll_votes d')"
    unfolding ids using ok by (auto simp: poll_ok_def tables delete_where_def distinct_map_filter)
  moreover have "\<exists>p \<in> set (polls d'). p_id p = o_poll_id r" if r: "r \<in> set (poll_options d')" for r
  proof -
    obtain p where p: "p \<in> set (polls d)" "p_id p = o_poll_id r"
      using ok r unfolding poll_ok_def tables by auto
    then have "p \<in> set (delete_where g (polls d))" using kept [OF p(1)] r by (auto simp: tables)
    then have "p_id p \<in> set (map p_id (polls d'))" unfolding ids by simp
    then show ?thesis using p by auto
  qed
  moreover have "\<exists>r \<in> set (poll_options d'). o_id r = v_option_id v \<and> o_poll_id r = v_poll_id v"
    if "v \<in> set (poll_votes d')" for v
  proof -
    have "v \<in> set (poll_votes d)" using that by (simp add: tables)
    then obtain r where "r \<in> set (poll_options d)" "o_id r = v_option_id v" "o_poll_id r = v_poll_id v"
      using ok unfolding poll_ok_def by blast
    then show ?thesis using that votes by (auto simp: tables)
  qed
  moreover have "\<forall>p \<in> set (polls d'). \<not> p_allow_multiple p \<longrightarrow> (\<forall>v \<in> set (poll_votes d'). \<forall>v' \<in> set (poll_votes d').
      v_poll_id v = p_id p \<and> v_poll_id v' = p_id p \<and> v_user_id v = v_user_id v' \<longrightarrow> v = v')"
  proof (intro ballI impI)
    fix p v v' assume p: "p \<in> set (polls d')" "\<not> p_allow_multiple p" and v: "v \<in> set (poll_votes d')" "v' \<in> set (poll_votes d')"
      and same: "v_poll_id v = p_id p \<and> v_poll_id v' = p_id p \<and> v_user_id v = v_user_id v'"
    obtain p' where "p' \<in> set (polls d)" "p_id p = p_id p'" "\<not> p_allow_multiple p'"
      using row [OF p(1)] p(2) by auto
    moreover have "v \<in> set (poll_votes d)" "v' \<in> set (poll_votes d)" using v by (auto simp: tables)
    ultimately show "v = v'" using ok same unfolding poll_ok_def by metis
  qed
  moreover have "\<forall>p \<in> set (polls d'). p_created_at p < p_expires_at p \<and> p_expires_at p \<le> p_created_at p + days 7
      \<and> count_where (\<lambda>r. o_poll_id r = p_id p) (poll_options d') \<in> {2..12}"
  proof
    fix p assume "p \<in> set (polls d')"
    then obtain p' where p': "p' \<in> set (polls d)" "\<not> g p'" "p_id p = p_id p'"
      "p_created_at p = p_created_at p'" "p_expires_at p = p_expires_at p'"
      using row by blast
    then show "p_created_at p < p_expires_at p \<and> p_expires_at p \<le> p_created_at p + days 7
        \<and> count_where (\<lambda>r. o_poll_id r = p_id p) (poll_options d') \<in> {2..12}"
      using ok kept count [of "p_id p'"] unfolding poll_ok_def by auto
  qed
  ultimately show ?thesis unfolding poll_ok_def by blast
qed

lemma delete_where_or: "delete_where p (delete_where q xs) = delete_where (\<lambda>x. q x \<or> p x) xs"
  by (auto simp: delete_where_def intro!: filter_cong)

lemma erased_polls:
  assumes "poll_ok d"
  shows "poll_ok (erased u d)"
proof -
  let ?evs = "set (map e_id (filter (\<lambda>e. e_owner_id e = u) (events d)))"
  let ?pls = "set (map p_id (filter (\<lambda>p. p_event_id p \<in> ?evs) (polls d)))"
  let ?opts = "set (map o_id (filter (\<lambda>r. o_poll_id r \<in> ?pls) (poll_options d)))"
  show ?thesis
  proof (rule poll_ok_subset [OF assms, where g = "\<lambda>p. p_event_id p \<in> ?evs" and pls = ?pls and q = "\<lambda>p. p_created_by p = Some u"
        and h = "\<lambda>v. (v_poll_id v \<in> ?pls \<or> v_option_id v \<in> ?opts) \<or> v_user_id v = u"])
    show "poll_votes (erased u d) = delete_where
        (\<lambda>v. (v_poll_id v \<in> ?pls \<or> v_option_id v \<in> ?opts) \<or> v_user_id v = u) (poll_votes d)"
      by (simp add: erased_tables delete_user_def delete_user_rows_def delete_events_def Let_def delete_where_or)
  qed (simp_all add: erased_tables delete_user_def delete_user_rows_def delete_events_def Let_def)
qed

text \<open>No row names the user.\<close>

definition forgotten :: "int \<Rightarrow> database \<Rightarrow> bool" where
  "forgotten u d \<longleftrightarrow> u \<notin> u_id ` set (users d) \<and> u \<notin> e_owner_id ` set (events d)
     \<and> u \<notin> i_user_id ` set (invitations d) \<and> u \<notin> c_driver_id ` set (carpools d)
     \<and> u \<notin> cp_user_id ` set (passengers d) \<and> u \<notin> x_paid_by ` set (expenses d)
     \<and> u \<notin> x_created_by ` set (expenses d) \<and> u \<notin> xp_user_id ` set (participants d)
     \<and> Some u \<notin> p_created_by ` set (polls d) \<and> u \<notin> v_user_id ` set (poll_votes d)
     \<and> u \<notin> fs_user_a ` set (friendships d) \<union> fs_user_b ` set (friendships d)
     \<and> u \<notin> fr_sender_id ` set (friend_requests d) \<union> fr_receiver_id ` set (friend_requests d)
     \<and> u \<notin> ub_blocker_id ` set (user_blocks d) \<union> ub_blocked_id ` set (user_blocks d)
     \<and> Some u \<notin> st_created_by ` set (share_tokens d) \<union> st_used_by ` set (share_tokens d)
     \<and> u \<notin> k_user_id ` set (checkins d) \<and> Some u \<notin> k_scanned_by ` set (checkins d)
     \<and> Some u \<notin> ei_created_by ` set (events_items d) \<and> u \<notin> ui_user_id ` set (user_items d)
     \<and> u \<notin> n_user_id ` set (outbox d) \<and> u \<notin> d_user_id ` set (user_devices d)
     \<and> u \<notin> ac_user_id ` set (apple_credentials d) \<and> u \<notin> oi_user_id ` set (oauth_identities d)
     \<and> u \<notin> ms_user_id ` set (mobile_sessions d) \<and> u \<notin> pw_user_id ` set (password_resets d)
     \<and> Some u \<notin> ab_reporter_id ` set (abuse_reports d) \<union> ab_target_id ` set (abuse_reports d)"

lemma erased_forgotten: "forgotten u (erased u d)"
proof -
  have rows: "u \<notin> e_owner_id ` set (events d) \<Longrightarrow> forgotten u (delete_user_rows u d)" for d
    unfolding forgotten_def delete_user_rows_def Let_def
    by (simp add: image_iff) (auto split: if_splits)
  have "u \<notin> e_owner_id ` set (events (delete_events (\<lambda>e. e_owner_id e = u) d))" for d
    by (auto simp: delete_events_def Let_def)
  from rows [OF this] show ?thesis by (simp add: erased_def Let_def delete_user_def)
qed

lemma checks_user [check_intros]: "checks (extract_authenticated_user req) (\<lambda>w. live_session w req)"
  using checks_session by (simp add: extract_active_claims_from_auth_def)

lemma delete_account_spec:
  "wp (delete_account req)
     (\<lambda>_ w'. \<exists>s r. live_session w req s \<and> user_by_email w (u_email s) = Some r
        \<and> \<not> needs_apple (u_id r) (db w) \<and> db w' = erased (u_id r) (db w))
     (\<lambda>_ w'. db w' = db w) w"
  unfolding delete_account_def
proof (rule wp_checked [OF checks_user same_data_refl], goal_cases)
  case (1 s v)
  have pub: "wp (for_each evs (\<lambda>ev. publish_event_type ev ty)) Q E x"
    if "\<And>x'. same_data x x' \<Longrightarrow> Q () x'" for evs ty Q E x
  proof -
    have "wp (for_each evs (\<lambda>ev. publish_event_type ev ty)) (\<lambda>_. same_data x) (\<lambda>_ _. False) x"
      by (rule wp_for_each [where I = "same_data x"])
        (auto simp: wp_def publish_event_type_def publish_event_def publish_json_def same_data_def)
    then show ?thesis by (rule wp_mono) (use that in auto)
  qed
  have v: "db v = db w" "user_by_email v = user_by_email w"
    using 1(1) by (simp_all add: same_data_def user_by_email_def fun_eq_iff)
  show ?case
    unfolding wp_andthen [of "delete_account_tx _"]
  proof (rule wp_mono [OF delete_account_tx_spec], goal_cases)
    case (1 r w')
    obtain row affected where r: "r = (row, affected)" by force
    then show ?case
      using 1 \<open>live_session w req s\<close> v
      by (auto simp: wp_simps simp: same_data_def intro!: pub wp_cleanup_avatar) (use \<open>live_session w req s\<close> in blast)+
  qed (use v in simp)
qed (simp add: same_data_def)

end
