(* ===== verification/Invitation_Facts.thy ===== *)
theory Invitation_Facts
  imports Share_Links Carpool_Facts Account_Facts Example
begin

text \<open>
  Facts about invitations: the standing of every user in every event, as a map on which inviting,
  answering and taking back are updates at one point; what a refusal gives back; and the links.
\<close>

section \<open>Standing\<close>

definition guest_ok :: "database \<Rightarrow> bool" where
  "guest_ok d \<longleftrightarrow> distinct (map (\<lambda>i. (i_event_id i, i_user_id i)) (invitations d))
     \<and> distinct (map i_id (invitations d)) \<and> distinct (map st_token_hash (share_tokens d))"

definition guest_inv :: "world \<Rightarrow> bool" where
  "guest_inv w \<longleftrightarrow> guest_ok (db w) \<and> (\<forall>i \<in> set (invitations (db w)). i_id i \<le> seqs w InvitationSeq)"

lemma guest_inv_tables:
  assumes "guest_inv w" and "invitations (db w') = invitations (db w)"
    and "share_tokens (db w') = share_tokens (db w)" and "seqs w InvitationSeq \<le> seqs w' InvitationSeq"
  shows "guest_inv w'"
  using assms by (force simp: guest_inv_def guest_ok_def)

interpretation guest_tables: table_invariant guest_inv
  by standard (erule guest_inv_tables, simp_all add: later_def)

lemma guest_inv_only_outbox: "guest_inv w \<Longrightarrow> only_outbox w w' \<Longrightarrow> guest_inv w'"
  by (erule guest_inv_tables) (simp_all add: only_outbox_tables [of w w'], simp add: only_outbox_def)

definition standing :: "database \<Rightarrow> int \<times> int \<Rightarrow> invitation_status option" where
  "standing d = (\<lambda>(ev, u). map_option i_status (find (is_invitation ev u) (invitations d)))"

lemma standing_cong: "invitations d' = invitations d \<Longrightarrow> standing d' = standing d"
  by (simp add: standing_def)

lemma find_invitation:
  assumes "guest_ok d"
  shows "find (is_invitation ev u) (invitations d) = Some i \<longleftrightarrow> i \<in> set (invitations d) \<and> is_invitation ev u i"
proof -
  have "is_invitation ev u = (\<lambda>i. i_event_id i = ev \<and> i_user_id i = u)" by (auto simp: is_invitation_def)
  then show ?thesis
    using find_Some_iff_pair [of i_event_id i_user_id "invitations d" ev u i] assms by (simp add: guest_ok_def)
qed

lemma standing_Accepted:
  assumes "guest_ok d"
  shows "standing d (ev, u) = Some Accepted \<longleftrightarrow> accepted_member d ev u"
  using find_invitation [OF assms, of ev u]
  by (auto simp: standing_def accepted_member_def is_invitation_def)

lemma find_map_invitation:
  assumes "\<And>i. is_invitation ev u (f i) = is_invitation ev u i"
  shows "find (is_invitation ev u) (map f is) = map_option f (find (is_invitation ev u) is)"
  using assms by (induction "is") auto

lemma standing_update:
  assumes "\<And>i. i_event_id (f i) = i_event_id i" and "\<And>i. i_user_id (f i) = i_user_id i"
  shows "standing (d\<lparr>invitations := update_where p f (invitations d)\<rparr>) (ev, u)
    = map_option (\<lambda>i. i_status (if p i then f i else i)) (find (is_invitation ev u) (invitations d))"
  using assms by (simp add: standing_def update_where_def find_map_invitation is_invitation_def if_distrib
      option.map_comp comp_def cong: if_cong)

lemma standing_set_one:
  assumes "\<And>i. i_event_id (f i) = i_event_id i" and "\<And>i. i_user_id (f i) = i_user_id i"
    and "\<And>i. i_status (f i) = s" and "standing d (ev, u) \<noteq> None"
  shows "standing (d\<lparr>invitations := update_where (is_invitation ev u) f (invitations d)\<rparr>) = (standing d)((ev, u) \<mapsto> s)"
proof (rule ext)
  fix key :: "int \<times> int"
  obtain a b where key: "key = (a, b)" by force
  have "is_invitation ev u i \<longleftrightarrow> (a, b) = (ev, u)" if "is_invitation a b i" for i
    using that by (auto simp: is_invitation_def)
  then show "standing (d\<lparr>invitations := update_where (is_invitation ev u) f (invitations d)\<rparr>) key
      = ((standing d)((ev, u) \<mapsto> s)) key"
    using assms(4) unfolding key standing_update [OF assms(1,2)]
    by (cases "find (is_invitation a b) (invitations d)") (auto simp: standing_def assms(3) dest: find_SomeD)
qed

lemma standing_append:
  assumes "standing d (i_event_id i, i_user_id i) = None"
  shows "standing (d\<lparr>invitations := invitations d @ [i]\<rparr>) = (standing d)((i_event_id i, i_user_id i) \<mapsto> i_status i)"
  using assms by (auto simp: standing_def fun_eq_iff find_append is_invitation_def split: option.split)

lemma find_delete_where:
  assumes "\<And>r. p r \<Longrightarrow> \<not> q r"
  shows "find p (delete_where q rows) = find p rows"
  using assms by (induction rows) (auto simp: delete_where_def)

lemma standing_delete:
  assumes ok: "guest_ok d" and i: "i \<in> set (invitations d)"
  shows "standing (d\<lparr>invitations := delete_where (\<lambda>r. i_id r = i_id i) (invitations d)\<rparr>)
    = (standing d)((i_event_id i, i_user_id i) := None)"
proof (rule ext)
  fix key :: "int \<times> int"
  obtain a b where key: "key = (a, b)" by force
  let ?q = "\<lambda>r. i_id r = i_id i"
  have one: "r = i" if "r \<in> set (invitations d)" "?q r" for r
    using distinct_map_inj [of i_id "invitations d" r i] ok i that by (auto simp: guest_ok_def)
  have ok': "guest_ok (d\<lparr>invitations := delete_where ?q (invitations d)\<rparr>)"
    using ok by (simp add: guest_ok_def distinct_map_delete_where)
  have "find (is_invitation a b) (delete_where ?q (invitations d)) = Some r
      \<longleftrightarrow> find (is_invitation a b) (invitations d) = Some r \<and> r \<noteq> i" for r
    using find_invitation [OF ok', of a b r] find_invitation [OF ok, of a b r] one by auto
  then have "find (is_invitation a b) (delete_where ?q (invitations d))
      = (if find (is_invitation a b) (invitations d) = Some i then None else find (is_invitation a b) (invitations d))"
    by (metis not_Some_eq)
  then show "standing (d\<lparr>invitations := delete_where ?q (invitations d)\<rparr>) key
      = ((standing d)((i_event_id i, i_user_id i) := None)) key"
    using find_invitation [OF ok, of a b i] i unfolding key standing_def by (auto simp: is_invitation_def)
qed

text \<open>The deadline turns waiting into expired.\<close>

definition late :: "int \<Rightarrow> database \<Rightarrow> int \<Rightarrow> bool" where
  "late today d ev \<longleftrightarrow> exists_where (\<lambda>e. e_id e = ev \<and> deadline_passed today e) (events d)"

definition expired_standing :: "int \<Rightarrow> database \<Rightarrow> int \<times> int \<Rightarrow> invitation_status option" where
  "expired_standing today d = (\<lambda>(ev, u).
     if standing d (ev, u) = Some Waiting \<and> late today d ev then Some Expired else standing d (ev, u))"

lemma standing_expire: "standing (expire_invitations today d) = expired_standing today d"
proof (rule ext)
  fix key :: "int \<times> int"
  obtain ev u where key: "key = (ev, u)" by force
  have late: "exists_where (\<lambda>e. e_id e = ev \<and> (case e_invitation_deadline e of None \<Rightarrow> False | Some dl \<Rightarrow> today > dl)) (events d)
      = late today d ev" for ev
    by (simp add: late_def deadline_passed_def)
  have ev: "i_event_id i = ev" if "find (is_invitation ev u) (invitations d) = Some i" for i
    using find_SomeD [OF that] by (simp add: is_invitation_def)
  let ?f = "\<lambda>i. i\<lparr>i_status := Expired\<rparr>"
  have upd: "standing (d\<lparr>invitations := update_where p ?f (invitations d)\<rparr>) (ev, u)
      = map_option (\<lambda>i. i_status (if p i then ?f i else i)) (find (is_invitation ev u) (invitations d))" for p
    by (rule standing_update) simp_all
  show "standing (expire_invitations today d) key = expired_standing today d key"
    unfolding key expire_invitations_def late expired_standing_def prod.case upd
    by (cases "find (is_invitation ev u) (invitations d)") (simp_all add: standing_def ev)
qed

lemma expire_tables:
  "expire_invitations today d = d\<lparr>invitations := invitations (expire_invitations today d)\<rparr>"
  "map (\<lambda>i. (i_event_id i, i_user_id i)) (invitations (expire_invitations today d))
     = map (\<lambda>i. (i_event_id i, i_user_id i)) (invitations d)"
  "map i_id (invitations (expire_invitations today d)) = map i_id (invitations d)"
  by (simp_all add: expire_invitations_def)

lemma guest_inv_keys:
  assumes "guest_inv w"
    and "map (\<lambda>i. (i_event_id i, i_user_id i)) (invitations (db w')) = map (\<lambda>i. (i_event_id i, i_user_id i)) (invitations (db w))"
    and "map i_id (invitations (db w')) = map i_id (invitations (db w))"
    and "map st_token_hash (share_tokens (db w')) = map st_token_hash (share_tokens (db w))"
    and "seqs w InvitationSeq \<le> seqs w' InvitationSeq"
  shows "guest_inv w'"
proof -
  have "i_id ` set (invitations (db w')) = i_id ` set (invitations (db w))"
    using arg_cong [OF assms(3), of set] by simp
  then have "i_id i \<le> seqs w' InvitationSeq" if "i \<in> set (invitations (db w'))" for i
    using that assms(1,5) unfolding guest_inv_def by (fastforce dest: equalityD1)
  then show ?thesis
    using assms(1) unfolding guest_inv_def guest_ok_def assms(2-4) by simp
qed

section \<open>The guards\<close>

lemma checks_find_user [check_intros]:
  "checks (find_user_by_email email) (\<lambda>w r. r = user_by_email w (normalize_email (cfg w) email))"
  unfolding find_user_by_email_def Let_def
proof (rule checks_mono [OF checks_andthen [OF checks_get_state]])
  fix s :: world
  have "checks (query db_error (\<lambda>w. user_by_email w e)) (\<lambda>w r. r = user_by_email w e)" for e
    by (intro checks_query reads_dataI) (simp add: user_by_email_def)
  then show "checks (andthen (require (normalize_email (cfg s) email \<noteq> []) (bad_request ''invalid_email''))
      (\<lambda>_. query db_error (\<lambda>w. user_by_email w (normalize_email (cfg s) email))))
     (\<lambda>w r. r = user_by_email w (normalize_email (cfg s) email))"
    by (intro checks_mono [OF checks_andthen [OF checks_require]])
      (auto simp: stable_def user_by_email_stable)
qed (auto simp: stable_def user_by_email_stable same_data_def user_by_email_def)

lemma checks_inv_user [check_intros]:
  "checks (inv_fetch_user_by_email email) (\<lambda>w u. user_by_email w (normalize_email (cfg w) email) = Some u)"
  unfolding inv_fetch_user_by_email_def
  by (rule checks_mono [OF checks_andthen [OF checks_find_user checks_some_or]])
    (auto simp: stable_def same_data_def user_by_email_def)

section \<open>Actions that change the tables in one way\<close>

definition turns :: "(database \<Rightarrow> database) \<Rightarrow> 'a act \<Rightarrow> bool" where
  "turns f m \<longleftrightarrow> (\<forall>w. wp m (\<lambda>_ w'. same_data (w\<lparr>db := f (db w)\<rparr>) w') (\<lambda>_ _. True) w)"

lemma turns_quiet: "quiet m \<Longrightarrow> turns (\<lambda>d. d) m"
  unfolding turns_def by (auto intro: wp_quiet)

lemma turns_execute: "turns f (execute e (\<lambda>w. (g w, f (db w))))"
  by (simp add: turns_def wp_execute same_data_def)

lemma turns_andthen:
  assumes "turns g m" and "\<And>x. turns f (k x)"
  shows "turns (\<lambda>d. f (g d)) (andthen m k)"
  unfolding turns_def wp_andthen
proof
  fix w
  show "wp m (\<lambda>x. wp (k x) (\<lambda>_ w'. same_data (w\<lparr>db := f (g (db w))\<rparr>) w') (\<lambda>_ _. True)) (\<lambda>_ _. True) w"
  proof (rule wp_mono [OF assms(1) [unfolded turns_def, rule_format]])
    fix x v assume v: "same_data (w\<lparr>db := g (db w)\<rparr>) v"
    show "wp (k x) (\<lambda>_ w'. same_data (w\<lparr>db := f (g (db w))\<rparr>) w') (\<lambda>_ _. True) v"
      by (rule wp_mono [OF assms(2) [unfolded turns_def, rule_format]]) (use v in \<open>auto simp: same_data_def\<close>)
  qed simp
qed

lemma turns_query:
  assumes "\<And>x. turns (f x) (k x)"
  shows "turns (\<lambda>d. f (g d) d) (andthen (query e (\<lambda>w. g (db w))) k)"
  unfolding turns_def wp_andthen wp_query
proof (intro allI)
  fix w
  have "wp (k (g (db w))) (\<lambda>_. same_data ((tick w)\<lparr>db := f (g (db w)) (db w)\<rparr>)) (\<lambda>_ _. True) (tick w)"
    using assms [of "g (db w)", unfolded turns_def, rule_format, of "tick w"] by simp
  then have "wp (k (g (db w))) (\<lambda>_. same_data (w\<lparr>db := f (g (db w)) (db w)\<rparr>)) (\<lambda>_ _. True) (tick w)"
    by (rule wp_mono) (simp_all add: same_data_def)
  then show "if fault w then True else wp (k (g (db (tick w))))
      (\<lambda>_. same_data (w\<lparr>db := f (g (db w)) (db w)\<rparr>)) (\<lambda>_ _. True) (tick w)"
    by simp
qed

lemma turns_for_each:
  assumes "\<And>x. turns (f x) (k x)"
  shows "turns (\<lambda>d. fold f xs d) (for_each xs k)"
proof (induction xs)
  case Nil
  show ?case by (simp add: turns_quiet [OF quiet_return])
next
  case (Cons x xs)
  show ?case using turns_andthen [OF assms Cons] by simp
qed

lemma turns_wp:
  assumes "turns f m" and "\<And>x v. same_data (w\<lparr>db := f (db w)\<rparr>) v \<Longrightarrow> Q x v"
  shows "wp m Q (\<lambda>_ _. True) w"
  by (rule wp_mono [OF assms(1) [unfolded turns_def, rule_format]]) (auto intro: assms(2))

section \<open>Giving back what was reserved\<close>

definition returned :: "int \<Rightarrow> int \<Rightarrow> database \<Rightarrow> database" where
  "returned ev u d = (fold (lower_quantity ev) (filter (is_own_reservation ev u) (user_items d)) d)
     \<lparr>user_items := delete_where (is_own_reservation ev u) (user_items d)\<rparr>"

lemma lower_quantity_frame:
  "fold (lower_quantity ev) rs d = d\<lparr>events_items := events_items (fold (lower_quantity ev) rs d)\<rparr>"
proof (induction rs arbitrary: d)
  case (Cons r rs)
  from Cons [of "lower_quantity ev r d"] show ?case by (simp add: lower_quantity_def)
qed simp

lemma lower_quantity_user_items [simp]: "user_items (fold (lower_quantity ev) rs d) = user_items d"
  by (subst lower_quantity_frame) simp

lemma turns_return_reservations: "turns (returned ev u) (return_reservations ev u)"
proof -
  let ?rs = "\<lambda>d. filter (is_own_reservation ev u) (user_items d)"
  let ?del = "\<lambda>d. d\<lparr>user_items := delete_where (is_own_reservation ev u) (user_items d)\<rparr>"
  have "turns (\<lambda>d. ?del (fold (lower_quantity ev) rs d)) (andthen
      (for_each rs (\<lambda>r. execute db_error (\<lambda>w. ((), lower_quantity ev r (db w)))))
      (\<lambda>_. execute db_error (\<lambda>w. ((), ?del (db w)))))" for rs
    by (rule turns_andthen [OF turns_for_each [OF turns_execute] turns_execute])
  from turns_query [of "\<lambda>rs d. ?del (fold (lower_quantity ev) rs d)", OF this, of ?rs]
  show ?thesis unfolding return_reservations_def returned_def by simp
qed

text \<open>A loop of updates is one update.\<close>

definition lowered :: "int \<Rightarrow> user_item list \<Rightarrow> event_item \<Rightarrow> event_item" where
  "lowered ev rs e = (if ei_event_id e = ev
     then e\<lparr>ei_quantity := ei_quantity e - sum_list (map ui_quantity (filter (\<lambda>r. ui_item_id r = ei_item_id e) rs))\<rparr>
     else e)"

lemma sum_quantity_nonneg:
  "(\<And>r. r \<in> set rs \<Longrightarrow> 0 < ui_quantity r) \<Longrightarrow> 0 \<le> sum_list (map ui_quantity (filter p rs))"
  by (induction rs) (auto simp: add_nonneg_nonneg order_less_imp_le)

lemma fold_lower_quantity:
  assumes "\<And>r. r \<in> set rs \<Longrightarrow> 0 < ui_quantity r"
    and "\<And>e. e \<in> set (events_items d) \<Longrightarrow> ei_event_id e = ev \<Longrightarrow>
      sum_list (map ui_quantity (filter (\<lambda>r. ui_item_id r = ei_item_id e) rs)) \<le> ei_quantity e"
  shows "events_items (fold (lower_quantity ev) rs d) = map (lowered ev rs) (events_items d)"
  using assms
proof (induction rs arbitrary: d)
  case Nil
  then show ?case by (simp add: lowered_def map_idI)
next
  case (Cons r rs)
  have pos: "\<And>r. r \<in> set rs \<Longrightarrow> 0 < ui_quantity r" and r: "0 < ui_quantity r" using Cons.prems(1) by auto
  let ?d = "lower_quantity ev r d"
  let ?g = "\<lambda>e. if is_event_item ev (ui_item_id r) e then e\<lparr>ei_quantity := max (ei_quantity e - ui_quantity r) 0\<rparr> else e"
  have items: "events_items ?d = map ?g (events_items d)"
    by (simp add: lower_quantity_def update_where_def)
  have bound: "sum_list (map ui_quantity (filter (\<lambda>r. ui_item_id r = ei_item_id (?g e)) rs)) \<le> ei_quantity (?g e)
      \<and> lowered ev rs (?g e) = lowered ev (r # rs) e"
    if e: "e \<in> set (events_items d)" and ev: "ei_event_id e = ev" for e
  proof -
    let ?s = "sum_list (map ui_quantity (filter (\<lambda>r. ui_item_id r = ei_item_id e) rs))"
    have "0 \<le> ?s" by (rule sum_quantity_nonneg [OF pos])
    moreover have "max (ei_quantity e - ui_quantity r) 0 = ei_quantity e - ui_quantity r"
      if "ui_quantity r + ?s \<le> ei_quantity e"
      using that \<open>0 \<le> ?s\<close> by simp
    ultimately show ?thesis
      using Cons.prems(2) [OF e ev] ev
      by (cases "ui_item_id r = ei_item_id e") (simp_all add: lowered_def is_event_item_def)
  qed
  have "events_items (fold (lower_quantity ev) rs ?d) = map (lowered ev rs) (events_items ?d)"
  proof (rule Cons.IH [OF pos])
    fix e assume "e \<in> set (events_items ?d)" "ei_event_id e = ev"
    moreover obtain e0 where e0: "e0 \<in> set (events_items d)" "e = ?g e0"
      using \<open>e \<in> set (events_items ?d)\<close> unfolding items by auto
    moreover have "ei_event_id (?g e0) = ei_event_id e0" by simp
    ultimately have "ei_event_id e0 = ev" by metis
    from bound [OF e0(1) this]
    show "sum_list (map ui_quantity (filter (\<lambda>r. ui_item_id r = ei_item_id e) rs)) \<le> ei_quantity e"
      unfolding e0(2) by (rule conjunct1)
  qed
  also have "\<dots> = map (lowered ev (r # rs)) (events_items d)"
    unfolding items map_map comp_def
  proof (rule map_cong [OF refl])
    fix e assume e: "e \<in> set (events_items d)"
    show "lowered ev rs (?g e) = lowered ev (r # rs) e"
    proof (cases "ei_event_id e = ev")
      case True
      show ?thesis by (rule conjunct2 [OF bound [OF e True]])
    next
      case False
      then show ?thesis by (simp add: lowered_def is_event_item_def)
    qed
  qed
  finally show ?case by simp
qed


lemma sum_filter_split:
  "sum_list (map f (filter p xs)) = sum_list (map f (filter (\<lambda>x. p x \<and> q x) xs)) + sum_list (map f (filter (\<lambda>x. p x \<and> \<not> q x) xs))"
  for f :: "'a \<Rightarrow> int"
  by (induction xs) auto

lemma own_sum:
  "sum_list (map ui_quantity (filter (\<lambda>r. ui_item_id r = it) (filter (is_own_reservation ev u) (user_items d))))
    + sum_list (map ui_quantity (filter (\<lambda>r. ui_event_id r = ev \<and> ui_item_id r = it)
        (delete_where (is_own_reservation ev u) (user_items d)))) = reserved d ev it"
proof -
  let ?p = "\<lambda>r. ui_event_id r = ev \<and> ui_item_id r = it" and ?q = "is_own_reservation ev u"
  have own: "filter (\<lambda>r. ui_item_id r = it) (filter ?q rs) = filter (\<lambda>r. ?p r \<and> ?q r) rs" for rs
    unfolding filter_filter by (rule filter_cong) (auto simp: is_own_reservation_def)
  have other: "filter ?p (delete_where ?q rs) = filter (\<lambda>r. ?p r \<and> \<not> ?q r) rs" for rs
    unfolding delete_where_def filter_filter by (rule filter_cong) auto
  show ?thesis
    unfolding reserved_def own other by (rule sum_filter_split [symmetric])
qed

lemma returned_tables:
  assumes ok: "ledger_rows d"
  shows "returned ev u d = d\<lparr>events_items := map (lowered ev (filter (is_own_reservation ev u) (user_items d))) (events_items d),
      user_items := delete_where (is_own_reservation ev u) (user_items d)\<rparr>"
proof -
  let ?rs = "filter (is_own_reservation ev u) (user_items d)"
  have pos: "0 < ui_quantity r" if "r \<in> set (user_items d)" for r
    using ledger_rowsD(3) [OF ok that] by blast
  have nonneg: "0 \<le> sum_list (map ui_quantity (filter p (delete_where q (user_items d))))" for p q
    by (rule sum_quantity_nonneg) (auto intro: pos)
  have "events_items (fold (lower_quantity ev) ?rs d) = map (lowered ev ?rs) (events_items d)"
  proof (rule fold_lower_quantity)
    fix e assume e: "e \<in> set (events_items d)" "ei_event_id e = ev"
    have "ei_quantity e = reserved d ev (ei_item_id e)" using ledger_rowsD(4) [OF ok e(1)] e(2) by blast
    then show "sum_list (map ui_quantity (filter (\<lambda>r. ui_item_id r = ei_item_id e) ?rs)) \<le> ei_quantity e"
      using own_sum [where d = d and it = "ei_item_id e" and ev = ev and u = u]
        nonneg [of "\<lambda>r. ui_event_id r = ev \<and> ui_item_id r = ei_item_id e" "is_own_reservation ev u"] by linarith
  qed (simp add: pos)
  then show ?thesis
    unfolding returned_def by (subst lower_quantity_frame) simp
qed

lemma returned_ledger:
  assumes ok: "ledger_rows d"
  shows "ledger_rows (returned ev u d)"
proof -
  let ?rs = "filter (is_own_reservation ev u) (user_items d)"
  let ?g = "lowered ev ?rs"
  let ?d = "d\<lparr>events_items := map ?g (events_items d), user_items := delete_where (is_own_reservation ev u) (user_items d)\<rparr>"
  have g: "ei_event_id (?g e) = ei_event_id e" "ei_item_id (?g e) = ei_item_id e"
    "ei_max_quantity (?g e) = ei_max_quantity e" for e by (simp_all add: lowered_def)
  have res: "reserved ?d e' it = (if e' = ev
      then reserved d ev it - sum_list (map ui_quantity (filter (\<lambda>r. ui_item_id r = it) ?rs))
      else reserved d e' it)" for e' it
  proof (cases "e' = ev")
    case True
    then show ?thesis using own_sum [where d = d and it = it and ev = ev and u = u] by (simp add: reserved_def)
  next
    case False
    have "filter (\<lambda>r. ui_event_id r = e' \<and> ui_item_id r = it) (delete_where (is_own_reservation ev u) (user_items d))
        = filter (\<lambda>r. ui_event_id r = e' \<and> ui_item_id r = it) (user_items d)"
      unfolding delete_where_def filter_filter using False by (intro filter_cong) (auto simp: is_own_reservation_def)
    then show ?thesis using False by (simp add: reserved_def)
  qed
  have "ledger_rows ?d"
  proof (rule ledger_rowsI)
    show "distinct (map (\<lambda>r. (ei_event_id r, ei_item_id r)) (events_items ?d))"
      using ledger_rowsD(1) [OF ok] by (simp add: comp_def g)
    show "distinct (map (\<lambda>r. (ui_user_id r, ui_event_id r, ui_item_id r)) (user_items ?d))"
      using ledger_rowsD(2) [OF ok] by (simp add: distinct_map_delete_where)
    fix r assume "r \<in> set (user_items ?d)"
    then have "r \<in> set (user_items d)" by simp
    from ledger_rowsD(3) [OF ok this]
    show "0 < ui_quantity r \<and> (\<exists>e \<in> set (events_items ?d). is_event_item (ui_event_id r) (ui_item_id r) e)"
      by (auto simp: is_event_item_def g)
  next
    fix e assume "e \<in> set (events_items ?d)"
    then obtain e0 where e0: "e0 \<in> set (events_items d)" "e = ?g e0" by auto
    have nonneg: "0 \<le> sum_list (map ui_quantity (filter p ?rs))" for p
      by (rule sum_quantity_nonneg) (use ledger_rowsD(3) [OF ok] in auto)
    from ledger_rowsD(4) [OF ok e0(1)] nonneg [of "\<lambda>r. ui_item_id r = ei_item_id e0"]
    show "0 < ei_max_quantity e \<and> ei_max_quantity e < 2 ^ 31
        \<and> ei_quantity e = reserved ?d (ei_event_id e) (ei_item_id e) \<and> ei_quantity e < 2 ^ 31"
      unfolding e0(2) g res by (auto simp: lowered_def)
  qed
  then show ?thesis unfolding returned_tables [OF ok] .
qed

lemma returned_share:
  "share (returned ev u d) = (\<lambda>(u', ev', it). if u' = u \<and> ev' = ev then 0 else share d (u', ev', it))"
proof (rule ext, clarify)
  fix u' ev' it
  have items: "user_items (returned ev u d) = delete_where (is_own_reservation ev u) (user_items d)"
    by (simp add: returned_def)
  show "share (returned ev u d) (u', ev', it) = (if u' = u \<and> ev' = ev then 0 else share d (u', ev', it))"
  proof (cases "u' = u \<and> ev' = ev")
    case True
    then have "find (is_reservation u' ev' it) (delete_where (is_own_reservation ev u) (user_items d)) = None"
      by (auto simp: find_None_iff is_reservation_def is_own_reservation_def)
    then show ?thesis using True by (simp add: share_def items)
  next
    case False
    then have "find (is_reservation u' ev' it) (delete_where (is_own_reservation ev u) (user_items d))
        = find (is_reservation u' ev' it) (user_items d)"
      by (intro find_delete_where) (auto simp: is_reservation_def is_own_reservation_def)
    then show ?thesis using False by (auto simp: share_def items)
  qed
qed

end
