(* ===== verification/Refusal_Facts.thy ===== *)
theory Refusal_Facts
  imports Invitation_Facts
begin

text \<open>
  What an answer to an invitation does to the tables.  A refusal gives back every reservation of the
  guest in the event and ends the guest's role in its carpools; it keeps the ledger of the items and
  the count of the seats.
\<close>

section \<open>Carpools up to the columns that matter\<close>

definition seat_columns :: "carpool \<Rightarrow> int \<times> int \<times> int \<times> int \<times> int" where
  "seat_columns c = (c_id c, c_event_id c, c_driver_id c, c_seats_total c, c_seats_taken c)"

lemma carpool_ok_columns:
  "carpool_ok d \<longleftrightarrow> (let cs = map seat_columns (carpools d) in
     distinct (map fst cs) \<and> distinct (map (\<lambda>(i, ev, u, _). (ev, u)) cs)
     \<and> distinct (map (\<lambda>p. (cp_event_id p, cp_user_id p)) (passengers d))
     \<and> (\<forall>(i, ev, u, total, taken) \<in> set cs. 0 < total \<and> taken \<le> total
          \<and> taken = int (count_where (\<lambda>p. cp_carpool_id p = i) (passengers d)))
     \<and> (\<forall>p \<in> set (passengers d). (\<exists>(i, ev, _) \<in> set cs. i = cp_carpool_id p \<and> ev = cp_event_id p)
          \<and> (\<forall>(i, ev, u, _) \<in> set cs. ev = cp_event_id p \<longrightarrow> u \<noteq> cp_user_id p)))"
  by (simp add: carpool_ok_def seats_counted_def seated_def seat_columns_def comp_def)

lemma role_of_columns:
  "role_of d (ev, u) = (case find (\<lambda>(i, e, v, _). e = ev \<and> v = u) (map seat_columns (carpools d)) of
       Some c \<Rightarrow> Some (Drives (fst c))
     | None \<Rightarrow> map_option (\<lambda>p. Rides (cp_carpool_id p))
         (find (\<lambda>p. cp_event_id p = ev \<and> cp_user_id p = u) (passengers d)))"
proof -
  have "find (\<lambda>(i, e, v, _). e = ev \<and> v = u) (map seat_columns cs)
      = map_option seat_columns (find (\<lambda>c. c_event_id c = ev \<and> c_driver_id c = u) cs)" for cs
    by (induction cs) (auto simp: seat_columns_def)
  then show ?thesis by (auto simp: role_of_def seat_columns_def split: option.split)
qed

lemma same_columns:
  assumes "map seat_columns (carpools d') = map seat_columns (carpools d)" and "passengers d' = passengers d"
  shows "carpool_ok d' = carpool_ok d" and "role_of d' = role_of d"
proof -
  show "carpool_ok d' = carpool_ok d" by (simp add: carpool_ok_columns assms)
  have "role_of d' (ev, u) = role_of d (ev, u)" for ev u
    unfolding role_of_columns assms ..
  then show "role_of d' = role_of d" by auto
qed

section \<open>Leaving the carpools of an event\<close>

definition unseated :: "int \<Rightarrow> int \<Rightarrow> database \<Rightarrow> database" where
  "unseated i u d = d\<lparr>
     passengers := delete_where (\<lambda>p. cp_carpool_id p = i \<and> cp_user_id p = u) (passengers d),
     carpools := update_where (\<lambda>c. c_id c = i) (\<lambda>c. c\<lparr>c_seats_taken := max (c_seats_taken c - 1) 0\<rparr>) (carpools d)\<rparr>"

lemma unseated_leaves:
  assumes ok: "carpool_ok d" and rides: "role_of d (ev, u) = Some (Rides i)"
  shows "carpool_ok (unseated i u d)" and "role_of (unseated i u d) = (role_of d)((ev, u) := None)"
proof -
  obtain p where p: "p \<in> set (passengers d)" "cp_carpool_id p = i" "cp_event_id p = ev"
    using rides unfolding role_Rides [OF ok] by blast
  from carpool_okD(5) [OF ok p(1)] obtain c where c: "c \<in> set (carpools d)" "c_id c = i" "c_event_id c = ev"
    using p by (auto simp: seated_def)
  have rides_c: "role_of d (c_event_id c, u) = Some (Rides (c_id c))" using rides c by simp
  have cols: "map seat_columns (carpools (unseated i u d)) = map seat_columns (carpools (after_leave 0 c u d))"
    "passengers (unseated i u d) = passengers (after_leave 0 c u d)"
    by (simp_all add: unseated_def after_leave_def update_where_def seat_columns_def c)
  show "carpool_ok (unseated i u d)"
    unfolding same_columns(1) [OF cols] by (rule after_leave_ok [OF ok c(1) rides_c])
  show "role_of (unseated i u d) = (role_of d)((ev, u) := None)"
    unfolding same_columns(2) [OF cols] using after_leave_roles [OF ok c(1) rides_c] by (simp add: c)
qed

lemma driver_carpool_role:
  assumes "carpool_ok d"
  shows "driver_carpool ev u d = Some i \<longleftrightarrow> role_of d (ev, u) = Some (Drives i)"
proof -
  have "(\<lambda>c. c_driver_id c = u \<and> c_event_id c = ev) = (\<lambda>c. c_event_id c = ev \<and> c_driver_id c = u)" by auto
  then have "driver_carpool ev u d = map_option c_id (find (\<lambda>c. c_event_id c = ev \<and> c_driver_id c = u) (carpools d))"
    unfolding driver_carpool_def by (rule arg_cong)
  then show ?thesis by (auto simp: role_of_def split: option.split)
qed

lemma passenger_carpool_role:
  assumes ok: "carpool_ok d"
  shows "passenger_carpool ev u d = Some i \<Longrightarrow> role_of d (ev, u) = Some (Rides i)"
    and "passenger_carpool ev u d = None \<Longrightarrow> role_of d (ev, u) \<noteq> Some (Rides j)"
proof -
  have event: "(\<exists>c \<in> set (carpools d). c_id c = cp_carpool_id p \<and> c_event_id c = ev) \<longleftrightarrow> cp_event_id p = ev"
    if p: "p \<in> set (passengers d)" for p
    using carpool_okD(5) [OF ok p] passenger_event [OF ok _ p] unfolding seated_def by metis
  show "role_of d (ev, u) = Some (Rides i)" if "passenger_carpool ev u d = Some i"
  proof -
    from that obtain p where "find (\<lambda>p. cp_user_id p = u
        \<and> exists_where (\<lambda>c. c_id c = cp_carpool_id p \<and> c_event_id c = ev) (carpools d)) (passengers d) = Some p"
      and i: "cp_carpool_id p = i"
      unfolding passenger_carpool_def by blast
    from find_SomeD [OF this(1)] i event [of p] show ?thesis
      unfolding role_Rides [OF ok] exists_where_iff by blast
  qed
  show "role_of d (ev, u) \<noteq> Some (Rides j)" if "passenger_carpool ev u d = None"
    using that event unfolding passenger_carpool_def role_Rides [OF ok] map_option_is_None find_None_iff exists_where_iff
    by blast
qed

definition left_carpools :: "int \<Rightarrow> int \<Rightarrow> database \<Rightarrow> database" where
  "left_carpools ev u d =
     (let d1 = (case driver_carpool ev u d of None \<Rightarrow> d | Some i \<Rightarrow> delete_carpool_row i d) in
      case passenger_carpool ev u d1 of None \<Rightarrow> d1 | Some i \<Rightarrow> unseated i u d1)"

text \<open>The guest's own role ends; with a driver's, the roles of the passengers.\<close>

definition without_role :: "int \<times> int \<Rightarrow> (int \<times> int \<Rightarrow> role option) \<Rightarrow> int \<times> int \<Rightarrow> role option" where
  "without_role key f = (case f key of Some (Drives i) \<Rightarrow> drop_roles i \<circ> f | _ \<Rightarrow> f(key := None))"

lemma left_carpools_spec:
  assumes ok: "carpool_ok d"
  shows "carpool_ok (left_carpools ev u d) \<and> role_of (left_carpools ev u d) = without_role (ev, u) (role_of d)"
proof (cases "driver_carpool ev u d")
  case (Some i)
  then have drives: "role_of d (ev, u) = Some (Drives i)" using driver_carpool_role [OF ok] by simp
  let ?d = "delete_carpool_row i d"
  have ok': "carpool_ok ?d" by (rule carpool_ok_delete [OF ok])
  have gone: "role_of ?d (ev, u) = None" using drives by (simp add: deleted_roles [OF ok] drop_roles_def)
  have "passenger_carpool ev u ?d = None"
    using passenger_carpool_role(1) [OF ok', of ev u] gone by (cases "passenger_carpool ev u ?d") auto
  then show ?thesis
    using Some ok' drives by (simp add: left_carpools_def deleted_roles [OF ok] without_role_def)
next
  case None
  then have no_drive: "role_of d (ev, u) \<noteq> Some (Drives i)" for i
    using driver_carpool_role [OF ok, of ev u i] by simp
  show ?thesis
  proof (cases "passenger_carpool ev u d")
    case (Some i)
    have rides: "role_of d (ev, u) = Some (Rides i)" by (rule passenger_carpool_role(1) [OF ok Some])
    then show ?thesis
      using None Some unseated_leaves [OF ok rides] by (simp add: left_carpools_def without_role_def)
  next
    case none: None
    have "role_of d (ev, u) = None"
      using no_drive passenger_carpool_role(2) [OF ok none] by (metis not_Some_eq role.exhaust)
    then show ?thesis using None none ok by (simp add: left_carpools_def without_role_def fun_upd_idem)
  qed
qed

lemma left_carpools_frame: "left_carpools ev u d
    = d\<lparr>carpools := carpools (left_carpools ev u d), passengers := passengers (left_carpools ev u d)\<rparr>"
  by (simp add: left_carpools_def Let_def delete_carpool_row_def unseated_def split: option.split)

lemma turns_cong: "turns f m \<Longrightarrow> (\<And>d. f d = g d) \<Longrightarrow> turns g m"
  by (simp add: turns_def)

lemma turns_two_and_tell:
  assumes "\<And>d. g (f d) = h d"
  shows "turns h (andthen (execute e (\<lambda>w. ((), f (db w)))) (\<lambda>_. andthen (execute e (\<lambda>w. ((), g (db w)))) (\<lambda>_. publish_event ev m)))"
  by (rule turns_cong [OF turns_andthen [OF turns_execute turns_andthen [OF turns_execute turns_quiet [OF quiet_publish(1)]]]])
    (rule assms)

lemma turns_drop_own_carpool: "turns (delete_carpool_row i) (drop_own_carpool ev i)"
  unfolding drop_own_carpool_def
  by (rule turns_two_and_tell [where f = "\<lambda>d. d\<lparr>passengers := delete_where (\<lambda>p. cp_carpool_id p = i) (passengers d)\<rparr>"
        and g = "\<lambda>d. d\<lparr>carpools := delete_where (\<lambda>c. c_id c = i) (carpools d)\<rparr>"])
    (simp add: delete_carpool_row_def)

lemma turns_give_up_seat: "turns (unseated i u) (give_up_seat ev u i)"
  unfolding give_up_seat_def
  by (rule turns_two_and_tell [where f = "\<lambda>d. d\<lparr>passengers := delete_where (\<lambda>p. cp_carpool_id p = i \<and> cp_user_id p = u) (passengers d)\<rparr>"
        and g = "\<lambda>d. d\<lparr>carpools := update_where (\<lambda>c. c_id c = i) (\<lambda>c. c\<lparr>c_seats_taken := max (c_seats_taken c - 1) 0\<rparr>) (carpools d)\<rparr>"])
    (simp add: unseated_def)

lemma grows_refusal: "grows (drop_own_carpool ev i)" "grows (give_up_seat ev u i)" "grows (return_reservations ev u)"
  unfolding drop_own_carpool_def give_up_seat_def return_reservations_def
  by (intro grows_intros grows_quiet [OF quiet_publish(1)] grows_reads)+

lemma turns_step:
  assumes "turns f m" and "grows m"
    and "\<And>x v. same_data (w\<lparr>db := f (db w)\<rparr>) v \<Longrightarrow> faults w = [] \<longrightarrow> faults v = [] \<Longrightarrow> wp (k x) Q E v"
    and "\<And>e v. E e v"
  shows "wp (andthen m k) Q E w"
  unfolding wp_andthen
proof (rule wp_mono [OF wp_conj [OF assms(1) [unfolded turns_def, rule_format] wp_grows [OF assms(2) later_refl]]], goal_cases)
  case (1 x v)
  then show ?case by (intro assms(3)) (simp_all add: later_def)
qed (rule assms(4))

lemma leave_carpools_spec:
  "wp (leave_carpools ev u)
     (\<lambda>aborted v. if aborted then faults w \<noteq> [] else same_data (w\<lparr>db := left_carpools ev u (db w)\<rparr>) v)
     (\<lambda>_ _. True) w"
proof -
  let ?Q = "\<lambda>aborted v. if aborted then faults w \<noteq> [] else same_data (w\<lparr>db := left_carpools ev u (db w)\<rparr>) v"
  have seat: "wp (andthen (attempt (query db_error (\<lambda>w. passenger_carpool ev u (db w)))) (\<lambda>passenger.
      andthen (case (Some r, passenger) of
        (Some _, Some (Some i)) \<Rightarrow> give_up_seat ev u i | _ \<Rightarrow> return ()) (\<lambda>_.
      return (Some r = None \<or> passenger = None)))) ?Q (\<lambda>_ _. True) v"
    if v: "same_data (w\<lparr>db := mid\<rparr>) v" "faults w = [] \<longrightarrow> faults v = []"
      and mid: "left_carpools ev u (db w) = (case passenger_carpool ev u mid of None \<Rightarrow> mid | Some i \<Rightarrow> unseated i u mid)"
    for v mid and r :: "int option"
  proof (cases "fault v")
    case True
    then have "faults w \<noteq> []" using v(2) fault_faults by blast
    then show ?thesis using True by (simp add: wp_simps)
  next
    case False
    have d: "db v = mid" using v(1) by (simp add: same_data_def)
    show ?thesis
    proof (cases "passenger_carpool ev u mid")
      case None
      then have "same_data (w\<lparr>db := left_carpools ev u (db w)\<rparr>) (tick v)"
        using v(1) by (simp add: mid same_data_def)
      then show ?thesis using False None by (simp add: wp_simps d)
    next
      case (Some i)
      have "wp (andthen (give_up_seat ev u i) (\<lambda>_. return False)) ?Q (\<lambda>_ _. True) (tick v)"
        by (rule turns_step [OF turns_give_up_seat grows_refusal(2)])
          (use v(1) Some in \<open>auto simp: mid d same_data_def\<close>)
      then show ?thesis using False Some by (simp add: wp_simps d)
    qed
  qed
  show ?thesis
  proof (cases "fault w")
    case True
    then have "faults w \<noteq> []" by (rule fault_faults)
    then show ?thesis using True unfolding leave_carpools_def by (simp add: wp_simps)
  next
    case False
    show ?thesis
    proof (cases "driver_carpool ev u (db w)")
      case None
      have "wp (andthen (return ()) (\<lambda>_. andthen (attempt (query db_error (\<lambda>w. passenger_carpool ev u (db w)))) (\<lambda>passenger.
      andthen (case (Some (None :: int option), passenger) of
        (Some _, Some (Some i)) \<Rightarrow> give_up_seat ev u i | _ \<Rightarrow> return ()) (\<lambda>_.
      return (Some (None :: int option) = None \<or> passenger = None))))) ?Q (\<lambda>_ _. True) (tick w)"
        unfolding wp_andthen [of "return ()"] wp_return
        by (rule seat [where mid = "db w"]) (simp_all add: left_carpools_def Let_def None same_data_def)
      then show ?thesis using False None unfolding leave_carpools_def by (simp add: wp_simps)
    next
      case (Some j)
      have "wp (andthen (drop_own_carpool ev j) (\<lambda>_. andthen (attempt (query db_error (\<lambda>w. passenger_carpool ev u (db w)))) (\<lambda>passenger.
      andthen (case (Some (Some j), passenger) of
        (Some _, Some (Some i)) \<Rightarrow> give_up_seat ev u i | _ \<Rightarrow> return ()) (\<lambda>_.
      return (Some (Some j) = None \<or> passenger = None))))) ?Q (\<lambda>_ _. True) (tick w)"
        by (rule turns_step [OF turns_drop_own_carpool grows_refusal(1)],
            rule seat [where mid = "delete_carpool_row j (db w)"])
          (auto simp: left_carpools_def Let_def Some same_data_def)
      then show ?thesis using False Some unfolding leave_carpools_def by (simp add: wp_simps)
    qed
  qed
qed

section \<open>The answer\<close>

text \<open>What an answer that is carried out does to the tables.\<close>

definition answered :: "int \<Rightarrow> int \<Rightarrow> invitation_status \<Rightarrow> database \<Rightarrow> database" where
  "answered ev u target d =
     (let d1 = set_status ev u target d in
      if target = Declined then left_carpools ev u (returned ev u d1) else d1)"

lemma respond_body_spec:
  "wp (respond_body ev u target)
     (\<lambda>(view, aborted) v. standing (db w) (ev, u) \<noteq> None \<and> standing (db w) (ev, u) \<noteq> Some Expired
        \<and> (if aborted then faults w \<noteq> [] \<and> target = Declined else same_data (w\<lparr>db := answered ev u target (db w)\<rparr>) v))
     (\<lambda>_ _. True) w"
proof -
  let ?S = "\<lambda>aborted v. if aborted then faults w \<noteq> [] \<and> target = Declined
      else same_data (w\<lparr>db := answered ev u target (db w)\<rparr>) v"
  have rest: "wp (if target = Declined
       then andthen (return_reservations ev u) (\<lambda>_. leave_carpools ev u) else return False) ?S (\<lambda>_ _. True) v"
    if v: "same_data (w\<lparr>db := set_status ev u target (db w)\<rparr>) v" "faults w = [] \<longrightarrow> faults v = []" for v
  proof (cases "target = Declined")
    case True
    have "wp (andthen (return_reservations ev u) (\<lambda>_. leave_carpools ev u)) ?S (\<lambda>_ _. True) v"
    proof (rule turns_step [OF turns_return_reservations grows_refusal(3)], goal_cases)
      case (1 x v2)
      show ?case
        by (rule wp_mono [OF leave_carpools_spec])
          (use 1 v True in \<open>auto simp: answered_def same_data_def split: if_splits\<close>)
    qed simp
    then show ?thesis using True by simp
  next
    case False
    then show ?thesis using v(1) by (simp add: answered_def)
  qed
  let ?d = "set_status ev u target (db w)"
  let ?store = "andthen (execute db_error (\<lambda>w. (answered_view ev u target (db w), set_status ev u target (db w)))) (\<lambda>res.
     andthen (some_or res (not_found ''invitation_not_found'')) (\<lambda>updated.
     andthen (if target = Declined
       then andthen (return_reservations ev u) (\<lambda>_. leave_carpools ev u) else return False) (\<lambda>aborted.
     return (updated, aborted))))"
  have store: "wp ?store (\<lambda>(view, aborted) v. ?S aborted v) (\<lambda>_ _. True) (tick w)"
  proof (cases "fault (tick w)")
    case False
    have ready: "same_data (w\<lparr>db := ?d\<rparr>) ((tick (tick w))\<lparr>db := ?d\<rparr>)" by (simp add: same_data_def)
    have "wp (andthen (if target = Declined
         then andthen (return_reservations ev u) (\<lambda>_. leave_carpools ev u) else return False) (\<lambda>aborted. return (view, aborted)))
        (\<lambda>(view, aborted) v. ?S aborted v) (\<lambda>_ _. True) ((tick (tick w))\<lparr>db := ?d\<rparr>)" for view :: invitation_view
      unfolding wp_andthen wp_return prod.case by (rule rest [OF ready]) simp
    with False show ?thesis
      unfolding wp_andthen [of "execute _ _"] wp_andthen [of "some_or _ _"] wp_execute wp_some_or
      by (cases "answered_view ev u target (db w)") (simp_all del: split_paired_All)
  qed (simp add: wp_execute wp_andthen)
  let ?row = "map_option i_status (find (is_invitation ev u) (invitations (db w)))"
  have body: "wp (respond_body ev u target) Q (\<lambda>_ _. True) w \<longleftrightarrow>
      (fault w \<or> ?row = None \<or> ?row = Some Expired \<or> wp ?store Q (\<lambda>_ _. True) (tick w))" for Q
    unfolding respond_body_def wp_andthen [of "query _ _"] wp_andthen [of "some_or _ _"] wp_andthen [of "require _ _"]
      wp_query wp_some_or wp_require
    by (cases ?row) auto
  have row: "standing (db w) (ev, u) = ?row" by (simp add: standing_def)
  show ?thesis
    unfolding body row
  proof (cases "?row = None \<or> ?row = Some Expired")
    case False
    have "wp ?store (\<lambda>(view, aborted) v. ?row \<noteq> None \<and> ?row \<noteq> Some Expired \<and> ?S aborted v) (\<lambda>_ _. True) (tick w)"
      by (rule wp_mono [OF store]) (use False in auto)
    then show "fault w \<or> ?row = None \<or> ?row = Some Expired
      \<or> wp ?store (\<lambda>(view, aborted) v. ?row \<noteq> None \<and> ?row \<noteq> Some Expired \<and> ?S aborted v) (\<lambda>_ _. True) (tick w)"
      by blast
  qed blast
qed

lemma set_status_frame [simp]:
  "events_items (set_status ev u t d) = events_items d" "user_items (set_status ev u t d) = user_items d"
  "carpools (set_status ev u t d) = carpools d" "passengers (set_status ev u t d) = passengers d"
  "items (set_status ev u t d) = items d" "item_types (set_status ev u t d) = item_types d"
  "share_tokens (set_status ev u t d) = share_tokens d"
  by (simp_all add: set_status_def)

lemma answered_frame: "answered ev u target d = d\<lparr>invitations := invitations (set_status ev u target d),
    events_items := events_items (answered ev u target d), user_items := user_items (answered ev u target d),
    carpools := carpools (answered ev u target d), passengers := passengers (answered ev u target d)\<rparr>"
proof (cases "target = Declined")
  case True
  obtain I where st: "set_status ev u target d = d\<lparr>invitations := I\<rparr>"
    by (simp add: set_status_def)
  have "\<exists>E. fold (lower_quantity ev) rs (d\<lparr>invitations := I\<rparr>) = d\<lparr>invitations := I, events_items := E\<rparr>" for rs
    by (rule exI) (rule lower_quantity_frame)
  then obtain E U where ret: "returned ev u (d\<lparr>invitations := I\<rparr>) = d\<lparr>invitations := I, events_items := E, user_items := U\<rparr>"
    unfolding returned_def by metis
  obtain C P where left: "left_carpools ev u (d\<lparr>invitations := I, events_items := E, user_items := U\<rparr>)
      = d\<lparr>invitations := I, events_items := E, user_items := U, carpools := C, passengers := P\<rparr>"
    using left_carpools_frame by blast
  show ?thesis
    unfolding answered_def Let_def if_P [OF True] st ret left by simp
next
  case False
  then show ?thesis by (simp add: answered_def set_status_def)
qed

lemma answered_tables:
  "invitations (answered ev u target d) = invitations (set_status ev u target d)"
  "items (answered ev u target d) = items d" "item_types (answered ev u target d) = item_types d"
  "share_tokens (answered ev u target d) = share_tokens d"
  by (subst answered_frame, simp)+

lemma answered_standing:
  assumes "standing d (ev, u) \<noteq> None"
  shows "standing (answered ev u target d) = (standing d)((ev, u) \<mapsto> target)"
proof -
  have "standing (answered ev u target d) = standing (set_status ev u target d)"
    by (rule standing_cong) (rule answered_tables)
  also have "\<dots> = (standing d)((ev, u) \<mapsto> target)"
    unfolding set_status_def by (rule standing_set_one) (simp_all add: assms)
  finally show ?thesis .
qed

lemma ledger_rows_cong:
  assumes "events_items d' = events_items d" and "user_items d' = user_items d"
  shows "ledger_rows d' = ledger_rows d" and "share d' = share d"
  using assms by (auto simp: ledger_rows_def reserved_def share_def)

lemma answered_ledger:
  assumes "ledger_rows d"
  shows "ledger_rows (answered ev u target d)"
    and "share (answered ev u target d) = (if target = Declined
      then (\<lambda>(u', ev', it). if u' = u \<and> ev' = ev then 0 else share d (u', ev', it)) else share d)"
proof -
  have left: "events_items (left_carpools ev u d) = events_items d" "user_items (left_carpools ev u d) = user_items d" for d
    by (subst left_carpools_frame, simp)+
  have st: "ledger_rows (set_status ev u t d)" "share (set_status ev u t d) = share d" for t
    using assms ledger_rows_cong [of "set_status ev u t d" d] by simp_all
  note left' = ledger_rows_cong [OF left]
  show "ledger_rows (answered ev u target d)"
    using st returned_ledger [OF st(1)] by (cases "target = Declined") (simp_all add: answered_def left' Let_def)
  show "share (answered ev u target d) = (if target = Declined
      then (\<lambda>(u', ev', it). if u' = u \<and> ev' = ev then 0 else share d (u', ev', it)) else share d)"
    by (cases "target = Declined") (simp_all add: answered_def left' returned_share st(2) Let_def cong: if_cong)
qed

lemma answered_carpools:
  assumes "carpool_ok d"
  shows "carpool_ok (answered ev u target d)"
    and "role_of (answered ev u target d) = (if target = Declined then without_role (ev, u) (role_of d) else role_of d)"
proof -
  let ?d = "returned ev u (set_status ev u target d)"
  have same: "carpools (returned ev u d) = carpools d" "passengers (returned ev u d) = passengers d" for d
    unfolding returned_def by (subst lower_quantity_frame, simp)+
  have ok: "carpool_ok (set_status ev u target d)" "role_of (set_status ev u target d) = role_of d"
    using assms carpool_ok_cong [of "set_status ev u target d" d] same_columns(2) [of "set_status ev u target d" d]
    by simp_all
  have ok': "carpool_ok ?d" "role_of ?d = role_of d"
    using ok carpool_ok_cong [OF same] same_columns(2) [of ?d "set_status ev u target d"] by (simp_all add: same)
  show "carpool_ok (answered ev u target d)"
    "role_of (answered ev u target d) = (if target = Declined then without_role (ev, u) (role_of d) else role_of d)"
    using ok ok'(2) left_carpools_spec [OF ok'(1), of ev u]
    by (cases "target = Declined"; simp add: answered_def Let_def)+
qed

lemma wp_commit_unless_aborted:
  assumes "wp body (\<lambda>(x, aborted) v. A aborted \<and> (\<not> aborted \<longrightarrow> Q x v)) (\<lambda>_ _. True) (tick w)"
    and "\<And>x v. Q x v \<Longrightarrow> Q x (tick v)"
  shows "wp (commit_unless_aborted e body)
    (\<lambda>x v. A True \<and> db v = db w \<or> Q x v) (\<lambda>_ v. db v = db w) w"
  using assms by (auto simp: wp_def commit_unless_aborted_def split: prod.splits sum.splits if_splits)

end
