(* ===== verification/Invitation_Handlers.thy ===== *)
theory Invitation_Handlers
  imports Refusal_Facts
begin

text \<open>
  The handlers of the invitations and of the links, statement by statement: what each answer means
  for the standing of the users, and that the tables stay sound.
\<close>

section \<open>The guards\<close>

text \<open>The account the session of a request speaks for.\<close>

definition speaks_for :: "world \<Rightarrow> request \<Rightarrow> int \<Rightarrow> bool" where
  "speaks_for w req u \<longleftrightarrow> (\<exists>s r. live_session w req s
     \<and> user_by_email w (normalize_email (cfg w) (lowercase (cfg w) (u_email s))) = Some r \<and> u_id r = u)"

definition organiser :: "world \<Rightarrow> request \<Rightarrow> int \<Rightarrow> int \<Rightarrow> bool" where
  "organiser w req ev u \<longleftrightarrow> speaks_for w req u \<and> (\<exists>r. owner_of (db w) ev = Some r \<and> u_id r = u)"

lemma speaks_for_same_data: "same_data w v \<Longrightarrow> speaks_for v req u = speaks_for w req u"
  by (simp add: speaks_for_def live_session_same_data user_by_email_def) (simp add: same_data_def)

lemma organiser_same_data: "same_data w v \<Longrightarrow> organiser v req ev u = organiser w req ev u"
  by (simp add: organiser_def speaks_for_same_data) (simp add: same_data_def)

lemma checks_owner_email [check_intros]:
  "checks (fetch_event_owner_email ev) (\<lambda>w em. \<exists>r. owner_of (db w) ev = Some r \<and> u_email r = em)"
  unfolding fetch_event_owner_email_def
  by (rule checks_mono [OF checks_andthen [OF checks_query_db checks_some_or]])
    (auto simp: stable_def same_data_def)

lemmas guest_guards = check_intros [THEN wp_checked]

lemma checks_organiser [check_intros]:
  "checks (inv_ensure_event_owner req ev)
     (\<lambda>w em. \<exists>u. organiser w req ev u \<and> (\<exists>r. owner_of (db w) ev = Some r \<and> u_email r = em))"
proof (rule checksI)
  show "stable (\<lambda>w em. \<exists>u. organiser w req ev u \<and> (\<exists>r. owner_of (db w) ev = Some r \<and> u_email r = em))"
    unfolding stable_def
  proof (intro allI impI)
    fix w v em assume same: "same_data w v"
    then have "db v = db w" by (simp add: same_data_def)
    then show "(\<exists>u. organiser v req ev u \<and> (\<exists>r. owner_of (db v) ev = Some r \<and> u_email r = em))
        = (\<exists>u. organiser w req ev u \<and> (\<exists>r. owner_of (db w) ev = Some r \<and> u_email r = em))"
      by (simp add: organiser_same_data [OF same])
  qed
  show "wp (inv_ensure_event_owner req ev) (\<lambda>em v. same_data w v \<and>
      (\<exists>u. organiser w req ev u \<and> (\<exists>r. owner_of (db w) ev = Some r \<and> u_email r = em))) (\<lambda>_. same_data w) w" for w
    unfolding inv_ensure_event_owner_def
  proof (intro guest_guards [where w = w] same_data_refl, goal_cases)
    case (5 em v u v2 row v3 owner v4 y v5)
    then show ?case
      by (auto simp: organiser_def speaks_for_def eq_commute [of "Some owner"])
  qed simp_all
qed

lemma checks_participant [check_intros]:
  "checks (ensure_event_participant req ev) (\<lambda>_ _. True)"
  unfolding ensure_event_participant_def
  by (intro checks_quiet quiet_intros quiet_checks [OF checks_claims_email] quiet_checks [OF checks_inv_user])

lemma checks_identifier_limit [check_intros]:
  "checks (enforce_invitation_rate_limit allowed cl em) (\<lambda>_ _. True)"
  unfolding enforce_invitation_rate_limit_def by (intro checks_quiet quiet_intros)

text \<open>The rule \<open>wp_checked\<close> for the guards of this component as well.\<close>

lemmas invitation_guards = check_intros [THEN wp_checked]

section \<open>Inviting a user\<close>

text \<open>Only invitations, links and messages differ.\<close>

definition guest_list_only :: "world \<Rightarrow> world \<Rightarrow> bool" where
  "guest_list_only w v \<longleftrightarrow>
     (db v)\<lparr>outbox := [], user_devices := [], invitations := [], share_tokens := []\<rparr>
       = (db w)\<lparr>outbox := [], user_devices := [], invitations := [], share_tokens := []\<rparr>"

lemma guest_list_only_refl [simp]: "guest_list_only w w"
  by (simp add: guest_list_only_def)

lemma guest_list_only_trans: "guest_list_only u v \<Longrightarrow> guest_list_only v w \<Longrightarrow> guest_list_only u w"
  by (simp add: guest_list_only_def)

lemma only_outbox_guest_list:
  assumes "only_outbox w v"
  shows "guest_list_only w v"
proof -
  have "(db v)\<lparr>outbox := [], user_devices := []\<rparr> = (db w)\<lparr>outbox := [], user_devices := []\<rparr>"
    using assms by (simp add: only_outbox_def)
  from arg_cong [OF this, of "\<lambda>d. d\<lparr>invitations := [], share_tokens := []\<rparr>"]
  show ?thesis by (simp add: guest_list_only_def)
qed

lemma only_outbox_standing: "only_outbox w v \<Longrightarrow> standing (db v) = standing (db w)"
  by (rule standing_cong) (rule only_outbox_tables)

text \<open>A new or renewed invitation of user \<open>u\<close>.\<close>

definition invites :: "int \<Rightarrow> int \<Rightarrow> world \<Rightarrow> world \<Rightarrow> bool" where
  "invites ev u w v \<longleftrightarrow> standing (db w) (ev, u) \<in> {None, Some Expired}
     \<and> (\<forall>e. find (\<lambda>e. e_id e = ev) (events (db w)) = Some e \<longrightarrow> \<not> contact_blocked (db w) (e_owner_id e) u)
     \<and> standing (db v) = (standing (db w))((ev, u) \<mapsto> Waiting)"

lemma new_invitation:
  assumes inv: "guest_inv w" and none: "standing (db w) (ev, u) = None"
    and v: "db v = (db w)\<lparr>invitations := invitations (db w)
      @ [\<lparr>i_event_id = ev, i_user_id = u, i_status = Waiting, i_date = t, i_id = seqs w InvitationSeq + 1\<rparr>]\<rparr>"
    and seq: "seqs v InvitationSeq = seqs w InvitationSeq + 1"
  shows "guest_inv v" and "standing (db v) = (standing (db w))((ev, u) \<mapsto> Waiting)"
proof -
  let ?i = "\<lparr>i_event_id = ev, i_user_id = u, i_status = Waiting, i_date = t, i_id = seqs w InvitationSeq + 1\<rparr>"
  have "(ev, u) \<notin> (\<lambda>i. (i_event_id i, i_user_id i)) ` set (invitations (db w))"
    using none by (auto simp: standing_def find_None_iff is_invitation_def)
  moreover have "seqs w InvitationSeq + 1 \<notin> i_id ` set (invitations (db w))"
    using inv by (force simp: guest_inv_def)
  ultimately show "guest_inv v"
    using inv by (force simp: guest_inv_def guest_ok_def v seq)
  show "standing (db v) = (standing (db w))((ev, u) \<mapsto> Waiting)"
    using standing_append [of "db w" ?i] none by (simp add: v)
qed

lemma insert_invitation_spec:
  assumes inv: "guest_inv w" and r: "insert_invitation_for_user ev u w = (r, v)"
  shows "guest_inv v \<and> later w v \<and> guest_list_only w v
    \<and> (case r of Inr (Some view) \<Rightarrow> iv_user_id view = Some (u_id u) \<and> invites ev (u_id u) w v | _ \<Rightarrow> db v = db w)"
proof -
  let ?hit = "is_invitation ev (u_id u)"
  have seq: "later w (w\<lparr>seqs := (seqs w)(InvitationSeq := seqs w InvitationSeq + 1)\<rparr>)"
    using later_nextval [of w InvitationSeq] by (simp add: nextval_def)
  have stay: "guest_inv (w\<lparr>seqs := (seqs w)(InvitationSeq := seqs w InvitationSeq + 1)\<rparr>)"
    by (rule guest_inv_tables [OF inv]) simp_all
  consider "db v = db w" "later w v" "guest_inv v" "\<forall>view. r \<noteq> Inr (Some view)"
    | i where "\<not> (case find (\<lambda>e. e_id e = ev) (events (db w)) of None \<Rightarrow> False | Some e \<Rightarrow> contact_blocked (db w) (e_owner_id e) (u_id u))"
      "find ?hit (invitations (db w)) = Some i" "i_status i = Expired"
      "v = w\<lparr>seqs := (seqs w)(InvitationSeq := seqs w InvitationSeq + 1), db := (db w)\<lparr>invitations := update_where ?hit
          (\<lambda>i. i\<lparr>i_status := Waiting, i_date := clock w\<rparr>) (invitations (db w))\<rparr>\<rparr>"
      "\<exists>view. r = Inr (Some view) \<and> iv_user_id view = Some (u_id u)"
    | "\<not> (case find (\<lambda>e. e_id e = ev) (events (db w)) of None \<Rightarrow> False | Some e \<Rightarrow> contact_blocked (db w) (e_owner_id e) (u_id u))"
      "find ?hit (invitations (db w)) = None"
      "v = w\<lparr>seqs := (seqs w)(InvitationSeq := seqs w InvitationSeq + 1), db := (db w)\<lparr>invitations := invitations (db w)
          @ [\<lparr>i_event_id = ev, i_user_id = u_id u, i_status = Waiting, i_date = clock w, i_id = seqs w InvitationSeq + 1\<rparr>]\<rparr>\<rparr>"
      "\<exists>view. r = Inr (Some view) \<and> iv_user_id view = Some (u_id u)"
    using r seq stay unfolding insert_invitation_for_user_def Let_def nextval_def
    by (auto simp: invitation_view_of_def split: option.splits if_splits)
  then show ?thesis
  proof cases
    case 1
    then show ?thesis by (auto simp: guest_list_only_def split: sum.split option.split)
  next
    case 2
    then have st: "standing (db w) (ev, u_id u) = Some Expired" by (simp add: standing_def)
    have "guest_inv v"
      by (rule guest_inv_keys [OF inv]) (simp_all add: 2(4))
    moreover have "standing (db v) = (standing (db w))((ev, u_id u) \<mapsto> Waiting)"
      using standing_set_one [of "\<lambda>i. i\<lparr>i_status := Waiting, i_date := clock w\<rparr>" Waiting "db w" ev "u_id u"] st
      by (simp add: 2(4))
    ultimately show ?thesis
      using 2(1,5) st seq by (auto simp: invites_def guest_list_only_def 2(4) split: option.splits)
  next
    case 3
    then have st: "standing (db w) (ev, u_id u) = None" by (simp add: standing_def)
    have "guest_inv v" "standing (db v) = (standing (db w))((ev, u_id u) \<mapsto> Waiting)"
      using new_invitation [OF inv st, of v] by (simp_all add: 3(3))
    then show ?thesis
      using 3(1,4) st seq by (auto simp: invites_def guest_list_only_def 3(3) split: option.splits)
  qed
qed

text \<open>The answer to the deadline of an event, as the code reads it.\<close>

definition closed :: "world \<Rightarrow> int \<Rightarrow> bool" where
  "closed w ev \<longleftrightarrow> (case find (\<lambda>e. e_id e = ev) (events (db w)) of
     None \<Rightarrow> False | Some e \<Rightarrow> deadline_passed (day_of (clock w)) e)"

lemma tells_notice [tell_intros]:
  "tells (andthen (publish_event_type ev t) (\<lambda>_. andthen (publish_global_type g) (\<lambda>_.
     andthen (notify_users us r) (\<lambda>_. return a))))"
  by (intro tell_intros)

lemma wp_only_outbox_end:
  assumes "tells m" and "only_outbox u v" and "\<And>x. Q x v"
    and "\<And>x v v'. Q x v \<Longrightarrow> only_outbox v v' \<Longrightarrow> Q x v'"
  shows "wp m Q E v"
  using assms by (intro wp_tells [OF assms(1) only_outbox_refl]) blast

lemma invite_handle_target_spec:
  assumes inv: "guest_inv w"
  shows "wp (invite_handle_target ev handle em)
    (\<lambda>a v. guest_inv v \<and> guest_list_only w v
       \<and> (\<exists>view u. ans_body a = Invited view \<and> iv_user_id view = Some u \<and> invites ev u w v))
    (\<lambda>_ v. guest_inv v \<and> db v = db w) w"
  unfolding invite_handle_target_def inv_find_user_by_handle_def find_user_by_handle_def
proof (rule wp_checked [OF checks_quiet [OF quiet_query] same_data_refl], goal_cases)
  case (1 row v1)
  show ?case
    using 1(1)
  proof (rule wp_checked [OF checks_some_or], goal_cases)
    case (1 u v2)
    then have v2: "db v2 = db w" "seqs v2 = seqs w" by (simp_all add: same_data_def)
    have inv2: "guest_inv (tick v2)" using guest_tables.inv_same_data [OF inv 1(1)] by simp
    show ?case
      unfolding wp_andthen [of "stmt _ _"]
    proof (rule wp_stmtI, goal_cases)
      case (1 r v)
      note facts = insert_invitation_spec [OF inv2 1]
      show ?case
      proof (cases r)
        case None
        then show ?thesis using facts by (auto simp: wp_simps v2)
      next
        case (Some view)
        then have v: "guest_inv v" "guest_list_only w v" "iv_user_id view = Some (u_id u)" "invites ev (u_id u) w v"
          using facts by (auto simp: guest_list_only_def invites_def v2)
        have "wp (andthen (publish_event_type ev ''event.invitations.changed'') (\<lambda>_. andthen (publish_global_type ''invitations.changed'') (\<lambda>_.
            andthen (notify_users [u_id u] (invite_notice ev em view)) (\<lambda>_. return (Answer 201 (Invited view))))))
          (\<lambda>a v. guest_inv v \<and> guest_list_only w v
            \<and> (\<exists>view u. ans_body a = Invited view \<and> iv_user_id view = Some u \<and> invites ev u w v)) E v" for E
          by (intro wp_told [OF tells_simple(4) only_outbox_refl] wp_told [OF tells_simple(3)] wp_told [OF tells_notify])
            (use v in \<open>auto intro: guest_inv_only_outbox guest_list_only_trans only_outbox_guest_list
              simp: invites_def only_outbox_standing\<close>)
        then show ?thesis using Some by (simp add: wp_some_or wp_andthen [of "some_or _ _"])
      qed
    next
      case (2 e v)
      then show ?case using insert_invitation_spec [OF inv2 2] by (simp add: v2)
    next
      case 3
      then show ?case using inv2 by (simp add: v2 guest_tables.inv_tick)
    qed
  qed (auto simp: same_data_def intro: guest_tables.inv_same_data [OF inv])
qed (auto simp: same_data_def intro: guest_tables.inv_same_data [OF inv])

section \<open>Inviting an address\<close>

definition links_only :: "world \<Rightarrow> world \<Rightarrow> bool" where
  "links_only w v \<longleftrightarrow> guest_inv v \<and> guest_list_only w v \<and> standing (db v) = standing (db w)
     \<and> clock v = clock w \<and> cfg v = cfg w"

lemma links_only_trans: "links_only u v \<Longrightarrow> links_only v w \<Longrightarrow> links_only u w"
  by (auto simp: links_only_def intro: guest_list_only_trans)

lemma links_only_outbox: "guest_inv w \<Longrightarrow> only_outbox w v \<Longrightarrow> links_only w v"
  by (simp add: links_only_def guest_inv_only_outbox only_outbox_guest_list only_outbox_standing)
    (simp add: only_outbox_def)

lemma links_only_tokens:
  assumes "guest_inv w" and "db v = (db w)\<lparr>share_tokens := ts\<rparr>" and "distinct (map st_token_hash ts)"
    and "seqs v = seqs w" "clock v = clock w" "cfg v = cfg w"
  shows "links_only w v"
  using assms(1,3) by (simp add: links_only_def guest_inv_def guest_ok_def guest_list_only_def standing_def assms(2,4-6))

lemma insert_share_token_spec:
  assumes inv: "guest_inv w" and r: "insert_share_token s w = (r, v)"
  shows "(\<forall>x. r = Inl x \<longrightarrow> v = w) \<and> links_only w v"
proof -
  show ?thesis
  proof (cases "r = Inr ()")
    case True
    have new: "\<not> exists_where (\<lambda>r. st_token_hash r = st_token_hash s) (share_tokens (db w))"
      "v = w\<lparr>db := (db w)\<lparr>share_tokens := share_tokens (db w) @ [s]\<rparr>\<rparr>"
      using r True unfolding insert_share_token_def Let_def by (simp_all split: if_splits)
    have "links_only w v"
      by (rule links_only_tokens [OF inv, of _ "share_tokens (db w) @ [s]"])
        (use inv new(1) in \<open>auto simp: new(2) guest_inv_def guest_ok_def\<close>)
    then show ?thesis by (simp add: True)
  next
    case False
    then have "v = w" using r unfolding insert_share_token_def Let_def by (simp split: if_splits)
    then show ?thesis using inv by (simp add: links_only_def)
  qed
qed

interpretation links: table_invariant "links_only w" for w
proof
  fix v v' assume "links_only w v" "db v' = db v" "later v v'"
  then show "links_only w v'"
    using guest_tables.rollback [of v v'] by (auto simp: links_only_def guest_list_only_def later_def)
qed

lemma links_only_refl: "guest_inv w \<Longrightarrow> links_only w w"
  by (simp add: links_only_def)

lemma links_keep_only_outbox: "links_only w v \<Longrightarrow> only_outbox v v' \<Longrightarrow> links_only w v'"
  using links_only_trans [OF _ links_only_outbox] by (metis links_only_def)

lemma keeps_on_error [keeps_intros]: "keeps I m \<Longrightarrow> keeps I c \<Longrightarrow> keeps I (on_error m c)"
  by (auto simp: keeps_def on_error_def split: prod.split sum.split)

lemma keeps_post_mail: "keeps (links_only w) (post_mail m)"
  by (rule keepsI) (auto simp: wp_def post_mail_def split: mail_reply.split
      elim: links.rollback intro: later_refl simp: later_def)

lemma keeps_insert_share_token: "keeps (links_only w) (stmt h (insert_share_token s))"
proof (rule links.keeps_stmt)
  fix v r v' assume v: "links_only w v" and r: "insert_share_token s v = (r, v')"
  have "guest_inv v" using v by (simp add: links_only_def)
  from insert_share_token_spec [OF this r] show "links_only w v'" by (auto intro: links_only_trans [OF v])
qed

lemma later_insert_share_token: "later w (snd (insert_share_token s w))"
  by (simp add: insert_share_token_def Let_def)

lemmas links_quiet = links.keeps_quiet [OF quiet_checks]

lemma keeps_store_link: "keeps (links_only w) (store_link ev who em h)"
  unfolding store_link_def
  by (intro links.keeps_transact_body keeps_intros grows_intros keeps_insert_share_token later_insert_share_token
      links_quiet [OF checks_inv_user] grows_quiet [OF quiet_checks [OF checks_inv_user]]
      links_quiet [OF checks_get_state] grows_quiet [OF quiet_get_state])

lemma keeps_drop_link: "keeps (links_only w) (execute e (\<lambda>w. ((), drop_link h (db w))))"
proof (rule links.keeps_execute)
  fix v assume v: "links_only w v"
  have "links_only v (v\<lparr>db := drop_link h (db v)\<rparr>)"
    using v by (intro links_only_tokens [of _ _ "delete_where (\<lambda>s. st_token_hash s = h) (share_tokens (db v))"])
      (auto simp: links_only_def drop_link_def guest_inv_def guest_ok_def intro: distinct_map_delete_where)
  then show "links_only w (v\<lparr>db := snd ((), drop_link h (db v))\<rparr>)"
    using links_only_trans [OF v] by simp
qed

lemma keeps_mail_a_link: "keeps (links_only w) (mail_a_link ev who em token meta)"
  unfolding mail_a_link_def send_invitation_email_def Let_def
  by (intro keeps_intros keeps_store_link keeps_drop_link keeps_post_mail links_quiet [OF checks_get_state]
      links_quiet [OF checks_some_or] links.keeps_quiet [OF quiet_publish(2)] links.keeps_quiet [OF quiet_publish(3)])

lemma keeps_invite_email_target: "keeps (links_only w) (invite_email_target ev who em token)"
  unfolding invite_email_target_def fetch_event_email_metadata_def Let_def
  by (intro keeps_intros keeps_mail_a_link links_quiet [OF checks_get_state] links_quiet [OF checks_require]
      links_quiet [OF checks_some_or] links.keeps_quiet [OF quiet_query])

text \<open>An address gets the same answer whether or not something is sent to it.\<close>

definition answers :: "'a \<Rightarrow> 'a act \<Rightarrow> bool" where
  "answers a m \<longleftrightarrow> (\<forall>w. wp m (\<lambda>x _. x = a) (\<lambda>_ _. True) w)"

lemma wp_anything: "wp m (\<lambda>_ _. True) (\<lambda>_ _. True) w"
  by (auto simp: wp_def split: prod.split sum.split)

lemma answers_andthen: "(\<And>x. answers a (f x)) \<Longrightarrow> answers a (andthen m f)"
  unfolding answers_def wp_andthen by (rule allI, rule wp_mono [OF wp_anything]) simp_all

lemma answers_cases:
  "answers a (return a)" "answers a m \<Longrightarrow> answers a n \<Longrightarrow> answers a (if b then m else n)"
  by (simp_all add: answers_def)

lemma invite_email_target_answers: "answers email_accepted (invite_email_target ev who em token)"
  unfolding invite_email_target_def mail_a_link_def Let_def by (intro answers_andthen answers_cases)

lemma invite_email_target_spec:
  assumes inv: "guest_inv w"
  shows "wp (invite_email_target ev who em token) (\<lambda>a v. a = email_accepted \<and> links_only w v) (\<lambda>_ v. links_only w v) w"
  by (rule wp_mono [OF wp_conj [OF keepsD [OF keeps_invite_email_target links_only_refl [OF inv]]
          invite_email_target_answers [unfolded answers_def, rule_format]]]) auto

lemma guest_unchanged:
  assumes "guest_inv w" and "same_data w v"
  shows "guest_inv v \<and> guest_list_only w v \<and> standing (db v) = standing (db w)"
  using guest_tables.inv_same_data [OF assms] assms(2) by (simp add: same_data_def guest_list_only_def)

lemma create_invitation_spec:
  assumes inv: "guest_inv w"
  shows "wp (create_invitation allowed cl token req ev raw)
    (\<lambda>a v. guest_inv v \<and> guest_list_only w v \<and> (\<exists>u. organiser w req ev u) \<and> writable w ev \<and> \<not> closed w ev
       \<and> (case ans_body a of
            EmailSent \<Rightarrow> standing (db v) = standing (db w)
          | Invited view \<Rightarrow> (\<exists>u. iv_user_id view = Some u \<and> invites ev u w v)))
    (\<lambda>_ v. guest_inv v \<and> guest_list_only w v \<and> standing (db v) = standing (db w)) w"
  unfolding create_invitation_def
proof (rule wp_checked [OF checks_organiser same_data_refl], goal_cases)
  case (1 em v1)
  then have o': "\<exists>u. organiser w req ev u" by blast
  show ?case
    using 1(1)
  proof (intro invitation_guards [where w = w], goal_cases)
    case (6 x v2 row v3 s v4 y v5 target v6)
    note same6 = 6(10)
    have v6: "db v6 = db w" "clock v6 = clock w" "cfg v6 = cfg w"
      using same6 by (simp_all add: same_data_def)
    have inv6: "guest_inv v6" by (rule guest_tables.inv_same_data [OF inv same6])
    have open': "\<not> closed w ev"
      using 6(5,7,9) by (simp add: closed_def cong: option.case_cong)
    have frame: "guest_list_only w v" if "guest_list_only v6 v" for v
      using that by (simp add: guest_list_only_def v6)
    have hand: "invites ev u w v = invites ev u v6 v" for u v
      by (simp add: invites_def v6)
    show ?case
    proof (cases target)
      case (ByEmail address)
      have start: "links_only w v" if "same_data w v" for v
        using guest_unchanged [OF inv that] that by (simp add: links_only_def same_data_def)
      have "wp (invite_email_target ev address em token)
         (\<lambda>a v. guest_inv v \<and> guest_list_only w v \<and> (\<exists>u. organiser w req ev u) \<and> writable w ev \<and> \<not> closed w ev
       \<and> (case ans_body a of
            EmailSent \<Rightarrow> standing (db v) = standing (db w)
          | Invited view \<Rightarrow> (\<exists>u. iv_user_id view = Some u \<and> invites ev u w v)))
        (\<lambda>_ v. guest_inv v \<and> guest_list_only w v \<and> standing (db v) = standing (db w)) v" if "same_data w v" for v
      proof (rule wp_mono [OF invite_email_target_spec], goal_cases)
        case (2 a v')
        then show ?case
          using o' open' 6(3) links_only_trans [OF start [OF that]] by (auto simp: links_only_def)
      next
        case (3 e v')
        then show ?case using links_only_trans [OF start [OF that]] by (auto simp: links_only_def)
      qed (use start [OF that] in \<open>simp add: links_only_def\<close>)
      then show ?thesis
        unfolding ByEmail target_identifier.case
        by (rule wp_checked [OF checks_identifier_limit 6(10)]) (blast, rule guest_unchanged [OF inv])
    next
      case (ByHandle handle)
      show ?thesis
        unfolding ByHandle target_identifier.case
        by (rule wp_mono [OF invite_handle_target_spec [OF inv6]])
          (use o' open' 6(3) frame hand in \<open>auto simp: v6 guest_list_only_def\<close>)
    qed
  qed ((rule guest_unchanged [OF inv])?, assumption)+
qed (rule guest_unchanged [OF inv])

section \<open>Taking an invitation back\<close>

lemma delete_by_user:
  "standing (snd (delete_invitations (is_invitation ev u) d)) = (standing d)((ev, u) := None)"
proof (rule ext)
  fix key :: "int \<times> int"
  obtain a b where key: "key = (a, b)" by force
  show "standing (snd (delete_invitations (is_invitation ev u) d)) key = ((standing d)((ev, u) := None)) key"
  proof (cases "(a, b) = (ev, u)")
    case True
    then show ?thesis by (auto simp: key standing_def delete_invitations_def find_None_iff)
  next
    case False
    have "find (is_invitation a b) (delete_where (is_invitation ev u) (invitations d)) = find (is_invitation a b) (invitations d)"
      by (rule find_delete_where) (use False in \<open>auto simp: is_invitation_def\<close>)
    then show ?thesis using False by (auto simp: key standing_def delete_invitations_def)
  qed
qed

lemma delete_invitations_inv:
  assumes "guest_inv w"
  shows "guest_inv (w\<lparr>db := snd (delete_invitations p (db w))\<rparr>)"
  using assms by (auto simp: guest_inv_def guest_ok_def delete_invitations_def intro: distinct_map_delete_where)

text \<open>One invitation of the event is gone, and nothing else has changed.\<close>

definition uninvites :: "int \<Rightarrow> world \<Rightarrow> world \<Rightarrow> bool" where
  "uninvites ev w v \<longleftrightarrow> guest_inv v \<and> guest_list_only w v
     \<and> (\<exists>u. standing (db w) (ev, u) \<noteq> None \<and> standing (db v) = (standing (db w))((ev, u) := None))"

definition undone :: "world \<Rightarrow> world \<Rightarrow> bool" where
  "undone w v \<longleftrightarrow> guest_inv v \<and> guest_list_only w v \<and> standing (db v) = standing (db w)"

lemma delete_one_spec:
  assumes inv: "guest_inv w"
    and p: "p = is_invitation ev u \<or> p = (\<lambda>i. i_event_id i = ev \<and> i_id i = k)"
  shows "let (n, d) = delete_invitations p (db w) in
    if n = 0 then d = db w else uninvites ev w (w\<lparr>db := d\<rparr>)"
proof -
  have n: "fst (delete_invitations p (db w)) = 0 \<longleftrightarrow> (\<forall>i \<in> set (invitations (db w)). \<not> p i)"
    by (simp add: delete_invitations_def count_where_eq_0)
  show ?thesis
  proof (cases "\<forall>i \<in> set (invitations (db w)). \<not> p i")
    case True
    then show ?thesis
      by (simp add: delete_invitations_def count_where_eq_0 delete_where_none)
  next
    case False
    then obtain i where i: "i \<in> set (invitations (db w))" "p i" by blast
    have ok: "guest_ok (db w)" using inv by (simp add: guest_inv_def)
    have "standing (snd (delete_invitations p (db w))) = (standing (db w))((ev, i_user_id i) := None)"
      using p
    proof
      assume "p = is_invitation ev u"
      then show ?thesis using delete_by_user [of ev u "db w"] i(2) by (simp add: is_invitation_def)
    next
      assume p: "p = (\<lambda>i. i_event_id i = ev \<and> i_id i = k)"
      have "delete_where p (invitations (db w)) = delete_where (\<lambda>r. i_id r = i_id i) (invitations (db w))"
        unfolding delete_where_def
      proof (rule filter_cong [OF refl])
        fix r assume r: "r \<in> set (invitations (db w))"
        have "r = i" if "i_id r = i_id i"
          using distinct_map_inj [of i_id "invitations (db w)" r i] ok r i(1) that by (simp add: guest_ok_def)
        then show "(\<not> p r) = (i_id r \<noteq> i_id i)" using i(2) unfolding p by metis
      qed
      then show ?thesis
        using standing_delete [OF ok i(1)] i(2) p by (simp add: delete_invitations_def)
    qed
    moreover have "standing (db w) (ev, i_user_id i) \<noteq> None"
      using i p find_invitation [OF ok, of ev "i_user_id i" i] by (auto simp: standing_def is_invitation_def)
    moreover have "guest_list_only w (w\<lparr>db := snd (delete_invitations p (db w))\<rparr>)"
      by (simp add: guest_list_only_def delete_invitations_def)
    ultimately show ?thesis
      using False delete_invitations_inv [OF inv, of p] n
      by (auto simp: uninvites_def split: prod.split)
  qed
qed

lemma uninvites_outbox: "uninvites ev w v \<Longrightarrow> only_outbox v v' \<Longrightarrow> uninvites ev w v'"
  unfolding uninvites_def
  using guest_inv_only_outbox only_outbox_standing guest_list_only_trans [OF _ only_outbox_guest_list]
  by metis

lemma wp_delete_one:
  assumes inv: "guest_inv w" and same: "same_data w v"
    and p: "p = is_invitation ev u \<or> p = (\<lambda>i. i_event_id i = ev \<and> i_id i = k)"
  shows "wp (execute db_error (\<lambda>w. delete_invitations p (db w)))
    (\<lambda>n v'. if n = 0 then undone w v' else uninvites ev w v') (\<lambda>_ v'. undone w v') v"
proof -
  let ?v = "(tick v)\<lparr>db := snd (delete_invitations p (db w))\<rparr>"
  have v: "db v = db w" using same by (simp add: same_data_def)
  have seqs: "seqs v = seqs w" using same by (simp add: same_data_def)
  obtain n d where nd: "delete_invitations p (db w) = (n, d)" by force
  have inv': "guest_inv (w\<lparr>db := d\<rparr>) \<Longrightarrow> guest_inv ((tick v)\<lparr>db := d\<rparr>)"
    by (erule guest_inv_tables) (simp_all add: seqs)
  have un: "undone w (tick v)" using guest_unchanged [OF inv, of "tick v"] same by (simp add: undone_def)
  have "if n = 0 then d = db w else uninvites ev w (w\<lparr>db := d\<rparr>)"
    using delete_one_spec [OF inv p] by (simp add: nd)
  then have "if n = 0 then undone w ((tick v)\<lparr>db := d\<rparr>) else uninvites ev w ((tick v)\<lparr>db := d\<rparr>)"
    using inv' un by (auto simp: uninvites_def undone_def guest_list_only_def guest_inv_def v)
  then show ?thesis
    using un by (simp add: wp_execute v nd)
qed

lemma delete_invitation_spec:
  assumes inv: "guest_inv w"
  shows "wp (delete_invitation req ev ident)
    (\<lambda>_ v. (\<exists>u. organiser w req ev u) \<and> writable w ev \<and> uninvites ev w v) (\<lambda>_ v. undone w v) w"
proof -
  have same: "undone w v" if "same_data w v" for v
    using guest_unchanged [OF inv that] by (simp add: undone_def)
  have tail: "wp (andthen (require (n \<noteq> 0) (not_found ''invitation_not_found'')) (\<lambda>_.
       andthen (publish_event_type ev ''event.invitations.changed'') (\<lambda>_.
       andthen (publish_global_type ''invitations.changed'') (\<lambda>_. return (Answer 200 ''deleted'')))))
      (\<lambda>_ v. uninvites ev w v) (\<lambda>_ v. undone w v) v"
    if n: "if n = 0 then undone w v else uninvites ev w v" for n :: nat and v
  proof (cases "n = 0")
    case False
    then have "uninvites ev w v" using n by simp
    then have "wp (andthen (publish_event_type ev ''event.invitations.changed'') (\<lambda>_.
       andthen (publish_global_type ''invitations.changed'') (\<lambda>_. return (Answer 200 ''deleted''))))
      (\<lambda>_ v. uninvites ev w v) (\<lambda>_ v. undone w v) v"
      by (intro wp_told [OF tells_simple(4) only_outbox_refl] wp_told [OF tells_simple(3)])
        (auto intro: uninvites_outbox)
    then show ?thesis using False by (simp add: wp_andthen [of "require _ _"] wp_require)
  qed (use n in \<open>simp add: wp_andthen wp_require\<close>)
  have pick: "wp (case parse_i64 ident of
         Some k \<Rightarrow> execute db_error (\<lambda>w. delete_invitations (\<lambda>i. i_event_id i = ev \<and> i_id i = k) (db w))
       | None \<Rightarrow>
           andthen (fetch_event_owner_email ev) (\<lambda>owner_email.
           andthen (require (\<not> eq_ignore_ascii_case owner_email (trim ident)) (bad_request ''cannot_remove_owner'')) (\<lambda>_.
           andthen (inv_fetch_user_by_email ident) (\<lambda>user.
           execute db_error (\<lambda>w. delete_invitations (is_invitation ev (u_id user)) (db w))))))
      (\<lambda>n v'. if n = 0 then undone w v' else uninvites ev w v') (\<lambda>_ v'. undone w v') v"
    if v: "same_data w v" for v
  proof (cases "parse_i64 ident")
    case None
    have "wp (andthen (fetch_event_owner_email ev) (\<lambda>owner_email.
           andthen (require (\<not> eq_ignore_ascii_case owner_email (trim ident)) (bad_request ''cannot_remove_owner'')) (\<lambda>_.
           andthen (inv_fetch_user_by_email ident) (\<lambda>user.
           execute db_error (\<lambda>w. delete_invitations (is_invitation ev (u_id user)) (db w))))))
      (\<lambda>n v'. if n = 0 then undone w v' else uninvites ev w v') (\<lambda>_ v'. undone w v') v"
      by (intro invitation_guards [where w = w] v)
        (assumption | rule wp_delete_one [OF inv] disjI1 refl same)+
    then show ?thesis using None by simp
  next
    case (Some k)
    have "wp (execute db_error (\<lambda>w. delete_invitations (\<lambda>i. i_event_id i = ev \<and> i_id i = k) (db w)))
      (\<lambda>n v'. if n = 0 then undone w v' else uninvites ev w v') (\<lambda>_ v'. undone w v') v"
      by (rule wp_delete_one [OF inv v]) blast
    then show ?thesis using Some by simp
  qed
  show ?thesis
    unfolding delete_invitation_def
  proof (intro invitation_guards [where w = w] same_data_refl, goal_cases)
    case (2 em v1 x v2)
    show ?case
      unfolding wp_andthen [of "case_option _ _ _"]
    proof (rule wp_mono [OF pick [OF 2(3)]], goal_cases)
      case (1 n v)
      show ?case
        by (rule wp_mono [OF tail [OF 1]]) (use 2 in auto)
    qed
  qed (assumption | rule same)+
qed

section \<open>Answering\<close>

text \<open>The tables in which an answer is looked at: overdue invitations have expired.\<close>

definition punctual :: "world \<Rightarrow> database" where
  "punctual w = expire_invitations (day_of (clock w)) (db w)"

lemma punctual_tables:
  "items (punctual w) = items (db w)" "item_types (punctual w) = item_types (db w)"
  "events_items (punctual w) = events_items (db w)" "user_items (punctual w) = user_items (db w)"
  "carpools (punctual w) = carpools (db w)" "passengers (punctual w) = passengers (db w)"
  "share_tokens (punctual w) = share_tokens (db w)" "events (punctual w) = events (db w)" "users (punctual w) = users (db w)"
  by (simp_all add: punctual_def expire_invitations_def)

text \<open>The tables after an answer are those of \<open>answered\<close>, but for messages.\<close>

definition sound :: "world \<Rightarrow> bool" where
  "sound w \<longleftrightarrow> guest_inv w \<and> ledger_inv w \<and> carpool_inv w"

lemma sound_outbox: "sound w \<Longrightarrow> only_outbox w v \<Longrightarrow> sound v"
  by (auto simp: sound_def intro: guest_inv_only_outbox ledger_inv_only_outbox carpool_inv_only_outbox)

lemma sound_same_data: "sound w \<Longrightarrow> same_data w v \<Longrightarrow> sound v"
  by (rule sound_outbox) (auto intro: only_outbox_same_data)

lemma sound_punctual:
  assumes "sound w" and "db v = punctual w" and "seqs v = seqs w"
  shows "sound v"
proof -
  have "guest_inv v"
    by (rule guest_inv_keys [of w])
      (use assms(1) in \<open>simp_all add: sound_def assms(2,3) punctual_tables\<close>, simp_all add: punctual_def expire_tables(2,3))
  moreover have "ledger_inv v"
    by (rule ledger_inv_tables [of w]) (use assms in \<open>simp_all add: sound_def punctual_tables\<close>)
  moreover have "carpool_inv v"
    by (rule carpool_inv_mono [of w]) (use assms in \<open>simp_all add: sound_def punctual_tables\<close>)
  ultimately show ?thesis by (simp add: sound_def)
qed

lemma drop_subset: "set (carpools (left_carpools ev u d)) \<subseteq> {c'. \<exists>c \<in> set (carpools d). c_id c' = c_id c}"
  by (auto simp: left_carpools_def Let_def delete_carpool_row_def unseated_def split: option.split)

lemma answered_sound:
  assumes "sound w" and "db v = answered ev u target (db w)" and "seqs v = seqs w"
  shows "sound v"
proof -
  have rows: "ledger_rows (db w)" "carpool_ok (db w)" "catalogue_ok (db w)"
    using assms(1) by (simp_all add: sound_def ledger_inv_def carpool_inv_def)
  have "guest_inv v"
    by (rule guest_inv_keys [of w])
      (use assms in \<open>simp_all add: sound_def answered_tables set_status_def\<close>)
  moreover have "catalogue_ok (db v)"
  proof -
    have "map (\<lambda>e. ei_item_id e) (events_items (fold (lower_quantity ev) rs d)) = map (\<lambda>e. ei_item_id e) (events_items d)" for rs d
    proof (induction rs arbitrary: d)
      case (Cons r rs)
      show ?case using Cons [of "lower_quantity ev r d"] by (simp add: lower_quantity_def)
    qed simp
    then have ret: "map ei_item_id (events_items (returned ev u d)) = map ei_item_id (events_items d)" for d
      by (simp add: returned_def)
    have left: "events_items (left_carpools ev u d) = events_items d" for d
      by (subst left_carpools_frame) simp
    have "map ei_item_id (events_items (answered ev u target (db w))) = map ei_item_id (events_items (db w))"
      by (cases "target = Declined") (simp_all add: answered_def Let_def left ret)
    from arg_cong [OF this, of set]
    have ids: "ei_item_id ` set (events_items (db v)) = ei_item_id ` set (events_items (db w))"
      by (simp add: assms(2))
    have same: "items (db v) = items (db w)" "item_types (db v) = item_types (db w)"
      by (simp_all add: assms(2) answered_tables)
    have listed: "\<forall>k \<in> ei_item_id ` set (events_items (db w)). \<exists>i \<in> set (items (db w)). it_id i = k"
      using rows(3) by (simp add: catalogue_ok_def)
    show ?thesis
      using rows(3) listed [folded ids] unfolding catalogue_ok_def same by simp
  qed
  moreover have "\<forall>c \<in> set (carpools (db v)). 0 < c_id c \<and> c_id c \<le> seqs v CarpoolSeq"
  proof -
    have same: "carpools (returned ev u (set_status ev u target d)) = carpools d" for d
      unfolding returned_def by (subst lower_quantity_frame) simp
    have "set (carpools (db v)) \<subseteq> {c'. \<exists>c \<in> set (carpools (db w)). c_id c' = c_id c}"
      unfolding assms(2) answered_def Let_def
      using drop_subset [of ev u "returned ev u (set_status ev u target (db w))"] by (auto simp: same)
    then show ?thesis using assms(1,3) by (force simp: sound_def carpool_inv_def)
  qed
  ultimately show ?thesis
    using answered_ledger(1) [OF rows(1)] answered_carpools(1) [OF rows(2)] assms
    by (simp add: sound_def ledger_inv_def carpool_inv_def)
qed

end
