(* ===== verification/Invitation_Answers.thy ===== *)
theory Invitation_Answers
  imports Invitation_Handlers
begin

text \<open>
  The handlers by which a guest acts: answering an invitation, and opening a link.
\<close>

section \<open>Answering\<close>

interpretation sound_tables: table_invariant sound
proof
  fix w w' assume "sound w" "db w' = db w" "later w w'"
  then show "sound w'"
    using guest_tables.rollback [of w w'] ledger_inv_tables [of w w'] carpool_inv_mono [of w w']
    by (auto simp: sound_def later_def)
qed

lemma grows_respond_body: "grows (respond_body ev u target)"
  unfolding respond_body_def leave_carpools_def
  by (intro grows_intros grows_refusal grows_quiet [OF quiet_query] grows_quiet [OF quiet_checks [OF checks_some_or]]
      grows_quiet [OF quiet_checks [OF checks_require]] grows_quiet [OF quiet_checks [OF checks_return]])

lemma grows_commit_unless_aborted: "grows body \<Longrightarrow> grows (commit_unless_aborted e body)"
  unfolding grows_def commit_unless_aborted_def
  by (auto split: prod.split sum.split intro: later_trans [OF later_tick(1)])
    (metis later_tick later_trans snd_conv)+

text \<open>What an answer may do: all of it, or nothing when the transaction was aborted.\<close>

definition taken :: "int \<Rightarrow> int \<Rightarrow> invitation_status \<Rightarrow> world \<Rightarrow> world \<Rightarrow> bool" where
  "taken ev u target w v \<longleftrightarrow> db v = answered ev u target (db w) \<or> faults w \<noteq> [] \<and> target = Declined \<and> db v = db w"

lemma carry_out_spec:
  "wp (commit_unless_aborted db_error (respond_body ev u target))
    (\<lambda>_ v. standing (db w) (ev, u) \<noteq> None \<and> standing (db w) (ev, u) \<noteq> Some Expired \<and> later w v \<and> taken ev u target w v)
    (\<lambda>_ v. later w v \<and> db v = db w) w"
proof -
  let ?open = "standing (db w) (ev, u) \<noteq> None \<and> standing (db w) (ev, u) \<noteq> Some Expired"
  have "wp (commit_unless_aborted db_error (respond_body ev u target))
    (\<lambda>_ v. (?open \<and> faults w \<noteq> [] \<and> target = Declined) \<and> db v = db w \<or> ?open \<and> db v = answered ev u target (db w))
    (\<lambda>_ v. db v = db w) w"
  proof (rule wp_mono [OF wp_commit_unless_aborted [where A = "\<lambda>aborted. ?open \<and> (aborted \<longrightarrow> faults w \<noteq> [] \<and> target = Declined)"
          and Q = "\<lambda>_ v. ?open \<and> db v = answered ev u target (db w)"]], goal_cases)
    case 1
    show ?case
    proof (rule wp_mono [OF respond_body_spec], goal_cases)
      case (1 p v)
      then show ?case
        by (cases p) (auto simp: same_data_def tick_def split: if_splits)
    qed simp
  qed auto
  from wp_conj [OF this wp_grows [OF grows_commit_unless_aborted [OF grows_respond_body] later_refl]]
  show ?thesis by (rule wp_mono) (auto simp: taken_def)
qed

lemma tells_announce: "tells (announce_answer ev u em owner target view)"
  unfolding announce_answer_def find_user_id_by_email_def
  by (intro tell_intros quiet_query)

text \<open>The answer of user \<open>u\<close> counts, with overdue invitations expired first.\<close>

definition may_answer :: "world \<Rightarrow> request \<Rightarrow> int \<Rightarrow> int \<Rightarrow> bool" where
  "may_answer w req ev u \<longleftrightarrow> speaks_for w req u \<and> writable w ev
     \<and> standing (punctual w) (ev, u) \<noteq> None \<and> standing (punctual w) (ev, u) \<noteq> Some Expired"

lemma respond_invitation_spec:
  "wp (respond_invitation req ev status)
    (\<lambda>_ v. \<exists>u target v0. may_answer w req ev u \<and> parse_response status = Some target
       \<and> later w v0 \<and> taken ev u target (w\<lparr>db := punctual w\<rparr>) v0 \<and> only_outbox v0 v)
    (\<lambda>_ v. later w v \<and> (db v = db w \<or> db v = punctual w)) w"
  unfolding respond_invitation_def
proof (intro invitation_guards [where w = w] same_data_refl, goal_cases)
  case (5 em v1 x v2 target v3 u v4 owner v5)
  note same = 5(9)
  have v5: "db v5 = db w" "clock v5 = clock w" "later w v5"
    using same by (simp_all add: same_data_def later_def)
  have you: "speaks_for w req (u_id u)"
    using 5(2,8) by (auto simp: speaks_for_def)
  let ?tail = "\<lambda>updated. andthen (announce_answer ev (u_id u) em owner target updated) (\<lambda>_. return (Answer 200 updated))"
  let ?Q = "\<lambda>_ v. \<exists>u target v0. may_answer w req ev u \<and> parse_response status = Some target
       \<and> later w v0 \<and> taken ev u target (w\<lparr>db := punctual w\<rparr>) v0 \<and> only_outbox v0 v"
  let ?E = "\<lambda>_ v. later w v \<and> (db v = db w \<or> db v = punctual w)"
  let ?v = "(tick v5)\<lparr>db := punctual w\<rparr>"
  have lv: "later w ?v" using v5(3) by (auto simp: later_def)
  have "wp (andthen (commit_unless_aborted db_error (respond_body ev (u_id u) target)) ?tail) ?Q ?E ?v"
    unfolding wp_andthen [of "commit_unless_aborted _ _"]
  proof (rule wp_mono [OF carry_out_spec], goal_cases)
    case (1 view v)
    then have *: "may_answer w req ev (u_id u)" "later w v" "taken ev (u_id u) target (w\<lparr>db := punctual w\<rparr>) v"
      using you 5(4) lv later_trans [OF lv] by (auto simp: may_answer_def taken_def later_def)
    show ?case
      by (intro wp_told [OF tells_announce only_outbox_refl]) (use * 5(6) in \<open>auto intro!: exI\<close>)
  next
    case (2 e v)
    then show ?case using later_trans [OF lv] by simp
  qed
  then show ?case
    unfolding expire_overdue_invitations_def wp_andthen [of "execute _ _"] wp_execute
    using v5 by (simp add: punctual_def later_def)
qed (auto simp: same_data_def later_def)

section \<open>Opening a link\<close>

text \<open>The abstract state of the links: which have been used, when and by whom.\<close>

definition has_hash :: "string \<Rightarrow> share_token \<Rightarrow> bool" where
  "has_hash h s \<longleftrightarrow> st_token_hash s = h"

definition spent :: "database \<Rightarrow> string \<Rightarrow> (micros \<times> int option) option" where
  "spent d h = Option.bind (find (has_hash h) (share_tokens d)) (\<lambda>s. map_option (\<lambda>t. (t, st_used_by s)) (st_used_at s))"

lemma spent_cong: "share_tokens d' = share_tokens d \<Longrightarrow> spent d' = spent d"
  by (simp add: spent_def fun_eq_iff)

lemma spent_use:
  assumes "\<exists>s \<in> set (share_tokens d). has_hash h s"
  shows "spent (d\<lparr>share_tokens := update_where (\<lambda>s. st_token_hash s = h)
      (\<lambda>s. s\<lparr>st_used_at := Some t, st_used_by := Some u\<rparr>) (share_tokens d)\<rparr>) = (spent d)(h \<mapsto> (t, Some u))"
proof (rule ext)
  fix h'
  let ?f = "\<lambda>s. if st_token_hash s = h then s\<lparr>st_used_at := Some t, st_used_by := Some u\<rparr> else s"
  have "find (has_hash h') (map ?f ss) = map_option ?f (find (has_hash h') ss)" for ss
    by (induction ss) (auto simp: has_hash_def)
  moreover obtain s where "find (has_hash h) (share_tokens d) = Some s" "st_token_hash s = h"
    using assms find_None_iff [of "has_hash h" "share_tokens d"] find_SomeD [of "has_hash h" "share_tokens d"]
    by (cases "find (has_hash h) (share_tokens d)") (auto simp: has_hash_def)
  moreover have "st_token_hash s \<noteq> h" if "h' \<noteq> h" "find (has_hash h') (share_tokens d) = Some s" for s
    using find_SomeD [OF that(2)] that(1) by (simp add: has_hash_def)
  ultimately show "spent (d\<lparr>share_tokens := update_where (\<lambda>s. st_token_hash s = h)
      (\<lambda>s. s\<lparr>st_used_at := Some t, st_used_by := Some u\<rparr>) (share_tokens d)\<rparr>) h' = ((spent d)(h \<mapsto> (t, Some u))) h'"
    by (cases "h' = h"; cases "find (has_hash h') (share_tokens d)") (simp_all add: spent_def update_where_def)
qed

text \<open>A link that this reader may use now.\<close>

definition claimable :: "world \<Rightarrow> string \<Rightarrow> string \<Rightarrow> share_token \<Rightarrow> bool" where
  "claimable w email h s \<longleftrightarrow> s \<in> set (share_tokens (db w)) \<and> has_hash h s \<and> st_used_at s = None
     \<and> clock w \<le> st_expires_at s
     \<and> (case st_target_email s of None \<Rightarrow> True | Some expected \<Rightarrow> eq_ignore_ascii_case expected email)"

lemma claimable_same_data: "same_data w v \<Longrightarrow> claimable v email h s = claimable w email h s"
  by (simp add: claimable_def same_data_def)

lemma checks_token [check_intros]: "checks (check_token email h) (\<lambda>w. claimable w email h)"
proof (rule checksI)
  show "stable (\<lambda>w. claimable w email h)"
    by (simp add: stable_def claimable_same_data)
  show "wp (check_token email h) (\<lambda>x v. same_data w v \<and> claimable w email h x) (\<lambda>_. same_data w) w" for w
    unfolding check_token_def
  proof (intro invitation_guards [where w = w] same_data_refl, goal_cases)
    case (6 row v s v2 x v3 t v4 y v5 z v6)
    then show ?case
      using find_SomeD [of "\<lambda>s. st_token_hash s = h" "share_tokens (db w)" s]
      by (simp add: claimable_def has_hash_def)
  qed simp_all
qed

lemma checks_select_event [check_intros]: "checks (query e (\<lambda>w. select_event w ev)) (\<lambda>w x. x = select_event w ev)"
  by (intro checks_query reads_dataI) (simp add: select_event_def with_owner_def [abs_def])

lemmas link_guards = check_intros [THEN wp_checked]

lemma insert_if_absent_spec:
  assumes inv: "guest_inv w" and r: "insert_if_absent ev u w = (r, v)"
  shows "guest_inv v \<and> later w v \<and> guest_list_only w v \<and> share_tokens (db v) = share_tokens (db w) \<and> clock v = clock w
    \<and> (\<forall>b. r = Inr b \<longrightarrow> b = (standing (db w) (ev, u) = None)
         \<and> standing (db v) = (if b then (standing (db w))((ev, u) \<mapsto> Waiting) else standing (db w)))"
proof -
  have seq: "later w (w\<lparr>seqs := (seqs w)(InvitationSeq := seqs w InvitationSeq + 1)\<rparr>)"
    using later_nextval [of w InvitationSeq] by (simp add: nextval_def)
  have stay: "guest_inv (w\<lparr>seqs := (seqs w)(InvitationSeq := seqs w InvitationSeq + 1)\<rparr>)"
    by (rule guest_inv_tables [OF inv]) simp_all
  have row: "exists_where (is_invitation ev u) (invitations (db w)) \<longleftrightarrow> standing (db w) (ev, u) \<noteq> None"
    by (auto simp: standing_def find_None_iff exists_where_iff)
  consider "v = w\<lparr>seqs := (seqs w)(InvitationSeq := seqs w InvitationSeq + 1)\<rparr>" "standing (db w) (ev, u) \<noteq> None" "r = Inr False"
    | "v = w\<lparr>seqs := (seqs w)(InvitationSeq := seqs w InvitationSeq + 1)\<rparr>" "\<forall>b. r \<noteq> Inr b"
    | "standing (db w) (ev, u) = None" "r = Inr True"
      "v = w\<lparr>seqs := (seqs w)(InvitationSeq := seqs w InvitationSeq + 1), db := (db w)\<lparr>invitations := invitations (db w)
          @ [\<lparr>i_event_id = ev, i_user_id = u, i_status = Waiting, i_date = clock w, i_id = seqs w InvitationSeq + 1\<rparr>]\<rparr>\<rparr>"
    using r row unfolding insert_if_absent_def Let_def nextval_def by (auto split: if_splits)
  then show ?thesis
  proof cases
    case 3
    then show ?thesis
      using new_invitation [OF inv 3(1), of v] seq by (auto simp: guest_list_only_def)
  qed (use seq stay in \<open>auto simp: guest_list_only_def\<close>)
qed

lemma use_token_spec:
  assumes inv: "guest_inv w" and r: "use_token h u w = (r, v)" and s: "\<exists>s \<in> set (share_tokens (db w)). has_hash h s"
  shows "guest_inv v \<and> guest_list_only w v \<and> standing (db v) = standing (db w)
    \<and> (r = Inr () \<longrightarrow> spent (db v) = (spent (db w))(h \<mapsto> (clock w, Some u)))"
proof (cases "r = Inr ()")
  case True
  then have v: "v = w\<lparr>db := (db w)\<lparr>share_tokens := update_where (\<lambda>s. st_token_hash s = h)
      (\<lambda>s. s\<lparr>st_used_at := Some (clock w), st_used_by := Some u\<rparr>) (share_tokens (db w))\<rparr>\<rparr>"
    using r by (simp add: use_token_def Let_def split: if_splits)
  have "guest_inv v" by (rule guest_inv_keys [OF inv]) (simp_all add: v)
  then show ?thesis
    using spent_use [OF s, where t = "clock w" and u = u] by (simp add: v guest_list_only_def standing_def)
next
  case False
  then have "v = w" using r by (simp add: use_token_def Let_def split: if_splits)
  then show ?thesis using inv False by simp
qed

text \<open>
  Opening a link uses it up, for the account of this address, which is invited unless it has a
  standing in the event already.
\<close>

definition opened :: "world \<Rightarrow> string \<Rightarrow> string \<Rightarrow> world \<Rightarrow> bool" where
  "opened w email h v \<longleftrightarrow> (\<exists>s r. claimable w email h s \<and> user_by_email w email = Some r
     \<and> writable w (st_event_id s) \<and> \<not> closed w (st_event_id s)
     \<and> spent (db v) = (spent (db w))(h \<mapsto> (clock w, Some (u_id r)))
     \<and> standing (db v) = (if standing (db w) (st_event_id s, u_id r) = None
         then (standing (db w))((st_event_id s, u_id r) \<mapsto> Waiting) else standing (db w)))"

lemma opened_same_data:
  assumes "same_data w u"
  shows "opened u email h v = opened w email h v"
proof -
  have "closed u ev = closed w ev" for ev using assms by (simp add: closed_def same_data_def cong: option.case_cong)
  then show ?thesis
    using assms by (simp add: opened_def claimable_same_data [OF assms] user_by_email_stable [OF assms] writable_same_data [OF assms])
      (simp add: same_data_def)
qed

lemma opened_outbox: "opened w email h v \<Longrightarrow> only_outbox v v' \<Longrightarrow> opened w email h v'"
  by (auto simp: opened_def only_outbox_standing spent_cong [OF only_outbox_tables(14)])

lemma claim_body_spec:
  assumes inv: "guest_inv w"
  shows "wp (claim_body email h)
    (\<lambda>_ v. guest_inv v \<and> guest_list_only w v \<and> opened w email h v)
    (\<lambda>_ _. True) w"
  unfolding claim_body_def
proof (intro link_guards [where w = w] same_data_refl, goal_cases)
  case (7 s v1 x v2 row v3 ev v4 t v5 y v6 u v7)
  note same = 7(13)
  have v7: "db v7 = db w" "clock v7 = clock w" using same by (simp_all add: same_data_def)
  have inv7: "guest_inv (tick v7)" using guest_tables.inv_same_data [OF inv same] by (simp add: guest_tables.inv_tick)
  obtain r where r: "user_by_email w email = Some r" "u_id r = u" using 7(14) by blast
  have here: "e_id (evw_event ev) = st_event_id s" "find (\<lambda>e. e_id e = st_event_id s) (events (db w)) = Some (evw_event ev)"
  proof -
    have "select_event w (st_event_id s) = Some ev" using 7(6,8) by simp
    then obtain e where e: "find (\<lambda>e. e_id e = st_event_id s) (events (db w)) = Some e" "with_owner w e = Some ev"
      unfolding select_event_def bind_eq_Some_conv by blast
    moreover have "evw_event ev = e" using e(2) by (auto simp: with_owner_def event_projection_def)
    ultimately show "e_id (evw_event ev) = st_event_id s" "find (\<lambda>e. e_id e = st_event_id s) (events (db w)) = Some (evw_event ev)"
      using find_SomeD [OF e(1)] by simp_all
  qed
  have open': "\<not> closed w (st_event_id s)" using 7(10,12) here(2) by (simp add: closed_def)
  have rows: "\<exists>s \<in> set (share_tokens (db w)). has_hash h s" using 7(2) by (auto simp: claimable_def)
  show ?case
    unfolding wp_andthen [of "stmt _ (insert_if_absent _ _)"]
  proof (rule wp_stmtI, goal_cases)
    case (1 b v)
    note f = insert_if_absent_spec [OF inv7 1]
    show ?case
      unfolding wp_andthen [of "stmt _ (use_token _ _)"]
    proof (rule wp_stmtI, goal_cases)
      case (1 z v')
      have s': "\<exists>s \<in> set (share_tokens (db (tick v))). has_hash h s" using f rows by (simp add: v7)
      have "guest_inv (tick v)" using f by (simp add: guest_tables.inv_tick)
      from use_token_spec [OF this 1 s'] f show ?case
        using 7(2,4) r open' here spent_cong [of "db v" "db w"]
        by (auto simp: v7 guest_list_only_def opened_def)
    qed simp_all
  qed simp_all
qed simp_all

lemma claim_share_link_spec:
  assumes inv: "guest_inv w"
  shows "wp (claim_share_link req raw)
    (\<lambda>_ v. guest_inv v \<and> guest_list_only w v \<and> (\<exists>x token. live_session w req x \<and> uuid_parse (cfg w) (trim raw) = Some token
       \<and> opened w (u_email x) (sha256_hex (cfg w) (uuid_show (cfg w) token)) v))
    (\<lambda>_ v. db v = db w) w"
  unfolding claim_share_link_def Let_def
proof (intro invitation_guards [where w = w] same_data_refl, goal_cases)
  case (4 x v1 y v2 st v3 token v4)
  note same = 4(7)
  have v4: "db v4 = db w" and st: "cfg st = cfg w"
    using same 4(6) by (simp_all add: same_data_def)
  have inv4: "guest_inv (tick v4)" using guest_tables.inv_same_data [OF inv same] by (simp add: guest_tables.inv_tick)
  have tail: "tells (andthen (if fresh
       then andthen (publish_event_type (e_id (evw_event ev)) ''event.invitations.changed'') (\<lambda>_.
         publish_global_type ''invitations.changed'')
       else return ()) (\<lambda>_. return (Answer 200 ev)))" for fresh ev
    by (intro tell_intros)
  show ?case
    unfolding wp_andthen [of "transact _ _"] st
  proof (rule wp_mono [OF wp_transact_success [OF claim_body_spec [OF inv4]]], goal_cases)
    case (1 p v)
    then show ?case by (auto simp: guest_list_only_def guest_tables.inv_tick opened_def)
  next
    case (2 p v)
    obtain ev fresh where p: "p = (ev, fresh)" by force
    have r: "guest_inv v" "guest_list_only w v" "opened w (u_email x) (sha256_hex (cfg w) (uuid_show (cfg w) token)) v"
      using 2 opened_same_data [of w "tick v4"] same by (simp_all add: v4 guest_list_only_def)
    show ?case
      unfolding p prod.case
      by (rule wp_tells [OF tail only_outbox_refl])
        (use r 4(2) 4(8) st in \<open>auto intro: guest_inv_only_outbox opened_outbox guest_list_only_trans [OF _ only_outbox_guest_list]\<close>)
  qed (simp add: v4)
qed (simp_all add: same_data_def)

section \<open>The list of guests\<close>

lemma participant_spec:
  "checks (ensure_event_participant req ev) (\<lambda>w _. \<exists>u. speaks_for w req u
     \<and> (accepted_member (db w) ev u \<or> (\<exists>e \<in> set (events (db w)). e_id e = ev \<and> e_owner_id e = u)))"
    (is "checks _ (\<lambda>w _. ?P w)")
proof (rule checksI)
  show "stable (\<lambda>w _. ?P w)"
    unfolding stable_def
  proof (intro allI impI)
    fix w v assume same: "same_data w v"
    then have "db v = db w" by (simp add: same_data_def)
    then show "?P v = ?P w" by (simp add: speaks_for_same_data [OF same])
  qed
  show "wp (ensure_event_participant req ev) (\<lambda>_ v. same_data w v \<and> ?P w) (\<lambda>_. same_data w) w" for w
    unfolding ensure_event_participant_def
  proof (intro invitation_guards [where w = w] same_data_refl, goal_cases)
    case (4 em v1 u v2 row v3 own v4)
    have you: "speaks_for w req (u_id u)" using 4(2,4) by (auto simp: speaks_for_def)
    show ?case
    proof (cases "own = u_id u")
      case True
      have "map_option e_owner_id (find (\<lambda>e. e_id e = ev) (events (db w))) = Some own" using 4(6,8) by simp
      then obtain e where "find (\<lambda>e. e_id e = ev) (events (db w)) = Some e" "e_owner_id e = own" by blast
      from this(2) find_SomeD [OF this(1)] have "\<exists>e \<in> set (events (db w)). e_id e = ev \<and> e_owner_id e = own" by blast
      with True you 4(7) show ?thesis by auto
    next
      case False
      have "wp (andthen (query db_error (\<lambda>w. accepted_member (db w) ev (u_id u))) (\<lambda>is_member.
          require is_member (forbidden ''forbidden''))) (\<lambda>_ v. same_data w v \<and> ?P w) (\<lambda>_. same_data w) v4"
      proof (intro invitation_guards [where w = w] 4(7), goal_cases)
        case (1 b v5)
        then show ?case
          by (intro checks_wp [OF checks_require 1(1)]) (use you in auto)
      qed assumption
      then show ?thesis using False by simp
    qed
  qed assumption
qed

text \<open>What a reader sees of one guest.\<close>

definition shown_to :: "string \<Rightarrow> string \<Rightarrow> invitation_view \<Rightarrow> bool" where
  "shown_to owner_email reader v \<longleftrightarrow> eq_ignore_ascii_case owner_email reader
     \<or> iv_user_id v \<noteq> None \<and> (iv_email v = [] \<or> eq_ignore_ascii_case (iv_email v) reader
          \<or> eq_ignore_ascii_case (iv_email v) owner_email)"

lemma hidden_rows: "v \<in> set (hide_from_guest owner_email reader rows) \<Longrightarrow> shown_to owner_email reader v"
  by (auto simp: hide_from_guest_def shown_to_def split: if_splits)

lemma json_page_subset: "set (fst (json_page rows limit cur)) \<subseteq> set rows"
  by (auto simp: json_page_def Let_def dest: in_set_takeD)

lemma quiet_invitations_statement: "snd (invitations_statement ev pg w) = w"
  by (simp add: invitations_statement_def split: option.split)

lemma list_event_invitations_spec:
  "wp (list_event_invitations req ev q)
    (\<lambda>a v. \<exists>u s owner. speaks_for w req u \<and> live_session w req s \<and> owner_of (db w) ev = Some owner
       \<and> (accepted_member (db w) ev u \<or> (\<exists>e \<in> set (events (db w)). e_id e = ev \<and> e_owner_id e = u))
       \<and> (\<forall>g \<in> set (fst (ans_body a)). shown_to (u_email owner) (lowercase (cfg w) (u_email s)) g))
    (\<lambda>_ _. True) w"
  unfolding list_event_invitations_def
proof (rule wp_checked [OF checks_claims_email same_data_refl], goal_cases)
  case (1 em v1)
  obtain s where s: "live_session w req s" "em = lowercase (cfg w) (u_email s)" using 1(2) by blast
  show ?case
    using 1(1)
  proof (rule wp_checked [OF checks_owner_email], goal_cases)
    case (1 owner v2)
    obtain r where r: "owner_of (db w) ev = Some r" "u_email r = owner" using 1(2) by blast
    show ?case
      using 1(1)
    proof (rule wp_checked [OF participant_spec], goal_cases)
      case (1 y v3)
      show ?case
        using 1(1)
      proof (intro invitation_guards [where w = w], goal_cases)
        case (3 st v4 pg v5)
        show ?case
          unfolding wp_andthen
        proof (rule wp_stmtI, goal_cases)
          case (1 rows v6)
          have "shown_to owner em g" if "g \<in> set (fst (case pg of
              None \<Rightarrow> (hide_from_guest owner em rows, None)
            | Some p \<Rightarrow> json_page (hide_from_guest owner em rows) (pg_limit p) (\<lambda>v. show_int (timestamp_millis (iv_date_invi v)))))" for g
            using that by (auto split: option.splits dest: hidden_rows subsetD [OF json_page_subset])
          moreover note \<open>\<exists>u. speaks_for w req u
              \<and> (accepted_member (db w) ev u \<or> (\<exists>e \<in> set (events (db w)). e_id e = ev \<and> e_owner_id e = u))\<close>
          ultimately show ?case using s r by (auto simp: Let_def)
        qed simp_all
      qed simp_all
    qed simp
  qed simp
qed simp

end
