(* ===== verification/Invitation_Properties.thy ===== *)
theory Invitation_Properties
  imports Invitation_Answers
begin

text \<open>
  What invitations and links promise: the standing of the guests of an event, what a refusal and a
  removal leave behind, and who may use a link.
\<close>

section \<open>A concrete party\<close>

text \<open>
  Bob has accepted, reserved two bottles and a seat with Ada; Cyd has not answered; Dan and Mango are
  not invited.  There is an open link, and one for eve@x.
\<close>

definition party_db :: database where
  "party_db = example_db\<lparr>users := users example_db @ [example_user 5 ''mango''],
     invitations := [\<lparr>i_event_id = 10, i_user_id = 2, i_status = Accepted, i_date = 0, i_id = 1\<rparr>,
       \<lparr>i_event_id = 10, i_user_id = 3, i_status = Waiting, i_date = 0, i_id = 2\<rparr>],
     carpools := [\<lparr>c_id = 20, c_event_id = 10, c_driver_id = 1, c_origin = ''Lyon'', c_origin_latitude = None,
       c_origin_longitude = None, c_depart_at = 900, c_seats_total = 3, c_seats_taken = 1, c_notes = None,
       c_created_at = 0, c_updated_at = 0\<rparr>],
     passengers := [\<lparr>cp_carpool_id = 20, cp_event_id = 10, cp_user_id = 2, cp_joined_at = 0\<rparr>],
     share_tokens := [\<lparr>st_token_hash = ''7'', st_event_id = 10, st_created_by = Some 1, st_used_at = None,
         st_used_by = None, st_expires_at = 900, st_target_email = None, st_target_hash = None, st_created_at = 0\<rparr>,
       \<lparr>st_token_hash = ''8'', st_event_id = 10, st_created_by = Some 1, st_used_at = None,
         st_used_by = None, st_expires_at = 900, st_target_email = Some ''eve@x'', st_target_hash = Some ''eve@x'',
         st_created_at = 0\<rparr>],
     item_types := [\<lparr>ty_id = 1, ty_name = ''drinks''\<rparr>],
     items := [\<lparr>it_id = 5, it_type_id = 1, it_name = ''wine'', it_max_quantity = 9, it_unit_label = ''bottle'', it_kind = Need\<rparr>],
     events_items := [\<lparr>ei_event_id = 10, ei_item_id = 5, ei_max_quantity = 6, ei_quantity = 2, ei_created_by = Some 1\<rparr>],
     user_items := [\<lparr>ui_user_id = 2, ui_event_id = 10, ui_item_id = 5, ui_quantity = 2\<rparr>]\<rparr>"

definition party_world :: world where
  "party_world = (example_world party_db)\<lparr>cfg := example_config\<lparr>
     uuid_parse := (\<lambda>s. if s = ''seven'' then Some 7 else if s = ''eight'' then Some 8 else None)\<rparr>\<rparr>"

definition guest_cookie :: "string \<Rightarrow> request" where
  "guest_cookie name = \<lparr>r_authorization = None, r_session_cookie = Some (name @ ''@x'')\<rparr>"

lemma party_rows:
  "carpool_ok party_db" "ledger_rows party_db" "catalogue_ok party_db" "guest_ok party_db"
  by code_simp+

lemma party_sound: "sound party_world"
  using party_rows
  by (simp add: sound_def guest_inv_def ledger_inv_def carpool_inv_def party_world_def)
    (simp add: party_db_def)

lemma party_guests: "guest_inv party_world"
  using party_sound by (simp add: sound_def)

section \<open>Properties\<close>



text \<open>
  C28. Answering refines one step of the standing.  Overdue invitations expire first; then only the
  user of the session answers, with \<open>Accepted\<close> or \<open>Declined\<close>, on an event that is not over and on
  which this user has a standing that is not expired; the answer becomes the standing of this user and
  of nobody else.  (When a statement fails, a refusal may be lost, as stated below.)
\<close>

theorem answering_refines_standing:
  assumes "guest_inv w"
  shows "wp (respond_invitation req ev status)
    (\<lambda>_ v. \<exists>u target. may_answer w req ev u \<and> parse_response status = Some target
       \<and> (faults w = [] \<or> target = Accepted \<longrightarrow>
            standing (db v) = (expired_standing (day_of (clock w)) (db w))((ev, u) \<mapsto> target)))
    (\<lambda>_ v. standing (db v) = standing (db w) \<or> standing (db v) = expired_standing (day_of (clock w)) (db w)) w"
proof (rule wp_mono [OF respond_invitation_spec], goal_cases)
  case (1 a v)
  then obtain u target v0 where *: "may_answer w req ev u" "parse_response status = Some target"
    "taken ev u target (w\<lparr>db := punctual w\<rparr>) v0" "only_outbox v0 v" by blast
  have "standing (db v) = (standing (punctual w))((ev, u) \<mapsto> target)" if "faults w = [] \<or> target = Accepted"
  proof -
    have "db v0 = answered ev u target (punctual w)" using *(3) that by (auto simp: taken_def)
    then show ?thesis
      using answered_standing [of "punctual w" ev u target] *(1,4) by (simp add: only_outbox_standing may_answer_def)
  qed
  then show ?case using * by (auto simp: punctual_def standing_expire)
qed (auto simp: punctual_def standing_expire)

lemma answering_refines_standing_witness:
  "\<exists>u. standing (db (snd (respond_invitation (guest_cookie ''cyd'') 10 (Some '' Accepted'') party_world))) (10, u) = Some Accepted
     \<and> speaks_for party_world (guest_cookie ''cyd'') u"
proof -
  let ?call = "respond_invitation (guest_cookie ''cyd'') 10 (Some '' Accepted'')"
  have "succeeds ?call party_world" by code_simp
  from wp_succeeds [OF answering_refines_standing [OF party_guests] this]
  obtain u target where u: "may_answer party_world (guest_cookie ''cyd'') 10 u"
    "parse_response (Some '' Accepted'') = Some target"
    "faults party_world = [] \<longrightarrow> standing (db (snd (?call party_world)))
      = (expired_standing (day_of (clock party_world)) (db party_world))((10, u) \<mapsto> target)" by blast
  have "parse_response (Some '' Accepted'') = Some Accepted" by code_simp
  moreover have "faults party_world = []" by (simp add: party_world_def)
  ultimately have "standing (db (snd (?call party_world))) (10, u) = Some Accepted" using u(2,3) by simp
  then show ?thesis using u(1) by (auto simp: may_answer_def)
qed

text \<open>
  C29. A refusal undoes what the guest took part in, and only that: every reservation of the guest in
  this event is given back, the guest's seat or own carpool is gone, everybody else's reservations
  stay, and roles change in no other way than that the passengers of a withdrawn carpool lose
  theirs.  The counters still add up: items, seats and guest list stay consistent, whatever the
  answer and whatever fails.
\<close>

theorem refusing_gives_everything_back:
  assumes "sound w"
  shows "wp (respond_invitation req ev status)
    (\<lambda>_ v. sound v \<and> (\<exists>u. speaks_for w req u \<and> (faults w = [] \<longrightarrow>
       (if parse_response status = Some Declined
        then share (db v) = (\<lambda>(u', ev', it). if u' = u \<and> ev' = ev then 0 else share (db w) (u', ev', it))
           \<and> role_of (db v) = without_role (ev, u) (role_of (db w))
        else share (db v) = share (db w) \<and> role_of (db v) = role_of (db w)))))
    (\<lambda>_ v. sound v \<and> share (db v) = share (db w) \<and> role_of (db v) = role_of (db w)) w"
proof -
  have same: "share (punctual w) = share (db w)" "role_of (punctual w) = role_of (db w)"
    "ledger_rows (punctual w) = ledger_rows (db w)" "carpool_ok (punctual w) = carpool_ok (db w)"
    using ledger_rows_cong [of "punctual w" "db w"] same_columns [of "punctual w" "db w"]
    by (simp_all add: punctual_tables)
  have ok: "ledger_rows (punctual w)" "carpool_ok (punctual w)" "sound (w\<lparr>db := punctual w\<rparr>)"
    using assms sound_punctual [OF assms, of "w\<lparr>db := punctual w\<rparr>"] unfolding same
    by (simp_all add: sound_def ledger_inv_def carpool_inv_def)
  show ?thesis
  proof (rule wp_mono [OF respond_invitation_spec], goal_cases)
    case (1 a v)
    then obtain u target v0 where *: "may_answer w req ev u" "parse_response status = Some target" "later w v0"
      "taken ev u target (w\<lparr>db := punctual w\<rparr>) v0" "only_outbox v0 v" by blast
    have tabs: "share (db v) = share (db v0)" "role_of (db v) = role_of (db v0)"
      using only_outbox_tables [OF *(5)] by (auto intro: ledger_rows_cong same_columns)
    have "sound v0"
    proof (cases "db v0 = answered ev u target (punctual w)")
      case True
      have "sound (w\<lparr>db := answered ev u target (punctual w)\<rparr>)"
        by (rule answered_sound [OF ok(3)]) simp_all
      then show ?thesis by (rule sound_tables.rollback) (use True *(3) in \<open>simp_all add: later_def\<close>)
    next
      case False
      then have "db v0 = punctual w" using *(4) by (simp add: taken_def)
      then show ?thesis using *(3) by (intro sound_tables.rollback [OF ok(3)]) (simp_all add: later_def)
    qed
    then have "sound v" by (rule sound_outbox) (rule *(5))
    moreover have "db v0 = answered ev u target (punctual w)" if "faults w = []"
      using *(4) that by (simp add: taken_def)
    ultimately show ?case
      using * answered_ledger(2) [OF ok(1), of ev u target] answered_carpools(2) [OF ok(2), of ev u target]
      by (intro conjI exI [of _ u]) (auto simp: tabs same may_answer_def)
  next
    case (2 e v)
    then show ?case
      using sound_tables.rollback [OF assms, of v] sound_tables.rollback [OF ok(3), of v] same
      by (auto simp: later_def)
  qed
qed

lemma refusing_gives_everything_back_witness:
  "\<exists>u. speaks_for party_world (guest_cookie ''bob'') u
     \<and> (\<forall>it. share (db (snd (respond_invitation (guest_cookie ''bob'') 10 (Some ''Declined'') party_world))) (u, 10, it) = 0)
     \<and> role_of (db (snd (respond_invitation (guest_cookie ''bob'') 10 (Some ''Declined'') party_world)))
         = without_role (10, u) (role_of (db party_world))"
proof -
  let ?call = "respond_invitation (guest_cookie ''bob'') 10 (Some ''Declined'')"
  have "succeeds ?call party_world" by code_simp
  from wp_succeeds [OF refusing_gives_everything_back [OF party_sound] this]
  obtain u where "speaks_for party_world (guest_cookie ''bob'') u"
    "faults party_world = [] \<longrightarrow> (if parse_response (Some ''Declined'') = Some Declined
      then share (db (snd (?call party_world))) = (\<lambda>(u', ev', it). if u' = u \<and> ev' = 10 then 0 else share (db party_world) (u', ev', it))
         \<and> role_of (db (snd (?call party_world))) = without_role (10, u) (role_of (db party_world))
      else share (db (snd (?call party_world))) = share (db party_world)
         \<and> role_of (db (snd (?call party_world))) = role_of (db party_world))" by blast
  moreover have "faults party_world = []" by (simp add: party_world_def)
  moreover have "parse_response (Some ''Declined'') = Some Declined" by code_simp
  ultimately show ?thesis by auto
qed

text \<open>
  Taking an invitation back is not a refusal.  Only the organiser takes one back, of an event that
  is not over, and exactly one guest loses the standing; but the reservations and the seats of this
  guest stay, although the guest is not a member any more.
\<close>

theorem removal_keeps_reservations_and_seats:
  assumes "guest_inv w"
  shows "wp (delete_invitation req ev ident)
    (\<lambda>_ v. (\<exists>u. organiser w req ev u) \<and> writable w ev
       \<and> (\<exists>u. standing (db w) (ev, u) \<noteq> None \<and> standing (db v) = (standing (db w))((ev, u) := None))
       \<and> share (db v) = share (db w) \<and> role_of (db v) = role_of (db w))
    (\<lambda>_ v. standing (db v) = standing (db w) \<and> share (db v) = share (db w) \<and> role_of (db v) = role_of (db w)) w"
proof -
  have same: "share (db v) = share (db w) \<and> role_of (db v) = role_of (db w)" if "guest_list_only w v" for v
  proof -
    have eq: "(db v)\<lparr>outbox := [], user_devices := [], invitations := [], share_tokens := []\<rparr>
       = (db w)\<lparr>outbox := [], user_devices := [], invitations := [], share_tokens := []\<rparr>"
      using that by (simp add: guest_list_only_def)
    have "events_items (db v) = events_items (db w)" using arg_cong [OF eq, of events_items] by simp
    moreover have "user_items (db v) = user_items (db w)" using arg_cong [OF eq, of user_items] by simp
    moreover have "carpools (db v) = carpools (db w)" using arg_cong [OF eq, of carpools] by simp
    moreover have "passengers (db v) = passengers (db w)" using arg_cong [OF eq, of passengers] by simp
    ultimately show ?thesis
      using ledger_rows_cong(2) [of "db v" "db w"] same_columns(2) [of "db v" "db w"] by simp
  qed
  show ?thesis
    by (rule wp_mono [OF delete_invitation_spec [OF assms]])
      (auto simp: uninvites_def undone_def dest: same)
qed

lemma removal_keeps_reservations_and_seats_witness:
  "standing (db (snd (delete_invitation (guest_cookie ''ada'') 10 ''1'' party_world))) (10, 2) = None
     \<and> share (db (snd (delete_invitation (guest_cookie ''ada'') 10 ''1'' party_world))) (2, 10, 5) = 2
     \<and> role_of (db (snd (delete_invitation (guest_cookie ''ada'') 10 ''1'' party_world))) (10, 2) = Some (Rides 20)"
proof -
  let ?call = "delete_invitation (guest_cookie ''ada'') 10 ''1''"
  have "succeeds ?call party_world" "standing (db (snd (?call party_world))) (10, 2) = None"
    "share (db party_world) (2, 10, 5) = 2" "role_of (db party_world) (10, 2) = Some (Rides 20)"
    by code_simp+
  with wp_succeeds [OF removal_keeps_reservations_and_seats [OF party_guests] this(1)]
  show ?thesis by auto
qed

text \<open>
  C30. A link is used once, and only by whom it is for.  Opening a link succeeds for a signed-in user with
  the token of a stored link that nobody has used, that is in time and that names no address or the
  user's own, on an event that is open.  The link is then marked as used by this user, and the user
  waits for an answer unless there was a standing already.  Every error leaves the tables alone.
\<close>

theorem a_link_is_used_once:
  assumes "guest_inv w"
  shows "wp (claim_share_link req raw)
    (\<lambda>_ v. guest_inv v \<and> guest_list_only w v \<and> (\<exists>x token h s r.
       live_session w req x \<and> uuid_parse (cfg w) (trim raw) = Some token
       \<and> h = sha256_hex (cfg w) (uuid_show (cfg w) token) \<and> spent (db w) h = None
       \<and> claimable w (u_email x) h s \<and> user_by_email w (u_email x) = Some r
       \<and> writable w (st_event_id s) \<and> \<not> closed w (st_event_id s)
       \<and> spent (db v) = (spent (db w))(h \<mapsto> (clock w, Some (u_id r)))
       \<and> standing (db v) = (if standing (db w) (st_event_id s, u_id r) = None
           then (standing (db w))((st_event_id s, u_id r) \<mapsto> Waiting) else standing (db w))))
    (\<lambda>_ v. db v = db w) w"
proof (rule wp_mono [OF claim_share_link_spec [OF assms]], goal_cases)
  case (1 a v)
  have "spent (db w) h = None" if "claimable w em h s" for em h s
  proof -
    have h: "has_hash h s" "s \<in> set (share_tokens (db w))" "st_used_at s = None" using that by (simp_all add: claimable_def)
    have "find (has_hash h) (share_tokens (db w)) = Some s"
      using h find_Some_iff_key [of st_token_hash "share_tokens (db w)" h s] assms
      by (simp add: guest_inv_def guest_ok_def has_hash_def [abs_def])
    then show ?thesis by (simp add: spent_def h)
  qed
  with 1 show ?case unfolding opened_def by blast
qed

lemma a_link_is_used_once_witness:
  "\<exists>u. spent (db (snd (claim_share_link (guest_cookie ''dan'') '' seven '' party_world))) ''7'' = Some (500, Some u)
     \<and> standing (db (snd (claim_share_link (guest_cookie ''dan'') '' seven '' party_world))) (10, u) \<noteq> None"
proof -
  let ?call = "claim_share_link (guest_cookie ''dan'') '' seven ''"
  have ok: "succeeds ?call party_world" by code_simp
  have seven: "uuid_parse (cfg party_world) (trim '' seven '') = Some 7"
    "sha256_hex (cfg party_world) (uuid_show (cfg party_world) 7) = ''7''" by code_simp+
  show ?thesis
    using wp_succeeds [OF a_link_is_used_once [OF party_guests] ok]
  proof (elim exE conjE, goal_cases)
    case (1 a x token h s r)
    then have h: "h = ''7''" using seven by simp
    have "st_event_id s = 10" using 1(7) by (auto simp: claimable_def party_world_def party_db_def)
    then have "standing (db (snd (?call party_world))) (10, u_id r) \<noteq> None"
      using 1(12) by (auto split: if_splits)
    moreover have "spent (db (snd (?call party_world))) ''7'' = Some (500, Some (u_id r))"
      using 1(11) unfolding h by (simp add: party_world_def)
    ultimately show ?thesis by blast
  qed
qed

text \<open>
  Only the organiser and accepted guests see the list of guests, and a guest sees of it only users,
  not the addresses invited by mail, and no e-mail address but the organiser's and the own one.
\<close>

theorem guests_see_no_addresses:
  "wp (list_event_invitations req ev q)
    (\<lambda>a v. \<exists>u s owner. speaks_for w req u \<and> live_session w req s \<and> owner_of (db w) ev = Some owner
       \<and> (accepted_member (db w) ev u \<or> (\<exists>e \<in> set (events (db w)). e_id e = ev \<and> e_owner_id e = u))
       \<and> list_all (shown_to (u_email owner) (lowercase (cfg w) (u_email s))) (fst (ans_body a)))
    (\<lambda>_ _. True) w"
  by (rule wp_mono [OF list_event_invitations_spec]) (simp_all add: list_all_iff)


end
