(* ===== verification/Expense_Properties.thy ===== *)
theory Expense_Properties
  imports Expense_Handlers Example
begin

text \<open>
  The properties of the shared expenses, each followed by its application to a concrete event where
  it has hypotheses.
\<close>

section \<open>A concrete event with expenses\<close>

definition spent :: "int \<Rightarrow> int \<Rightarrow> int \<Rightarrow> micros \<Rightarrow> expense" where
  "spent i payer amount t = \<lparr>x_id = i, x_event_id = 10, x_paid_by = payer, x_created_by = payer,
     x_title = ''food'', x_amount_cents = amount, x_note = None, x_date = t, x_created_at = t\<rparr>"

definition shared :: "int \<Rightarrow> int \<Rightarrow> expense_participant" where
  "shared i u = \<lparr>xp_expense_id = i, xp_user_id = u, xp_share_weight = 1\<rparr>"

text \<open>Ada paid 10.00 for the three, Bob 3.01 for Cyd and himself.\<close>

definition expense_world :: world where
  "expense_world = example_world (example_db\<lparr>expenses := [spent 1 1 1000 300, spent 2 2 301 200],
     participants := [shared 1 1, shared 1 2, shared 1 3, shared 2 2, shared 2 3]\<rparr>)"

lemma expense_world_ok: "expense_ok (db expense_world)"
  by (simp add: expense_world_def expense_ok_def spent_def shared_def)

lemma expense_world_refs: "expense_refs (db expense_world)"
  by (simp add: expense_world_def expense_refs_def spent_def shared_def example_db_def example_user_def)

lemma expense_world_users: "distinct (map u_id (users (db expense_world)))"
  by (simp add: expense_world_def example_db_def example_user_def)

lemma expense_world_sum:
  "sum_list (map x_amount_cents (filter (\<lambda>x. x_event_id x = 10) (expenses (db expense_world)))) < 2 ^ 63"
  by (simp add: expense_world_def spent_def)

section \<open>Recording and deleting\<close>



text \<open>
  A successful request to record an expense was made on an event that is not over; it writes one
  expense with the trimmed title, a positive amount, and one participant row per distinct
  participant asked for, and the payer and all participants belong to the event.  An answer below
  500 leaves the tables as they were.
\<close>

theorem recording_is_complete:
  "wp (create_event_expense req ev p)
     (\<lambda>a w'. ans_status a = 201 \<and> writable w ev
        \<and> (\<exists>u payer ids. acting w req u \<and> db w' = recorded w ev u p payer ids
             \<and> trim (el_title p) \<noteq> [] \<and> 0 < el_amount_cents p
             \<and> ids \<noteq> [] \<and> distinct ids \<and> set ids = set (el_participant_user_ids p)
             \<and> insert payer (set ids) \<subseteq> u_id ` set (member_directory ev (db w))))
     (\<lambda>e w'. err_status e < 500 \<longrightarrow> db w' = db w) w"
  by (rule create_event_expense_spec)

theorem recording_is_complete_witness:
  "ans_status (case fst (create_event_expense \<lparr>r_authorization = None, r_session_cookie = Some ''bob@x''\<rparr> 10
     \<lparr>el_title = '' gas '', el_amount_cents = 700, el_paid_by_user_id = None, el_note = None,
      el_expense_date = None, el_participant_user_ids = [3, 2, 3]\<rparr> expense_world) of Inr a \<Rightarrow> a) = 201"
proof -
  let ?r = "\<lparr>r_authorization = None, r_session_cookie = Some ''bob@x''\<rparr>"
  let ?p = "\<lparr>el_title = '' gas '', el_amount_cents = 700, el_paid_by_user_id = None, el_note = None,
      el_expense_date = None, el_participant_user_ids = [3, 2, 3]\<rparr>"
  have "isl (fst (create_event_expense ?r 10 ?p expense_world)) = False"
    by code_simp
  then show ?thesis
    using recording_is_complete [of ?r 10 ?p expense_world]
    by (auto simp: wp_def split: prod.splits sum.splits)
qed

text \<open>
  Deleting an expense takes the account of a live session that paid it, recorded it or owns the
  event, on an event that is not over; it removes that expense with its participants and nothing
  else, and any other answer leaves the tables as they were.
\<close>

theorem only_involved_users_delete:
  "wp (delete_event_expense req ev i)
     (\<lambda>_ w'. \<exists>u x. acting w req u \<and> x \<in> set (expenses (db w)) \<and> x_id x = i \<and> x_event_id x = ev
        \<and> writable w ev \<and> may_delete w ev x u \<and> db w' = snd (delete_expense_row ev i (db w)))
     (\<lambda>_ w'. db w' = db w) w"
  by (rule delete_event_expense_spec)

section \<open>The summary\<close>

text \<open>
  C12. An amount is split to the cent: every participant gets one share, the shares add up to the
  amount, and two shares differ by one cent at most.
\<close>

theorem split_is_exact:
  assumes "0 \<le> a" and "a < 2 ^ 63" and "ids \<noteq> []"
  shows "map fst (split_amount a ids) = ids \<and> sum_list (map snd (split_amount a ids)) = a
    \<and> (\<forall>(i, s) \<in> set (split_amount a ids). \<forall>(j, t) \<in> set (split_amount a ids). \<bar>s - t\<bar> \<le> 1)"
proof -
  have "\<bar>s - t\<bar> \<le> 1" if "(i, s) \<in> set (plain_split a ids)" "(j, t) \<in> set (plain_split a ids)" for i j s t
    using plain_split_even [OF that(1)] plain_split_even [OF that(2)] by auto
  then show ?thesis
    unfolding split_amount_plain [OF assms] using plain_split_sum [OF assms(1,3)] by auto
qed

theorem split_is_exact_witness:
  "split_amount 1000 [1, 2, 3] = [(1, 334), (2, 333), (3, 333)]
     \<and> sum_list (map snd (split_amount 1000 [1, 2, 3])) = 1000"
  using split_is_exact [of 1000 "[1, 2, 3]"] by (simp, code_simp)

text \<open>
  C13. In consistent tables, and while the amounts of the event add up to less than \<open>2 ^ 63\<close> cents, the
  balance of every user is what the user paid less the user's shares, the balances add up to zero,
  and the total is the sum of the amounts.
\<close>

theorem balances_add_up:
  assumes "expense_ok (db w)" and "expense_refs (db w)" and "distinct (map u_id (users (db w)))"
    and "sum_list (map x_amount_cents (filter (\<lambda>x. x_event_id x = ev) (expenses (db w)))) < 2 ^ 63"
  shows "wp (build_event_expenses_summary ev)
     (\<lambda>s w'. (\<forall>b \<in> set (es_balances s). bv_balance_cents b
            = paid_total (event_views w ev None) (bv_user_id b)
              - owed_total (event_views w ev None) (bv_user_id b))
        \<and> sum_list (map bv_balance_cents (es_balances s)) = 0
        \<and> es_total_cents s
            = sum_list (map x_amount_cents (filter (\<lambda>x. x_event_id x = ev) (expenses (db w)))))
     (\<lambda>_ w'. db w' = db w) w"
proof -
  note sound = event_views_sound [OF assms(2,1,4)] and dist = distinct_members [OF assms(3), of ev]
  have "0 \<le> sum_list (map cost (event_views w ev None))"
    using sound(1) by (intro sum_list_nonneg) (auto simp: sound_expenses_def order.strict_implies_order)
  then have "es_total_cents (summarise (member_directory ev (db w)) (event_views w ev None))
      = sum_list (map x_amount_cents (filter (\<lambda>x. x_event_id x = ev) (expenses (db w))))"
    using sound(2) assms(4) by (simp add: summarise_def Let_def total_cents_wrap wrap64_id)
  then show ?thesis
    using balance_exact(3) [OF dist sound(1)] balances_sum_zero [OF dist sound(1)]
    by (intro wp_mono [OF build_summary_spec]) (auto simp: same_data_def)
qed

theorem balances_add_up_witness:
  "wp (build_event_expenses_summary 10)
     (\<lambda>s w'. sum_list (map bv_balance_cents (es_balances s)) = 0 \<and> es_total_cents s = 1301)
     (\<lambda>_ w'. db w' = db expense_world) expense_world"
  by (rule wp_mono [OF balances_add_up [OF expense_world_ok expense_world_refs expense_world_users
        expense_world_sum]]) (auto simp: expense_world_def spent_def)

text \<open>
  C14. The proposed transfers settle the event: after them every user is left with nothing to pay or
  to get, every transfer moves a positive amount, and there are fewer transfers than users.
\<close>

theorem transfers_settle_everything:
  assumes "expense_ok (db w)" and "expense_refs (db w)" and "distinct (map u_id (users (db w)))"
    and "sum_list (map x_amount_cents (filter (\<lambda>x. x_event_id x = ev) (expenses (db w)))) < 2 ^ 63"
  shows "wp (build_event_expenses_summary ev)
     (\<lambda>s w'. (\<forall>b \<in> set (es_balances s). net (es_settlements s) (bv_user_id b) = bv_balance_cents b)
        \<and> (\<forall>t \<in> set (es_settlements s). 0 < sv_amount_cents t)
        \<and> (es_settlements s \<noteq> [] \<longrightarrow> length (es_settlements s) < length (es_balances s)))
     (\<lambda>_ w'. db w' = db w) w"
proof -
  note sound = event_views_sound(1) [OF assms(2,1,4)] and dist = distinct_members [OF assms(3), of ev]
  let ?bs = "es_balances (summarise (member_directory ev (db w)) (event_views w ev None))"
  have range: "- (2 ^ 63) < bv_balance_cents b \<and> bv_balance_cents b < 2 ^ 63" if "b \<in> set ?bs" for b
    using balance_exact(3,4) [OF dist sound that] totals_range [OF sound, of "bv_user_id b"] sound
    by (simp add: sound_expenses_def)
  have "0 < sv_amount_cents t" if t: "t \<in> set (settle_balances ?bs)" for t
  proof -
    obtain d c a where eq: "t = make_settlement ?bs (d, c, a)"
        and dca: "(d, c, a) \<in> set (settle (creditors_of ?bs) (debtors_of ?bs))"
      using t by (auto simp: settle_balances_def)
    have "positive (debtors_of ?bs)"
      using debtors_positive range by blast
    from settle_transfers [OF creditors_positive this dca] show ?thesis
      by (simp add: eq make_settlement_def)
  qed
  moreover have "es_settlements (summarise (member_directory ev (db w)) (event_views w ev None))
      = settle_balances ?bs"
    by (simp add: summarise_def Let_def)
  moreover have "length (settle_balances ?bs) < length ?bs" if "settle_balances ?bs \<noteq> []"
    using settlements_few [OF that] open_positions_few [of ?bs] by simp
  ultimately show ?thesis
    using net_settle_balances [OF summary_users(1) [OF dist] balances_sum_zero [OF dist sound] range]
    by (intro wp_mono [OF build_summary_spec]) (auto simp: same_data_def)
qed

theorem transfers_settle_everything_witness:
  "\<exists>s. fst (build_event_expenses_summary 10 expense_world) = Inr s
     \<and> (\<forall>b \<in> set (es_balances s). net (es_settlements s) (bv_user_id b) = bv_balance_cents b)"
proof -
  have "isl (fst (build_event_expenses_summary 10 expense_world)) = False"
    by code_simp
  then show ?thesis
    using transfers_settle_everything [OF expense_world_ok expense_world_refs expense_world_users
        expense_world_sum]
    by (auto simp: wp_def split: prod.splits sum.splits)
qed

definition huge_world :: world where
  "huge_world = expense_world\<lparr>db := (db expense_world)\<lparr>
     expenses := [spent 1 1 5000000000000000000 300, spent 2 2 5000000000000000000 200]\<rparr>\<rparr>"

text \<open>
  Amounts have no upper bound in the code, so the sums can wrap around: two expenses that each
  fit in \<open>i64\<close> and satisfy the invariant of the tables give a summary with a negative total.
\<close>

theorem totals_can_wrap:
  "expense_ok (db huge_world)
   \<and> (case fst (build_event_expenses_summary 10 huge_world) of Inr s \<Rightarrow> es_total_cents s < 0 | Inl _ \<Rightarrow> False)"
proof
  show "expense_ok (db huge_world)"
    by (simp add: huge_world_def expense_world_def expense_ok_def spent_def shared_def)
  show "case fst (build_event_expenses_summary 10 huge_world) of Inr s \<Rightarrow> es_total_cents s < 0 | Inl _ \<Rightarrow> False"
    by code_simp
qed

definition expense_page_ids ::
    "api_error + (expense_view list \<times> string option) answer \<Rightarrow> (int list \<times> string option) option" where
  "expense_page_ids r = (case r of Inl _ \<Rightarrow> None
     | Inr (Answer _ (vs, cursor)) \<Rightarrow> Some (map (\<lambda>v. x_id (xv_expense v)) vs, cursor))"

definition dated_world :: world where
  "dated_world = expense_world\<lparr>db := (db expense_world)\<lparr>
     expenses := [spent 1 1 100 300, spent 2 2 100 200, spent 3 3 100 100]\<rparr>\<rparr>"

text \<open>
  Reading the expenses page by page loses rows when their dates do not follow their identifiers:
  a page is cut by identifier, then sorted by date before its last row names the cursor.  Of three
  expenses dated backwards, pages of two show the first and the second and then only the first.
\<close>

theorem expense_pages_lose_rows:
  "expense_page_ids (fst (list_event_expenses \<lparr>r_authorization = None, r_session_cookie = Some ''ada@x''\<rparr>
      10 \<lparr>q_limit = Some 2, q_cursor = None\<rparr> dated_world)) = Some ([1, 2], Some ''2'')
   \<and> expense_page_ids (fst (list_event_expenses \<lparr>r_authorization = None, r_session_cookie = Some ''ada@x''\<rparr>
      10 \<lparr>q_limit = Some 2, q_cursor = Some ''2''\<rparr> dated_world)) = Some ([1], None)"
  by code_simp

end
