(* ===== verification/Friend_Graph.thy ===== *)
theory Friend_Graph
  imports Friend_Facts
begin

text \<open>
  The handlers of the friends component refine operations on the social graph: asking, answering,
  parting, blocking and unblocking.
\<close>

section \<open>The abstract operations\<close>

definition apart :: "graph \<Rightarrow> int \<Rightarrow> int \<Rightarrow> bool" where
  "apart g u t \<longleftrightarrow> u \<noteq> t \<and> {(u, t), (t, u)} \<inter> (asked g \<union> befriended g \<union> blocking g) = {}"

definition ask :: "int \<Rightarrow> int \<Rightarrow> graph \<Rightarrow> graph" where
  "ask u t g = g\<lparr>asked := insert (u, t) (asked g)\<rparr>"

definition settle_request :: "int \<Rightarrow> int \<Rightarrow> bool \<Rightarrow> graph \<Rightarrow> graph" where
  "settle_request s u yes g = g\<lparr>asked := asked g - {(s, u)},
     befriended := (if yes then befriended g \<union> {(s, u), (u, s)} else befriended g)\<rparr>"

definition part :: "int \<Rightarrow> int \<Rightarrow> graph \<Rightarrow> graph" where
  "part u t g = g\<lparr>befriended := befriended g - {(u, t), (t, u)}\<rparr>"

definition sever :: "int \<Rightarrow> int \<Rightarrow> graph \<Rightarrow> graph" where
  "sever u t g = g\<lparr>asked := asked g - {(u, t), (t, u)}, befriended := befriended g - {(u, t), (t, u)},
     blocking := insert (u, t) (blocking g)\<rparr>"

definition forgive :: "int \<Rightarrow> int \<Rightarrow> graph \<Rightarrow> graph" where
  "forgive u t g = g\<lparr>blocking := blocking g - {(u, t)}\<rparr>"

section \<open>The graph of the tables\<close>

lemma social_cong:
  assumes "friendships d' = friendships d" and "friend_requests d' = friend_requests d"
    and "user_blocks d' = user_blocks d"
  shows "social d' = social d"
  by (simp add: social_def is_friendship_def assms)

lemma social_only_outbox: "only_outbox w w' \<Longrightarrow> social (db w') = social (db w)"
  by (intro social_cong) (simp_all add: only_outbox_tables [of w w'])

lemma in_social [simp]:
  "(a, b) \<in> asked (social d) \<longleftrightarrow> (\<exists>r \<in> set (friend_requests d). fr_status r = ReqPending
     \<and> fr_sender_id r = a \<and> fr_receiver_id r = b)"
  "(a, b) \<in> befriended (social d) \<longleftrightarrow> is_friendship d a b"
  "(a, b) \<in> blocking (social d) \<longleftrightarrow> (\<exists>r \<in> set (user_blocks d). ub_blocker_id r = a \<and> ub_blocked_id r = b)"
  by (auto simp: social_def)

lemma is_friendship_sym: "is_friendship d a b = is_friendship d b a"
  unfolding is_friendship_def ordered_pair_sym [of a b] ..

lemma graph_eqI:
  fixes g h :: graph
  assumes "\<And>a b. (a, b) \<in> asked g \<longleftrightarrow> (a, b) \<in> asked h"
    and "\<And>a b. (a, b) \<in> befriended g \<longleftrightarrow> (a, b) \<in> befriended h"
    and "\<And>a b. (a, b) \<in> blocking g \<longleftrightarrow> (a, b) \<in> blocking h"
  shows "g = h"
proof (rule graph.equality)
  show "asked g = asked h" "befriended g = befriended h" "blocking g = blocking h"
    using assms by auto
qed simp

lemma apart_social:
  "apart (social d) u t \<longleftrightarrow> u \<noteq> t \<and> \<not> is_pending d u t \<and> \<not> is_friendship d u t \<and> \<not> contact_blocked d u t"
  using is_friendship_sym [of d u t]
  by (auto simp: apart_def is_pending_def contact_blocked_def between_def)

lemma social_ask:
  assumes "fr_status r = ReqPending"
  shows "social (d\<lparr>friend_requests := friend_requests d @ [r]\<rparr>)
    = ask (fr_sender_id r) (fr_receiver_id r) (social d)"
  using assms by (intro graph_eqI) (auto simp: ask_def is_friendship_def)

lemma social_part:
  "social (snd (delete_friendship (ordered_pair u t) d)) = part u t (social d)"
proof (rule graph_eqI)
  show "(a, b) \<in> befriended (social (snd (delete_friendship (ordered_pair u t) d)))
      \<longleftrightarrow> (a, b) \<in> befriended (part u t (social d))" for a b
    by (auto simp: part_def delete_friendship_def is_friendship_def ordered_pair_eq)
qed (simp_all add: part_def delete_friendship_def)

lemma social_forgive:
  assumes "map_option u_id (find (\<lambda>u. u_public_id u = p) (users d)) = Some t"
  shows "social (delete_block u p d) = forgive u t (social d)"
  by (rule graph_eqI) (auto simp: forgive_def delete_block_def assms is_friendship_def)

lemma social_forgive_nobody:
  assumes "find (\<lambda>u. u_public_id u = p) (users d) = None"
  shows "social (delete_block u p d) = social d"
  by (rule graph_eqI) (auto simp: delete_block_def assms is_friendship_def)

lemma social_cleanup:
  "asked (social (block_cleanup u t d)) = asked (social d) - {(u, t), (t, u)}"
  "befriended (social (block_cleanup u t d)) = befriended (social d) - {(u, t), (t, u)}"
  "blocking (social (block_cleanup u t d)) = blocking (social d)"
proof -
  have "is_friendship (block_cleanup u t d) a b \<longleftrightarrow> is_friendship d a b \<and> (a, b) \<notin> {(u, t), (t, u)}" for a b
  proof -
    have "is_friendship (block_cleanup u t d) a b
        \<longleftrightarrow> is_friendship d a b \<and> ordered_pair a b \<noteq> ordered_pair u t"
      by (auto simp: is_friendship_def block_cleanup_def ordered_pair_cases)
    then show ?thesis by (auto simp: ordered_pair_eq)
  qed
  then show "befriended (social (block_cleanup u t d)) = befriended (social d) - {(u, t), (t, u)}"
    by auto
  show "asked (social (block_cleanup u t d)) = asked (social d) - {(u, t), (t, u)}"
    "blocking (social (block_cleanup u t d)) = blocking (social d)"
    by (auto simp: block_cleanup_def between_def)
qed

lemma social_block:
  assumes "insert_block u t w = (Inr r, w')"
  shows "social (db w') = sever u t (social (db w)) \<and> u \<noteq> t"
proof -
  have eq: "social (d\<lparr>user_blocks := bs\<rparr>) = (social d)\<lparr>blocking := {(a, b).
      \<exists>r \<in> set bs. ub_blocker_id r = a \<and> ub_blocked_id r = b}\<rparr>" for d bs
    by (simp add: social_def is_friendship_def)
  let ?d = "block_cleanup u t (db w)"
  have new: "u \<noteq> t \<and> (\<exists>bs. db w' = ?d\<lparr>user_blocks := bs\<rparr>
      \<and> {(a, b). \<exists>r \<in> set bs. ub_blocker_id r = a \<and> ub_blocked_id r = b} = insert (u, t) (blocking (social (db w))))"
  proof (cases "exists_where (\<lambda>r. ub_blocker_id r = u \<and> ub_blocked_id r = t) (user_blocks (db w))")
    case True
    moreover have "?d = ?d\<lparr>user_blocks := user_blocks (db w)\<rparr>" by (simp add: block_cleanup_def)
    ultimately have "u \<noteq> t" "db w' = ?d\<lparr>user_blocks := user_blocks (db w)\<rparr>"
      using assms by (auto simp: insert_block_def Let_def simp del: exists_where_iff split: if_splits)
    moreover have "{(a, b). \<exists>r \<in> set (user_blocks (db w)). ub_blocker_id r = a \<and> ub_blocked_id r = b}
        = insert (u, t) (blocking (social (db w)))"
      using True by (auto simp: social_def)
    ultimately show ?thesis by blast
  next
    case False
    let ?bs = "user_blocks (db w) @ [\<lparr>ub_blocker_id = u, ub_blocked_id = t, ub_created_at = clock w\<rparr>]"
    have "u \<noteq> t" "db w' = ?d\<lparr>user_blocks := ?bs\<rparr>"
      using False assms by (auto simp: insert_block_def Let_def simp del: exists_where_iff split: if_splits)
    moreover have "{(a, b). \<exists>r \<in> set ?bs. ub_blocker_id r = a \<and> ub_blocked_id r = b}
        = insert (u, t) (blocking (social (db w)))"
      by (auto simp: social_def)
    ultimately show ?thesis by blast
  qed
  then obtain bs where bs: "u \<noteq> t" "db w' = ?d\<lparr>user_blocks := bs\<rparr>"
    "{(a, b). \<exists>r \<in> set bs. ub_blocker_id r = a \<and> ub_blocked_id r = b} = insert (u, t) (blocking (social (db w)))"
    by blast
  have "social (db w') = (social ?d)\<lparr>blocking := insert (u, t) (blocking (social (db w)))\<rparr>"
    unfolding bs(2) eq bs(3) ..
  then show ?thesis
    using bs(1) by (auto simp: sever_def social_cleanup simp del: in_social intro!: graph.equality)
qed

text \<open>Answering, in tables that satisfy the invariant: the request is the only pending one.\<close>

lemma social_answer:
  assumes ok: "requests_ok blocked (friend_requests d)" and r: "r \<in> set (friend_requests d)"
    and "fr_status r = ReqPending" and "st \<noteq> ReqPending"
  shows "social (d\<lparr>friend_requests := update_where (\<lambda>q. fr_id q = fr_id r)
      (\<lambda>q. q\<lparr>fr_status := st, fr_responded_at := t\<rparr>) (friend_requests d)\<rparr>)
    = settle_request (fr_sender_id r) (fr_receiver_id r) False (social d)"
proof (rule graph_eqI)
  fix a b
  have same: "q = r" if "q \<in> set (friend_requests d)" "fr_status q = ReqPending"
      "fr_sender_id q = fr_sender_id r" "fr_receiver_id q = fr_receiver_id r" for q
    using ok r assms(3) that unfolding requests_ok_def between_def by blast
  have id: "q = r" if "q \<in> set (friend_requests d)" "fr_id q = fr_id r" for q
    using ok r that by (auto simp: requests_ok_def dest: distinct_map_inj)
  show "(a, b) \<in> asked (social (d\<lparr>friend_requests := update_where (\<lambda>q. fr_id q = fr_id r)
      (\<lambda>q. q\<lparr>fr_status := st, fr_responded_at := t\<rparr>) (friend_requests d)\<rparr>))
    \<longleftrightarrow> (a, b) \<in> asked (settle_request (fr_sender_id r) (fr_receiver_id r) False (social d))"
    using same id assms(4) by (auto simp: settle_request_def)
qed (simp_all add: settle_request_def is_friendship_def)

lemma social_befriend:
  assumes "insert_friendship (ordered_pair s u) w = (Inr x, w')"
  shows "social (db w') = (social (db w))\<lparr>befriended := befriended (social (db w)) \<union> {(s, u), (u, s)}\<rparr>"
proof (rule graph_eqI)
  fix a b
  have known: "is_friendship d s u \<Longrightarrow> is_friendship d u s" for d
    using is_friendship_sym [of d s u] by simp
  show "(a, b) \<in> befriended (social (db w')) \<longleftrightarrow>
      (a, b) \<in> befriended ((social (db w))\<lparr>befriended := befriended (social (db w)) \<union> {(s, u), (u, s)}\<rparr>)"
    using assms ordered_pair_eq [of s u a b]
    by (auto simp: insert_friendship_def is_friendship_def Let_def ordered_pair_sym split: prod.splits if_splits)
qed (use assms in \<open>auto simp: insert_friendship_def Let_def split: prod.splits if_splits\<close>)

section \<open>The handlers\<close>

lemma fetch_request_view_spec:
  "wp (fetch_request_view i) (\<lambda>_ w'. same_data w w') (\<lambda>e w'. same_data w w' \<and> e = db_error) w"
  by (auto simp: fetch_request_view_def wp_simps split: option.split)

lemma publish_quiet:
  assumes "\<And>v. same_data w v \<Longrightarrow> Q () v"
  shows "wp (publish_global_type ty) Q E w"
  using assms quietD [OF quiet_publish(2), of w ty]
  by (auto simp: wp_def publish_global_type_def publish_json_def)

lemma only_outbox_chain:
  "only_outbox w v \<Longrightarrow> same_data v u \<Longrightarrow> only_outbox w u" "same_data w v \<Longrightarrow> only_outbox v u \<Longrightarrow> only_outbox w u"
  by (blast intro: only_outbox_trans only_outbox_same_data)+

lemma announce_request_spec:
  "wp (announce_request t i) (\<lambda>a w'. ans_status a = 201 \<and> only_outbox w w')
     (\<lambda>e _. 500 \<le> err_status e) w"
  unfolding announce_request_def wp_andthen wp_return
  by (rule wp_mono [OF fetch_request_view_spec])
    (auto intro!: wp_mono [OF notify_users_frame] publish_quiet intro: only_outbox_chain(2) only_outbox_chain(1) [rotated])

lemma announce_response_spec:
  "wp (announce_response i st s) (\<lambda>a w'. ans_status a = 200 \<and> only_outbox w w')
     (\<lambda>e _. 500 \<le> err_status e) w"
  unfolding announce_response_def wp_andthen wp_return wp_if
  by (rule wp_mono [OF fetch_request_view_spec])
    (auto intro!: wp_mono [OF notify_users_frame] publish_quiet, (blast intro: only_outbox_trans only_outbox_same_data)+)

lemma request_checks_spec:
  "wp (request_checks a b) (\<lambda>_ w'. same_data w w' \<and> a \<noteq> b \<and> \<not> is_friendship (db w) a b)
     (\<lambda>_ w'. same_data w w') w"
  unfolding request_checks_def ensure_contact_def are_friends_def pending_request_exists_def
  by (auto simp: wp_simps)

lemma create_friend_request_spec:
  "wp (create_friend_request req raw)
     (\<lambda>a w'. ans_status a = 201 \<and> (\<exists>u t. actor w req u \<and> names_user w raw t
        \<and> apart (social (db w)) u t \<and> social (db w') = ask u t (social (db w))))
     (\<lambda>e w'. err_status e < 500 \<longrightarrow> db w' = db w) w"
  unfolding create_friend_request_def
proof (rule two_users, goal_cases)
  case (1 u t v)
  show ?case
  proof (rule wp_check [OF 1(1), where P = "\<lambda>_. u_id u \<noteq> u_id t \<and> \<not> is_friendship (db w) (u_id u) (u_id t)"],
      goal_cases)
    case 1
    then show ?case using \<open>same_data w v\<close>
      by (intro wp_mono [OF request_checks_spec]) (auto simp: same_data_def)
  next
    case (2 _ v')
    have db: "db v' = db w" using 2(1) by (simp add: same_data_def)
    have "wp (announce_request (u_id t) i)
        (\<lambda>a w'. ans_status a = 201 \<and> (\<exists>u t. actor w req u \<and> names_user w raw t
           \<and> apart (social (db w)) u t \<and> social (db w') = ask u t (social (db w))))
        (\<lambda>e w'. err_status e < 500 \<longrightarrow> db w' = db w) v''"
      if ins: "insert_request (u_id u) (u_id t) (tick v') = (Inr i, v'')" for i v''
    proof -
      note row = insert_request_okD [OF ins]
      have "apart (social (db w)) (u_id u) (u_id t)"
        using 2(2) row db by (simp add: apart_social)
      moreover have "social (db v'') = ask (u_id u) (u_id t) (social (db w))"
        using row social_ask [of _ "db w"] db by simp
      ultimately have "\<exists>u t. actor w req u \<and> names_user w raw t
           \<and> apart (social (db w)) u t \<and> social (db v'') = ask u t (social (db w))"
        using 1(2,3) by blast
      note graph = this
      show ?thesis
      proof (rule wp_mono [OF announce_request_spec], goal_cases)
        case (1 a w')
        then have "social (db w') = social (db v'')" by (blast intro: social_only_outbox)
        then show ?case using graph 1 by simp
      qed simp
    qed
    note tail = this
    obtain res v'' where res: "insert_request (u_id u) (u_id t) (tick v') = (res, v'')" by force
    show ?case
    proof (cases res)
      case (Inl e)
      then show ?thesis
        using insert_request_error res db by (simp add: wp_andthen wp_stmt)
    next
      case (Inr i)
      then show ?thesis
        using tail res db by (simp add: wp_andthen wp_stmt)
    qed
  qed (auto simp: same_data_def)
qed (simp add: same_data_def)

lemma respond_rows_spec:
  assumes ok: "requests_ok blocked (friend_requests (db w))" and st: "st \<noteq> ReqPending"
    and r: "r \<in> set (friend_requests (db w))" "fr_status r = ReqPending"
  shows "wp (andthen (stmt h (answer_request (fr_id r) st)) (\<lambda>_.
       if st = ReqAccepted then stmt h' (insert_friendship (ordered_pair (fr_sender_id r) (fr_receiver_id r)))
       else return ()))
     (\<lambda>_ w'. social (db w') = settle_request (fr_sender_id r) (fr_receiver_id r) (st = ReqAccepted) (social (db w)))
     (\<lambda>_ _. True) w"
proof -
  let ?g = "settle_request (fr_sender_id r) (fr_receiver_id r) False (social (db w))"
  have answered: "social (db v) = ?g" if "answer_request (fr_id r) st (tick w) = (Inr x, v)" for x v
    using that social_answer [OF ok r st] by (auto simp: answer_request_def split: if_splits)
  have yes: "settle_request a b True g
      = (settle_request a b False g)\<lparr>befriended := befriended (settle_request a b False g) \<union> {(a, b), (b, a)}\<rparr>"
    for a b g by (simp add: settle_request_def)
  have "social (db v') = settle_request (fr_sender_id r) (fr_receiver_id r) True (social (db w))"
    if "answer_request (fr_id r) st (tick w) = (Inr x, v)"
      "insert_friendship (ordered_pair (fr_sender_id r) (fr_receiver_id r)) (tick v) = (Inr y, v')" for x v y v'
    using social_befriend [OF that(2)] answered [OF that(1)] by (simp add: yes)
  then show ?thesis
    unfolding wp_andthen wp_if wp_stmt wp_return
    using answered by (auto split: prod.split sum.split)
qed

lemma respond_tx_spec:
  assumes "friend_inv w" and "st \<noteq> ReqPending"
  shows "wp (respond_tx u i st)
     (\<lambda>s w'. (s, u) \<in> asked (social (db w))
        \<and> social (db w') = settle_request s u (st = ReqAccepted) (social (db w))) (\<lambda>_ w'. db w' = db w) w"
  unfolding respond_tx_def
proof (rule wp_transact_success, goal_cases)
  case 1
  have ok: "requests_ok (contact_blocked (db w)) (friend_requests (db w))"
    using assms(1) by (simp add: friend_inv_def friend_ok_def)
  have tail: "wp (stmt h (answer_request i st)) (\<lambda>_. wp (if st = ReqAccepted
        then stmt h' (insert_friendship (ordered_pair (fr_sender_id r) (fr_receiver_id r))) else return ())
      (\<lambda>_ w'. (fr_sender_id r, u) \<in> asked (social (db w))
         \<and> social (db w') = settle_request (fr_sender_id r) u (st = ReqAccepted) (social (db w))) (\<lambda>_ _. True))
      (\<lambda>_ _. True) v"
    if "db v = db w" "find (\<lambda>r. fr_id r = i) (friend_requests (db w)) = Some r" "fr_status r = ReqPending"
      "fr_receiver_id r = u" for r v h h'
  proof -
    have r: "r \<in> set (friend_requests (db v))" "fr_id r = i"
      using find_SomeD [OF that(2)] that(1) by auto
    then have "((fr_sender_id r, u) \<in> asked (social (db w))) = True"
      using that by auto
    note mem = this and spec = respond_rows_spec [of "contact_blocked (db w)" v st r h h']
    show ?thesis
      using spec ok assms(2) r that unfolding mem by (simp add: wp_andthen)
  qed
  show ?case
    unfolding wp_andthen wp_query wp_some_or wp_require wp_return
    using tail by (auto split: option.split)
qed simp

lemma respond_friend_request_spec:
  assumes "friend_inv w"
  shows "wp (respond_friend_request req i status)
     (\<lambda>a w'. ans_status a = 200 \<and> (\<exists>u s st. actor w req u \<and> parse_answer status = Some st
        \<and> (s, u) \<in> asked (social (db w))
        \<and> social (db w') = settle_request s u (st = ReqAccepted) (social (db w))))
     (\<lambda>e w'. err_status e < 500 \<longrightarrow> db w' = db w) w"
  unfolding respond_friend_request_def
proof (rule wp_check [OF same_data_refl, where P = "\<lambda>r. actor w req (u_id r)"], goal_cases)
  case 1
  show ?case by (rule current_user_spec)
next
  case (2 u v)
  show ?case
  proof (cases "parse_answer status")
    case None
    then show ?thesis using 2 by (simp add: wp_andthen wp_some_or same_data_def)
  next
    case (Some st)
    have db: "db v = db w" using 2 by (simp add: same_data_def)
    have "st \<noteq> ReqPending" using Some by (auto simp: parse_answer_def split: if_splits)
    note tx = respond_tx_spec [OF friend_tables.inv_same_data [OF assms 2(1)] this, of "u_id u" i]
    have "wp (andthen (respond_tx (u_id u) i st) (announce_response i st))
        (\<lambda>a w'. ans_status a = 200 \<and> (\<exists>u s st. actor w req u \<and> parse_answer status = Some st
           \<and> (s, u) \<in> asked (social (db w))
           \<and> social (db w') = settle_request s u (st = ReqAccepted) (social (db w))))
        (\<lambda>e w'. err_status e < 500 \<longrightarrow> db w' = db w) v"
      unfolding wp_andthen
    proof (rule wp_mono [OF tx], goal_cases)
      case (1 s v')
      note settled = this
      show ?case
      proof (rule wp_mono [OF announce_response_spec], goal_cases)
        case (1 a w')
        then have "social (db w') = social (db v')" by (blast intro: social_only_outbox)
        then show ?case using settled 1 2 Some db by auto
      qed simp
    qed (simp add: db)
    then show ?thesis by (simp add: Some wp_andthen [of "some_or _ _"] wp_some_or)
  qed
qed (simp add: same_data_def)

lemma delete_friend_spec:
  "wp (delete_friend req raw)
     (\<lambda>_ w'. \<exists>u t. actor w req u \<and> names_user w raw t \<and> (u, t) \<in> befriended (social (db w))
        \<and> social (db w') = part u t (social (db w)))
     (\<lambda>_ w'. db w' = db w) w"
  unfolding delete_friend_def
proof (rule two_users, goal_cases)
  case (1 u t v)
  let ?p = "ordered_pair (u_id u) (u_id t)"
  have db: "db v = db w" using 1(1) by (simp add: same_data_def)
  have none: "snd (delete_friendship ?p d) = d" if "fst (delete_friendship ?p d) = 0" for d
    using that by (simp add: delete_friendship_def count_where_eq_0 delete_where_none)
  have some: "is_friendship d (u_id u) (u_id t)" if "fst (delete_friendship ?p d) \<noteq> 0" for d
    using that by (auto simp: delete_friendship_def count_where_eq_0 is_friendship_def)
  show ?case
    unfolding wp_andthen wp_execute wp_require wp_return
    using 1(2,3) db none [of "db w"] some [of "db w"] social_part [of "u_id u" "u_id t" "db w"]
    by (auto intro!: publish_quiet simp: same_data_def simp del: in_social) auto
qed (simp add: same_data_def)

text \<open>Blocks: the actor is the account of the session itself, the other is named by its public id.\<close>

definition public_user :: "world \<Rightarrow> uuid \<Rightarrow> int option" where
  "public_user w p = map_option u_id (find (\<lambda>u. u_public_id u = p) (users (db w)))"

lemma block_spec:
  "wp (block req p)
     (\<lambda>_ w'. \<exists>r t. live_session w req r \<and> public_user w p = Some t \<and> u_id r \<noteq> t
        \<and> social (db w') = sever (u_id r) t (social (db w)))
     (\<lambda>_ w'. db w' = db w) w"
  unfolding block_def
proof (rule wp_check [OF same_data_refl, where P = "live_session w req"], goal_cases)
  case 1
  show ?case by (rule wp_mono [OF extract_authenticated_user_live]) auto
next
  case (2 r v)
  then have db: "db v = db w" by (simp add: same_data_def)
  have err: "insert_block a b w = (Inl e, w') \<Longrightarrow> db w' = db w" for a b w e w'
    by (auto simp: insert_block_def Let_def split: if_splits)
  have "wp (stmt h (insert_block (u_id r) t)) (\<lambda>_ w'. \<exists>r t. live_session w req r \<and> public_user w p = Some t
        \<and> u_id r \<noteq> t \<and> social (db w') = sever (u_id r) t (social (db w))) (\<lambda>_ w'. db w' = db w) v'"
    if "public_user w p = Some t" "db v' = db w" for t h v'
  proof -
    obtain res w' where res: "insert_block (u_id r) t (tick v') = (res, w')" by force
    show ?thesis
    proof (cases res)
      case (Inl e)
      then show ?thesis using that(2) res err by (simp add: wp_stmt)
    next
      case (Inr x)
      then have "social (db w') = sever (u_id r) t (social (db w)) \<and> u_id r \<noteq> t"
        using social_block [of "u_id r" t "tick v'"] res that(2) by simp
      then show ?thesis using Inr that res 2(2) by (auto simp: wp_stmt)
    qed
  qed
  then show ?case
    unfolding wp_andthen wp_query wp_some_or wp_require wp_return
    using db by (auto simp: public_user_def split: option.split)
qed (simp add: same_data_def)

lemma unblock_spec:
  "wp (unblock req p)
     (\<lambda>_ w'. \<exists>r. live_session w req r \<and> (case public_user w p of
          Some t \<Rightarrow> social (db w') = forgive (u_id r) t (social (db w))
        | None \<Rightarrow> social (db w') = social (db w)))
     (\<lambda>_ w'. db w' = db w) w"
  unfolding unblock_def
proof (rule wp_check [OF same_data_refl, where P = "live_session w req"], goal_cases)
  case 1
  show ?case by (rule wp_mono [OF extract_authenticated_user_live]) auto
next
  case (2 r v)
  then have db: "db v = db w" by (simp add: same_data_def)
  show ?case
  proof (cases "public_user w p")
    case None
    then show ?thesis
      using 2(2) social_forgive_nobody [of p "db w" "u_id r"] db
      by (auto simp: wp_simps public_user_def)
  next
    case (Some t)
    then show ?thesis
      using 2(2) social_forgive [of p "db w" t "u_id r"] db
      by (auto simp: wp_simps public_user_def)
  qed
qed (simp add: same_data_def)

lemma friend_rejections:
  "rejects_cleanly (create_friend_request req raw)" "rejects_cleanly (delete_friend req raw)"
  "rejects_cleanly (block req p)" "rejects_cleanly (unblock req p)"
  unfolding rejects_cleanly_def
  by (intro allI wp_mono [OF create_friend_request_spec] wp_mono [OF delete_friend_spec]
      wp_mono [OF block_spec] wp_mono [OF unblock_spec]; simp)+

section \<open>The listing of requests by pages\<close>

definition all_request_views :: "int \<Rightarrow> database \<Rightarrow> request_view list" where
  "all_request_views u d = List.map_filter (request_view_of d)
     (sort_key (\<lambda>r. - fr_id r) (select_requests u d))"

lemma request_view_id: "request_view_of d r = Some v \<Longrightarrow> rv_id v = fr_id r"
  by (auto simp: request_view_of_def bind_eq_Some_conv)

lemma request_views_page:
  "request_views u (Some pg) d = fetch_after (\<lambda>i v. rv_id v < i) (all_request_views u d)
     (pg_after_id pg) (fetch_limit pg)"
proof -
  have "List.map_filter (request_view_of d) (take n (filter (P \<circ> fr_id) rs))
      = take n (filter (P \<circ> rv_id) (List.map_filter (request_view_of d) rs))"
    if "\<forall>r \<in> set rs. request_view_of d r \<noteq> None" for n P rs
    using that
  proof (induction rs arbitrary: n)
    case (Cons r rs)
    then obtain v where v: "request_view_of d r = Some v" by auto
    with Cons show ?case
      by (cases n) (auto simp: List.map_filter_simps request_view_id [OF v])
  qed (simp add: List.map_filter_simps)
  from this [of "sort_key (\<lambda>r. - fr_id r) (select_requests u d)" "nat (fetch_limit pg)"
      "\<lambda>k. case pg_after_id pg of None \<Rightarrow> True | Some i \<Rightarrow> k < i"]
  show ?thesis
    by (simp add: request_views_def fetch_after_def all_request_views_def comp_def select_requests_def)
qed

definition request_ids_ok :: "database \<Rightarrow> bool" where
  "request_ids_ok d \<longleftrightarrow> distinct (map fr_id (friend_requests d))
     \<and> (\<forall>r \<in> set (friend_requests d). - (2 ^ 63) \<le> fr_id r \<and> fr_id r < 2 ^ 63)"

lemma sorted_desc:
  fixes k :: "'a \<Rightarrow> int"
  assumes "distinct (map k xs)"
  shows "sorted_wrt (\<lambda>a b. k b < k a) (sort_key (\<lambda>x. - k x) xs)"
proof -
  have "sorted_wrt (\<lambda>a b. k b < k a) ys" if "distinct (map k ys)" "sorted (map (\<lambda>x. - k x) ys)" for ys
    using that by (induction ys) (auto simp: order.order_iff_strict)
  moreover have "mset (map k (sort_key (\<lambda>x. - k x) xs)) = mset (map k xs)" by simp
  then have "distinct (map k (sort_key (\<lambda>x. - k x) xs))"
    using assms by (metis mset_eq_imp_distinct_iff)
  ultimately show ?thesis by simp
qed

lemma all_request_views_order:
  assumes "distinct (map fr_id (friend_requests d))"
  shows "sorted_wrt (\<lambda>a b. rv_id b < rv_id a) (all_request_views u d)"
proof -
  have "sorted_wrt (\<lambda>a b. rv_id b < rv_id a) (List.map_filter (request_view_of d) rs)"
    if "sorted_wrt (\<lambda>a b. fr_id b < fr_id a) rs" for rs
    using that
    by (induction rs) (auto simp: List.map_filter_def request_view_id)
  moreover have "distinct (map fr_id (select_requests u d))"
    using assms by (simp add: select_requests_def distinct_map_filter)
  ultimately show ?thesis
    unfolding all_request_views_def by (blast intro: sorted_desc)
qed

interpretation request_pages: paged_listing "\<lambda>(u, d). request_ids_ok d" "\<lambda>(u, d). all_request_views u d"
  rv_id "\<lambda>i v. rv_id v < i"
proof
  fix p :: "int \<times> database" and v assume "case p of (u, d) \<Rightarrow> request_ids_ok d" "v \<in> set (case p of (u, d) \<Rightarrow> all_request_views u d)"
  then show "- (2 ^ 63) \<le> rv_id v \<and> rv_id v < 2 ^ 63"
    by (auto simp: all_request_views_def List.map_filter_def select_requests_def request_ids_ok_def
        request_view_id split: prod.splits)
next
  fix p :: "int \<times> database" assume "case p of (u, d) \<Rightarrow> request_ids_ok d"
  then show "sorted_wrt (\<lambda>a b. rv_id b < rv_id a) (case p of (u, d) \<Rightarrow> all_request_views u d)"
    by (auto simp: request_ids_ok_def all_request_views_order)
qed auto

end
