(* ===== verification/Friend_Properties.thy ===== *)
theory Friend_Properties
  imports Friend_Graph Example
begin

text \<open>
  The properties of friendships, requests and blocks, each followed by its application to a
  concrete world where it has hypotheses.
\<close>

section \<open>A concrete world with requests\<close>

definition asked_by :: "int \<Rightarrow> int \<Rightarrow> int \<Rightarrow> friend_request" where
  "asked_by i s r = \<lparr>fr_id = i, fr_sender_id = s, fr_receiver_id = r, fr_status = ReqPending,
     fr_created_at = i, fr_responded_at = None\<rparr>"

definition cookie :: "string \<Rightarrow> request" where
  "cookie session = \<lparr>r_authorization = None, r_session_cookie = Some session\<rparr>"

text \<open>Ada asked Bob and Cyd, Dan asked Ada.\<close>

definition friend_world :: world where
  "friend_world = example_world (example_db\<lparr>
     friend_requests := [asked_by 1 1 2, asked_by 2 1 3, asked_by 3 4 1]\<rparr>)"

lemma friend_world_inv: "friend_inv friend_world"
  by (simp add: friend_world_def friend_inv_def friend_ok_def friendships_ok_def requests_ok_def
      blocks_ok_def asked_by_def contact_blocked_def between_def example_db_def)

section \<open>Handles\<close>

text \<open>
  C15. The generator of handles always answers when no statement fails, it changes nothing, and what it
  answers is a valid handle, and a free one unless all twenty proposals are taken.
\<close>

theorem generated_handles_are_valid:
  "wp (generate_unique_handle draws suffix)
     (\<lambda>h w'. same_data w w' \<and> is_valid_handle h
        \<and> (handle_taken w h \<longrightarrow> list_all (\<lambda>k. handle_taken w (candidate (draws k))) [0..<20]))
     (\<lambda>e w'. same_data w w' \<and> e = db_error \<and> faults w \<noteq> []) w"
  by (rule wp_mono [OF generate_unique_handle_spec]) (auto simp: list_all_iff)

theorem generated_handles_are_valid_witness:
  "\<exists>h. fst (generate_unique_handle (\<lambda>k. \<lparr>dr_first = k, dr_second = 7, dr_number = 42\<rparr>) 5 friend_world) = Inr h
     \<and> is_valid_handle h"
proof -
  have "faults friend_world = []" by (simp add: friend_world_def)
  then show ?thesis
    using generated_handles_are_valid [of "\<lambda>k. \<lparr>dr_first = k, dr_second = 7, dr_number = 42\<rparr>" 5 friend_world]
    by (auto simp: wp_def split: prod.splits sum.splits)
qed

section \<open>The tables\<close>

text \<open>
  C16. Whatever requests are made and whichever statements fail, friendships are stored once and with
  the smaller identifier first, nobody asks or blocks himself, at most one request between two
  users is pending, and between two users one of whom blocks the other there is neither a
  friendship nor a request.
\<close>

theorem friends_stay_consistent:
  assumes "reachable no_friends friend_step w"
  shows "friend_ok (db w)"
  using friending.reachable_inv [OF assms] by (simp add: friend_inv_def)

theorem friends_stay_consistent_witness:
  "friend_ok (db (snd (create_friend_request (cookie ''ada@x'') ''bob@x''
     ((example_world example_db)\<lparr>seqs := \<lambda>_. 0\<rparr>))))"
proof (rule friends_stay_consistent)
  have "no_friends ((example_world example_db)\<lparr>seqs := \<lambda>_. 0\<rparr>)"
    by (simp add: no_friends_def example_db_def)
  then show "reachable no_friends friend_step (snd (create_friend_request (cookie ''ada@x'') ''bob@x''
      ((example_world example_db)\<lparr>seqs := \<lambda>_. 0\<rparr>)))"
    by (blast intro: reachable.start reachable.next_step friend_step.ask)
qed

section \<open>The handlers on the social graph\<close>

text \<open>
  A successful request for friendship comes from the account of a live session, names another
  account with which it shares neither a pending request, nor a friendship, nor a block, and adds
  exactly that request to the social graph; a refused one leaves the tables as they were.
\<close>

theorem asking_refines_the_graph:
  "wp (create_friend_request req raw)
     (\<lambda>a w'. ans_status a = 201 \<and> (\<exists>u t. actor w req u \<and> names_user w raw t
        \<and> apart (social (db w)) u t \<and> social (db w') = ask u t (social (db w))))
     (\<lambda>e w'. err_status e < 500 \<longrightarrow> db w' = db w) w"
  by (rule create_friend_request_spec)

theorem asking_refines_the_graph_witness:
  "\<exists>u t. social (db (snd (create_friend_request (cookie ''bob@x'') '' cyd@x '' friend_world)))
     = ask u t (social (db friend_world))"
proof -
  have "isl (fst (create_friend_request (cookie ''bob@x'') '' cyd@x '' friend_world)) = False"
    by code_simp
  then show ?thesis
    using asking_refines_the_graph [of "cookie ''bob@x''" "'' cyd@x ''" friend_world]
    by (auto simp: wp_def split: prod.splits sum.splits)
qed

text \<open>
  An answer is accepted from the receiver of a pending request only; it takes that request, and no
  other, out of the pending ones, and makes the two friends when it says \<open>Accepted\<close>.
\<close>

theorem answering_refines_the_graph:
  assumes "friend_inv w"
  shows "wp (respond_friend_request req i status)
     (\<lambda>a w'. ans_status a = 200 \<and> (\<exists>u s st. actor w req u \<and> parse_answer status = Some st
        \<and> (s, u) \<in> asked (social (db w))
        \<and> social (db w') = settle_request s u (st = ReqAccepted) (social (db w))))
     (\<lambda>e w'. err_status e < 500 \<longrightarrow> db w' = db w) w"
  by (rule respond_friend_request_spec [OF assms])

theorem answering_refines_the_graph_witness:
  "\<exists>u s yes. social (db (snd (respond_friend_request (cookie ''bob@x'') 1 '' Accepted'' friend_world)))
     = settle_request s u yes (social (db friend_world))"
proof -
  have "isl (fst (respond_friend_request (cookie ''bob@x'') 1 '' Accepted'' friend_world)) = False"
    by code_simp
  then show ?thesis
    using answering_refines_the_graph [OF friend_world_inv, of "cookie ''bob@x''" 1 "'' Accepted''"]
    by (auto simp: wp_def split: prod.splits sum.splits)
qed

text \<open>
  C17. Blocking somebody, by the account of a live session, ends the friendship and removes every
  pending request between the two, in either direction; unblocking takes the block away and brings
  nothing back.  A refused request leaves the tables as they were.
\<close>

theorem blocking_severs:
  "wp (block req p)
     (\<lambda>_ w'. \<exists>r t. live_session w req r \<and> public_user w p = Some t \<and> u_id r \<noteq> t
        \<and> social (db w') = sever (u_id r) t (social (db w)))
     (\<lambda>_ w'. db w' = db w) w
   \<and> wp (unblock req p)
     (\<lambda>_ w'. \<exists>r. live_session w req r \<and> (case public_user w p of
          Some t \<Rightarrow> social (db w') = forgive (u_id r) t (social (db w))
        | None \<Rightarrow> social (db w') = social (db w)))
     (\<lambda>_ w'. db w' = db w) w"
  using block_spec unblock_spec by blast

section \<open>The listings\<close>

text \<open>
  C18. A client that follows the cursors of the friend requests, with any page size, reads every
  request of the user once, newest first; it needs no more pages than there are requests, plus one.
\<close>

theorem request_pages_are_complete:
  assumes "request_ids_ok d" and "1 \<le> limit" and "length (all_request_views u d) < fuel"
  shows "follow (\<lambda>cursor lim. request_views u (Some \<lparr>pg_limit = lim - 1, pg_after_id = cursor\<rparr>) d)
     (\<lambda>v. show_int (rv_id v)) limit fuel None = Some (all_request_views u d)"
  unfolding request_views_page fetch_limit_def
  using request_pages.follow_complete [of "(u, d)" limit fuel] assms by simp

theorem request_pages_are_complete_witness:
  "map_option (map rv_id) (follow (\<lambda>cursor lim. request_views 1
       (Some \<lparr>pg_limit = lim - 1, pg_after_id = cursor\<rparr>) (db friend_world))
     (\<lambda>v. show_int (rv_id v)) 2 4 None) = Some [3, 2, 1]"
proof -
  have views: "map rv_id (all_request_views 1 (db friend_world)) = [3, 2, 1]"
    by code_simp
  have "length (map rv_id (all_request_views 1 (db friend_world))) = 3"
    unfolding views by simp
  then have "length (all_request_views 1 (db friend_world)) < 4" by simp
  moreover have "request_ids_ok (db friend_world)"
    by (simp add: request_ids_ok_def friend_world_def asked_by_def)
  ultimately show ?thesis
    using request_pages_are_complete [of "db friend_world" 2 1 4] views by simp
qed

definition befriended_at :: "int \<Rightarrow> micros \<Rightarrow> friendship" where
  "befriended_at b t = \<lparr>fs_user_a = 1, fs_user_b = b, fs_created_at = t\<rparr>"

definition friend_page ::
    "api_error + (friend_view list \<times> string option) answer \<Rightarrow> (string list \<times> string option) option" where
  "friend_page r = (case r of Inl _ \<Rightarrow> None
     | Inr (Answer _ (vs, cursor)) \<Rightarrow> Some (map fv_handle vs, cursor))"

definition close_world :: world where
  "close_world = example_world (example_db\<lparr>
     friendships := [befriended_at 2 5900, befriended_at 3 5300, befriended_at 4 1000]\<rparr>)"

text \<open>
  Reading the friends page by page loses friendships: the cursor counts milliseconds, the table
  microseconds.  Of three friends, two of whom were made within one millisecond, pages of one show
  the first and the third.
\<close>

theorem friend_pages_lose_rows:
  "friend_page (fst (list_friends (cookie ''ada@x'') \<lparr>q_limit = Some 1, q_cursor = None\<rparr> close_world))
     = Some ([''bob''], Some ''5'')
   \<and> friend_page (fst (list_friends (cookie ''ada@x'') \<lparr>q_limit = Some 1, q_cursor = Some ''5''\<rparr> close_world))
     = Some ([''dan''], None)"
  by code_simp

end
