(* ===== verification/Poll_Properties.thy ===== *)
theory Poll_Properties
  imports Poll_Facts Example
begin

text \<open>The properties of the polls.\<close>

section \<open>A concrete poll\<close>

definition example_poll :: "bool \<Rightarrow> poll" where
  "example_poll multiple = \<lparr>p_id = 7, p_event_id = 10, p_question = ''when'', p_allow_multiple = multiple,
     p_expires_at = 600, p_created_at = 400, p_created_by = Some 1\<rparr>"

definition poll_world :: world where
  "poll_world = example_world (example_db\<lparr>polls := [example_poll True],
     poll_options := [\<lparr>o_id = 1, o_poll_id = 7, o_label = ''noon'', o_position = 0\<rparr>,
       \<lparr>o_id = 2, o_poll_id = 7, o_label = ''night'', o_position = 1\<rparr>],
     poll_votes := [\<lparr>v_poll_id = 7, v_option_id = 1, v_user_id = 2\<rparr>, \<lparr>v_poll_id = 7, v_option_id = 1, v_user_id = 3\<rparr>]\<rparr>)"

abbreviation session_of :: "string \<Rightarrow> request" where
  "session_of name \<equiv> \<lparr>r_authorization = None, r_session_cookie = Some (name @ ''@x'')\<rparr>"

lemma poll_world_ok: "poll_ok (db poll_world)"
  by (simp add: poll_world_def poll_ok_def example_poll_def)

section \<open>The tables\<close>

text \<open>
  C21. Whatever requests are made and whichever statements fail: every poll has two to twelve options
  and expires within seven days of its creation, every vote is for an option of its own poll and is
  stored once, and a user has at most one vote on a poll that allows one choice, as long as the other
  components leave the three tables alone.
\<close>

theorem polls_stay_consistent:
  assumes "reachable no_polls poll_step w"
  shows "poll_ok (db w)"
  using polling.reachable_inv [OF assms] by (simp add: poll_inv_def)

lemma polls_stay_consistent_witness:
  "poll_ok (db (snd (create_event_poll (session_of ''ada'') 10
     \<lparr>pc_question = ''when'', pc_options = [''noon'', ''night'', '' noon''], pc_duration_minutes = 60,
      pc_allow_multiple = None\<rparr> (example_world example_db))))"
proof (rule polls_stay_consistent)
  have "no_polls (example_world example_db)"
    by (simp add: no_polls_def example_db_def)
  then show "reachable no_polls poll_step (snd (create_event_poll (session_of ''ada'') 10
     \<lparr>pc_question = ''when'', pc_options = [''noon'', ''night'', '' noon''], pc_duration_minutes = 60,
      pc_allow_multiple = None\<rparr> (example_world example_db)))"
    by (blast intro: reachable.start reachable.next_step poll_step.create)
qed

section \<open>Voting\<close>

text \<open>The abstract state of a poll: the options each user stands for.\<close>

definition ballot :: "database \<Rightarrow> int \<times> int \<Rightarrow> int set" where
  "ballot d = (\<lambda>(poll_id, user_id).
     {x. \<lparr>v_poll_id = poll_id, v_option_id = x, v_user_id = user_id\<rparr> \<in> set (poll_votes d)})"

lemma ballot_voted: "ballot (voted i u opts d) = (ballot d)((i, u) := set opts)"
  by (auto simp: ballot_def voted_def clear_votes_def fun_eq_iff)

lemma ballot_only_outbox: "only_outbox v w \<Longrightarrow> ballot (db w) = ballot (db v)"
  using only_outbox_tables(10) [of v w] by (simp add: ballot_def fun_eq_iff)

text \<open>
  C22. A vote refines the replacement of one ballot: on an open poll of an event that is not over, a
  member's votes become exactly the options asked for, all of them options of that poll and at most
  one where one choice is allowed; the ballots of everybody else and of all other polls stay, and
  an answer below 500 changes nothing.
\<close>

theorem voting_replaces_the_ballot:
  "wp (vote_event_poll req ev i ids)
     (\<lambda>a w'. ans_status a = 200 \<and> writable w ev \<and> votable w ev i ids
        \<and> (\<exists>u. acting w req u \<and> ballot (db w') = (ballot (db w))((i, u) := set ids))
        \<and> (\<exists>u. requester w req u \<and> belongs w ev u))
     (\<lambda>e w'. err_status e < 500 \<longrightarrow> db w' = db w) w"
proof (rule wp_mono [OF vote_event_poll_spec], elim conjE exE, goal_cases)
  case (1 a w' u u' v)
  then have "ballot (db w') = (ballot (db w))((i, u) := set ids)"
    by (simp add: ballot_only_outbox ballot_voted)
  with 1 show ?case by blast
qed

lemma voting_replaces_the_ballot_witness:
  "\<exists>u. acting poll_world (session_of ''bob'') u
     \<and> ballot (db (snd (vote_event_poll (session_of ''bob'') 10 7 [2, 1, 2] poll_world)))
         = (ballot (db poll_world))((7, u) := {1, 2})"
proof -
  let ?m = "vote_event_poll (session_of ''bob'') 10 7 [2, 1, 2]"
  have "isl (fst (?m poll_world)) = False"
    by code_simp
  moreover have "set [2, 1, 2::int] = {1, 2}" by auto
  ultimately show ?thesis
    using voting_replaces_the_ballot [of "session_of ''bob''" 10 7 "[2, 1, 2]" poll_world]
    by (auto simp: wp_def split: prod.splits sum.splits simp del: set_simps)
qed

text \<open>
  The views of the polls, put together by loops over the rows, a hash map and running counters,
  equal the tally: each option counts and names its votes, each poll counts all of its votes and
  lists the reader's own, in the order of the options' positions.
\<close>

theorem poll_views_are_tallies:
  assumes "poll_ok (db w)"
  shows "wp (fetch_poll_views ev u)
     (\<lambda>views w'. same_data w w' \<and> (let ids = map (p_id \<circ> fst) (poll_rows ev (db w)) in
        views = map (tally_poll ev u (clock w) (option_rows ids (db w)) (vote_rows ids (db w))) (poll_rows ev (db w))))
     (\<lambda>_ w'. same_data w w') w"
proof -
  let ?rows = "poll_rows ev (db w)"
  let ?ids = "map (p_id \<circ> fst) ?rows"
  have "map (p_id \<circ> fst) ?rows = map p_id (sort_key (\<lambda>p. - p_created_at p) (filter (\<lambda>p. p_event_id p = ev) (polls (db w))))"
    by (simp add: poll_rows_def)
  then have polls: "distinct ?ids"
    using assms by (simp add: poll_ok_def distinct_map inj_on_def)
  have options: "distinct (map o_id (option_rows ?ids (db w)))"
    using assms by (auto simp: poll_ok_def option_rows_def distinct_map inj_on_def)
  show ?thesis
    unfolding fetch_poll_views_def Let_def
    by (auto simp: wp_simps assemble_tally [OF polls options])
qed

lemma poll_views_are_tallies_witness:
  "map (map ov_vote_count \<circ> pv_options) (case fst (fetch_poll_views 10 2 poll_world) of Inr views \<Rightarrow> views) = [[2, 0]]"
proof -
  let ?ids = "map (p_id \<circ> fst) (poll_rows 10 (db poll_world))"
  have counts: "map (map ov_vote_count \<circ> pv_options) (map (tally_poll 10 2 (clock poll_world)
      (option_rows ?ids (db poll_world)) (vote_rows ?ids (db poll_world))) (poll_rows 10 (db poll_world))) = [[2, 0]]"
    by code_simp
  have "isl (fst (fetch_poll_views 10 2 poll_world)) = False"
    by code_simp
  then show ?thesis
    using poll_views_are_tallies [OF poll_world_ok, of 10 2] counts
    by (auto simp: wp_def Let_def split: prod.splits sum.splits)
qed

section \<open>Creating and deleting\<close>

text \<open>
  Polls are made by the organiser or an administrator and unmade by the organiser or their
  creator, on events that are not over.  A new poll has the trimmed question and the options of the
  request, trimmed, not blank and distinct up to case; deleting a poll takes its options and its
  votes with it and nothing else; an answer below 500 changes nothing.
\<close>

theorem polls_are_managed_by_the_organiser:
  "wp (create_event_poll req ev p)
     (\<lambda>a w'. ans_status a = 201 \<and> writable w ev
        \<and> (\<exists>u r. acting w req u \<and> good_poll w p r \<and> poll_recorded w ev u p w')
        \<and> (\<exists>o'. requester w req o' \<and> (administers w req \<or> owns w ev o')))
     (\<lambda>e w'. err_status e < 500 \<longrightarrow> db w' = db w) w
   \<and> wp (delete_event_poll req ev i)
     (\<lambda>_ w'. writable w ev \<and> db w' = snd (delete_poll_row i (db w))
        \<and> (\<exists>u. acting w req u \<and> (\<exists>q \<in> set (polls (db w)). p_id q = i \<and> p_event_id q = ev
             \<and> (owns w ev u \<or> p_created_by q = Some u))))
     (\<lambda>_ w'. db w' = db w) w"
  by (intro conjI create_event_poll_spec delete_event_poll_spec)

lemma polls_are_managed_by_the_organiser_witness:
  "length (polls (db (snd (delete_event_poll (session_of ''ada'') 10 7 poll_world)))) = 0"
proof -
  have "isl (fst (delete_event_poll (session_of ''ada'') 10 7 poll_world)) = False"
    by code_simp
  then show ?thesis
    using polls_are_managed_by_the_organiser [THEN conjunct2, of "session_of ''ada''" 10 7 poll_world]
    by (auto simp: wp_def delete_poll_row_def poll_world_def example_poll_def Let_def delete_where_def
        split: prod.splits sum.splits)
qed

end
