(* ===== verification/Item_Properties.thy ===== *)
theory Item_Properties
  imports Item_Facts Example
begin

text \<open>The properties of the items of an event.\<close>

section \<open>A concrete event with items\<close>

definition item_world :: world where
  "item_world = example_world (example_db\<lparr>
     item_types := [\<lparr>ty_id = 1, ty_name = ''food''\<rparr>],
     items := [\<lparr>it_id = 5, it_type_id = 1, it_name = ''bread'', it_max_quantity = 9, it_unit_label = ''loaf'', it_kind = Need\<rparr>],
     events_items := [\<lparr>ei_event_id = 10, ei_item_id = 5, ei_max_quantity = 6, ei_quantity = 5, ei_created_by = Some 1\<rparr>],
     user_items := [\<lparr>ui_user_id = 2, ui_event_id = 10, ui_item_id = 5, ui_quantity = 4\<rparr>,
       \<lparr>ui_user_id = 3, ui_event_id = 10, ui_item_id = 5, ui_quantity = 1\<rparr>]\<rparr>)"

definition cookie :: "string \<Rightarrow> request" where
  "cookie name = \<lparr>r_authorization = None, r_session_cookie = Some (name @ ''@x'')\<rparr>"

lemma item_world_inv: "ledger_inv item_world"
  by (simp add: item_world_def ledger_inv_def ledger_rows_def catalogue_ok_def reserved_def is_event_item_def)

section \<open>The ledger\<close>

text \<open>
  C23. Whatever requests are made and whichever statements fail: the quantity stored with an item of an
  event is the sum of the reservations of the users, it fits an \<open>i32\<close>, reservations are positive and
  stored once per user, and every item of an event is in the catalogue and has a type, as long as the
  other components leave the four tables alone.
\<close>

theorem reservations_add_up:
  assumes "reachable no_event_items item_step w"
  shows "ledger_rows (db w) \<and> catalogue_ok (db w)"
  using bringing.reachable_inv [OF assms] by (simp add: ledger_inv_def)

definition custom_example :: custom_item_payload where
  "custom_example = \<lparr>cu_name_item = '' wine '', cu_max_quantity = 3, cu_unit_label = None, cu_item_kind = None\<rparr>"

lemma reservations_add_up_witness:
  "ledger_rows (db (snd (create_custom_event_item (cookie ''bob'') 10 custom_example (example_world example_db))))"
proof (rule reservations_add_up [THEN conjunct1])
  have "no_event_items (example_world example_db)"
    by (simp add: no_event_items_def example_db_def)
  moreover have "cu_max_quantity custom_example < 2 ^ 31"
    by (simp add: custom_example_def)
  ultimately show "reachable no_event_items item_step
      (snd (create_custom_event_item (cookie ''bob'') 10 custom_example (example_world example_db)))"
    by (blast intro: reachable.start reachable.next_step item_step.custom)
qed

section \<open>Reserving\<close>

text \<open>
  C24. A reservation refines the update of one entry of the table of parts: on an event that is not
  over, the part of the member who asks becomes exactly the requested quantity, no other part changes,
  and the sum of the parts is within the limit; the wrap-around of \<open>i32\<close> never lets a larger sum pass.
  An answer below 500 changes nothing.
\<close>

theorem reserving_sets_one_part:
  assumes "ledger_inv w" and "q < 2 ^ 31"
  shows "wp (reserve_event_item req ev it q)
     (\<lambda>a w'. ans_status a = 200 \<and> writable w ev \<and> 0 \<le> q
        \<and> (\<exists>u. acting w req u \<and> share (db w') = (share (db w))((u, ev, it) := q))
        \<and> (\<exists>e \<in> set (events_items (db w')). is_event_item ev it e
             \<and> reserved (db w') ev it \<le> ei_max_quantity e)
        \<and> (\<exists>u. requester w req u \<and> belongs w ev u))
     (\<lambda>e w'. err_status e < 500 \<longrightarrow> db w' = db w) w"
proof (rule wp_mono [OF reserve_event_item_spec [OF assms]], goal_cases)
  case (1 a w')
  then obtain u where u: "acting w req u" "fits (db w) u ev it q" and w': "db w' = with_share u ev it q (db w)"
    by auto
  have rows: "ledger_rows (db w)" using assms(1) by (simp add: ledger_inv_def)
  obtain e where e: "e \<in> set (events_items (db w))" "is_event_item ev it e" "rest (db w) u ev it + q \<le> ei_max_quantity e"
    using u(2) by (auto simp: fits_def)
  have "reserved (db w') ev it = q + rest (db w) u ev it"
    using rows by (simp add: w' reserved_def with_share_tables set_share_sum ledger_rows_def)
  moreover have "e\<lparr>ei_quantity := rest (db w) u ev it + q\<rparr> \<in> set (events_items (db w'))"
    using e by (auto simp: w' with_share_tables)
  ultimately have "\<exists>e \<in> set (events_items (db w')). is_event_item ev it e \<and> reserved (db w') ev it \<le> ei_max_quantity e"
    using e by (intro bexI [of _ "e\<lparr>ei_quantity := rest (db w) u ev it + q\<rparr>"]) (auto simp: is_event_item_def)
  with 1 u show ?case
    unfolding w' using with_share_refines [OF rows u(2)] by blast
qed

lemma reserving_sets_one_part_witness:
  "\<exists>u. share (db (snd (reserve_event_item (cookie ''bob'') 10 5 2 item_world)))
     = (share (db item_world))((u, 10, 5) := 2)"
proof -
  have "isl (fst (reserve_event_item (cookie ''bob'') 10 5 2 item_world)) = False"
    by code_simp
  then show ?thesis
    using reserving_sets_one_part [OF item_world_inv, of 2 "cookie ''bob''" 10 5]
    by (auto simp: wp_def split: prod.splits sum.splits)
qed

text \<open>
  The organiser can set the limit of an item below what is already reserved; then a member
  who wants to bring less is refused as long as the sum stays above the limit: with a limit of 6
  and parts 4 and 1, a new limit of 2 is accepted, and the member with 4 can no longer go down to 3.
\<close>

theorem a_lower_limit_blocks_smaller_parts:
  "let (answer, w) = attach_event_item (cookie ''ada'') 10 \<lparr>ap_item_id = 5, ap_max_quantity = 2\<rparr> item_world in
     ledger_inv item_world \<and> isl answer = False
     \<and> map (\<lambda>e. (ei_quantity e, ei_max_quantity e)) (events_items (db w)) = [(5, 2)]
     \<and> fst (reserve_event_item (cookie ''bob'') 10 5 3 w) = Inl (bad_request ''invalid_quantity'')"
proof -
  let ?r = "attach_event_item (cookie ''ada'') 10 \<lparr>ap_item_id = 5, ap_max_quantity = 2\<rparr> item_world"
  have "isl (fst ?r) = False" by code_simp
  moreover have "map (\<lambda>e. (ei_quantity e, ei_max_quantity e)) (events_items (db (snd ?r))) = [(5, 2)]" by code_simp
  moreover have "fst (reserve_event_item (cookie ''bob'') 10 5 3 (snd ?r)) = Inl (bad_request ''invalid_quantity'')"
    by code_simp
  ultimately show ?thesis
    using item_world_inv by (simp add: case_prod_beta)
qed

end
