(* ===== verification/Account_Properties.thy ===== *)
theory Account_Properties
  imports Account_Facts Example
begin

text \<open>The properties of the deletion of accounts.\<close>

section \<open>Facts\<close>

text \<open>A carpool and an expense that stay keep their rows; the user disappears from the rows below them.\<close>

lemma filter_delete:
  assumes "i \<notin> S" and "i \<notin> T"
  shows "filter (\<lambda>p. k p = i) (delete_where (\<lambda>p. q p \<or> k p \<in> S) (delete_where (\<lambda>p. k p \<in> T) ps))
    = filter (\<lambda>p. k p = i \<and> \<not> q p) ps"
  by (induction ps) (use assms in \<open>auto simp: delete_where_def\<close>)

definition events_gone :: "int \<Rightarrow> database \<Rightarrow> int set" where
  "events_gone u d = e_id ` {e \<in> set (events d). e_owner_id e = u}"

definition carpools_gone :: "(carpool \<Rightarrow> bool) \<Rightarrow> database \<Rightarrow> int set" where
  "carpools_gone p d = c_id ` {c \<in> set (carpools d). p c}"

definition expenses_gone :: "(expense \<Rightarrow> bool) \<Rightarrow> database \<Rightarrow> int set" where
  "expenses_gone p d = x_id ` {x \<in> set (expenses d). p x}"

lemma erased_rows:
  "carpools (erased u d) = delete_where (\<lambda>c. c_event_id c \<in> events_gone u d \<or> c_driver_id c = u) (carpools d)"
  "passengers (erased u d) = delete_where (\<lambda>p. cp_user_id p = u
      \<or> cp_carpool_id p \<in> carpools_gone (\<lambda>c. c_event_id c \<notin> events_gone u d \<and> c_driver_id c = u) d)
    (delete_where (\<lambda>p. cp_carpool_id p \<in> carpools_gone (\<lambda>c. c_event_id c \<in> events_gone u d) d) (passengers d))"
  "expenses (erased u d) = delete_where (\<lambda>x. x_event_id x \<in> events_gone u d \<or> x_paid_by x = u \<or> x_created_by x = u) (expenses d)"
  "participants (erased u d) = delete_where (\<lambda>p. xp_user_id p = u
      \<or> xp_expense_id p \<in> expenses_gone (\<lambda>x. x_event_id x \<notin> events_gone u d \<and> (x_paid_by x = u \<or> x_created_by x = u)) d)
    (delete_where (\<lambda>p. xp_expense_id p \<in> expenses_gone (\<lambda>x. x_event_id x \<in> events_gone u d) d) (participants d))"
  by (simp_all add: erased_def Let_def delete_user_def delete_user_rows_def delete_events_def delete_brings_def
      recomputed_def delete_own_reservations_def queue_revocations_def delete_where_or
      events_gone_def carpools_gone_def expenses_gone_def)

lemma erased_carpools:
  assumes ok: "carpool_ok d" and c: "c \<in> set (carpools (erased u d))"
  shows "c \<in> set (carpools d)" and "seats_counted d c"
    and "filter (\<lambda>p. cp_carpool_id p = c_id c) (passengers (erased u d))
      = filter (\<lambda>p. cp_carpool_id p = c_id c \<and> cp_user_id p \<noteq> u) (passengers d)"
proof -
  have row: "c \<in> set (carpools d)" "c_event_id c \<notin> events_gone u d" "c_driver_id c \<noteq> u"
    using c by (simp_all add: erased_rows)
  then show "c \<in> set (carpools d)" "seats_counted d c"
    using carpool_okD(4) [OF ok] by simp_all
  have "c_id c \<notin> carpools_gone p d" if "\<not> p c" for p
    using same_carpool [OF ok _ row(1)] that by (auto simp: carpools_gone_def)
  then show "filter (\<lambda>p. cp_carpool_id p = c_id c) (passengers (erased u d))
      = filter (\<lambda>p. cp_carpool_id p = c_id c \<and> cp_user_id p \<noteq> u) (passengers d)"
    using row unfolding erased_rows by (intro filter_delete) auto
qed

lemma erased_expenses:
  assumes ok: "distinct (map x_id (expenses d))" and x: "x \<in> set (expenses (erased u d))"
  shows "x \<in> set (expenses d)"
    and "filter (\<lambda>p. xp_expense_id p = x_id x) (participants (erased u d))
      = filter (\<lambda>p. xp_expense_id p = x_id x \<and> xp_user_id p \<noteq> u) (participants d)"
proof -
  have row: "x \<in> set (expenses d)" "x_event_id x \<notin> events_gone u d" "x_paid_by x \<noteq> u" "x_created_by x \<noteq> u"
    using x by (simp_all add: erased_rows)
  then show "x \<in> set (expenses d)" by simp
  have "x_id x \<notin> expenses_gone p d" if "\<not> p x" for p
    using distinct_map_inj [OF ok _ row(1)] that by (auto simp: expenses_gone_def)
  then show "filter (\<lambda>p. xp_expense_id p = x_id x) (participants (erased u d))
      = filter (\<lambda>p. xp_expense_id p = x_id x \<and> xp_user_id p \<noteq> u) (participants d)"
    using row unfolding erased_rows by (intro filter_delete) auto
qed

lemma seats_left:
  assumes "carpool_ok d" and "c \<in> set (carpools (erased u d))"
  shows "c_seats_taken c = int (count_where (\<lambda>p. cp_carpool_id p = c_id c) (passengers (erased u d)))
    + int (count_where (\<lambda>p. cp_carpool_id p = c_id c \<and> cp_user_id p = u) (passengers d))"
proof -
  have "int (length (filter (\<lambda>p. cp_carpool_id p = c_id c) ps))
      = int (length (filter (\<lambda>p. cp_carpool_id p = c_id c \<and> cp_user_id p \<noteq> u) ps))
        + int (length (filter (\<lambda>p. cp_carpool_id p = c_id c \<and> cp_user_id p = u) ps))" for ps
    by (induction ps) auto
  note this [of "passengers d"]
  then show ?thesis
    using erased_carpools [OF assms] by (simp add: seats_counted_def count_where_def)
qed

section \<open>A user who leaves\<close>

text \<open>Bob rides with Ada, brings bread, takes part in an expense and is a friend of Ada.\<close>

definition account_world :: world where
  "account_world = example_world (example_db\<lparr>
     carpools := [\<lparr>c_id = 7, c_event_id = 10, c_driver_id = 1, c_origin = ''here'', c_origin_latitude = None,
        c_origin_longitude = None, c_depart_at = 900, c_seats_total = 1, c_seats_taken = 1, c_notes = None,
        c_created_at = 0, c_updated_at = 0\<rparr>],
     passengers := [\<lparr>cp_carpool_id = 7, cp_event_id = 10, cp_user_id = 2, cp_joined_at = 0\<rparr>],
     expenses := [\<lparr>x_id = 8, x_event_id = 10, x_paid_by = 1, x_created_by = 1, x_title = ''taxi'',
        x_amount_cents = 500, x_note = None, x_date = 0, x_created_at = 0\<rparr>],
     participants := [\<lparr>xp_expense_id = 8, xp_user_id = 2, xp_share_weight = 1\<rparr>],
     friendships := [\<lparr>fs_user_a = 1, fs_user_b = 2, fs_created_at = 0\<rparr>],
     item_types := [\<lparr>ty_id = 1, ty_name = ''food''\<rparr>],
     items := [\<lparr>it_id = 5, it_type_id = 1, it_name = ''bread'', it_max_quantity = 9, it_unit_label = ''loaf'', it_kind = Need\<rparr>],
     events_items := [\<lparr>ei_event_id = 10, ei_item_id = 5, ei_max_quantity = 6, ei_quantity = 5, ei_created_by = Some 1\<rparr>],
     user_items := [\<lparr>ui_user_id = 2, ui_event_id = 10, ui_item_id = 5, ui_quantity = 4\<rparr>,
       \<lparr>ui_user_id = 3, ui_event_id = 10, ui_item_id = 5, ui_quantity = 1\<rparr>]\<rparr>)"

definition bobs_cookie :: request where
  "bobs_cookie = \<lparr>r_authorization = None, r_session_cookie = Some ''bob@x''\<rparr>"

lemma account_world_ok:
  "ledger_rows (db account_world)" "catalogue_ok (db account_world)" "poll_ok (db account_world)"
  "friend_ok (db account_world)" "carpool_ok (db account_world)" "expense_ok (db account_world)"
  by (simp_all add: account_world_def example_db_def ledger_rows_def catalogue_ok_def reserved_def is_event_item_def
      poll_ok_def friend_ok_def friendships_ok_def requests_ok_def blocks_ok_def contact_blocked_def
      carpool_ok_def seats_counted_def seated_def count_where_def expense_ok_def)

lemma account_is_deleted: "isl (fst (delete_account bobs_cookie account_world)) = False"
  by code_simp

section \<open>Properties\<close>

text \<open>
  C25. A successful deletion is asked by a live session and leaves no row that names the user (events,
  invitations, carpools, seats, expenses, shares, votes, friendships, requests, blocks, reservations,
  notifications, devices, credentials), no account that needs Apple's consent is deleted without it,
  and items of events, catalogue, polls and the social graph stay consistent; an answer below 500 or
  a failure leaves every table as it was.
\<close>

theorem deleting_an_account_forgets_the_user:
  assumes "ledger_rows (db w)" and "catalogue_ok (db w)" and "poll_ok (db w)" and "friend_ok (db w)"
  shows "wp (delete_account req)
     (\<lambda>a w'. (\<exists>s r. live_session w req s \<and> user_by_email w (u_email s) = Some r
          \<and> \<not> needs_apple (u_id r) (db w) \<and> forgotten (u_id r) (db w'))
        \<and> ledger_rows (db w') \<and> catalogue_ok (db w') \<and> poll_ok (db w') \<and> friend_ok (db w'))
     (\<lambda>e w'. db w' = db w) w"
proof (rule wp_mono [OF delete_account_spec], goal_cases)
  case (1 a w')
  then show ?case
    using erased_ledger erased_catalogue erased_polls erased_friends erased_forgotten assms by metis
qed simp

lemma deleting_an_account_forgets_the_user_witness:
  "ledger_rows (db (snd (delete_account bobs_cookie account_world)))"
  using wp_success [OF deleting_an_account_forgets_the_user [OF account_world_ok(1-4)] account_is_deleted] by blast

text \<open>
  The deletion does not give seats back: a carpool that stays keeps its counter, which is then
  too high by the seat of the deleted passenger, so that nobody can take it; an expense that stays
  keeps its amount and loses the share of the user, and may have no participant left.
\<close>

theorem deleting_an_account_keeps_seats_taken:
  assumes "carpool_ok (db w)" and "expense_ok (db w)"
  shows "wp (delete_account req)
     (\<lambda>a w'. \<exists>s r. live_session w req s \<and> user_by_email w (u_email s) = Some r
        \<and> (\<forall>c \<in> set (carpools (db w')). c \<in> set (carpools (db w)) \<and> c_seats_taken c
             = int (count_where (\<lambda>p. cp_carpool_id p = c_id c) (passengers (db w')))
               + int (count_where (\<lambda>p. cp_carpool_id p = c_id c \<and> cp_user_id p = u_id r) (passengers (db w))))
        \<and> (\<forall>x \<in> set (expenses (db w')). x \<in> set (expenses (db w))
             \<and> filter (\<lambda>p. xp_expense_id p = x_id x) (participants (db w'))
               = filter (\<lambda>p. xp_expense_id p = x_id x \<and> xp_user_id p \<noteq> u_id r) (participants (db w))))
     (\<lambda>e w'. db w' = db w) w"
proof (rule wp_mono [OF delete_account_spec], goal_cases)
  case (1 a w')
  have ids: "distinct (map x_id (expenses (db w)))" using assms(2) by (simp add: expense_ok_def)
  from 1 obtain s r where user: "live_session w req s" "user_by_email w (u_email s) = Some r"
    and w': "db w' = erased (u_id r) (db w)" by blast
  show ?case
    unfolding w'
    by (rule exI [of _ s], rule exI [of _ r])
      (blast intro: user seats_left [OF assms(1)] erased_carpools(1) [OF assms(1)] erased_expenses [OF ids])
qed simp

lemma deleting_an_account_keeps_seats_taken_witness:
  "let d = db (snd (delete_account bobs_cookie account_world)) in
     map (\<lambda>c. (c_seats_taken c, c_seats_total c)) (carpools d) = [(1, 1)] \<and> passengers d = []
     \<and> map x_amount_cents (expenses d) = [500] \<and> participants d = []
     \<and> (\<forall>c \<in> set (carpools d). c \<in> set (carpools (db account_world)))"
proof -
  let ?d = "db (snd (delete_account bobs_cookie account_world))"
  have "\<forall>c \<in> set (carpools ?d). c \<in> set (carpools (db account_world))"
    using wp_success [OF deleting_an_account_keeps_seats_taken [OF account_world_ok(5,6)] account_is_deleted] by blast
  moreover have "map (\<lambda>c. (c_seats_taken c, c_seats_total c)) (carpools ?d) = [(1, 1)]" "passengers ?d = []" by code_simp+
  moreover have "map x_amount_cents (expenses ?d) = [500]" "participants ?d = []" by code_simp+
  ultimately show ?thesis by (simp add: Let_def)
qed

end
