(* ===== verification/Checkins.thy ===== *)
theory Checkins
  imports Checks
begin

text \<open>
  Registration at the door (\<open>src/routes/qr_codes.rs\<close>): an accepted guest shows a code that is good for
  five minutes, the organiser scans it once.  Only the hash of a code is stored; a new code replaces
  the earlier one.
\<close>

definition hash_qr_token :: "config \<Rightarrow> uuid \<Rightarrow> string" where
  "hash_qr_token c token = sha256_hex c (uuid_show c token)"

definition qr_code_expires_at :: "micros \<Rightarrow> micros" where
  "qr_code_expires_at generated_at = generated_at + seconds 300"

text \<open>Unlike the helper of the event routes, this one has no exception for administrators.\<close>

definition qr_ensure_event_owner :: "request \<Rightarrow> int \<Rightarrow> int act" where
  "qr_ensure_event_owner req event_id =
     andthen (claims_email req) (\<lambda>requester.
     andthen (events_fetch_user_id requester) (\<lambda>requester_id.
     andthen (query db_error (\<lambda>w. map_option e_owner_id (find (\<lambda>e. e_id e = event_id) (events (db w))))) (\<lambda>owner.
     andthen (some_or owner (not_found ''event_not_found'')) (\<lambda>owner_id.
     andthen (require (owner_id = requester_id) (forbidden ''forbidden'')) (\<lambda>_.
     return owner_id)))))"

section \<open>The code of a guest\<close>

record qr_generate_response =
  qg_token :: uuid
  qg_event_id :: int
  qg_generated_at :: micros
  qg_expires_at :: micros

definition is_checkin :: "int \<Rightarrow> int \<Rightarrow> event_checkin \<Rightarrow> bool" where
  "is_checkin event_id user_id k \<longleftrightarrow> k_event_id k = event_id \<and> k_user_id k = user_id"

definition rotate_code :: "string \<Rightarrow> int \<Rightarrow> int \<Rightarrow> world \<Rightarrow> (sql_error + micros) \<times> world" where
  "rotate_code hash event_id user_id w =
     (let d = db w in
      if exists_where (\<lambda>k. k_token_hash k = hash \<and> \<not> is_checkin event_id user_id k) (checkins d)
      then (Inl UniqueViolation, w)
      else (Inr (clock w), w\<lparr>db := d\<lparr>checkins := update_where (is_checkin event_id user_id)
        (\<lambda>k. k\<lparr>k_token_hash := hash, k_generated_at := clock w, k_is_valid := True\<rparr>) (checkins d)\<rparr>\<rparr>))"

definition insert_code :: "string \<Rightarrow> int \<Rightarrow> int \<Rightarrow> world \<Rightarrow> (sql_error + micros) \<times> world" where
  "insert_code hash event_id user_id w =
     (let d = db w in
      if exists_where (\<lambda>k. k_token_hash k = hash \<or> is_checkin event_id user_id k) (checkins d)
      then (Inl UniqueViolation, w)
      else if \<not> exists_where (\<lambda>e. e_id e = event_id) (events d) \<or> \<not> exists_where (\<lambda>u. u_id u = user_id) (users d)
      then (Inl ForeignKeyViolation, w)
      else (Inr (clock w), w\<lparr>db := d\<lparr>checkins := checkins d
        @ [\<lparr>k_token_hash = hash, k_event_id = event_id, k_user_id = user_id, k_generated_at = clock w,
            k_scanned_at = None, k_scanned_by = None, k_is_valid = True\<rparr>]\<rparr>\<rparr>))"

definition store_code :: "string \<Rightarrow> int \<Rightarrow> int \<Rightarrow> micros act" where
  "store_code hash event_id user_id = transact db_error (
     andthen (query db_error (\<lambda>w. exists_where (is_checkin event_id user_id) (checkins (db w)))) (\<lambda>existing.
     if existing then stmt (\<lambda>_. db_error) (rotate_code hash event_id user_id)
     else stmt (\<lambda>_. db_error) (insert_code hash event_id user_id)))"

definition generate_my_qr_code :: "request \<Rightarrow> int \<Rightarrow> uuid \<Rightarrow> qr_generate_response answer act" where
  "generate_my_qr_code req event_id token =
     andthen (claims_email req) (\<lambda>requester_email.
     andthen (ensure_event_writable event_id) (\<lambda>_.
     andthen (events_fetch_user_id requester_email) (\<lambda>user_id.
     andthen (query db_error (\<lambda>w. map_option i_status
       (find (\<lambda>i. i_event_id i = event_id \<and> i_user_id i = user_id) (invitations (db w))))) (\<lambda>row.
     andthen (some_or row (forbidden ''not_invited'')) (\<lambda>invitation_status.
     andthen (require (invitation_status = Accepted) (forbidden ''invitation_invalid'')) (\<lambda>_.
     andthen get_state (\<lambda>w.
     andthen (store_code (hash_qr_token (cfg w) token) event_id user_id) (\<lambda>generated_at.
     return (Answer 200 \<lparr>qg_token = token, qg_event_id = event_id, qg_generated_at = generated_at,
       qg_expires_at = qr_code_expires_at generated_at\<rparr>)))))))))"

section \<open>Scanning a code\<close>

text \<open>The text of the \<open>message\<close> is left out.\<close>

record qr_scan_response =
  qs_success :: bool
  qs_status :: string
  qs_user_email :: "string option"
  qs_user_handle :: "string option"
  qs_user_avatar_url :: "string option"
  qs_scanned_at :: "micros option"

record qr_scan_details =
  qd_event_id :: int
  qd_generated_at :: micros
  qd_scanned_at :: "micros option"
  qd_is_valid :: bool
  qd_email :: string
  qd_handle :: string
  qd_avatar_url :: "string option"
  qd_invitation_status :: "invitation_status option"

definition scan_details :: "string \<Rightarrow> database \<Rightarrow> qr_scan_details option" where
  "scan_details hash d =
     Option.bind (find (\<lambda>k. k_token_hash k = hash) (checkins d)) (\<lambda>k.
     map_option (\<lambda>u.
       \<lparr>qd_event_id = k_event_id k, qd_generated_at = k_generated_at k, qd_scanned_at = k_scanned_at k,
        qd_is_valid = k_is_valid k, qd_email = u_email u, qd_handle = u_handle u, qd_avatar_url = u_avatar_url u,
        qd_invitation_status = map_option i_status
          (find (\<lambda>i. i_event_id i = k_event_id k \<and> i_user_id i = k_user_id k) (invitations d))\<rparr>)
       (find (\<lambda>u. u_id u = k_user_id k) (users d)))"

definition refusal :: "qr_scan_details \<Rightarrow> string \<Rightarrow> micros option \<Rightarrow> qr_scan_response" where
  "refusal details status scanned_at = \<lparr>qs_success = False, qs_status = status,
     qs_user_email = Some (qd_email details), qs_user_handle = Some (qd_handle details),
     qs_user_avatar_url = qd_avatar_url details, qs_scanned_at = scanned_at\<rparr>"

text \<open>The reasons to refuse a code of the right event, in the order of the code.\<close>

definition scan_refusal :: "micros \<Rightarrow> qr_scan_details \<Rightarrow> qr_scan_response answer option" where
  "scan_refusal t details =
     (if qr_code_expires_at (qd_generated_at details) < t then Some (Answer 403 (refusal details ''qr_expired'' None))
      else if qd_invitation_status details \<noteq> Some Accepted
      then Some (Answer 403 (refusal details ''invitation_invalid'' None))
      else if \<not> qd_is_valid details then Some (Answer 403 (refusal details ''qr_invalidated'' None))
      else if qd_scanned_at details \<noteq> None
      then Some (Answer 409 (refusal details ''already_scanned'' (qd_scanned_at details)))
      else None)"

definition mark_scanned :: "string \<Rightarrow> int \<Rightarrow> micros \<Rightarrow> database \<Rightarrow> nat \<times> database" where
  "mark_scanned hash scanner t d =
     (let open_code = (\<lambda>k. k_token_hash k = hash \<and> k_scanned_at k = None) in
      (count_where open_code (checkins d),
       d\<lparr>checkins := update_where open_code (\<lambda>k. k\<lparr>k_scanned_at := Some t, k_scanned_by := Some scanner\<rparr>)
         (checkins d)\<rparr>))"

text \<open>
  The body of the transaction; an answer of the left side is given after a rollback.
\<close>

definition scan_body :: "int \<Rightarrow> int \<Rightarrow> string \<Rightarrow> (qr_scan_response answer + qr_scan_response answer) act" where
  "scan_body event_id scanner hash =
     andthen (query db_error (\<lambda>w. scan_details hash (db w))) (\<lambda>row.
     andthen (some_or row (not_found ''qr_not_found'')) (\<lambda>details.
     andthen (require (qd_event_id details = event_id) (bad_request ''wrong_event'')) (\<lambda>_.
     andthen now (\<lambda>t.
     case scan_refusal t details of
       Some refused \<Rightarrow> return (Inl refused)
     | None \<Rightarrow>
         andthen (execute db_error (\<lambda>w. mark_scanned hash scanner t (db w))) (\<lambda>rows_affected.
         if rows_affected = 0 then return (Inl (Answer 409 (refusal details ''already_scanned'' None)))
         else return (Inr (Answer 200 \<lparr>qs_success = True, qs_status = ''scanned'',
           qs_user_email = Some (qd_email details), qs_user_handle = Some (qd_handle details),
           qs_user_avatar_url = qd_avatar_url details, qs_scanned_at = Some t\<rparr>)))))))"

definition commit_right :: "api_error \<Rightarrow> ('a + 'a) act \<Rightarrow> 'a act" where
  "commit_right e body = (\<lambda>w. if fault w then (Inl e, tick w)
     else case body (tick w) of
       (Inl x, w') \<Rightarrow> (Inl x, w'\<lparr>db := db w\<rparr>)
     | (Inr (Inl a), w') \<Rightarrow> (Inr a, w'\<lparr>db := db w\<rparr>)
     | (Inr (Inr a), w') \<Rightarrow> if fault w' then (Inl e, (tick w')\<lparr>db := db w\<rparr>) else (Inr a, tick w'))"

definition scan_qr_code :: "request \<Rightarrow> int \<Rightarrow> string \<Rightarrow> qr_scan_response answer act" where
  "scan_qr_code req event_id token =
     andthen (qr_ensure_event_owner req event_id) (\<lambda>scanner_user_id.
     andthen (ensure_event_writable event_id) (\<lambda>_.
     andthen get_state (\<lambda>w.
     andthen (some_or (uuid_parse (cfg w) token) (bad_request ''invalid_token'')) (\<lambda>qr_token.
     commit_right db_error (scan_body event_id scanner_user_id (hash_qr_token (cfg w) qr_token))))))"

section \<open>The numbers\<close>

record qr_stats_response =
  qt_total_invited :: int
  qt_total_checked_in :: int
  qt_pending_checkins :: int

definition total_invited :: "int \<Rightarrow> database \<Rightarrow> int" where
  "total_invited event_id d = int (count_where (\<lambda>i. i_event_id i = event_id
     \<and> i_status i \<notin> {Declined, Expired}) (invitations d))"

definition total_checked_in :: "int \<Rightarrow> database \<Rightarrow> int" where
  "total_checked_in event_id d = int (count_where (\<lambda>k. k_event_id k = event_id \<and> k_scanned_at k \<noteq> None) (checkins d))"

text \<open>Both statements are sent before either result is looked at.\<close>

definition get_qr_scan_stats :: "request \<Rightarrow> int \<Rightarrow> qr_stats_response answer act" where
  "get_qr_scan_stats req event_id =
     andthen (qr_ensure_event_owner req event_id) (\<lambda>_.
     andthen (attempt (query db_error (\<lambda>w. total_invited event_id (db w)))) (\<lambda>invited.
     andthen (attempt (query db_error (\<lambda>w. total_checked_in event_id (db w)))) (\<lambda>checked_in.
     case (invited, checked_in) of
       (Some invited, Some checked_in) \<Rightarrow>
         return (Answer 200 \<lparr>qt_total_invited = invited, qt_total_checked_in = checked_in,
           qt_pending_checkins = max (invited - checked_in) 0\<rparr>)
     | _ \<Rightarrow> throw db_error)))"

end
