(* ===== verification/Checkin_Properties.thy ===== *)
theory Checkin_Properties
  imports Checkins Example
begin

text \<open>What registration at the door promises: who is registered, by whom, and only once.\<close>

section \<open>The table of codes\<close>

definition checkin_ok :: "database \<Rightarrow> bool" where
  "checkin_ok d \<longleftrightarrow> distinct (map k_token_hash (checkins d))
     \<and> distinct (map (\<lambda>k. (k_event_id k, k_user_id k)) (checkins d))"

text \<open>The abstract state: when each guest of an event was registered, and by whom.\<close>

definition registration_of :: "event_checkin \<Rightarrow> (micros \<times> int option) option" where
  "registration_of k = map_option (\<lambda>t. (t, k_scanned_by k)) (k_scanned_at k)"

definition registered :: "database \<Rightarrow> int \<times> int \<Rightarrow> (micros \<times> int option) option" where
  "registered d = (\<lambda>(ev, u). Option.bind (find (is_checkin ev u) (checkins d)) registration_of)"

lemma find_checkin:
  assumes "checkin_ok d"
  shows "find (is_checkin ev u) (checkins d) = Some k \<longleftrightarrow> k \<in> set (checkins d) \<and> is_checkin ev u k"
proof -
  have "is_checkin ev u = (\<lambda>k. k_event_id k = ev \<and> k_user_id k = u)" by (auto simp: is_checkin_def)
  then show ?thesis
    using find_Some_iff_pair [of k_event_id k_user_id "checkins d" ev u k] assms by (simp add: checkin_ok_def)
qed

lemma registered_row:
  assumes "checkin_ok d" and "k \<in> set (checkins d)"
  shows "registered d (k_event_id k, k_user_id k) = registration_of k"
  using find_checkin [OF assms(1), of "k_event_id k" "k_user_id k" k] assms(2)
  by (simp add: registered_def is_checkin_def)

lemma find_map_checkin:
  assumes "\<And>k. is_checkin ev u (f k) = is_checkin ev u k"
  shows "find (is_checkin ev u) (map f ks) = map_option f (find (is_checkin ev u) ks)"
  using assms by (induction ks) auto

lemma registered_update:
  assumes "\<And>k. k_event_id (f k) = k_event_id k" and "\<And>k. k_user_id (f k) = k_user_id k"
  shows "registered (d\<lparr>checkins := update_where p f (checkins d)\<rparr>) (ev, u)
    = Option.bind (find (is_checkin ev u) (checkins d)) (\<lambda>k. registration_of (if p k then f k else k))"
  using assms by (simp add: registered_def update_where_def find_map_checkin is_checkin_def if_distrib
      bind_map_option comp_def cong: if_cong)

section \<open>A new code\<close>

lemma rotate_code_spec:
  assumes "checkin_ok (db w)" and "rotate_code h ev u w = (r, w')"
  shows "checkin_ok (db w') \<and> registered (db w') = registered (db w)
    \<and> (\<forall>t. r = Inr t \<longrightarrow> t = clock w \<and> (\<forall>k \<in> set (checkins (db w')). is_checkin ev u k \<longrightarrow> k_token_hash k = h))"
proof (cases "exists_where (\<lambda>k. k_token_hash k = h \<and> \<not> is_checkin ev u k) (checkins (db w))")
  case True
  then show ?thesis using assms by (auto simp: rotate_code_def Let_def)
next
  case False
  let ?f = "\<lambda>k. k\<lparr>k_token_hash := h, k_generated_at := clock w, k_is_valid := True\<rparr>"
  let ?ks = "update_where (is_checkin ev u) ?f (checkins (db w))"
  have w': "r = Inr (clock w)" "db w' = (db w)\<lparr>checkins := ?ks\<rparr>"
    using assms(2) False by (auto simp: rotate_code_def Let_def split: if_splits)
  have keys: "map (\<lambda>k. (k_event_id k, k_user_id k)) ?ks = map (\<lambda>k. (k_event_id k, k_user_id k)) (checkins (db w))"
    by simp
  have "distinct (map k_token_hash (update_where (is_checkin ev u) ?f ks))"
    if "distinct (map k_token_hash ks)" "distinct (map (\<lambda>k. (k_event_id k, k_user_id k)) ks)"
      "\<forall>k \<in> set ks. k_token_hash k = h \<longrightarrow> is_checkin ev u k" for ks
    using that
  proof (induction ks)
    case (Cons k ks)
    have other: "\<not> is_checkin ev u k'" if "is_checkin ev u k" "k' \<in> set ks" for k'
      using Cons.prems(2) that unfolding is_checkin_def by (auto simp: image_iff)
    have "k_token_hash (if is_checkin ev u k then ?f k else k)
        \<notin> k_token_hash ` set (update_where (is_checkin ev u) ?f ks)"
    proof (cases "is_checkin ev u k")
      case True
      then have "update_where (is_checkin ev u) ?f ks = ks" using other by (intro update_where_none) auto
      then show ?thesis using True Cons.prems(3) other by auto
    next
      case False
      then show ?thesis using Cons.prems(1,3) by (auto simp: image_iff)
    qed
    moreover have "distinct (map k_token_hash (update_where (is_checkin ev u) ?f ks))"
      using Cons by simp
    ultimately show ?case
      unfolding update_where_cons list.map distinct.simps set_map by blast
  qed simp
  then have "checkin_ok (db w')"
    using assms(1) False unfolding w' checkin_ok_def by (simp add: keys)
  moreover have "registered (db w') = registered (db w)"
  proof (rule ext)
    fix key
    have "registration_of (if is_checkin ev u k then ?f k else k) = registration_of k" for k
      by (simp add: registration_of_def)
    then show "registered (db w') key = registered (db w) key"
      unfolding w' by (cases key) (simp add: registered_update, simp add: registered_def)
  qed
  moreover have "\<forall>k \<in> set (checkins (db w')). is_checkin ev u k \<longrightarrow> k_token_hash k = h"
    unfolding w' by auto
  ultimately show ?thesis using w'(1) by blast
qed

lemma insert_code_spec:
  assumes "checkin_ok (db w)" and "insert_code h ev u w = (r, w')"
  shows "checkin_ok (db w') \<and> registered (db w') = registered (db w)
    \<and> (\<forall>t. r = Inr t \<longrightarrow> t = clock w \<and> (\<forall>k \<in> set (checkins (db w')). is_checkin ev u k \<longrightarrow> k_token_hash k = h))"
proof (cases "exists_where (\<lambda>k. k_token_hash k = h \<or> is_checkin ev u k) (checkins (db w))")
  case True
  then show ?thesis using assms by (auto simp: insert_code_def Let_def)
next
  case False
  then have fresh: "\<And>k. k \<in> set (checkins (db w)) \<Longrightarrow> k_token_hash k \<noteq> h \<and> \<not> is_checkin ev u k" by auto
  then have none: "find (is_checkin ev u) (checkins (db w)) = None"
    unfolding find_None_iff by blast
  let ?k = "\<lparr>k_token_hash = h, k_event_id = ev, k_user_id = u, k_generated_at = clock w,
      k_scanned_at = None, k_scanned_by = None, k_is_valid = True\<rparr>"
  consider "r = Inl ForeignKeyViolation" "db w' = db w"
    | "r = Inr (clock w)" "db w' = (db w)\<lparr>checkins := checkins (db w) @ [?k]\<rparr>"
    using assms(2) False by (auto simp: insert_code_def Let_def split: if_splits)
  then show ?thesis
  proof cases
    case 2
    have "h \<notin> k_token_hash ` set (checkins (db w))"
      "(ev, u) \<notin> (\<lambda>k. (k_event_id k, k_user_id k)) ` set (checkins (db w))"
      using fresh by (auto simp: is_checkin_def)
    then have "checkin_ok (db w')"
      using assms(1) by (simp add: 2 checkin_ok_def)
    moreover have "registered (db w') key = registered (db w) key" for key
      using none by (cases key) (auto simp: 2 registered_def find_append registration_of_def is_checkin_def split: option.splits)
    ultimately show ?thesis
      using fresh by (auto simp: 2)
  qed (use assms(1) in simp)
qed

lemma store_code_spec:
  assumes "checkin_ok (db w)"
  shows "wp (store_code h ev u) (\<lambda>t w'. checkin_ok (db w') \<and> registered (db w') = registered (db w)
      \<and> t = clock w \<and> (\<forall>k \<in> set (checkins (db w')). is_checkin ev u k \<longrightarrow> k_token_hash k = h))
    (\<lambda>_ w'. db w' = db w) w"
  unfolding store_code_def
proof (rule wp_transact_success, goal_cases)
  case 1
  let ?Q = "\<lambda>t w'. checkin_ok (db w') \<and> registered (db w') = registered (db w)
      \<and> t = clock w \<and> (\<forall>k \<in> set (checkins (db w')). is_checkin ev u k \<longrightarrow> k_token_hash k = h)"
  have "wp (stmt (\<lambda>_. db_error) (rotate_code h ev u)) ?Q (\<lambda>_ _. True) v"
    and "wp (stmt (\<lambda>_. db_error) (insert_code h ev u)) ?Q (\<lambda>_ _. True) v"
    if v: "db v = db w" "clock v = clock w" for v
  proof -
    have ok: "checkin_ok (db (tick v))" using assms by (simp add: v)
    show "wp (stmt (\<lambda>_. db_error) (rotate_code h ev u)) ?Q (\<lambda>_ _. True) v"
      by (rule wp_stmtI; (drule rotate_code_spec [OF ok])?) (simp_all add: v)
    show "wp (stmt (\<lambda>_. db_error) (insert_code h ev u)) ?Q (\<lambda>_ _. True) v"
      by (rule wp_stmtI; (drule insert_code_spec [OF ok])?) (simp_all add: v)
  qed
  then show ?case
    by (simp add: wp_andthen wp_query)
qed simp

text \<open>The guards of the two handlers.\<close>

lemma checks_qr_owner [check_intros]:
  "checks (qr_ensure_event_owner req ev) (\<lambda>w u. requester w req u
     \<and> (\<exists>e \<in> set (events (db w)). e_id e = ev \<and> e_owner_id e = u))"
proof (rule checksI)
  show "stable (\<lambda>w u. requester w req u \<and> (\<exists>e \<in> set (events (db w)). e_id e = ev \<and> e_owner_id e = u))"
    unfolding stable_def
  proof (intro allI impI)
    fix w v u assume same: "same_data w v"
    then have "db v = db w" by (simp add: same_data_def)
    then show "(requester v req u \<and> (\<exists>e \<in> set (events (db v)). e_id e = ev \<and> e_owner_id e = u))
        = (requester w req u \<and> (\<exists>e \<in> set (events (db w)). e_id e = ev \<and> e_owner_id e = u))"
      by (simp add: requester_same_data [OF same])
  qed
  show "wp (qr_ensure_event_owner req ev) (\<lambda>u v. same_data w v \<and> requester w req u
      \<and> (\<exists>e \<in> set (events (db w)). e_id e = ev \<and> e_owner_id e = u)) (\<lambda>_. same_data w) w" for w
    unfolding qr_ensure_event_owner_def
  proof (intro guards [where w = w] same_data_refl, goal_cases)
    case (5 em v i v2 row v3 o_id v4 u v5)
    then show ?case
      by (cases "find (\<lambda>e. e_id e = ev) (events (db w))") (auto simp: requester_def dest!: find_SomeD)
  qed auto
qed

section \<open>Scanning\<close>

text \<open>A code of the event that is fresh, valid, not yet scanned, and of a guest who has accepted.\<close>

definition admissible :: "world \<Rightarrow> int \<Rightarrow> string \<Rightarrow> event_checkin \<Rightarrow> bool" where
  "admissible w ev h k \<longleftrightarrow> k \<in> set (checkins (db w)) \<and> k_token_hash k = h \<and> k_event_id k = ev
     \<and> clock w \<le> k_generated_at k + seconds 300 \<and> k_is_valid k \<and> k_scanned_at k = None
     \<and> accepted_member (db w) ev (k_user_id k)"

lemma scan_details_admissible:
  assumes "scan_details h (db w) = Some det" and "qd_event_id det = ev" and "scan_refusal (clock w) det = None"
  obtains k where "admissible w ev h k"
proof -
  obtain k u where k: "find (\<lambda>k. k_token_hash k = h) (checkins (db w)) = Some k"
    "find (\<lambda>u. u_id u = k_user_id k) (users (db w)) = Some u"
    and det: "det = \<lparr>qd_event_id = k_event_id k, qd_generated_at = k_generated_at k, qd_scanned_at = k_scanned_at k,
        qd_is_valid = k_is_valid k, qd_email = u_email u, qd_handle = u_handle u, qd_avatar_url = u_avatar_url u,
        qd_invitation_status = map_option i_status
          (find (\<lambda>i. i_event_id i = k_event_id k \<and> i_user_id i = k_user_id k) (invitations (db w)))\<rparr>"
    using assms(1) by (auto simp: scan_details_def bind_eq_Some_conv)
  have "admissible w ev h k"
    using assms(2,3) find_SomeD [OF k(1)]
    by (auto simp: det admissible_def scan_refusal_def qr_code_expires_at_def accepted_member_def
        split: if_splits dest!: find_SomeD)
  then show thesis by (rule that)
qed

lemma mark_scanned_ok:
  assumes ok: "checkin_ok d" and k: "k \<in> set (checkins d)" "k_token_hash k = h" "k_scanned_at k = None"
  shows "checkin_ok (snd (mark_scanned h s t d))"
    and "registered (snd (mark_scanned h s t d)) = (registered d)((k_event_id k, k_user_id k) \<mapsto> (t, Some s))"
proof -
  let ?p = "\<lambda>k. k_token_hash k = h \<and> k_scanned_at k = None"
  let ?f = "\<lambda>k. k\<lparr>k_scanned_at := Some t, k_scanned_by := Some s\<rparr>"
  have d': "snd (mark_scanned h s t d) = d\<lparr>checkins := update_where ?p ?f (checkins d)\<rparr>"
    by (simp add: mark_scanned_def Let_def)
  show "checkin_ok (snd (mark_scanned h s t d))"
    using ok by (simp add: d' checkin_ok_def)
  have one: "?p k' \<longleftrightarrow> k' = k" if "k' \<in> set (checkins d)" for k'
    using distinct_map_inj [of k_token_hash "checkins d" k' k] ok k that by (auto simp: checkin_ok_def)
  show "registered (snd (mark_scanned h s t d)) = (registered d)((k_event_id k, k_user_id k) \<mapsto> (t, Some s))"
  proof (rule ext)
    fix key :: "int \<times> int"
    obtain ev u where key: "key = (ev, u)" by force
    have new: "registered (snd (mark_scanned h s t d)) (ev, u)
        = Option.bind (find (is_checkin ev u) (checkins d)) (\<lambda>k'. registration_of (if ?p k' then ?f k' else k'))"
      unfolding d' by (rule registered_update) simp_all
    have old: "registered d (a, b) = Option.bind (find (is_checkin a b) (checkins d)) registration_of" for a b
      by (simp add: registered_def)
    show "registered (snd (mark_scanned h s t d)) key = ((registered d)((k_event_id k, k_user_id k) \<mapsto> (t, Some s))) key"
    proof (cases "find (is_checkin ev u) (checkins d)")
      case None
      then have "\<not> is_checkin ev u k" using k(1) by (auto simp: find_None_iff)
      then show ?thesis using None by (auto simp: key new old is_checkin_def)
    next
      case (Some k')
      then have k': "k' \<in> set (checkins d)" "is_checkin ev u k'" using find_checkin [OF ok] by auto
      have "k' = k" if "is_checkin ev u k"
        using k' that k(1) find_checkin [OF ok, of ev u] by (metis option.inject)
      then show ?thesis
        using Some k' k(3) unfolding key new
        by (auto simp: old one registration_of_def is_checkin_def)
    qed
  qed
qed

lemma scan_body_spec:
  assumes ok: "checkin_ok (db w)"
  shows "wp (scan_body ev s h)
    (\<lambda>r w'. (\<forall>a. r = Inl a \<longrightarrow> ans_status a \<noteq> 200)
      \<and> (\<forall>a. r = Inr a \<longrightarrow> ans_status a = 200 \<and> (\<exists>k. admissible w ev h k \<and> checkin_ok (db w')
          \<and> registered (db w') = (registered (db w))((ev, k_user_id k) \<mapsto> (clock w, Some s)))))
    (\<lambda>_ _. True) w"
  unfolding scan_body_def
proof (intro guards [where w = w] same_data_refl, goal_cases)
  case (4 row v det v2 u v3 t v4)
  have v4: "db v4 = db w" "clock v4 = clock w" using 4(7) by (simp_all add: same_data_def)
  show ?case
  proof (cases "scan_refusal t det")
    case (Some a)
    then have "ans_status a \<noteq> 200" by (auto simp: scan_refusal_def split: if_splits)
    then show ?thesis using Some by simp
  next
    case None
    obtain k where k: "admissible w ev h k"
      using scan_details_admissible [of h w det ev] 4 None by auto
    then have marked: "checkin_ok (snd (mark_scanned h s (clock w) (db w)))"
      "registered (snd (mark_scanned h s (clock w) (db w))) = (registered (db w))((ev, k_user_id k) \<mapsto> (clock w, Some s))"
      using mark_scanned_ok [OF ok, of k h s "clock w"] by (auto simp: admissible_def)
    then show ?thesis
      using None 4 v4 k by (auto simp: wp_execute wp_andthen wp_if)
  qed
qed simp_all

lemma wp_commit_right:
  assumes "wp body (\<lambda>r w'. (\<forall>a. r = Inl a \<longrightarrow> P a) \<and> (\<forall>a. r = Inr a \<longrightarrow> Q a w')) (\<lambda>_ _. True) (tick w)"
    and "\<And>a w'. Q a w' \<Longrightarrow> Q a (tick w')"
  shows "wp (commit_right e body) (\<lambda>a w'. P a \<and> db w' = db w \<or> Q a w') (\<lambda>_ w'. db w' = db w) w"
  using assms by (auto simp: wp_def commit_right_def split: prod.splits sum.splits if_splits)

text \<open>The two handlers.\<close>

definition organises :: "world \<Rightarrow> int \<Rightarrow> int \<Rightarrow> bool" where
  "organises w ev u \<longleftrightarrow> (\<exists>e \<in> set (events (db w)). e_id e = ev \<and> e_owner_id e = u)"

lemma scan_qr_code_spec:
  assumes ok: "checkin_ok (db w)"
  shows "wp (scan_qr_code req ev token)
    (\<lambda>a w'. ans_status a \<noteq> 200 \<and> db w' = db w \<or> ans_status a = 200 \<and>
      (\<exists>s k qr. requester w req s \<and> organises w ev s \<and> writable w ev \<and> uuid_parse (cfg w) token = Some qr
        \<and> admissible w ev (hash_qr_token (cfg w) qr) k \<and> checkin_ok (db w')
        \<and> registered (db w') = (registered (db w))((ev, k_user_id k) \<mapsto> (clock w, Some s))))
    (\<lambda>_ w'. db w' = db w) w"
  unfolding scan_qr_code_def
proof (rule wp_checked [OF checks_qr_owner same_data_refl], goal_cases)
  case (1 s v)
  then have s: "requester w req s" "organises w ev s" by (simp_all add: organises_def)
  show ?case
    using 1(1)
  proof (intro guards [where w = w], goal_cases)
    case (4 u v2 st v3 qr v4)
    then have v4: "db v4 = db w" "clock v4 = clock w" and st: "cfg st = cfg w" and qr: "uuid_parse (cfg w) token = Some qr"
      by (simp_all add: same_data_def)
    have scan: "checkin_ok (db (tick v4))" using ok v4 by simp
    have adm: "admissible (tick v4) ev h k = admissible w ev h k" for h k
      by (simp add: admissible_def v4)
    show ?case
    proof (rule wp_mono [OF wp_commit_right [OF scan_body_spec [OF scan]]], goal_cases)
      case (2 a w')
      then show ?case
        using s 4(3) qr unfolding st adm by (auto simp: v4)
    qed (simp_all add: v4)
  qed (simp_all add: same_data_def)
qed (simp add: same_data_def)

lemma generate_my_qr_code_spec:
  assumes ok: "checkin_ok (db w)"
  shows "wp (generate_my_qr_code req ev token)
    (\<lambda>a w'. \<exists>u. requester w req u \<and> writable w ev \<and> accepted_member (db w) ev u
        \<and> checkin_ok (db w') \<and> registered (db w') = registered (db w)
        \<and> (\<forall>k \<in> set (checkins (db w')). is_checkin ev u k \<longrightarrow> k_token_hash k = hash_qr_token (cfg w) token))
    (\<lambda>_ w'. db w' = db w) w"
  unfolding generate_my_qr_code_def
proof (intro guards [where w = w] same_data_refl, goal_cases)
  case (7 em v x v2 u v3 row v4 st v5 y v6 wt v7)
  then have v7: "db v7 = db w" "clock v7 = clock w" and wt: "cfg wt = cfg w" by (simp_all add: same_data_def)
  have u: "requester w req u" using 7 by (auto simp: requester_def)
  have member: "accepted_member (db w) ev u"
    using 7 by (auto simp: accepted_member_def eq_commute [of "Some _"] dest!: find_SomeD)
  show ?case
    unfolding wp_andthen
    by (rule wp_mono [OF store_code_spec]) (use ok u member 7 in \<open>auto simp: v7 wt\<close>)
qed (auto simp: same_data_def)

section \<open>A concrete door\<close>

text \<open>Bob and Cyd have codes; Cyd has been registered by Ada.\<close>

definition door_world :: world where
  "door_world = (example_world (example_db\<lparr>checkins :=
      [\<lparr>k_token_hash = ''7'', k_event_id = 10, k_user_id = 2, k_generated_at = 400, k_scanned_at = None,
        k_scanned_by = None, k_is_valid = True\<rparr>,
       \<lparr>k_token_hash = ''8'', k_event_id = 10, k_user_id = 3, k_generated_at = 300, k_scanned_at = Some 350,
        k_scanned_by = Some 1, k_is_valid = True\<rparr>]\<rparr>))\<lparr>cfg := example_config\<lparr>uuid_parse := (\<lambda>_. Some 7)\<rparr>\<rparr>"

definition door_cookie :: "string \<Rightarrow> request" where
  "door_cookie name = \<lparr>r_authorization = None, r_session_cookie = Some (name @ ''@x'')\<rparr>"

lemma door_world_ok: "checkin_ok (db door_world)"
  by (simp add: door_world_def checkin_ok_def)

section \<open>Properties\<close>

text \<open>
  C26. Scanning refines the registration of one guest.  The answer is 200 exactly when the map of the
  registered guests gains one entry, for the time of the scan and the organiser who scanned; then the
  event is not over, the code is stored, fresh, valid and not yet used, and its guest has accepted
  the invitation.  After every other answer and every error the tables are unchanged.
\<close>

theorem scanning_registers_a_guest:
  assumes "checkin_ok (db w)"
  shows "wp (scan_qr_code req ev token)
    (\<lambda>a w'. if ans_status a = 200
      then \<exists>s k qr. requester w req s \<and> organises w ev s \<and> writable w ev \<and> uuid_parse (cfg w) token = Some qr
        \<and> admissible w ev (hash_qr_token (cfg w) qr) k \<and> registered (db w) (ev, k_user_id k) = None
        \<and> registered (db w') = (registered (db w))((ev, k_user_id k) \<mapsto> (clock w, Some s))
      else db w' = db w)
    (\<lambda>_ w'. db w' = db w) w"
proof (rule wp_mono [OF scan_qr_code_spec [OF assms]], goal_cases)
  case (1 a w')
  have "registered (db w) (ev, k_user_id k) = None" if "admissible w ev h k" for h k
    using registered_row [OF assms, of k] that by (auto simp: admissible_def registration_of_def)
  with 1 show ?case by (cases "ans_status a = 200") (simp_all, blast)
qed simp

lemma scanning_registers_a_guest_witness:
  "\<exists>u s. registered (db (snd (scan_qr_code (door_cookie ''ada'') 10 ''code'' door_world))) (10, u) = Some (500, Some s)"
proof -
  have "fst (scan_qr_code (door_cookie ''ada'') 10 ''code'' door_world) = Inr (Answer 200
      \<lparr>qs_success = True, qs_status = ''scanned'', qs_user_email = Some ''bob@x'', qs_user_handle = Some ''bob'',
       qs_user_avatar_url = None, qs_scanned_at = Some 500\<rparr>)"
    by code_simp
  then obtain w' where "scan_qr_code (door_cookie ''ada'') 10 ''code'' door_world = (Inr (Answer 200
      \<lparr>qs_success = True, qs_status = ''scanned'', qs_user_email = Some ''bob@x'', qs_user_handle = Some ''bob'',
       qs_user_avatar_url = None, qs_scanned_at = Some 500\<rparr>), w')"
    by (metis prod.collapse)
  with wp_Inr [OF scanning_registers_a_guest [OF door_world_ok] this]
  obtain s u where "registered (db w') = (registered (db door_world))((10, u) \<mapsto> (clock door_world, Some s))"
    by auto
  with \<open>scan_qr_code _ _ _ _ = _\<close> show ?thesis
    by (auto simp: door_world_def)
qed

text \<open>Codes are made and scanned, and the rest of the system works on, as long as it leaves the table alone.\<close>

inductive checkin_step :: "world \<Rightarrow> world \<Rightarrow> bool" where
  generate: "checkin_step w (snd (generate_my_qr_code req ev token w))"
| scan: "checkin_step w (snd (scan_qr_code req ev token w))"
| elsewhere: "checkins (db w') = checkins (db w) \<Longrightarrow> checkin_step w w'"

text \<open>Nobody who has been registered is registered again, or forgotten.\<close>

definition registrations_stay :: "world \<Rightarrow> world \<Rightarrow> bool" where
  "registrations_stay v w \<longleftrightarrow> checkin_ok (db w) \<and> registered (db v) \<subseteq>\<^sub>m registered (db w)"

lemma registered_cong: "checkins d = checkins d' \<Longrightarrow> registered d = registered d'"
  by (simp add: registered_def)

lemma checkin_step_stays:
  assumes "checkin_step w w'" and ok: "checkin_ok (db w)"
  shows "registrations_stay w w'"
  using assms(1)
proof cases
  case (generate req ev token)
  have "wp (generate_my_qr_code req ev token) (\<lambda>_. registrations_stay w) (\<lambda>_. registrations_stay w) w"
    by (rule wp_mono [OF generate_my_qr_code_spec [OF ok]]) (auto simp: registrations_stay_def ok)
  then show ?thesis unfolding generate by (rule wp_snd)
next
  case (scan req ev token)
  have "wp (scan_qr_code req ev token) (\<lambda>_. registrations_stay w) (\<lambda>_. registrations_stay w) w"
  proof (rule wp_mono [OF scan_qr_code_spec [OF ok]], goal_cases)
    case (1 a w')
    have "registered (db w) (ev, k_user_id k) = None" if "admissible w ev h k" for h k
      using registered_row [OF ok, of k] that by (auto simp: admissible_def registration_of_def)
    with 1 show ?case
      by (auto simp: registrations_stay_def ok map_le_def)
  qed (simp add: registrations_stay_def ok)
  then show ?thesis unfolding scan by (rule wp_snd)
next
  case elsewhere
  then show ?thesis
    using ok registered_cong [OF elsewhere] by (simp add: registrations_stay_def checkin_ok_def)
qed

interpretation door: invariant_system "\<lambda>w. checkin_ok (db w)" checkin_step "\<lambda>w. checkin_ok (db w)"
  by unfold_locales (auto dest: checkin_step_stays simp: registrations_stay_def)

text \<open>
  Once a guest is registered, the registration stays as it is, with its time and its scanner,
  whatever codes the guest makes afterwards and whoever scans them: nobody enters twice.
\<close>

theorem a_guest_is_registered_once:
  assumes "checkin_ok (db w)" and "checkin_step\<^sup>*\<^sup>* w w'" and "registered (db w) (ev, u) = Some r"
  shows "registered (db w') (ev, u) = Some r"
  using assms(2)
proof (induction rule: rtranclp_induct)
  case base
  show ?case by (rule assms(3))
next
  case (step x y)
  have "checkin_ok (db x)" by (rule door.steps_inv [OF step(1) assms(1)])
  from checkin_step_stays [OF step(2) this] step(3) show ?case
    unfolding registrations_stay_def map_le_def by (metis domI)
qed

lemma a_guest_is_registered_once_witness:
  "registered (db (snd (generate_my_qr_code (door_cookie ''cyd'') 10 9 door_world))) (10, 3) = Some (350, Some 1)"
proof (rule a_guest_is_registered_once [OF door_world_ok])
  show "checkin_step\<^sup>*\<^sup>* door_world (snd (generate_my_qr_code (door_cookie ''cyd'') 10 9 door_world))"
    by (blast intro: checkin_step.generate)
  show "registered (db door_world) (10, 3) = Some (350, Some 1)"
    by (simp add: registered_def door_world_def is_checkin_def registration_of_def)
qed

end
