(* ===== verification/Rate_Limit.thy ===== *)
theory Rate_Limit
  imports Main
begin

text \<open>
  The limiter of authentication attempts (\<open>src/rate_limit.rs\<close>).  In one process it keeps, for every
  key, the instants of the accepted attempts and forgets those outside the window; it compacts the
  whole map once per window.  With Redis a counter per key expires one window after its first
  attempt, and the local map is only the fallback.  Instants are nanoseconds, and
  \<open>duration_since\<close> saturates, as subtraction on \<open>nat\<close> does.
\<close>

type_synonym instant = nat

record limiter =
  attempts :: "string \<Rightarrow> instant list option"
  last_compaction :: instant
  max_attempts :: nat
  window :: nat

definition prune_bucket :: "instant \<Rightarrow> nat \<Rightarrow> instant list \<Rightarrow> instant list" where
  "prune_bucket now win entry = dropWhile (\<lambda>oldest. now - oldest > win) entry"

definition retain_fresh :: "instant \<Rightarrow> nat \<Rightarrow> (string \<Rightarrow> instant list option) \<Rightarrow> string \<Rightarrow> instant list option" where
  "retain_fresh now win m = (\<lambda>k. case m k of
       None \<Rightarrow> None
     | Some entry \<Rightarrow> if prune_bucket now win entry = [] then None else Some (prune_bucket now win entry))"

definition allow_local :: "string \<Rightarrow> instant \<Rightarrow> limiter \<Rightarrow> bool \<times> limiter" where
  "allow_local key now l =
     (let should_compact = (now - last_compaction l \<ge> window l);
          last = (if should_compact then now else last_compaction l);
          m = (if should_compact then retain_fresh now (window l) (attempts l) else attempts l);
          entry = prune_bucket now (window l) (case m key of None \<Rightarrow> [] | Some e \<Rightarrow> e) in
      if length entry \<ge> max_attempts l
      then (False, l\<lparr>attempts := m(key \<mapsto> entry), last_compaction := last\<rparr>)
      else (True, l\<lparr>attempts := m(key \<mapsto> entry @ [now]), last_compaction := last\<rparr>))"

text \<open>The script: \<open>INCR\<close>, and \<open>PEXPIRE\<close> on the first attempt; the keys are those of the limiter.\<close>

type_synonym counters = "string \<Rightarrow> (nat \<times> nat) option"

definition milliseconds :: "nat \<Rightarrow> nat" where
  "milliseconds ns = ns div 1000000"

definition redis_incr :: "string \<Rightarrow> nat \<Rightarrow> nat \<Rightarrow> counters \<Rightarrow> nat \<times> counters" where
  "redis_incr key ttl t counts =
     (case counts key of
        Some (n, expires) \<Rightarrow>
          if t < expires then (n + 1, counts(key \<mapsto> (n + 1, expires))) else (1, counts(key \<mapsto> (1, t + ttl)))
      | None \<Rightarrow> (1, counts(key \<mapsto> (1, t + ttl))))"

definition allow_redis :: "string \<Rightarrow> instant \<Rightarrow> limiter \<Rightarrow> counters \<Rightarrow> bool \<times> counters" where
  "allow_redis key now l counts =
     (let (n, counts') = redis_incr (''fiestaaa:rate_limit:'' @ key) (max 1 (milliseconds (window l)))
        (milliseconds now) counts
      in (n \<le> max_attempts l, counts'))"

text \<open>\<open>redis\<close> is None without Redis and Some b with it, b telling whether it answers this time.\<close>

definition allow :: "bool option \<Rightarrow> string \<Rightarrow> instant \<Rightarrow> limiter \<times> counters \<Rightarrow> bool \<times> limiter \<times> counters" where
  "allow redis key now = (\<lambda>(l, counts).
     if redis = Some True
     then (let (ok, counts') = allow_redis key now l counts in (ok, l, counts'))
     else (let (ok, l') = allow_local key now l in (ok, l', counts)))"

section \<open>A run of attempts\<close>

fun run_local :: "(string \<times> instant) list \<Rightarrow> limiter \<Rightarrow> bool list" where
  "run_local [] l = []"
| "run_local ((key, now) # calls) l =
     (let (ok, l') = allow_local key now l in ok # run_local calls l')"

fun run_allow :: "(bool option \<times> string \<times> instant) list \<Rightarrow> limiter \<times> counters \<Rightarrow> bool list" where
  "run_allow [] s = []"
| "run_allow ((redis, key, now) # calls) s =
     (let (ok, s') = allow redis key now s in ok # run_allow calls s')"

text \<open>
  The specification: a log of the accepted attempts, nothing forgotten; an attempt is accepted when
  fewer than the allowed number of the same key lie in the window before it.
\<close>

definition recent :: "nat \<Rightarrow> instant \<Rightarrow> string \<Rightarrow> (string \<times> instant) list \<Rightarrow> instant list" where
  "recent win now key log = map snd (filter (\<lambda>(k, t). k = key \<and> now - t \<le> win) log)"

fun run_log :: "nat \<Rightarrow> nat \<Rightarrow> (string \<times> instant) list \<Rightarrow> (string \<times> instant) list \<Rightarrow> bool list" where
  "run_log limit win [] log = []"
| "run_log limit win ((key, now) # calls) log =
     (let ok = (length (recent win now key log) < limit) in
      ok # run_log limit win calls (if ok then log @ [(key, now)] else log))"

definition accepted :: "bool list \<Rightarrow> (string \<times> instant) list \<Rightarrow> (string \<times> instant) list" where
  "accepted answers calls = map snd (filter fst (zip answers calls))"

section \<open>The limiter implements the log\<close>

definition bucket :: "limiter \<Rightarrow> string \<Rightarrow> instant list" where
  "bucket l k = (case attempts l k of None \<Rightarrow> [] | Some e \<Rightarrow> e)"

definition fresh :: "nat \<Rightarrow> instant \<Rightarrow> instant list \<Rightarrow> instant list" where
  "fresh win now ts = filter (\<lambda>t. now - t \<le> win) ts"

lemma prune_sorted:
  assumes "sorted ts"
  shows "prune_bucket now win ts = fresh win now ts"
  using assms
proof (induction ts)
  case (Cons t ts)
  show ?case
  proof (cases "now - t \<le> win")
    case True
    then have "\<forall>s \<in> set ts. now - s \<le> win" using Cons.prems by fastforce
    then show ?thesis using True by (simp add: prune_bucket_def fresh_def filter_id_conv)
  next
    case False
    then show ?thesis using Cons by (simp add: prune_bucket_def fresh_def)
  qed
qed (simp add: prune_bucket_def fresh_def)

lemma fresh_later: "now \<le> later \<Longrightarrow> fresh win later (fresh win now ts) = fresh win later ts"
  unfolding fresh_def filter_filter by (rule filter_cong) auto

lemma fresh_nil: "fresh win now [] = []"
  by (simp add: fresh_def)

lemma fresh_sorted: "sorted ts \<Longrightarrow> sorted (fresh win now ts)"
  by (simp add: fresh_def sorted_wrt_filter)

text \<open>The relation: buckets are sorted, lie in the past, and agree with the log in every later window.\<close>

definition simulates :: "limiter \<Rightarrow> instant \<Rightarrow> (string \<times> instant) list \<Rightarrow> bool" where
  "simulates l now log \<longleftrightarrow> (\<forall>k. sorted (bucket l k) \<and> (\<forall>t \<in> set (bucket l k). t \<le> now)
     \<and> (\<forall>later \<ge> now. fresh (window l) later (bucket l k) = recent (window l) later k log))"

lemma recent_append:
  "recent win now k (log @ [(key, t)])
     = recent win now k log @ (if k = key \<and> now - t \<le> win then [t] else [])"
  by (simp add: recent_def)

lemma retained_bucket:
  assumes "sorted (bucket l k)"
  shows "(case retain_fresh now (window l) (attempts l) k of None \<Rightarrow> [] | Some e \<Rightarrow> e)
    = fresh (window l) now (bucket l k)"
proof (cases "attempts l k")
  case None
  then show ?thesis by (simp add: retain_fresh_def bucket_def fresh_nil)
next
  case (Some e)
  then have "prune_bucket now (window l) e = fresh (window l) now e"
    using prune_sorted assms by (simp add: bucket_def)
  then show ?thesis using Some by (simp add: retain_fresh_def bucket_def)
qed

lemma compacted_bucket:
  assumes "sorted (bucket l k)"
  shows "(case (if b then retain_fresh now (window l) (attempts l) else attempts l) k of None \<Rightarrow> [] | Some e \<Rightarrow> e) = bucket l k
    \<or> (case (if b then retain_fresh now (window l) (attempts l) else attempts l) k of None \<Rightarrow> [] | Some e \<Rightarrow> e)
        = fresh (window l) now (bucket l k)"
  using retained_bucket [OF assms] by (cases b) (simp_all only: if_True if_False bucket_def simp_thms)

lemma pruned_bucket:
  assumes "sorted b" and "x = b \<or> x = fresh win now b"
  shows "prune_bucket now win x = fresh win now b"
  using assms(2)
proof
  assume "x = fresh win now b"
  then show ?thesis
    by (simp add: prune_sorted [OF fresh_sorted [OF assms(1)]] fresh_later)
qed (simp add: prune_sorted assms(1))

lemma allow_local_step:
  assumes sim: "simulates l past log" and past: "past \<le> now"
    and step: "allow_local key now l = (ok, l')"
  shows "ok \<longleftrightarrow> length (recent (window l) now key log) < max_attempts l"
    and "simulates l' now (if ok then log @ [(key, now)] else log)"
    and "window l' = window l \<and> max_attempts l' = max_attempts l"
proof -
  let ?m = "if now - last_compaction l \<ge> window l then retain_fresh now (window l) (attempts l) else attempts l"
  define entry where "entry = prune_bucket now (window l) (case ?m key of None \<Rightarrow> [] | Some e \<Rightarrow> e)"
  have sorted: "sorted (bucket l k)" for k using sim by (simp add: simulates_def)
  have kept: "(case ?m k of None \<Rightarrow> [] | Some e \<Rightarrow> e) = bucket l k
      \<or> (case ?m k of None \<Rightarrow> [] | Some e \<Rightarrow> e) = fresh (window l) now (bucket l k)" for k
    by (rule compacted_bucket [OF sorted])
  have "entry = fresh (window l) now (bucket l key)"
    unfolding entry_def by (rule pruned_bucket [OF sorted kept])
  then have entry: "entry = recent (window l) now key log"
    using sim past by (simp add: simulates_def)
  have l': "l' = l\<lparr>attempts := ?m(key \<mapsto> entry @ (if ok then [now] else [])),
      last_compaction := (if now - last_compaction l \<ge> window l then now else last_compaction l)\<rparr>"
    and ok: "ok \<longleftrightarrow> length entry < max_attempts l"
    using step by (auto simp: allow_local_def Let_def entry_def [symmetric] split: if_splits)
  show "ok \<longleftrightarrow> length (recent (window l) now key log) < max_attempts l"
    using ok entry by simp
  show "window l' = window l \<and> max_attempts l' = max_attempts l"
    by (simp add: l')
  have bucket': "bucket l' k = (if k = key then entry @ (if ok then [now] else [])
      else case ?m k of None \<Rightarrow> [] | Some e \<Rightarrow> e)" for k
    by (simp add: l' bucket_def)
  have old: "bucket l' k = bucket l k \<or> bucket l' k = fresh (window l) now (bucket l k)" if "k \<noteq> key" for k
    using kept [of k] that by (simp add: bucket')
  show "simulates l' now (if ok then log @ [(key, now)] else log)"
    unfolding simulates_def
  proof (intro allI conjI ballI impI)
    fix k
    have in_past: "\<forall>t \<in> set (bucket l j). t \<le> now" for j
      using sim past unfolding simulates_def by (meson le_trans)
    have before: "\<forall>t \<in> set (fresh (window l) now (bucket l j)). t \<le> now" "\<forall>t \<in> set (bucket l j). t \<le> now" for j
      using in_past [of j] by (auto simp: fresh_def)
    have keyed: "bucket l' key = fresh (window l) now (bucket l key) @ (if ok then [now] else [])"
      using \<open>entry = fresh (window l) now (bucket l key)\<close> by (simp add: bucket')
    show "sorted (bucket l' k)"
      using old [of k] keyed sorted fresh_sorted before by (cases "k = key") (auto simp: sorted_append)
    show "t \<le> now" if "t \<in> set (bucket l' k)" for t
      using old [of k] keyed before that by (cases "k = key") (auto split: if_splits)
    show "fresh (window l') later (bucket l' k)
        = recent (window l') later k (if ok then log @ [(key, now)] else log)" if "now \<le> later" for later
    proof -
      have rel: "fresh (window l) later (bucket l j) = recent (window l) later j log" for j
        using sim past that by (simp add: simulates_def)
      show ?thesis
      proof (cases "k = key")
        case True
        have "fresh (window l) later (bucket l' key)
            = fresh (window l) later (bucket l key) @ fresh (window l) later (if ok then [now] else [])"
          unfolding keyed using fresh_later [OF that, of "window l" "bucket l key"]
          by (simp add: fresh_def)
        then show ?thesis
          using True rel [of key] by (simp add: l' recent_append fresh_def)
      next
        case False
        then show ?thesis
          using old [OF False] rel [of k] fresh_later [OF that, of "window l" "bucket l k"]
          by (auto simp: l' recent_append)
      qed
    qed
  qed
qed

lemma run_local_log:
  assumes "simulates l past log" and "sorted (past # map snd calls)"
  shows "run_local calls l = run_log (max_attempts l) (window l) calls log"
  using assms
proof (induction calls arbitrary: l past log)
  case (Cons c calls)
  obtain key now where c: "c = (key, now)" by force
  obtain ok l' where step: "allow_local key now l = (ok, l')" by force
  have past: "past \<le> now" using Cons.prems(2) c by simp
  note step' = allow_local_step [OF Cons.prems(1) past step]
  have "run_local calls l' = run_log (max_attempts l') (window l') calls (if ok then log @ [(key, now)] else log)"
    using Cons.prems(2) c by (intro Cons.IH [OF step'(2)]) simp
  then show ?case
    using step step' by (simp add: c Let_def)
qed simp






text \<open>A limiter as \<open>AuthRateLimiter::new\<close> makes it.\<close>

definition new_limiter :: "nat \<Rightarrow> nat \<Rightarrow> instant \<Rightarrow> limiter" where
  "new_limiter limit win now =
     \<lparr>attempts = (\<lambda>_. None), last_compaction = now, max_attempts = limit, window = win\<rparr>"

lemma new_limiter_simulates: "simulates (new_limiter limit win now) now []"
  by (simp add: simulates_def new_limiter_def bucket_def recent_def fresh_def)

text \<open>
  C19. The limiter of one process, which forgets old attempts and compacts its map, answers every
  sequence of calls exactly as the log that forgets nothing.
\<close>

theorem limiter_equals_log:
  assumes "sorted (start # map snd calls)"
  shows "run_local calls (new_limiter limit win start) = run_log limit win calls []"
  using run_local_log [OF new_limiter_simulates assms] by (simp add: new_limiter_def)

definition attempts_example :: "(string \<times> instant) list" where
  "attempts_example = [(''a'', 1), (''b'', 2), (''a'', 3), (''a'', 4), (''a'', 20), (''b'', 21)]"

lemma limiter_equals_log_witness:
  "run_local attempts_example (new_limiter 2 10 0) = run_log 2 10 attempts_example []
   \<and> run_log 2 10 attempts_example [] = [True, True, True, False, True, True]"
  using limiter_equals_log [of 0 attempts_example 2 10]
  by (simp add: attempts_example_def recent_def)



lemma run_log_append:
  "run_log limit win (calls @ [(key, late)]) log
     = run_log limit win calls log
       @ [length (recent win late key (log @ accepted (run_log limit win calls log) calls)) < limit]"
proof (induction calls arbitrary: log)
  case (Cons c calls)
  then show ?case by (cases c) (simp add: Let_def accepted_def)
qed (simp add: accepted_def)

lemma accepted_among: "set (accepted answers calls) \<subseteq> set calls"
  by (auto simp: accepted_def dest: set_zip_rightD)

text \<open>
  Nobody is locked out for good: after waiting until every earlier attempt has left the window
  the next one is accepted, whatever was tried before.
\<close>

theorem waiting_unlocks:
  assumes "0 < limit" and sorted: "sorted (start # map snd (calls @ [(key, late)]))"
    and late: "\<forall>t \<in> snd ` set calls. t + win < late"
  shows "last (run_local (calls @ [(key, late)]) (new_limiter limit win start))"
proof -
  have "recent win late key (accepted answers calls) = []" for answers
    using late accepted_among [of answers calls] by (fastforce simp: recent_def filter_empty_conv)
  then show ?thesis
    using run_local_log [OF new_limiter_simulates sorted, of limit win] assms(1)
    by (simp add: new_limiter_def run_log_append)
qed

lemma waiting_unlocks_witness:
  "last (run_local (attempts_example @ [(''b'', 32)]) (new_limiter 1 10 0))"
  by (rule waiting_unlocks) (simp_all add: attempts_example_def)

end
