(* ===== verification/Event_Form.thy ===== *)
theory Event_Form
  imports Access Event_View
begin

text \<open>
  What the organiser fills in, checked and normalised (the helpers of \<open>src/routes/events/mod.rs\<close>):
  dates and deadline, time zone, playlist, payment link, features, and the filter for links into
  private networks.
\<close>

section \<open>Dates\<close>

definition validate_invitation_deadline :: "int \<Rightarrow> int option \<Rightarrow> int \<Rightarrow> api_error + unit" where
  "validate_invitation_deadline today deadline event_date =
     (case deadline of
        None \<Rightarrow> Inr ()
      | Some limit \<Rightarrow>
          if limit < today then Inl (bad_request ''invalid_invitation_deadline'')
          else if limit > event_date then Inl (bad_request ''invalid_invitation_deadline'')
          else Inr ())"

definition validate_event_schedule ::
    "int \<Rightarrow> micros \<Rightarrow> int option \<Rightarrow> micros option \<Rightarrow> api_error + unit" where
  "validate_event_schedule start_date start_time end_date end_time =
     (case (end_date, end_time) of
        (None, None) \<Rightarrow> Inr ()
      | (Some d, Some t) \<Rightarrow>
          if d < start_date \<or> d = start_date \<and> t < start_time
          then Inl (bad_request ''invalid_event_schedule'') else Inr ()
      | _ \<Rightarrow> Inl (bad_request ''invalid_event_schedule''))"

definition normalize_event_timezone :: "config \<Rightarrow> string option \<Rightarrow> api_error + string" where
  "normalize_event_timezone c value =
     (let timezone = (case Option.bind value (\<lambda>v. if trim v = [] then None else Some (trim v)) of
          None \<Rightarrow> ''Europe/Paris'' | Some v \<Rightarrow> v) in
      if timezone_known c timezone then Inr timezone else Inl (bad_request ''invalid_timezone''))"

definition check_local :: "config \<Rightarrow> string \<Rightarrow> int \<Rightarrow> micros \<Rightarrow> api_error + unit" where
  "check_local c timezone date time =
     (case from_local_datetime c timezone date time of
        Single _ \<Rightarrow> Inr ()
      | Ambiguous _ _ \<Rightarrow> Inl (bad_request ''ambiguous_local_time'')
      | Skipped \<Rightarrow> Inl (bad_request ''nonexistent_local_time''))"

definition validate_event_local_times ::
    "config \<Rightarrow> string \<Rightarrow> int \<Rightarrow> micros \<Rightarrow> int option \<Rightarrow> micros option \<Rightarrow> api_error + unit" where
  "validate_event_local_times c timezone start_date start_time end_date end_time =
     (if \<not> timezone_known c timezone then Inl (bad_request ''invalid_timezone'')
      else case check_local c timezone start_date start_time of
        Inl e \<Rightarrow> Inl e
      | Inr _ \<Rightarrow>
          (case (end_date, end_time) of
             (Some d, Some t) \<Rightarrow> check_local c timezone d t
           | _ \<Rightarrow> Inr ()))"

section \<open>Features\<close>

definition default_enabled_features :: "string list" where
  "default_enabled_features = [''carpools'', ''polls'', ''items'']"

definition allowed_event_features :: "string list" where
  "allowed_event_features =
     [''carpools'', ''polls'', ''items'', ''ticketing'', ''playlist'', ''payment'', ''expenses'']"

definition append_feature :: "string \<Rightarrow> string list \<Rightarrow> string list" where
  "append_feature feature features = (if feature \<in> set features then features else features @ [feature])"

text \<open>The loop of \<open>normalize_enabled_features\<close>; \<open>seen\<close> is the set of the values so far.\<close>

fun collect_features :: "config \<Rightarrow> string list \<Rightarrow> string list \<Rightarrow> api_error + string list" where
  "collect_features c seen [] = Inr (rev seen)"
| "collect_features c seen (f # fs) =
     (let value = lowercase c (trim f) in
      if value = [] then collect_features c seen fs
      else if value \<notin> set allowed_event_features then Inl (bad_request ''invalid_enabled_features'')
      else collect_features c (if value \<in> set seen then seen else value # seen) fs)"

definition normalize_enabled_features :: "config \<Rightarrow> string list \<Rightarrow> api_error + string list" where
  "normalize_enabled_features c features = collect_features c [] features"

definition filled :: "string option \<Rightarrow> bool" where
  "filled v \<longleftrightarrow> (case v of None \<Rightarrow> False | Some s \<Rightarrow> trim s \<noteq> [])"

definition has_playlist_metadata :: "string option \<Rightarrow> string option \<Rightarrow> bool" where
  "has_playlist_metadata provider url \<longleftrightarrow> filled provider \<and> filled url"

definition has_payment_metadata :: "int option \<Rightarrow> string option \<Rightarrow> bool" where
  "has_payment_metadata provider_id identifier \<longleftrightarrow> provider_id \<noteq> None \<and> filled identifier"

definition resolve_enabled_features ::
    "config \<Rightarrow> string list option \<Rightarrow> int option \<Rightarrow> string option \<Rightarrow> string option \<Rightarrow> string option
      \<Rightarrow> api_error + string list" where
  "resolve_enabled_features c requested payment_provider_id payment_identifier playlist_provider playlist_url =
     (let playlist = has_playlist_metadata playlist_provider playlist_url;
          payment = has_payment_metadata payment_provider_id payment_identifier in
      case (case requested of
          Some fs \<Rightarrow> normalize_enabled_features c fs
        | None \<Rightarrow>
            let inferred = default_enabled_features;
                inferred = (if playlist then append_feature ''playlist'' inferred else inferred) in
            Inr (if payment then append_feature ''payment'' inferred else inferred)) of
        Inl e \<Rightarrow> Inl e
      | Inr features \<Rightarrow>
          if ''playlist'' \<in> set features \<and> \<not> playlist then Inl (bad_request ''invalid_enabled_features'')
          else if ''payment'' \<in> set features \<and> \<not> payment then Inl (bad_request ''invalid_enabled_features'')
          else Inr features)"

definition sync_optional_features ::
    "string list \<Rightarrow> int option \<Rightarrow> string option \<Rightarrow> string option \<Rightarrow> string option \<Rightarrow> string list" where
  "sync_optional_features features payment_provider_id payment_identifier playlist_provider playlist_url =
     (let fs = (if has_playlist_metadata playlist_provider playlist_url then append_feature ''playlist'' features
                else filter (\<lambda>v. v \<noteq> ''playlist'') features) in
      if has_payment_metadata payment_provider_id payment_identifier then append_feature ''payment'' fs
      else filter (\<lambda>v. v \<noteq> ''payment'') fs)"

section \<open>Links\<close>

text \<open>\<open>Ipv4Addr::octets\<close> and \<open>Ipv6Addr::segments\<close>.\<close>

definition octet :: "nat \<Rightarrow> 8 word list \<Rightarrow> nat" where
  "octet i a = (if i < length a then unat (a ! i) else 0)"

definition segment :: "nat \<Rightarrow> 16 word list \<Rightarrow> 16 word" where
  "segment i a = (if i < length a then a ! i else 0)"

definition is_private_v4 :: "8 word list \<Rightarrow> bool" where
  "is_private_v4 a \<longleftrightarrow>
     octet 0 a = 10 \<or> octet 0 a = 172 \<and> 16 \<le> octet 1 a \<and> octet 1 a \<le> 31
       \<or> octet 0 a = 192 \<and> octet 1 a = 168
     \<or> octet 0 a = 127
     \<or> octet 0 a = 169 \<and> octet 1 a = 254
     \<or> octet 0 a = 0 \<and> octet 1 a = 0 \<and> octet 2 a = 0 \<and> octet 3 a = 0
     \<or> octet 0 a = 100 \<and> 64 \<le> octet 1 a \<and> octet 1 a \<le> 127"

text \<open>\<open>to_ipv4_mapped\<close>: \<open>::ffff:a.b.c.d\<close>.\<close>

definition to_ipv4_mapped :: "16 word list \<Rightarrow> 8 word list option" where
  "to_ipv4_mapped a =
     (if list_all (\<lambda>i. segment i a = 0) [0..<5] \<and> segment 5 a = 0xffff
      then Some [ucast (drop_bit 8 (segment 6 a)), ucast (segment 6 a),
                 ucast (drop_bit 8 (segment 7 a)), ucast (segment 7 a)]
      else None)"

definition is_private_v6 :: "16 word list \<Rightarrow> bool" where
  "is_private_v6 a \<longleftrightarrow>
     list_all (\<lambda>i. segment i a = 0) [0..<7] \<and> segment 7 a = 1
     \<or> list_all (\<lambda>i. segment i a = 0) [0..<8]
     \<or> (case to_ipv4_mapped a of None \<Rightarrow> False | Some m \<Rightarrow> is_private_v4 m)
     \<or> and (segment 0 a) 0xfe00 = 0xfc00
     \<or> and (segment 0 a) 0xffc0 = 0xfe80"

definition is_private_or_local :: "ip_addr \<Rightarrow> bool" where
  "is_private_or_local ip = (case ip of V4 a \<Rightarrow> is_private_v4 a | V6 a \<Rightarrow> is_private_v6 a)"

definition ensure_safe_absolute_http_url :: "config \<Rightarrow> string \<Rightarrow> string \<Rightarrow> api_error + unit" where
  "ensure_safe_absolute_http_url c value error =
     (case url_parse c value of
        None \<Rightarrow> Inl (bad_request error)
      | Some (scheme, None) \<Rightarrow> Inl (bad_request error)
      | Some (scheme, Some host) \<Rightarrow>
          if to_ascii_lowercase scheme \<notin> {''http'', ''https''} then Inl (bad_request error)
          else
            let host_normalized = trim_end_char CHR ''.'' (to_ascii_lowercase host) in
            if host_normalized = ''localhost'' \<or> ends_with ''.localhost'' host_normalized
            then Inl (bad_request error)
            else case ip_parse c (trim_end_char CHR '']'' (trim_start_char CHR ''['' host_normalized)) of
                None \<Rightarrow> Inr ()
              | Some ip \<Rightarrow> if is_private_or_local ip then Inl (bad_request error) else Inr ())"

section \<open>Playlist\<close>

text \<open>
  \<open>^https?://host/.+$\<close>: one of the prefixes and at least one character, none of them a newline.
\<close>

definition matches_link :: "string list \<Rightarrow> string \<Rightarrow> bool" where
  "matches_link prefixes s \<longleftrightarrow> list_ex (\<lambda>p. starts_with p s
     \<and> drop (length p) s \<noteq> [] \<and> CHR 0x0A \<notin> set (drop (length p) s)) prefixes"

definition playlist_prefixes :: "string \<Rightarrow> string list" where
  "playlist_prefixes provider =
     (if provider = ''apple_music'' then [''http://music.apple.com/'', ''https://music.apple.com/'']
      else if provider = ''deezer'' then [''http://deezer.com/'', ''https://deezer.com/'',
        ''http://www.deezer.com/'', ''https://www.deezer.com/'']
      else [''http://open.spotify.com/'', ''https://open.spotify.com/''])"

definition nonempty :: "string option \<Rightarrow> string option" where
  "nonempty v = (case v of Some [] \<Rightarrow> None | other \<Rightarrow> other)"

definition normalize_playlist_payload ::
    "config \<Rightarrow> string option \<Rightarrow> string option \<Rightarrow> bool \<Rightarrow> bool \<Rightarrow> api_error + string option \<times> string option" where
  "normalize_playlist_payload c provider url clear_provider clear_url =
     (let provider_value = nonempty (if clear_provider then None
            else map_option (\<lambda>v. lowercase c (trim v)) provider);
          url_value = nonempty (if clear_url then None else map_option trim url) in
      case (provider_value, url_value) of
        (None, None) \<Rightarrow> Inr (None, None)
      | (Some provider, Some playlist_url) \<Rightarrow>
          if provider \<notin> {''spotify'', ''apple_music'', ''deezer''}
          then Inl (bad_request ''invalid_playlist_provider'')
          else if \<not> matches_link (playlist_prefixes provider) playlist_url
          then Inl (bad_request ''invalid_playlist_url'')
          else (case ensure_safe_absolute_http_url c playlist_url ''invalid_playlist_url'' of
                  Inl e \<Rightarrow> Inl e
                | Inr _ \<Rightarrow> Inr (Some provider, Some playlist_url))
      | _ \<Rightarrow> Inl (bad_request ''invalid_playlist''))"

section \<open>Payment\<close>

definition clean_payment_value :: "string option \<Rightarrow> string option" where
  "clean_payment_value value = Option.bind value (\<lambda>v. let trimmed = trim v in
     if trimmed = [] then None else Some trimmed)"

text \<open>The compiled expression is represented by its pattern; \<open>None\<close> of \<open>regex_is_match\<close> is one that does not compile.\<close>

definition fetch_provider_validation :: "int \<Rightarrow> (string \<times> string) act" where
  "fetch_provider_validation provider_id =
     andthen (query db_error (\<lambda>w. find (\<lambda>p. pp_id p = provider_id) (payment_providers (db w)))) (\<lambda>row.
     andthen (some_or row (bad_request ''unknown_payment_provider'')) (\<lambda>p.
     andthen get_state (\<lambda>w.
     andthen (require (regex_is_match (cfg w) (pp_validation_regex p) [] \<noteq> None) db_error) (\<lambda>_.
     return (pp_name p, pp_validation_regex p)))))"

definition normalize_payment_info :: "int option \<Rightarrow> string option \<Rightarrow> (int option \<times> string option) act" where
  "normalize_payment_info provider_id payment_link =
     (case (provider_id, clean_payment_value payment_link) of
        (None, None) \<Rightarrow> return (None, None)
      | (Some i, Some link) \<Rightarrow>
          andthen (fetch_provider_validation i) (\<lambda>(name, regex).
          andthen get_state (\<lambda>w.
          andthen (require (regex_is_match (cfg w) regex link = Some True) (bad_request ''invalid_payment_link'')) (\<lambda>_.
          andthen (from_result (ensure_safe_absolute_http_url (cfg w) link ''invalid_payment_link'')) (\<lambda>_.
          return (Some i, Some link)))))
      | (Some i, None) \<Rightarrow> return (Some i, None)
      | (None, Some _) \<Rightarrow> throw (bad_request ''invalid_payload''))"

end
