(* ===== verification/Events.thy ===== *)
theory Events
  imports Event_Form Account Pagination
begin

text \<open>
  Events (\<open>src/routes/events/core.rs\<close>): creating, replacing and patching the form of an event, putting
  it into the trash and taking it out again; and what the table checks and computes on its own.
\<close>

section \<open>The table\<close>

text \<open>The trigger \<open>fiestaaa_sync_event_instants\<close>; without an end the event lasts till midnight.\<close>

definition sync_event_instants :: "config \<Rightarrow> event \<Rightarrow> event" where
  "sync_event_instants c e = (let f = e_form e in
     e\<lparr>e_starts_at := sql_at_time_zone c (ef_timezone f) (ef_date_event f) (ef_start_time f),
       e_effective_ends_at := (case (ef_end_date f, ef_end_time f) of
          (Some d, Some t) \<Rightarrow> sql_at_time_zone c (ef_timezone f) d t
        | _ \<Rightarrow> sql_at_time_zone c (ef_timezone f) (ef_date_event f + 1) 0)\<rparr>)"

text \<open>\<open>x >= 0\<close> of PostgreSQL on the bits of a double; a NaN counts as the greatest value.\<close>

definition f64_nonneg :: "f64_bits \<Rightarrow> bool" where
  "f64_nonneg b \<longleftrightarrow> \<not> (2 ^ 63 < b \<and> b \<le> 2 ^ 63 + 0x7FF0000000000000)"

text \<open>The constraints of the table \<open>events\<close>.\<close>

definition check_payment_info :: "event_form \<Rightarrow> bool" where
  "check_payment_info f \<longleftrightarrow> ef_payment_provider_id f \<noteq> None \<or> ef_payment_identifier f = None"

definition check_playlist :: "event_form \<Rightarrow> bool" where
  "check_playlist f \<longleftrightarrow>
     (case (ef_playlist_url f, ef_playlist_provider f) of
        (None, None) \<Rightarrow> True
      | (Some url, Some provider) \<Rightarrow>
          list_ex (\<lambda>ch. ch \<noteq> CHR '' '') url \<and> provider \<in> {''spotify'', ''apple_music'', ''deezer''}
      | _ \<Rightarrow> False)"

definition check_end_datetime :: "event_form \<Rightarrow> bool" where
  "check_end_datetime f \<longleftrightarrow>
     (case (ef_end_date f, ef_end_time f) of
        (None, None) \<Rightarrow> True
      | (Some d, Some t) \<Rightarrow> ef_date_event f < d \<or> ef_date_event f = d \<and> ef_start_time f \<le> t
      | _ \<Rightarrow> False)"

definition check_purge_state :: "event \<Rightarrow> bool" where
  "check_purge_state e \<longleftrightarrow>
     e_deleted_at e = None \<and> e_purge_at e = None \<and> e_deletion_reason e = None
     \<or> e_deleted_at e \<noteq> None \<and> e_purge_at e \<noteq> None \<and> e_deletion_reason e \<noteq> None
     \<or> e_moderation_hidden e \<and> e_deleted_at e \<noteq> None \<and> e_purge_at e = None
       \<and> e_deletion_reason e = Some ''moderation''"

definition event_checks :: "event \<Rightarrow> bool" where
  "event_checks e \<longleftrightarrow>
     check_payment_info (e_form e) \<and> check_playlist (e_form e) \<and> check_end_datetime (e_form e)
     \<and> set (ef_enabled_features (e_form e)) \<subseteq> set allowed_event_features
     \<and> (case ef_payment_requested_amount (e_form e) of None \<Rightarrow> True | Some b \<Rightarrow> f64_nonneg b)
     \<and> (case e_invitation_deadline e of None \<Rightarrow> True | Some d \<Rightarrow> d \<le> ef_date_event (e_form e))
     \<and> e_starts_at e \<le> e_effective_ends_at e \<and> check_purge_state e
     \<and> (case e_deletion_reason e of None \<Rightarrow> True | Some r \<Rightarrow> r \<in> {''owner'', ''retention'', ''moderation''})"

definition event_references :: "database \<Rightarrow> event \<Rightarrow> bool" where
  "event_references d e \<longleftrightarrow>
     (case ef_payment_provider_id (e_form e) of None \<Rightarrow> True | Some p \<Rightarrow> exists_where (\<lambda>r. pp_id r = p) (payment_providers d))
     \<and> exists_where (\<lambda>u. u_id u = e_owner_id e) (users d)"

text \<open>The text columns that \<open>fiestaaa_filter_text\<close> looks at, in the order of their names.\<close>

definition event_text :: "event \<Rightarrow> string list" where
  "event_text e = [ef_description (e_form e), e_name e]"

definition insert_event :: "(int \<Rightarrow> event) \<Rightarrow> world \<Rightarrow> (sql_error + event_view) \<times> world" where
  "insert_event row w =
     (let (k, w') = nextval EventSeq w; d = db w; e = sync_event_instants (cfg w) (row k) in
      if content_not_allowed w (event_text e) \<or> \<not> event_checks e then (Inl CheckViolation, w')
      else if exists_where (\<lambda>r. e_id r = k) (events d) then (Inl UniqueViolation, w')
      else if \<not> event_references d e then (Inl ForeignKeyViolation, w')
      else case with_owner w e of
        None \<Rightarrow> (Inl Unavailable, w')
      | Some view \<Rightarrow> (Inr view, w'\<lparr>db := d\<lparr>events := events d @ [e]\<rparr>\<rparr>))"

text \<open>
  \<open>UPDATE events SET .. RETURNING *\<close> for one row, under its triggers and constraints; \<open>f\<close> says what is
  set, and whether a row is hit at all.
\<close>

definition update_event_row ::
    "int \<Rightarrow> (event \<Rightarrow> bool) \<Rightarrow> (event \<Rightarrow> event) \<Rightarrow> world \<Rightarrow> (sql_error + event_view option) \<times> world" where
  "update_event_row event_id hit f w =
     (let d = db w in
      case find (\<lambda>e. e_id e = event_id \<and> hit e) (events d) of
        None \<Rightarrow> (Inr None, w)
      | Some old \<Rightarrow>
          let e = f old in
          if e_moderation_hidden old \<and> e_deleted_at e = None
             \<or> event_text e \<noteq> event_text old \<and> content_not_allowed w (event_text e)
             \<or> \<not> event_checks e then (Inl CheckViolation, w)
          else if \<not> event_references d e then (Inl ForeignKeyViolation, w)
          else (Inr (with_owner w e),
            w\<lparr>db := d\<lparr>events := update_where (\<lambda>r. e_id r = event_id \<and> hit r) f (events d)\<rparr>\<rparr>))"

section \<open>Reading\<close>

definition ensure_event_details_visible :: "request \<Rightarrow> int \<Rightarrow> unit act" where
  "ensure_event_details_visible req event_id =
     andthen (claims_email req) (\<lambda>requester.
     andthen (events_fetch_user_id requester) (\<lambda>requester_id.
     andthen (events_fetch_event_owner_id event_id) (\<lambda>owner_id.
     if owner_id = requester_id then return ()
     else andthen (query db_error (\<lambda>w. exists_where (\<lambda>i. i_event_id i = event_id \<and> i_user_id i = requester_id
         \<and> (i_status i = Accepted \<or> i_status i = Waiting
              \<and> exists_where (\<lambda>e. e_id e = event_id \<and> \<not> deadline_passed (day_of (clock w)) e) (events (db w))))
         (invitations (db w)))) (\<lambda>visible.
       require visible (forbidden ''forbidden'')))))"

definition get_event :: "request \<Rightarrow> int \<Rightarrow> event_view answer act" where
  "get_event req event_id =
     andthen (ensure_event_details_visible req event_id) (\<lambda>_.
     andthen (query db_error (\<lambda>w. Option.bind (live_event (db w) event_id) (with_owner w))) (\<lambda>row.
     andthen (some_or row (not_found ''event_not_found'')) (\<lambda>event.
     return (Answer 200 event))))"

definition list_trashed_events :: "request \<Rightarrow> event_view list answer act" where
  "list_trashed_events req =
     andthen (claims_email req) (\<lambda>email.
     andthen (events_fetch_user_id email) (\<lambda>owner_id.
     andthen (query db_error (\<lambda>w. List.map_filter (with_owner w)
       (sort_key (\<lambda>e. (case e_deleted_at e of None \<Rightarrow> 0 | Some t \<Rightarrow> - t, - e_id e))
         (filter (\<lambda>e. e_owner_id e = owner_id \<and> e_deleted_at e \<noteq> None) (events (db w)))))) (\<lambda>evs.
     return (Answer 200 evs))))"

section \<open>Creating and replacing\<close>

record event_payload =
  epl_name :: string
  epl_description :: string
  epl_date_event :: int
  epl_start_time :: micros
  epl_end_date :: "int option"
  epl_end_time :: "micros option"
  epl_timezone :: "string option"
  epl_invitation_deadline :: "int option"
  epl_address :: string
  epl_latitude :: "f64_bits option"
  epl_longitude :: "f64_bits option"
  epl_payment_provider_id :: "int option"
  epl_payment_identifier :: "string option"
  epl_payment_requested_amount :: "f64_bits option"
  epl_payment_per_person :: "bool option"
  epl_playlist_url :: "string option"
  epl_playlist_provider :: "string option"
  epl_enabled_features :: "string list option"

text \<open>The checks that creating and replacing share, from the schedule on; they yield the form.\<close>

definition validate_payload :: "event_payload \<Rightarrow> event_form act" where
  "validate_payload p =
     andthen get_state (\<lambda>w.
     andthen (from_result (validate_event_schedule (epl_date_event p) (epl_start_time p) (epl_end_date p) (epl_end_time p))) (\<lambda>_.
     andthen (from_result (normalize_event_timezone (cfg w) (epl_timezone p))) (\<lambda>timezone.
     andthen (from_result (validate_event_local_times (cfg w) timezone (epl_date_event p) (epl_start_time p)
       (epl_end_date p) (epl_end_time p))) (\<lambda>_.
     andthen (from_result (validate_invitation_deadline (day_of (clock w)) (epl_invitation_deadline p) (epl_date_event p))) (\<lambda>_.
     andthen (normalize_payment_info (epl_payment_provider_id p) (epl_payment_identifier p)) (\<lambda>(provider_id, identifier).
     let per_person = (if provider_id = None then False
       else case epl_payment_per_person p of None \<Rightarrow> False | Some b \<Rightarrow> b) in
     andthen (from_result (normalize_playlist_payload (cfg w) (epl_playlist_provider p) (epl_playlist_url p) False False)) (\<lambda>(playlist_provider, playlist_url).
     andthen (from_result (resolve_enabled_features (cfg w) (epl_enabled_features p) provider_id identifier
       playlist_provider playlist_url)) (\<lambda>features.
     return \<lparr>ef_description = trim (epl_description p), ef_date_event = epl_date_event p,
       ef_start_time = epl_start_time p, ef_end_date = epl_end_date p, ef_end_time = epl_end_time p,
       ef_timezone = timezone, ef_address = trim (epl_address p), ef_latitude = epl_latitude p,
       ef_longitude = epl_longitude p, ef_payment_provider_id = provider_id, ef_payment_identifier = identifier,
       ef_payment_requested_amount = epl_payment_requested_amount p, ef_payment_per_person = per_person,
       ef_playlist_url = playlist_url, ef_playlist_provider = playlist_provider,
       ef_enabled_features = features\<rparr>))))))))"

definition texts_filled :: "event_payload \<Rightarrow> bool" where
  "texts_filled p \<longleftrightarrow> trim (epl_name p) \<noteq> [] \<and> trim (epl_description p) \<noteq> [] \<and> trim (epl_address p) \<noteq> []"

definition event_write_error :: "sql_error \<Rightarrow> api_error" where
  "event_write_error e = (if e = ForeignKeyViolation then bad_request ''unknown_payment_provider'' else db_error)"

definition new_event :: "event_payload \<Rightarrow> event_form \<Rightarrow> int \<Rightarrow> int \<Rightarrow> event" where
  "new_event p form owner_id k =
     \<lparr>e_id = k, e_name = trim (epl_name p), e_owner_id = owner_id, e_starts_at = 0, e_effective_ends_at = 0,
      e_invitation_deadline = epl_invitation_deadline p, e_deleted_at = None, e_purge_at = None,
      e_deletion_reason = None, e_moderation_hidden = False, e_form = form\<rparr>"

definition create_event :: "request \<Rightarrow> event_payload \<Rightarrow> event_view answer act" where
  "create_event req p =
     andthen (claims_email req) (\<lambda>owner_email.
     andthen (events_fetch_user_id owner_email) (\<lambda>owner_user_id.
     andthen (require (texts_filled p) (bad_request ''invalid_payload'')) (\<lambda>_.
     andthen (require ((epl_latitude p = None) = (epl_longitude p = None)) (bad_request ''invalid_payload'')) (\<lambda>_.
     andthen (validate_payload p) (\<lambda>form.
     andthen (stmt event_write_error (insert_event (new_event p form owner_user_id))) (\<lambda>event.
     andthen (publish_global_type ''events.changed'') (\<lambda>_.
     return (Answer 201 event))))))))"

section \<open>Telling the members\<close>

definition e_acute_capital :: string where
  "e_acute_capital = [CHR 0xC3, CHR 0x89]"

definition event_updated_notice :: "event \<Rightarrow> string list \<Rightarrow> notification_request" where
  "event_updated_notice e changed =
     \<lparr>nr_title = e_acute_capital @ ''v'' @ e_acute @ ''nement mis '' @ a_grave @ '' jour'',
      nr_body = e_name e @ '' a '' @ e_acute @ ''t'' @ e_acute @ '' mis '' @ a_grave @ '' jour'',
      nr_data = JObj [(''type'', JStr ''event_updated''), (''event_id'', JInt (e_id e)),
        (''event_name'', JStr (e_name e)), (''fields'', JArr (map JStr changed))],
      nr_dedup_base_key = Some (''event_updated:'' @ show_int (e_id e)), nr_dedup_ttl = 300\<rparr>"

definition notify_event_members :: "event \<Rightarrow> string list \<Rightarrow> int \<Rightarrow> unit act" where
  "notify_event_members e changed actor_user_id = andthen get_state (\<lambda>w.
     if changed = [] \<or> \<not> is_enabled (cfg w) then return ()
     else andthen (attempt (event_member_user_ids (e_id e))) (\<lambda>found. case found of
         None \<Rightarrow> return ()
       | Some members \<Rightarrow> notify_users (filter (\<lambda>u. u \<noteq> actor_user_id) members)
           (event_updated_notice e changed)))"

definition announce_update :: "event_view \<Rightarrow> string list \<Rightarrow> int \<Rightarrow> event_view answer act" where
  "announce_update view changed actor_user_id =
     (let e = evw_event view in
      andthen (notify_event_members e changed actor_user_id) (\<lambda>_.
      andthen (publish_event_type (e_id e) ''event.updated'') (\<lambda>_.
      andthen (publish_global_type ''events.changed'') (\<lambda>_.
      return (Answer 200 view)))))"

definition replace_fields :: "event_payload \<Rightarrow> event_form \<Rightarrow> string list" where
  "replace_fields p form =
     [''name'', ''description'', ''date'', ''time'', ''location'']
     @ (if epl_end_date p \<noteq> None \<or> epl_end_time p \<noteq> None then [''duration''] else [])
     @ (if ef_playlist_provider form \<noteq> None \<or> ef_playlist_url form \<noteq> None then [''playlist''] else [])
     @ (if epl_enabled_features p \<noteq> None then [''features''] else [])"

definition replaced :: "event_payload \<Rightarrow> event_form \<Rightarrow> event \<Rightarrow> event" where
  "replaced p form e = e\<lparr>e_name := trim (epl_name p), e_invitation_deadline := epl_invitation_deadline p, e_form := form\<rparr>"

definition replace_event :: "request \<Rightarrow> int \<Rightarrow> event_payload \<Rightarrow> event_view answer act" where
  "replace_event req event_id p =
     andthen (events_ensure_event_owner req event_id) (\<lambda>actor_user_id.
     andthen (ensure_event_writable event_id) (\<lambda>_.
     andthen (require (texts_filled p) (bad_request ''invalid_payload'')) (\<lambda>_.
     andthen (validate_payload p) (\<lambda>form.
     andthen get_state (\<lambda>w.
     andthen (stmt event_write_error (update_event_row event_id (\<lambda>_. True)
       (\<lambda>e. sync_event_instants (cfg w) (replaced p form e)))) (\<lambda>row.
     andthen (some_or row (not_found ''event_not_found'')) (\<lambda>view.
     announce_update view (replace_fields p form) actor_user_id)))))))"

section \<open>Changing some fields\<close>

record event_patch =
  ep_name :: "string option"
  ep_description :: "string option"
  ep_date_event :: "int option"
  ep_start_time :: "micros option"
  ep_timezone :: "string option"
  ep_end_date :: "int option option"
  ep_end_time :: "micros option option"
  ep_invitation_deadline :: "int option option"
  ep_address :: "string option"
  ep_latitude :: "f64_bits option"
  ep_longitude :: "f64_bits option"
  ep_payment_provider_id :: "int option"
  ep_payment_identifier :: "string option"
  ep_payment_requested_amount :: "f64_bits option"
  ep_payment_per_person :: "bool option"
  ep_playlist_url :: "string option option"
  ep_playlist_provider :: "string option option"
  ep_enabled_features :: "string list option"

definition or_else :: "'a option \<Rightarrow> 'a option \<Rightarrow> 'a option" where
  "or_else a b = (case a of None \<Rightarrow> b | Some x \<Rightarrow> Some x)"

definition unwrap_or :: "'a option \<Rightarrow> 'a \<Rightarrow> 'a" where
  "unwrap_or a b = (case a of None \<Rightarrow> b | Some x \<Rightarrow> x)"

definition updated_fields :: "event_patch \<Rightarrow> string list" where
  "updated_fields p =
     (if ep_name p \<noteq> None then [''name''] else []) @ (if ep_description p \<noteq> None then [''description''] else [])
     @ (if ep_date_event p \<noteq> None then [''date''] else []) @ (if ep_start_time p \<noteq> None then [''time''] else [])
     @ (if ep_timezone p \<noteq> None then [''timezone''] else [])
     @ (if ep_end_date p \<noteq> None \<or> ep_end_time p \<noteq> None then [''duration''] else [])
     @ (if ep_address p \<noteq> None \<or> ep_latitude p \<noteq> None \<or> ep_longitude p \<noteq> None then [''location''] else [])
     @ (if ep_invitation_deadline p \<noteq> None then [''deadline''] else [])
     @ (if ep_playlist_url p \<noteq> None \<or> ep_playlist_provider p \<noteq> None then [''playlist''] else [])
     @ (if ep_enabled_features p \<noteq> None then [''features''] else [])"

definition blank :: "string option \<Rightarrow> bool" where
  "blank v \<longleftrightarrow> (case v of None \<Rightarrow> False | Some s \<Rightarrow> trim s = [])"

definition fetch_event_payment_info :: "int \<Rightarrow> event act" where
  "fetch_event_payment_info event_id =
     andthen (query db_error (\<lambda>w. find (\<lambda>e. e_id e = event_id) (events (db w)))) (\<lambda>row.
     some_or row (not_found ''event_not_found''))"

text \<open>What the handler makes of the patch and the row it read: the values it binds to the statement.\<close>

record event_change =
  ch_payment_provider_id :: "int option"
  ch_payment_identifier :: "string option"
  ch_payment_per_person :: bool
  ch_playlist_url :: "string option"
  ch_playlist_provider :: "string option"
  ch_enabled_features :: "string list"
  ch_timezone :: string

definition patched_playlist :: "config \<Rightarrow> event_patch \<Rightarrow> event_form \<Rightarrow> api_error + string option \<times> string option" where
  "patched_playlist c p f =
     (let provider_cleared = (ep_playlist_provider p = Some None);
          url_cleared = (ep_playlist_url p = Some None) in
      if provider_cleared \<noteq> url_cleared then Inl (bad_request ''invalid_playlist'')
      else if provider_cleared \<and> url_cleared then Inr (None, None)
      else normalize_playlist_payload c (unwrap_or (ep_playlist_provider p) (ef_playlist_provider f))
        (unwrap_or (ep_playlist_url p) (ef_playlist_url f)) False False)"

definition merge_patch :: "event_patch \<Rightarrow> event \<Rightarrow> event_change act" where
  "merge_patch p e = andthen get_state (\<lambda>w. let f = e_form e in
     andthen (normalize_payment_info (or_else (ep_payment_provider_id p) (ef_payment_provider_id f))
       (or_else (ep_payment_identifier p) (ef_payment_identifier f))) (\<lambda>(provider_id, identifier).
     let per_person = (if provider_id = None then False
           else unwrap_or (ep_payment_per_person p) (ef_payment_per_person f));
         date = unwrap_or (ep_date_event p) (ef_date_event f);
         time = unwrap_or (ep_start_time p) (ef_start_time f);
         end_date = unwrap_or (ep_end_date p) (ef_end_date f);
         end_time = unwrap_or (ep_end_time p) (ef_end_time f) in
     andthen (from_result (normalize_event_timezone (cfg w) (or_else (ep_timezone p) (Some (ef_timezone f))))) (\<lambda>timezone.
     andthen (from_result (validate_event_schedule date time end_date end_time)) (\<lambda>_.
     andthen (from_result (validate_event_local_times (cfg w) timezone date time end_date end_time)) (\<lambda>_.
     andthen (from_result (validate_invitation_deadline (day_of (clock w))
       (unwrap_or (ep_invitation_deadline p) (e_invitation_deadline e)) date)) (\<lambda>_.
     andthen (from_result (patched_playlist (cfg w) p f)) (\<lambda>(playlist_provider, playlist_url).
     let input = (case ep_enabled_features p of
           Some requested \<Rightarrow> requested
         | None \<Rightarrow> sync_optional_features (ef_enabled_features f) provider_id identifier playlist_provider playlist_url) in
     andthen (from_result (resolve_enabled_features (cfg w) (Some input) provider_id identifier
       playlist_provider playlist_url)) (\<lambda>features.
     return \<lparr>ch_payment_provider_id = provider_id, ch_payment_identifier = identifier,
       ch_payment_per_person = per_person, ch_playlist_url = playlist_url,
       ch_playlist_provider = playlist_provider, ch_enabled_features = features, ch_timezone = timezone\<rparr>))))))))"

text \<open>The \<open>SET\<close> clauses: \<open>COALESCE\<close> keeps what is not given, a flag says whether a field may become empty.\<close>

definition patched :: "event_patch \<Rightarrow> event_change \<Rightarrow> event \<Rightarrow> event" where
  "patched p ch e = (let f = e_form e in
     e\<lparr>e_name := unwrap_or (clean_payment_value (ep_name p)) (e_name e),
       e_invitation_deadline := unwrap_or (ep_invitation_deadline p) (e_invitation_deadline e),
       e_form := \<lparr>ef_description = unwrap_or (clean_payment_value (ep_description p)) (ef_description f),
         ef_date_event = unwrap_or (ep_date_event p) (ef_date_event f),
         ef_start_time = unwrap_or (ep_start_time p) (ef_start_time f),
         ef_end_date = unwrap_or (ep_end_date p) (ef_end_date f),
         ef_end_time = unwrap_or (ep_end_time p) (ef_end_time f),
         ef_timezone = ch_timezone ch,
         ef_address = unwrap_or (clean_payment_value (ep_address p)) (ef_address f),
         ef_latitude = or_else (ep_latitude p) (ef_latitude f),
         ef_longitude = or_else (ep_longitude p) (ef_longitude f),
         ef_payment_provider_id = or_else (ch_payment_provider_id ch) (ef_payment_provider_id f),
         ef_payment_identifier = or_else (ch_payment_identifier ch) (ef_payment_identifier f),
         ef_payment_requested_amount = or_else (ep_payment_requested_amount p) (ef_payment_requested_amount f),
         ef_payment_per_person = ch_payment_per_person ch,
         ef_playlist_url = (if ep_playlist_url p \<noteq> None then ch_playlist_url ch else ef_playlist_url f),
         ef_playlist_provider = (if ep_playlist_provider p \<noteq> None then ch_playlist_provider ch else ef_playlist_provider f),
         ef_enabled_features = ch_enabled_features ch\<rparr>\<rparr>)"

definition update_event :: "request \<Rightarrow> int \<Rightarrow> event_patch \<Rightarrow> event_view answer act" where
  "update_event req event_id p =
     andthen (events_ensure_event_owner req event_id) (\<lambda>actor_user_id.
     andthen (ensure_event_writable event_id) (\<lambda>_.
     andthen (require (\<not> blank (ep_name p) \<and> \<not> blank (ep_description p) \<and> \<not> blank (ep_address p))
       (bad_request ''invalid_payload'')) (\<lambda>_.
     andthen (require ((ep_latitude p = None) = (ep_longitude p = None)) (bad_request ''invalid_payload'')) (\<lambda>_.
     andthen (fetch_event_payment_info event_id) (\<lambda>current.
     andthen (merge_patch p current) (\<lambda>ch.
     andthen get_state (\<lambda>w.
     andthen (stmt event_write_error (update_event_row event_id (\<lambda>_. True)
       (\<lambda>e. sync_event_instants (cfg w) (patched p ch e)))) (\<lambda>row.
     andthen (some_or row (not_found ''event_not_found'')) (\<lambda>view.
     announce_update view (updated_fields p) actor_user_id)))))))))"

section \<open>The trash\<close>

definition trashed :: "micros \<Rightarrow> event \<Rightarrow> event" where
  "trashed t e = e\<lparr>e_deleted_at := Some t, e_purge_at := Some (t + days 30), e_deletion_reason := Some ''owner''\<rparr>"

definition delete_event :: "request \<Rightarrow> int \<Rightarrow> string answer act" where
  "delete_event req event_id =
     andthen (events_ensure_event_owner req event_id) (\<lambda>_.
     andthen get_state (\<lambda>w.
     andthen (stmt (\<lambda>_. db_error) (update_event_row event_id (\<lambda>e. e_deleted_at e = None) (trashed (clock w)))) (\<lambda>row.
     andthen (some_or row (not_found ''event_not_found'')) (\<lambda>_.
     andthen (publish_event_type event_id ''event.deleted'') (\<lambda>_.
     andthen (publish_global_type ''events.changed'') (\<lambda>_.
     return (Answer 200 ''trashed'')))))))"

definition untrashed :: "event \<Rightarrow> event" where
  "untrashed e = e\<lparr>e_deleted_at := None, e_purge_at := None, e_deletion_reason := None\<rparr>"

definition restore_event :: "request \<Rightarrow> int \<Rightarrow> event_view answer act" where
  "restore_event req event_id =
     andthen (claims_email req) (\<lambda>email.
     andthen (events_fetch_user_id email) (\<lambda>owner_id.
     andthen (stmt (\<lambda>_. db_error) (update_event_row event_id
       (\<lambda>e. e_owner_id e = owner_id \<and> e_deleted_at e \<noteq> None) untrashed)) (\<lambda>row.
     andthen (some_or row (not_found ''event_not_found'')) (\<lambda>view.
     andthen (publish_global_type ''events.changed'') (\<lambda>_.
     return (Answer 200 view))))))"

end
