(* ===== verification/Payment_Providers.thy ===== *)
theory Payment_Providers
  imports Events
begin

text \<open>
  The payment providers an event may name (\<open>src/routes/payment_providers.rs\<close>): a catalogue kept by
  the administrators, with a template for links and an expression every payment link has to match.
\<close>

record provider_payload =
  ppl_provider_name :: string
  ppl_url_template :: string
  ppl_validation_regex :: "string option"
  ppl_is_active :: "bool option"

record provider_patch =
  ppp_provider_name :: "string option"
  ppp_url_template :: "string option"
  ppp_validation_regex :: "string option"
  ppp_is_active :: "bool option"

definition default_payment_url_regex :: string where
  "default_payment_url_regex = ''^https?://.+$''"

definition providers_ensure_admin :: "request \<Rightarrow> unit act" where
  "providers_ensure_admin req =
     andthen (extract_active_claims_from_auth req) (\<lambda>claims.
     andthen get_state (\<lambda>w.
     andthen (require (admin_emails (cfg w) \<noteq> []) (forbidden ''forbidden'')) (\<lambda>_.
     require (lowercase (cfg w) (u_email claims) \<in> set (admin_emails (cfg w))) (forbidden ''forbidden''))))"

definition list_payment_providers :: "payment_provider list answer act" where
  "list_payment_providers =
     andthen (query db_error (\<lambda>w. sort_key (\<lambda>p. sql_sort_key (cfg w) (pp_name p)) (payment_providers (db w)))) (\<lambda>rows.
     return (Answer 200 rows))"

section \<open>The table\<close>

text \<open>\<open>VARCHAR(50)\<close> and the \<open>CHECK\<close> on the template.\<close>

definition provider_checks :: "payment_provider \<Rightarrow> bool" where
  "provider_checks p \<longleftrightarrow> char_count (pp_name p) \<le> 50 \<and> has_sub ''{identifier}'' (pp_url_template p)"

definition insert_provider :: "(int \<Rightarrow> payment_provider) \<Rightarrow> world \<Rightarrow> (sql_error + payment_provider option) \<times> world" where
  "insert_provider row w =
     (let (k, w') = nextval ProviderSeq w; d = db w; p = row k in
      if \<not> provider_checks p then (Inl CheckViolation, w')
      else if exists_where (\<lambda>r. pp_id r = k \<or> pp_name r = pp_name p) (payment_providers d) then (Inl UniqueViolation, w')
      else (Inr (Some p), w'\<lparr>db := d\<lparr>payment_providers := payment_providers d @ [p]\<rparr>\<rparr>))"

definition update_provider_row ::
    "int \<Rightarrow> (payment_provider \<Rightarrow> payment_provider) \<Rightarrow> world \<Rightarrow> (sql_error + payment_provider option) \<times> world" where
  "update_provider_row provider_id f w =
     (let d = db w in
      case find (\<lambda>p. pp_id p = provider_id) (payment_providers d) of
        None \<Rightarrow> (Inr None, w)
      | Some old \<Rightarrow>
          if \<not> provider_checks (f old) then (Inl CheckViolation, w)
          else if exists_where (\<lambda>r. pp_id r \<noteq> provider_id \<and> pp_name r = pp_name (f old)) (payment_providers d)
          then (Inl UniqueViolation, w)
          else (Inr (Some (f old)),
            w\<lparr>db := d\<lparr>payment_providers := update_where (\<lambda>p. pp_id p = provider_id) f (payment_providers d)\<rparr>\<rparr>))"

text \<open>\<open>ON DELETE SET NULL\<close>: the events that name the provider lose it, under their own constraints.\<close>

definition names_provider :: "int \<Rightarrow> event \<Rightarrow> bool" where
  "names_provider provider_id e \<longleftrightarrow> ef_payment_provider_id (e_form e) = Some provider_id"

definition without_provider :: "event \<Rightarrow> event" where
  "without_provider e = e\<lparr>e_form := (e_form e)\<lparr>ef_payment_provider_id := None\<rparr>\<rparr>"

definition delete_provider_row :: "int \<Rightarrow> world \<Rightarrow> (sql_error + nat) \<times> world" where
  "delete_provider_row provider_id w =
     (let d = db w; this_one = (\<lambda>p. pp_id p = provider_id) in
      if exists_where (\<lambda>e. names_provider provider_id e \<and> exists_where this_one (payment_providers d)
           \<and> (e_moderation_hidden e \<and> e_deleted_at e = None \<or> \<not> event_checks (without_provider e))) (events d)
      then (Inl CheckViolation, w)
      else (Inr (count_where this_one (payment_providers d)),
        w\<lparr>db := d\<lparr>payment_providers := delete_where this_one (payment_providers d),
          events := (if exists_where this_one (payment_providers d)
            then update_where (names_provider provider_id) without_provider (events d) else events d)\<rparr>\<rparr>))"

section \<open>Handlers\<close>

definition provider_error :: "sql_error \<Rightarrow> api_error" where
  "provider_error e = (if e = UniqueViolation then bad_request ''duplicate_provider_name'' else db_error)"

definition compiles :: "config \<Rightarrow> string \<Rightarrow> bool" where
  "compiles c pattern \<longleftrightarrow> regex_is_match c pattern [] \<noteq> None"

definition create_or_replace_provider :: "provider_payload \<Rightarrow> int option \<Rightarrow> payment_provider answer act" where
  "create_or_replace_provider payload provider_id =
     andthen (require (\<not> (trim (ppl_provider_name payload) = [] \<or> trim (ppl_url_template payload) = []))
       (bad_request ''invalid_payload'')) (\<lambda>_.
     andthen (require (has_sub ''{identifier}'' (ppl_url_template payload)) (bad_request ''invalid_payload'')) (\<lambda>_.
     andthen get_state (\<lambda>w.
     let pattern = trim (case ppl_validation_regex payload of None \<Rightarrow> default_payment_url_regex | Some v \<Rightarrow> v);
         active = (case ppl_is_active payload of None \<Rightarrow> True | Some b \<Rightarrow> b) in
     andthen (require (\<not> (pattern = [] \<or> \<not> compiles (cfg w) pattern)) (bad_request ''invalid_payload'')) (\<lambda>_.
     andthen (stmt provider_error (case provider_id of
         Some i \<Rightarrow> update_provider_row i (\<lambda>p. p\<lparr>pp_name := trim (ppl_provider_name payload),
             pp_url_template := trim (ppl_url_template payload), pp_validation_regex := pattern, pp_is_active := active\<rparr>)
       | None \<Rightarrow> insert_provider (\<lambda>k. \<lparr>pp_id = k, pp_name = trim (ppl_provider_name payload),
             pp_url_template = trim (ppl_url_template payload), pp_validation_regex = pattern, pp_is_active = active\<rparr>))) (\<lambda>row.
     andthen (some_or row (not_found ''provider_not_found'')) (\<lambda>provider.
     return (Answer (if provider_id = None then 201 else 200) provider)))))))"

definition create_payment_provider :: "request \<Rightarrow> provider_payload \<Rightarrow> payment_provider answer act" where
  "create_payment_provider req payload =
     andthen (providers_ensure_admin req) (\<lambda>_. create_or_replace_provider payload None)"

definition replace_payment_provider :: "request \<Rightarrow> int \<Rightarrow> provider_payload \<Rightarrow> payment_provider answer act" where
  "replace_payment_provider req provider_id payload =
     andthen (providers_ensure_admin req) (\<lambda>_. create_or_replace_provider payload (Some provider_id))"

definition update_payment_provider :: "request \<Rightarrow> int \<Rightarrow> provider_patch \<Rightarrow> payment_provider answer act" where
  "update_payment_provider req provider_id p =
     andthen (providers_ensure_admin req) (\<lambda>_.
     andthen (require (\<not> (blank (ppp_provider_name p) \<or> blank (ppp_url_template p))) (bad_request ''invalid_payload'')) (\<lambda>_.
     andthen (require (case ppp_url_template p of None \<Rightarrow> True | Some v \<Rightarrow> has_sub ''{identifier}'' v)
       (bad_request ''invalid_payload'')) (\<lambda>_.
     andthen get_state (\<lambda>w.
     let pattern = clean_payment_value (ppp_validation_regex p) in
     andthen (require (case pattern of None \<Rightarrow> True | Some v \<Rightarrow> compiles (cfg w) v) (bad_request ''invalid_payload'')) (\<lambda>_.
     andthen (stmt provider_error (update_provider_row provider_id (\<lambda>r. r\<lparr>
         pp_name := unwrap_or (clean_payment_value (ppp_provider_name p)) (pp_name r),
         pp_url_template := unwrap_or (clean_payment_value (ppp_url_template p)) (pp_url_template r),
         pp_validation_regex := unwrap_or pattern (pp_validation_regex r),
         pp_is_active := unwrap_or (ppp_is_active p) (pp_is_active r)\<rparr>))) (\<lambda>row.
     andthen (some_or row (not_found ''provider_not_found'')) (\<lambda>provider.
     return (Answer 200 provider))))))))"

definition delete_payment_provider :: "request \<Rightarrow> int \<Rightarrow> string answer act" where
  "delete_payment_provider req provider_id =
     andthen (providers_ensure_admin req) (\<lambda>_.
     andthen (stmt (\<lambda>_. db_error) (delete_provider_row provider_id)) (\<lambda>rows_affected.
     andthen (require (rows_affected \<noteq> 0) (not_found ''provider_not_found'')) (\<lambda>_.
     return (Answer 200 ''deleted''))))"

end
