(* ===== verification/Event_Listing.thy ===== *)
theory Event_Listing
  imports Events
begin

text \<open>
  The list of events of a user (\<open>list_events\<close> of \<open>src/routes/events/core.rs\<close>) and its search
  (\<open>src/routes/events/listing.rs\<close>), whose cursor is the start and the identifier of the last event,
  bound to the criteria of the search.
\<close>

record event_list_query =
  elq_limit :: "int option"
  elq_cursor :: "string option"
  elq_q :: "string option"
  elq_view :: "string option"
  elq_sort :: "string option"

record event_search =
  es_q :: string
  es_view :: string
  es_sort :: string
  es_limit :: int
  es_cursor :: "event_cursor option"

definition criteria :: "config \<Rightarrow> event_search \<Rightarrow> string" where
  "criteria c s = sha256_hex c (json_strings c [es_q s, es_view s, es_sort s])"

definition parse_search :: "config \<Rightarrow> event_list_query \<Rightarrow> api_error + event_search option" where
  "parse_search c qry =
     (if elq_q qry = None \<and> elq_view qry = None \<and> elq_sort qry = None then Inr None
      else
        let view = (case elq_view qry of None \<Rightarrow> ''upcoming'' | Some v \<Rightarrow> v);
            sort = (case elq_sort qry of None \<Rightarrow> if view = ''past'' then ''start_desc'' else ''start_asc'' | Some v \<Rightarrow> v);
            limit = (case elq_limit qry of None \<Rightarrow> 50 | Some n \<Rightarrow> n) in
        if view \<notin> {''upcoming'', ''invitations'', ''owned'', ''past'', ''all''}
           \<or> sort \<notin> {''start_asc'', ''start_desc''} \<or> \<not> (1 \<le> limit \<and> limit \<le> 100)
        then Inl (bad_request ''invalid_event_query'')
        else
          let q = lowercase c (trim (case elq_q qry of None \<Rightarrow> [] | Some q \<Rightarrow> q)) in
          if char_count q > 200 then Inl (bad_request ''invalid_event_query'')
          else
            let search = \<lparr>es_q = q, es_view = view, es_sort = sort, es_limit = limit, es_cursor = None\<rparr> in
            case elq_cursor qry of
              None \<Rightarrow> Inr (Some search)
            | Some raw \<Rightarrow>
                (case cursor_parse c raw of
                   None \<Rightarrow> Inl (bad_request ''invalid_cursor'')
                 | Some decoded \<Rightarrow>
                     if ec_version decoded \<noteq> 1 \<or> ec_id decoded \<le> 0 \<or> ec_criteria decoded \<noteq> criteria c search
                     then Inl (bad_request ''invalid_cursor'')
                     else Inr (Some (search\<lparr>es_cursor := Some decoded\<rparr>))))"

text \<open>The events a user sees: the own ones, and those with an invitation that is neither declined nor expired.\<close>

definition visible_event :: "world \<Rightarrow> int \<Rightarrow> event \<Rightarrow> bool" where
  "visible_event w user_id e \<longleftrightarrow> e_deleted_at e = None \<and> (e_owner_id e = user_id
     \<or> exists_where (\<lambda>i. i_event_id i = e_id e \<and> i_user_id i = user_id \<and> i_status i \<noteq> Declined
         \<and> \<not> (i_status i = Expired \<or> i_status i = Waiting \<and> deadline_passed (day_of (clock w)) e))
       (invitations (db w)))"

definition view_filter :: "world \<Rightarrow> int \<Rightarrow> string \<Rightarrow> event \<Rightarrow> bool" where
  "view_filter w user_id view e \<longleftrightarrow>
     (if view = ''upcoming'' then clock w \<le> e_effective_ends_at e
      else if view = ''past'' then e_effective_ends_at e < clock w
      else if view = ''owned'' then e_owner_id e = user_id
      else if view = ''invitations'' then clock w \<le> e_effective_ends_at e
        \<and> exists_where (\<lambda>i. i_event_id i = e_id e \<and> i_user_id i = user_id \<and> i_status i = Waiting
            \<and> \<not> deadline_passed (day_of (clock w)) e) (invitations (db w))
      else True)"

definition event_key :: "event \<Rightarrow> micros \<times> int" where
  "event_key e = (e_starts_at e, e_id e)"

definition descending :: "event_search \<Rightarrow> bool" where
  "descending s \<longleftrightarrow> es_sort s = ''start_desc''"

text \<open>All the events a search finds, in its order; \<open>strpos\<close> looks for a literal substring.\<close>

definition found_events :: "world \<Rightarrow> int \<Rightarrow> event_search \<Rightarrow> event list" where
  "found_events w user_id s =
     (let hits = filter (\<lambda>e. visible_event w user_id e \<and> view_filter w user_id (es_view s) e
            \<and> has_sub (es_q s) (sql_lower (cfg w) (e_name e)) \<and> with_owner w e \<noteq> None) (events (db w)) in
      sort_key (\<lambda>e. if descending s then (- e_starts_at e, - e_id e) else event_key e) hits)"

definition after_cursor :: "event_search \<Rightarrow> event \<Rightarrow> bool" where
  "after_cursor s e \<longleftrightarrow> (case es_cursor s of
     None \<Rightarrow> True
   | Some c \<Rightarrow> if descending s then e_starts_at e < ec_start c \<or> e_starts_at e = ec_start c \<and> e_id e < ec_id c
               else ec_start c < e_starts_at e \<or> e_starts_at e = ec_start c \<and> ec_id c < e_id e)"

definition search_rows :: "world \<Rightarrow> int \<Rightarrow> event_search \<Rightarrow> event list" where
  "search_rows w user_id s = take (nat (es_limit s + 1)) (filter (after_cursor s) (found_events w user_id s))"

definition cursor_of :: "config \<Rightarrow> event_search \<Rightarrow> event \<Rightarrow> string" where
  "cursor_of c s e = cursor_show c \<lparr>ec_version = 1, ec_start = e_starts_at e, ec_id = e_id e, ec_criteria = criteria c s\<rparr>"

definition fetch_search :: "event_search \<Rightarrow> int \<Rightarrow> (event_view list \<times> string option) answer act" where
  "fetch_search s user_id =
     andthen (query db_error (\<lambda>w. (search_rows w user_id s, with_owner w))) (\<lambda>(rows, view_of).
     andthen get_state (\<lambda>w.
     let (shown, next) = json_page rows (es_limit s) (cursor_of (cfg w) s) in
     return (Answer 200 (List.map_filter view_of shown, next))))"

definition list_rows :: "world \<Rightarrow> int \<Rightarrow> page option \<Rightarrow> event_view list" where
  "list_rows w user_id pg =
     (let rows = filter (visible_event w user_id) (events (db w)) in
      List.map_filter (with_owner w) (case pg of
          None \<Rightarrow> sort_key event_key rows
        | Some p \<Rightarrow> take (nat (fetch_limit p)) (sort_key e_id
            (filter (\<lambda>e. e_id e > (case pg_after_id p of None \<Rightarrow> 0 | Some i \<Rightarrow> i)) rows))))"

definition list_events :: "request \<Rightarrow> event_list_query \<Rightarrow> (event_view list \<times> string option) answer act" where
  "list_events req qry =
     andthen (claims_email req) (\<lambda>email.
     andthen (events_fetch_user_id email) (\<lambda>user_id.
     andthen get_state (\<lambda>w.
     andthen (from_result (parse_search (cfg w) qry)) (\<lambda>search.
     andthen (from_result (page_request (enforce_page_defaults (cfg w)) \<lparr>q_limit = elq_limit qry,
         q_cursor = (if search \<noteq> None then None else elq_cursor qry)\<rparr>)) (\<lambda>pg.
     case search of
       Some s \<Rightarrow> fetch_search s user_id
     | None \<Rightarrow> andthen (query db_error (\<lambda>w. list_rows w user_id pg)) (\<lambda>evs.
         return (Answer 200 (case pg of
             None \<Rightarrow> (evs, None)
           | Some p \<Rightarrow> json_page evs (pg_limit p) (\<lambda>v. show_int (e_id (evw_event v)))))))))))"

end
