(* ===== verification/Event_Facts.thy ===== *)
theory Event_Facts
  imports Payment_Providers Event_Listing Refusal_Facts
begin

text \<open>
  What the checks of an event form establish, and what each operation on events and payment providers
  does to the tables.
\<close>

section \<open>Forms that have passed the checks\<close>

text \<open>A link to a public host, as \<open>ensure_safe_absolute_http_url\<close> lets it pass.\<close>

definition public_link :: "config \<Rightarrow> string \<Rightarrow> bool" where
  "public_link c value \<longleftrightarrow> (\<exists>scheme host. url_parse c value = Some (scheme, Some host)
     \<and> to_ascii_lowercase scheme \<in> {''http'', ''https''}
     \<and> (let h = trim_end_char CHR ''.'' (to_ascii_lowercase host) in
        h \<noteq> ''localhost'' \<and> \<not> ends_with ''.localhost'' h
        \<and> (case ip_parse c (trim_end_char CHR '']'' (trim_start_char CHR ''['' h)) of
             None \<Rightarrow> True | Some ip \<Rightarrow> \<not> is_private_or_local ip)))"

lemma ensure_safe_iff: "ensure_safe_absolute_http_url c value error = Inr u \<longleftrightarrow> public_link c value"
  by (auto simp: ensure_safe_absolute_http_url_def public_link_def Let_def split: option.split)

definition public_if_any :: "config \<Rightarrow> string option \<Rightarrow> bool" where
  "public_if_any c v \<longleftrightarrow> (case v of None \<Rightarrow> True | Some s \<Rightarrow> public_link c s)"

text \<open>What the code adds to the constraints of the table.\<close>

definition form_rules :: "config \<Rightarrow> event_form \<Rightarrow> bool" where
  "form_rules c f \<longleftrightarrow>
     distinct (ef_enabled_features f) \<and> set (ef_enabled_features f) \<subseteq> set allowed_event_features
     \<and> (''playlist'' \<in> set (ef_enabled_features f)
          \<longrightarrow> has_playlist_metadata (ef_playlist_provider f) (ef_playlist_url f))
     \<and> (''payment'' \<in> set (ef_enabled_features f)
          \<longrightarrow> has_payment_metadata (ef_payment_provider_id f) (ef_payment_identifier f))
     \<and> timezone_known c (ef_timezone f)
     \<and> public_if_any c (ef_playlist_url f) \<and> public_if_any c (ef_payment_identifier f)"

definition form_sound :: "config \<Rightarrow> event_form \<Rightarrow> bool" where
  "form_sound c f \<longleftrightarrow> check_payment_info f \<and> check_playlist f \<and> check_end_datetime f \<and> form_rules c f"

lemma schedule_ok: "validate_event_schedule d t ed et = Inr u \<Longrightarrow>
    (case (ed, et) of (None, None) \<Rightarrow> True | (Some x, Some y) \<Rightarrow> d < x \<or> d = x \<and> t \<le> y | _ \<Rightarrow> False)"
  by (auto simp: validate_event_schedule_def split: option.splits if_splits)

lemma deadline_ok: "validate_invitation_deadline today v d = Inr u \<Longrightarrow>
    (case v of None \<Rightarrow> True | Some limit \<Rightarrow> today \<le> limit \<and> limit \<le> d)"
  by (auto simp: validate_invitation_deadline_def split: option.splits if_splits)

lemma timezone_ok: "normalize_event_timezone c v = Inr tz \<Longrightarrow> timezone_known c tz"
  by (auto simp: normalize_event_timezone_def Let_def split: option.splits if_splits)

lemma collect_features_ok:
  assumes "collect_features c seen fs = Inr out" and "distinct seen" and "set seen \<subseteq> set allowed_event_features"
  shows "distinct out \<and> set out \<subseteq> set allowed_event_features"
  using assms
  by (induction c seen fs rule: collect_features.induct)
    (auto simp: Let_def split: if_splits)

lemma append_feature_ok [simp]:
  "distinct (append_feature f fs) = distinct fs" "set (append_feature f fs) = insert f (set fs)"
  by (auto simp: append_feature_def)

lemma resolve_features_ok:
  assumes "resolve_enabled_features c requested pid ident prov url = Inr fs"
  shows "distinct fs \<and> set fs \<subseteq> set allowed_event_features
    \<and> (''playlist'' \<in> set fs \<longrightarrow> has_playlist_metadata prov url)
    \<and> (''payment'' \<in> set fs \<longrightarrow> has_payment_metadata pid ident)"
proof (cases requested)
  case None
  then show ?thesis
    using assms
    by (auto simp: resolve_enabled_features_def Let_def default_enabled_features_def allowed_event_features_def
        split: if_splits)
next
  case (Some r)
  then obtain out where out: "normalize_enabled_features c r = Inr out"
    using assms by (auto simp: resolve_enabled_features_def Let_def split: sum.splits)
  then have "distinct out \<and> set out \<subseteq> set allowed_event_features"
    using collect_features_ok [of c "[]" r out] by (simp add: normalize_enabled_features_def)
  then show ?thesis
    using assms out Some by (auto simp: resolve_enabled_features_def Let_def split: if_splits)
qed

lemma matches_link_char: "matches_link (playlist_prefixes p) url \<Longrightarrow> CHR ''h'' \<in> set url"
  by (cases url) (auto simp: matches_link_def playlist_prefixes_def split: if_splits)

lemma filled_CHR: "check_playlist f \<Longrightarrow> ef_playlist_url f = Some u \<Longrightarrow> \<exists>ch \<in> set u. ch \<noteq> CHR '' ''"
  by (auto simp: check_playlist_def list_ex_iff split: option.splits)

lemma playlist_ok:
  assumes "normalize_playlist_payload c prov url cp cu = Inr (prov', url')"
  shows "case (url', prov') of
      (None, None) \<Rightarrow> True
    | (Some u, Some p) \<Rightarrow> CHR ''h'' \<in> set u \<and> p \<in> {''spotify'', ''apple_music'', ''deezer''} \<and> public_link c u
        \<and> matches_link (playlist_prefixes p) u
    | _ \<Rightarrow> False"
proof -
  define pv where "pv = nonempty (if cp then None else map_option (\<lambda>v. lowercase c (trim v)) prov)"
  define uv where "uv = nonempty (if cu then None else map_option trim url)"
  have "normalize_playlist_payload c prov url cp cu = (case (pv, uv) of
        (None, None) \<Rightarrow> Inr (None, None)
      | (Some provider, Some playlist_url) \<Rightarrow>
          if provider \<notin> {''spotify'', ''apple_music'', ''deezer''}
          then Inl (bad_request ''invalid_playlist_provider'')
          else if \<not> matches_link (playlist_prefixes provider) playlist_url
          then Inl (bad_request ''invalid_playlist_url'')
          else (case ensure_safe_absolute_http_url c playlist_url ''invalid_playlist_url'' of
                  Inl e \<Rightarrow> Inl e
                | Inr _ \<Rightarrow> Inr (Some provider, Some playlist_url))
      | _ \<Rightarrow> Inl (bad_request ''invalid_playlist''))"
    by (simp add: normalize_playlist_payload_def pv_def uv_def Let_def)
  then show ?thesis
    using assms
    by (cases pv; cases uv) (auto simp: ensure_safe_iff split: if_splits sum.splits dest: matches_link_char)
qed

section \<open>The checks of the handlers\<close>

lemma wp_prodI: "(\<And>a b. x = (a, b) \<Longrightarrow> wp (f a b) Q E s) \<Longrightarrow> wp (case x of (a, b) \<Rightarrow> f a b) Q E s"
  by (cases x) simp

lemma checks_provider_validation [check_intros]:
  "checks (fetch_provider_validation i) (\<lambda>w (name, regex).
     \<exists>p \<in> set (payment_providers (db w)). pp_id p = i \<and> pp_name p = name \<and> pp_validation_regex p = regex)"
proof (rule checksI)
  show "wp (fetch_provider_validation i) (\<lambda>x v. same_data w v \<and> (case x of (name, regex) \<Rightarrow>
      \<exists>p \<in> set (payment_providers (db w)). pp_id p = i \<and> pp_name p = name \<and> pp_validation_regex p = regex))
    (\<lambda>_. same_data w) w" for w
    unfolding fetch_provider_validation_def
    by (auto simp: wp_simps split: option.split dest!: find_SomeD)
qed (auto simp: stable_def same_data_def)

definition payment_sound :: "world \<Rightarrow> int option \<times> string option \<Rightarrow> bool" where
  "payment_sound w info \<longleftrightarrow> (snd info = None \<or> fst info \<noteq> None) \<and> public_if_any (cfg w) (snd info)"

lemma payment_sound_stable: "same_data w v \<Longrightarrow> payment_sound v = payment_sound w"
  by (simp add: payment_sound_def same_data_def fun_eq_iff)

lemma checks_payment [check_intros]:
  "checks (normalize_payment_info pid link) payment_sound"
proof (rule checksI)
  show "wp (normalize_payment_info pid link) (\<lambda>x v. same_data w v \<and> payment_sound w x) (\<lambda>_. same_data w) w" for w
  proof (cases "clean_payment_value link")
    case None
    then show ?thesis
      by (auto simp: normalize_payment_info_def payment_sound_def public_if_any_def split: option.split)
  next
    case (Some l)
    show ?thesis
    proof (cases pid)
      case None
      then show ?thesis by (simp add: normalize_payment_info_def \<open>clean_payment_value link = Some l\<close>)
    next
      case (Some i)
      show ?thesis
        unfolding normalize_payment_info_def Some \<open>clean_payment_value link = Some l\<close>
      proof (simp, rule wp_checked [OF checks_provider_validation same_data_refl [of w]], goal_cases)
        case (1 x v)
        then show ?case
          by (auto simp: wp_simps payment_sound_def public_if_any_def same_data_def  ensure_safe_iff
              split: prod.split sum.split)
      qed simp
    qed
  qed
qed (auto simp: stable_def payment_sound_stable)

section \<open>A checked form\<close>

text \<open>What creating and replacing make of a payload that passes: the fields as given, texts trimmed.\<close>

definition form_of_payload :: "event_payload \<Rightarrow> event_form \<Rightarrow> bool" where
  "form_of_payload p f \<longleftrightarrow>
     ef_description f = trim (epl_description p) \<and> ef_address f = trim (epl_address p)
     \<and> ef_date_event f = epl_date_event p \<and> ef_start_time f = epl_start_time p
     \<and> ef_end_date f = epl_end_date p \<and> ef_end_time f = epl_end_time p
     \<and> ef_latitude f = epl_latitude p \<and> ef_longitude f = epl_longitude p
     \<and> ef_payment_requested_amount f = epl_payment_requested_amount p"

definition deadline_sound :: "world \<Rightarrow> int option \<Rightarrow> int \<Rightarrow> bool" where
  "deadline_sound w deadline date \<longleftrightarrow>
     (case deadline of None \<Rightarrow> True | Some limit \<Rightarrow> day_of (clock w) \<le> limit \<and> limit \<le> date)"

lemma deadline_sound_stable: "same_data w v \<Longrightarrow> deadline_sound v = deadline_sound w"
  by (intro ext) (simp add: deadline_sound_def same_data_def split: option.split)

lemma form_soundI:
  assumes "validate_event_schedule (ef_date_event f) (ef_start_time f) (ef_end_date f) (ef_end_time f) = Inr u"
    and "timezone_known c (ef_timezone f)"
    and "payment_sound w (ef_payment_provider_id f, ef_payment_identifier f)" and "cfg w = c"
    and "normalize_playlist_payload c a b cp cu = Inr (ef_playlist_provider f, ef_playlist_url f)"
    and "resolve_enabled_features c r (ef_payment_provider_id f) (ef_payment_identifier f)
           (ef_playlist_provider f) (ef_playlist_url f) = Inr (ef_enabled_features f)"
  shows "form_sound c f"
proof -
  have "check_end_datetime f"
    using schedule_ok [OF assms(1)] by (simp add: check_end_datetime_def)
  moreover have "check_payment_info f" "public_if_any c (ef_payment_identifier f)"
    using assms(3,4) by (auto simp: payment_sound_def check_payment_info_def)
  moreover have "check_playlist f" "public_if_any c (ef_playlist_url f)"
    using playlist_ok [OF assms(5)]
    by (auto simp: check_playlist_def public_if_any_def list_ex_iff split: option.splits intro!: bexI [of _ "CHR ''h''"])
  ultimately show ?thesis
    using resolve_features_ok [OF assms(6)] assms(2) by (simp add: form_sound_def form_rules_def)
qed

lemmas event_guards = check_intros [THEN wp_checked]

lemma checks_validate_payload [check_intros]:
  "checks (validate_payload p) (\<lambda>w f. form_sound (cfg w) f \<and> form_of_payload p f
     \<and> deadline_sound w (epl_invitation_deadline p) (epl_date_event p))"
proof (rule checksI)
  show "wp (validate_payload p) (\<lambda>f v. same_data w v \<and> form_sound (cfg w) f \<and> form_of_payload p f
     \<and> deadline_sound w (epl_invitation_deadline p) (epl_date_event p)) (\<lambda>_. same_data w) w" for w
    unfolding validate_payload_def Let_def
  proof (intro event_guards [where w = w] wp_prodI same_data_refl, goal_cases)
    case (8 s v1 u1 v2 tz v3 u3 v4 u4 v5 info v6 pid ident pl v7 prov url fs v8)
    then have cfg: "cfg s = cfg w" "clock s = clock w" by simp_all
    show ?case
      using 8
      by (auto simp: cfg form_of_payload_def deadline_sound_def dest!: deadline_ok dest: timezone_ok
          intro!: form_soundI [where w = w])
  qed (assumption | simp)+
qed (simp add: stable_def deadline_sound_stable, auto simp: same_data_def)

section \<open>Patches\<close>

text \<open>
  The row a patch was checked against stays as it is till the statement, and a patch of a row that
  keeps the rules keeps them when the table accepts it.
\<close>

lemma checks_payment_info [check_intros]:
  "checks (fetch_event_payment_info ev) (\<lambda>w e. find (\<lambda>e. e_id e = ev) (events (db w)) = Some e)"
  unfolding fetch_event_payment_info_def
  by (rule checks_mono [OF checks_andthen [OF checks_query_db checks_some_or]]) (auto simp: stable_def same_data_def)

definition change_sound :: "event_patch \<Rightarrow> event \<Rightarrow> world \<Rightarrow> event_change \<Rightarrow> bool" where
  "change_sound p e w ch \<longleftrightarrow>
     (let f = e_form e in
      payment_sound w (ch_payment_provider_id ch, ch_payment_identifier ch)
      \<and> timezone_known (cfg w) (ch_timezone ch)
      \<and> patched_playlist (cfg w) p f = Inr (ch_playlist_provider ch, ch_playlist_url ch)
      \<and> (\<exists>r. resolve_enabled_features (cfg w) (Some r) (ch_payment_provider_id ch) (ch_payment_identifier ch)
            (ch_playlist_provider ch) (ch_playlist_url ch) = Inr (ch_enabled_features ch))
      \<and> deadline_sound w (unwrap_or (ep_invitation_deadline p) (e_invitation_deadline e))
            (unwrap_or (ep_date_event p) (ef_date_event f)))"

lemma change_sound_stable: "same_data w v \<Longrightarrow> change_sound p e v = change_sound p e w"
  by (simp add: change_sound_def payment_sound_stable deadline_sound_stable fun_eq_iff) (simp add: same_data_def)

lemma checks_merge_patch [check_intros]: "checks (merge_patch p e) (change_sound p e)"
proof (rule checksI)
  show "wp (merge_patch p e) (\<lambda>ch v. same_data w v \<and> change_sound p e w ch) (\<lambda>_. same_data w) w" for w
    unfolding merge_patch_def Let_def
  proof (intro event_guards [where w = w] wp_prodI same_data_refl, goal_cases)
    case (8 s v1 info v2 pid ident tz v3 u3 v4 u4 v5 u5 v6 pl v7 prov url fs v8)
    then have cfg: "cfg s = cfg w" "clock s = clock w" by simp_all
    show ?case
      using 8
      by (auto simp: cfg change_sound_def Let_def deadline_sound_def dest!: deadline_ok dest: timezone_ok)
  qed (assumption | simp)+
qed (simp add: stable_def change_sound_stable)

lemma patched_playlist_ok:
  assumes "patched_playlist c p f = Inr (prov, url)" and "url = Some u"
  shows "public_link c u" and "ep_playlist_url p = None \<Longrightarrow> filled url \<Longrightarrow> filled (ef_playlist_url f)"
proof -
  obtain a b where n: "normalize_playlist_payload c a b False False = Inr (prov, url)"
    and b: "b = unwrap_or (ep_playlist_url p) (ef_playlist_url f)"
    using assms by (auto simp: patched_playlist_def Let_def split: if_splits)
  show "public_link c u"
    using playlist_ok [OF n] assms(2) by (auto split: option.splits)
  have "nonempty (map_option trim b) = Some u"
    using n assms(2)
    by (auto simp: normalize_playlist_payload_def Let_def split: option.splits if_splits sum.splits)
  then show "filled (ef_playlist_url f)" if "ep_playlist_url p = None" "filled url"
    using b that assms(2)
    by (cases "ef_playlist_url f") (auto simp: unwrap_or_def nonempty_def filled_def split: list.splits)
qed

lemma patched_form_rules:
  assumes ch: "change_sound p e w ch" and old: "form_rules (cfg w) (e_form e)"
    and checks: "event_checks (sync_event_instants (cfg w) (patched p ch e))"
  shows "form_rules (cfg w) (e_form (patched p ch e))"
proof -
  let ?f = "e_form (patched p ch e)" and ?c = "cfg w"
  have play: "patched_playlist ?c p (e_form e) = Inr (ch_playlist_provider ch, ch_playlist_url ch)"
    and pay: "payment_sound w (ch_payment_provider_id ch, ch_payment_identifier ch)"
    using ch by (simp_all add: change_sound_def Let_def)
  obtain r where res: "resolve_enabled_features ?c (Some r) (ch_payment_provider_id ch) (ch_payment_identifier ch)
      (ch_playlist_provider ch) (ch_playlist_url ch) = Inr (ch_enabled_features ch)"
    using ch by (auto simp: change_sound_def Let_def)
  note fs = resolve_features_ok [OF res]
  have playlist: "has_playlist_metadata (ef_playlist_provider ?f) (ef_playlist_url ?f)"
    if "has_playlist_metadata (ch_playlist_provider ch) (ch_playlist_url ch)"
  proof -
    have url: "filled (ef_playlist_url ?f)"
      using that patched_playlist_ok(2) [OF play]
      by (auto simp: has_playlist_metadata_def patched_def Let_def) (auto simp: filled_def split: option.splits)
    have "check_playlist ?f"
      using checks by (simp add: event_checks_def sync_event_instants_def Let_def)
    then obtain prov where "ef_playlist_provider ?f = Some prov" "prov \<in> {''spotify'', ''apple_music'', ''deezer''}"
      using url by (auto simp: check_playlist_def filled_def split: option.splits)
    moreover have "trim ''spotify'' \<noteq> []" "trim ''apple_music'' \<noteq> []" "trim ''deezer'' \<noteq> []"
      by code_simp+
    ultimately show ?thesis
      using url by (auto simp: has_playlist_metadata_def filled_def)
  qed
  have payment: "has_payment_metadata (ef_payment_provider_id ?f) (ef_payment_identifier ?f)"
    if "has_payment_metadata (ch_payment_provider_id ch) (ch_payment_identifier ch)"
    using that by (auto simp: has_payment_metadata_def filled_def patched_def Let_def or_else_def split: option.splits)
  have "public_if_any ?c (ef_playlist_url ?f)"
    using patched_playlist_ok(1) [OF play] old
    by (auto simp: patched_def Let_def public_if_any_def form_rules_def split: option.splits)
  moreover have "public_if_any ?c (ef_payment_identifier ?f)"
    using pay old
    by (auto simp: patched_def Let_def public_if_any_def form_rules_def payment_sound_def or_else_def split: option.splits)
  moreover have "timezone_known ?c (ef_timezone ?f)" "ef_enabled_features ?f = ch_enabled_features ch"
    using ch by (simp_all add: change_sound_def patched_def Let_def)
  ultimately show ?thesis
    using fs playlist payment unfolding form_rules_def by simp
qed

section \<open>The effect of the statements\<close>

text \<open>What a row of \<open>events\<close> has become, up to notifications.\<close>

definition written :: "world \<Rightarrow> int \<Rightarrow> (event \<Rightarrow> bool) \<Rightarrow> (event \<Rightarrow> event) \<Rightarrow> event \<Rightarrow> world \<Rightarrow> bool" where
  "written w ev hit f old v \<longleftrightarrow>
     find (\<lambda>e. e_id e = ev \<and> hit e) (events (db w)) = Some old
     \<and> event_checks (f old) \<and> event_references (db w) (f old)
     \<and> \<not> (e_moderation_hidden old \<and> e_deleted_at (f old) = None)
     \<and> (event_text (f old) = event_text old \<or> \<not> content_not_allowed w (event_text (f old)))
     \<and> only_outbox (w\<lparr>db := (db w)\<lparr>events := update_where (\<lambda>e. e_id e = ev \<and> hit e) f (events (db w))\<rparr>\<rparr>) v"

lemma written_trans: "written w ev hit f old u \<Longrightarrow> only_outbox u v \<Longrightarrow> written w ev hit f old v"
  by (auto simp: written_def intro: only_outbox_trans)

lemma with_owner_Some:
  assumes "event_references d e" and "d = db w"
  obtains view where "with_owner w e = Some view" and "evw_event view = e"
proof -
  obtain u where "find (\<lambda>u. u_id u = e_owner_id e) (users (db w)) = Some u"
    using assms by (cases "find (\<lambda>u. u_id u = e_owner_id e) (users (db w))")
      (auto simp: event_references_def find_None_iff)
  then show ?thesis by (intro that) (auto simp: with_owner_def event_projection_def)
qed

lemma wp_update_row:
  assumes same: "same_data w u"
    and hit: "\<And>old view v. written w ev hit f old v \<Longrightarrow> evw_event view = f old \<Longrightarrow> Q (Some view) v"
    and miss: "\<And>v. same_data w v \<Longrightarrow> find (\<lambda>e. e_id e = ev \<and> hit e) (events (db w)) = None \<Longrightarrow> Q None v"
    and err: "\<And>e v. same_data w v \<Longrightarrow> E e v"
  shows "wp (stmt h (update_event_row ev hit f)) Q E u"
proof (cases "find (\<lambda>e. e_id e = ev \<and> hit e) (events (db w))")
  case None
  then show ?thesis
    using same by (auto simp: wp_stmt update_event_row_def Let_def same_data_def intro!: miss err)
next
  case (Some old)
  have db: "db u = db w" "cfg u = cfg w" "clock u = clock w" "seqs u = seqs w"
    using same by (simp_all add: same_data_def)
  have content: "content_not_allowed (tick u) vs = content_not_allowed w vs" for vs
    by (simp add: content_not_allowed_def db)
  have owner: "with_owner (tick u) e = with_owner w e" for e
    by (simp add: with_owner_def db)
  show ?thesis
  proof (cases "e_moderation_hidden old \<and> e_deleted_at (f old) = None
      \<or> event_text (f old) \<noteq> event_text old \<and> content_not_allowed w (event_text (f old)) \<or> \<not> event_checks (f old)
      \<or> \<not> event_references (db w) (f old)")
    case True
    then show ?thesis
      using same Some by (auto simp: wp_stmt update_event_row_def Let_def db content intro!: err)
  next
    case False
    then obtain view where view: "with_owner w (f old) = Some view" "evw_event view = f old"
      using with_owner_Some [of "db w" "f old" w] by auto
    have "update_event_row ev hit f (tick u) = (Inr (Some view),
        (tick u)\<lparr>db := (db w)\<lparr>events := update_where (\<lambda>e. e_id e = ev \<and> hit e) f (events (db w))\<rparr>\<rparr>)"
      using False Some by (auto simp: update_event_row_def Let_def db content owner view)
    then show ?thesis
      using same False Some view
      by (auto simp: wp_stmt written_def only_outbox_def db intro!: hit err)
  qed
qed

lemma wp_insert_event:
  assumes same: "same_data w u"
    and ok: "\<And>view e v. e = sync_event_instants (cfg w) (row (seqs w EventSeq + 1)) \<Longrightarrow> event_checks e
        \<Longrightarrow> event_references (db w) e \<Longrightarrow> \<not> content_not_allowed w (event_text e)
        \<Longrightarrow> (\<forall>r \<in> set (events (db w)). e_id r \<noteq> seqs w EventSeq + 1)
        \<Longrightarrow> v = (tick u)\<lparr>seqs := (seqs w)(EventSeq := seqs w EventSeq + 1), db := (db w)\<lparr>events := events (db w) @ [e]\<rparr>\<rparr>
        \<Longrightarrow> evw_event view = e \<Longrightarrow> Q view v"
    and err: "\<And>e v. db v = db w \<Longrightarrow> later w v \<Longrightarrow> E e v"
  shows "wp (stmt h (insert_event row)) Q E u"
proof -
  define k where "k = seqs w EventSeq + 1"
  define e where "e = sync_event_instants (cfg w) (row k)"
  have db: "db u = db w" "cfg u = cfg w" "clock u = clock w" "seqs u = seqs w" and "later w u"
    using same by (simp_all add: same_data_def later_def)
  have content: "content_not_allowed (tick u) vs = content_not_allowed w vs" for vs
    by (simp add: content_not_allowed_def db)
  have run: "insert_event row (tick u) =
      (let w' = (tick u)\<lparr>seqs := (seqs w)(EventSeq := k)\<rparr> in
       if content_not_allowed w (event_text e) \<or> \<not> event_checks e then (Inl CheckViolation, w')
       else if exists_where (\<lambda>r. e_id r = k) (events (db w)) then (Inl UniqueViolation, w')
       else if \<not> event_references (db w) e then (Inl ForeignKeyViolation, w')
       else case with_owner w e of
         None \<Rightarrow> (Inl Unavailable, w')
       | Some view \<Rightarrow> (Inr view, w'\<lparr>db := (db w)\<lparr>events := events (db w) @ [e]\<rparr>\<rparr>))"
    by (simp add: insert_event_def nextval_def db k_def [symmetric] e_def [symmetric] Let_def content)
      (simp add: with_owner_def db e_def split: option.split)
  have later: "later w ((tick u)\<lparr>seqs := (seqs w)(EventSeq := k)\<rparr>)" "later w (tick u)"
    using \<open>later w u\<close> by (auto simp: later_def db k_def)
  show ?thesis
  proof (cases "event_references (db w) e")
    case False
    then show ?thesis
      unfolding wp_stmt run by (auto simp: Let_def db simp del: exists_where_iff intro!: err later)
  next
    case True
    then obtain view where "with_owner w e = Some view" "evw_event view = e"
      using with_owner_Some [of "db w" e w] by auto
    then show ?thesis
      unfolding wp_stmt run
      using True ok [OF e_def [unfolded k_def], of _ view]
      by (auto simp: Let_def db simp del: exists_where_iff intro!: err later) (simp add: e_def k_def)
  qed
qed

section \<open>The handlers\<close>

lemmas form_guards = check_intros [THEN wp_checked]

lemma tells_get_state: "(\<And>s. tells (f s)) \<Longrightarrow> tells (andthen get_state f)"
  by (simp add: tells_def wp_andthen)

lemma tells_members [tell_intros]: "tells (notify_event_members e fs u)"
proof -
  have "quiet (event_member_user_ids ev)" for ev
    unfolding event_member_user_ids_def by (intro quiet_intros)
  then show ?thesis
    unfolding notify_event_members_def by (intro tells_get_state tell_intros)
qed

lemma wp_announce:
  assumes "only_outbox w u" and "\<And>v. only_outbox w v \<Longrightarrow> Q (Answer 200 view) v"
  shows "wp (announce_update view fs i) Q E u"
  unfolding announce_update_def Let_def
proof (rule wp_told [OF tells_members assms(1)], rule wp_told [OF tells_simple(4)], assumption,
    rule wp_told [OF tells_simple(3)], assumption)
  fix v assume "only_outbox w v"
  then show "wp (return (Answer 200 view)) Q E v" using assms(2) by simp
qed

lemma create_event_spec:
  "wp (create_event req p)
     (\<lambda>a v. ans_status a = 201 \<and> (\<exists>u f e. requester w req u \<and> texts_filled p
        \<and> form_sound (cfg w) f \<and> form_of_payload p f
        \<and> deadline_sound w (epl_invitation_deadline p) (epl_date_event p)
        \<and> e = sync_event_instants (cfg w) (new_event p f u (seqs w EventSeq + 1))
        \<and> event_checks e \<and> event_references (db w) e \<and> \<not> content_not_allowed w (event_text e)
        \<and> (\<forall>r \<in> set (events (db w)). e_id r \<noteq> e_id e)
        \<and> evw_event (ans_body a) = e \<and> db v = (db w)\<lparr>events := events (db w) @ [e]\<rparr>
        \<and> cfg v = cfg w \<and> clock v = clock w \<and> seqs v EventSeq = seqs w EventSeq + 1))
     (\<lambda>_ v. db v = db w \<and> later w v) w"
  unfolding create_event_def
proof (intro form_guards [where w = w] same_data_refl, goal_cases)
  case (5 email v1 u v2 x v3 y v4 f v5)
  then have u: "requester w req u" by (auto simp: requester_def)
  have v5: "same_data w v5" using 5 by simp
  show ?case
    unfolding wp_andthen [of "stmt event_write_error _"]
  proof (rule wp_insert_event [where w = w], goal_cases)
    case (2 view e v)
    have "wp (andthen (publish_global_type ''events.changed'') (\<lambda>_. return (Answer 201 view)))
        (\<lambda>a v'. a = Answer 201 view \<and> same_data v v') (\<lambda>_ _. False) v"
      by (auto simp: wp_simps wp_def publish_global_type_def publish_json_def andthen_def return_def same_data_def)
    then show ?case
    proof (rule wp_mono)
      fix a v' assume a: "a = Answer 201 view \<and> same_data v v'"
      have e: "e = sync_event_instants (cfg w) (new_event p f u (seqs w EventSeq + 1))" using 2 by simp
      have fresh: "\<forall>r \<in> set (events (db w)). e_id r \<noteq> e_id e"
        using 2 by (simp add: e sync_event_instants_def new_event_def Let_def)
      have "db v' = (db w)\<lparr>events := events (db w) @ [e]\<rparr>" "cfg v' = cfg w" "clock v' = clock w"
          "seqs v' EventSeq = seqs w EventSeq + 1"
        using 2(6) a v5 by (simp_all add: same_data_def)
      then show "ans_status a = 201 \<and> (\<exists>u f e. requester w req u \<and> texts_filled p
        \<and> form_sound (cfg w) f \<and> form_of_payload p f
        \<and> deadline_sound w (epl_invitation_deadline p) (epl_date_event p)
        \<and> e = sync_event_instants (cfg w) (new_event p f u (seqs w EventSeq + 1))
        \<and> event_checks e \<and> event_references (db w) e \<and> \<not> content_not_allowed w (event_text e)
        \<and> (\<forall>r \<in> set (events (db w)). e_id r \<noteq> e_id e)
        \<and> evw_event (ans_body a) = e \<and> db v' = (db w)\<lparr>events := events (db w) @ [e]\<rparr>
        \<and> cfg v' = cfg w \<and> clock v' = clock w \<and> seqs v' EventSeq = seqs w EventSeq + 1)"
        using 2(2-4,7) 5 u e fresh a by (intro conjI exI [of _ u] exI [of _ f] exI [of _ e]) simp_all
    qed simp
  qed (use 5 in \<open>auto intro: same_data_trans\<close>)
qed (auto simp: same_data_def later_def)

lemma wp_announced:
  assumes "written w ev hit f old u" and "\<And>v. written w ev hit f old v \<Longrightarrow> Q (Answer 200 view) v"
  shows "wp (andthen (some_or (Some view) e) (\<lambda>view. announce_update view fs i)) Q E u"
  unfolding wp_andthen wp_some_or option.case
  by (rule wp_announce [OF only_outbox_refl]) (rule assms(2) [OF written_trans [OF assms(1)]])

definition may_edit :: "world \<Rightarrow> request \<Rightarrow> int \<Rightarrow> bool" where
  "may_edit w req ev \<longleftrightarrow> (\<exists>u. requester w req u \<and> (administers w req \<or> owns w ev u)) \<and> writable w ev"

lemma replace_event_spec:
  "wp (replace_event req ev p)
     (\<lambda>a v. ans_status a = 200 \<and> may_edit w req ev \<and> (\<exists>f old. texts_filled p
        \<and> form_sound (cfg w) f \<and> form_of_payload p f
        \<and> deadline_sound w (epl_invitation_deadline p) (epl_date_event p)
        \<and> written w ev (\<lambda>_. True) (\<lambda>e. sync_event_instants (cfg w) (replaced p f e)) old v
        \<and> evw_event (ans_body a) = sync_event_instants (cfg w) (replaced p f old)))
     (\<lambda>_. same_data w) w"
  unfolding replace_event_def
proof (intro form_guards [where w = w] same_data_refl, goal_cases)
  case (5 u v1 x v2 y v3 f v4 s v5)
  then have cfg: "cfg s = cfg w" and edit: "may_edit w req ev" by (auto simp: may_edit_def)
  show ?case
    unfolding wp_andthen [of "stmt event_write_error _"] cfg
  proof (rule wp_update_row [where w = w], goal_cases)
    case (2 old view v)
    show ?case
      by (rule wp_announced [OF 2(1)]) (use 5 edit 2(2) in auto)
  qed (use 5 in \<open>simp_all add: wp_simps\<close>)
qed (assumption | simp)+

lemma update_event_spec:
  "wp (update_event req ev p)
     (\<lambda>a v. ans_status a = 200 \<and> may_edit w req ev \<and> (\<exists>e ch old.
        find (\<lambda>e. e_id e = ev) (events (db w)) = Some e \<and> change_sound p e w ch
        \<and> \<not> blank (ep_name p) \<and> \<not> blank (ep_description p) \<and> \<not> blank (ep_address p)
        \<and> (ep_latitude p = None) = (ep_longitude p = None)
        \<and> written w ev (\<lambda>_. True) (\<lambda>e. sync_event_instants (cfg w) (patched p ch e)) old v
        \<and> evw_event (ans_body a) = sync_event_instants (cfg w) (patched p ch old)))
     (\<lambda>_. same_data w) w"
  unfolding update_event_def
proof (intro form_guards [where w = w] same_data_refl, goal_cases)
  case (7 u v1 x v2 y v3 z v4 e v5 ch v6 s v7)
  then have cfg: "cfg s = cfg w" and edit: "may_edit w req ev" by (auto simp: may_edit_def)
  show ?case
    unfolding wp_andthen [of "stmt event_write_error _"] cfg
  proof (rule wp_update_row [where w = w], goal_cases)
    case (2 old view v)
    show ?case
      by (rule wp_announced [OF 2(1)]) (use 7 edit 2(2) in auto)
  qed (use 7 in \<open>simp_all add: wp_simps\<close>)
qed (assumption | simp)+

lemma delete_event_spec:
  "wp (delete_event req ev)
     (\<lambda>a v. a = Answer 200 ''trashed'' \<and> (\<exists>u. requester w req u \<and> (administers w req \<or> owns w ev u))
        \<and> (\<exists>old. written w ev (\<lambda>e. e_deleted_at e = None) (trashed (clock w)) old v))
     (\<lambda>_. same_data w) w"
  unfolding delete_event_def
proof (intro form_guards [where w = w] same_data_refl, goal_cases)
  case (2 u v1 s v2)
  then have clock: "clock s = clock w" by simp
  show ?case
    unfolding wp_andthen [of "stmt _ _"] clock
  proof (rule wp_update_row [where w = w], goal_cases)
    case (2 old view v)
    have "wp (andthen (publish_event_type ev ''event.deleted'') (\<lambda>_.
        andthen (publish_global_type ''events.changed'') (\<lambda>_. return (Answer 200 ''trashed''))))
        (\<lambda>a v'. a = Answer 200 ''trashed'' \<and> only_outbox v v') (\<lambda>_ _. False) v"
      by (rule wp_told [OF tells_simple(4) only_outbox_refl], rule wp_told [OF tells_simple(3)], assumption) simp
    then show ?case
      unfolding wp_andthen [of "some_or _ _"] wp_some_or option.case
      by (rule wp_mono) (use 2 \<open>requester w req u \<and> _\<close> in \<open>auto intro: written_trans\<close>)
  qed (use 2 in \<open>simp_all add: wp_simps\<close>)
qed (assumption | simp)+

lemma restore_event_spec:
  "wp (restore_event req ev)
     (\<lambda>a v. ans_status a = 200 \<and> (\<exists>u old. requester w req u
        \<and> written w ev (\<lambda>e. e_owner_id e = u \<and> e_deleted_at e \<noteq> None) untrashed old v
        \<and> evw_event (ans_body a) = untrashed old))
     (\<lambda>_. same_data w) w"
  unfolding restore_event_def
proof (intro form_guards [where w = w] same_data_refl, goal_cases)
  case (2 email v1 u v2)
  then have req: "requester w req u" by (auto simp: requester_def)
  show ?case
    unfolding wp_andthen [of "stmt _ _"]
  proof (rule wp_update_row [where w = w], goal_cases)
    case (2 old view v)
    have "wp (andthen (publish_global_type ''events.changed'') (\<lambda>_. return (Answer 200 view)))
        (\<lambda>a v'. a = Answer 200 view \<and> only_outbox v v') (\<lambda>_ _. False) v"
      by (rule wp_told [OF tells_simple(3) only_outbox_refl]) simp
    then show ?case
      unfolding wp_andthen [of "some_or _ _"] wp_some_or option.case
      by (rule wp_mono) (use 2 req in \<open>auto intro: written_trans\<close>)
  qed (use 2 in \<open>simp_all add: wp_simps\<close>)
qed (assumption | simp)+

end
