(* ===== verification/Moderation.thy ===== *)
theory Moderation
  imports Payment_Providers Avatars
begin

text \<open>
  Reports of abuse and what the administrators do about them (\<open>src/routes/safety.rs\<close>; blocking is in
  \<open>Friends\<close>).  The identifier of a report, which the database draws, is an argument, as is the verdict
  of the rate limiter.
\<close>

abbreviation safety_unavailable :: api_error where
  "safety_unavailable \<equiv> ApiError 503 ''safety_unavailable''"

section \<open>Reports\<close>

record report_payload =
  rp_public_id :: "uuid option"
  rp_event_id :: "int option"
  rp_reason :: string
  rp_comment :: string

definition insert_report :: "abuse_report \<Rightarrow> world \<Rightarrow> (sql_error + uuid) \<times> world" where
  "insert_report r w =
     (let d = db w in
      if exists_where (\<lambda>o'. ab_public_id o' = ab_public_id r) (abuse_reports d) then (Inl UniqueViolation, w)
      else if (case ab_event_id r of None \<Rightarrow> False | Some i \<Rightarrow> \<not> exists_where (\<lambda>e. e_id e = i) (events d))
        \<or> (case ab_reporter_id r of None \<Rightarrow> False | Some i \<Rightarrow> \<not> exists_where (\<lambda>u. u_id u = i) (users d))
        \<or> (case ab_target_id r of None \<Rightarrow> False | Some i \<Rightarrow> \<not> exists_where (\<lambda>u. u_id u = i) (users d))
      then (Inl ForeignKeyViolation, w)
      else (Inr (ab_public_id r), w\<lparr>db := d\<lparr>abuse_reports := abuse_reports d @ [r]\<rparr>\<rparr>))"

definition report :: "bool \<Rightarrow> uuid \<Rightarrow> request \<Rightarrow> report_payload \<Rightarrow> uuid answer act" where
  "report allowed report_id req payload =
     andthen (extract_authenticated_user req) (\<lambda>user.
     andthen (require (rp_reason payload \<in> {''harassment'', ''inappropriate'', ''spam'', ''other''}
         \<and> \<not> length (rp_comment payload) > 4000
         \<and> (rp_public_id payload \<noteq> None) \<noteq> (rp_event_id payload \<noteq> None)) (bad_request [])) (\<lambda>_.
     andthen (require allowed (ApiError 429 [])) (\<lambda>_.
     andthen (case rp_event_id payload of
         None \<Rightarrow> return ()
       | Some event \<Rightarrow> ensure_event_member_email event (u_email user)) (\<lambda>_.
     andthen (case rp_public_id payload of
         None \<Rightarrow> return None
       | Some pid \<Rightarrow>
           andthen (query safety_unavailable (\<lambda>w. find (\<lambda>u. u_public_id u = pid) (users (db w)))) (\<lambda>row.
           andthen (some_or row (not_found [])) (\<lambda>u. return (Some (u_id u))))) (\<lambda>target.
     andthen now (\<lambda>t.
     andthen (stmt (\<lambda>_. safety_unavailable) (insert_report
       \<lparr>ab_public_id = report_id, ab_reporter_id = Some (u_id user), ab_target_id = target,
        ab_event_id = rp_event_id payload, ab_reason = rp_reason payload, ab_comment = rp_comment payload,
        ab_status = ReportOpen, ab_created_at = t, ab_resolved_at = None\<rparr>)) (\<lambda>i.
     return (Answer 201 i))))))))"

definition ensure_moderator :: "request \<Rightarrow> user act" where
  "ensure_moderator req =
     andthen (extract_authenticated_user req) (\<lambda>user.
     andthen get_state (\<lambda>w.
     andthen (require (lowercase (cfg w) (u_email user) \<in> set (admin_emails (cfg w))) (forbidden [])) (\<lambda>_.
     return user)))"

text \<open>A report as the administrators see it, with the public identifier of its target.\<close>

definition reports :: "request \<Rightarrow> (abuse_report \<times> uuid option) list answer act" where
  "reports req =
     andthen (ensure_moderator req) (\<lambda>_.
     andthen (query safety_unavailable (\<lambda>w. map (\<lambda>r. (r, Option.bind (ab_target_id r) (\<lambda>i.
           map_option u_public_id (find (\<lambda>u. u_id u = i) (users (db w))))))
       (take 100 (sort_key ab_created_at (filter (\<lambda>r. ab_status r = ReportOpen) (abuse_reports (db w))))))) (\<lambda>rows.
     return (Answer 200 rows)))"

section \<open>Actions\<close>

record moderation_action =
  mo_action :: string
  mo_public_id :: "uuid option"
  mo_event_id :: "int option"
  mo_term :: "string option"

definition hide_avatar :: "uuid option \<Rightarrow> string answer act" where
  "hide_avatar target =
     andthen (some_or target (bad_request [])) (\<lambda>pid.
     andthen (transact safety_unavailable (
       andthen (query safety_unavailable (\<lambda>w. find (\<lambda>u. u_public_id u = pid) (users (db w)))) (\<lambda>row.
       andthen (some_or row (not_found [])) (\<lambda>u.
       andthen (execute safety_unavailable (\<lambda>w. ((), (db w)\<lparr>users := update_where (\<lambda>u. u_public_id u = pid)
         (\<lambda>u. u\<lparr>u_avatar_url := None\<rparr>) (users (db w))\<rparr>))) (\<lambda>_.
       return (u_avatar_url u)))))) (\<lambda>avatar.
     andthen (cleanup_avatar_file avatar) (\<lambda>_.
     return (Answer 200 ''applied''))))"

definition suspend_user :: "uuid \<Rightarrow> bool \<Rightarrow> int \<Rightarrow> database \<Rightarrow> database" where
  "suspend_user pid suspended moderator_id d = d\<lparr>users := update_where
     (\<lambda>u. u_public_id u = pid \<and> u_id u \<noteq> moderator_id)
     (\<lambda>u. u\<lparr>u_suspended := suspended, u_session_version := u_session_version u + 1\<rparr>) (users d)\<rparr>"

definition hidden :: "micros \<Rightarrow> event \<Rightarrow> event" where
  "hidden t e = e\<lparr>e_moderation_hidden := True, e_deleted_at := Some t, e_deletion_reason := Some ''moderation'',
     e_purge_at := None\<rparr>"

definition close_report :: "uuid \<Rightarrow> report_status \<Rightarrow> micros \<Rightarrow> database \<Rightarrow> database" where
  "close_report pid status t d = d\<lparr>abuse_reports := update_where (\<lambda>r. ab_public_id r = pid)
     (\<lambda>r. r\<lparr>ab_status := status, ab_resolved_at := Some t\<rparr>) (abuse_reports d)\<rparr>"

text \<open>\<open>lower(trim($1))\<close>; this \<open>trim\<close> takes away blanks only.\<close>

definition moderation_term :: "config \<Rightarrow> string \<Rightarrow> string" where
  "moderation_term c term = sql_lower c (trim_end_char CHR '' '' (trim_start_char CHR '' '' term))"

definition insert_term :: "string \<Rightarrow> world \<Rightarrow> (sql_error + unit) \<times> world" where
  "insert_term term w =
     (let d = db w; v = moderation_term (cfg w) term in
      if char_count v < 3 then (Inl CheckViolation, w)
      else if v \<in> set (moderation_terms d) then (Inr (), w)
      else (Inr (), w\<lparr>db := d\<lparr>moderation_terms := moderation_terms d @ [v]\<rparr>\<rparr>))"

definition moderate_with :: "int \<Rightarrow> moderation_action \<Rightarrow> unit act" where
  "moderate_with moderator_id p = andthen get_state (\<lambda>w. let action = mo_action p in
     if action \<in> {''suspend'', ''unsuspend''} \<and> mo_public_id p \<noteq> None
     then execute safety_unavailable (\<lambda>w. ((), suspend_user (the (mo_public_id p)) (action = ''suspend'') moderator_id (db w)))
     else if action = ''hide_event'' \<and> mo_event_id p \<noteq> None
     then andthen (stmt (\<lambda>_. safety_unavailable)
       (update_event_row (the (mo_event_id p)) (\<lambda>_. True) (hidden (clock w)))) (\<lambda>_. return ())
     else if action \<in> {''resolve'', ''dismiss''} \<and> mo_public_id p \<noteq> None
     then execute safety_unavailable (\<lambda>w. ((), close_report (the (mo_public_id p))
       (if action = ''resolve'' then ReportResolved else ReportDismissed) (clock w) (db w)))
     else if action = ''add_term'' \<and> (case mo_term p of None \<Rightarrow> False
         | Some t \<Rightarrow> char_count (trim t) \<ge> 3 \<and> length t \<le> 200)
     then stmt (\<lambda>_. safety_unavailable) (insert_term (the (mo_term p)))
     else if action = ''remove_term'' \<and> mo_term p \<noteq> None
     then execute safety_unavailable (\<lambda>w. ((), (db w)\<lparr>moderation_terms :=
       delete_where (\<lambda>t. t = moderation_term (cfg w) (the (mo_term p))) (moderation_terms (db w))\<rparr>))
     else throw (bad_request []))"

definition moderate :: "request \<Rightarrow> moderation_action \<Rightarrow> string answer act" where
  "moderate req p =
     andthen (ensure_moderator req) (\<lambda>user.
     if mo_action p = ''hide_avatar'' then hide_avatar (mo_public_id p)
     else andthen (moderate_with (u_id user) p) (\<lambda>_. return (Answer 200 ''applied'')))"

section \<open>Looking up a user\<close>

definition resolve_user :: "bool \<Rightarrow> request \<Rightarrow> string \<Rightarrow> (uuid \<times> string) answer act" where
  "resolve_user allowed req handle =
     andthen (extract_authenticated_user req) (\<lambda>user.
     andthen (require allowed (ApiError 429 [])) (\<lambda>_.
     andthen (query safety_unavailable (\<lambda>w. find (\<lambda>u. sql_lower (cfg w) (u_handle u) = sql_lower (cfg w) (trim handle)
         \<and> u_id u \<noteq> u_id user) (users (db w)))) (\<lambda>row.
     andthen (some_or row (not_found [])) (\<lambda>u.
     return (Answer 200 (u_public_id u, u_handle u))))))"

end
