(* ===== verification/Event_Invariant.thy ===== *)
theory Event_Invariant
  imports Event_Facts Moderation
begin

text \<open>
  The invariant of events and payment providers, and that every operation of \<open>Events\<close>,
  \<open>Payment_Providers\<close> and \<open>Moderation\<close>, and the periodic clean-up of \<open>Account\<close>, keeps it.
\<close>

section \<open>The invariant\<close>

text \<open>
  An event keeps the constraints of its table and the rules of its form, its two instants are those
  of its local times, and it is in the trash when moderation hides it.
\<close>

definition event_sound :: "config \<Rightarrow> event \<Rightarrow> bool" where
  "event_sound c e \<longleftrightarrow> event_checks e \<and> form_rules c (e_form e) \<and> sync_event_instants c e = e
     \<and> (e_moderation_hidden e \<longrightarrow> e_deleted_at e \<noteq> None)"

definition provider_sound :: "config \<Rightarrow> payment_provider \<Rightarrow> bool" where
  "provider_sound c p \<longleftrightarrow> provider_checks p \<and> pp_name p \<noteq> [] \<and> compiles c (pp_validation_regex p)"

definition provider_known :: "database \<Rightarrow> event \<Rightarrow> bool" where
  "provider_known d e \<longleftrightarrow> (case ef_payment_provider_id (e_form e) of
     None \<Rightarrow> True | Some i \<Rightarrow> \<exists>p \<in> set (payment_providers d). pp_id p = i)"

lemma provider_known_events [simp]: "provider_known (d\<lparr>events := es\<rparr>) e = provider_known d e"
  by (simp add: provider_known_def cong: option.case_cong)

lemma provider_known_sync [simp]: "provider_known d (sync_event_instants c e) = provider_known d e"
  by (simp add: provider_known_def sync_event_instants_def Let_def)

text \<open>\<open>H\<close> are identifiers of events that moderation has hidden.\<close>

definition events_inv :: "int set \<Rightarrow> world \<Rightarrow> bool" where
  "events_inv H w \<longleftrightarrow> (let d = db w in
     distinct (map e_id (events d)) \<and> (\<forall>e \<in> set (events d). event_sound (cfg w) e \<and> provider_known d e)
     \<and> distinct (map pp_id (payment_providers d)) \<and> distinct (map pp_name (payment_providers d))
     \<and> (\<forall>p \<in> set (payment_providers d). provider_sound (cfg w) p)
     \<and> (\<forall>e \<in> set (events d). e_id e \<le> seqs w EventSeq)
     \<and> (\<forall>i \<in> H. i \<le> seqs w EventSeq) \<and> (\<forall>e \<in> set (events d). e_id e \<in> H \<longrightarrow> e_moderation_hidden e))"

lemma events_inv_tables:
  assumes "events_inv H w" "events (db v) = events (db w)" "payment_providers (db v) = payment_providers (db w)" "cfg v = cfg w"
    and "seqs w EventSeq \<le> seqs v EventSeq"
  shows "events_inv H v"
  using assms(1,5) unfolding events_inv_def provider_known_def Let_def assms(2-4) by fastforce

interpretation event_tables: table_invariant "events_inv H" for H
  by unfold_locales (erule events_inv_tables, simp_all add: later_def)

lemma events_inv_outbox: "events_inv H w \<Longrightarrow> only_outbox w v \<Longrightarrow> events_inv H v"
  by (erule events_inv_tables, simp add: only_outbox_tables(2))
    (cases "db v"; cases "db w"; simp add: only_outbox_def)+

lemma find_keyed:
  assumes "distinct (map k rows)" and "find (\<lambda>r. k r = i \<and> q r) rows = Some old"
  shows "update_where (\<lambda>r. k r = i \<and> q r) f rows = update_where (\<lambda>r. r = old) f rows" and "old \<in> set rows" "k old = i"
proof -
  show old: "old \<in> set rows" "k old = i" using find_SomeD [OF assms(2)] by auto
  have "k r = i \<and> q r \<longleftrightarrow> r = old" if "r \<in> set rows" for r
    using distinct_map_inj [OF assms(1) that old(1)] old find_SomeD [OF assms(2)] by auto
  then show "update_where (\<lambda>r. k r = i \<and> q r) f rows = update_where (\<lambda>r. r = old) f rows"
    by (simp add: update_where_def)
qed

lemma written_keeps:
  assumes inv: "events_inv H w" and wr: "written w ev hit f old v"
    and f: "\<And>e. e_id (f e) = e_id e"
      "e_moderation_hidden (f old) = e_moderation_hidden old
        \<or> e_moderation_hidden (f old) \<and> e_deleted_at (f old) \<noteq> None" "form_rules (cfg w) (e_form (f old))" "sync_event_instants (cfg w) (f old) = f old"
  shows "events_inv H v"
proof (rule events_inv_outbox)
  let ?d = "(db w)\<lparr>events := update_where (\<lambda>e. e_id e = ev \<and> hit e) f (events (db w))\<rparr>"
  show "only_outbox (w\<lparr>db := ?d\<rparr>) v" using wr by (simp add: written_def)
  have ids: "distinct (map e_id (events (db w)))" using inv by (simp add: events_inv_def Let_def)
  have find: "find (\<lambda>e. e_id e = ev \<and> hit e) (events (db w)) = Some old" using wr by (simp add: written_def)
  have "provider_known (db w) (f old)" "event_checks (f old)"
      "e_moderation_hidden (f old) \<longrightarrow> e_deleted_at (f old) \<noteq> None"
    using wr f(2) by (auto simp: written_def event_references_def provider_known_def split: option.split)
  then show "events_inv H (w\<lparr>db := ?d\<rparr>)"
    using inv f unfolding find_keyed(1) [OF ids find] events_inv_def Let_def
    by (auto simp: event_sound_def)
qed

lemma sync_sync [simp]: "sync_event_instants c (sync_event_instants c e) = sync_event_instants c e"
  by (simp add: sync_event_instants_def Let_def)

lemma sync_fields [simp]:
  "e_form (sync_event_instants c e) = e_form e" "e_id (sync_event_instants c e) = e_id e"
  "e_name (sync_event_instants c e) = e_name e" "e_owner_id (sync_event_instants c e) = e_owner_id e"
  "e_deleted_at (sync_event_instants c e) = e_deleted_at e"
  "e_moderation_hidden (sync_event_instants c e) = e_moderation_hidden e"
  by (simp_all add: sync_event_instants_def Let_def)

lemma sync_fixed:
  "sync_event_instants c e = e \<longleftrightarrow>
     e_starts_at (sync_event_instants c e) = e_starts_at e
     \<and> e_effective_ends_at (sync_event_instants c e) = e_effective_ends_at e"
  by (cases e) (simp add: sync_event_instants_def Let_def)

lemma sync_unchanged:
  "sync_event_instants c (trashed t e) = trashed t e \<longleftrightarrow> sync_event_instants c e = e"
  "sync_event_instants c (untrashed e) = untrashed e \<longleftrightarrow> sync_event_instants c e = e"
  "sync_event_instants c (without_provider e) = without_provider e \<longleftrightarrow> sync_event_instants c e = e"
  unfolding sync_fixed
  by (simp_all add: sync_event_instants_def Let_def trashed_def untrashed_def without_provider_def cong: option.case_cong)

lemma inv_sound: "events_inv H w \<Longrightarrow> find P (events (db w)) = Some e \<Longrightarrow> event_sound (cfg w) e \<and> provider_known (db w) e"
  by (auto simp: events_inv_def Let_def dest!: find_SomeD)

lemma create_event_keeps: "keeps (events_inv H) (create_event req p)"
proof (rule keepsI, rule wp_mono [OF create_event_spec])
  fix w :: world and v :: world and a assume inv: "events_inv H w"
  assume "ans_status a = 201 \<and> (\<exists>u f e. requester w req u \<and> texts_filled p
        \<and> form_sound (cfg w) f \<and> form_of_payload p f
        \<and> deadline_sound w (epl_invitation_deadline p) (epl_date_event p)
        \<and> e = sync_event_instants (cfg w) (new_event p f u (seqs w EventSeq + 1))
        \<and> event_checks e \<and> event_references (db w) e \<and> \<not> content_not_allowed w (event_text e)
        \<and> (\<forall>r \<in> set (events (db w)). e_id r \<noteq> e_id e)
        \<and> evw_event (ans_body a) = e \<and> db v = (db w)\<lparr>events := events (db w) @ [e]\<rparr>
        \<and> cfg v = cfg w \<and> clock v = clock w \<and> seqs v EventSeq = seqs w EventSeq + 1)"
  then obtain u f where e: "form_sound (cfg w) f" "event_checks (sync_event_instants (cfg w) (new_event p f u (seqs w EventSeq + 1)))"
      "event_references (db w) (sync_event_instants (cfg w) (new_event p f u (seqs w EventSeq + 1)))"
      "\<forall>r \<in> set (events (db w)). e_id r \<noteq> e_id (sync_event_instants (cfg w) (new_event p f u (seqs w EventSeq + 1)))"
      "db v = (db w)\<lparr>events := events (db w) @ [sync_event_instants (cfg w) (new_event p f u (seqs w EventSeq + 1))]\<rparr>"
      "cfg v = cfg w" "seqs v EventSeq = seqs w EventSeq + 1" by auto
  have "provider_known (db w) (new_event p f u (seqs w EventSeq + 1))"
    using e(3) by (auto simp: event_references_def provider_known_def split: option.split)
  moreover have "e_form (new_event p f u (seqs w EventSeq + 1)) = f" "e_id (new_event p f u (seqs w EventSeq + 1)) = seqs w EventSeq + 1"
      "e_moderation_hidden (new_event p f u (seqs w EventSeq + 1)) = False"
    by (simp_all add: new_event_def)
  ultimately show "events_inv H v"
    using inv e by (auto simp: events_inv_def Let_def event_sound_def form_sound_def)
next
  fix w v :: world and e assume "events_inv H w" and "db v = db w \<and> later w v"
  then show "events_inv H v" by (auto intro: event_tables.rollback)
qed

lemma same_data_keeps: "events_inv H w \<Longrightarrow> same_data w v \<Longrightarrow> events_inv H v"
  by (rule event_tables.inv_same_data)

lemma replace_event_keeps: "keeps (events_inv H) (replace_event req ev p)"
proof (rule keepsI, rule wp_mono [OF replace_event_spec], goal_cases)
  case (1 w a v)
  then obtain f old where f: "form_sound (cfg w) f"
    and wr: "written w ev (\<lambda>_. True) (\<lambda>e. sync_event_instants (cfg w) (replaced p f e)) old v" by blast
  show ?case
    by (rule written_keeps [OF 1(1) wr]) (use f in \<open>simp_all add: replaced_def form_sound_def\<close>)
qed (rule same_data_keeps)

lemma update_event_keeps: "keeps (events_inv H) (update_event req ev p)"
proof (rule keepsI, rule wp_mono [OF update_event_spec], goal_cases)
  case (1 w a v)
  then obtain e ch old where e: "find (\<lambda>e. e_id e = ev) (events (db w)) = Some e" "change_sound p e w ch"
    and wr: "written w ev (\<lambda>_. True) (\<lambda>e. sync_event_instants (cfg w) (patched p ch e)) old v" by blast
  have old: "old = e" using wr e(1) by (simp add: written_def)
  have "form_rules (cfg w) (e_form e)" using inv_sound [OF 1(1) e(1)] by (simp add: event_sound_def)
  then have "form_rules (cfg w) (e_form (patched p ch e))"
    using patched_form_rules [OF e(2)] wr old by (simp add: written_def)
  then show ?case
    by (intro written_keeps [OF 1(1) wr]) (simp_all add: patched_def Let_def old)
qed (rule same_data_keeps)

lemma delete_event_keeps: "keeps (events_inv H) (delete_event req ev)"
proof (rule keepsI, rule wp_mono [OF delete_event_spec], goal_cases)
  case (1 w a v)
  then obtain old where wr: "written w ev (\<lambda>e. e_deleted_at e = None) (trashed (clock w)) old v" by blast
  then have "event_sound (cfg w) old" using inv_sound [OF 1(1)] by (auto simp: written_def)
  then show ?case
    by (intro written_keeps [OF 1(1) wr])
      (simp_all only: sync_unchanged event_sound_def, simp_all add: trashed_def)
qed (rule same_data_keeps)

lemma restore_event_keeps: "keeps (events_inv H) (restore_event req ev)"
proof (rule keepsI, rule wp_mono [OF restore_event_spec], goal_cases)
  case (1 w a v)
  then obtain u old where wr: "written w ev (\<lambda>e. e_owner_id e = u \<and> e_deleted_at e \<noteq> None) untrashed old v" by blast
  then have "event_sound (cfg w) old" using inv_sound [OF 1(1)] by (auto simp: written_def)
  then show ?case
    by (intro written_keeps [OF 1(1) wr])
      (simp_all only: sync_unchanged event_sound_def, simp_all add: untrashed_def)
qed (rule same_data_keeps)

section \<open>Payment providers\<close>

lemma insert_provider_keeps:
  assumes "events_inv H w" and "insert_provider row w = (r, v)"
    and "\<And>k. pp_id (row k) = k" "\<And>k. pp_name (row k) \<noteq> []" "\<And>k. compiles (cfg w) (pp_validation_regex (row k))"
  shows "events_inv H v"
proof (cases r)
  case (Inl e)
  then have "db v = db w" "later w v"
    using assms(2) by (auto simp: insert_provider_def Let_def nextval_def later_def split: if_splits)
  then show ?thesis by (rule event_tables.rollback [OF assms(1)])
next
  case (Inr x)
  define k where "k = seqs w ProviderSeq + 1"
  have *: "db v = (db w)\<lparr>payment_providers := payment_providers (db w) @ [row k]\<rparr>" "cfg v = cfg w"
    "seqs v EventSeq = seqs w EventSeq"
    "provider_checks (row k)" "\<forall>p \<in> set (payment_providers (db w)). pp_id p \<noteq> k \<and> pp_name p \<noteq> pp_name (row k)"
    using assms(2) Inr by (auto simp: insert_provider_def Let_def nextval_def k_def split: if_splits)
  have "provider_known (db v) e" if "provider_known (db w) e" for e
    using that by (auto simp: provider_known_def * split: option.splits)
  then show ?thesis
    using assms(1,3-5) * by (auto simp: events_inv_def Let_def provider_sound_def)
qed

lemma distinct_names_update:
  assumes "\<And>p. p \<in> set rows \<Longrightarrow> p \<noteq> old \<Longrightarrow> k (f old) \<noteq> k p"
    and "distinct (map k rows)"
  shows "distinct (map k (update_where (\<lambda>p. p = old) f rows))"
proof -
  have "inj_on (\<lambda>p. k (if p = old then f p else p)) (set rows)"
  proof (rule inj_onI)
    fix p q assume "p \<in> set rows" "q \<in> set rows" "k (if p = old then f p else p) = k (if q = old then f q else q)"
    then show "p = q"
      using assms(1) distinct_map_inj [OF assms(2), of p q] by (auto split: if_splits) metis+
  qed
  then show ?thesis
    using assms(2) by (simp add: update_where_def comp_def distinct_map)
qed

lemma update_provider_row_keeps:
  assumes "events_inv H w" and "update_provider_row i f w = (r, v)"
    and "\<And>p. pp_id (f p) = pp_id p"
    and "\<And>p. provider_sound (cfg w) p \<Longrightarrow> pp_name (f p) \<noteq> [] \<and> compiles (cfg w) (pp_validation_regex (f p))"
  shows "events_inv H v"
proof (cases "v = w")
  case True
  then show ?thesis using assms(1) by simp
next
  case False
  let ?ps = "payment_providers (db w)"
  have ids: "distinct (map pp_id ?ps)" and names: "distinct (map pp_name ?ps)"
    and sound: "\<forall>p \<in> set ?ps. provider_sound (cfg w) p" using assms(1) by (simp_all add: events_inv_def Let_def)
  obtain old where old: "find (\<lambda>p. pp_id p = i \<and> True) ?ps = Some old" "provider_checks (f old)"
      "\<forall>p \<in> set ?ps. pp_id p = i \<or> pp_name p \<noteq> pp_name (f old)"
      "db v = (db w)\<lparr>payment_providers := update_where (\<lambda>p. pp_id p = i) f ?ps\<rparr>" "cfg v = cfg w" "seqs v = seqs w"
    using assms(2) False by (auto simp: update_provider_row_def Let_def split: option.splits if_splits)
  note fk = find_keyed [OF ids old(1), simplified]
  have db: "db v = (db w)\<lparr>payment_providers := update_where (\<lambda>p. p = old) f ?ps\<rparr>"
    using old(4) fk(1) by simp
  have "distinct (map pp_name (update_where (\<lambda>p. p = old) f ?ps))"
  proof -
    have "pp_name (f old) \<noteq> pp_name p" if "p \<in> set ?ps" "p \<noteq> old" for p
      using that old(3) fk(2,3) distinct_map_inj [OF ids that(1) fk(2)] by metis
    then show ?thesis using names by (rule distinct_names_update)
  qed
  moreover have "provider_sound (cfg w) (f old)"
    using old(2) sound fk(2) assms(4) [of old] by (simp add: provider_sound_def)
  moreover have "provider_known (db v) e" if "provider_known (db w) e" for e
    using that assms(3) by (auto simp: provider_known_def db split: option.splits)
  ultimately show ?thesis
    using assms(1,3) old(5,6) unfolding events_inv_def Let_def db by (auto simp: db)
qed

lemma delete_provider_row_keeps:
  assumes inv: "events_inv H w" and run: "delete_provider_row i w = (r, v)"
  shows "events_inv H v"
proof (cases "(\<exists>p \<in> set (payment_providers (db w)). pp_id p = i) \<and> v \<noteq> w")
  case False
  then have "v = w"
  proof (cases "\<exists>p \<in> set (payment_providers (db w)). pp_id p = i")
    case False
    then show ?thesis
      using run delete_where_none [of "payment_providers (db w)" "\<lambda>p. pp_id p = i"]
      by (auto simp: delete_provider_row_def Let_def split: if_splits)
  qed simp
  then show ?thesis using inv by simp
next
  case True
  let ?es = "update_where (names_provider i) without_provider (events (db w))"
  have ok: "event_checks (without_provider e)" if "e \<in> set (events (db w))" "names_provider i e" for e
    using run True that by (auto simp: delete_provider_row_def Let_def split: if_splits)
  have db: "db v = (db w)\<lparr>payment_providers := delete_where (\<lambda>p. pp_id p = i) (payment_providers (db w)), events := ?es\<rparr>"
    and cfg: "cfg v = cfg w" "seqs v = seqs w"
    using run True by (auto simp: delete_provider_row_def Let_def split: if_splits)
  have "event_sound (cfg w) e \<and> provider_known (db v) e" if member: "e \<in> set ?es" for e
  proof -
    obtain e0 where e0: "e0 \<in> set (events (db w))" "e = (if names_provider i e0 then without_provider e0 else e0)"
      using member unfolding set_update_where by blast
    have sound: "event_sound (cfg w) e0" "provider_known (db w) e0"
      using inv e0(1) by (auto simp: events_inv_def Let_def)
    show ?thesis
    proof (cases "names_provider i e0")
      case False
      then show ?thesis
        using sound e0 by (auto simp: provider_known_def names_provider_def db split: option.splits)
    next
      case named: True
      have checks: "event_checks (without_provider e0)" by (rule ok [OF e0(1) named])
      then have "ef_payment_identifier (e_form e0) = None"
        by (simp add: event_checks_def check_payment_info_def without_provider_def)
      then have "form_rules (cfg w) (e_form (without_provider e0))"
        using sound(1) by (auto simp: event_sound_def form_rules_def without_provider_def has_payment_metadata_def filled_def)
      then show ?thesis
        using checks sound(1) named e0(2)
        by (simp add: event_sound_def sync_unchanged) (simp add: provider_known_def without_provider_def)
    qed
  qed
  moreover have id: "e_id (without_provider e) = e_id e"
      "e_moderation_hidden (without_provider e) = e_moderation_hidden e" for e by (simp_all add: without_provider_def)
  have "distinct (map e_id ?es)"
    using inv by (simp add: events_inv_def Let_def id)
  ultimately show ?thesis
    using inv cfg id by (auto simp: events_inv_def Let_def db)
qed

lemma wp_stmt_keeps:
  assumes "events_inv H w" and "same_data w u"
    and "\<And>u r v. events_inv H u \<Longrightarrow> cfg u = cfg w \<Longrightarrow> f u = (r, v) \<Longrightarrow> events_inv H v" and "\<And>x. quiet (g x)"
  shows "wp (andthen (stmt h f) g) (\<lambda>_. events_inv H) (\<lambda>_. events_inv H) u"
proof -
  have u: "events_inv H (tick u)" "cfg (tick u) = cfg w"
    using assms(1,2) event_tables.inv_same_data [OF assms(1,2)] by (simp_all add: same_data_def)
  have g: "wp (g x) (\<lambda>_. events_inv H) (\<lambda>_. events_inv H) v" if "events_inv H v" for x v
    by (rule keepsD [OF event_tables.keeps_quiet [OF assms(4)] that])
  show ?thesis
    unfolding wp_andthen
    by (rule wp_stmtI) (use assms(3) [OF u] u(1) in \<open>auto intro: g\<close>)
qed

lemma checks_admin [check_intros]: "checks (providers_ensure_admin req) (\<lambda>_ _. True)"
  unfolding providers_ensure_admin_def extract_active_claims_from_auth_def
  by (intro checks_quiet quiet_intros quiet_checks [OF checks_user])

lemmas provider_guards = check_intros [THEN wp_checked]

lemma create_or_replace_keeps: "keeps (events_inv H) (create_or_replace_provider payload i)"
proof (rule keepsI)
  fix w assume inv: "events_inv H w"
  show "wp (create_or_replace_provider payload i) (\<lambda>_. events_inv H) (\<lambda>_. events_inv H) w"
    unfolding create_or_replace_provider_def Let_def
  proof (intro provider_guards [where w = w] same_data_refl, goal_cases)
    case (4 x v1 y v2 s v3 z v4)
    then have s: "cfg s = cfg w" by simp
    show ?case
    proof (rule wp_stmt_keeps [OF inv 4(7)], goal_cases)
      case (1 u r v)
      then show ?case
        using 4 s
        by (cases i) (auto intro: insert_provider_keeps [OF 1(1)] update_provider_row_keeps [OF 1(1)])
    qed (intro quiet_intros)
  qed (auto intro: event_tables.inv_same_data [OF inv])
qed

lemma providers_keep:
  "keeps (events_inv H) (create_payment_provider req pl)" "keeps (events_inv H) (replace_payment_provider req i pl)"
  "keeps (events_inv H) (update_payment_provider req i pp)" "keeps (events_inv H) (delete_payment_provider req i)"
proof -
  have admin: "keeps (events_inv H) (providers_ensure_admin req)"
    by (intro event_tables.keeps_quiet quiet_checks [OF checks_admin])
  show "keeps (events_inv H) (create_payment_provider req pl)" "keeps (events_inv H) (replace_payment_provider req i pl)"
    unfolding create_payment_provider_def replace_payment_provider_def
    by (intro keeps_andthen admin create_or_replace_keeps)+
  show "keeps (events_inv H) (delete_payment_provider req i)"
    unfolding delete_payment_provider_def
    by (intro keeps_andthen admin event_tables.keeps_stmt event_tables.keeps_quiet quiet_intros keeps_return)
      (rule delete_provider_row_keeps)
  show "keeps (events_inv H) (update_payment_provider req i pp)"
  proof (rule keepsI)
    fix w assume inv: "events_inv H w"
    show "wp (update_payment_provider req i pp) (\<lambda>_. events_inv H) (\<lambda>_. events_inv H) w"
      unfolding update_payment_provider_def Let_def
    proof (intro provider_guards [where w = w] same_data_refl, goal_cases)
      case (5 x v1 y v2 z v3 s v4 t v5)
      then have s: "cfg s = cfg w" by simp
      show ?case
      proof (rule wp_stmt_keeps [OF inv 5(9)], goal_cases)
        case (1 u r v)
        have "unwrap_or (clean_payment_value n) old \<noteq> []" if "old \<noteq> []" for n :: "string option" and old
          using that by (auto simp: unwrap_or_def clean_payment_value_def Let_def split: option.split bind_split)
        then show ?case
          using 5 s 1(2)
          by (auto simp: provider_sound_def unwrap_or_def split: option.split intro!: update_provider_row_keeps [OF 1(1,3)])
      qed (intro quiet_intros)
    qed (auto intro: event_tables.inv_same_data [OF inv])
  qed
qed

section \<open>The clean-up\<close>

lemma trash_keeps:
  assumes "events_inv H w"
  shows "events_inv H (w\<lparr>db := trash_events t keep purge (db w)\<rparr>)"
proof -
  define trash :: "event \<Rightarrow> event" where
    "trash e = e\<lparr>e_deleted_at := Some t, e_purge_at := Some (t + days purge), e_deletion_reason := Some ''retention''\<rparr>" for e
  have "event_sound (cfg w) (trash e)" if "event_sound (cfg w) e" for e
  proof -
    have "sync_event_instants (cfg w) (trash e) = trash e"
      using that unfolding event_sound_def sync_fixed
      by (simp add: sync_event_instants_def Let_def trash_def cong: option.case_cong)
    then show ?thesis
      using that by (simp add: event_sound_def trash_def event_checks_def check_purge_state_def cong: option.case_cong)
  qed
  moreover have "provider_known d (trash e) = provider_known d e" for d e
    by (simp add: trash_def provider_known_def)
  moreover have "trash_events t keep purge (db w) = (db w)\<lparr>events := update_where
      (\<lambda>e. e_deleted_at e = None \<and> e_effective_ends_at e < t - days keep) trash (events (db w))\<rparr>"
    by (simp add: trash_events_def trash_def [abs_def])
  moreover have "e_id (trash e) = e_id e" "e_moderation_hidden (trash e) = e_moderation_hidden e" for e by (simp_all add: trash_def)
  ultimately show ?thesis
    using assms by (auto simp: events_inv_def Let_def)
qed

lemma fewer_events:
  assumes "events_inv H w" and "events (db v) = delete_where gone_ones (events (db w))"
    and "payment_providers (db v) = payment_providers (db w)" and "cfg v = cfg w"
    and "seqs w EventSeq \<le> seqs v EventSeq"
  shows "events_inv H v"
proof -
  have "provider_known (db v) e = provider_known (db w) e" for e by (simp add: provider_known_def assms(3) cong: option.case_cong)
  then show ?thesis using assms by (fastforce simp: events_inv_def Let_def)
qed

lemma cleanup_keeps: "keeps (events_inv H) (cleanup_expired_events keep purge)"
  unfolding cleanup_expired_events_def
proof (intro keeps_andthen event_tables.keeps_execute)
  fix w assume "events_inv H w"
  then show "events_inv H (w\<lparr>db := snd ((), trash_events (clock w) keep purge (db w))\<rparr>)"
    using trash_keeps by simp
  from \<open>events_inv H w\<close> show "events_inv H (w\<lparr>db := snd ((), delete_events
      (\<lambda>e. case e_purge_at e of None \<Rightarrow> False | Some p \<Rightarrow> p \<le> clock w) (db w))\<rparr>)"
    by (rule fewer_events) (simp_all add: delete_events_def Let_def)
qed

section \<open>Moderation\<close>

lemma sync_hidden: "sync_event_instants c (hidden t e) = hidden t e \<longleftrightarrow> sync_event_instants c e = e"
  unfolding sync_fixed by (simp add: sync_event_instants_def Let_def hidden_def cong: option.case_cong)

lemma hide_event_keeps:
  assumes "events_inv H w"
  shows "wp (stmt h (update_event_row ev (\<lambda>_. True) (hidden (clock w)))) (\<lambda>_. events_inv H) (\<lambda>_. events_inv H) w"
proof (rule wp_update_row [where w = w])
  fix old view v assume wr: "written w ev (\<lambda>_. True) (hidden (clock w)) old v"
  then have "event_sound (cfg w) old" using inv_sound [OF assms] by (auto simp: written_def)
  then show "events_inv H v"
    by (intro written_keeps [OF assms wr]) (simp_all only: sync_hidden event_sound_def, simp_all add: hidden_def)
qed (auto intro: event_tables.inv_same_data [OF assms])

lemma moderate_keeps: "keeps (events_inv H) (moderate req p)"
proof -
  have who: "keeps (events_inv H) (ensure_moderator req)"
    unfolding ensure_moderator_def
    by (intro event_tables.keeps_quiet quiet_intros quiet_checks [OF checks_user])
  have same: "keeps (events_inv H) (execute e f)"
    if "\<And>w. events (snd (f w)) = events (db w)" "\<And>w. payment_providers (snd (f w)) = payment_providers (db w)"
    for e and f :: "world \<Rightarrow> 'x \<times> database"
    using that by (intro event_tables.keeps_execute) (auto elim!: events_inv_tables)
  have avatar: "keeps (events_inv H) (hide_avatar t)" for t
    unfolding hide_avatar_def
    by (intro keeps_andthen keeps_return event_tables.keeps_transact_body same
        event_tables.keeps_quiet [OF quiet_some_or] event_tables.keeps_quiet [OF quiet_query]
        event_tables.keeps_quiet [OF quiet_cleanup_avatar]
        grows_andthen grows_execute grows_quiet quiet_some_or quiet_query quiet_return) simp_all
  have "events_inv H v" if "events_inv H w" "insert_term t w = (r, v)" for w t r v
    using that by (auto simp: insert_term_def Let_def elim: events_inv_tables split: if_splits)
  then have "keeps (events_inv H) (stmt h (insert_term t))" for h t
    by (rule event_tables.keeps_stmt)
  then have "wp (moderate_with u p) (\<lambda>_. events_inv H) (\<lambda>_. events_inv H) w" if "events_inv H w" for u w
    unfolding moderate_with_def wp_andthen wp_get_state Let_def wp_if wp_throw
    using that by (auto intro!: hide_event_keeps wp_mono [OF hide_event_keeps] keepsD same keeps_return
        simp: suspend_user_def close_report_def wp_andthen)
  then have "keeps (events_inv H) (moderate_with u p)" for u by (rule keepsI)
  then show ?thesis
    unfolding moderate_def by (intro keeps_andthen keeps_if keeps_return who avatar)
qed

section \<open>The system\<close>

text \<open>The other components take away events, with their accounts, and nothing else.\<close>

inductive event_step :: "world \<Rightarrow> world \<Rightarrow> bool" where
  create: "event_step w (snd (create_event req p w))"
| replace: "event_step w (snd (replace_event req ev p w))"
| update: "event_step w (snd (update_event req ev q w))"
| trash: "event_step w (snd (delete_event req ev w))"
| restore: "event_step w (snd (restore_event req ev w))"
| new_provider: "event_step w (snd (create_payment_provider req pl w))"
| set_provider: "event_step w (snd (replace_payment_provider req i pl w))"
| patch_provider: "event_step w (snd (update_payment_provider req i pp w))"
| drop_provider: "event_step w (snd (delete_payment_provider req i w))"
| clean_up: "event_step w (snd (cleanup_expired_events keep purge w))"
| moderation: "event_step w (snd (moderate req mp w))"
| elsewhere: "events (db v) = delete_where gone_ones (events (db w)) \<Longrightarrow>
    payment_providers (db v) = payment_providers (db w) \<Longrightarrow> cfg v = cfg w \<Longrightarrow>
    seqs w EventSeq \<le> seqs v EventSeq \<Longrightarrow> event_step w v"

definition no_events :: "world \<Rightarrow> bool" where
  "no_events w \<longleftrightarrow> events (db w) = [] \<and> payment_providers (db w) = []"

lemma event_step_keeps: "events_inv H w \<Longrightarrow> event_step w v \<Longrightarrow> events_inv H v"
proof -
  assume "event_step w v" and "events_inv H w"
  then show "events_inv H v"
    by (induction rule: event_step.induct)
      (blast intro: keeps_snd create_event_keeps replace_event_keeps update_event_keeps delete_event_keeps
        restore_event_keeps providers_keep cleanup_keeps moderate_keeps fewer_events)+
qed

interpretation hiding: invariant_system "events_inv H" event_step "events_inv H" for H
  by unfold_locales (assumption, rule event_step_keeps)

interpretation hosting: invariant_system no_events event_step "events_inv {}"
proof
  fix w assume "no_events w"
  then show "events_inv {} w" by (simp add: no_events_def events_inv_def)
qed (rule event_step_keeps)

end
