(* ===== verification/Private_Hosts.thy ===== *)
theory Private_Hosts
  imports Event_Form
begin

text \<open>
  The addresses links may not point to, as networks.  The code compares octets and segments; a
  network is an address and the number of its leading bits that count.
\<close>

unbundle bit_operations_syntax

definition in_network :: "'a::len word \<times> nat \<Rightarrow> 'a word \<Rightarrow> bool" where
  "in_network network a = (case network of (net, len) \<Rightarrow>
     drop_bit (LENGTH('a) - len) a = drop_bit (LENGTH('a) - len) net)"

text \<open>Addresses as numbers, the first part the most significant.\<close>

definition value_v4 :: "8 word list \<Rightarrow> 32 word" where
  "value_v4 a = of_nat (foldl (\<lambda>n x. n * 256 + unat x) 0 a)"

definition value_v6 :: "16 word list \<Rightarrow> 128 word" where
  "value_v6 a = of_nat (foldl (\<lambda>n x. n * 65536 + unat x) 0 a)"

text \<open>
  \<open>10/8\<close>, \<open>172.16/12\<close>, \<open>192.168/16\<close>, \<open>127/8\<close>, \<open>169.254/16\<close>, \<open>0.0.0.0/32\<close> and \<open>100.64/10\<close>;
  \<open>::1/128\<close>, \<open>::/128\<close>, \<open>fc00::/7\<close> and \<open>fe80::/10\<close>.
\<close>

definition private_networks_v4 :: "(32 word \<times> nat) list" where
  "private_networks_v4 = [(0x0A000000, 8), (0xAC100000, 12), (0xC0A80000, 16), (0x7F000000, 8),
     (0xA9FE0000, 16), (0, 32), (0x64400000, 10)]"

definition private_networks_v6 :: "(128 word \<times> nat) list" where
  "private_networks_v6 = [(1, 128), (0, 128), (0xFC00 * 2 ^ 112, 7), (0xFE80 * 2 ^ 112, 10)]"

definition private_v4 :: "32 word \<Rightarrow> bool" where
  "private_v4 a \<longleftrightarrow> list_ex (\<lambda>network. in_network network a) private_networks_v4"

text \<open>The last 32 bits of an address in \<open>::ffff:0:0/96\<close> are an address of the older kind.\<close>

definition private_v6 :: "128 word \<Rightarrow> bool" where
  "private_v6 a \<longleftrightarrow> list_ex (\<lambda>network. in_network network a) private_networks_v6
     \<or> in_network (0xFFFF * 2 ^ 32, 96) a \<and> private_v4 (ucast a)"

lemma unat_drop: "unat (drop_bit k w) = unat w div 2 ^ k"
  by (subst unat_drop_bit_eq) (simp add: drop_bit_eq_div)

lemma drop_bit_iff: "drop_bit k (a :: 'a::len word) = drop_bit k b \<longleftrightarrow> unat a div 2 ^ k = unat b div 2 ^ k"
  by (simp only: word_unat_eq_iff unat_drop)

lemma in_network_nat:
  fixes net :: "'a::len word"
  assumes "n < 2 ^ LENGTH('a)"
  shows "in_network (net, len) (of_nat n) \<longleftrightarrow>
    n div 2 ^ (LENGTH('a) - len) = unat net div 2 ^ (LENGTH('a) - len)"
  using assms by (simp add: in_network_def drop_bit_iff unat_of_nat)

lemma digits: "x < b \<Longrightarrow> p * b + x = n \<longleftrightarrow> p = n div b \<and> x = n mod b" for p x b n :: nat
  by (auto simp: mult.commute)

lemma div_is_1: "0 < k \<Longrightarrow> q div k = Suc 0 \<longleftrightarrow> k \<le> q \<and> q < 2 * k" for q k :: nat
proof -
  assume "0 < k"
  have "q div k = Suc 0 \<longleftrightarrow> 1 \<le> q div k \<and> q div k < 2" by linarith
  also have "\<dots> \<longleftrightarrow> k \<le> q \<and> q < 2 * k"
    using \<open>0 < k\<close> by (simp only: less_eq_div_iff_mult_less_eq div_less_iff_less_mult) simp
  finally show ?thesis .
qed

lemma private_v4_octets:
  fixes p q r s :: nat
  assumes "p < 256" "q < 256" "r < 256" "s < 256"
  shows "private_v4 (of_nat (((p * 256 + q) * 256 + r) * 256 + s)) \<longleftrightarrow>
    p = 10 \<or> p = 172 \<and> 16 \<le> q \<and> q \<le> 31 \<or> p = 192 \<and> q = 168 \<or> p = 127 \<or> p = 169 \<and> q = 254
    \<or> p = 0 \<and> q = 0 \<and> r = 0 \<and> s = 0 \<or> p = 100 \<and> 64 \<le> q \<and> q \<le> 127"
proof -
  define n where "n = ((p * 256 + q) * 256 + r) * 256 + s"
  have "n < 2 ^ LENGTH(32)" using assms by (simp add: n_def)
  note net = in_network_nat [OF this]
  have p: "n div 2 ^ 24 = p" and pq: "n div 2 ^ 16 = p * 256 + q"
    and pq4: "n div 2 ^ 20 = p * 16 + q div 16" and pq2: "n div 2 ^ 22 = p * 4 + q div 64"
    using assms by (simp_all add: n_def)
  have "private_v4 (of_nat n) \<longleftrightarrow> p = 10 \<or> p * 16 + q div 16 = 2753 \<or> p * 256 + q = 49320 \<or> p = 127
      \<or> p * 256 + q = 43518 \<or> n = 0 \<or> p * 4 + q div 64 = 401"
    using p pq pq4 pq2 by (simp add: private_v4_def private_networks_v4_def net)
  moreover have "p * 16 + q div 16 = 2753 \<longleftrightarrow> p = 172 \<and> 16 \<le> q \<and> q \<le> 31"
      "p * 4 + q div 64 = 401 \<longleftrightarrow> p = 100 \<and> 64 \<le> q \<and> q \<le> 127"
      "p * 256 + q = 49320 \<longleftrightarrow> p = 192 \<and> q = 168" "p * 256 + q = 43518 \<longleftrightarrow> p = 169 \<and> q = 254"
    using assms(2) by (auto simp: digits div_is_1)
  moreover have "n = 0 \<longleftrightarrow> p = 0 \<and> q = 0 \<and> r = 0 \<and> s = 0" by (simp add: n_def)
  ultimately show ?thesis by (simp add: n_def)
qed

lemma is_private_v4_iff:
  assumes "length a = 4"
  shows "is_private_v4 a \<longleftrightarrow> private_v4 (value_v4 a)"
proof -
  obtain p q r s where a: "a = [p, q, r, s]"
    using assms by (auto simp: numeral_eq_Suc length_Suc_conv)
  have bounds: "unat x < 256" for x :: "8 word"
  proof -
    have "unat x < 2 ^ LENGTH(8)" by (rule unsigned_less)
    then show ?thesis by simp
  qed
  show ?thesis
    unfolding value_v4_def a
    using private_v4_octets [OF bounds bounds bounds bounds, of p q r s]
    by (simp add: is_private_v4_def octet_def algebra_simps)
qed

section \<open>The newer addresses\<close>

lemma mask_compare:
  fixes x :: "'a::len word"
  shows "x AND (NOT (mask k)) = y AND (NOT (mask k)) \<longleftrightarrow> drop_bit k x = drop_bit k y"
proof
  assume *: "x AND (NOT (mask k)) = y AND (NOT (mask k))"
  show "drop_bit k x = drop_bit k y"
  proof (rule bit_eqI)
    fix n
    from * have "bit (x AND (NOT (mask k))) (k + n) = bit (y AND (NOT (mask k))) (k + n)" by simp
    then show "bit (drop_bit k x) n = bit (drop_bit k y) n"
      by (auto simp: bit_simps dest: bit_imp_le_length)
  qed
next
  assume *: "drop_bit k x = drop_bit k y"
  show "x AND (NOT (mask k)) = y AND (NOT (mask k))"
  proof (rule bit_eqI)
    fix n
    from * have "bit (drop_bit k x) (n - k) = bit (drop_bit k y) (n - k)" by simp
    then show "bit (x AND (NOT (mask k))) n = bit (y AND (NOT (mask k))) n"
      by (auto simp: bit_simps)
  qed
qed

lemma segments_v6:
  fixes a :: "16 word list"
  assumes "length a = 8"
  obtains s0 s1 s2 s3 s4 s5 s6 s7 where "a = [s0, s1, s2, s3, s4, s5, s6, s7]"
  using assms by (auto simp: numeral_eq_Suc length_Suc_conv)

lemma unique_local: "(s :: 16 word) AND 0xfe00 = 0xfc00 \<longleftrightarrow> unat s div 512 = 126"
proof -
  have "(s :: 16 word) AND 0xfe00 = 0xfc00 \<longleftrightarrow> s AND (NOT (mask 9)) = 0xfc00 AND (NOT (mask 9))"
  proof -
    have "(0xfe00 :: 16 word) = NOT (mask 9)" "(0xfc00 :: 16 word) AND (NOT (mask 9)) = 0xfc00" by code_simp+
    then show ?thesis by simp
  qed
  also have "\<dots> \<longleftrightarrow> unat s div 2 ^ 9 = unat (0xfc00 :: 16 word) div 2 ^ 9"
    by (simp only: mask_compare drop_bit_iff)
  finally show ?thesis by simp
qed

lemma link_local: "(s :: 16 word) AND 0xffc0 = 0xfe80 \<longleftrightarrow> unat s div 64 = 1018"
proof -
  have "(s :: 16 word) AND 0xffc0 = 0xfe80 \<longleftrightarrow> s AND (NOT (mask 6)) = 0xfe80 AND (NOT (mask 6))"
  proof -
    have "(0xffc0 :: 16 word) = NOT (mask 6)" "(0xfe80 :: 16 word) AND (NOT (mask 6)) = 0xfe80" by code_simp+
    then show ?thesis by simp
  qed
  also have "\<dots> \<longleftrightarrow> unat s div 2 ^ 6 = unat (0xfe80 :: 16 word) div 2 ^ 6"
    by (simp only: mask_compare drop_bit_iff)
  finally show ?thesis by simp
qed

lemma is_private_v6_iff:
  assumes "length a = 8"
  shows "is_private_v6 a \<longleftrightarrow> private_v6 (value_v6 a)"
proof -
  obtain a0 a1 a2 a3 a4 a5 a6 a7 where a: "a = [a0, a1, a2, a3, a4, a5, a6, a7]"
    using assms by (rule segments_v6)
  have bounds: "unat x < 65536" for x :: "16 word"
  proof -
    have "unat x < 2 ^ LENGTH(16)" by (rule unsigned_less)
    then show ?thesis by simp
  qed
  define h where "h = ((((unat a0 * 65536 + unat a1) * 65536 + unat a2) * 65536 + unat a3) * 65536 + unat a4) * 65536 + unat a5"
  define l where "l = unat a6 * 65536 + unat a7"
  define n where "n = h * 2 ^ 32 + l"
  have value_nat: "value_v6 a = of_nat n" by (simp add: value_v6_def a n_def h_def l_def algebra_simps)
  have l: "l < 2 ^ 32" using bounds [of a6] bounds [of a7] by (simp add: l_def)
  have h96: "h < 2 ^ 96"
    using bounds [of a0] bounds [of a1] bounds [of a2] bounds [of a3] bounds [of a4] bounds [of a5] by (simp add: h_def)
  have n: "n < 2 ^ LENGTH(128)" using l h96 by (simp add: n_def)
  note net = in_network_nat [OF n]
  have low: "n div 2 ^ 32 = h" "n mod 2 ^ 32 = l" using l by (simp_all add: n_def)
  have top: "n div 2 ^ 112 = unat a0"
  proof -
    have "n div 2 ^ 112 = n div 2 ^ 32 div 2 ^ 80" by (simp add: div_mult2_eq [symmetric])
    also have "\<dots> = unat a0"
      unfolding low using bounds [of a1] bounds [of a2] bounds [of a3] bounds [of a4] bounds [of a5] by (simp add: h_def)
    finally show ?thesis .
  qed
  have "n div 2 ^ 121 = n div 2 ^ 112 div 512" "n div 2 ^ 118 = n div 2 ^ 112 div 64"
    by (simp_all add: div_mult2_eq [symmetric])
  then have tops: "n div 2 ^ 121 = unat a0 div 512" "n div 2 ^ 118 = unat a0 div 64" by (simp_all only: top)
  have zero: "x = 0 \<longleftrightarrow> unat x = 0" for x :: "16 word" by (simp add: unat_eq_0)
  have one: "x = 1 \<longleftrightarrow> unat x = 1" for x :: "16 word" by (simp add: word_unat_eq_iff)
  have ffff: "x = 0xffff \<longleftrightarrow> unat x = 65535" for x :: "16 word" by (simp add: word_unat_eq_iff)
  have mapped: "h = 65535 \<longleftrightarrow> a0 = 0 \<and> a1 = 0 \<and> a2 = 0 \<and> a3 = 0 \<and> a4 = 0 \<and> a5 = 0xffff"
    unfolding h_def by (simp only: digits [OF bounds] zero ffff) auto
  have "ucast (of_nat n :: 128 word) = (of_nat l :: 32 word)"
    by (simp add: unsigned_of_nat low(2) [symmetric] take_bit_eq_mod)
      (simp add: word_unat_eq_iff unat_of_nat mod_mod_cancel)
  moreover have v4: "private_v4 (of_nat l :: 32 word) \<longleftrightarrow>
      is_private_v4 [ucast (drop_bit 8 a6), ucast a6, ucast (drop_bit 8 a7), ucast a7]"
  proof -
    have "unat (ucast (drop_bit 8 x) :: 8 word) = unat x div 256" "unat (ucast x :: 8 word) = unat x mod 256" for x :: "16 word"
      using bounds [of x] by (simp_all add: unsigned_ucast_eq unat_drop take_bit_eq_mod)
    then have "value_v4 [ucast (drop_bit 8 a6), ucast a6, ucast (drop_bit 8 a7), ucast a7] = of_nat l"
      by (simp add: value_v4_def l_def) 
    then show ?thesis by (simp add: is_private_v4_iff)
  qed
  ultimately have inner: "private_v4 (ucast (of_nat n :: 128 word)) \<longleftrightarrow>
      is_private_v4 [ucast (drop_bit 8 a6), ucast a6, ucast (drop_bit 8 a7), ucast a7]" by simp
  have small: "n = k \<longleftrightarrow> a0 = 0 \<and> a1 = 0 \<and> a2 = 0 \<and> a3 = 0 \<and> a4 = 0 \<and> a5 = 0 \<and> a6 = 0 \<and> unat a7 = k" if "k < 65536" for k
    unfolding n_def digits [OF l] unfolding h_def l_def using that by (simp only: digits [OF bounds] zero) auto
  have "private_v6 (of_nat n) \<longleftrightarrow> n = 1 \<or> n = 0 \<or> unat a0 div 512 = 126 \<or> unat a0 div 64 = 1018
      \<or> h = 65535 \<and> private_v4 (ucast (of_nat n :: 128 word))"
    using tops low(1) by (simp add: private_v6_def private_networks_v6_def net)
  then show ?thesis
    unfolding value_nat
    by (auto simp: small inner mapped is_private_v6_def a segment_def to_ipv4_mapped_def unique_local link_local
        one upt_rec unat_eq_0)
qed

text \<open>
  C34. The filter for links compares octets and segments, and is membership in networks: an address is
  refused exactly when it lies in one of the private, loopback, link-local or shared ranges, an IPv4
  address mapped into IPv6 when the inner address does.
\<close>

theorem private_hosts_are_networks:
  assumes "case ip of V4 a \<Rightarrow> length a = 4 | V6 a \<Rightarrow> length a = 8"
  shows "is_private_or_local ip \<longleftrightarrow>
    (case ip of V4 a \<Rightarrow> private_v4 (value_v4 a) | V6 a \<Rightarrow> private_v6 (value_v6 a))"
  using assms
  by (cases ip) (simp_all add: is_private_or_local_def is_private_v4_iff is_private_v6_iff)

lemma private_hosts_are_networks_witness:
  "is_private_or_local (V6 [0, 0, 0, 0, 0, 0xffff, 0xc0a8, 0x0101])
     \<and> private_v6 (value_v6 [0, 0, 0, 0, 0, 0xffff, 0xc0a8, 0x0101])
     \<and> \<not> private_v4 (value_v4 [172, 32, 0, 1])"
proof -
  have "is_private_or_local (V6 [0, 0, 0, 0, 0, 0xffff, 0xc0a8, 0x0101])" by code_simp
  moreover have "\<not> is_private_or_local (V4 [172, 32, 0, 1])" by code_simp
  ultimately show ?thesis
    using private_hosts_are_networks [of "V6 [0, 0, 0, 0, 0, 0xffff, 0xc0a8, 0x0101]"]
      private_hosts_are_networks [of "V4 [172, 32, 0, 1]"] by simp
qed

end
