(* ===== verification/Event_Properties.thy ===== *)
theory Event_Properties
  imports Event_Invariant Private_Hosts Example
begin

text \<open>
  What holds of events: the rules every stored event keeps, what creating, changing, trashing and
  restoring do, and that moderation is final.
\<close>

section \<open>A concrete event\<close>

definition empty_world :: world where
  "empty_world = (example_world (example_db\<lparr>events := [], invitations := []\<rparr>))
     \<lparr>cfg := example_config\<lparr>admin_emails := [''bob@x'']\<rparr>\<rparr>"

definition picnic :: event_payload where
  "picnic = \<lparr>epl_name = '' picnic '', epl_description = ''outside'', epl_date_event = 3, epl_start_time = 1000,
     epl_end_date = None, epl_end_time = None, epl_timezone = None, epl_invitation_deadline = Some 2,
     epl_address = ''park'', epl_latitude = None, epl_longitude = None, epl_payment_provider_id = None,
     epl_payment_identifier = None, epl_payment_requested_amount = None, epl_payment_per_person = None,
     epl_playlist_url = Some ''https://open.spotify.com/p'', epl_playlist_provider = Some ''spotify'',
     epl_enabled_features = Some [''polls'']\<rparr>"

definition picnic_world :: world where
  "picnic_world = snd (create_event (session_of ''ada'') picnic empty_world)"

lemma picnic_reachable: "reachable no_events event_step picnic_world"
proof -
  have "no_events empty_world" by (simp add: no_events_def empty_world_def example_db_def)
  then show ?thesis
    unfolding picnic_world_def by (blast intro: reachable.start reachable.next_step event_step.create)
qed

lemma picnic_inv: "events_inv {} picnic_world"
  by (rule hosting.reachable_inv [OF picnic_reachable])

lemma picnic_ids: "map e_id (events (db picnic_world)) = [101]"
  by code_simp

section \<open>The rules\<close>

text \<open>
  C32. Whatever requests are made and whichever statements fail: every stored event keeps the constraints
  of its table, names an existing provider if it names one, stores the instants of its local times,
  enables the playlist and the payment only when it has one, and links to public hosts only; every
  stored payment provider has a name of its own, a template with the placeholder and an expression
  that compiles, so reading it for an event never fails.
\<close>

theorem events_stay_sound:
  assumes "reachable no_events event_step w"
  shows "distinct (map e_id (events (db w)))
     \<and> (\<forall>e \<in> set (events (db w)). event_sound (cfg w) e \<and> provider_known (db w) e)
     \<and> distinct (map pp_name (payment_providers (db w)))
     \<and> (\<forall>p \<in> set (payment_providers (db w)). provider_sound (cfg w) p)
     \<and> (faults w = [] \<longrightarrow> fst (fetch_provider_validation i w) \<noteq> Inl db_error)"
proof -
  have inv: "events_inv {} w" by (rule hosting.reachable_inv [OF assms])
  then have sound: "\<forall>p \<in> set (payment_providers (db w)). provider_sound (cfg w) p"
    by (simp add: events_inv_def Let_def)
  have "wp (fetch_provider_validation i) (\<lambda>_ _. True) (\<lambda>e _. e \<noteq> db_error) w" if "faults w = []"
    using that sound
    by (auto simp: fetch_provider_validation_def wp_simps provider_sound_def compiles_def db_error_def
        split: option.split dest!: find_SomeD)
  then show ?thesis
    using inv by (auto simp: events_inv_def Let_def wp_def split: prod.splits sum.splits)
qed

lemma events_stay_sound_witness:
  "map (\<lambda>e. ef_enabled_features (e_form e)) (events (db picnic_world)) = [[''polls'']]
     \<and> list_all (event_sound (cfg picnic_world)) (events (db picnic_world))"
proof -
  have "map (\<lambda>e. ef_enabled_features (e_form e)) (events (db picnic_world)) = [[''polls'']]"
    by code_simp
  then show ?thesis using events_stay_sound [OF picnic_reachable] by (auto simp: list_all_iff)
qed

text \<open>
  C33. What moderation hides stays hidden: once an event is hidden, no sequence of requests, by its
  organiser, by administrators or by the clean-up, makes it live again or takes the mark away, and its
  identifier is not used for another event.
\<close>

theorem moderation_is_final:
  assumes "events_inv {} w" and "h \<in> set (events (db w))" and "e_moderation_hidden h"
    and "event_step\<^sup>*\<^sup>* w v"
  shows "live_event (db v) (e_id h) = None
     \<and> (\<forall>e \<in> set (events (db v)). e_id e = e_id h \<longrightarrow> e_moderation_hidden e \<and> e_deleted_at e \<noteq> None)"
proof -
  have "e = h" if "e \<in> set (events (db w))" "e_id e = e_id h" for e
    using assms(1,2) that by (auto simp: events_inv_def Let_def dest: distinct_map_inj)
  then have "events_inv {e_id h} w"
    using assms(1-3) by (auto simp: events_inv_def Let_def)
  then have inv: "events_inv {e_id h} v"
    by (rule hiding.steps_inv [OF assms(4)])
  then have "\<forall>e \<in> set (events (db v)). e_id e = e_id h \<longrightarrow> e_moderation_hidden e \<and> e_deleted_at e \<noteq> None"
    by (auto simp: events_inv_def Let_def event_sound_def)
  then show ?thesis
    by (auto simp: live_event_def find_None_iff)
qed

definition moderated_world :: world where
  "moderated_world = snd (moderate (session_of ''bob'')
     \<lparr>mo_action = ''hide_event'', mo_public_id = None, mo_event_id = Some 101, mo_term = None\<rparr> picnic_world)"

lemma moderated_inv: "events_inv {} moderated_world"
  unfolding moderated_world_def by (rule event_step_keeps [OF picnic_inv]) (rule event_step.moderation)

lemma moderation_is_final_witness:
  "live_event (db (snd (restore_event (session_of ''ada'') 101 moderated_world))) 101 = None"
proof -
  have "map (\<lambda>e. (e_id e, e_moderation_hidden e)) (events (db moderated_world)) = [(101, True)]" by code_simp
  then obtain h where "h \<in> set (events (db moderated_world))" "e_id h = 101" "e_moderation_hidden h" by auto
  moreover have "event_step\<^sup>*\<^sup>* moderated_world (snd (restore_event (session_of ''ada'') 101 moderated_world))"
    by (blast intro: event_step.restore)
  ultimately show ?thesis using moderation_is_final [OF moderated_inv] by metis
qed

section \<open>Creating and changing\<close>


text \<open>
  C35. Creating an event stores one new row with an identifier of its own, owned by the account of the
  session, live, with the given fields, texts trimmed and not empty, a form that keeps the rules, no
  moderated word and a deadline between today and the day of the event; everything else stays as it
  is, and a refused request changes nothing.
\<close>

theorem creating_stores_one_event:
  "wp (create_event req p)
     (\<lambda>a v. ans_status a = 201 \<and> (let e = evw_event (ans_body a) in
        db v = (db w)\<lparr>events := events (db w) @ [e]\<rparr> \<and> e_id e \<notin> e_id ` set (events (db w))
        \<and> requester w req (e_owner_id e) \<and> e_deleted_at e = None
        \<and> e_name e = trim (epl_name p) \<and> e_name e \<noteq> [] \<and> form_of_payload p (e_form e)
        \<and> form_sound (cfg w) (e_form e) \<and> event_checks e \<and> \<not> content_not_allowed w (event_text e)
        \<and> e_invitation_deadline e = epl_invitation_deadline p
        \<and> deadline_sound w (epl_invitation_deadline p) (epl_date_event p)))
     (\<lambda>_ v. db v = db w) w"
proof (rule wp_mono [OF create_event_spec], goal_cases)
  case (1 a v)
  then obtain u f e where e: "requester w req u" "texts_filled p" "form_sound (cfg w) f" "form_of_payload p f"
    "deadline_sound w (epl_invitation_deadline p) (epl_date_event p)"
    "e = sync_event_instants (cfg w) (new_event p f u (seqs w EventSeq + 1))" "event_checks e"
    "\<not> content_not_allowed w (event_text e)" "\<forall>r \<in> set (events (db w)). e_id r \<noteq> e_id e"
    "evw_event (ans_body a) = e" "db v = (db w)\<lparr>events := events (db w) @ [e]\<rparr>" by blast
  have "e_owner_id e = u" "e_deleted_at e = None" "e_name e = trim (epl_name p)" "e_form e = f"
    "e_invitation_deadline e = epl_invitation_deadline p" "trim (epl_name p) \<noteq> []"
    using e(2) by (simp_all add: e(6) new_event_def texts_filled_def)
      (simp add: sync_event_instants_def Let_def)
  then show ?case using 1 e by (auto simp: Let_def)
qed simp


section \<open>The trash\<close>

lemma written_events:
  "written w ev hit f old v \<Longrightarrow> events (db v) = update_where (\<lambda>e. e_id e = ev \<and> hit e) f (events (db w))"
  by (auto simp: written_def dest: only_outbox_tables(2))

lemma event_checks_live: "event_checks e \<Longrightarrow> e_deleted_at e = None \<Longrightarrow> e_purge_at e = None \<and> e_deletion_reason e = None"
  by (auto simp: event_checks_def check_purge_state_def)

text \<open>
  C37. Putting an event into the trash and taking it out again gives back the event as it was, and every
  other one too: in between it is not live, is purged 30 days later at the earliest, and nothing but its
  deletion columns differs.  Both are for the organiser; an administrator can only trash.
\<close>

theorem trash_and_restore:
  assumes "events_inv {} w" and "delete_event req ev w = (Inr a, v)"
    and "events (db u) = events (db v)" and "restore_event req' ev u = (Inr b, x)"
  shows "events (db x) = events (db w) \<and> live_event (db v) ev = None
     \<and> (\<exists>old. find (\<lambda>e. e_id e = ev) (events (db w)) = Some old
          \<and> find (\<lambda>e. e_id e = ev) (events (db v)) = Some (trashed (clock w) old))
     \<and> (\<exists>i. requester u req' i \<and> owns w ev i)"
proof -
  have ids: "distinct (map e_id (events (db w)))" using assms(1) by (simp add: events_inv_def Let_def)
  obtain old where wr: "written w ev (\<lambda>e. e_deleted_at e = None) (trashed (clock w)) old v"
    using wp_Inr [OF delete_event_spec assms(2)] by blast
  have find: "find (\<lambda>e. e_id e = ev \<and> e_deleted_at e = None) (events (db w)) = Some old" using wr by (simp add: written_def)
  note old = find_keyed [OF ids find]
  have v: "events (db v) = update_where (\<lambda>e. e = old) (trashed (clock w)) (events (db w))"
    using written_events [OF wr] unfolding old(1) .
  have key: "e_id (trashed t e) = e_id e" for t e by (simp add: trashed_def)
  have ids_v: "distinct (map e_id (events (db v)))" using ids by (simp add: v key)
  obtain i old' where req: "requester u req' i"
    and wr': "written u ev (\<lambda>e. e_owner_id e = i \<and> e_deleted_at e \<noteq> None) untrashed old' x"
    using wp_Inr [OF restore_event_spec assms(4)] by blast
  have find': "find (\<lambda>e. e_id e = ev \<and> (e_owner_id e = i \<and> e_deleted_at e \<noteq> None)) (events (db v)) = Some old'"
    using wr' assms(3) by (simp add: written_def)
  note old' = find_keyed [OF ids_v find']
  have x: "events (db x) = update_where (\<lambda>e. e = old') untrashed (events (db v))"
    using written_events [OF wr'] unfolding assms(3) old'(1) .
  have row: "trashed (clock w) old \<in> set (events (db v))" using old(2) by (auto simp: v)
  then have old'_eq: "old' = trashed (clock w) old"
    using distinct_map_inj [OF ids_v old'(2) row] old(3) old'(3) by (simp add: key)
  have dead: "e_deleted_at old = None" using find_SomeD [OF find] by simp
  have "event_checks old" using assms(1) old(2) by (simp add: events_inv_def Let_def event_sound_def)
  then have undone: "untrashed (trashed (clock w) old) = old"
    using event_checks_live dead by (simp add: untrashed_def trashed_def)
  have same: "e \<noteq> trashed (clock w) old" if "e \<in> set (events (db w))" "e \<noteq> old" for e
    using distinct_map_inj [OF ids that(1) old(2)] that(2) by (metis key)
  have "events (db x) = map (\<lambda>e. if e = old then untrashed (trashed (clock w) old) else e) (events (db w))"
    unfolding x v old'_eq update_where_def map_map using same by (intro map_cong) (auto simp: comp_def)
  then have "events (db x) = events (db w)" unfolding undone by simp
  moreover have found: "find (\<lambda>e. e_id e = ev) (events (db v)) = Some (trashed (clock w) old)"
    using find_Some_iff_key [OF ids_v] row old(3) by (simp add: key)
  moreover have "live_event (db v) ev = None"
  proof -
    have "\<not> (e_id e = ev \<and> e_deleted_at e = None)" if "e \<in> set (events (db v))" for e
      using distinct_map_inj [OF ids_v that row] old(3) by (auto simp: key) (simp add: trashed_def)
    then show ?thesis by (auto simp: live_event_def find_None_iff)
  qed
  moreover have "find (\<lambda>e. e_id e = ev) (events (db w)) = Some old"
    using find_Some_iff_key [OF ids] old(2,3) by simp
  moreover have "owns w ev i"
  proof -
    have "e_owner_id old = i" using find_SomeD [OF find'] by (simp add: old'_eq trashed_def)
    moreover have "live_event (db w) ev = Some old" using find by (simp add: live_event_def)
    ultimately show ?thesis by (simp add: owns_def)
  qed
  ultimately show ?thesis using req by blast
qed

lemma trash_and_restore_witness:
  "let v = snd (delete_event (session_of ''ada'') 101 picnic_world);
       x = snd (restore_event (session_of ''ada'') 101 v) in
     map e_deleted_at (events (db v)) = [Some 500] \<and> events (db x) = events (db picnic_world)"
proof -
  obtain a v where d: "delete_event (session_of ''ada'') 101 picnic_world = (a, v)" by force
  obtain b x where r: "restore_event (session_of ''ada'') 101 v = (b, x)" by force
  have "map e_deleted_at (events (db (snd (delete_event (session_of ''ada'') 101 picnic_world)))) = [Some 500]"
    "isl (fst (delete_event (session_of ''ada'') 101 picnic_world)) = False"
    "isl (fst (restore_event (session_of ''ada'') 101 (snd (delete_event (session_of ''ada'') 101 picnic_world)))) = False"
    by code_simp+
  then have "map e_deleted_at (events (db v)) = [Some 500]" "\<exists>y. a = Inr y" "\<exists>z. b = Inr z"
    using d r by (cases a; cases b; simp)+
  then show ?thesis
    using trash_and_restore [OF picnic_inv _ refl, of "session_of ''ada''" 101 _ v "session_of ''ada''" _ x] d r by auto
qed

section \<open>What may surprise\<close>

definition no_change :: event_patch where
  "no_change = \<lparr>ep_name = None, ep_description = None, ep_date_event = None, ep_start_time = None, ep_timezone = None,
     ep_end_date = None, ep_end_time = None, ep_invitation_deadline = None, ep_address = None, ep_latitude = None,
     ep_longitude = None, ep_payment_provider_id = None, ep_payment_identifier = None,
     ep_payment_requested_amount = None, ep_payment_per_person = None, ep_playlist_url = None,
     ep_playlist_provider = None, ep_enabled_features = None\<rparr>"

text \<open>
  A new name switches the playlist on that the organiser had left out of the features; and once the
  deadline for answers is over, no field can be changed without moving the deadline.
\<close>

lemma a_new_name_enables_the_playlist:
  "map (\<lambda>e. ef_enabled_features (e_form e)) (events (db picnic_world)) = [[''polls'']]"
  "map (\<lambda>e. (e_name e, ef_enabled_features (e_form e))) (events (db (snd (update_event (session_of ''ada'') 101
     (no_change\<lparr>ep_name := Some ''lunch''\<rparr>) picnic_world)))) = [(''lunch'', [''polls'', ''playlist''])]"
  by code_simp+

lemma nothing_changes_after_the_deadline:
  "let w = picnic_world\<lparr>clock := days 3\<rparr> in writable w 101
     \<and> fst (update_event (session_of ''ada'') 101 (no_change\<lparr>ep_address := Some ''lake''\<rparr>) w)
       = Inl (bad_request ''invalid_invitation_deadline'')"
proof -
  have "map (\<lambda>e. (e_id e, e_deleted_at e, days 3 < e_starts_at e)) (events (db picnic_world)) = [(101, None, True)]"
    by code_simp
  then have "writable (picnic_world\<lparr>clock := days 3\<rparr>) 101" by (auto simp: writable_def live_event_def map_eq_Cons_conv)
  moreover have "fst (update_event (session_of ''ada'') 101 (no_change\<lparr>ep_address := Some ''lake''\<rparr>) (picnic_world\<lparr>clock := days 3\<rparr>))
      = Inl (bad_request ''invalid_invitation_deadline'')"
    by code_simp
  ultimately show ?thesis by (simp add: Let_def)
qed

section \<open>Payment providers\<close>

lemma delete_provider_row_Inr:
  assumes "delete_provider_row i w = (Inr n, x)"
  shows "n = count_where (\<lambda>p. pp_id p = i) (payment_providers (db w))"
    and "db x = (db w)\<lparr>payment_providers := delete_where (\<lambda>p. pp_id p = i) (payment_providers (db w)),
          events := (if exists_where (\<lambda>p. pp_id p = i) (payment_providers (db w))
            then update_where (names_provider i) without_provider (events (db w)) else events (db w))\<rparr>"
    and "\<lbrakk>exists_where (\<lambda>p. pp_id p = i) (payment_providers (db w)); e \<in> set (events (db w)); names_provider i e\<rbrakk>
          \<Longrightarrow> event_checks (without_provider e)"
proof -
  let ?hit = "\<lambda>p. pp_id p = i" and ?ps = "payment_providers (db w)"
  let ?bad = "exists_where (\<lambda>e. names_provider i e \<and> exists_where ?hit ?ps
        \<and> (e_moderation_hidden e \<and> e_deleted_at e = None \<or> \<not> event_checks (without_provider e))) (events (db w))"
  have row: "(if ?bad then (Inl CheckViolation, w) else (Inr (count_where ?hit ?ps),
        w\<lparr>db := (db w)\<lparr>payment_providers := delete_where ?hit ?ps,
          events := (if exists_where ?hit ?ps then update_where (names_provider i) without_provider (events (db w))
            else events (db w))\<rparr>\<rparr>)) = (Inr n, x)"
    using assms unfolding delete_provider_row_def Let_def .
  have ok: "\<not> ?bad"
  proof
    assume ?bad
    then show False using row by (simp only: if_P prod.inject sum.distinct HOL.simp_thms)
  qed
  have x: "n = count_where ?hit ?ps \<and> x = w\<lparr>db := (db w)\<lparr>payment_providers := delete_where ?hit ?ps,
          events := (if exists_where ?hit ?ps then update_where (names_provider i) without_provider (events (db w))
            else events (db w))\<rparr>\<rparr>"
    using row unfolding if_not_P [OF ok] by blast
  show "n = count_where (\<lambda>p. pp_id p = i) (payment_providers (db w))" using x by blast
  show "db x = (db w)\<lparr>payment_providers := delete_where (\<lambda>p. pp_id p = i) (payment_providers (db w)),
          events := (if exists_where (\<lambda>p. pp_id p = i) (payment_providers (db w))
            then update_where (names_provider i) without_provider (events (db w)) else events (db w))\<rparr>"
    using x by simp
  show "\<lbrakk>exists_where (\<lambda>p. pp_id p = i) (payment_providers (db w)); e \<in> set (events (db w)); names_provider i e\<rbrakk>
      \<Longrightarrow> event_checks (without_provider e)"
    using ok by simp
qed

text \<open>
  A payment provider is deleted by an administrator, only when no event that names it keeps a payment
  link; its events then name no provider, and nothing else changes.  A refused deletion changes nothing.
\<close>

theorem deleting_a_provider_spares_its_links:
  "wp (delete_payment_provider req i)
     (\<lambda>a v. administers w req \<and> i \<in> pp_id ` set (payment_providers (db w))
        \<and> i \<notin> pp_id ` set (payment_providers (db v))
        \<and> Some i \<notin> (ef_payment_provider_id \<circ> e_form) ` set (events (db v))
        \<and> (\<forall>e \<in> set (events (db w)). names_provider i e \<longrightarrow> ef_payment_identifier (e_form e) = None)
        \<and> db v = (db w)\<lparr>payment_providers := delete_where (\<lambda>p. pp_id p = i) (payment_providers (db w)),
            events := update_where (names_provider i) without_provider (events (db w))\<rparr>)
     (\<lambda>_ v. db v = db w) w"
proof -
  have admin: "checks (providers_ensure_admin req) (\<lambda>w _. administers w req)"
  proof (rule checksI)
    show "stable (\<lambda>w (x :: unit). administers w req)"
      by (simp add: stable_def administers_def live_session_same_data) (simp add: same_data_def)
    show "wp (providers_ensure_admin req) (\<lambda>x v. same_data w v \<and> administers w req) (\<lambda>_. same_data w) w" for w
      unfolding providers_ensure_admin_def
      by (rule wp_checked [OF checks_session same_data_refl])
        (auto simp: wp_simps administers_def same_data_def)
  qed
  show ?thesis
    unfolding delete_payment_provider_def
  proof (rule wp_checked [OF admin same_data_refl], goal_cases)
    case (1 u v)
    have db: "db v = db w" using 1 by (simp add: same_data_def)
    let ?hit = "\<lambda>p. pp_id p = i"
    show ?case
      unfolding wp_andthen [of "stmt _ _"]
    proof (rule wp_stmtI, goal_cases)
      case (1 n x)
      have dv: "db (tick v) = db w" using db by simp
      note row = delete_provider_row_Inr [OF 1, unfolded dv]
      note n = row(1) and x = row(2) and ok = row(3)
      show ?case
      proof (cases "n = 0")
        case True
        then have none: "\<not> exists_where ?hit (payment_providers (db w))" using n by (simp add: count_where_eq_0)
        then have "db x = db w" using x delete_where_none [of "payment_providers (db w)" ?hit] by simp
        then show ?thesis using True by (simp add: wp_simps)
      next
        case False
        then have some: "exists_where ?hit (payment_providers (db w))" using n by (auto simp: count_where_eq_0)
        have "ef_payment_identifier (e_form e) = None" if "e \<in> set (events (db w))" "names_provider i e" for e
          using ok [OF some that] by (simp add: event_checks_def check_payment_info_def without_provider_def)
        moreover have "Some i \<notin> (ef_payment_provider_id \<circ> e_form) ` set (events (db x))"
          using some by (auto simp: x names_provider_def without_provider_def)
        ultimately show ?thesis
          using False some x \<open>administers w req\<close> by (auto simp: wp_simps)
      qed
    next
      case (2 e x)
      then show ?case by (auto simp: delete_provider_row_def Let_def db split: if_splits)
    qed (simp add: db)
  qed (simp add: same_data_def)
qed

definition tip :: provider_payload where
  "tip = \<lparr>ppl_provider_name = ''tip'', ppl_url_template = ''https://tip.me/{identifier}'',
     ppl_validation_regex = Some ''x'', ppl_is_active = Some True\<rparr>"

definition provider_world :: "string option \<Rightarrow> world" where
  "provider_world identifier = snd (create_event (session_of ''ada'')
     (picnic\<lparr>epl_payment_provider_id := Some 101, epl_payment_identifier := identifier\<rparr>)
     (snd (create_payment_provider (session_of ''bob'') tip empty_world)))"

lemma deleting_a_provider_spares_its_links_witness:
  "map (\<lambda>e. ef_payment_provider_id (e_form e)) (events (db (provider_world None))) = [Some 101]
     \<and> 101 \<notin> pp_id ` set (payment_providers (db (snd (delete_payment_provider (session_of ''bob'') 101 (provider_world None)))))"
proof
  show "map (\<lambda>e. ef_payment_provider_id (e_form e)) (events (db (provider_world None))) = [Some 101]"
    by code_simp
  have "succeeds (delete_payment_provider (session_of ''bob'') 101) (provider_world None)"
    by code_simp
  then show "101 \<notin> pp_id ` set (payment_providers (db (snd (delete_payment_provider (session_of ''bob'') 101 (provider_world None)))))"
    using wp_succeeds [OF deleting_a_provider_spares_its_links] by blast
qed

lemma a_used_link_breaks_the_deletion:
  "fst (delete_payment_provider (session_of ''bob'') 101 (provider_world (Some ''ada''))) = Inl db_error"
  by code_simp

end
