(* ===== verification/Profile.thy ===== *)
theory Profile
  imports Handles Avatars
begin

text \<open>
  A user's handle and avatar (\<open>src/routes/users.rs\<close>; deleting the account is in \<open>Account\<close>).  The
  upload is the first field of the form, read in chunks; the name drawn for the file is an argument.
  The time the token of the request expires, which the answer repeats, is left out of it.
\<close>

record me_response =
  me_public_id :: uuid
  me_email :: string
  me_handle :: string
  me_avatar_url :: "string option"

definition me_of :: "user \<Rightarrow> me_response" where
  "me_of u = \<lparr>me_public_id = u_public_id u, me_email = u_email u, me_handle = u_handle u, me_avatar_url = u_avatar_url u\<rparr>"

section \<open>Handles\<close>

definition check_handle_availability :: "string \<Rightarrow> bool answer act" where
  "check_handle_availability handle =
     andthen get_state (\<lambda>w. let candidate = normalize_handle (cfg w) handle in
     andthen (require (is_valid_handle candidate) (bad_request ''invalid_handle'')) (\<lambda>_.
     andthen (handle_available candidate) (\<lambda>available.
     return (Answer 200 available))))"

text \<open>The unique index is on \<open>lower(handle)\<close>; the filter looks at a handle that changes.\<close>

definition update_user_handle :: "string \<Rightarrow> string \<Rightarrow> world \<Rightarrow> (sql_error + user option) \<times> world" where
  "update_user_handle email handle w =
     (let d = db w in
      case user_by_email w email of
        None \<Rightarrow> (Inr None, w)
      | Some u \<Rightarrow>
          if u_handle u \<noteq> handle \<and> content_not_allowed w [handle] then (Inl CheckViolation, w)
          else if exists_where (\<lambda>r. u_id r \<noteq> u_id u \<and> sql_lower (cfg w) (u_handle r) = sql_lower (cfg w) handle) (users d)
          then (Inl UniqueViolation, w)
          else (Inr (Some (u\<lparr>u_handle := handle\<rparr>)), w\<lparr>db := d\<lparr>users :=
            update_where (\<lambda>r. u_id r = u_id u) (\<lambda>r. r\<lparr>u_handle := handle\<rparr>) (users d)\<rparr>\<rparr>))"

definition handle_error :: "sql_error \<Rightarrow> api_error" where
  "handle_error e = (if e = UniqueViolation then conflict ''handle_taken'' else db_error)"

definition update_handle :: "request \<Rightarrow> string \<Rightarrow> me_response answer act" where
  "update_handle req handle =
     andthen (extract_active_claims_from_auth req) (\<lambda>claims.
     andthen get_state (\<lambda>w. let candidate = normalize_handle (cfg w) handle in
     andthen (require (is_valid_handle candidate) (bad_request ''invalid_handle'')) (\<lambda>_.
     andthen (stmt handle_error (update_user_handle (u_email claims) candidate)) (\<lambda>row.
     andthen (some_or row (unauthorized ''user_not_found'')) (\<lambda>u.
     return (Answer 200 (me_of u)))))))"

section \<open>Avatars\<close>

datatype multipart = NoField | BadField | Field "string option list"

definition max_avatar_bytes :: nat where
  "max_avatar_bytes = 8 * 1024 * 1024"

text \<open>The loop over the chunks; a chunk \<open>None\<close> is one that could not be read.\<close>

fun read_chunks :: "string \<Rightarrow> string option list \<Rightarrow> api_error + string" where
  "read_chunks bytes [] = Inr bytes"
| "read_chunks bytes (None # cs) = Inl (bad_request ''invalid_upload'')"
| "read_chunks bytes (Some chunk # cs) =
     (if length bytes + length chunk > max_avatar_bytes then Inl (ApiError 413 ''file_too_large'')
      else read_chunks (bytes @ chunk) cs)"

definition read_upload :: "multipart \<Rightarrow> api_error + string" where
  "read_upload payload =
     (case payload of
        NoField \<Rightarrow> Inr []
      | BadField \<Rightarrow> Inl (bad_request ''invalid_upload'')
      | Field chunks \<Rightarrow> read_chunks [] chunks)"

definition encode_avatar :: "config \<Rightarrow> string \<Rightarrow> api_error + string" where
  "encode_avatar c bytes =
     (case process_avatar c bytes of
        Inr encoded \<Rightarrow> Inr encoded
      | Inl InvalidImage \<Rightarrow> Inl (bad_request ''invalid_image'')
      | Inl EncodeFailed \<Rightarrow> Inl (ApiError 500 ''encode_error''))"

text \<open>Making the directory and writing the file; either may fail.\<close>

definition write_avatar_file :: "string \<Rightarrow> unit act" where
  "write_avatar_file filename = (\<lambda>w.
     if fault w then (Inl (ApiError 500 ''storage_error''), tick w)
     else if fault (tick w) then (Inl (ApiError 500 ''storage_error''), tick (tick w))
     else (Inr (), (tick (tick w))\<lparr>avatar_files := avatar_files w @ [filename]\<rparr>))"

definition set_avatar :: "string \<Rightarrow> string \<Rightarrow> world \<Rightarrow> user option \<times> database" where
  "set_avatar email url w =
     (case user_by_email w email of
        None \<Rightarrow> (None, db w)
      | Some u \<Rightarrow> (Some (u\<lparr>u_avatar_url := Some url\<rparr>), (db w)\<lparr>users :=
          update_where (\<lambda>r. u_id r = u_id u) (\<lambda>r. r\<lparr>u_avatar_url := Some url\<rparr>) (users (db w))\<rparr>))"

definition public_avatar_url :: "config \<Rightarrow> string \<Rightarrow> string" where
  "public_avatar_url c filename = trim_end_char CHR ''/'' (avatar_base_url c) @ ''/'' @ filename"

definition upload_avatar :: "uuid \<Rightarrow> request \<Rightarrow> multipart \<Rightarrow> me_response answer act" where
  "upload_avatar name req payload =
     andthen (extract_active_claims_from_auth req) (\<lambda>claims.
     andthen (query db_error (\<lambda>w. user_by_email w (u_email claims))) (\<lambda>row.
     andthen (some_or row (unauthorized ''user_not_found'')) (\<lambda>u.
     andthen (from_result (read_upload payload)) (\<lambda>bytes.
     andthen (require (bytes \<noteq> []) (bad_request ''file_missing'')) (\<lambda>_.
     andthen get_state (\<lambda>w.
     andthen (from_result (encode_avatar (cfg w) bytes)) (\<lambda>encoded.
     let filename = uuid_show (cfg w) name @ ''.jpg''; public_url = public_avatar_url (cfg w) filename in
     andthen (write_avatar_file filename) (\<lambda>_.
     andthen (attempt (execute db_error (set_avatar (u_email claims) public_url))) (\<lambda>res. case res of
         None \<Rightarrow> andthen (cleanup_avatar_file (Some public_url)) (\<lambda>_. throw db_error)
       | Some None \<Rightarrow> andthen (cleanup_avatar_file (Some public_url)) (\<lambda>_. throw (unauthorized ''user_not_found''))
       | Some (Some me) \<Rightarrow>
           andthen (cleanup_avatar_file (if u_avatar_url u = Some public_url then None else u_avatar_url u)) (\<lambda>_.
           return (Answer 200 (me_of me))))))))))))"

end
