(* ===== verification/Devices.thy ===== *)
theory Devices
  imports Avatars
begin

text \<open>
  The devices that receive push messages (\<open>src/routes/notifications.rs\<close>).  A device is known by the
  hash of its token, which is unique, so registering a token takes the device over from whoever had it.
\<close>

definition normalize_platform :: "config \<Rightarrow> string \<Rightarrow> string option" where
  "normalize_platform c raw = (let p = lowercase c (trim raw) in
     if p \<in> {''ios'', ''android'', ''web''} then Some p else None)"

definition current_user_id :: "request \<Rightarrow> int act" where
  "current_user_id req =
     andthen (extract_active_claims_from_auth req) (\<lambda>claims.
     andthen (query db_error (\<lambda>w. map_option u_id (user_by_email w (u_email claims)))) (\<lambda>row.
     some_or row (unauthorized ''user_not_found'')))"

definition has_token :: "config \<Rightarrow> string \<Rightarrow> user_device \<Rightarrow> bool" where
  "has_token c token v \<longleftrightarrow> lookup_text c (d_token v) = lookup_text c token"

definition upsert_device ::
    "int \<Rightarrow> string \<Rightarrow> string \<Rightarrow> string option \<Rightarrow> string option \<Rightarrow> world \<Rightarrow> (sql_error + unit) \<times> world" where
  "upsert_device user_id token platform locale app_version w =
     (let d = db w; t = clock w in
      if platform \<notin> {''ios'', ''android'', ''web''} then (Inl CheckViolation, w)
      else if \<not> exists_where (\<lambda>u. u_id u = user_id) (users d) then (Inl ForeignKeyViolation, w)
      else (Inr (), w\<lparr>db := d\<lparr>user_devices :=
        (if exists_where (has_token (cfg w) token) (user_devices d)
         then update_where (has_token (cfg w) token) (\<lambda>v. v\<lparr>d_user_id := user_id, d_platform := platform,
           d_locale := locale, d_app_version := app_version, d_last_seen := t, d_disabled_at := None\<rparr>) (user_devices d)
         else user_devices d @ [\<lparr>d_user_id = user_id, d_token = token, d_platform = platform, d_locale = locale,
           d_app_version = app_version, d_created_at = t, d_last_seen = t, d_disabled_at = None\<rparr>])\<rparr>\<rparr>))"

record device_payload =
  dp_token :: string
  dp_platform :: string
  dp_locale :: "string option"
  dp_app_version :: "string option"

definition register_device :: "request \<Rightarrow> device_payload \<Rightarrow> string answer act" where
  "register_device req p =
     andthen (current_user_id req) (\<lambda>user_id.
     andthen (require (trim (dp_token p) \<noteq> []) (bad_request ''invalid_token'')) (\<lambda>_.
     andthen get_state (\<lambda>w.
     andthen (some_or (normalize_platform (cfg w) (dp_platform p)) (bad_request ''invalid_platform'')) (\<lambda>platform.
     andthen (stmt (\<lambda>_. db_error) (upsert_device user_id (trim (dp_token p)) platform (dp_locale p) (dp_app_version p))) (\<lambda>_.
     return (Answer 200 ''saved''))))))"

definition disable_device :: "int \<Rightarrow> string \<Rightarrow> world \<Rightarrow> unit \<times> database" where
  "disable_device user_id token w = ((), (db w)\<lparr>user_devices :=
     update_where (\<lambda>v. d_user_id v = user_id \<and> has_token (cfg w) token v)
       (\<lambda>v. v\<lparr>d_disabled_at := Some (clock w)\<rparr>) (user_devices (db w))\<rparr>)"

record device_refresh =
  dr_old_token :: string
  dr_new_token :: string
  dr_platform :: "string option"
  dr_locale :: "string option"
  dr_app_version :: "string option"

text \<open>
  The errors of the first statement are ignored, but they abort the transaction: the \<open>INSERT\<close> fails,
  and so does it when the platform could not be read.
\<close>

definition refresh_device_tx :: "int \<Rightarrow> string \<Rightarrow> string \<Rightarrow> device_refresh \<Rightarrow> unit act" where
  "refresh_device_tx user_id old_token new_token p = transact db_error (
     andthen (if old_token = [] then return (Some ())
       else attempt (execute db_error (disable_device user_id old_token))) (\<lambda>disabled.
     andthen get_state (\<lambda>w.
     andthen (case dr_platform p of
         None \<Rightarrow> return None
       | Some raw \<Rightarrow> andthen (some_or (normalize_platform (cfg w) raw) (bad_request ''invalid_platform'')) (\<lambda>v. return (Some v)))
       (\<lambda>platform.
     andthen (require (disabled \<noteq> None) db_error) (\<lambda>_.
     andthen (case platform of
         Some v \<Rightarrow> return v
       | None \<Rightarrow> query db_error (\<lambda>w. case find (\<lambda>v. d_user_id v = user_id \<and> has_token (cfg w) old_token v) (user_devices (db w)) of
             None \<Rightarrow> ''web'' | Some v \<Rightarrow> d_platform v)) (\<lambda>final_platform.
     stmt (\<lambda>_. db_error) (upsert_device user_id new_token final_platform (dr_locale p) (dr_app_version p))))))))"

definition refresh_device :: "request \<Rightarrow> device_refresh \<Rightarrow> string answer act" where
  "refresh_device req p =
     andthen (current_user_id req) (\<lambda>user_id.
     andthen (require (trim (dr_new_token p) \<noteq> []) (bad_request ''invalid_token'')) (\<lambda>_.
     andthen (refresh_device_tx user_id (trim (dr_old_token p)) (trim (dr_new_token p)) p) (\<lambda>_.
     return (Answer 200 ''refreshed''))))"

definition delete_device :: "request \<Rightarrow> string \<Rightarrow> string answer act" where
  "delete_device req token =
     andthen (current_user_id req) (\<lambda>user_id.
     andthen (attempt (execute db_error (disable_device user_id (trim token)))) (\<lambda>_.
     return (Answer 200 ''deleted'')))"

end
