(* ===== verification/Sessions.thy ===== *)
theory Sessions
  imports Handles
begin

text \<open>
  Signing in and staying signed in (\<open>src/routes/auth.rs\<close> and the password and cookie helpers of
  \<open>src/auth.rs\<close>): a request with a password gets an access token, a device that asks for it also a
  refresh secret, which every renewal replaces.  What is drawn at random (\<open>drawn\<close>) and the verdict of
  the limiter are arguments.
\<close>

section \<open>Passwords\<close>

definition hash_password :: "config \<Rightarrow> uuid \<Rightarrow> string \<Rightarrow> string option" where
  "hash_password c salt password = argon2_hash c salt password"

definition verify_password :: "config \<Rightarrow> string \<Rightarrow> string \<Rightarrow> bool" where
  "verify_password c hash password = argon2_verify c hash password"

definition is_ascii_digit :: "char \<Rightarrow> bool" where
  "is_ascii_digit ch \<longleftrightarrow> digit_value ch \<noteq> None"

definition is_ascii_alphanumeric :: "char \<Rightarrow> bool" where
  "is_ascii_alphanumeric ch \<longleftrightarrow> is_lower_alnum (ascii_lower_char ch)"

text \<open>The bytes of the characters that are not \<open>char::is_whitespace\<close>.\<close>

function without_white :: "string \<Rightarrow> string" where
  "without_white [] = []"
| "without_white (ch # s) =
     (case find (\<lambda>w. w \<noteq> [] \<and> starts_with w (ch # s)) white_space of
        None \<Rightarrow> ch # without_white s
      | Some w \<Rightarrow> without_white (drop (length w) (ch # s)))"
  by pat_completeness auto
termination
  by (relation "measure length") (auto dest!: find_SomeD)

text \<open>\<open>char::is_control\<close>: U+0000 to U+001F, U+007F and U+0080 to U+009F.\<close>

fun has_control :: "string \<Rightarrow> bool" where
  "has_control [] = False"
| "has_control (ch # s) = ((of_char ch :: nat) < 32 \<or> ch = CHR 0x7F
     \<or> ch = CHR 0xC2 \<and> (case s of [] \<Rightarrow> False | d # _ \<Rightarrow> 128 \<le> (of_char d :: nat) \<and> (of_char d :: nat) < 160)
     \<or> has_control s)"

definition validate_password_strength :: "config \<Rightarrow> string \<Rightarrow> bool" where
  "validate_password_strength c password \<longleftrightarrow>
     \<not> length password < 12
     \<and> any_uppercase c password \<and> any_lowercase c password \<and> list_ex is_ascii_digit password
     \<and> list_ex (\<lambda>ch. \<not> is_ascii_alphanumeric ch) (without_white password)
     \<and> \<not> has_control password"

section \<open>Requests and cookies\<close>

text \<open>The headers that matter beside the credentials, and the scheme of the request line.\<close>

record client_request = request +
  cr_auth_response :: "string option"
  cr_scheme :: "string option"
  cr_forwarded :: "string option"
  cr_forwarded_proto :: "string option"

abbreviation credentials :: "client_request \<Rightarrow> request" where
  "credentials req \<equiv> request.truncate req"

fun split_on :: "char \<Rightarrow> string \<Rightarrow> string list" where
  "split_on sep [] = [[]]"
| "split_on sep (ch # s) =
     (if ch = sep then [] # split_on sep s
      else case split_on sep s of [] \<Rightarrow> [[ch]] | part # parts \<Rightarrow> (ch # part) # parts)"

definition header_first_value :: "string option \<Rightarrow> string option" where
  "header_first_value header = Option.bind header (\<lambda>v. let value = trim (hd (split_on CHR '','' v)) in
     if value = [] then None else Some value)"

text \<open>One \<open>key=value\<close> of \<open>Forwarded\<close>, split at its first equals sign.\<close>

definition proto_is_https :: "string \<Rightarrow> bool" where
  "proto_is_https part =
     (let key = trim (takeWhile (\<lambda>ch. ch \<noteq> CHR ''='') part);
          rest = dropWhile (\<lambda>ch. ch \<noteq> CHR ''='') part;
          value = trim_end_char CHR 0x22 (trim_start_char CHR 0x22 (trim (drop 1 rest))) in
      eq_ignore_ascii_case key ''proto'' \<and> eq_ignore_ascii_case value ''https'')"

definition forwarded_proto_is_https :: "client_request \<Rightarrow> bool" where
  "forwarded_proto_is_https req \<longleftrightarrow>
     (case header_first_value (cr_forwarded req) of None \<Rightarrow> False
      | Some value \<Rightarrow> list_ex proto_is_https (split_on CHR '';'' value))
     \<or> (case header_first_value (cr_forwarded_proto req) of None \<Rightarrow> False
        | Some value \<Rightarrow> eq_ignore_ascii_case value ''https'')"

definition should_secure_cookie :: "config \<Rightarrow> client_request \<Rightarrow> bool" where
  "should_secure_cookie c req \<longleftrightarrow>
     starts_with ''https://'' (app_base_url c)
     \<or> (case cr_scheme req of None \<Rightarrow> False | Some scheme \<Rightarrow> eq_ignore_ascii_case scheme ''https'')
     \<or> trust_proxy_headers c \<and> forwarded_proto_is_https req"

text \<open>The session cookie; it is always \<open>HttpOnly\<close>, \<open>SameSite=Lax\<close> and for the path \<open>/\<close>.\<close>

record session_cookie =
  ck_value :: string
  ck_secure :: bool
  ck_max_age :: "nat option"

definition build_session_cookie :: "string \<Rightarrow> bool \<Rightarrow> session_cookie" where
  "build_session_cookie token secure = \<lparr>ck_value = token, ck_secure = secure, ck_max_age = None\<rparr>"

definition build_cleared_session_cookie :: "bool \<Rightarrow> session_cookie" where
  "build_cleared_session_cookie secure = \<lparr>ck_value = [], ck_secure = secure, ck_max_age = Some 0\<rparr>"

section \<open>Tokens\<close>

definition now_ts :: "world \<Rightarrow> nat" where
  "now_ts w = nat (clock w div 1000000)"

definition enforce_auth_rate_limit :: "bool \<Rightarrow> unit act" where
  "enforce_auth_rate_limit allowed = require allowed (ApiError 429 ''rate_limited'')"

definition auth_response_includes_body_token :: "client_request \<Rightarrow> bool" where
  "auth_response_includes_body_token req \<longleftrightarrow>
     (case cr_auth_response req of None \<Rightarrow> False
      | Some v \<Rightarrow> eq_ignore_ascii_case v ''bearer'' \<or> eq_ignore_ascii_case v ''bearer-refresh'')"

definition wants_refresh_session :: "client_request \<Rightarrow> bool" where
  "wants_refresh_session req \<longleftrightarrow>
     (case cr_auth_response req of None \<Rightarrow> False | Some v \<Rightarrow> eq_ignore_ascii_case v ''bearer-refresh'')"

abbreviation session_db_error :: api_error where
  "session_db_error \<equiv> db_error"

text \<open>The identifiers drawn for one answer: the session, the two halves of the secret, the token.\<close>

record drawn =
  dn_session :: uuid
  dn_first :: uuid
  dn_second :: uuid
  dn_jti :: uuid

definition uuid_simple :: "config \<Rightarrow> uuid \<Rightarrow> string" where
  "uuid_simple c u = filter (\<lambda>ch. ch \<noteq> CHR ''-'') (uuid_show c u)"

definition refresh_secret :: "config \<Rightarrow> drawn \<Rightarrow> string" where
  "refresh_secret c r = uuid_simple c (dn_first r) @ uuid_simple c (dn_second r)"

record token_response =
  tr_token :: string
  tr_public_id :: string
  tr_email :: string
  tr_handle :: string
  tr_refresh_token :: "string option"
  tr_cookie :: session_cookie

definition token_answer :: "string \<Rightarrow> string \<Rightarrow> string \<Rightarrow> string \<Rightarrow> bool \<Rightarrow> bool \<Rightarrow> string option \<Rightarrow> token_response answer" where
  "token_answer token public_id email handle secure_cookie include_body_token refresh_token =
     Answer 200 \<lparr>tr_token = (if include_body_token then token else []), tr_public_id = public_id, tr_email = email,
       tr_handle = handle, tr_refresh_token = refresh_token, tr_cookie = build_session_cookie token secure_cookie\<rparr>"

text \<open>\<open>encode_jwt\<close> and \<open>encode_mobile_jwt\<close>: the kind of the session and a fresh \<open>jti\<close> are signed too.\<close>

definition encode_session_jwt :: "config \<Rightarrow> uuid \<Rightarrow> claims \<Rightarrow> string option \<Rightarrow> string option" where
  "encode_session_jwt c jti claims session_kind = jwt_sign c session_kind jti claims"

definition session_response ::
    "drawn \<Rightarrow> client_request \<Rightarrow> claims \<Rightarrow> string \<Rightarrow> string \<Rightarrow> string option \<Rightarrow> token_response answer act" where
  "session_response r req claims email handle refresh_token = andthen get_state (\<lambda>w.
     andthen (some_or (encode_session_jwt (cfg w) (dn_jti r) claims
         (if refresh_token \<noteq> None then Some ''mobile'' else None)) (ApiError 500 ''token_creation_failed'')) (\<lambda>token.
     return (token_answer token (cl_sub claims) email handle (should_secure_cookie (cfg w) req)
       (auth_response_includes_body_token req) refresh_token)))"

text \<open>\<open>INSERT .. SELECT .. FROM users WHERE public_id = $5\<close>: the rows inserted.\<close>

definition insert_session :: "uuid \<Rightarrow> uuid \<Rightarrow> int \<Rightarrow> string \<Rightarrow> world \<Rightarrow> (sql_error + nat) \<times> world" where
  "insert_session session_id public_id version token w =
     (let d = db w; hash = sha256_hex (cfg w) token in
      case find (\<lambda>u. u_public_id u = public_id) (users d) of
        None \<Rightarrow> (Inr 0, w)
      | Some u \<Rightarrow>
          if exists_where (\<lambda>s. ms_id s = session_id \<or> ms_token_hash s = hash) (mobile_sessions d)
          then (Inl UniqueViolation, w)
          else (Inr 1, w\<lparr>db := d\<lparr>mobile_sessions := mobile_sessions d @
            [\<lparr>ms_id = session_id, ms_user_id = u_id u, ms_session_version = version, ms_token_hash = hash,
              ms_previous_hash = None, ms_previous_until = None, ms_token = token,
              ms_created_at = clock w, ms_expires_at = clock w + days 90\<rparr>]\<rparr>\<rparr>))"

text \<open>The claims name the account by the text of its public identifier, which is read back from them.\<close>

definition issue_session ::
    "drawn \<Rightarrow> client_request \<Rightarrow> uuid \<Rightarrow> claims \<Rightarrow> string \<Rightarrow> string \<Rightarrow> token_response answer act" where
  "issue_session r req public_id claims email handle = andthen get_state (\<lambda>w.
     if wants_refresh_session req then
       let token = refresh_secret (cfg w) r in
       andthen (stmt (\<lambda>_. session_db_error) (insert_session (dn_session r) public_id (cl_session_version claims) token)) (\<lambda>n.
       andthen (require (n = 1) session_db_error) (\<lambda>_.
       session_response r req (claims\<lparr>cl_exp := now_ts w + 3600\<rparr>) email handle (Some token)))
     else session_response r req claims email handle None)"

definition claims_of :: "world \<Rightarrow> user \<Rightarrow> nat \<Rightarrow> claims" where
  "claims_of w u lifetime = \<lparr>cl_sub = uuid_show (cfg w) (u_public_id u), cl_handle = u_handle u,
     cl_exp = now_ts w + lifetime, cl_session_version = u_session_version u\<rparr>"

section \<open>Signing in\<close>

definition user_by_handle :: "world \<Rightarrow> string \<Rightarrow> user option" where
  "user_by_handle w handle =
     find (\<lambda>u. sql_lower (cfg w) (u_handle u) = sql_lower (cfg w) handle) (users (db w))"

definition fetch_user_auth :: "string \<Rightarrow> user option act" where
  "fetch_user_auth identifier = (let trimmed = trim identifier in
     if looks_like_email trimmed then query db_error (\<lambda>w. user_by_email w trimmed)
     else query db_error (\<lambda>w. user_by_handle w (normalize_handle (cfg w) trimmed)))"

definition enable_password_login :: "int \<Rightarrow> world \<Rightarrow> nat \<times> database" where
  "enable_password_login user_id w =
     (let d = db w; hit = (\<lambda>u. u_id u = user_id \<and> \<not> u_suspended u) in
      (count_where hit (users d), d\<lparr>users := update_where hit (\<lambda>u. u\<lparr>u_password_login := True\<rparr>) (users d)\<rparr>))"

definition login ::
    "bool \<Rightarrow> drawn \<Rightarrow> client_request \<Rightarrow> string \<Rightarrow> string \<Rightarrow> token_response answer act" where
  "login allowed r req identifier password =
     andthen (enforce_auth_rate_limit allowed) (\<lambda>_.
     andthen (fetch_user_auth identifier) (\<lambda>row.
     andthen (some_or row (unauthorized ''invalid_credentials'')) (\<lambda>u.
     andthen get_state (\<lambda>w.
     andthen (require (verify_password (cfg w) (u_password_hash u) password) (unauthorized ''invalid_credentials'')) (\<lambda>_.
     andthen (attempt (execute db_error (enable_password_login (u_id u)))) (\<lambda>n.
     andthen (require (n = Some 1) (unauthorized [])) (\<lambda>_.
     issue_session r req (u_public_id u) (claims_of w u (24 * 3600)) (u_email u) (u_handle u))))))))"

section \<open>Renewing a device session\<close>

abbreviation invalid_refresh :: api_error where
  "invalid_refresh \<equiv> unauthorized ''invalid_refresh_token''"

definition is_legacy_bearer :: "world \<Rightarrow> client_request \<Rightarrow> bool" where
  "is_legacy_bearer w req \<longleftrightarrow>
     (case r_authorization req of None \<Rightarrow> False
      | Some header \<Rightarrow> starts_with ''Bearer '' header
          \<and> jwt_has_no_kind (cfg w) (clock w) (drop (length ''Bearer '') header))"

text \<open>The column \<open>valid\<close> of the query.\<close>

definition session_valid :: "micros \<Rightarrow> user \<Rightarrow> mobile_session \<Rightarrow> bool" where
  "session_valid t u s \<longleftrightarrow> t < ms_expires_at s \<and> t < ms_created_at s + days 365
     \<and> ms_session_version s = u_session_version u \<and> \<not> u_suspended u"

definition previous_valid :: "micros \<Rightarrow> mobile_session \<Rightarrow> bool" where
  "previous_valid t s \<longleftrightarrow> (case ms_previous_until s of None \<Rightarrow> False | Some until \<Rightarrow> t < until)"

definition knows_hash :: "string \<Rightarrow> mobile_session \<Rightarrow> bool" where
  "knows_hash hash s \<longleftrightarrow> ms_token_hash s = hash \<or> ms_previous_hash s = Some hash"

definition find_session :: "string \<Rightarrow> world \<Rightarrow> (mobile_session \<times> user) option" where
  "find_session hash w =
     find (\<lambda>(s, u). knows_hash hash s)
       (List.map_filter (\<lambda>s. map_option (Pair s) (find (\<lambda>u. u_id u = ms_user_id s) (users (db w))))
         (mobile_sessions (db w)))"

definition rotated :: "config \<Rightarrow> micros \<Rightarrow> string \<Rightarrow> mobile_session \<Rightarrow> mobile_session" where
  "rotated c t token s = s\<lparr>ms_previous_hash := Some (ms_token_hash s), ms_previous_until := Some (t + minutes 5),
     ms_token_hash := sha256_hex c token, ms_token := token,
     ms_expires_at := min (t + days 90) (ms_created_at s + days 365)\<rparr>"

definition rotate_session :: "mobile_session \<Rightarrow> string \<Rightarrow> world \<Rightarrow> (sql_error + unit) \<times> world" where
  "rotate_session s token w =
     (let d = db w; r = rotated (cfg w) (clock w) token s in
      if exists_where (\<lambda>o'. ms_id o' \<noteq> ms_id s \<and> (ms_token_hash o' = ms_token_hash r
           \<or> ms_previous_hash o' = ms_previous_hash r)) (mobile_sessions d)
      then (Inl UniqueViolation, w)
      else (Inr (), w\<lparr>db := d\<lparr>mobile_sessions :=
        update_where (\<lambda>o'. ms_id o' = ms_id s) (rotated (cfg w) (clock w) token) (mobile_sessions d)\<rparr>\<rparr>))"

text \<open>The transaction of \<open>refresh_session\<close>; it yields the account and the secret for the device.\<close>

definition renew :: "string \<Rightarrow> string \<Rightarrow> (user \<times> string) act" where
  "renew hash secret = transact session_db_error (
     andthen (query session_db_error (find_session hash)) (\<lambda>row.
     andthen (some_or row invalid_refresh) (\<lambda>(s, u).
     andthen now (\<lambda>t.
     andthen (require (session_valid t u s \<and> (hash = ms_token_hash s \<or> previous_valid t s)) invalid_refresh) (\<lambda>_.
     if hash = ms_token_hash s
     then andthen (stmt (\<lambda>_. session_db_error) (rotate_session s secret)) (\<lambda>_. return (u, secret))
     else return (u, ms_token s))))))"

definition refresh_session :: "drawn \<Rightarrow> client_request \<Rightarrow> string option \<Rightarrow> token_response answer act" where
  "refresh_session r req refresh_token =
     andthen (require (wants_refresh_session req) (unauthorized ''native_session_required'')) (\<lambda>_.
     andthen get_state (\<lambda>w. case refresh_token of
       None \<Rightarrow>
         andthen (require (is_legacy_bearer w req) invalid_refresh) (\<lambda>_.
         andthen (extract_authenticated_user (credentials req)) (\<lambda>u.
         issue_session r req (u_public_id u) (claims_of w u 3600) (u_email u) (u_handle u)))
     | Some token \<Rightarrow>
         andthen (renew (sha256_hex (cfg w) token) (refresh_secret (cfg w) r)) (\<lambda>(u, next).
         session_response r req (claims_of w u 3600) (u_email u) (u_handle u) (Some next))))"

section \<open>Signing out\<close>

definition drop_session :: "string \<Rightarrow> world \<Rightarrow> unit \<times> database" where
  "drop_session token w = ((), (db w)\<lparr>mobile_sessions :=
     delete_where (knows_hash (sha256_hex (cfg w) token)) (mobile_sessions (db w))\<rparr>)"

definition logout :: "client_request \<Rightarrow> string option \<Rightarrow> session_cookie answer act" where
  "logout req refresh_token =
     andthen (case refresh_token of
         None \<Rightarrow> return ()
       | Some token \<Rightarrow> execute session_db_error (drop_session token)) (\<lambda>_.
     andthen (revoke_auth_token_from_request (credentials req)) (\<lambda>_.
     andthen get_state (\<lambda>w.
     return (Answer 200 (build_cleared_session_cookie (should_secure_cookie (cfg w) req))))))"

end
