(* ===== verification/Registration.thy ===== *)
theory Registration
  imports Sessions Invitations
begin

text \<open>
  Becoming a user (\<open>src/routes/auth.rs\<close>): an address is registered, a link is mailed to it, the link
  completes the registration with a password and a handle.  Until then the address is a pending
  registration with a handle that is kept for it.
\<close>

section \<open>Addresses\<close>

definition is_label :: "string \<Rightarrow> bool" where
  "is_label label \<longleftrightarrow> label \<noteq> [] \<and> \<not> starts_with ''-'' label \<and> \<not> ends_with ''-'' label"

text \<open>A character outside ASCII has a byte above 127; of the others six are white space.\<close>

definition is_valid_registration_email :: "string \<Rightarrow> bool" where
  "is_valid_registration_email email \<longleftrightarrow>
     \<not> (length email > 254 \<or> list_ex (\<lambda>ch. [ch] \<in> set white_space) email
        \<or> list_ex (\<lambda>ch. 127 < (of_char ch :: nat)) email
        \<or> length (filter (\<lambda>ch. ch = CHR ''@'') email) \<noteq> 1)
     \<and> (let local = takeWhile (\<lambda>ch. ch \<noteq> CHR ''@'') email;
            domain = drop 1 (dropWhile (\<lambda>ch. ch \<noteq> CHR ''@'') email) in
        local \<noteq> [] \<and> length local \<le> 64
        \<and> CHR ''.'' \<in> set domain \<and> \<not> starts_with ''.'' domain \<and> \<not> ends_with ''.'' domain
        \<and> list_all is_label (split_on CHR ''.'' domain))"

definition build_email_verification_link :: "string \<Rightarrow> string \<Rightarrow> string" where
  "build_email_verification_link base_url token =
     (let canonical = (if trim_end_char CHR ''/'' base_url = ''https://fiestaaa.app'' then ''https://fiestaaa.app/link''
            else base_url);
          trimmed = trim_end_char CHR ''/'' canonical in
      if CHR ''?'' \<in> set trimmed then trimmed @ ''&verifyEmailToken='' @ token
      else trimmed @ ''?verifyEmailToken='' @ token)"

text \<open>The mail is sent when a sender and a key are configured; the flag says whether it was.\<close>

definition send_verification_email :: "string \<Rightarrow> string \<Rightarrow> bool act" where
  "send_verification_email email link = andthen get_state (\<lambda>w.
     case (invitation_email_sender (cfg w), invitation_email_api_key (cfg w)) of
       (Some sender, Some _) \<Rightarrow>
         andthen (post_mail \<lparr>m_from = sender, m_to = email, m_subject = ''Verify your Fiestaaa email address'',
           m_event_name = [], m_date = 0, m_time = 0, m_link = link, m_html_event_name = [], m_html_owner = [],
           m_html_link = escape_html link\<rparr>) (\<lambda>_. return True)
     | _ \<Rightarrow> return False)"

definition verification_status :: "bool \<Rightarrow> string" where
  "verification_status email_sent = (if email_sent then ''verification_email_sent'' else ''verification_pending'')"

section \<open>Pending registrations\<close>

definition cleanup_expired_pending_registrations :: "unit act" where
  "cleanup_expired_pending_registrations = execute db_error (\<lambda>w. ((), (db w)\<lparr>pending_registrations :=
     delete_where (\<lambda>r. pr_expires_at r < clock w) (pending_registrations (db w))\<rparr>))"

definition auth_fetch_user_by_email :: "string \<Rightarrow> user option act" where
  "auth_fetch_user_by_email email = query db_error (\<lambda>w. user_by_email w email)"

definition pending_handle_exists :: "string \<Rightarrow> bool act" where
  "pending_handle_exists handle = query db_error (\<lambda>w.
     exists_where (\<lambda>r. sql_lower (cfg w) (pr_handle r) = sql_lower (cfg w) handle) (pending_registrations (db w)))"

definition registration_handle_available :: "string \<Rightarrow> bool act" where
  "registration_handle_available handle =
     andthen (handle_available handle) (\<lambda>free.
     if free then andthen (pending_handle_exists handle) (\<lambda>found. return (\<not> found)) else return False)"

abbreviation handle_generation_failed :: api_error where
  "handle_generation_failed \<equiv> ApiError 500 ''handle_generation_failed''"

text \<open>What is drawn for the attempts at a handle: the candidates and the suffix of the fallback.\<close>

type_synonym handle_draws = "(nat \<Rightarrow> draw) \<times> nat"

fun generate_registration_handle :: "handle_draws list \<Rightarrow> string act" where
  "generate_registration_handle [] = throw handle_generation_failed"
| "generate_registration_handle ((draws, suffix) # rest) =
     andthen (map_error (\<lambda>_. handle_generation_failed) (generate_unique_handle draws suffix)) (\<lambda>handle.
     andthen (registration_handle_available handle) (\<lambda>free.
     if free then return handle else generate_registration_handle rest))"

abbreviation hash_failed :: api_error where
  "hash_failed \<equiv> ApiError 500 ''hash_failed''"

definition random_password_token :: "config \<Rightarrow> uuid \<Rightarrow> string" where
  "random_password_token c u = ''oauth-'' @ uuid_show c u"

text \<open>The random numbers of one registration.\<close>

record registration_draws =
  rd_token :: uuid
  rd_handles :: "nat \<Rightarrow> handle_draws"
  rd_password :: uuid
  rd_salt :: uuid

definition pending_placeholder_hash :: "registration_draws \<Rightarrow> string act" where
  "pending_placeholder_hash r = andthen get_state (\<lambda>w.
     some_or (hash_password (cfg w) (rd_salt r) (random_password_token (cfg w) (rd_password r))) hash_failed)"

text \<open>
  The \<open>UPDATE\<close> of a pending registration of the address: a token that is still to be read is kept.  It
  yields the token to mail.
\<close>

definition renewed :: "string \<Rightarrow> string \<Rightarrow> micros \<Rightarrow> pending_registration \<Rightarrow> pending_registration" where
  "renewed token hash expires_at r = (case pr_token r of
     None \<Rightarrow> r\<lparr>pr_token_hash := hash, pr_token := Some token, pr_expires_at := expires_at\<rparr>
   | Some _ \<Rightarrow> r)"

definition renew_pending :: "string \<Rightarrow> string \<Rightarrow> micros \<Rightarrow> world \<Rightarrow> (sql_error + string option) \<times> world" where
  "renew_pending email token expires_at w =
     (let d = db w; key = email_lookup (cfg w) email; hash = sha256_hex (cfg w) token;
          f = renewed token hash expires_at in
      case find (\<lambda>r. pr_email_hash r = key) (pending_registrations d) of
        None \<Rightarrow> (Inr None, w)
      | Some r \<Rightarrow>
          if pr_token r = None \<and> exists_where (\<lambda>o'. pr_email_hash o' \<noteq> key \<and> pr_token_hash o' = hash) (pending_registrations d)
          then (Inl UniqueViolation, w)
          else (Inr (pr_token (f r)), w\<lparr>db := d\<lparr>pending_registrations :=
            update_where (\<lambda>r. pr_email_hash r = key) f (pending_registrations d)\<rparr>\<rparr>))"

text \<open>An \<open>INSERT\<close> into a table whose unique constraints are told apart; \<open>Inl\<close> names the code of the answer.\<close>

definition insert_pending :: "pending_registration \<Rightarrow> world \<Rightarrow> (sql_error + (string + unit)) \<times> world" where
  "insert_pending r w =
     (let d = db w in
      if exists_where (\<lambda>o'. pr_email_hash o' = pr_email_hash r) (pending_registrations d) then (Inr (Inl ''email_taken''), w)
      else if exists_where (\<lambda>o'. pr_handle o' = pr_handle r) (pending_registrations d) then (Inr (Inl ''handle_taken''), w)
      else if exists_where (\<lambda>o'. pr_token_hash o' = pr_token_hash r) (pending_registrations d) then (Inr (Inl ''email_taken''), w)
      else (Inr (Inr ()), w\<lparr>db := d\<lparr>pending_registrations := pending_registrations d @ [r]\<rparr>\<rparr>))"

definition unique_or :: "string + 'a \<Rightarrow> 'a act" where
  "unique_or r = (case r of Inl code \<Rightarrow> throw (conflict code) | Inr x \<Rightarrow> return x)"

definition new_pending :: "config \<Rightarrow> string \<Rightarrow> string \<Rightarrow> string \<Rightarrow> string \<Rightarrow> micros \<Rightarrow> pending_registration" where
  "new_pending c email hash handle token expires_at =
     \<lparr>pr_email_hash = email_lookup c email, pr_email = email, pr_password_hash = hash, pr_handle = handle,
      pr_token_hash = sha256_hex c token, pr_token = Some token, pr_expires_at = expires_at\<rparr>"

text \<open>The transaction of \<open>register\<close>; it yields the token to mail.\<close>

definition store_pending :: "registration_draws \<Rightarrow> string \<Rightarrow> string act" where
  "store_pending r email = andthen get_state (\<lambda>w.
     let token = uuid_show (cfg w) (rd_token r); expires_at = clock w + minutes (24 * 60) in
     transact db_error (
       andthen (stmt (\<lambda>_. db_error) (renew_pending email token expires_at)) (\<lambda>pending_token. case pending_token of
         Some old \<Rightarrow> return old
       | None \<Rightarrow>
           andthen (generate_registration_handle (map (rd_handles r) [0..<32])) (\<lambda>handle.
           andthen (pending_placeholder_hash r) (\<lambda>hash.
           andthen (stmt (\<lambda>_. db_error) (insert_pending (new_pending (cfg w) email hash handle token expires_at))) (\<lambda>inserted.
           andthen (unique_or inserted) (\<lambda>_.
           return token)))))))"

definition register :: "bool \<Rightarrow> bool \<Rightarrow> registration_draws \<Rightarrow> string \<Rightarrow> string answer act" where
  "register allowed email_allowed r raw_email =
     andthen (enforce_auth_rate_limit allowed) (\<lambda>_.
     andthen get_state (\<lambda>w. let email = normalize_email (cfg w) raw_email in
     andthen (require (is_valid_registration_email email) (bad_request ''invalid_payload'')) (\<lambda>_.
     andthen (require email_allowed (ApiError 429 ''rate_limited'')) (\<lambda>_.
     andthen cleanup_expired_pending_registrations (\<lambda>_.
     andthen (auth_fetch_user_by_email email) (\<lambda>found.
     if found \<noteq> None then return (Answer 201 ''verification_pending'')
     else
       andthen (store_pending r email) (\<lambda>token.
       andthen (send_verification_email email (build_email_verification_link (app_base_url (cfg w)) token)) (\<lambda>sent.
       return (Answer 201 (verification_status sent))))))))))"

section \<open>Following the link\<close>

text \<open>
  A transaction that ends in one of three ways: committed; committed, but a failing \<open>COMMIT\<close> is ignored;
  or given up, because it is rolled back or a failed statement has aborted it.
\<close>

datatype closing = Commit | Commit_ignored | Roll_back

definition transact_closing :: "api_error \<Rightarrow> ((api_error + 'a) \<times> closing \<times> bool) act \<Rightarrow> 'a act" where
  "transact_closing e body = (\<lambda>w. if fault w then (Inl e, tick w)
     else case body (tick w) of
       (Inl x, w') \<Rightarrow> (Inl x, w'\<lparr>db := db w\<rparr>)
     | (Inr (r, how, aborted), w') \<Rightarrow>
         if fault w' then (if how = Commit_ignored then r else Inl e, (tick w')\<lparr>db := db w\<rparr>)
         else (r, if aborted \<or> how = Roll_back then (tick w')\<lparr>db := db w\<rparr> else tick w'))"

definition drop_pending :: "string \<Rightarrow> unit act" where
  "drop_pending email = execute db_error (\<lambda>w. ((), (db w)\<lparr>pending_registrations :=
     delete_where (\<lambda>r. pr_email_hash r = email_lookup (cfg w) email) (pending_registrations (db w))\<rparr>))"

text \<open>The token as it is printed and hashed, from what the user sends.\<close>

definition verification_hash :: "string \<Rightarrow> string act" where
  "verification_hash token = andthen get_state (\<lambda>w.
     andthen (some_or (uuid_parse (cfg w) token) (bad_request ''invalid_token'')) (\<lambda>u.
     return (sha256_hex (cfg w) (uuid_show (cfg w) u))))"

definition find_pending :: "string \<Rightarrow> pending_registration act" where
  "find_pending hash =
     andthen (query db_error (\<lambda>w. find (\<lambda>r. pr_token_hash r = hash) (pending_registrations (db w)))) (\<lambda>row.
     some_or row (bad_request ''invalid_token''))"

definition verify_email :: "string \<Rightarrow> string answer act" where
  "verify_email raw_token = (let token = trim raw_token in
     andthen (require (token \<noteq> []) (bad_request ''invalid_token'')) (\<lambda>_.
     andthen (verification_hash token) (\<lambda>hash.
     andthen (transact_closing db_error (
       andthen (find_pending hash) (\<lambda>pending.
       andthen now (\<lambda>t.
       if pr_expires_at pending < t
       then andthen (attempt (drop_pending (pr_email pending))) (\<lambda>dropped.
         return (Inl (gone ''expired_token''), Commit_ignored, dropped = None))
       else andthen (auth_fetch_user_by_email (pr_email pending)) (\<lambda>found. case found of
           Some _ \<Rightarrow> andthen (attempt (drop_pending (pr_email pending))) (\<lambda>dropped.
             return (Inr ''already_verified'', Commit, dropped = None))
         | None \<Rightarrow> return (Inr ''setup_required'', Roll_back, False)))))) (\<lambda>status.
     return (Answer 200 status)))))"

section \<open>Completing the registration\<close>

definition resolve_final_handle :: "handle_draws \<Rightarrow> string option \<Rightarrow> string act" where
  "resolve_final_handle draws requested_handle =
     (case requested_handle of
        Some raw \<Rightarrow> andthen get_state (\<lambda>w. let normalized = normalize_handle (cfg w) raw in
          andthen (require (is_valid_handle normalized) (bad_request ''invalid_handle'')) (\<lambda>_.
          andthen (handle_available normalized) (\<lambda>free.
          andthen (require free (conflict ''handle_taken'')) (\<lambda>_.
          return normalized))))
      | None \<Rightarrow> map_error (\<lambda>_. handle_generation_failed) (generate_unique_handle (fst draws) (snd draws)))"

text \<open>
  \<open>INSERT INTO users .. RETURNING\<close>, under the filter of handles and the unique indexes; the public
  identifier that the database draws is an argument.
\<close>

definition new_user :: "config \<Rightarrow> uuid \<Rightarrow> string \<Rightarrow> string \<Rightarrow> string \<Rightarrow> bool \<Rightarrow> int \<Rightarrow> user" where
  "new_user c public_id email handle hash password_login k =
     \<lparr>u_id = k, u_public_id = public_id, u_email = email, u_email_hash = email_lookup c email, u_handle = handle,
      u_avatar_url = None, u_session_version = 0, u_suspended = False, u_password_hash = hash,
      u_password_login = password_login\<rparr>"

definition insert_user :: "(int \<Rightarrow> user) \<Rightarrow> world \<Rightarrow> (sql_error + (string + user)) \<times> world" where
  "insert_user row w =
     (let (k, w') = nextval UserSeq w; d = db w; u = row k in
      if content_not_allowed w [u_handle u] then (Inl CheckViolation, w')
      else if exists_where (\<lambda>r. u_id r = k \<or> u_public_id r = u_public_id u \<or> u_email_hash r = u_email_hash u) (users d)
      then (Inr (Inl ''email_taken''), w')
      else if exists_where (\<lambda>r. sql_lower (cfg w) (u_handle r) = sql_lower (cfg w) (u_handle u)) (users d)
      then (Inr (Inl ''handle_taken''), w')
      else (Inr (Inr u), w'\<lparr>db := d\<lparr>users := users d @ [u]\<rparr>\<rparr>))"

record completion_draws =
  cd_public_id :: uuid
  cd_handle :: handle_draws
  cd_salt :: uuid
  cd_session :: drawn

definition complete_tx :: "completion_draws \<Rightarrow> string \<Rightarrow> string \<Rightarrow> string option \<Rightarrow> user act" where
  "complete_tx r hash password handle = transact_closing db_error (
     andthen (find_pending hash) (\<lambda>pending.
     andthen now (\<lambda>t.
     if pr_expires_at pending < t
     then andthen (attempt (drop_pending (pr_email pending))) (\<lambda>dropped.
       return (Inl (gone ''expired_token''), Commit_ignored, dropped = None))
     else andthen (auth_fetch_user_by_email (pr_email pending)) (\<lambda>found.
     if found \<noteq> None
     then andthen (attempt (drop_pending (pr_email pending))) (\<lambda>dropped.
       return (Inl (conflict ''email_taken''), Commit_ignored, dropped = None))
     else
       andthen (resolve_final_handle (cd_handle r) handle) (\<lambda>final_handle.
       andthen get_state (\<lambda>w.
       andthen (some_or (hash_password (cfg w) (cd_salt r) password) hash_failed) (\<lambda>password_hash.
       andthen (stmt (\<lambda>_. db_error) (insert_user
         (new_user (cfg w) (cd_public_id r) (pr_email pending) final_handle password_hash True))) (\<lambda>inserted.
       andthen (unique_or inserted) (\<lambda>u.
       andthen (drop_pending (pr_email pending)) (\<lambda>_.
       return (Inr u, Commit, False)))))))))))"

definition complete_registration ::
    "completion_draws \<Rightarrow> client_request \<Rightarrow> string \<Rightarrow> string \<Rightarrow> string option \<Rightarrow> token_response answer act" where
  "complete_registration r req raw_token password handle = (let token = trim raw_token in
     andthen (require (token \<noteq> []) (bad_request ''invalid_token'')) (\<lambda>_.
     andthen get_state (\<lambda>w.
     andthen (require (validate_password_strength (cfg w) password) (bad_request ''weak_password'')) (\<lambda>_.
     andthen (verification_hash token) (\<lambda>hash.
     andthen (complete_tx r hash password (case handle of None \<Rightarrow> None | Some h \<Rightarrow> if trim h = [] then None else Some h)) (\<lambda>u.
     andthen get_state (\<lambda>w.
     issue_session (cd_session r) req (u_public_id u) (claims_of w u (24 * 3600)) (u_email u) (u_handle u))))))))"

end
