(* ===== verification/Oauth.thy ===== *)
theory Oauth
  imports Registration
begin

text \<open>
  Signing in through Google (\<open>src/routes/auth.rs\<close>): the token is checked by Google's service, whose
  answers are parameters; the identity it names is looked up, or bound to the account of its verified
  address, which is created when there is none.
\<close>

section \<open>What a provider says\<close>

definition normalize_provider_email :: "config \<Rightarrow> string option \<Rightarrow> string option" where
  "normalize_provider_email c raw = Option.bind raw (\<lambda>v. if trim v = [] then None else Some (lowercase c (trim v)))"

definition json_truthy :: "json option \<Rightarrow> bool" where
  "json_truthy value = (case value of
     Some (JBool flag) \<Rightarrow> flag
   | Some (JStr flag) \<Rightarrow> eq_ignore_ascii_case flag ''true''
   | _ \<Rightarrow> False)"

definition json_str :: "json option \<Rightarrow> string option" where
  "json_str v = (case v of Some (JStr s) \<Rightarrow> Some s | _ \<Rightarrow> None)"

definition first_of :: "'a option \<Rightarrow> 'a option \<Rightarrow> 'a option" where
  "first_of a b = (case a of None \<Rightarrow> b | Some x \<Rightarrow> Some x)"

definition trimmed_value :: "string option \<Rightarrow> string option" where
  "trimmed_value v = Option.bind v (\<lambda>s. if trim s = [] then None else Some (trim s))"

definition google_subject :: "json \<Rightarrow> string option" where
  "google_subject info = trimmed_value (json_str (first_of (json_get ''sub'' info) (json_get ''user_id'' info)))"

definition verified_email :: "config \<Rightarrow> json \<Rightarrow> string option" where
  "verified_email c info = (case normalize_provider_email c (json_str (json_get ''email'' info)) of
     None \<Rightarrow> None
   | Some email \<Rightarrow> if json_truthy (json_get ''email_verified'' info) then Some email else None)"

section \<open>Identities\<close>

definition is_identity :: "config \<Rightarrow> string \<Rightarrow> string \<Rightarrow> oauth_identity \<Rightarrow> bool" where
  "is_identity c provider subject o' \<longleftrightarrow> oi_provider o' = provider \<and> oi_subject_hash o' = lookup_text c subject"

definition fetch_oauth_user_by_identity :: "string \<Rightarrow> string \<Rightarrow> user option act" where
  "fetch_oauth_user_by_identity provider subject = query db_error (\<lambda>w.
     Option.bind (find (is_identity (cfg w) provider subject) (oauth_identities (db w)))
       (\<lambda>o'. find (\<lambda>u. u_id u = oi_user_id o') (users (db w))))"

definition touch_oauth_identity :: "string \<Rightarrow> string \<Rightarrow> unit act" where
  "touch_oauth_identity provider subject = execute db_error (\<lambda>w. ((), (db w)\<lparr>oauth_identities :=
     update_where (is_identity (cfg w) provider subject) (\<lambda>o'. o'\<lparr>oi_last_login := Some (clock w)\<rparr>)
       (oauth_identities (db w))\<rparr>))"

definition insert_identity :: "string \<Rightarrow> string \<Rightarrow> int \<Rightarrow> world \<Rightarrow> (sql_error + unit) \<times> world" where
  "insert_identity provider subject user_id w =
     (let d = db w in
      if exists_where (is_identity (cfg w) provider subject) (oauth_identities d) then (Inr (), w)
      else if \<not> exists_where (\<lambda>u. u_id u = user_id) (users d) then (Inl ForeignKeyViolation, w)
      else (Inr (), w\<lparr>db := d\<lparr>oauth_identities := oauth_identities d @
        [\<lparr>oi_provider = provider, oi_user_id = user_id, oi_subject_hash = lookup_text (cfg w) subject,
          oi_last_login = Some (clock w)\<rparr>]\<rparr>\<rparr>))"

record account_draws =
  ad_public_id :: uuid
  ad_handle :: handle_draws
  ad_password :: uuid
  ad_salt :: uuid
  ad_session :: drawn

definition create_oauth_user :: "account_draws \<Rightarrow> string \<Rightarrow> user act" where
  "create_oauth_user r email =
     andthen (map_error (\<lambda>_. handle_generation_failed)
       (generate_unique_handle (fst (ad_handle r)) (snd (ad_handle r)))) (\<lambda>new_handle.
     andthen get_state (\<lambda>w.
     andthen (some_or (hash_password (cfg w) (ad_salt r) (random_password_token (cfg w) (ad_password r))) hash_failed) (\<lambda>hash.
     andthen (stmt (\<lambda>_. db_error) (insert_user (new_user (cfg w) (ad_public_id r) email new_handle hash False))) (\<lambda>inserted.
     case inserted of
       Inr u \<Rightarrow> return u
     | Inl _ \<Rightarrow> andthen (attempt (auth_fetch_user_by_email email)) (\<lambda>again. case again of
           Some (Some u) \<Rightarrow> return u
         | _ \<Rightarrow> throw db_error)))))"

definition resolve_oauth_user :: "account_draws \<Rightarrow> string \<Rightarrow> string \<Rightarrow> string option \<Rightarrow> user act" where
  "resolve_oauth_user r provider subject email =
     andthen (fetch_oauth_user_by_identity provider subject) (\<lambda>found. case found of
       Some u \<Rightarrow> andthen (attempt (touch_oauth_identity provider subject)) (\<lambda>_. return u)
     | None \<Rightarrow>
         andthen (some_or email (unauthorized ''email_required'')) (\<lambda>email.
         andthen (auth_fetch_user_by_email email) (\<lambda>row.
         andthen (case row of Some u \<Rightarrow> return u | None \<Rightarrow> create_oauth_user r email) (\<lambda>u.
         andthen (stmt (\<lambda>_. db_error) (insert_identity provider subject (u_id u))) (\<lambda>_.
         andthen (attempt (drop_pending email)) (\<lambda>_.
         andthen (attempt (fetch_oauth_user_by_identity provider subject)) (\<lambda>again. case again of
             Some (Some u) \<Rightarrow> andthen (attempt (touch_oauth_identity provider subject)) (\<lambda>_. return u)
           | _ \<Rightarrow> throw db_error)))))))"

definition open_session ::
    "account_draws \<Rightarrow> client_request \<Rightarrow> user \<Rightarrow> token_response answer act" where
  "open_session r req u =
     andthen (require (\<not> u_suspended u) (unauthorized ''account_unavailable'')) (\<lambda>_.
     andthen get_state (\<lambda>w.
     issue_session (ad_session r) req (u_public_id u) (claims_of w u (24 * 3600)) (u_email u) (u_handle u)))"

section \<open>Google\<close>

record oauth_payload =
  op_id_token :: "string option"
  op_access_token :: "string option"
  op_authorization_code :: "string option"
  op_android :: bool

definition google_issuers :: "string list" where
  "google_issuers = [''accounts.google.com'', ''https://accounts.google.com'']"

text \<open>The profile is asked for once, and only with an access token.\<close>

definition google_profile :: "config \<Rightarrow> string option \<Rightarrow> json option" where
  "google_profile c access_token = Option.bind access_token (google_userinfo c)"

text \<open>The subject and the verified address: from the token, else from the profile.\<close>

definition google_identity :: "config \<Rightarrow> json \<Rightarrow> string option \<Rightarrow> string option \<times> string option" where
  "google_identity c info access_token =
     (let profile = google_profile c access_token in
      (first_of (google_subject info) (Option.bind profile google_subject),
       first_of (verified_email c info) (Option.bind profile (verified_email c))))"

definition oauth_google :: "account_draws \<Rightarrow> client_request \<Rightarrow> oauth_payload \<Rightarrow> token_response answer act" where
  "oauth_google r req payload = andthen get_state (\<lambda>w.
     let c = cfg w; id_token = trimmed_value (op_id_token payload); access_token = trimmed_value (op_access_token payload) in
     andthen (require (\<not> (id_token = None \<and> access_token = None)) (bad_request ''invalid_payload'')) (\<lambda>_.
     andthen (require (google_client_ids c \<noteq> []) (ApiError 500 ''oauth_not_configured'')) (\<lambda>_.
     andthen (some_or (case google_tokeninfo c id_token access_token of Some (Inr info) \<Rightarrow> Some info | _ \<Rightarrow> None)
       (unauthorized ''invalid_token'')) (\<lambda>info.
     andthen (require ((case json_str (first_of (json_get ''aud'' info) (json_get ''audience'' info)) of
         None \<Rightarrow> [] | Some aud \<Rightarrow> aud) \<in> set (google_client_ids c)) (unauthorized ''invalid_token'')) (\<lambda>_.
     andthen (require (id_token = None \<or> (case json_str (json_get ''iss'' info) of
         None \<Rightarrow> False | Some issuer \<Rightarrow> issuer \<in> set google_issuers)) (unauthorized ''invalid_token'')) (\<lambda>_.
     let (subject, email) = google_identity c info access_token in
     andthen (some_or subject (unauthorized ''invalid_token'')) (\<lambda>subject.
     andthen (resolve_oauth_user r ''google'' subject email) (\<lambda>u.
     open_session r req u))))))))"

end
