(* ===== verification/Apple.thy ===== *)
theory Apple
  imports Oauth
begin

text \<open>
  Sign in with Apple (\<open>oauth_apple\<close> of \<open>src/routes/auth.rs\<close> and the handlers of \<open>src/apple.rs\<close>): an
  identity token signed by one of Apple's published keys, and a code that is exchanged for the
  credential by which the sign-in is revoked when the account goes.  Decoding and verifying tokens,
  signing the client secret and Apple's answers are parameters (\<open>apple_service\<close>).
\<close>

section \<open>Parameters\<close>

record apple_claims =
  apc_sub :: string
  apc_aud :: string
  apc_email :: "string option"
  apc_email_verified :: "json option"

record apple_jwk =
  jwk_kid :: string
  jwk_n :: string
  jwk_e :: string

text \<open>
  \<open>as_header\<close>: the key identifier of a token and whether it is signed with RS256; \<open>as_jwks\<close>: the published
  keys, when they can be read; \<open>as_rsa_key\<close>: the key of two components; \<open>as_decode\<close>: the claims of a token that
  is valid under a key, one of the audiences and Apple's issuer; \<open>as_token_endpoint\<close>: the answer to a form,
  \<open>None\<close> for a failure and \<open>Some None\<close> for a body that is not JSON.
\<close>

record apple_service =
  as_service_id :: "string option"
  as_app_id :: "string option"
  as_team_id :: string
  as_key_id :: string
  as_redirect_uri :: string
  as_android_redirect_uri :: string
  as_header :: "string \<Rightarrow> (string option \<times> bool) option"
  as_jwks :: "apple_jwk list option"
  as_rsa_key :: "string \<Rightarrow> string \<Rightarrow> string option"
  as_decode :: "micros \<Rightarrow> string \<Rightarrow> string list \<Rightarrow> string \<Rightarrow> apple_claims option"
  as_sign_secret :: "nat \<Rightarrow> string \<Rightarrow> string option"
  as_token_endpoint :: "(string \<times> string) list \<Rightarrow> json option option"
  as_query :: "(string \<times> string) list \<Rightarrow> string"

definition option_list :: "'a option \<Rightarrow> 'a list" where
  "option_list v = (case v of None \<Rightarrow> [] | Some x \<Rightarrow> [x])"

definition fetch_apple_decoding_key :: "apple_service \<Rightarrow> string \<Rightarrow> string option" where
  "fetch_apple_decoding_key a kid =
     Option.bind (as_jwks a) (\<lambda>keys.
     Option.bind (find (\<lambda>k. jwk_kid k = kid) keys) (\<lambda>k. as_rsa_key a (jwk_n k) (jwk_e k)))"

section \<open>The credential for revocation\<close>

abbreviation apple_error :: "string \<Rightarrow> api_error" where
  "apple_error \<equiv> ApiError 503"

definition client_secret :: "apple_service \<Rightarrow> nat \<Rightarrow> string \<Rightarrow> api_error + string" where
  "client_secret a t client_id =
     (if as_team_id a = [] \<or> as_key_id a = [] then Inl (apple_error ''apple_revocation_not_configured'')
      else case as_sign_secret a t client_id of
          None \<Rightarrow> Inl (apple_error ''apple_revocation_not_configured'')
        | Some secret \<Rightarrow> Inr secret)"

text \<open>The token that comes with the credential must be of the same person.\<close>

definition validate_exchanged_identity_token :: "apple_service \<Rightarrow> micros \<Rightarrow> apple_claims \<Rightarrow> string \<Rightarrow> api_error + unit" where
  "validate_exchanged_identity_token a t original encoded =
     (case as_header a encoded of
        None \<Rightarrow> Inl (apple_error ''invalid_apple_code'')
      | Some (kid, rs256) \<Rightarrow>
          if \<not> rs256 \<or> kid = None \<or> kid = Some [] then Inl (apple_error ''invalid_apple_code'')
          else case fetch_apple_decoding_key a (the kid) of
              None \<Rightarrow> Inl (apple_error ''apple_exchange_failed'')
            | Some key \<Rightarrow>
                (case as_decode a t key [apc_aud original] encoded of
                   None \<Rightarrow> Inl (apple_error ''invalid_apple_code'')
                 | Some exchanged \<Rightarrow>
                     if apc_sub exchanged \<noteq> apc_sub original then Inl (apple_error ''invalid_apple_code'')
                     else Inr ()))"

definition exchange_form :: "apple_service \<Rightarrow> apple_claims \<Rightarrow> string \<Rightarrow> string \<Rightarrow> bool \<Rightarrow> api_error + (string \<times> string) list" where
  "exchange_form a claims secret code android =
     (let form = [(''client_id'', apc_aud claims), (''client_secret'', secret), (''code'', code),
            (''grant_type'', ''authorization_code'')];
          redirect = (if android then as_android_redirect_uri a else as_redirect_uri a) in
      if as_service_id a = Some (apc_aud claims)
      then if redirect = [] then Inl (apple_error ''apple_revocation_not_configured'')
        else Inr (form @ [(''redirect_uri'', redirect)])
      else Inr form)"

definition upsert_credential :: "int \<Rightarrow> string \<Rightarrow> string \<Rightarrow> world \<Rightarrow> (sql_error + unit) \<times> world" where
  "upsert_credential user_id client_id token w =
     (let d = db w; same = (\<lambda>r. ac_user_id r = user_id \<and> ac_client_id r = client_id) in
      if \<not> exists_where (\<lambda>u. u_id u = user_id) (users d) then (Inl ForeignKeyViolation, w)
      else (Inr (), w\<lparr>db := d\<lparr>apple_credentials :=
        (if exists_where same (apple_credentials d)
         then update_where same (\<lambda>r. r\<lparr>ac_refresh_token := token\<rparr>) (apple_credentials d)
         else apple_credentials d @ [\<lparr>ac_user_id = user_id, ac_client_id = client_id, ac_refresh_token = token\<rparr>])\<rparr>\<rparr>))"

definition save_code :: "apple_service \<Rightarrow> int \<Rightarrow> apple_claims \<Rightarrow> string \<Rightarrow> bool \<Rightarrow> unit act" where
  "save_code a user_id claims code android =
     andthen (require (\<not> (code = [] \<or> length code > 4096)) (apple_error ''invalid_apple_code'')) (\<lambda>_.
     andthen get_state (\<lambda>w.
     andthen (from_result (client_secret a (now_ts w) (apc_aud claims))) (\<lambda>secret.
     andthen (from_result (exchange_form a claims secret code android)) (\<lambda>form.
     andthen (some_or (case as_token_endpoint a form of Some v \<Rightarrow> v | None \<Rightarrow> None) (apple_error ''apple_exchange_failed'')) (\<lambda>v.
     andthen (some_or (json_str (json_get ''id_token'' v)) (apple_error ''apple_exchange_failed'')) (\<lambda>encoded.
     andthen (from_result (validate_exchanged_identity_token a (clock w) claims encoded)) (\<lambda>_.
     andthen (some_or (case json_str (json_get ''refresh_token'' v) of
         Some [] \<Rightarrow> None | other \<Rightarrow> other) (apple_error ''apple_exchange_failed'')) (\<lambda>refresh.
     stmt (\<lambda>_. apple_error ''db_error'') (upsert_credential user_id (apc_aud claims) refresh)))))))))"

section \<open>Signing in\<close>

definition oauth_apple :: "apple_service \<Rightarrow> account_draws \<Rightarrow> client_request \<Rightarrow> oauth_payload \<Rightarrow> token_response answer act" where
  "oauth_apple a r req payload = andthen get_state (\<lambda>w.
     let allowed_aud = option_list (as_service_id a) @ option_list (as_app_id a) in
     andthen (require (allowed_aud \<noteq> []) (ApiError 500 ''oauth_not_configured'')) (\<lambda>_.
     andthen (some_or (trimmed_value (op_id_token payload)) (bad_request ''invalid_payload'')) (\<lambda>id_token.
     andthen (some_or (as_header a id_token) (unauthorized ''invalid_token'')) (\<lambda>(kid, rs256).
     andthen (some_or kid (unauthorized ''invalid_token'')) (\<lambda>kid.
     andthen (require rs256 (unauthorized ''invalid_token'')) (\<lambda>_.
     andthen (some_or (fetch_apple_decoding_key a kid) (unauthorized ''invalid_token'')) (\<lambda>key.
     andthen (some_or (as_decode a (clock w) key allowed_aud id_token) (unauthorized ''invalid_token'')) (\<lambda>claims.
     let email = (case normalize_provider_email (cfg w) (apc_email claims) of
         None \<Rightarrow> None | Some email \<Rightarrow> if json_truthy (apc_email_verified claims) then Some email else None) in
     andthen (resolve_oauth_user r ''apple'' (apc_sub claims) email) (\<lambda>u.
     andthen (case op_authorization_code payload of
         None \<Rightarrow> return ()
       | Some code \<Rightarrow> save_code a (u_id u) claims code (op_android payload)) (\<lambda>_.
     open_session r req u))))))))))"

definition oauth_login ::
    "bool \<Rightarrow> apple_service \<Rightarrow> account_draws \<Rightarrow> client_request \<Rightarrow> string \<Rightarrow> oauth_payload \<Rightarrow> token_response answer act" where
  "oauth_login allowed a r req provider payload = andthen get_state (\<lambda>w. let provider = lowercase (cfg w) provider in
     andthen (enforce_auth_rate_limit allowed) (\<lambda>_.
     if provider = ''google'' then oauth_google r req payload
     else if provider = ''apple'' then oauth_apple a r req payload
     else throw (bad_request ''unsupported_provider'')))"

section \<open>Renewing the credential\<close>

definition has_apple_identity :: "config \<Rightarrow> int \<Rightarrow> string \<Rightarrow> database \<Rightarrow> bool" where
  "has_apple_identity c user_id subject d =
     exists_where (\<lambda>o'. oi_user_id o' = user_id \<and> is_identity c ''apple'' subject o') (oauth_identities d)"

definition reauthorize :: "bool \<Rightarrow> apple_service \<Rightarrow> client_request \<Rightarrow> oauth_payload \<Rightarrow> string answer act" where
  "reauthorize allowed a req payload =
     andthen (extract_authenticated_user (credentials req)) (\<lambda>u.
     andthen (enforce_auth_rate_limit allowed) (\<lambda>_.
     andthen (some_or (op_id_token payload) (bad_request [])) (\<lambda>token.
     andthen (some_or (op_authorization_code payload) (bad_request [])) (\<lambda>code.
     andthen (some_or (Option.bind (as_header a token) fst) (unauthorized [])) (\<lambda>kid.
     andthen (some_or (fetch_apple_decoding_key a kid) (apple_error [])) (\<lambda>key.
     let allowed_aud = option_list (as_app_id a) @ option_list (as_service_id a) in
     andthen (require (allowed_aud \<noteq> []) (apple_error [])) (\<lambda>_.
     andthen get_state (\<lambda>w.
     andthen (some_or (as_decode a (clock w) key allowed_aud token) (unauthorized [])) (\<lambda>claims.
     andthen (attempt (query db_error (\<lambda>w. has_apple_identity (cfg w) (u_id u) (apc_sub claims) (db w)))) (\<lambda>matches.
     andthen (require (matches = Some True) (unauthorized ''different_apple_account'')) (\<lambda>_.
     andthen (save_code a (u_id u) claims code (op_android payload)) (\<lambda>_.
     return (Answer 200 ''apple_reauthorized'')))))))))))))"

section \<open>The callback of Android\<close>

definition callback_fields :: "string list" where
  "callback_fields = [''code'', ''id_token'', ''state'', ''user'', ''error'', ''error_description'']"

text \<open>The form has distinct keys; only the known ones are handed on, in a fixed order.\<close>

definition android_callback :: "apple_service \<Rightarrow> (string \<times> string) list \<Rightarrow> api_error + string answer" where
  "android_callback a form =
     (if length form > 6 \<or> list_ex (\<lambda>(_, v). length v > 16384) form \<or> ''state'' \<notin> fst ` set form
      then Inl (bad_request [])
      else Inr (Answer 303 (''intent://callback?''
        @ as_query a (List.map_filter (\<lambda>key. map_option (Pair key) (map_of form key)) callback_fields)
        @ ''#Intent;package=com.fiestaaa.fiestaaa;scheme=signinwithapple;end'')))"

end
