(* ===== verification/Recovery.thy ===== *)
theory Recovery
  imports Sessions Invitations
begin

text \<open>
  A forgotten password (\<open>src/routes/account_recovery.rs\<close>): a link by mail, valid for half an hour and
  once; with it the password is changed and every session of the account ends.  The answer to the
  first request is the same whether or not there is such an account.
\<close>

section \<open>Asking for a link\<close>

definition accepted_reset :: "string answer" where
  "accepted_reset = Answer 202 ''recovery_requested''"

definition can_recover :: "user \<Rightarrow> bool" where
  "can_recover u \<longleftrightarrow> u_password_login u \<and> \<not> u_suspended u"

text \<open>\<open>INSERT .. ON CONFLICT (user_id) DO UPDATE .. WHERE\<close>; the flag says whether a row was written.\<close>

definition insert_reset :: "string \<Rightarrow> string \<Rightarrow> world \<Rightarrow> (sql_error + bool) \<times> world" where
  "insert_reset email token w =
     (let d = db w; t = clock w; hash = sha256_hex (cfg w) token in
      case find (\<lambda>u. u_email_hash u = email_lookup (cfg w) email \<and> can_recover u) (users d) of
        None \<Rightarrow> (Inr False, w)
      | Some u \<Rightarrow>
          let mine = (\<lambda>p. pw_user_id p = u_id u);
              row = \<lparr>pw_user_id = u_id u, pw_token_hash = hash, pw_expires_at = t + minutes 30, pw_requested_at = t\<rparr> in
          if exists_where (\<lambda>p. mine p \<and> \<not> pw_requested_at p < t - seconds 60) (password_resets d) then (Inr False, w)
          else if exists_where (\<lambda>p. \<not> mine p \<and> pw_token_hash p = hash) (password_resets d) then (Inl UniqueViolation, w)
          else (Inr True, w\<lparr>db := d\<lparr>password_resets :=
            (if exists_where mine (password_resets d) then update_where mine (\<lambda>_. row) (password_resets d)
             else password_resets d @ [row])\<rparr>\<rparr>))"

text \<open>The task that sends the mail runs on its own: the answer does not wait for it, nor see its failure.\<close>

definition send_reset_mail :: "string \<Rightarrow> string \<Rightarrow> unit act" where
  "send_reset_mail email token = andthen get_state (\<lambda>w.
     case (invitation_email_api_key (cfg w), invitation_email_sender (cfg w), reset_link (cfg w) (app_base_url (cfg w)) token) of
       (Some _, Some sender, Some url) \<Rightarrow>
         andthen (attempt (post_mail \<lparr>m_from = sender, m_to = email, m_subject = ''Fiestaaa '' @ [CHR 0xE2, CHR 0x80, CHR 0x94]
             @ '' R'' @ e_acute @ ''initialiser / Reset password'',
           m_event_name = [], m_date = 0, m_time = 0, m_link = url, m_html_event_name = [], m_html_owner = [],
           m_html_link = []\<rparr>)) (\<lambda>_. return ())
     | _ \<Rightarrow> return ())"

definition request_reset :: "bool \<Rightarrow> bool \<Rightarrow> drawn \<Rightarrow> string \<Rightarrow> string answer act" where
  "request_reset allowed email_allowed r raw_email =
     andthen (enforce_auth_rate_limit allowed) (\<lambda>_.
     andthen get_state (\<lambda>w. let email = normalize_email (cfg w) raw_email; token = refresh_secret (cfg w) r in
     if length email > 254 \<or> CHR ''@'' \<notin> set email then return accepted_reset
     else if \<not> email_allowed then return accepted_reset
     else
       andthen (stmt (\<lambda>_. ApiError 503 ''recovery_unavailable'') (insert_reset email token)) (\<lambda>written.
       andthen (if written then send_reset_mail email token else return ()) (\<lambda>_.
       return accepted_reset))))"

section \<open>Using it\<close>

abbreviation recovery_failed :: api_error where
  "recovery_failed \<equiv> ApiError 503 []"

abbreviation invalid_or_expired_reset :: api_error where
  "invalid_or_expired_reset \<equiv> bad_request ''invalid_or_expired_reset''"

definition usable_reset :: "micros \<Rightarrow> string \<Rightarrow> password_reset \<Rightarrow> bool" where
  "usable_reset t hash p \<longleftrightarrow> pw_token_hash p = hash \<and> t < pw_expires_at p"

text \<open>\<open>DELETE .. RETURNING user_id\<close>\<close>

definition take_reset :: "string \<Rightarrow> world \<Rightarrow> int option \<times> database" where
  "take_reset hash w =
     (map_option pw_user_id (find (usable_reset (clock w) hash) (password_resets (db w))),
      (db w)\<lparr>password_resets := delete_where (usable_reset (clock w) hash) (password_resets (db w))\<rparr>)"

definition set_password :: "int \<Rightarrow> string \<Rightarrow> world \<Rightarrow> nat \<times> database" where
  "set_password user_id hash w =
     (let d = db w; hit = (\<lambda>u. u_id u = user_id \<and> can_recover u) in
      (count_where hit (users d), d\<lparr>users := update_where hit
        (\<lambda>u. u\<lparr>u_password_hash := hash, u_session_version := u_session_version u + 1\<rparr>) (users d)\<rparr>))"

definition reset_tx :: "string \<Rightarrow> string \<Rightarrow> unit act" where
  "reset_tx token_hash password_hash = transact recovery_failed (
     andthen (execute recovery_failed (take_reset token_hash)) (\<lambda>row.
     andthen (some_or row invalid_or_expired_reset) (\<lambda>user_id.
     andthen (attempt (execute db_error (set_password user_id password_hash))) (\<lambda>n.
     require (n = Some 1) invalid_or_expired_reset))))"

definition confirm_reset :: "bool \<Rightarrow> uuid \<Rightarrow> string \<Rightarrow> string \<Rightarrow> string answer act" where
  "confirm_reset allowed salt token password =
     andthen (enforce_auth_rate_limit allowed) (\<lambda>_.
     andthen get_state (\<lambda>w.
     andthen (require (length token = 64 \<and> \<not> length password > 1024 \<and> validate_password_strength (cfg w) password)
       (bad_request ''invalid_reset'')) (\<lambda>_.
     andthen (some_or (hash_password (cfg w) salt password) (ApiError 500 [])) (\<lambda>hash.
     andthen (reset_tx (sha256_hex (cfg w) token) hash) (\<lambda>_.
     return (Answer 200 ''password_reset''))))))"

end
