(* ===== verification/Session_Facts.thy ===== *)
theory Session_Facts
  imports Apple Recovery Profile Moderation Checks
begin

text \<open>
  The invariant of accounts and sessions, kept by every statement that writes their tables, and what
  the actions of \<open>Sessions\<close>, \<open>Registration\<close>, \<open>Oauth\<close> and \<open>Recovery\<close> do.
\<close>

section \<open>The invariant\<close>

text \<open>
  Accounts differ in their identifiers, address and handle; a device session belongs to an account and
  is not ahead of its session version; the keys of the other tables are keys.
\<close>

definition accounts_ok :: "config \<Rightarrow> database \<Rightarrow> bool" where
  "accounts_ok c d \<longleftrightarrow>
     distinct (map u_id (users d)) \<and> distinct (map u_public_id (users d)) \<and> distinct (map u_email_hash (users d))
     \<and> distinct (map (\<lambda>u. sql_lower c (u_handle u)) (users d))"

definition sessions_ok :: "database \<Rightarrow> bool" where
  "sessions_ok d \<longleftrightarrow>
     distinct (map ms_id (mobile_sessions d)) \<and> distinct (map ms_token_hash (mobile_sessions d))
     \<and> (\<forall>s \<in> set (mobile_sessions d). \<exists>u \<in> set (users d). u_id u = ms_user_id s
          \<and> ms_session_version s \<le> u_session_version u)
     \<and> distinct (map pw_user_id (password_resets d))
     \<and> distinct (map (\<lambda>o'. (oi_provider o', oi_subject_hash o')) (oauth_identities d))
     \<and> (\<forall>o' \<in> set (oauth_identities d). \<exists>u \<in> set (users d). u_id u = oi_user_id o')"

definition pending_ok :: "config \<Rightarrow> database \<Rightarrow> bool" where
  "pending_ok c d \<longleftrightarrow> distinct (map pr_email_hash (pending_registrations d))
     \<and> distinct (map pr_token_hash (pending_registrations d))
     \<and> (\<forall>r \<in> set (pending_registrations d). pr_email_hash r = email_lookup c (pr_email r))"

text \<open>\<open>R\<close> holds pairs of an account and a version of its sessions that have been revoked.\<close>

definition outdated :: "int \<times> int \<Rightarrow> world \<Rightarrow> bool" where
  "outdated p w \<longleftrightarrow> fst p \<le> seqs w UserSeq
     \<and> (\<forall>u \<in> set (users (db w)). u_id u = fst p \<longrightarrow> snd p < u_session_version u)"

definition accounts_inv :: "(int \<times> int) set \<Rightarrow> world \<Rightarrow> bool" where
  "accounts_inv R w \<longleftrightarrow> accounts_ok (cfg w) (db w) \<and> sessions_ok (db w) \<and> pending_ok (cfg w) (db w)
     \<and> (\<forall>u \<in> set (users (db w)). u_id u \<le> seqs w UserSeq) \<and> (\<forall>p \<in> R. outdated p w)"

definition same_accounts :: "database \<Rightarrow> database \<Rightarrow> bool" where
  "same_accounts d e \<longleftrightarrow> users e = users d \<and> mobile_sessions e = mobile_sessions d \<and> password_resets e = password_resets d
     \<and> oauth_identities e = oauth_identities d \<and> pending_registrations e = pending_registrations d"

lemma accounts_inv_tables:
  assumes "accounts_inv R w" and "same_accounts (db w) (db v)" and "cfg v = cfg w" and "seqs w UserSeq \<le> seqs v UserSeq"
  shows "accounts_inv R v"
  using assms by (fastforce simp: accounts_inv_def accounts_ok_def sessions_ok_def pending_ok_def outdated_def same_accounts_def)

interpretation account_tables: table_invariant "accounts_inv R" for R
  by unfold_locales (erule accounts_inv_tables, simp_all add: later_def same_accounts_def)

lemma accounts_inv_db:
  "accounts_inv R w \<Longrightarrow> same_accounts (db w) d \<Longrightarrow> accounts_inv R (w\<lparr>db := d\<rparr>)"
  by (erule accounts_inv_tables) simp_all

section \<open>Statements\<close>

lemma resets_replaced:
  assumes "accounts_inv R w" and "distinct (map pw_user_id ps)"
  shows "accounts_inv R (w\<lparr>db := (db w)\<lparr>password_resets := ps\<rparr>\<rparr>)"
  using assms by (simp add: accounts_inv_def accounts_ok_def sessions_ok_def pending_ok_def outdated_def)

lemma pending_replaced:
  assumes "accounts_inv R w" and "pending_ok (cfg w) ((db w)\<lparr>pending_registrations := rs\<rparr>)"
  shows "accounts_inv R (w\<lparr>db := (db w)\<lparr>pending_registrations := rs\<rparr>\<rparr>)"
  using assms by (simp add: accounts_inv_def accounts_ok_def sessions_ok_def outdated_def)

lemma users_changed:
  assumes "accounts_inv R w" and "accounts_ok (cfg w) ((db w)\<lparr>users := update_where hit f (users (db w))\<rparr>)"
    and "\<And>u. u_id (f u) = u_id u" and "\<And>u. u_session_version u \<le> u_session_version (f u)"
  shows "accounts_inv R (w\<lparr>db := (db w)\<lparr>users := update_where hit f (users (db w))\<rparr>\<rparr>)"
proof -
  let ?d = "(db w)\<lparr>users := update_where hit f (users (db w))\<rparr>"
  have keep: "\<exists>u' \<in> set (users ?d). u_id u' = u_id u \<and> u_session_version u \<le> u_session_version u'"
    if "u \<in> set (users (db w))" for u
    by (rule bexI [where x = "if hit u then f u else u"]) (use that assms(3,4) in \<open>auto simp: update_where_def\<close>)
  have "\<exists>u \<in> set (users ?d). u_id u = ms_user_id s \<and> ms_session_version s \<le> u_session_version u"
    if s: "s \<in> set (mobile_sessions (db w))" for s
  proof -
    obtain u where "u \<in> set (users (db w))" "u_id u = ms_user_id s" "ms_session_version s \<le> u_session_version u"
      using assms(1) s by (auto simp: accounts_inv_def sessions_ok_def)
    then show ?thesis using keep [of u] by (auto intro: order_trans)
  qed
  moreover have "\<exists>u \<in> set (users ?d). u_id u = oi_user_id o'" if o: "o' \<in> set (oauth_identities (db w))" for o'
  proof -
    obtain u where "u \<in> set (users (db w))" "u_id u = oi_user_id o'"
      using assms(1) o by (auto simp: accounts_inv_def sessions_ok_def)
    then show ?thesis using keep [of u] by auto
  qed
  ultimately have "sessions_ok ?d" using assms(1) by (simp add: accounts_inv_def sessions_ok_def)
  moreover have "pending_ok (cfg w) ?d" using assms(1) by (simp add: accounts_inv_def pending_ok_def)
  moreover have "outdated p (w\<lparr>db := ?d\<rparr>)" if "p \<in> R" for p
    using assms(1,3,4) that by (fastforce simp: accounts_inv_def outdated_def intro: less_le_trans)
  ultimately show ?thesis using assms(1-3) by (auto simp: accounts_inv_def)
qed

lemma users_updated:
  assumes "accounts_inv R w"
    and "\<And>u. u_id (f u) = u_id u" "\<And>u. u_public_id (f u) = u_public_id u" "\<And>u. u_email_hash (f u) = u_email_hash u"
      "\<And>u. u_handle (f u) = u_handle u" "\<And>u. u_session_version u \<le> u_session_version (f u)"
  shows "accounts_inv R (w\<lparr>db := (db w)\<lparr>users := update_where hit f (users (db w))\<rparr>\<rparr>)"
  by (rule users_changed [OF assms(1) _ assms(2,6)])
    (use assms(1-5) in \<open>simp add: accounts_inv_def accounts_ok_def\<close>)

lemma sessions_removed:
  assumes "accounts_inv R w"
  shows "accounts_inv R (w\<lparr>db := (db w)\<lparr>mobile_sessions := delete_where p (mobile_sessions (db w))\<rparr>\<rparr>)"
  using assms by (auto simp: accounts_inv_def accounts_ok_def sessions_ok_def pending_ok_def outdated_def)

lemma pending_removed:
  assumes "accounts_inv R w"
  shows "accounts_inv R (w\<lparr>db := (db w)\<lparr>pending_registrations := delete_where p (pending_registrations (db w))\<rparr>\<rparr>)"
  using assms by (auto simp: accounts_inv_def accounts_ok_def sessions_ok_def pending_ok_def outdated_def)

lemma resets_removed:
  assumes "accounts_inv R w"
  shows "accounts_inv R (w\<lparr>db := (db w)\<lparr>password_resets := delete_where p (password_resets (db w))\<rparr>\<rparr>)"
  using assms by (auto simp: accounts_inv_def accounts_ok_def sessions_ok_def pending_ok_def outdated_def)

lemma insert_session_keeps:
  assumes "accounts_inv R w" and "insert_session sid pid v tok w = (r, w')"
    and "\<And>u. u \<in> set (users (db w)) \<Longrightarrow> u_public_id u = pid \<Longrightarrow> v \<le> u_session_version u"
  shows "accounts_inv R w'"
proof (cases "find (\<lambda>u. u_public_id u = pid) (users (db w))")
  case None
  then show ?thesis using assms(1,2) by (simp add: insert_session_def Let_def)
next
  case (Some u)
  let ?h = "sha256_hex (cfg w) tok"
  let ?s = "\<lparr>ms_id = sid, ms_user_id = u_id u, ms_session_version = v, ms_token_hash = ?h,
      ms_previous_hash = None, ms_previous_until = None, ms_token = tok,
      ms_created_at = clock w, ms_expires_at = clock w + days 90\<rparr>"
  have u: "u \<in> set (users (db w))" "u_public_id u = pid" using Some by (auto dest: find_SomeD)
  show ?thesis
  proof (cases "exists_where (\<lambda>s. ms_id s = sid \<or> ms_token_hash s = ?h) (mobile_sessions (db w))")
    case True
    then show ?thesis using assms(1,2) Some by (simp add: insert_session_def Let_def)
  next
    case False
    then have w': "w' = w\<lparr>db := (db w)\<lparr>mobile_sessions := mobile_sessions (db w) @ [?s]\<rparr>\<rparr>"
      using assms(2) Some by (simp add: insert_session_def Let_def)
    show ?thesis
      using assms(1) assms(3) [OF u] u(1) False unfolding w'
      by (auto simp: accounts_inv_def accounts_ok_def sessions_ok_def pending_ok_def outdated_def)
  qed
qed

lemma rotated_fields [simp]:
  "ms_id (rotated c t tok s) = ms_id s" "ms_user_id (rotated c t tok s) = ms_user_id s"
  "ms_session_version (rotated c t tok s) = ms_session_version s" "ms_token (rotated c t tok s) = tok"
  "ms_token_hash (rotated c t tok s) = sha256_hex c tok" "ms_created_at (rotated c t tok s) = ms_created_at s"
  "ms_previous_hash (rotated c t tok s) = Some (ms_token_hash s)"
  by (simp_all add: rotated_def)

lemma distinct_one_changed:
  assumes "distinct (map i xs)" and "distinct (map k xs)"
    and "\<And>x. x \<in> set xs \<Longrightarrow> i x = j \<Longrightarrow> k (f x) = h" and "\<And>x. x \<in> set xs \<Longrightarrow> i x \<noteq> j \<Longrightarrow> k x \<noteq> h"
  shows "distinct (map k (update_where (\<lambda>x. i x = j) f xs))"
proof -
  have "inj_on (\<lambda>x. k (if i x = j then f x else x)) (set xs)"
  proof (rule inj_onI)
    fix x y assume xy: "x \<in> set xs" "y \<in> set xs" "k (if i x = j then f x else x) = k (if i y = j then f y else y)"
    show "x = y"
    proof (cases "i x = j \<longleftrightarrow> i y = j")
      case True
      then show ?thesis
        using xy distinct_map_inj [OF assms(1), of x y] distinct_map_inj [OF assms(2), of x y]
        by (cases "i x = j") simp_all
    next
      case False
      then show ?thesis using xy assms(3,4) by (metis (full_types))
    qed
  qed
  then show ?thesis using assms(1) by (simp add: update_where_def comp_def distinct_map)
qed

lemma rotate_session_keeps:
  assumes "accounts_inv R w" and "rotate_session s tok w = (r, w')"
  shows "accounts_inv R w'"
proof (cases "w' = w")
  case True
  then show ?thesis using assms(1) by simp
next
  case False
  let ?h = "sha256_hex (cfg w) tok"
  let ?ss = "update_where (\<lambda>o'. ms_id o' = ms_id s) (rotated (cfg w) (clock w) tok) (mobile_sessions (db w))"
  have new: "\<forall>o' \<in> set (mobile_sessions (db w)). ms_id o' = ms_id s \<or> ms_token_hash o' \<noteq> ?h"
    and w': "w' = w\<lparr>db := (db w)\<lparr>mobile_sessions := ?ss\<rparr>\<rparr>"
    using assms(2) False by (auto simp: rotate_session_def Let_def split: if_splits)
  have "distinct (map ms_token_hash ?ss)"
    by (rule distinct_one_changed) (use assms(1) new in \<open>auto simp: accounts_inv_def sessions_ok_def\<close>)
  moreover have "\<exists>u \<in> set (users (db w)). u_id u = ms_user_id o' \<and> ms_session_version o' \<le> u_session_version u"
    if "o' \<in> set ?ss" for o'
    using that assms(1) by (auto simp: accounts_inv_def sessions_ok_def split: if_splits)
  ultimately show ?thesis
    using assms(1) by (simp add: accounts_inv_def accounts_ok_def sessions_ok_def pending_ok_def outdated_def w')
qed

lemma insert_reset_keeps:
  assumes "accounts_inv R w" and "insert_reset email tok w = (r, w')"
  shows "accounts_inv R w'"
proof (cases "w' = w")
  case True
  then show ?thesis using assms(1) by simp
next
  case False
  then obtain u where u: "find (\<lambda>u. u_email_hash u = email_lookup (cfg w) email \<and> can_recover u) (users (db w)) = Some u"
    using assms(2) by (cases "find (\<lambda>u. u_email_hash u = email_lookup (cfg w) email \<and> can_recover u) (users (db w))")
      (simp_all add: insert_reset_def Let_def)
  define row where "row = \<lparr>pw_user_id = u_id u, pw_token_hash = sha256_hex (cfg w) tok,
    pw_expires_at = clock w + minutes 30, pw_requested_at = clock w\<rparr>"
  have row: "pw_user_id row = u_id u" by (simp add: row_def)
  let ?mine = "\<lambda>p. pw_user_id p = u_id u"
  have free: "\<not> exists_where (\<lambda>p. ?mine p \<and> \<not> pw_requested_at p < clock w - seconds 60) (password_resets (db w))"
    "\<not> exists_where (\<lambda>p. \<not> ?mine p \<and> pw_token_hash p = sha256_hex (cfg w) tok) (password_resets (db w))"
    using assms(2) False u by (simp_all add: insert_reset_def Let_def del: exists_where_iff split: if_split_asm)
  have w': "w' = w\<lparr>db := (db w)\<lparr>password_resets :=
        (if exists_where ?mine (password_resets (db w)) then update_where ?mine (\<lambda>_. row) (password_resets (db w))
         else password_resets (db w) @ [row])\<rparr>\<rparr>"
    using assms(2) u free
    by (cases "exists_where ?mine (password_resets (db w))") (simp_all add: insert_reset_def Let_def row_def del: exists_where_iff)
  have "distinct (map pw_user_id (update_where (\<lambda>p. pw_user_id p = u_id u) (\<lambda>_. row) (password_resets (db w))))"
    by (rule distinct_one_changed [where h = "u_id u"])
      (use assms(1) row in \<open>auto simp: accounts_inv_def sessions_ok_def\<close>)
  moreover have "distinct (map pw_user_id (password_resets (db w)))"
    using assms(1) by (simp add: accounts_inv_def sessions_ok_def)
  ultimately show ?thesis
    unfolding w' by (intro resets_replaced [OF assms(1)]) (simp_all add: row image_iff, metis)
qed

lemma insert_identity_keeps:
  assumes "accounts_inv R w" and "insert_identity prov sub i w = (r, w')"
  shows "accounts_inv R w'"
proof (cases "w' = w")
  case True
  then show ?thesis using assms(1) by simp
next
  case False
  then have w': "w' = w\<lparr>db := (db w)\<lparr>oauth_identities := oauth_identities (db w) @
      [\<lparr>oi_provider = prov, oi_user_id = i, oi_subject_hash = lookup_text (cfg w) sub, oi_last_login = Some (clock w)\<rparr>]\<rparr>\<rparr>"
    and new: "\<not> exists_where (is_identity (cfg w) prov sub) (oauth_identities (db w))"
      "exists_where (\<lambda>u. u_id u = i) (users (db w))"
    using assms(2) by (simp_all add: insert_identity_def Let_def del: exists_where_iff split: if_split_asm)
  then show ?thesis
    using assms(1) unfolding w'
    by (auto simp: is_identity_def accounts_inv_def accounts_ok_def sessions_ok_def pending_ok_def outdated_def)
qed

lemma identities_touched:
  assumes "accounts_inv R w"
    and "\<And>o'. oi_provider (f o') = oi_provider o' \<and> oi_subject_hash (f o') = oi_subject_hash o' \<and> oi_user_id (f o') = oi_user_id o'"
  shows "accounts_inv R (w\<lparr>db := (db w)\<lparr>oauth_identities := update_where p f (oauth_identities (db w))\<rparr>\<rparr>)"
  using assms by (auto simp: accounts_inv_def accounts_ok_def sessions_ok_def pending_ok_def outdated_def)

lemma renewed_fields [simp]:
  "pr_email_hash (renewed tok h t r) = pr_email_hash r" "pr_email (renewed tok h t r) = pr_email r"
  by (simp_all add: renewed_def split: option.split)

lemma renew_pending_keeps:
  assumes "accounts_inv R w" and "renew_pending email tok t w = (r, w')"
  shows "accounts_inv R w'"
proof (cases "w' = w")
  case True
  then show ?thesis using assms(1) by simp
next
  case False
  let ?key = "email_lookup (cfg w) email" and ?h = "sha256_hex (cfg w) tok"
  obtain old where old: "find (\<lambda>r. pr_email_hash r = ?key) (pending_registrations (db w)) = Some old"
    using assms(2) False by (cases "find (\<lambda>r. pr_email_hash r = ?key) (pending_registrations (db w))")
      (simp_all add: renew_pending_def Let_def)
  have new: "pr_token old = None \<longrightarrow> (\<forall>o' \<in> set (pending_registrations (db w)). pr_email_hash o' = ?key \<or> pr_token_hash o' \<noteq> ?h)"
    and w': "w' = w\<lparr>db := (db w)\<lparr>pending_registrations :=
        update_where (\<lambda>r. pr_email_hash r = ?key) (renewed tok ?h t) (pending_registrations (db w))\<rparr>\<rparr>"
    using assms(2) False old by (auto simp: renew_pending_def Let_def split: if_split_asm)
  have keys: "distinct (map pr_email_hash (pending_registrations (db w)))"
    "distinct (map pr_token_hash (pending_registrations (db w)))"
    using assms(1) by (simp_all add: accounts_inv_def pending_ok_def)
  have it: "r = old" if "r \<in> set (pending_registrations (db w))" "pr_email_hash r = ?key" for r
    using that old distinct_map_inj [OF keys(1)] by (auto dest!: find_SomeD)
  have "distinct (map pr_token_hash (update_where (\<lambda>r. pr_email_hash r = ?key) (renewed tok ?h t) (pending_registrations (db w))))"
  proof (cases "pr_token old")
    case None
    show ?thesis
      by (rule distinct_one_changed [OF keys, where h = ?h]) (use it None new in \<open>auto simp: renewed_def\<close>)
  next
    case (Some x)
    then have "update_where (\<lambda>r. pr_email_hash r = ?key) (renewed tok ?h t) (pending_registrations (db w)) = pending_registrations (db w)"
      unfolding update_where_def using it by (intro map_idI) (auto simp: renewed_def)
    then show ?thesis using keys by simp
  qed
  then show ?thesis
    unfolding w' using assms(1)
    by (intro pending_replaced [OF assms(1)]) (auto simp: accounts_inv_def pending_ok_def)
qed

lemma insert_pending_keeps:
  assumes "accounts_inv R w" and "insert_pending row w = (r, w')" and "pr_email_hash row = email_lookup (cfg w) (pr_email row)"
  shows "accounts_inv R w'"
  using assms
  by (fastforce simp: insert_pending_def Let_def accounts_inv_def accounts_ok_def sessions_ok_def
      pending_ok_def outdated_def split: if_splits)

lemma insert_user_keeps:
  assumes "accounts_inv R w" and "insert_user row w = (r, w')" and "\<And>k. u_id (row k) = k"
  shows "accounts_inv R w'"
proof (cases "db w' = db w")
  case True
  moreover have "later w w'"
    using assms(2) by (auto simp: insert_user_def Let_def nextval_def later_def split: if_splits)
  ultimately show ?thesis using account_tables.rollback [OF assms(1)] by blast
next
  case False
  define k where "k = seqs w UserSeq + 1"
  have w': "db w' = (db w)\<lparr>users := users (db w) @ [row k]\<rparr>" "cfg w' = cfg w" "seqs w' UserSeq = k"
    and new: "\<forall>u \<in> set (users (db w)). u_public_id u \<noteq> u_public_id (row k) \<and> u_email_hash u \<noteq> u_email_hash (row k)
       \<and> sql_lower (cfg w) (u_handle u) \<noteq> sql_lower (cfg w) (u_handle (row k))"
    using assms(2) False by (auto simp: insert_user_def Let_def nextval_def k_def split: if_splits)
  have "\<forall>u \<in> set (users (db w)). u_id u < k" using assms(1) by (auto simp: accounts_inv_def k_def)
  then show ?thesis
    using assms(1,3) new
    by (fastforce simp: accounts_inv_def accounts_ok_def sessions_ok_def pending_ok_def outdated_def w' k_def)
qed

lemma update_handle_keeps_row:
  assumes "accounts_inv R w" and "update_user_handle email h w = (r, w')"
  shows "accounts_inv R w'"
proof (cases "w' = w")
  case True
  then show ?thesis using assms(1) by simp
next
  case False
  let ?k = "\<lambda>u. sql_lower (cfg w) (u_handle u)"
  obtain u where found: "user_by_email w email = Some u"
    using assms(2) False by (cases "user_by_email w email") (simp_all add: update_user_handle_def Let_def)
  have free: "\<not> exists_where (\<lambda>r. u_id r \<noteq> u_id u \<and> ?k r = sql_lower (cfg w) h) (users (db w))"
  proof
    assume "exists_where (\<lambda>r. u_id r \<noteq> u_id u \<and> ?k r = sql_lower (cfg w) h) (users (db w))"
    then have "w' = w" using assms(2) found by (simp add: update_user_handle_def Let_def split: if_split_asm)
    with False show False ..
  qed
  then have u: "\<forall>r \<in> set (users (db w)). u_id r = u_id u \<or> ?k r \<noteq> sql_lower (cfg w) h"
    by (auto simp: exists_where_iff)
  have w': "w' = w\<lparr>db := (db w)\<lparr>users := update_where (\<lambda>r. u_id r = u_id u) (\<lambda>r. r\<lparr>u_handle := h\<rparr>) (users (db w))\<rparr>\<rparr>"
    using assms(2) False found free
    by (cases "u_handle u \<noteq> h \<and> content_not_allowed w [h]") (simp_all add: update_user_handle_def Let_def del: exists_where_iff)
  have "distinct (map ?k (update_where (\<lambda>r. u_id r = u_id u) (\<lambda>r. r\<lparr>u_handle := h\<rparr>) (users (db w))))"
    by (rule distinct_one_changed [where h = "sql_lower (cfg w) h"])
      (use assms(1) u in \<open>auto simp: accounts_inv_def accounts_ok_def\<close>)
  then show ?thesis
    unfolding w' by (intro users_changed [OF assms(1)]) (use assms(1) in \<open>auto simp: accounts_inv_def accounts_ok_def\<close>)
qed

lemma user_deleted:
  assumes "accounts_inv R w"
  shows "accounts_inv R (w\<lparr>db := delete_user i (db w)\<rparr>)"
  using assms
  by (fastforce simp: delete_user_def delete_user_rows_def delete_events_def Let_def accounts_inv_def accounts_ok_def
      sessions_ok_def pending_ok_def outdated_def)

end
