(* ===== verification/Session_Invariant.thy ===== *)
theory Session_Invariant
  imports Session_Facts Account_Facts
begin

text \<open>
  Every handler that writes accounts, sessions, pending registrations, resets or identities keeps the
  invariant \<open>accounts_inv\<close>.  Tokens are made out for users that were read before: \<open>yields\<close> carries along
  which users an action hands on and that their session version has not gone down since.
\<close>

section \<open>A logic of users that have been read\<close>

definition up_to_date :: "world \<Rightarrow> user \<Rightarrow> bool" where
  "up_to_date w u \<longleftrightarrow> (\<forall>r \<in> set (users (db w)). u_public_id r = u_public_id u
     \<longrightarrow> u_session_version u \<le> u_session_version r)"

definition account_state :: "(int \<times> int) set \<Rightarrow> config \<Rightarrow> user list \<Rightarrow> world \<Rightarrow> bool" where
  "account_state R c us w \<longleftrightarrow> accounts_inv R w \<and> cfg w = c \<and> list_all (up_to_date w) us"

interpretation user_tables: table_invariant "account_state R c us" for R c us
proof
  fix w v assume "account_state R c us w" and "db v = db w" and "later w v"
  then show "account_state R c us v"
    using account_tables.rollback [of R w v] by (auto simp: account_state_def up_to_date_def list_all_iff later_def)
qed

definition yields ::
    "(int \<times> int) set \<Rightarrow> config \<Rightarrow> user list \<Rightarrow> 'a act \<Rightarrow> ('a \<Rightarrow> user list) \<Rightarrow> bool" where
  "yields R c us m vs \<longleftrightarrow> (\<forall>w. account_state R c us w
     \<longrightarrow> wp m (\<lambda>x. account_state R c (vs x)) (\<lambda>_. account_state R c []) w)"

named_theorems yields_intros \<open>actions that hand on users\<close>

lemma fewer_users: "account_state R c us w \<Longrightarrow> set vs \<subseteq> set us \<Longrightarrow> account_state R c vs w"
  by (auto simp: account_state_def list_all_iff)

lemma yields_andthen:
  assumes "yields R c us m vs" and "\<And>x. yields R c (vs x) (f x) ws"
  shows "yields R c us (andthen m f) ws"
  unfolding yields_def wp_andthen
proof (intro allI impI)
  fix w assume "account_state R c us w"
  with assms(1) have "wp m (\<lambda>x. account_state R c (vs x)) (\<lambda>_. account_state R c []) w" by (simp add: yields_def)
  then show "wp m (\<lambda>x. wp (f x) (\<lambda>x. account_state R c (ws x)) (\<lambda>_. account_state R c [])) (\<lambda>_. account_state R c []) w"
    by (rule wp_mono) (use assms(2) in \<open>auto simp: yields_def\<close>)
qed

lemma yields_keeps:
  assumes "keeps (account_state R c us) m"
  shows "yields R c us m (\<lambda>_. us)"
  unfolding yields_def
proof (intro allI impI)
  fix w assume "account_state R c us w"
  then show "wp m (\<lambda>_. account_state R c us) (\<lambda>_. account_state R c []) w"
    by (rule wp_mono [OF keepsD [OF assms]]) (simp_all add: fewer_users [of _ _ us])
qed

lemma yields_quiet: "quiet m \<Longrightarrow> yields R c us m (\<lambda>_. us)"
  by (intro yields_keeps user_tables.keeps_quiet)

lemma yields_less:
  assumes "yields R c us m vs" and "\<And>x. set (ws x) \<subseteq> set (vs x)"
  shows "yields R c us m ws"
  unfolding yields_def
proof (intro allI impI)
  fix w assume "account_state R c us w"
  with assms(1) have "wp m (\<lambda>x. account_state R c (vs x)) (\<lambda>_. account_state R c []) w" by (simp add: yields_def)
  then show "wp m (\<lambda>x. account_state R c (ws x)) (\<lambda>_. account_state R c []) w"
    by (rule wp_mono) (rule fewer_users [OF _ assms(2)])
qed

lemma yields_keepsI:
  assumes "\<And>c. yields R c [] m (\<lambda>_. [])"
  shows "keeps (accounts_inv R) m"
proof (rule keepsI)
  fix w assume "accounts_inv R w"
  then have "account_state R (cfg w) [] w" by (simp add: account_state_def)
  with assms have "wp m (\<lambda>_. account_state R (cfg w) []) (\<lambda>_. account_state R (cfg w) []) w"
    unfolding yields_def by blast
  then show "wp m (\<lambda>_. accounts_inv R) (\<lambda>_. accounts_inv R) w"
    by (rule wp_mono) (simp_all add: account_state_def)
qed

lemma yields_checks:
  assumes "checks m P" and "\<And>w x. account_state R c us w \<Longrightarrow> P w x \<Longrightarrow> account_state R c (vs x) w"
  shows "yields R c us m vs"
  unfolding yields_def
proof (intro allI impI)
  fix w assume w: "account_state R c us w"
  show "wp m (\<lambda>x. account_state R c (vs x)) (\<lambda>_. account_state R c []) w"
  proof (rule checks_wp [OF assms(1) same_data_refl])
    fix x v assume "same_data w v" and "P w x"
    then show "account_state R c (vs x) v" using assms(2) [OF w] user_tables.inv_same_data by blast
  next
    fix v assume "same_data w v"
    then show "account_state R c [] v" using user_tables.inv_same_data [OF w] fewer_users [of R c us v "[]"] by simp
  qed
qed

lemma yields_get_state:
  assumes "\<And>w. account_state R c us w \<Longrightarrow> yields R c us (f w) vs"
  shows "yields R c us (andthen get_state f) vs"
  using assms by (simp add: yields_def wp_andthen wp_get_state)

lemma yields_simple [yields_intros]:
  "yields R c us (throw e) vs" "set (vs x) \<subseteq> set us \<Longrightarrow> yields R c us (return x) vs"
  by (auto simp: yields_def intro: fewer_users)

lemma yields_require: "(b \<Longrightarrow> yields R c us (f ()) vs) \<Longrightarrow> yields R c us (andthen (require b e) f) vs"
  by (auto simp: yields_def wp_andthen wp_require intro: fewer_users)

lemma yields_if [yields_intros]:
  "(b \<Longrightarrow> yields R c us m vs) \<Longrightarrow> (\<not> b \<Longrightarrow> yields R c us n vs) \<Longrightarrow> yields R c us (if b then m else n) vs"
  by simp

lemma yields_option [yields_intros]:
  "(x = None \<Longrightarrow> yields R c us m vs) \<Longrightarrow> (\<And>y. x = Some y \<Longrightarrow> yields R c us (f y) vs)
   \<Longrightarrow> yields R c us (case x of None \<Rightarrow> m | Some y \<Rightarrow> f y) vs"
  by (simp split: option.split)

lemma yields_some_or:
  "(\<And>y. x = Some y \<Longrightarrow> yields R c us (f y) vs) \<Longrightarrow> yields R c us (andthen (some_or x e) f) vs"
  by (cases x) (auto simp: yields_def wp_andthen wp_some_or intro: fewer_users)

lemma present_up_to_date:
  assumes "accounts_inv R w" and "u \<in> set (users (db w))"
  shows "up_to_date w u"
  using assms distinct_map_inj [of u_public_id "users (db w)"]
  by (auto simp: up_to_date_def accounts_inv_def accounts_ok_def)

lemma state_of_present:
  "account_state R c us w \<Longrightarrow> u \<in> set (users (db w)) \<Longrightarrow> account_state R c [u] w"
  by (auto simp: account_state_def intro: present_up_to_date)

lemma account_state_users:
  "account_state R c us w \<Longrightarrow> accounts_inv R v \<Longrightarrow> users (db v) = users (db w) \<Longrightarrow> cfg v = cfg w
   \<Longrightarrow> account_state R c us v"
  by (simp add: account_state_def up_to_date_def list_all_iff)

lemma keeps_account_stmt:
  assumes "\<And>w r v. accounts_inv R w \<Longrightarrow> cfg w = c \<Longrightarrow> f w = (r, v) \<Longrightarrow>
      accounts_inv R v \<and> users (db v) = users (db w) \<and> cfg v = cfg w"
  shows "keeps (account_state R c us) (stmt h f)"
proof (rule user_tables.keeps_stmt)
  fix w r v assume w: "account_state R c us w" and r: "f w = (r, v)"
  then have "accounts_inv R w" "cfg w = c" by (simp_all add: account_state_def)
  from assms [OF this r] show "account_state R c us v" using account_state_users [OF w, of v] by simp
qed

lemma keeps_account_execute:
  assumes "\<And>w. accounts_inv R w \<Longrightarrow> accounts_inv R (w\<lparr>db := snd (f w)\<rparr>) \<and> users (snd (f w)) = users (db w)"
  shows "keeps (account_state R c us) (execute e f)"
proof (rule user_tables.keeps_execute)
  fix w assume "account_state R c us w"
  with assms [of w] show "account_state R c us (w\<lparr>db := snd (f w)\<rparr>)"
    by (auto intro: account_state_users simp: account_state_def up_to_date_def list_all_iff)
qed

lemma keeps_users_execute:
  assumes "\<And>w. accounts_inv R w \<Longrightarrow> accounts_inv R (w\<lparr>db := snd (f w)\<rparr>)"
    and "\<And>w u. up_to_date w u \<Longrightarrow> up_to_date (w\<lparr>db := snd (f w)\<rparr>) u"
  shows "keeps (account_state R c us) (execute e f)"
  using assms by (intro user_tables.keeps_execute) (auto simp: account_state_def list_all_iff)

lemma keeps_users_update:
  assumes "\<And>w. snd (g w) = (db w)\<lparr>users := update_where hit f (users (db w))\<rparr>"
    and "\<And>u. u_id (f u) = u_id u" "\<And>u. u_public_id (f u) = u_public_id u" "\<And>u. u_email_hash (f u) = u_email_hash u"
      "\<And>u. u_handle (f u) = u_handle u" "\<And>u. u_session_version u \<le> u_session_version (f u)"
  shows "keeps (account_state R c us) (execute e g)"
proof (rule keeps_users_execute)
  fix w assume "accounts_inv R w"
  then show "accounts_inv R (w\<lparr>db := snd (g w)\<rparr>)" unfolding assms(1) by (rule users_updated) (rule assms)+
next
  fix w u assume "up_to_date w u"
  then show "up_to_date (w\<lparr>db := snd (g w)\<rparr>) u"
    unfolding assms(1) up_to_date_def using assms(3,6) by (fastforce intro: order_trans)
qed

section \<open>Statements\<close>

lemma same_tables:
  "accounts_inv R w \<Longrightarrow> same_accounts (db w) d \<Longrightarrow> accounts_inv R (w\<lparr>db := d\<rparr>) \<and> users d = users (db w)"
  by (simp add: accounts_inv_db) (simp add: same_accounts_def)

lemma keeps_removals [keeps_intros]:
  "keeps (account_state R c us) cleanup_expired_pending_registrations"
  "keeps (account_state R c us) (drop_pending email)"
  "keeps (account_state R c us) (execute e (drop_session tok))"
  "keeps (account_state R c us) (execute e (take_reset h))"
  unfolding cleanup_expired_pending_registrations_def drop_pending_def drop_session_def take_reset_def
  by (rule keeps_account_execute; simp add: pending_removed sessions_removed resets_removed)+

lemma keeps_touch [keeps_intros]: "keeps (account_state R c us) (touch_oauth_identity prov sub)"
  unfolding touch_oauth_identity_def
  by (rule keeps_account_execute) (simp add: identities_touched)

lemma insert_session_users:
  "insert_session sid pid v tok w = (r, w') \<Longrightarrow> users (db w') = users (db w) \<and> cfg w' = cfg w"
  by (auto simp: insert_session_def Let_def split: option.splits if_splits)

lemma keeps_insert_session:
  assumes "u \<in> set us"
  shows "keeps (account_state R c us) (stmt h (insert_session sid (u_public_id u) (u_session_version u) tok))"
proof (rule user_tables.keeps_stmt)
  fix w r v
  assume w: "account_state R c us w" and r: "insert_session sid (u_public_id u) (u_session_version u) tok w = (r, v)"
  have "accounts_inv R v"
    using w assms by (intro insert_session_keeps [OF _ r]) (auto simp: account_state_def up_to_date_def list_all_iff)
  with insert_session_users [OF r] show "account_state R c us v" by (intro account_state_users [OF w]) simp_all
qed

lemma other_tables:
  "rotate_session s tok w = (r1, v) \<Longrightarrow> users (db v) = users (db w) \<and> cfg v = cfg w"
  "insert_identity prov sub i w = (r2, v) \<Longrightarrow> users (db v) = users (db w) \<and> cfg v = cfg w"
  "insert_pending row w = (r3, v) \<Longrightarrow> users (db v) = users (db w) \<and> cfg v = cfg w"
  "renew_pending email tok t w = (r4, v) \<Longrightarrow> users (db v) = users (db w) \<and> cfg v = cfg w"
  "insert_reset email tok w = (r5, v) \<Longrightarrow> users (db v) = users (db w) \<and> cfg v = cfg w"
  by (auto simp: rotate_session_def insert_identity_def insert_pending_def renew_pending_def insert_reset_def Let_def
      simp del: exists_where_iff split: option.splits if_splits)

lemma keeps_statements [keeps_intros]:
  "keeps (account_state R c us) (stmt h1 (rotate_session s tok))"
  "keeps (account_state R c us) (stmt h2 (insert_identity prov sub i))"
  "keeps (account_state R c us) (stmt h4 (renew_pending email tok t))"
  "keeps (account_state R c us) (stmt h5 (insert_reset email tok))"
proof -
  show "keeps (account_state R c us) (stmt h1 (rotate_session s tok))"
    by (rule keeps_account_stmt) (metis rotate_session_keeps other_tables(1))
  show "keeps (account_state R c us) (stmt h2 (insert_identity prov sub i))"
    by (rule keeps_account_stmt) (metis insert_identity_keeps other_tables(2))
  show "keeps (account_state R c us) (stmt h4 (renew_pending email tok t))"
    by (rule keeps_account_stmt) (metis renew_pending_keeps other_tables(4))
  show "keeps (account_state R c us) (stmt h5 (insert_reset email tok))"
    by (rule keeps_account_stmt) (metis insert_reset_keeps other_tables(5))
qed

lemma keeps_insert_pending [keeps_intros]:
  assumes "pr_email_hash row = email_lookup c (pr_email row)"
  shows "keeps (account_state R c us) (stmt h (insert_pending row))"
  by (rule keeps_account_stmt) (metis assms insert_pending_keeps other_tables(3))

lemma keeps_credential [keeps_intros]: "keeps (account_state R c us) (stmt h (upsert_credential i cl tok))"
proof (rule keeps_account_stmt)
  fix w r v assume w: "accounts_inv R w" and "upsert_credential i cl tok w = (r, v)"
  then have "same_accounts (db w) (db v)" "cfg v = cfg w" "seqs v = seqs w"
    by (simp_all add: upsert_credential_def Let_def same_accounts_def del: exists_where_iff split: if_split_asm) force+
  then show "accounts_inv R v \<and> users (db v) = users (db w) \<and> cfg v = cfg w"
    using accounts_inv_tables [OF w] by (simp add: same_accounts_def)
qed

lemma keeps_revoke [keeps_intros]: "keeps (account_state R c us) (revoke_auth_token_from_request req)"
proof -
  have insert: "keeps (account_state R c us) (execute e (\<lambda>w. let hash = sha256_hex (cfg w) tok in ((), if token_revoked w hash then db w
      else (db w)\<lparr>revoked_tokens := revoked_tokens (db w) @ [(hash, t)]\<rparr>)))" for e tok t
    by (rule keeps_account_execute) (use same_tables in \<open>simp add: Let_def same_accounts_def\<close>)
  then show ?thesis
    unfolding revoke_auth_token_from_request_def revoke_auth_token_def
    by (intro keeps_intros insert user_tables.keeps_quiet [OF quiet_get_state] user_tables.keeps_quiet [OF quiet_decode_jwt])
qed

lemma keeps_user_updates [keeps_intros]:
  "keeps (account_state R c us) (execute e1 (enable_password_login i))"
  "keeps (account_state R c us) (execute e2 (set_password i h))"
  "keeps (account_state R c us) (execute e3 (\<lambda>w. ((), suspend_user pid flag i (db w))))"
  "keeps (account_state R c us) (execute e4 (\<lambda>w. ((), (db w)\<lparr>users := update_where hit (\<lambda>u. u\<lparr>u_avatar_url := a\<rparr>) (users (db w))\<rparr>)))"
  unfolding enable_password_login_def set_password_def suspend_user_def Let_def
  by (rule keeps_users_update, rule snd_conv, simp_all)+

section \<open>Handlers\<close>

context table_invariant
begin

lemma keeps_closing:
  assumes "grows body" and "keeps inv body"
  shows "keeps inv (transact_closing e body)"
  unfolding keeps_def
proof (intro allI impI)
  fix w assume w: "inv w"
  have later: "later w (snd (body (tick w)))" using growsD [OF assms(1), of "tick w"] by (rule later_trans [OF later_tick(1)])
  have inv: "inv (snd (body (tick w)))" using assms(2) w by (simp add: keeps_def)
  show "inv (snd (transact_closing e body w))"
    using w inv later rollback [OF w]
    by (auto simp: transact_closing_def split: prod.split sum.split)
qed

end

lemma session_quiet [quiet_intros]:
  "quiet (enforce_auth_rate_limit allowed)" "quiet (fetch_user_auth identifier)"
  "quiet (session_response r req cl email handle refresh)" "quiet (auth_fetch_user_by_email email)"
  "quiet (fetch_oauth_user_by_identity prov sub)" "quiet (pending_placeholder_hash rd)"
  "quiet (registration_handle_available h)" "quiet (verification_hash tok)" "quiet (find_pending h)"
  unfolding enforce_auth_rate_limit_def fetch_user_auth_def session_response_def auth_fetch_user_by_email_def
    fetch_oauth_user_by_identity_def pending_placeholder_hash_def registration_handle_available_def
    pending_handle_exists_def verification_hash_def find_pending_def Let_def
  by (intro quiet_intros)+

lemma quiet_unique_handle [quiet_intros]: "quiet (generate_unique_handle draws suffix)"
proof -
  have "quiet (try_candidates ds)" for ds by (induction ds) (auto intro!: quiet_intros)
  then show ?thesis unfolding generate_unique_handle_def Let_def by (intro quiet_intros)
qed

lemma quiet_registration_handle [quiet_intros]:
  "quiet (generate_registration_handle ds)" "quiet (resolve_final_handle d requested)"
proof -
  show "quiet (generate_registration_handle ds)"
    by (induction ds rule: generate_registration_handle.induct) (auto intro!: quiet_intros)
  show "quiet (resolve_final_handle d requested)"
    unfolding resolve_final_handle_def Let_def by (intro quiet_intros)
qed

lemma issue_session_keeps [keeps_intros]:
  assumes "u \<in> set us" and "cl_session_version cl = u_session_version u"
  shows "keeps (account_state R c us) (issue_session r req (u_public_id u) cl email handle)"
  unfolding issue_session_def Let_def assms(2)
  by (intro keeps_intros keeps_insert_session assms(1) user_tables.keeps_quiet quiet_intros)

lemma yields_user_by_email: "yields R c us (auth_fetch_user_by_email email) option_list"
proof -
  have "checks (auth_fetch_user_by_email email) (\<lambda>w x. x = user_by_email w email)"
    unfolding auth_fetch_user_by_email_def by (intro checks_query reads_dataI) (simp add: user_by_email_def)
  then show ?thesis
    by (rule yields_checks)
      (auto simp: user_by_email_def option_list_def intro: state_of_present fewer_users split: option.split dest: find_SomeD)
qed

definition user_for :: "world \<Rightarrow> string \<Rightarrow> user option" where
  "user_for w identifier = (let trimmed = trim identifier in
     if looks_like_email trimmed then user_by_email w trimmed
     else user_by_handle w (normalize_handle (cfg w) trimmed))"

lemma wp_fetch_user_auth:
  "checks (fetch_user_auth identifier) (\<lambda>w x. x = user_for w identifier)"
proof -
  have email: "reads_data (\<lambda>w. user_by_email w t)" for t by (rule reads_dataI) (simp add: user_by_email_def)
  have handle: "reads_data (\<lambda>w. user_by_handle w (normalize_handle (cfg w) t))" for t
    by (rule reads_dataI) (simp add: user_by_handle_def)
  show ?thesis
    using checks_query [OF email] checks_query [OF handle]
    by (simp add: fetch_user_auth_def user_for_def Let_def)
qed

lemma user_for_present: "user_for w identifier = Some u \<Longrightarrow> u \<in> set (users (db w))"
  by (auto simp: user_for_def Let_def user_by_email_def user_by_handle_def split: if_splits dest!: find_SomeD)

lemma yields_user_auth: "yields R c us (fetch_user_auth identifier) option_list"
  by (rule yields_checks [OF wp_fetch_user_auth])
    (auto simp: option_list_def intro: state_of_present fewer_users split: option.split dest: user_for_present)

lemma yields_session_user: "yields R c us (extract_authenticated_user req) (\<lambda>u. [u])"
  by (rule yields_checks [OF checks_user]) (auto simp: live_session_def intro: state_of_present)

lemma option_list_simps [simp]: "option_list None = []" "option_list (Some x) = [x]"
  by (simp_all add: option_list_def)

lemma yields_session:
  assumes "u \<in> set us" and "cl_session_version cl = u_session_version u"
  shows "yields R c us (issue_session r req (u_public_id u) cl email handle) (\<lambda>_. [])"
  by (rule yields_less [OF yields_keeps [OF issue_session_keeps [OF assms]]]) simp

lemma claims_of_version [simp]: "cl_session_version (claims_of w u l) = u_session_version u"
  by (simp add: claims_of_def)

lemma login_keeps: "keeps (accounts_inv R) (login allowed r req identifier password)"
  unfolding login_def
  by (intro yields_keepsI yields_andthen [OF yields_quiet [OF session_quiet(1)]] yields_andthen [OF yields_user_auth]
      yields_some_or yields_get_state yields_require
      yields_andthen [OF yields_keeps [OF keeps_attempt [OF keeps_user_updates(1)]]] yields_session) simp_all

lemma grows_session_statements [grows_intros]:
  "grows (stmt h1 (insert_session sid pid v tok))" "grows (stmt h2 (rotate_session s tok))"
  "grows (stmt h3 (insert_identity prov sub i))" "grows (stmt h4 (insert_pending row))"
  "grows (stmt h5 (renew_pending email tok t))" "grows (stmt h6 (insert_reset email tok))"
  "grows (stmt h7 (insert_user rw))"
  by (rule grows_stmt, simp add: insert_session_def rotate_session_def insert_identity_def insert_pending_def
      renew_pending_def insert_reset_def insert_user_def later_def nextval_def Let_def del: exists_where_iff
      split: option.split prod.split)+

lemma renew_keeps [keeps_intros]: "keeps (account_state R c us) (renew h secret)"
  unfolding renew_def
  by (intro user_tables.keeps_transact_body grows_intros keeps_intros grows_quiet user_tables.keeps_quiet quiet_intros)

lemma refresh_session_keeps: "keeps (accounts_inv R) (refresh_session r req token)"
  unfolding refresh_session_def Let_def
  by (intro yields_keepsI yields_require yields_get_state yields_option yields_andthen [OF yields_session_user]
      yields_andthen [OF yields_keeps [OF renew_keeps]] yields_session)
    (auto intro!: yields_quiet quiet_intros split: prod.split)

lemma logout_keeps: "keeps (accounts_inv R) (logout req token)"
  unfolding logout_def
  by (intro yields_keepsI yields_keeps keeps_intros user_tables.keeps_quiet [OF quiet_get_state])

section \<open>Registration\<close>

lemma keeps_mail [keeps_intros]: "keeps (account_state R c us) (post_mail m)"
  by (auto simp: keeps_def post_mail_def later_def split: mail_reply.split elim: user_tables.rollback)

lemma keeps_mails [keeps_intros]:
  "keeps (account_state R c us) (send_verification_email email link)"
  "keeps (account_state R c us) (send_reset_mail email tok)"
  unfolding send_verification_email_def send_reset_mail_def
  by (intro keeps_intros user_tables.keeps_quiet [OF quiet_get_state])+

lemma quiet_unique_or [quiet_intros]: "quiet (unique_or r)"
  by (auto simp: unique_or_def intro!: quiet_intros split: sum.split)

lemma grows_acts [grows_intros]:
  "grows (drop_pending email)"
  unfolding drop_pending_def by (intro grows_intros)

lemma store_pending_yields: "yields R c [] (store_pending rd email) (\<lambda>_. [])"
  unfolding store_pending_def Let_def
proof (intro yields_get_state yields_keeps user_tables.keeps_transact_body, goal_cases)
  case (1 w)
  show ?case by (intro grows_intros) (intro grows_quiet quiet_intros)+
next
  case (2 w)
  then have "cfg w = c" by (simp add: account_state_def)
  then show ?case
    by (intro keeps_intros) (auto simp: new_pending_def intro!: user_tables.keeps_quiet quiet_intros)
qed

lemma register_keeps: "keeps (accounts_inv R) (register allowed email_allowed rd email)"
  unfolding register_def Let_def
  by (intro yields_keepsI yields_andthen [OF yields_quiet [OF session_quiet(1)]] yields_get_state yields_require
      yields_andthen [OF yields_keeps [OF keeps_removals(1)]] yields_andthen [OF yields_quiet [OF session_quiet(4)]]
      yields_if yields_andthen [OF store_pending_yields] yields_andthen [OF yields_keeps [OF keeps_mails(1)]] yields_simple) simp_all

lemma verify_email_keeps: "keeps (accounts_inv R) (verify_email tok)"
  unfolding verify_email_def Let_def
  by (intro yields_keepsI yields_keeps keeps_intros user_tables.keeps_closing user_tables.keeps_quiet grows_intros grows_quiet quiet_intros)

lemma wp_transact_closing:
  assumes "grows body"
    and "wp body (\<lambda>(r, how, ab) v. case r of Inr y \<Rightarrow> how = Commit \<and> \<not> ab \<and> Q y v | Inl x \<Rightarrow> P v) (\<lambda>_ _. True) (tick w)"
    and "\<And>y v. Q y v \<Longrightarrow> Q y (tick v)" and "\<And>v. P v \<Longrightarrow> P (tick v)" and "\<And>v. db v = db w \<Longrightarrow> later w v \<Longrightarrow> P v"
  shows "wp (transact_closing e body) Q (\<lambda>_. P) w"
proof -
  let ?v = "snd (body (tick w))"
  have later: "later w ?v" using growsD [OF assms(1), of "tick w"] by (rule later_trans [OF later_tick(1)])
  obtain res v where res: "body (tick w) = (res, v)" by force
  show ?thesis
  proof (cases res)
    case (Inl x)
    then show ?thesis using res later assms(5) by (simp add: wp_def transact_closing_def)
  next
    case (Inr t)
    obtain r how ab where t: "t = (r, how, ab)" by (cases t)
    show ?thesis
      using assms(2) later assms(3-5) res Inr t
      by (cases r) (auto simp: wp_def transact_closing_def)
  qed
qed

lemma keeps_insert_user:
  assumes "\<And>k. u_id (rw k) = k"
  shows "keeps (account_state R c []) (stmt h (insert_user rw))"
proof (rule user_tables.keeps_stmt)
  fix w r v assume w: "account_state R c [] w" and r: "insert_user rw w = (r, v)"
  have "cfg v = cfg w" using r
    by (auto simp: insert_user_def Let_def nextval_def simp del: exists_where_iff split: if_splits)
  then show "account_state R c [] v"
    using insert_user_keeps [OF _ r assms] w by (auto simp: account_state_def)
qed

lemma checks_pending [check_intros]:
  "checks (find_pending h) (\<lambda>w p. find (\<lambda>r. pr_token_hash r = h) (pending_registrations (db w)) = Some p)"
  unfolding find_pending_def
  by (rule checks_mono [OF checks_andthen [OF checks_query_db checks_some_or]]) (auto simp: stable_def same_data_def)

lemma checks_account [check_intros]:
  "checks (auth_fetch_user_by_email email) (\<lambda>w x. x = user_by_email w email)"
  unfolding auth_fetch_user_by_email_def by (intro checks_query reads_dataI) (simp add: user_by_email_def)

lemma checks_final_handle [check_intros]: "checks (resolve_final_handle d h) (\<lambda>_ x. is_valid_handle x)"
proof (cases h)
  case None
  have "checks (generate_unique_handle f k) (\<lambda>_ x. is_valid_handle x)" for f k
    by (rule checksI) (auto simp: stable_def intro: wp_mono [OF generate_unique_handle_spec])
  then have "wp (generate_unique_handle f k) (\<lambda>x v. same_data w v \<and> is_valid_handle x) (\<lambda>_. same_data w) w" for f k w
    by (rule checksD)
  then show ?thesis
    unfolding resolve_final_handle_def None by (intro checksI) (simp_all add: stable_def wp_map_error)
next
  case (Some raw)
  show ?thesis
    unfolding resolve_final_handle_def Some
  proof (rule checksI)
    fix w
    show "wp (case Some raw of Some raw \<Rightarrow> andthen get_state (\<lambda>w. let normalized = normalize_handle (cfg w) raw in
          andthen (require (is_valid_handle normalized) (bad_request ''invalid_handle'')) (\<lambda>_.
          andthen (handle_available normalized) (\<lambda>free. andthen (require free (conflict ''handle_taken'')) (\<lambda>_. return normalized))))
        | None \<Rightarrow> map_error (\<lambda>_. handle_generation_failed) (generate_unique_handle (fst d) (snd d)))
      (\<lambda>x v. same_data w v \<and> is_valid_handle x) (\<lambda>_. same_data w) w"
      by (auto simp: wp_simps Let_def handle_available_def)
  qed (simp add: stable_def)
qed

lemma wp_ifI: "(b \<Longrightarrow> wp m Q E s) \<Longrightarrow> (\<not> b \<Longrightarrow> wp n Q E s) \<Longrightarrow> wp (if b then m else n) Q E s"
  by simp

lemmas session_guards = check_intros [THEN wp_checked]

text \<open>The account that a completed registration stores.\<close>

definition registered_account :: "completion_draws \<Rightarrow> string \<Rightarrow> string \<Rightarrow> world \<Rightarrow> user \<Rightarrow> database \<Rightarrow> bool" where
  "registered_account rd h password w u d \<longleftrightarrow>
     (\<exists>p. find (\<lambda>r. pr_token_hash r = h) (pending_registrations (db w)) = Some p
        \<and> clock w \<le> pr_expires_at p \<and> user_by_email w (pr_email p) = None
        \<and> hash_password (cfg w) (cd_salt rd) password = Some (u_password_hash u)
        \<and> u = new_user (cfg w) (cd_public_id rd) (pr_email p) (u_handle u) (u_password_hash u) True (u_id u)
        \<and> is_valid_handle (u_handle u) \<and> \<not> handle_taken w (u_handle u)
        \<and> d = (db w)\<lparr>users := users (db w) @ [u], pending_registrations :=
            delete_where (\<lambda>r. pr_email_hash r = email_lookup (cfg w) (pr_email p)) (pending_registrations (db w))\<rparr>)"

lemma insert_user_row:
  assumes "insert_user rw w = (Inr (Inr u), v)"
  shows "\<exists>k. u = rw k" "\<not> handle_taken w (u_handle u)"
    "db v = (db w)\<lparr>users := users (db w) @ [u]\<rparr>" "cfg v = cfg w" "clock v = clock w"
  using assms by (auto simp: insert_user_def Let_def nextval_def handle_taken_def split: if_splits)

lemma store_account_spec:
  assumes "db u = db w" and "cfg u = cfg w"
    and "\<And>a v. (\<exists>k. a = rw k) \<Longrightarrow> \<not> handle_taken w (u_handle a) \<Longrightarrow>
      db v = (db w)\<lparr>users := users (db w) @ [a], pending_registrations :=
            delete_where (\<lambda>r. pr_email_hash r = email_lookup (cfg w) email) (pending_registrations (db w))\<rparr> \<Longrightarrow> Q (Inr a, Commit, False) v"
  shows "wp (andthen (stmt (\<lambda>_. db_error) (insert_user rw)) (\<lambda>inserted. andthen (unique_or inserted) (\<lambda>u.
    andthen (drop_pending email) (\<lambda>_. return (Inr u, Commit, False))))) Q (\<lambda>_ _. True) u"
  unfolding wp_andthen
proof (rule wp_stmtI, goal_cases)
  case (1 r v)
  show ?case
  proof (cases r)
    case (Inl c)
    then show ?thesis by (simp add: unique_or_def wp_throw)
  next
    case (Inr a)
    with 1 have "insert_user rw (tick u) = (Inr (Inr a), v)" by simp
    from insert_user_row [OF this] assms
    show ?thesis
      using Inr by (auto simp: unique_or_def wp_return drop_pending_def wp_execute handle_taken_def intro!: assms(3))
  qed
qed simp_all

lemma complete_tx_spec:
  "wp (complete_tx rd h password wish) (\<lambda>u v. registered_account rd h password w u (db v))
     (\<lambda>_ v. users (db v) = users (db w) \<and> mobile_sessions (db v) = mobile_sessions (db w)) w"
  unfolding complete_tx_def
proof (rule wp_transact_closing, goal_cases)
  case 1
  show ?case by (intro grows_intros) (intro grows_quiet quiet_intros)+
next
  case 2
  show ?case
  proof (intro session_guards [where w = "tick w"] same_data_refl wp_ifI, goal_cases)
    case (8 p v1 t v2 found v3 hd v4 x v5 hash v6)
    have v6: "db v6 = db w" "cfg v6 = cfg w" "cfg x = cfg w" using 8(12,13) by (simp_all add: same_data_def)
    have found: "find (\<lambda>r. pr_token_hash r = h) (pending_registrations (db w)) = Some p" "clock w \<le> pr_expires_at p"
      "user_by_email w (pr_email p) = None" "is_valid_handle hd"
      "hash_password (cfg w) (cd_salt rd) password = Some hash"
      using 8 v6(3) by (simp_all add: user_by_email_def)
    show ?case
    proof (rule store_account_spec [OF v6(1,2)], goal_cases)
      case (1 a v)
      then have "registered_account rd h password w a (db v)"
        unfolding registered_account_def using found v6(3)
        by (intro exI [of _ p]) (auto simp: new_user_def)
      then show ?case by simp
    qed
  qed (auto simp: same_data_def wp_simps drop_pending_def)
qed (simp_all add: same_data_def)

lemma yields_complete_tx: "yields R c [] (complete_tx rd h password wish) (\<lambda>u. [u])"
  unfolding yields_def
proof (intro allI impI)
  fix w assume w: "account_state R c [] w"
  have "keeps (account_state R c []) (complete_tx rd h password wish)"
    unfolding complete_tx_def
    by (intro user_tables.keeps_closing keeps_intros keeps_insert_user grows_intros)
      (auto simp: new_user_def intro!: user_tables.keeps_quiet grows_quiet quiet_intros)
  from wp_conj [OF keepsD [OF this w] complete_tx_spec [of rd h password wish w]]
  show "wp (complete_tx rd h password wish) (\<lambda>u. account_state R c [u]) (\<lambda>_. account_state R c []) w"
    by (rule wp_mono) (auto simp: registered_account_def intro: state_of_present)
qed

lemma complete_registration_keeps: "keeps (accounts_inv R) (complete_registration rd req tok password wish)"
  unfolding complete_registration_def Let_def
  by (intro yields_keepsI yields_require yields_get_state yields_andthen [OF yields_quiet [OF session_quiet(8)]]
      yields_andthen [OF yields_complete_tx] yields_session) simp_all

section \<open>Identities of other services\<close>

lemma checks_identity:
  "checks (fetch_oauth_user_by_identity prov sub) (\<lambda>w x. x = Option.bind
      (find (is_identity (cfg w) prov sub) (oauth_identities (db w))) (\<lambda>o'. find (\<lambda>u. u_id u = oi_user_id o') (users (db w))))"
  unfolding fetch_oauth_user_by_identity_def by (intro checks_query reads_dataI) simp

lemma yields_identity: "yields R c us (fetch_oauth_user_by_identity prov sub) option_list"
  by (rule yields_checks [OF checks_identity])
    (auto simp: option_list_def bind_eq_Some_conv intro: state_of_present fewer_users split: option.split dest: find_SomeD)

lemma yields_attempt_option:
  assumes "yields R c us m option_list"
  shows "yields R c us (attempt m) (\<lambda>x. case x of Some (Some u) \<Rightarrow> [u] | _ \<Rightarrow> [])"
  using assms unfolding yields_def wp_attempt
  by (auto elim!: wp_mono simp: option_list_def split: option.split)

lemma yields_insert_user:
  assumes "\<And>k. u_id (rw k) = k"
  shows "yields R c [] (stmt h (insert_user rw)) (\<lambda>r. case r of Inr u \<Rightarrow> [u] | Inl _ \<Rightarrow> [])"
  unfolding yields_def
proof (intro allI impI)
  fix w assume w: "account_state R c [] w"
  have "wp (stmt h (insert_user rw)) (\<lambda>r v. \<forall>u. r = Inr u \<longrightarrow> u \<in> set (users (db v))) (\<lambda>_ _. True) w"
    by (rule wp_stmtI) (auto dest: insert_user_row)
  from wp_conj [OF keepsD [OF keeps_insert_user [OF assms] w] this]
  show "wp (stmt h (insert_user rw)) (\<lambda>r. account_state R c (case r of Inr u \<Rightarrow> [u] | Inl _ \<Rightarrow> [])) (\<lambda>_. account_state R c []) w"
    by (rule wp_mono) (auto intro: state_of_present split: sum.split)
qed

lemma yields_sum:
  "(\<And>a. x = Inl a \<Longrightarrow> yields R c us (f a) vs) \<Longrightarrow> (\<And>b. x = Inr b \<Longrightarrow> yields R c us (g b) vs)
   \<Longrightarrow> yields R c us (case x of Inl a \<Rightarrow> f a | Inr b \<Rightarrow> g b) vs"
  by (simp split: sum.split)

lemma yields_create_oauth_user: "yields R c [] (create_oauth_user rd email) (\<lambda>u. [u])"
  unfolding create_oauth_user_def
proof (intro yields_andthen [OF yields_quiet [OF quiet_map_error [OF quiet_unique_handle]]] yields_get_state yields_some_or
    yields_andthen [OF yields_insert_user] yields_sum yields_andthen [OF yields_attempt_option [OF yields_user_by_email]], goal_cases)
  case (2 x w y z a again)
  then show ?case by (auto simp: yields_simple split: option.split)
qed (auto simp: new_user_def yields_simple)

lemma yields_touched:
  "yields R c [u] (andthen (attempt (touch_oauth_identity prov sub)) (\<lambda>_. return u)) (\<lambda>u. [u])"
  by (intro yields_andthen [OF yields_keeps [OF keeps_attempt [OF keeps_touch]]] yields_simple) simp

lemma yields_resolve: "yields R c [] (resolve_oauth_user rd prov sub email) (\<lambda>u. [u])"
  unfolding resolve_oauth_user_def
proof (rule yields_andthen [OF yields_identity], rule yields_option, goal_cases)
  case (1 found)
  have account: "yields R c (option_list row) (case row of None \<Rightarrow> create_oauth_user rd em | Some u \<Rightarrow> return u) (\<lambda>u. [u])"
    for row em by (cases row) (simp_all add: yields_create_oauth_user yields_simple)
  have rest: "yields R c us (case again of Some (Some u) \<Rightarrow> andthen (attempt (touch_oauth_identity prov sub)) (\<lambda>_. return u)
      | _ \<Rightarrow> throw db_error) (\<lambda>u. [u])" if "us = (case again of Some (Some u) \<Rightarrow> [u] | _ \<Rightarrow> [])" for us again
    unfolding that by (auto simp: yields_touched yields_simple split: option.split)
  from 1 show ?case
    by (auto intro!: yields_some_or yields_andthen [OF yields_user_by_email] yields_andthen [OF account]
        yields_andthen [OF yields_keeps [OF keeps_statements(2)]] yields_andthen [OF yields_keeps [OF keeps_attempt [OF keeps_removals(2)]]]
        yields_andthen [OF yields_attempt_option [OF yields_identity]] rest)
next
  case (2 found u)
  then show ?case by (simp add: yields_touched)
qed

lemma yields_prod: "(\<And>a b. x = (a, b) \<Longrightarrow> yields R c us (f a b) vs) \<Longrightarrow> yields R c us (case x of (a, b) \<Rightarrow> f a b) vs"
  by (simp split: prod.split)

lemma yields_open_session: "yields R c [u] (open_session rd req u) (\<lambda>_. [])"
  unfolding open_session_def by (intro yields_require yields_get_state yields_session) simp_all

lemma yields_google: "yields R c [] (oauth_google rd req p) (\<lambda>_. [])"
  unfolding oauth_google_def Let_def
  by (intro yields_get_state yields_require yields_some_or yields_prod yields_andthen [OF yields_resolve] yields_open_session)

lemma keeps_save_code [keeps_intros]: "keeps (account_state R c us) (save_code a i cl code android)"
  unfolding save_code_def by (intro keeps_intros) (intro user_tables.keeps_quiet quiet_intros)+

lemma yields_apple: "yields R c [] (oauth_apple a rd req p) (\<lambda>_. [])"
  unfolding oauth_apple_def Let_def
  by (intro yields_get_state yields_require yields_some_or yields_prod yields_andthen [OF yields_resolve]
      yields_andthen [OF yields_keeps] keeps_intros yields_open_session)

lemma oauth_login_keeps: "keeps (accounts_inv R) (oauth_login allowed a rd req prov p)"
  unfolding oauth_login_def Let_def
  by (intro yields_keepsI yields_get_state yields_andthen [OF yields_quiet [OF session_quiet(1)]] yields_if
      yields_google yields_apple yields_simple)

lemma reauthorize_keeps: "keeps (accounts_inv R) (reauthorize allowed a req p)"
  unfolding reauthorize_def Let_def
  by (intro yields_keepsI yields_keeps keeps_intros) (intro user_tables.keeps_quiet quiet_intros)+

section \<open>Passwords, profiles, moderation\<close>

lemma request_reset_keeps: "keeps (accounts_inv R) (request_reset allowed ea rd email)"
  unfolding request_reset_def Let_def
  by (intro yields_keepsI yields_keeps keeps_intros) (intro user_tables.keeps_quiet quiet_intros)+

lemma confirm_reset_keeps: "keeps (accounts_inv R) (confirm_reset allowed salt tok password)"
  unfolding confirm_reset_def reset_tx_def
  by (intro yields_keepsI yields_keeps keeps_intros user_tables.keeps_transact_body grows_intros)
    (intro user_tables.keeps_quiet grows_quiet quiet_intros)+

lemma upload_avatar_keeps: "keeps (accounts_inv R) (upload_avatar name req p)"
proof -
  have stored: "keeps (account_state R c us) (write_avatar_file f)" for c us f
    by (auto simp: keeps_def write_avatar_file_def later_def elim: user_tables.rollback)
  have avatar: "keeps (account_state R c us) (execute e (set_avatar em url))" for c us e em url
  proof (rule keeps_users_execute)
    fix w assume w: "accounts_inv R w"
    show "accounts_inv R (w\<lparr>db := snd (set_avatar em url w)\<rparr>)"
      using w users_updated [OF w, of "\<lambda>r. r\<lparr>u_avatar_url := Some url\<rparr>"] by (simp add: set_avatar_def split: option.split)
  next
    fix w u assume "up_to_date w u"
    then show "up_to_date (w\<lparr>db := snd (set_avatar em url w)\<rparr>) u"
      by (auto simp: set_avatar_def up_to_date_def split: option.split)
  qed
  show ?thesis
    unfolding upload_avatar_def Let_def
    by (intro yields_keepsI yields_keeps keeps_intros stored avatar) (intro user_tables.keeps_quiet quiet_intros)+
qed

lemma update_handle_keeps: "keeps (accounts_inv R) (update_handle req h)"
proof -
  have row: "keeps (accounts_inv R) (stmt handle_error (update_user_handle em new))" for em new
    by (rule account_tables.keeps_stmt) (rule update_handle_keeps_row)
  show ?thesis
    unfolding update_handle_def Let_def
    by (intro keeps_intros row) (intro account_tables.keeps_quiet quiet_intros)+
qed

lemma moderate_keeps_accounts: "keeps (accounts_inv R) (moderate req p)"
proof -
  have who: "quiet (ensure_moderator req)"
    unfolding ensure_moderator_def by (intro quiet_intros quiet_checks [OF checks_user])
  have other: "keeps (account_state R c us) (execute e f)"
    if "\<And>w. same_accounts (db w) (snd (f w))" for c us e and f :: "world \<Rightarrow> unit \<times> database"
    using that same_tables by (intro keeps_account_execute) blast
  have terms: "keeps (account_state R c us) (stmt h (insert_term t))" for c us h t
  proof (rule user_tables.keeps_stmt)
    fix w r v assume w: "account_state R c us w" and "insert_term t w = (r, v)"
    then have "same_accounts (db w) (db v)" "cfg v = cfg w" "seqs v = seqs w"
      by (auto simp: insert_term_def Let_def same_accounts_def split: if_splits)
    then show "account_state R c us v"
      using accounts_inv_tables [of R w v] w by (auto simp: account_state_def same_accounts_def up_to_date_def list_all_iff)
  qed
  have event: "keeps (account_state R c us) (stmt h (update_event_row i q f))" for c us h i q f
  proof (rule user_tables.keeps_stmt)
    fix w r v assume w: "account_state R c us w" and "update_event_row i q f w = (r, v)"
    then have "same_accounts (db w) (db v)" "cfg v = cfg w" "seqs v = seqs w"
      by (auto simp: update_event_row_def Let_def same_accounts_def split: if_splits option.splits)
    then show "account_state R c us v"
      using accounts_inv_tables [of R w v] w by (auto simp: account_state_def same_accounts_def up_to_date_def list_all_iff)
  qed
  show ?thesis
    unfolding moderate_def moderate_with_def hide_avatar_def Let_def
    by (intro yields_keepsI yields_keeps keeps_intros user_tables.keeps_transact_body grows_intros other terms event)
      (auto simp: same_accounts_def close_report_def intro!: user_tables.keeps_quiet grows_quiet quiet_intros who)
qed

lemma cleanup_auth_keeps: "keeps (accounts_inv R) cleanup_auth_state"
  unfolding cleanup_auth_state_def cleanup_expired_revoked_tokens_def
  by (intro keeps_intros account_tables.keeps_execute)
    (auto simp: sessions_removed resets_removed expire_invitations_def same_accounts_def intro: accounts_inv_db)

lemma erased_keeps:
  assumes "accounts_inv R w"
  shows "accounts_inv R (w\<lparr>db := erased i (db w)\<rparr>)"
proof -
  define d where "d = delete_brings i (recomputed (affected_items i (queue_revocations i (db w)))
      (delete_own_reservations i (queue_revocations i (db w))))"
  have "same_accounts (db w) d"
    by (simp add: d_def same_accounts_def delete_brings_def Let_def recomputed_def delete_own_reservations_def
        queue_revocations_def)
  from user_deleted [OF accounts_inv_db [OF assms this], of i]
  show ?thesis by (simp add: erased_def Let_def d_def)
qed

lemma delete_account_keeps: "keeps (accounts_inv R) (delete_account req)"
proof (rule keepsI)
  fix w assume w: "accounts_inv R w"
  have sums: "grows (stmt h (sum_reserved k))" for h k
    by (rule grows_stmt) (auto simp: sum_reserved_def Let_def split: prod.split)
  have "grows (delete_account req)"
    unfolding delete_account_def delete_account_tx_def
    by (intro grows_intros grows_transact sums) (intro grows_quiet quiet_intros quiet_checks [OF checks_user])+
  from wp_conj [OF wp_grows [OF this later_refl] delete_account_spec [of req w]]
  show "wp (delete_account req) (\<lambda>_. accounts_inv R) (\<lambda>_. accounts_inv R) w"
  proof (rule wp_mono, goal_cases)
    case (1 x v)
    then obtain i where "db v = erased i (db w)" "later w v" by blast
    then show ?case by (intro accounts_inv_tables [OF erased_keeps [OF w, of i]]) (simp_all add: same_accounts_def later_def)
  next
    case (2 e v)
    then show ?case using account_tables.rollback [OF w] by blast
  qed
qed

section \<open>The system\<close>

text \<open>The other components leave these tables alone; time passes.\<close>

inductive account_step :: "world \<Rightarrow> world \<Rightarrow> bool" where
  sign_in: "account_step w (snd (login allowed r req identifier password w))"
| renewal: "account_step w (snd (refresh_session r req token w))"
| sign_out: "account_step w (snd (logout req token w))"
| registration: "account_step w (snd (register allowed email_allowed rd email w))"
| verification: "account_step w (snd (verify_email tok w))"
| completion: "account_step w (snd (complete_registration cd req tok password wish w))"
| other_service: "account_step w (snd (oauth_login allowed a ad req prov p w))"
| reauthorization: "account_step w (snd (reauthorize allowed a req p w))"
| reset_request: "account_step w (snd (request_reset allowed email_allowed r email w))"
| reset_use: "account_step w (snd (confirm_reset allowed salt tok password w))"
| new_handle: "account_step w (snd (update_handle q h w))"
| new_avatar: "account_step w (snd (upload_avatar name q f w))"
| moderator: "account_step w (snd (moderate q mp w))"
| deletion: "account_step w (snd (delete_account q w))"
| clean_up: "account_step w (snd (cleanup_auth_state w))"
| elsewhere: "same_accounts (db w) (db v) \<Longrightarrow> cfg v = cfg w \<Longrightarrow> seqs w UserSeq \<le> seqs v UserSeq \<Longrightarrow> account_step w v"

definition no_accounts :: "world \<Rightarrow> bool" where
  "no_accounts w \<longleftrightarrow> users (db w) = [] \<and> mobile_sessions (db w) = [] \<and> password_resets (db w) = []
     \<and> oauth_identities (db w) = [] \<and> pending_registrations (db w) = []"

lemma account_step_keeps: "accounts_inv R w \<Longrightarrow> account_step w v \<Longrightarrow> accounts_inv R v"
proof -
  assume "account_step w v" and "accounts_inv R w"
  then show "accounts_inv R v"
    by (induction rule: account_step.induct)
      (blast intro: keeps_snd login_keeps refresh_session_keeps logout_keeps register_keeps verify_email_keeps
        complete_registration_keeps oauth_login_keeps reauthorize_keeps request_reset_keeps confirm_reset_keeps
        update_handle_keeps upload_avatar_keeps moderate_keeps_accounts delete_account_keeps cleanup_auth_keeps
        accounts_inv_tables)+
qed

interpretation revoking: invariant_system "accounts_inv R" account_step "accounts_inv R" for R
  by unfold_locales (assumption, rule account_step_keeps)

interpretation enrolling: invariant_system no_accounts account_step "accounts_inv {}"
proof
  fix w assume "no_accounts w"
  then show "accounts_inv {} w"
    by (simp add: no_accounts_def accounts_inv_def accounts_ok_def sessions_ok_def pending_ok_def)
qed (rule account_step_keeps)

end
