(* ===== verification/Session_Properties.thy ===== *)
theory Session_Properties
  imports Session_Invariant Example "HOL-Library.Code_Target_Nat"
begin

text \<open>
  What holds of accounts and their sessions: who is signed in, how secrets are replaced, that a revoked
  session is gone for good, how accounts come about and how a forgotten password is changed.
\<close>

section \<open>A concrete world\<close>

text \<open>
  Tokens are printed numbers; \<open>ada\<close> has a device session whose secret is \<open>s1\<close>, and a new address is
  waiting to be verified.
\<close>

definition account_config :: config where
  "account_config = example_config\<lparr>uuid_parse := (\<lambda>s. if s = ''7'' then Some 7 else None)\<rparr>"

definition ada_session :: mobile_session where
  "ada_session = \<lparr>ms_id = 1, ms_user_id = 1, ms_session_version = 0, ms_token_hash = ''s1'', ms_previous_hash = None,
     ms_previous_until = None, ms_token = ''s1'', ms_created_at = 0, ms_expires_at = days 90\<rparr>"

definition eve_pending :: pending_registration where
  "eve_pending = \<lparr>pr_email_hash = ''eve@x'', pr_email = ''eve@x'', pr_password_hash = ''p'', pr_handle = ''eve-0001'',
     pr_token_hash = ''7'', pr_token = Some ''7'', pr_expires_at = days 1\<rparr>"

definition account_world :: world where
  "account_world = (example_world (example_db\<lparr>mobile_sessions := [ada_session], pending_registrations := [eve_pending],
     password_resets := [\<lparr>pw_user_id = 2, pw_token_hash = replicate 64 CHR ''t'', pw_expires_at = days 1, pw_requested_at = 0\<rparr>]\<rparr>))
     \<lparr>cfg := account_config\<rparr>"

lemma account_world_inv: "accounts_inv {} account_world"
proof -
  have "accounts_ok (cfg account_world) (db account_world)" by code_simp
  moreover have "sessions_ok (db account_world)" by code_simp
  moreover have "pending_ok (cfg account_world) (db account_world)" by code_simp
  moreover have "list_all (\<lambda>u. u_id u \<le> seqs account_world UserSeq) (users (db account_world))" by code_simp
  ultimately show ?thesis by (simp add: accounts_inv_def list_all_iff)
qed

definition device_request :: client_request where
  "device_request = \<lparr>r_authorization = None, r_session_cookie = None, cr_auth_response = Some ''bearer-refresh'',
     cr_scheme = None, cr_forwarded = None, cr_forwarded_proto = None\<rparr>"

definition some_draws :: drawn where
  "some_draws = \<lparr>dn_session = 5, dn_first = 8, dn_second = 9, dn_jti = 6\<rparr>"

section \<open>The tables\<close>

text \<open>
  C6. Whatever requests are made and whichever statements fail: accounts differ in identifier, public
  identifier, address and handle (up to case), every device session and every identity of another
  service belongs to an account, no session is ahead of the session version of its account, no two
  share a secret, and an address and a link belong to one pending registration at most.
\<close>

theorem accounts_stay_sound:
  assumes "reachable no_accounts account_step w"
  shows "distinct (map u_id (users (db w))) \<and> distinct (map u_public_id (users (db w)))
     \<and> distinct (map u_email_hash (users (db w))) \<and> distinct (map (\<lambda>u. sql_lower (cfg w) (u_handle u)) (users (db w)))
     \<and> (\<forall>s \<in> set (mobile_sessions (db w)). \<exists>u \<in> set (users (db w)). u_id u = ms_user_id s
          \<and> ms_session_version s \<le> u_session_version u)
     \<and> distinct (map ms_token_hash (mobile_sessions (db w)))
     \<and> distinct (map (\<lambda>o'. (oi_provider o', oi_subject_hash o')) (oauth_identities (db w)))
     \<and> (\<forall>o' \<in> set (oauth_identities (db w)). \<exists>u \<in> set (users (db w)). u_id u = oi_user_id o')
     \<and> distinct (map pr_email_hash (pending_registrations (db w)))
     \<and> distinct (map pr_token_hash (pending_registrations (db w)))"
  using enrolling.reachable_inv [OF assms]
  by (simp add: accounts_inv_def accounts_ok_def sessions_ok_def pending_ok_def)

definition newcomer :: completion_draws where
  "newcomer = \<lparr>cd_public_id = 70, cd_handle = (\<lambda>n. \<lparr>dr_first = n, dr_second = 0, dr_number = 0\<rparr>, 0), cd_salt = 3,
     cd_session = some_draws\<rparr>"

definition eve_joins :: "world \<Rightarrow> (api_error + token_response answer) \<times> world" where
  "eve_joins = complete_registration newcomer device_request ''7'' ''Correct-Horse-1'' (Some ''eve-1'')"

definition registering :: registration_draws where
  "registering = \<lparr>rd_token = 7, rd_handles = (\<lambda>_. cd_handle newcomer), rd_password = 1, rd_salt = 2\<rparr>"

definition before_accounts :: world where
  "before_accounts = (example_world (example_db\<lparr>users := []\<rparr>))\<lparr>cfg := account_config\<rparr>"

definition founded_world :: world where
  "founded_world = snd (eve_joins (snd (register True True registering ''eve@x.org'' before_accounts)))"

lemma founded_reachable: "reachable no_accounts account_step founded_world"
proof -
  have "no_accounts before_accounts"
    by (simp add: no_accounts_def before_accounts_def example_db_def)
  then show ?thesis
    unfolding founded_world_def eve_joins_def
    by (blast intro: reachable.start reachable.next_step account_step.registration account_step.completion)
qed

lemma accounts_stay_sound_witness:
  "map (\<lambda>u. (u_id u, u_handle u)) (users (db founded_world)) = [(101, ''eve-1'')]
     \<and> length (mobile_sessions (db founded_world)) = 1 \<and> distinct (map ms_token_hash (mobile_sessions (db founded_world)))"
proof -
  have "map (\<lambda>u. (u_id u, u_handle u)) (users (db founded_world)) = [(101, ''eve-1'')]" by code_simp
  moreover have "length (mobile_sessions (db founded_world)) = 1" by code_simp
  ultimately show ?thesis using accounts_stay_sound [OF founded_reachable] by blast
qed

section \<open>Signing in\<close>

text \<open>What an answer with a token adds: at most one device session of the account, of its present version.\<close>

definition opens_session :: "user \<Rightarrow> database \<Rightarrow> database \<Rightarrow> bool" where
  "opens_session u d e \<longleftrightarrow> e = d \<or> (\<exists>s. e = d\<lparr>mobile_sessions := mobile_sessions d @ [s]\<rparr>
     \<and> ms_user_id s = u_id u \<and> ms_session_version s = u_session_version u)"

lemma wp_session_response:
  "wp (session_response r req cl email handle refresh) (\<lambda>a v. v = w \<and> tr_public_id (ans_body a) = cl_sub cl
      \<and> tr_refresh_token (ans_body a) = refresh)
     (\<lambda>e v. v = w \<and> e = ApiError 500 ''token_creation_failed'') w"
  by (simp add: session_response_def wp_simps token_answer_def split: option.split)

lemma insert_session_opens:
  assumes "accounts_inv {} w" and "u \<in> set (users (db w))"
    and "insert_session sid (u_public_id u) (u_session_version u) tok w = (Inr n, v)" and "n = 1"
  shows "opens_session u (db w) (db v)"
proof -
  have "find (\<lambda>r. u_public_id r = u_public_id u) (users (db w)) = Some u"
    using assms(1,2) by (auto simp: accounts_inv_def accounts_ok_def find_Some_iff_key)
  then show ?thesis
    using assms(3,4) by (auto simp: insert_session_def Let_def opens_session_def split: if_splits)
qed

lemma issue_session_spec:
  assumes "accounts_inv {} w" and "u \<in> set (users (db w))" and "cl_session_version cl = u_session_version u"
  shows "wp (issue_session r req (u_public_id u) cl email handle)
     (\<lambda>a v. tr_public_id (ans_body a) = cl_sub cl \<and> opens_session u (db w) (db v))
     (\<lambda>e v. (e = session_db_error \<or> e = ApiError 500 ''token_creation_failed'') \<and> opens_session u (db w) (db v)) w"
proof -
  have same: "opens_session u (db w) (db w)" by (simp add: opens_session_def)
  show ?thesis
    unfolding issue_session_def wp_andthen wp_get_state Let_def
  proof (rule wp_ifI, unfold wp_andthen)
    show "wp (stmt (\<lambda>_. session_db_error) (insert_session (dn_session r) (u_public_id u) (cl_session_version cl) (refresh_secret (cfg w) r)))
        (\<lambda>n. wp (require (n = 1) session_db_error) (\<lambda>_. wp (session_response r req (cl\<lparr>cl_exp := now_ts w + 3600\<rparr>) email handle
           (Some (refresh_secret (cfg w) r))) (\<lambda>a v. tr_public_id (ans_body a) = cl_sub cl \<and> opens_session u (db w) (db v))
           (\<lambda>e v. (e = session_db_error \<or> e = ApiError 500 ''token_creation_failed'') \<and> opens_session u (db w) (db v)))
           (\<lambda>e v. (e = session_db_error \<or> e = ApiError 500 ''token_creation_failed'') \<and> opens_session u (db w) (db v)))
        (\<lambda>e v. (e = session_db_error \<or> e = ApiError 500 ''token_creation_failed'') \<and> opens_session u (db w) (db v)) w"
    proof (rule wp_stmtI, goal_cases)
      case (1 n v)
      have "opens_session u (db w) (db v)" if "n = 1"
        using insert_session_opens [of "tick w" u _ _ n v] assms 1 that account_tables.inv_tick by simp
      moreover have "db v = db w" if "n \<noteq> 1"
        using 1 that by (auto simp: insert_session_def Let_def split: option.splits if_splits)
      ultimately show ?case
        using same by (auto simp: wp_require intro!: wp_mono [OF wp_session_response])
    next
      case (2 e v)
      then show ?case using same by (auto simp: insert_session_def Let_def split: option.splits if_splits)
    qed (simp add: same)
    show "wp (session_response r req cl email handle None) (\<lambda>a v. tr_public_id (ans_body a) = cl_sub cl \<and> opens_session u (db w) (db v))
        (\<lambda>e v. (e = session_db_error \<or> e = ApiError 500 ''token_creation_failed'') \<and> opens_session u (db w) (db v)) w"
      by (rule wp_mono [OF wp_session_response]) (auto simp: same)
  qed
qed

lemma accounts_ids: "accounts_inv R w \<Longrightarrow> distinct (map u_id (users (db w)))"
  by (simp add: accounts_inv_def accounts_ok_def)

lemma signed_in_present:
  assumes "accounts_inv R w" and "u \<in> set (users (db w))" and "u_id u = i"
  shows "count_where (\<lambda>r. u_id r = i \<and> \<not> u_suspended r) (users (db w)) = (if u_suspended u then 0 else 1)"
proof -
  have only: "r = u" if "r \<in> set (users (db w))" "u_id r = i" for r
    using that assms distinct_map_inj [OF accounts_ids [OF assms(1)], of r u] by simp
  show ?thesis
  proof (cases "u_suspended u")
    case True
    then show ?thesis using only by (auto simp: count_where_eq_0)
  next
    case False
    then have "count_where (\<lambda>r. u_id r = i \<and> \<not> u_suspended r) (users (db w)) = count_where (\<lambda>r. u_id r = u_id u) (users (db w))"
      using only assms(3) by (intro count_where_cong) auto
    then show ?thesis using False count_where_key [OF accounts_ids [OF assms(1)] assms(2)] by simp
  qed
qed

text \<open>
  C2. Nobody signs in without the password: when a sign-in succeeds, the identifier (address or handle)
  names an account that is not suspended, the password fits its hash, and the token is made out for
  this account; its only effects are a device session of the account and the mark that it signs in
  with a password.
\<close>

theorem signing_in_needs_the_password:
  assumes "accounts_inv {} w" and "login allowed r req identifier password w = (Inr a, v)"
  shows "allowed \<and> (\<exists>u. user_for w identifier = Some u \<and> verify_password (cfg w) (u_password_hash u) password
     \<and> \<not> u_suspended u \<and> tr_public_id (ans_body a) = uuid_show (cfg w) (u_public_id u)
     \<and> opens_session u ((db w)\<lparr>users := update_where (\<lambda>x. u_id x = u_id u \<and> \<not> u_suspended x)
          (\<lambda>x. x\<lparr>u_password_login := True\<rparr>) (users (db w))\<rparr>) (db v))"
proof -
  have "wp (login allowed r req identifier password) (\<lambda>a v. allowed \<and> (\<exists>u. user_for w identifier = Some u
     \<and> verify_password (cfg w) (u_password_hash u) password
     \<and> \<not> u_suspended u \<and> tr_public_id (ans_body a) = uuid_show (cfg w) (u_public_id u)
     \<and> opens_session u ((db w)\<lparr>users := update_where (\<lambda>x. u_id x = u_id u \<and> \<not> u_suspended x)
          (\<lambda>x. x\<lparr>u_password_login := True\<rparr>) (users (db w))\<rparr>) (db v))) (\<lambda>_ _. True) w"
    unfolding login_def enforce_auth_rate_limit_def
  proof (intro session_guards [where w = w] wp_checked [OF wp_fetch_user_auth, where w = w] same_data_refl, goal_cases)
    case (5 x v1 row v2 u v3 c v4 y v5)
    then have v5: "same_data w v5" and found: "user_for w identifier = Some u" and c: "cfg c = cfg w"
      "verify_password (cfg w) (u_password_hash u) password" and ok: allowed by auto
    let ?f = "enable_password_login (u_id u)"
    have u: "u \<in> set (users (db w))" by (rule user_for_present [OF found])
    have inv: "accounts_inv {} v" "u \<in> set (users (db v))" if "same_data w v" for v
      using account_tables.inv_same_data [OF assms(1) that] u that by (simp_all add: same_data_def)
    show ?case
      unfolding wp_andthen wp_attempt wp_execute
    proof (simp add: wp_require, intro impI, goal_cases)
      case 1
      let ?v = "(tick v5)\<lparr>db := snd (?f (tick v5))\<rparr>"
      let ?u = "u\<lparr>u_password_login := True\<rparr>"
      from inv [OF same_data_tick_right [OF v5]]
      have tick: "accounts_inv {} (tick v5)" "u \<in> set (users (db (tick v5)))" by simp_all
      have "fst (?f (tick v5)) = 1" using 1 by simp
      then have active: "\<not> u_suspended u"
        using signed_in_present [OF tick refl] by (simp add: enable_password_login_def Let_def split: if_split_asm)
      have "accounts_inv {} ?v"
        using users_updated [OF tick(1), of "\<lambda>x. x\<lparr>u_password_login := True\<rparr>"] by (simp add: enable_password_login_def Let_def)
      moreover have "?u \<in> set (users (db ?v))"
        using tick(2) active by (auto simp: enable_password_login_def Let_def image_iff intro!: bexI [where x = u])
      ultimately have "wp (issue_session r req (u_public_id u) (claims_of c u 86400) (u_email u) (u_handle u))
          (\<lambda>a v. tr_public_id (ans_body a) = cl_sub (claims_of c u 86400) \<and> opens_session ?u (db ?v) (db v)) (\<lambda>_ _. True) ?v"
        by (intro wp_mono [OF issue_session_spec [of ?v ?u "claims_of c u 86400", simplified]]) simp_all
      then show ?case
      proof (rule wp_mono)
        fix a v
        assume a: "tr_public_id (ans_body a) = cl_sub (claims_of c u 86400) \<and> opens_session ?u (db ?v) (db v)"
        then show "allowed \<and> (\<exists>u. user_for w identifier = Some u \<and> verify_password (cfg w) (u_password_hash u) password
            \<and> \<not> u_suspended u \<and> tr_public_id (ans_body a) = uuid_show (cfg w) (u_public_id u)
            \<and> opens_session u ((db w)\<lparr>users := update_where (\<lambda>x. u_id x = u_id u \<and> \<not> u_suspended x)
                 (\<lambda>x. x\<lparr>u_password_login := True\<rparr>) (users (db w))\<rparr>) (db v))"
          using found c ok active v5
          by (intro conjI exI [of _ u])
            (auto simp: claims_of_def opens_session_def enable_password_login_def Let_def same_data_def)
      qed simp
    qed
  qed auto
  from wp_outcome [OF this assms(2)] show ?thesis by simp
qed

lemma signing_in_needs_the_password_witness:
  "\<exists>u. user_for account_world ''ada'' = Some u \<and> u_email u = ''ada@x'' \<and> \<not> u_suspended u"
proof -
  have "succeeds (login True some_draws device_request ''ada'' ''secret'') account_world" by code_simp
  then obtain a v where "login True some_draws device_request ''ada'' ''secret'' account_world = (Inr a, v)"
    by (cases "login True some_draws device_request ''ada'' ''secret'' account_world")
      (auto simp: succeeds_def split: sum.splits)
  from signing_in_needs_the_password [OF account_world_inv this]
  obtain u where "user_for account_world ''ada'' = Some u" "\<not> u_suspended u" by blast
  moreover have "map_option u_email (user_for account_world ''ada'') = Some ''ada@x''" by code_simp
  ultimately show ?thesis by auto
qed

section \<open>Renewing\<close>

text \<open>
  What a renewal does to the session \<open>s\<close> of the account \<open>u\<close>: the current secret is replaced; the one
  before it, for five minutes, yields the current one again.
\<close>

definition renews :: "world \<Rightarrow> string \<Rightarrow> string \<Rightarrow> mobile_session \<Rightarrow> user \<Rightarrow> string \<Rightarrow> database \<Rightarrow> bool" where
  "renews w h secret s u tok d \<longleftrightarrow> find_session h w = Some (s, u)
     \<and> clock w < ms_expires_at s \<and> clock w < ms_created_at s + days 365
     \<and> ms_session_version s = u_session_version u \<and> \<not> u_suspended u
     \<and> (if h = ms_token_hash s
        then tok = secret \<and> d = (db w)\<lparr>mobile_sessions := update_where (\<lambda>r. ms_id r = ms_id s)
               (rotated (cfg w) (clock w) secret) (mobile_sessions (db w))\<rparr>
        else tok = ms_token s \<and> d = db w \<and> (\<exists>t. ms_previous_until s = Some t \<and> clock w < t))"

lemma renew_spec:
  "wp (renew h secret) (\<lambda>(u, tok) v. \<exists>s. renews w h secret s u tok (db v)) (\<lambda>_ v. db v = db w) w"
  unfolding renew_def
proof (rule wp_transact_success, goal_cases)
  case 1
  have tick: "find_session h (tick v) = find_session h v" for v by (simp add: find_session_def)
  show ?case
    unfolding wp_andthen
    by (auto simp: wp_simps tick renews_def session_valid_def previous_valid_def rotate_session_def Let_def
        simp del: exists_where_iff split: option.splits)
qed (auto split: prod.splits)

text \<open>
  C5. A renewal with a secret succeeds only for a device session that knows it, of an account that is not
  suspended and has not ended its sessions, before ninety days without use and a year after it began:
  the current secret is replaced by the new one of the answer, the one before it yields the current
  one again within five minutes and changes nothing.  Nothing else changes, and a refused renewal
  changes nothing unless only the signing of the new token fails.
\<close>

theorem renewing_replaces_the_secret:
  "case refresh_session r req (Some token) w of
     (Inr a, v) \<Rightarrow> \<exists>s u tok. renews w (sha256_hex (cfg w) token) (refresh_secret (cfg w) r) s u tok (db v)
        \<and> tr_refresh_token (ans_body a) = Some tok \<and> tr_public_id (ans_body a) = uuid_show (cfg w) (u_public_id u)
   | (Inl e, v) \<Rightarrow> db v = db w \<or> e = ApiError 500 ''token_creation_failed''
        \<and> (\<exists>s u tok. renews w (sha256_hex (cfg w) token) (refresh_secret (cfg w) r) s u tok (db v))"
proof -
  have "wp (refresh_session r req (Some token))
      (\<lambda>a v. \<exists>s u tok. renews w (sha256_hex (cfg w) token) (refresh_secret (cfg w) r) s u tok (db v)
        \<and> tr_refresh_token (ans_body a) = Some tok \<and> tr_public_id (ans_body a) = uuid_show (cfg w) (u_public_id u))
      (\<lambda>e v. db v = db w \<or> e = ApiError 500 ''token_creation_failed''
        \<and> (\<exists>s u tok. renews w (sha256_hex (cfg w) token) (refresh_secret (cfg w) r) s u tok (db v))) w"
    unfolding refresh_session_def wp_andthen
    by (auto simp: wp_simps claims_of_def intro!: wp_mono [OF renew_spec] wp_mono [OF wp_session_response]) blast
  from wp_outcome [OF this, of "fst (refresh_session r req (Some token) w)" "snd (refresh_session r req (Some token) w)"]
  show ?thesis by (cases "refresh_session r req (Some token) w") (simp split: sum.split_asm sum.split)
qed

lemma find_map_filter:
  assumes "x \<in> set xs" and "g x = Some y" and "P y" and "\<And>x z. x \<in> set xs \<Longrightarrow> g x = Some z \<Longrightarrow> P z \<Longrightarrow> z = y"
  shows "find P (List.map_filter g xs) = Some y"
  using assms
proof (induction xs)
  case (Cons a xs)
  show ?case
  proof (cases "\<exists>z. g a = Some z \<and> P z")
    case True
    then have "g a = Some y" using Cons.prems(4) [of a] by auto
    then show ?thesis using Cons.prems(3) by (simp add: List.map_filter_simps)
  next
    case False
    then have "x \<in> set xs" using Cons.prems(1-3) by auto
    then have "find P (List.map_filter g xs) = Some y" using Cons.prems(2-4) by (intro Cons.IH) (assumption+, metis list.set_intros(2))
    then show ?thesis using False by (auto simp: List.map_filter_simps split: option.split)
  qed
qed simp

lemma find_session_unique:
  assumes "s \<in> set (mobile_sessions (db w))" and "knows_hash h s"
    and "find (\<lambda>u. u_id u = ms_user_id s) (users (db w)) = Some u"
    and "\<And>x. x \<in> set (mobile_sessions (db w)) \<Longrightarrow> knows_hash h x \<Longrightarrow> x = s"
  shows "find_session h w = Some (s, u)"
  unfolding find_session_def
proof (rule find_map_filter [where x = s], goal_cases)
  case (4 x z)
  then have "x = s" using assms(4) [of x] by auto
  then show ?case using 4(2) assms(3) by simp
qed (simp_all add: assms(1-3))

lemma find_session_Some:
  assumes "find_session h w = Some (s, u)"
  shows "s \<in> set (mobile_sessions (db w))" "knows_hash h s" "find (\<lambda>u. u_id u = ms_user_id s) (users (db w)) = Some u"
  using find_SomeD [OF assms [unfolded find_session_def]] by (auto simp: List.map_filter_def)

text \<open>
  C9. An answer that got lost can be asked for again: within five minutes after a renewal, and before the
  end of the session, the old secret yields the same new secret, and nothing changes.
\<close>

theorem a_lost_answer_is_repeated:
  assumes "accounts_inv {} w"
    and "\<forall>x \<in> set (mobile_sessions (db w)). ms_previous_hash x \<noteq> Some (sha256_hex (cfg w) token)"
    and "sha256_hex (cfg w) (refresh_secret (cfg w) r) \<noteq> sha256_hex (cfg w) token"
    and "refresh_session r req (Some token) w = (Inr a, v)"
    and "wants_refresh_session req'" and "db v' = db v" and "cfg v' = cfg w" and "faults v' = []"
    and "clock w \<le> clock v'" and "clock v' < clock w + minutes 5"
    and "\<forall>s \<in> set (mobile_sessions (db w)). clock v' < ms_created_at s + days 365"
    and "\<forall>kind jti cl. jwt_sign (cfg w) kind jti cl \<noteq> None"
  shows "\<exists>b v2. refresh_session r' req' (Some token) v' = (Inr b, v2)
     \<and> tr_refresh_token (ans_body b) = tr_refresh_token (ans_body a) \<and> db v2 = db v"
proof -
  let ?h = "sha256_hex (cfg w) token" and ?next = "refresh_secret (cfg w) r"
  from renewing_replaces_the_secret [where r = r and req = req and token = token and w = w] assms(4)
  obtain s u tok where re: "renews w ?h ?next s u tok (db v)" and a: "tr_refresh_token (ans_body a) = Some tok" by auto
  have s: "s \<in> set (mobile_sessions (db w))" "knows_hash ?h s" "find (\<lambda>u. u_id u = ms_user_id s) (users (db w)) = Some u"
    using re find_session_Some by (auto simp: renews_def)
  then have h: "ms_token_hash s = ?h" using assms(2) by (auto simp: knows_hash_def)
  have tok: "tok = ?next" and v: "db v = (db w)\<lparr>mobile_sessions := update_where (\<lambda>r. ms_id r = ms_id s)
      (rotated (cfg w) (clock w) ?next) (mobile_sessions (db w))\<rparr>"
    using re h by (simp_all add: renews_def)
  let ?s = "rotated (cfg w) (clock w) ?next s"
  have ids: "distinct (map ms_id (mobile_sessions (db w)))" "distinct (map ms_token_hash (mobile_sessions (db w)))"
    using assms(1) by (simp_all add: accounts_inv_def sessions_ok_def)
  have "find_session ?h v' = Some (?s, u)"
  proof (rule find_session_unique)
    show "?s \<in> set (mobile_sessions (db v'))" using s(1) by (auto simp: assms(6) v image_iff intro!: bexI [of _ s])
    show "knows_hash ?h ?s" by (simp add: knows_hash_def h)
    show "find (\<lambda>u. u_id u = ms_user_id ?s) (users (db v')) = Some u" using s(3) by (simp add: assms(6) v)
  next
    fix x assume "x \<in> set (mobile_sessions (db v'))" and knows: "knows_hash ?h x"
    then obtain y where y: "y \<in> set (mobile_sessions (db w))"
      "x = (if ms_id y = ms_id s then rotated (cfg w) (clock w) ?next y else y)"
      by (auto simp: assms(6) v)
    show "x = ?s"
    proof (cases "ms_id y = ms_id s")
      case True
      then show ?thesis using y s(1) distinct_map_inj [OF ids(1), of y s] by simp
    next
      case False
      then have "ms_token_hash y = ms_token_hash s" using knows y assms(2) by (auto simp: knows_hash_def h)
      then show ?thesis using False y(1) s(1) distinct_map_inj [OF ids(2), of y s] by simp
    qed
  qed
  moreover have "session_valid (clock v') u ?s \<and> previous_valid (clock v') ?s"
    using re assms(9-11) s(1) by (auto simp: renews_def session_valid_def previous_valid_def rotated_def)
  ultimately have renew: "renew ?h secret v' = (Inr (u, ?next), v')" for secret
    using assms(3,7,8)
    by (simp add: renew_def transact_def andthen_def query_def fault_def some_or_def now_def require_def return_def)
  obtain jwt where jwt: "jwt_sign (cfg w) (Some ''mobile'') (dn_jti r') (claims_of v' u 3600) = Some jwt"
    using assms(12) by (meson not_None_eq)
  show ?thesis
    using assms(5,7) jwt
    by (simp add: refresh_session_def andthen_def require_def return_def get_state_def renew session_response_def
        some_or_def encode_session_jwt_def token_answer_def a tok assms(6))
qed

lemma grows_refresh: "grows (refresh_session r req (Some token))"
  unfolding refresh_session_def renew_def option.case
  by (intro grows_intros grows_transact) (intro grows_quiet quiet_intros)+

lemma a_lost_answer_is_repeated_witness:
  "\<exists>a v b v2. refresh_session some_draws device_request (Some ''s1'') account_world = (Inr a, v)
     \<and> refresh_session (some_draws\<lparr>dn_first := 20\<rparr>) device_request (Some ''s1'') (v\<lparr>clock := 1000\<rparr>) = (Inr b, v2)
     \<and> tr_refresh_token (ans_body b) = Some ''89''"
proof -
  have "map_option tr_refresh_token (case fst (refresh_session some_draws device_request (Some ''s1'') account_world) of
      Inl e \<Rightarrow> None | Inr a \<Rightarrow> Some (ans_body a)) = Some (Some ''89'')"
    by code_simp
  then obtain a v where a: "refresh_session some_draws device_request (Some ''s1'') account_world = (Inr a, v)"
    "tr_refresh_token (ans_body a) = Some ''89''"
    by (cases "refresh_session some_draws device_request (Some ''s1'') account_world") (auto split: sum.splits)
  have w: "cfg account_world = account_config" "clock account_world = 500"
    "mobile_sessions (db account_world) = [ada_session]"
    by (simp_all add: account_world_def)
  have c: "sha256_hex account_config = (\<lambda>t. t)" "jwt_sign account_config = (\<lambda>_ _ c. Some (cl_sub c))"
    by (simp_all add: account_config_def example_config_def)
  have "list_all (\<lambda>x. x = ''89'') [refresh_secret account_config some_draws]" by code_simp
  then have secret: "refresh_secret account_config some_draws = ''89''" by simp
  have "cfg v = account_config \<and> faults v = []"
  proof -
    have "(faults (snd (refresh_session some_draws device_request (Some ''s1'') account_world)) = []) = True" by code_simp
    moreover have "later account_world (snd (refresh_session some_draws device_request (Some ''s1'') account_world))"
      by (rule growsD [OF grows_refresh])
    ultimately show ?thesis using a(1) w(1) by (simp add: later_def)
  qed
  then have "\<exists>b v2. refresh_session (some_draws\<lparr>dn_first := 20\<rparr>) device_request (Some ''s1'') (v\<lparr>clock := 1000\<rparr>) = (Inr b, v2)
     \<and> tr_refresh_token (ans_body b) = tr_refresh_token (ans_body a) \<and> db v2 = db v"
    by (intro a_lost_answer_is_repeated [OF account_world_inv _ _ a(1)])
      (simp_all add: w c secret ada_session_def device_request_def wants_refresh_session_def eq_ignore_ascii_case_refl)
  then show ?thesis using a by metis
qed

section \<open>Revocation\<close>

text \<open>
  C1. A revoked session is gone for good: once the session version of an account is above \<open>n\<close> (after its
  suspension, a change of its password or its deletion), no sequence of requests lets a device session
  of the account with version \<open>n\<close> or less be renewed again, and no access token of such a version is
  accepted, not even after the account is restored.
\<close>

theorem revoked_sessions_stay_revoked:
  assumes "accounts_inv {} w" and "i \<le> seqs w UserSeq"
    and "\<forall>u \<in> set (users (db w)). u_id u = i \<longrightarrow> n < u_session_version u"
    and "account_step\<^sup>*\<^sup>* w v"
  shows "(find_session (sha256_hex (cfg v) token) v = Some (s, u) \<and> u_id u = i \<and> ms_session_version s \<le> n \<longrightarrow>
       (\<exists>e v'. refresh_session r req (Some token) v = (Inl e, v') \<and> db v' = db v))
     \<and> (live_session v q u \<and> u_id u = i \<longrightarrow> n < u_session_version u)"
proof -
  have "accounts_inv {(i, n)} w" using assms(1-3) by (simp add: accounts_inv_def outdated_def)
  then have "accounts_inv {(i, n)} v" by (rule revoking.steps_inv [OF assms(4)])
  then have newer: "n < u_session_version u" if "u \<in> set (users (db v))" "u_id u = i" for u
    using that by (simp add: accounts_inv_def outdated_def)
  have "\<exists>e v'. refresh_session r req (Some token) v = (Inl e, v') \<and> db v' = db v"
    if f: "find_session (sha256_hex (cfg v) token) v = Some (s, u)" "u_id u = i" "ms_session_version s \<le> n"
  proof -
    have "n < u_session_version u"
      using find_session_Some(3) [OF f(1)] newer [of u] f(2) by (auto dest: find_SomeD)
    then have "\<not> renews v (sha256_hex (cfg v) token) secret s' u' tok d" for secret s' u' tok d
      using f by (auto simp: renews_def)
    then show ?thesis
      using renewing_replaces_the_secret [where r = r and req = req and token = token and w = v]
      by (cases "refresh_session r req (Some token) v") (auto split: sum.split_asm)
  qed
  then show ?thesis using newer by (auto simp: live_session_def)
qed

definition suspended_world :: world where
  "suspended_world = account_world\<lparr>db := suspend_user 1 True 2 (db account_world)\<rparr>"

lemma suspended_world_inv: "accounts_inv {} suspended_world"
  unfolding suspended_world_def suspend_user_def
  by (rule users_updated [OF account_world_inv]) simp_all

lemma revoked_sessions_stay_revoked_witness:
  "\<exists>e v. refresh_session some_draws device_request (Some ''s1'')
     (snd (login True some_draws device_request ''bob'' ''secret'' suspended_world)) = (Inl e, v)"
proof -
  let ?v = "snd (login True some_draws device_request ''bob'' ''secret'' suspended_world)"
  have "list_all (\<lambda>u. u_id u = 1 \<longrightarrow> 0 < u_session_version u) (users (db suspended_world))" by code_simp
  then have "\<forall>u \<in> set (users (db suspended_world)). u_id u = 1 \<longrightarrow> 0 < u_session_version u" by (simp add: list_all_iff)
  moreover have "account_step\<^sup>*\<^sup>* suspended_world ?v" by (blast intro: account_step.sign_in)
  moreover have "(1::int) \<le> seqs suspended_world UserSeq" by (simp add: suspended_world_def account_world_def)
  moreover have "map_option (\<lambda>(s, u). (u_id u, ms_session_version s)) (find_session (sha256_hex (cfg ?v) ''s1'') ?v) = Some (1, 0)"
    by code_simp
  moreover from this obtain s u where "find_session (sha256_hex (cfg ?v) ''s1'') ?v = Some (s, u)" "u_id u = 1" "ms_session_version s \<le> 0"
    by auto
  ultimately show ?thesis
    using revoked_sessions_stay_revoked [OF suspended_world_inv, of 1 0 ?v "''s1''" s u some_draws device_request] by blast
qed

section \<open>Becoming a user\<close>

lemma checks_verification_hash:
  "checks (verification_hash token) (\<lambda>w x. \<exists>id. uuid_parse (cfg w) token = Some id
     \<and> x = sha256_hex (cfg w) (uuid_show (cfg w) id))"
  by (rule checksI) (auto simp: stable_def same_data_def verification_hash_def wp_simps split: option.split)

text \<open>
  C7. Completing a registration needs the link of a pending registration that has not expired, of an
  address without an account, and a strong password; it stores exactly one account, with this address,
  the hash of the password and a valid handle that nobody has, removes the pending registration and at
  most opens a device session of the new account.
\<close>

theorem completing_creates_one_account:
  assumes "accounts_inv {} w" and "complete_registration rd req token password wish w = (Inr a, v)"
  shows "\<exists>id u d. uuid_parse (cfg w) (trim token) = Some id \<and> validate_password_strength (cfg w) password
     \<and> registered_account rd (sha256_hex (cfg w) (uuid_show (cfg w) id)) password w u d
     \<and> tr_public_id (ans_body a) = uuid_show (cfg w) (u_public_id u) \<and> opens_session u d (db v)"
proof -
  let ?P = "\<lambda>a v. \<exists>id u d. uuid_parse (cfg w) (trim token) = Some id \<and> validate_password_strength (cfg w) password
     \<and> registered_account rd (sha256_hex (cfg w) (uuid_show (cfg w) id)) password w u d
     \<and> tr_public_id (ans_body a) = uuid_show (cfg w) (u_public_id u) \<and> opens_session u d (db v)"
  have "wp (complete_registration rd req token password wish) ?P (\<lambda>_ _. True) w"
    unfolding complete_registration_def Let_def
  proof (intro session_guards [where w = w] wp_checked [OF checks_verification_hash, where w = w] same_data_refl, goal_cases)
    case (4 x v1 c v2 y v3 h v4)
    then have v4: "db v4 = db w" "cfg v4 = cfg w" "clock v4 = clock w" "accounts_inv {} v4"
      and ok: "validate_password_strength (cfg w) password"
      using account_tables.inv_same_data [OF assms(1), of v4] by (simp_all add: same_data_def)
    from 4 obtain id where id: "uuid_parse (cfg w) (trim token) = Some id" "h = sha256_hex (cfg w) (uuid_show (cfg w) id)"
      by auto
    have "account_state {} (cfg w) [] v4" using v4 by (simp add: account_state_def)
    from wp_conj [OF yields_complete_tx [unfolded yields_def, rule_format, OF this] complete_tx_spec [of rd h password _ v4]]
    show ?case
      unfolding wp_andthen [of "complete_tx _ _ _ _"]
    proof (rule wp_mono, goal_cases)
      case (1 u v5)
      then have inv: "accounts_inv {} v5" "cfg v5 = cfg w" and new: "registered_account rd h password w u (db v5)"
        by (simp_all add: account_state_def registered_account_def user_by_email_def handle_taken_def v4)
      then have "u \<in> set (users (db v5))" by (auto simp: registered_account_def)
      from issue_session_spec [OF inv(1) this] show ?case
        unfolding wp_andthen wp_get_state
        by (rule wp_mono) (use id ok new inv(2) in \<open>auto simp: claims_of_def\<close>)
    qed simp
  qed auto
  from wp_outcome [OF this assms(2)] show ?thesis by simp
qed

lemma completing_creates_one_account_witness:
  "\<exists>u d. registered_account newcomer ''7'' ''Correct-Horse-1'' account_world u d \<and> u_email u = ''eve@x''"
proof -
  have "succeeds eve_joins account_world" by code_simp
  then obtain a v where "eve_joins account_world = (Inr a, v)"
    by (cases "eve_joins account_world") (auto simp: succeeds_def split: sum.splits)
  from completing_creates_one_account [OF account_world_inv this [unfolded eve_joins_def]]
  obtain id u d where id: "uuid_parse (cfg account_world) (trim ''7'') = Some id"
    and u: "registered_account newcomer (sha256_hex (cfg account_world) (uuid_show (cfg account_world) id)) ''Correct-Horse-1'' account_world u d"
    by blast
  have "uuid_parse (cfg account_world) (trim ''7'') = Some 7" by code_simp
  with id have "id = 7" by simp
  moreover have "list_all (\<lambda>x. x = ''7'') [sha256_hex (cfg account_world) (uuid_show (cfg account_world) 7)]" by code_simp
  ultimately have new: "registered_account newcomer ''7'' ''Correct-Horse-1'' account_world u d" using u by simp
  then obtain p where "p \<in> set (pending_registrations (db account_world))" "u_email u = pr_email p"
    by (auto simp: registered_account_def new_user_def dest!: find_SomeD) (metis user.select_convs(3))
  then have "u_email u = ''eve@x''" by (simp add: account_world_def eve_pending_def)
  with new show ?thesis by blast
qed

section \<open>A forgotten password\<close>

lemma reset_tx_spec:
  "wp (reset_tx th ph) (\<lambda>_ v. \<exists>p. find (usable_reset (clock w) th) (password_resets (db w)) = Some p
      \<and> count_where (\<lambda>u. u_id u = pw_user_id p \<and> can_recover u) (users (db w)) = 1
      \<and> clock v = clock w \<and> cfg v = cfg w
      \<and> db v = (db w)\<lparr>password_resets := delete_where (usable_reset (clock w) th) (password_resets (db w)),
           users := update_where (\<lambda>u. u_id u = pw_user_id p \<and> can_recover u)
             (\<lambda>u. u\<lparr>u_password_hash := ph, u_session_version := u_session_version u + 1\<rparr>) (users (db w))\<rparr>)
     (\<lambda>_ v. db v = db w) w"
  unfolding reset_tx_def
proof (rule wp_transact_success, goal_cases)
  case 1
  show ?case
    unfolding wp_andthen
    by (auto simp: wp_simps take_reset_def set_password_def Let_def split: option.split)
qed simp

lemma confirm_reset_spec:
  assumes "accounts_inv {} w"
  shows "wp (confirm_reset allowed salt token password) (\<lambda>_ v. \<exists>p u hash. p \<in> set (password_resets (db w))
     \<and> pw_token_hash p = sha256_hex (cfg w) token \<and> clock w < pw_expires_at p
     \<and> u \<in> set (users (db w)) \<and> u_id u = pw_user_id p \<and> u_password_login u \<and> \<not> u_suspended u
     \<and> validate_password_strength (cfg w) password \<and> hash_password (cfg w) salt password = Some hash
     \<and> clock v = clock w \<and> cfg v = cfg w
     \<and> db v = (db w)\<lparr>password_resets := delete_where (usable_reset (clock w) (sha256_hex (cfg w) token)) (password_resets (db w)),
          users := map (\<lambda>x. if x = u then u\<lparr>u_password_hash := hash, u_session_version := u_session_version u + 1\<rparr> else x) (users (db w))\<rparr>)
    (\<lambda>_ v. db v = db w) w"
  unfolding confirm_reset_def enforce_auth_rate_limit_def
proof (intro session_guards [where w = w] same_data_refl, goal_cases)
  case (4 x v1 c v2 y v3 hash v4)
  then have v4: "db v4 = db w" "cfg v4 = cfg w" "clock v4 = clock w" "cfg c = cfg w"
    and ok: "validate_password_strength (cfg w) password" "hash_password (cfg w) salt password = Some hash"
    by (simp_all add: same_data_def)
  show ?case
    unfolding wp_andthen [of "reset_tx _ _"]
  proof (rule wp_mono [OF reset_tx_spec], goal_cases)
    case (1 r v)
    then obtain p where p: "find (usable_reset (clock w) (sha256_hex (cfg w) token)) (password_resets (db w)) = Some p"
      "count_where (\<lambda>u. u_id u = pw_user_id p \<and> can_recover u) (users (db w)) = 1" "clock v = clock w" "cfg v = cfg w"
      and v: "db v = (db w)\<lparr>password_resets := delete_where (usable_reset (clock w) (sha256_hex (cfg w) token)) (password_resets (db w)),
           users := update_where (\<lambda>u. u_id u = pw_user_id p \<and> can_recover u)
             (\<lambda>u. u\<lparr>u_password_hash := hash, u_session_version := u_session_version u + 1\<rparr>) (users (db w))\<rparr>"
      by (auto simp: v4)
    have "\<exists>u \<in> set (users (db w)). u_id u = pw_user_id p \<and> can_recover u"
    proof (rule ccontr)
      assume "\<not> ?thesis"
      then have "count_where (\<lambda>u. u_id u = pw_user_id p \<and> can_recover u) (users (db w)) = 0" by (auto simp: count_where_eq_0)
      with p(2) show False by simp
    qed
    then obtain u where u: "u \<in> set (users (db w))" "u_id u = pw_user_id p" "can_recover u" by blast
    have same: "(u_id x = pw_user_id p \<and> can_recover x) = (x = u)" if "x \<in> set (users (db w))" for x
      using that u distinct_map_inj [OF accounts_ids [OF assms], of x u] by auto
    then have eq: "update_where (\<lambda>u. u_id u = pw_user_id p \<and> can_recover u)
         (\<lambda>u. u\<lparr>u_password_hash := hash, u_session_version := u_session_version u + 1\<rparr>) (users (db w))
       = map (\<lambda>x. if x = u then u\<lparr>u_password_hash := hash, u_session_version := u_session_version u + 1\<rparr> else x) (users (db w))"
      unfolding update_where_def by (intro map_cong) auto
    from v have "db v = (db w)\<lparr>password_resets := delete_where (usable_reset (clock w) (sha256_hex (cfg w) token)) (password_resets (db w)),
          users := map (\<lambda>x. if x = u then u\<lparr>u_password_hash := hash, u_session_version := u_session_version u + 1\<rparr> else x) (users (db w))\<rparr>"
      by (simp only: eq)
    moreover have "p \<in> set (password_resets (db w))" "pw_token_hash p = sha256_hex (cfg w) token" "clock w < pw_expires_at p"
      using find_SomeD [OF p(1)] by (simp_all add: usable_reset_def)
    moreover have "u_password_login u" "\<not> u_suspended u" using u(3) by (simp_all add: can_recover_def)
    ultimately show ?case
      unfolding wp_return using u(1,2) ok p(3,4) by blast
  qed (simp add: v4)
qed (auto simp: same_data_def)

text \<open>
  C3. A link for a new password works once and for one account: when it is accepted, it belongs to an
  account that signs in with a password and is not suspended and has not expired; the password of this
  account alone changes, to one that is strong, the link is gone, and every device session of the account
  has ended.
\<close>

theorem a_reset_changes_one_password:
  assumes "accounts_inv {} w" and "confirm_reset allowed salt token password w = (Inr a, v)"
  shows "\<exists>p u hash. p \<in> set (password_resets (db w)) \<and> pw_token_hash p = sha256_hex (cfg w) token \<and> clock w < pw_expires_at p
     \<and> u \<in> set (users (db w)) \<and> u_id u = pw_user_id p \<and> u_password_login u \<and> \<not> u_suspended u
     \<and> validate_password_strength (cfg w) password \<and> hash_password (cfg w) salt password = Some hash
     \<and> db v = (db w)\<lparr>password_resets := delete_where (usable_reset (clock w) (sha256_hex (cfg w) token)) (password_resets (db w)),
          users := map (\<lambda>x. if x = u then u\<lparr>u_password_hash := hash, u_session_version := u_session_version u + 1\<rparr> else x) (users (db w))\<rparr>
     \<and> (\<forall>s \<in> set (mobile_sessions (db v)). ms_user_id s = u_id u \<longrightarrow> ms_session_version s < u_session_version u + 1)
     \<and> fst (confirm_reset allowed' salt' token password' v) \<noteq> Inr b"

proof -
  from wp_outcome [OF confirm_reset_spec [OF assms(1)] assms(2)]
  obtain p u hash where p: "p \<in> set (password_resets (db w))" "pw_token_hash p = sha256_hex (cfg w) token" "clock w < pw_expires_at p"
     and u: "u \<in> set (users (db w))" "u_id u = pw_user_id p" "u_password_login u" "\<not> u_suspended u"
     and ok: "validate_password_strength (cfg w) password" "hash_password (cfg w) salt password = Some hash"
     and v: "clock v = clock w" "cfg v = cfg w"
       "db v = (db w)\<lparr>password_resets := delete_where (usable_reset (clock w) (sha256_hex (cfg w) token)) (password_resets (db w)),
          users := map (\<lambda>x. if x = u then u\<lparr>u_password_hash := hash, u_session_version := u_session_version u + 1\<rparr> else x) (users (db w))\<rparr>"
    by auto
  have inv: "accounts_inv {} v" using keeps_snd [OF confirm_reset_keeps assms(1), of allowed salt token password] assms(2) by simp
  have "ms_session_version s < u_session_version u + 1" if s: "s \<in> set (mobile_sessions (db v))" "ms_user_id s = u_id u" for s
  proof -
    obtain x where "x \<in> set (users (db w))" "u_id x = ms_user_id s" "ms_session_version s \<le> u_session_version x"
      using assms(1) s(1) by (auto simp: accounts_inv_def sessions_ok_def v(3))
    then show ?thesis using s(2) u(1) distinct_map_inj [OF accounts_ids [OF assms(1)], of x u] by simp
  qed
  moreover have "fst (confirm_reset allowed' salt' token password' v) \<noteq> Inr b"
  proof
    assume "fst (confirm_reset allowed' salt' token password' v) = Inr b"
    then obtain v2 where "confirm_reset allowed' salt' token password' v = (Inr b, v2)" by (metis prod.collapse)
    from wp_outcome [OF confirm_reset_spec [OF inv] this]
    obtain q where "q \<in> set (password_resets (db v))" "pw_token_hash q = sha256_hex (cfg w) token" "clock w < pw_expires_at q"
      unfolding v(1,2) sum.case by blast
    then show False by (simp add: v(3) usable_reset_def)
  qed
  ultimately show ?thesis using p u ok v(3) by blast
qed

lemma a_reset_changes_one_password_witness:
  "fst (confirm_reset True 4 (replicate 64 CHR ''t'') ''Another-Horse-2''
     (snd (confirm_reset True 3 (replicate 64 CHR ''t'') ''Correct-Horse-1'' account_world))) \<noteq> Inr (Answer 200 ''password_reset'')"
proof -
  let ?m = "confirm_reset True 3 (replicate 64 CHR ''t'') ''Correct-Horse-1''"
  have "succeeds ?m account_world" by code_simp
  then obtain a v where v: "?m account_world = (Inr a, v)"
    by (cases "?m account_world") (auto simp: succeeds_def split: sum.splits)
  have "fst (confirm_reset True 4 (replicate 64 CHR ''t'') ''Another-Horse-2'' v) \<noteq> Inr (Answer 200 ''password_reset'')"
    using a_reset_changes_one_password [OF account_world_inv v, of True 4 "''Another-Horse-2''" "Answer 200 ''password_reset''"]
    by blast
  then show ?thesis by (simp only: v snd_conv not_False_eq_True)
qed

text \<open>
  C8. Asking for such a link does not reveal accounts: without failing statements, the answer is the same
  whatever the tables hold.
\<close>

theorem recovery_does_not_reveal_accounts:
  assumes "faults w = []" and "faults w' = []"  and "cfg w' = cfg w"
    and "\<not> exists_where (\<lambda>p. pw_token_hash p = sha256_hex (cfg w) (refresh_secret (cfg w) r)) (password_resets (db w))"
    and "\<not> exists_where (\<lambda>p. pw_token_hash p = sha256_hex (cfg w) (refresh_secret (cfg w) r)) (password_resets (db w'))"
  shows "fst (request_reset allowed email_allowed r email w) = fst (request_reset allowed email_allowed r email w')"
proof -
  have "fst (request_reset allowed email_allowed r email w) = (if allowed then Inr accepted_reset else Inl (ApiError 429 ''rate_limited''))"
    if "faults w = []" and fresh: "\<not> exists_where (\<lambda>p. pw_token_hash p = sha256_hex (cfg w) (refresh_secret (cfg w) r)) (password_resets (db w))"
    for w
  proof -
    have mail: "wp (send_reset_mail em tok) (\<lambda>_ _. True) (\<lambda>_ _. False) x" for em tok x
      by (auto simp: send_reset_mail_def wp_simps split: option.split)
        (auto simp: wp_def return_def split: prod.split sum.split)
    have sent: "wp (if b then send_reset_mail em tok else return ()) (\<lambda>_ _. True) (\<lambda>_ _. False) x" for b em tok x
      by (cases b) (simp_all add: mail wp_return)
    have "wp (request_reset allowed email_allowed r email) (\<lambda>a _. allowed \<and> a = accepted_reset)
        (\<lambda>e _. \<not> allowed \<and> e = ApiError 429 ''rate_limited'') w"
    proof (cases allowed)
      case True
      show ?thesis
        unfolding request_reset_def Let_def enforce_auth_rate_limit_def wp_andthen wp_require wp_get_state if_P [OF True]
      proof (intro wp_ifI, simp add: wp_return True, simp add: wp_return True, unfold wp_andthen wp_return, rule wp_stmtI, goal_cases)
        case (1 x v)
        show ?case by (rule wp_mono [OF sent]) (simp_all add: True)
      next
        case (2 e v)
        then show ?case using fresh by (auto simp: insert_reset_def Let_def split: option.split_asm if_split_asm)
      next
        case 3
        then show ?case using that(1) by (simp add: fault_def)
      qed
    qed (simp add: request_reset_def enforce_auth_rate_limit_def wp_andthen wp_require)
    then show ?thesis by (auto simp: wp_def split: prod.split_asm sum.split_asm)
  qed
  then show ?thesis using assms by simp
qed

lemma recovery_does_not_reveal_accounts_witness:
  "fst (request_reset True True some_draws ''ada@x'' account_world)
     = fst (request_reset True True some_draws ''ada@x'' before_accounts)"
proof -
  have "list_all (\<lambda>w. \<not> exists_where (\<lambda>p. pw_token_hash p = sha256_hex (cfg account_world) (refresh_secret (cfg account_world) some_draws))
      (password_resets (db w)) \<and> faults w = []) [account_world, before_accounts]"
    by code_simp
  moreover have "cfg before_accounts = cfg account_world" by (simp add: before_accounts_def account_world_def)
  ultimately show ?thesis by (intro recovery_does_not_reveal_accounts) (simp_all del: exists_where_iff)
qed

text \<open>A registration does: an address with an account is answered differently from a new one.\<close>

lemma a_registration_reveals_accounts:
  "fst (register True True registering ''ada@x.org'' before_accounts) = Inr (Answer 201 ''verification_email_sent'')"
  "fst (register True True registering ''ada@x.org'' (before_accounts\<lparr>db := (db before_accounts)\<lparr>users :=
     [example_user 1 ''ada'' \<lparr>u_email_hash := ''ada@x.org''\<rparr>]\<rparr>\<rparr>)) = Inr (Answer 201 ''verification_pending'')"
  by code_simp+

section \<open>Other services\<close>

text \<open>The identities, without the times they were used.\<close>

definition bindings :: "database \<Rightarrow> (string \<times> string \<times> int) list" where
  "bindings d = map (\<lambda>o'. (oi_provider o', oi_subject_hash o', oi_user_id o')) (oauth_identities d)"





definition account_draw :: account_draws where
  "account_draw = \<lparr>ad_public_id = 71, ad_handle = cd_handle newcomer, ad_password = 1, ad_salt = 2, ad_session = some_draws\<rparr>"


text \<open>
  The subject of one token and the verified address of the profile of another are bound together: the
  profile names its own subject \<open>ada-subject\<close>, yet the identity \<open>other-subject\<close> is bound to the account of
  its address and opens it.
\<close>

definition mixing_world :: world where
  "mixing_world = account_world\<lparr>cfg := account_config\<lparr>
     google_tokeninfo := (\<lambda>_ _. Some (Inr (JObj [(''aud'', JStr ''web''), (''iss'', JStr ''accounts.google.com''), (''sub'', JStr ''other-subject'')]))),
     google_userinfo := (\<lambda>_. Some (JObj [(''sub'', JStr ''ada-subject''), (''email'', JStr ''ada@x''), (''email_verified'', JBool True)]))\<rparr>\<rparr>"

definition mixed_sign_in :: "(api_error + token_response answer) \<times> world" where
  "mixed_sign_in = oauth_google account_draw device_request
     \<lparr>op_id_token = Some ''token'', op_access_token = Some ''access'', op_authorization_code = None, op_android = False\<rparr> mixing_world"

lemma a_profile_of_another_subject_is_accepted:
  "succeeds (\<lambda>_. mixed_sign_in) mixing_world" "bindings (db (snd mixed_sign_in)) = [(''google'', ''other-subject'', 1)]"
  by code_simp+

end
