(* ===== verification/Realtime.thy ===== *)
theory Realtime
  imports Sessions Checks
begin

text \<open>
  Web sockets (\<open>src/realtime.rs\<close>, \<open>src/realtime/actor_ws.rs\<close>): a signed-in user gets a ticket for a minute,
  a ticket opens a socket, and the socket forwards what is published until its ticket has run out or
  the client has been silent for too long.  Signing and verifying tickets are parameters.
\<close>

section \<open>Tickets\<close>

record ticket_claims =
  tk_session_version :: int
  tk_sub :: string
  tk_exp :: nat
  tk_event_id :: "int option"
  tk_purpose :: string
  tk_nonce :: string

text \<open>
  \<open>rs_encode\<close>: the signed ticket; \<open>rs_decode\<close>: the claims of a ticket whose signature and time are valid.
\<close>

record realtime_service =
  rs_origins :: "string list"
  rs_encode :: "ticket_claims \<Rightarrow> string option"
  rs_decode :: "micros \<Rightarrow> string \<Rightarrow> ticket_claims option"

record ws_request = request +
  wr_origin :: "string option"

abbreviation ws_credentials :: "ws_request \<Rightarrow> request" where
  "ws_credentials req \<equiv> request.truncate req"

definition ticket_purpose :: string where
  "ticket_purpose = ''realtime''"

definition ticket_ttl_seconds :: nat where
  "ticket_ttl_seconds = 60"

definition normalize_origin :: "string \<Rightarrow> string option" where
  "normalize_origin value =
     (let trimmed = trim_end_char CHR ''/'' (trim value) in if trimmed = [] then None else Some trimmed)"

definition request_origin_allowed :: "realtime_service \<Rightarrow> ws_request \<Rightarrow> bool" where
  "request_origin_allowed s req \<longleftrightarrow>
     (case wr_origin req of
        None \<Rightarrow> True
      | Some origin \<Rightarrow> (case normalize_origin origin of
            None \<Rightarrow> False
          | Some normalized \<Rightarrow> normalized \<in> set (rs_origins s)))"

record ticket_response =
  tr_ticket :: string
  tr_expires_at :: micros
  tr_event_id :: "int option"

definition issue_realtime_ticket ::
    "realtime_service \<Rightarrow> uuid \<Rightarrow> ws_request \<Rightarrow> int option \<Rightarrow> ticket_response answer act" where
  "issue_realtime_ticket s nonce req event_id =
     andthen (require (request_origin_allowed s req) (forbidden ''forbidden_origin'')) (\<lambda>_.
     andthen (extract_active_claims_from_auth (ws_credentials req)) (\<lambda>u.
     andthen (case event_id of
         None \<Rightarrow> return ()
       | Some ev \<Rightarrow> ensure_event_member_email ev (u_email u)) (\<lambda>_.
     andthen get_state (\<lambda>w.
     andthen (some_or (rs_encode s \<lparr>tk_session_version = u_session_version u, tk_sub = lowercase (cfg w) (u_email u),
         tk_exp = now_ts w + ticket_ttl_seconds, tk_event_id = event_id, tk_purpose = ticket_purpose,
         tk_nonce = uuid_show (cfg w) nonce\<rparr>) (ApiError 500 ''ticket_creation_failed'')) (\<lambda>ticket.
     return (Answer 200 \<lparr>tr_ticket = ticket, tr_expires_at = clock w + seconds (int ticket_ttl_seconds),
       tr_event_id = event_id\<rparr>))))))"

definition decode_realtime_ticket :: "realtime_service \<Rightarrow> micros \<Rightarrow> string \<Rightarrow> api_error + ticket_claims" where
  "decode_realtime_ticket s t ticket =
     (case rs_decode s t ticket of
        None \<Rightarrow> Inl (unauthorized ''invalid_ticket'')
      | Some claims \<Rightarrow>
          if tk_purpose claims = ticket_purpose then Inr claims else Inl (unauthorized ''invalid_ticket''))"

definition active_account :: "string \<Rightarrow> int \<Rightarrow> world \<Rightarrow> bool" where
  "active_account email version w = exists_where (\<lambda>u. u_email_hash u = email_lookup (cfg w) email
     \<and> u_session_version u = version \<and> \<not> u_suspended u) (users (db w))"

definition resolve_ws_identity ::
    "realtime_service \<Rightarrow> string option \<Rightarrow> (string \<times> int option \<times> nat) act" where
  "resolve_ws_identity s ticket =
     andthen (some_or ticket (unauthorized ''missing_ticket'')) (\<lambda>ticket.
     andthen get_state (\<lambda>w.
     andthen (from_result (decode_realtime_ticket s (clock w) ticket)) (\<lambda>claims.
     let email = lowercase (cfg w) (tk_sub claims) in
     andthen (attempt (query db_error (active_account email (tk_session_version claims)))) (\<lambda>active.
     andthen (require (active = Some True) (unauthorized [])) (\<lambda>_.
     andthen (case tk_event_id claims of
         None \<Rightarrow> return ()
       | Some ev \<Rightarrow> ensure_event_member_email ev email) (\<lambda>_.
     return (email, tk_event_id claims, tk_exp claims)))))))"

section \<open>Sockets\<close>

text \<open>
  The actor of a socket: \<open>so_heard\<close> are the channels it has subscribed to, \<open>so_sent\<close> what it has sent, with
  the channel of a forwarded message; \<open>Said\<close> stands for a text frame, with the type or the message of
  a JSON payload.  A closed socket does nothing any more.
\<close>

datatype frame = Pong string | PingFrame | Said string | Forwarded string string | CloseFrame "string option"

record socket =
  so_redis :: bool
  so_event_id :: "int option"
  so_auth_exp :: nat
  so_hb :: micros
  so_open :: bool
  so_heard :: "string list"
  so_sent :: "frame list"

definition send :: "frame \<Rightarrow> socket \<Rightarrow> socket" where
  "send f s = s\<lparr>so_sent := so_sent s @ [f]\<rparr>"

definition close_socket :: "string option \<Rightarrow> socket \<Rightarrow> socket" where
  "close_socket reason s = (send (CloseFrame reason) s)\<lparr>so_open := False\<rparr>"

definition socket_channels :: "socket \<Rightarrow> string list" where
  "socket_channels s = global_channel # (case so_event_id s of None \<Rightarrow> [] | Some ev \<Rightarrow> [event_channel ev])"

text \<open>
  \<open>start_actor_websocket\<close> and what \<open>started\<close> does at once; the subscription runs in a task of its own.
\<close>

definition start_socket :: "bool \<Rightarrow> int option \<Rightarrow> nat \<Rightarrow> micros \<Rightarrow> socket" where
  "start_socket redis event_id auth_exp t =
     (let s = \<lparr>so_redis = redis, so_event_id = event_id, so_auth_exp = auth_exp, so_hb = t, so_open = True,
            so_heard = [], so_sent = []\<rparr> in
      if redis then s else send (Said ''realtime_disabled'') s)"

definition subscribed :: "socket \<Rightarrow> socket" where
  "subscribed s = send (Said ''realtime.ready'') (s\<lparr>so_heard := socket_channels s\<rparr>)"

definition interrupted :: "socket \<Rightarrow> socket" where
  "interrupted s = close_socket (Some ''realtime_unavailable'') s"

text \<open>The stream of the client ends, with or without a close message.\<close>

definition hang_up :: "socket \<Rightarrow> socket" where
  "hang_up s = s\<lparr>so_open := False\<rparr>"

text \<open>The timer, every fifteen seconds.\<close>

definition heartbeat :: "micros \<Rightarrow> socket \<Rightarrow> socket" where
  "heartbeat t s =
     (if so_auth_exp s \<le> nat (t div 1000000) then close_socket None s
      else if seconds 45 < t - so_hb s then close_socket None s
      else send PingFrame s)"

definition forward :: "string \<Rightarrow> string \<Rightarrow> socket \<Rightarrow> socket" where
  "forward channel payload s = (if channel \<in> set (so_heard s) then send (Forwarded channel payload) s else s)"

datatype ws_message = WsPing string | WsPong | WsText string | WsClose "string option" | WsOther

definition handle_message :: "micros \<Rightarrow> ws_message \<Rightarrow> socket \<Rightarrow> socket" where
  "handle_message t msg s =
     (case msg of
        WsPing payload \<Rightarrow> send (Pong payload) (s\<lparr>so_hb := t\<rparr>)
      | WsPong \<Rightarrow> s\<lparr>so_hb := t\<rparr>
      | WsText text' \<Rightarrow> if trim text' = ''ping'' then send (Said ''pong'') s else s
      | WsClose reason \<Rightarrow> close_socket reason s
      | WsOther \<Rightarrow> s)"

definition websocket :: "realtime_service \<Rightarrow> ws_request \<Rightarrow> string option \<Rightarrow> socket act" where
  "websocket s req ticket =
     andthen (require (request_origin_allowed s req) (forbidden ''forbidden_origin'')) (\<lambda>_.
     andthen (resolve_ws_identity s ticket) (\<lambda>(email, event_id, auth_exp).
     andthen get_state (\<lambda>w.
     return (start_socket (redis_configured (cfg w)) event_id auth_exp (clock w)))))"

section \<open>A socket over time\<close>

text \<open>
  A socket with the time and the time its timer fires next: time passes up to then, and what happens in
  between happens while the socket is open.
\<close>

type_synonym socket_state = "micros \<times> micros \<times> socket"

inductive socket_step :: "socket_state \<Rightarrow> socket_state \<Rightarrow> bool" where
  pass: "t \<le> t' \<Longrightarrow> t' \<le> due \<Longrightarrow> socket_step (t, due, s) (t', due, s)"
| beat: "so_open s \<Longrightarrow> socket_step (due, due, s) (due, due + seconds 15, heartbeat due s)"
| subscribe: "so_open s \<Longrightarrow> so_redis s \<Longrightarrow> so_heard s = [] \<Longrightarrow> socket_step (t, due, s) (t, due, subscribed s)"
| interrupt: "so_open s \<Longrightarrow> so_redis s \<Longrightarrow> socket_step (t, due, s) (t, due, interrupted s)"
| publication: "so_open s \<Longrightarrow> socket_step (t, due, s) (t, due, forward channel payload s)"
| message: "so_open s \<Longrightarrow> socket_step (t, due, s) (t, due, handle_message t msg s)"
| stream_end: "so_open s \<Longrightarrow> socket_step (t, due, s) (t, due, hang_up s)"

inductive_cases socket_stepE: "socket_step st st'"

end
