(* ===== verification/Realtime_Properties.thy ===== *)
theory Realtime_Properties
  imports Realtime Example Session_Facts
begin

text \<open>
  What holds of web sockets: who opens one, that an issued ticket opens one, and how long a socket lives
  and what it hears.
\<close>

section \<open>Tickets\<close>

text \<open>The account with an address belongs to the event a ticket is for, if it is for one.\<close>

definition invited_by_email :: "world \<Rightarrow> int option \<Rightarrow> string \<Rightarrow> bool" where
  "invited_by_email w event_id email \<longleftrightarrow>
     (case event_id of None \<Rightarrow> True
      | Some ev \<Rightarrow> \<exists>u. user_by_email w email = Some u \<and> belongs w ev (u_id u))"

lemma invited_by_email_same_data: "same_data w v \<Longrightarrow> invited_by_email v ev email = invited_by_email w ev email"
  by (simp add: invited_by_email_def user_by_email_stable belongs_same_data split: option.split)

lemma member_email_spec:
  "wp (ensure_event_member_email ev email)
     (\<lambda>_ v. same_data w v \<and> invited_by_email w (Some ev) email) (\<lambda>_ v. same_data w v) w"
  unfolding ensure_event_member_email_def fetch_event_owner_id_def fetch_user_id_by_email_def
    is_accepted_event_member_def
  by (auto simp: wp_simps invited_by_email_def belongs_def user_by_email_def split: option.split)

lemma checks_ticket_event [check_intros]:
  "checks (case event_id of None \<Rightarrow> return () | Some ev \<Rightarrow> ensure_event_member_email ev email)
     (\<lambda>w _. invited_by_email w event_id email)"
proof (rule checksI)
  show "stable (\<lambda>w (_ :: unit). invited_by_email w event_id email)"
    by (auto simp: stable_def invited_by_email_same_data)
  show "wp (case event_id of None \<Rightarrow> return () | Some ev \<Rightarrow> ensure_event_member_email ev email)
      (\<lambda>_ v. same_data w v \<and> invited_by_email w event_id email) (\<lambda>_ v. same_data w v) w" for w
    by (auto simp: invited_by_email_def split: option.split intro: wp_mono [OF member_email_spec])
qed

lemma active_account_same_data: "same_data w v \<Longrightarrow> active_account e n v = active_account e n w"
  by (simp add: active_account_def same_data_def)

lemma checks_active_account:
  "checks (attempt (query db_error (active_account email n))) (\<lambda>w a. a = Some True \<longrightarrow> active_account email n w)"
proof (rule checksI)
  show "stable (\<lambda>w a. a = Some True \<longrightarrow> active_account email n w)"
    by (auto simp: stable_def active_account_same_data)
  show "wp (attempt (query db_error (active_account email n)))
      (\<lambda>a v. same_data w v \<and> (a = Some True \<longrightarrow> active_account email n w)) (\<lambda>_ v. same_data w v) w" for w
    by (simp add: wp_attempt wp_query active_account_def)
qed

text \<open>What a ticket has to be for a socket to open.\<close>

definition good_ticket :: "realtime_service \<Rightarrow> string option \<Rightarrow> world \<Rightarrow> string \<times> int option \<times> nat \<Rightarrow> bool" where
  "good_ticket s ticket w = (\<lambda>(email, event_id, auth_exp). \<exists>tok claims. ticket = Some tok
     \<and> rs_decode s (clock w) tok = Some claims \<and> tk_purpose claims = ticket_purpose
     \<and> email = lowercase (cfg w) (tk_sub claims) \<and> active_account email (tk_session_version claims) w
     \<and> event_id = tk_event_id claims \<and> auth_exp = tk_exp claims \<and> invited_by_email w event_id email)"

lemma good_ticket_same_data: "same_data w v \<Longrightarrow> good_ticket s ticket v r = good_ticket s ticket w r"
  by (simp add: good_ticket_def active_account_same_data invited_by_email_same_data)
    (simp add: same_data_def)

lemma checks_resolve: "checks (resolve_ws_identity s ticket) (good_ticket s ticket)"
proof (rule checksI)
  show "stable (good_ticket s ticket)" by (simp add: stable_def good_ticket_same_data)
  show "wp (resolve_ws_identity s ticket) (\<lambda>r v. same_data w v \<and> good_ticket s ticket w r) (\<lambda>_ v. same_data w v) w" for w
    unfolding resolve_ws_identity_def Let_def
    apply (rule wp_checked [OF checks_some_or same_data_refl])
     apply (erule wp_checked [OF checks_get_state])
      apply (erule wp_checked [OF checks_from_result])
       apply (erule wp_checked [OF checks_active_account])
        apply (erule wp_checked [OF checks_require])
         apply (erule wp_checked [OF checks_ticket_event])
          apply (auto simp: good_ticket_def decode_realtime_ticket_def split: option.splits if_splits)
    done
qed

text \<open>Without a failing statement the checks of a ticket that hold are passed.\<close>

lemma member_email_passes:
  assumes "invited_by_email w (Some ev) email" and "faults w = []"
  shows "wp (ensure_event_member_email ev email) (\<lambda>_ v. v = w) E w"
  using assms
  unfolding ensure_event_member_email_def fetch_event_owner_id_def fetch_user_id_by_email_def
    is_accepted_event_member_def
  by (auto simp: wp_simps invited_by_email_def belongs_def split: option.split)

section \<open>Sockets over time\<close>

text \<open>
  The timer fires every fifteen seconds, the last time fifteen seconds before it is due; an open socket was
  alive then.
\<close>

definition socket_inv :: "bool \<Rightarrow> int option \<Rightarrow> nat \<Rightarrow> micros \<Rightarrow> socket_state \<Rightarrow> bool" where
  "socket_inv redis event_id auth_exp t0 = (\<lambda>(t, due, s).
     so_redis s = redis \<and> so_event_id s = event_id \<and> so_auth_exp s = auth_exp
     \<and> t0 \<le> t \<and> t \<le> due \<and> so_hb s \<le> t
     \<and> (so_open s \<longrightarrow> (due - seconds 15 = t0 \<or> (due - seconds 15) div 1000000 < int auth_exp)
          \<and> due - seconds 15 - so_hb s \<le> seconds 45)
     \<and> set (so_heard s) \<subseteq> (if redis then set (socket_channels s) else {})
     \<and> (\<forall>c p. Forwarded c p \<in> set (so_sent s) \<longrightarrow> redis \<and> c \<in> set (socket_channels s)))"

lemma send_fields [simp]:
  "so_redis (send f s) = so_redis s" "so_event_id (send f s) = so_event_id s"
  "so_auth_exp (send f s) = so_auth_exp s" "so_hb (send f s) = so_hb s" "so_open (send f s) = so_open s"
  "so_heard (send f s) = so_heard s" "so_sent (send f s) = so_sent s @ [f]"
  by (simp_all add: send_def)

lemma close_socket_fields [simp]:
  "so_redis (close_socket r s) = so_redis s" "so_event_id (close_socket r s) = so_event_id s"
  "so_auth_exp (close_socket r s) = so_auth_exp s" "so_hb (close_socket r s) = so_hb s"
  "\<not> so_open (close_socket r s)" "so_heard (close_socket r s) = so_heard s"
  "so_sent (close_socket r s) = so_sent s @ [CloseFrame r]"
  by (simp_all add: close_socket_def)

lemma socket_channels_cong [simp]:
  "socket_channels (send f s) = socket_channels s" "socket_channels (close_socket r s) = socket_channels s"
  "socket_channels (s\<lparr>so_hb := t\<rparr>) = socket_channels s" "socket_channels (s\<lparr>so_heard := cs\<rparr>) = socket_channels s"
  "socket_channels (s\<lparr>so_open := b\<rparr>) = socket_channels s"
  by (simp_all add: socket_channels_def)

lemma socket_inv_start: "socket_inv redis event_id auth_exp t0 (t0, t0 + seconds 15, start_socket redis event_id auth_exp t0)"
  by (simp add: socket_inv_def start_socket_def)

lemma socket_inv_step:
  assumes "socket_step st st'" and "socket_inv redis event_id auth_exp t0 st"
  shows "socket_inv redis event_id auth_exp t0 st'"
  using assms
proof cases
  case (beat s due)
  then show ?thesis using assms(2)
    by (auto simp: socket_inv_def heartbeat_def)
next
  case (message s t due msg)
  then show ?thesis using assms(2)
    by (cases msg) (auto simp: socket_inv_def handle_message_def)
qed (use assms(2) in \<open>auto simp: socket_inv_def subscribed_def interrupted_def forward_def hang_up_def split: if_splits\<close>)

text \<open>What an issued ticket says.\<close>

lemma issue_spec:
  "wp (issue_realtime_ticket s nonce req event_id)
     (\<lambda>a v. same_data w v \<and> (\<exists>u. live_session w (ws_credentials req) u \<and> invited_by_email w event_id (u_email u)
        \<and> rs_encode s \<lparr>tk_session_version = u_session_version u, tk_sub = lowercase (cfg w) (u_email u),
             tk_exp = now_ts w + 60, tk_event_id = event_id, tk_purpose = ''realtime'',
             tk_nonce = uuid_show (cfg w) nonce\<rparr> = Some (tr_ticket (ans_body a))))
     (\<lambda>_ _. True) w"
  unfolding issue_realtime_ticket_def
proof (rule wp_checked [OF checks_require same_data_refl], erule wp_checked [OF checks_session],
    erule wp_checked [OF checks_ticket_event], erule wp_checked [OF checks_get_state],
    erule wp_checked [OF checks_some_or], goal_cases)
  case (1 _ _ u _ _ _ v _ ticket v')
  then show ?case
    by (auto simp: ticket_ttl_seconds_def ticket_purpose_def now_ts_def)
qed simp_all

text \<open>A good ticket opens a socket.\<close>

lemma good_ticket_opens:
  assumes "request_origin_allowed s req" and "good_ticket s ticket w (email, event_id, auth_exp)" and "faults w = []"
  shows "websocket s req ticket w = (Inr (start_socket (redis_configured (cfg w)) event_id auth_exp (clock w)), w)"
proof -
  obtain tok claims where t: "ticket = Some tok" "rs_decode s (clock w) tok = Some claims"
      "tk_purpose claims = ticket_purpose" "email = lowercase (cfg w) (tk_sub claims)"
      "active_account email (tk_session_version claims) w" "event_id = tk_event_id claims"
      "auth_exp = tk_exp claims" and i: "invited_by_email w (tk_event_id claims) email"
    using assms(2) by (auto simp: good_ticket_def)
  have "wp (resolve_ws_identity s ticket) (\<lambda>r v. r = (email, event_id, auth_exp) \<and> v = w) (\<lambda>_ _. False) w"
    unfolding resolve_ws_identity_def Let_def
    using assms(3) t i
    by (cases "tk_event_id claims") (auto simp: wp_simps decode_realtime_ticket_def intro!: wp_mono [OF member_email_passes])
  then have "wp (websocket s req ticket)
      (\<lambda>so v. so = start_socket (redis_configured (cfg w)) event_id auth_exp (clock w) \<and> v = w) (\<lambda>_ _. False) w"
    unfolding websocket_def using assms(1)
    by (auto simp: wp_simps elim!: wp_mono)
  then show ?thesis by (auto simp: wp_def split: prod.split_asm sum.split_asm)
qed

section \<open>Properties\<close>

text \<open>
  C38. A socket opens only for a request from an allowed origin with a ticket that verifies and is meant for
  this, while the account it names is active in the session version the ticket was issued for and, when
  the ticket is for an event, is the organiser or an accepted member of that event.
\<close>

theorem sockets_open_for_members:
  assumes "websocket s req ticket w = (Inr so, v)"
  shows "same_data w v \<and> request_origin_allowed s req
     \<and> (\<exists>tok claims email. ticket = Some tok \<and> rs_decode s (clock w) tok = Some claims
          \<and> tk_purpose claims = ''realtime'' \<and> email = lowercase (cfg w) (tk_sub claims)
          \<and> active_account email (tk_session_version claims) w
          \<and> (case tk_event_id claims of None \<Rightarrow> True
             | Some ev \<Rightarrow> \<exists>u. user_by_email w email = Some u \<and> belongs w ev (u_id u))
          \<and> so = start_socket (redis_configured (cfg w)) (tk_event_id claims) (tk_exp claims) (clock w))"
    (is "?P so v")
proof -
  have "wp (websocket s req ticket) ?P (\<lambda>_ _. True) w"
    unfolding websocket_def
  proof (rule wp_checked [OF checks_require same_data_refl], erule wp_checked [OF checks_resolve], goal_cases)
    case (1 x v r v')
    then show ?case
      by (auto simp: wp_simps good_ticket_def ticket_purpose_def invited_by_email_def same_data_def split: prod.split)
  qed simp_all
  then show ?thesis using assms by (rule wp_Inr)
qed

text \<open>
  A ticket that is issued opens a socket for the event it was asked for until it runs out, provided that
  the signer verifies what it signed, the data are what they were and no statement fails.
\<close>

theorem issued_tickets_open_sockets:
  assumes "issue_realtime_ticket s nonce req event_id w = (Inr a, w1)"
    and "\<And>c x t. rs_encode s c = Some x \<Longrightarrow> t < seconds (int (tk_exp c)) \<Longrightarrow> rs_decode s t x = Some c"
    and "\<And>e. email_lookup (cfg w) (lowercase (cfg w) e) = email_lookup (cfg w) e"
    and "\<And>u. u \<in> set (users (db w)) \<Longrightarrow> u_email_hash u = email_lookup (cfg w) (u_email u)"
    and "db w2 = db w1" and "cfg w2 = cfg w1" and "faults w2 = []" and "0 \<le> clock w"
    and "clock w \<le> clock w2" and "clock w2 < seconds (clock w div 1000000 + 60)"
    and "request_origin_allowed s req2"
  shows "websocket s req2 (Some (tr_ticket (ans_body a))) w2
       = (Inr (start_socket (redis_configured (cfg w)) event_id (now_ts w + 60) (clock w2)), w2)"
proof -
  obtain u x where u: "live_session w (ws_credentials req) u" "invited_by_email w event_id (u_email u)"
      and same: "same_data w w1"
      and x: "rs_encode s \<lparr>tk_session_version = u_session_version u, tk_sub = lowercase (cfg w) (u_email u),
             tk_exp = now_ts w + 60, tk_event_id = event_id, tk_purpose = ''realtime'',
             tk_nonce = uuid_show (cfg w) nonce\<rparr> = Some (tr_ticket (ans_body a))"
    using wp_Inr [OF issue_spec assms(1)] by blast
  have d: "db w2 = db w" "cfg w2 = cfg w" using same assms(5,6) by (simp_all add: same_data_def)
  define em where "em = lowercase (cfg w) (lowercase (cfg w) (u_email u))"
  have em: "email_lookup (cfg w) em = email_lookup (cfg w) (u_email u)" by (simp add: em_def assms(3))
  have "active_account em (u_session_version u) w2"
    using u(1) assms(4) by (auto simp: live_session_def active_account_def d em intro!: bexI [of _ u])
  moreover have "invited_by_email w2 event_id em"
    using u(2) by (simp add: invited_by_email_def user_by_email_def belongs_def d em split: option.split_asm)
  moreover have "rs_decode s (clock w2) (tr_ticket (ans_body a)) = Some \<lparr>tk_session_version = u_session_version u,
      tk_sub = lowercase (cfg w) (u_email u), tk_exp = now_ts w + 60, tk_event_id = event_id,
      tk_purpose = ''realtime'', tk_nonce = uuid_show (cfg w) nonce\<rparr>"
    using assms(8,10) by (intro assms(2) [OF x]) (simp add: now_ts_def)
  ultimately have "good_ticket s (Some (tr_ticket (ans_body a))) w2 (em, event_id, now_ts w + 60)"
    by (simp add: good_ticket_def ticket_purpose_def em_def d)
  then show ?thesis using good_ticket_opens [OF assms(11) _ assms(7)] by (simp add: d)
qed

text \<open>
  C39. While a socket is open, its ticket ran out at most fifteen seconds ago (or it opened then), its client was
  heard of within the last minute, and what it has forwarded was published on the general channel or on that of
  its event; without Redis it forwards nothing.
\<close>

theorem open_sockets_are_watched:
  assumes "socket_step\<^sup>*\<^sup>* (t0, t0 + seconds 15, start_socket redis event_id auth_exp t0) (t, due, s)"
    and "so_open s"
  shows "t < max (t0 + 1) (seconds (int auth_exp)) + seconds 15 \<and> t - so_hb s \<le> seconds 60
     \<and> (\<forall>c p. Forwarded c p \<in> set (so_sent s) \<longrightarrow>
          redis \<and> (c = global_channel \<or> (\<exists>ev. event_id = Some ev \<and> c = event_channel ev)))"
proof -
  have i: "socket_inv redis event_id auth_exp t0 (t, due, s)"
    using assms(1) by (induction rule: rtranclp_induct) (use socket_inv_start socket_inv_step in auto)
  have "so_event_id s = event_id" using i by (simp add: socket_inv_def)
  moreover have "t < max (t0 + 1) (seconds (int auth_exp)) + seconds 15" "t - so_hb s \<le> seconds 60"
    using i assms(2) by (auto simp: socket_inv_def)
  moreover have "redis \<and> (c = global_channel \<or> (\<exists>ev. event_id = Some ev \<and> c = event_channel ev))"
    if "Forwarded c p \<in> set (so_sent s)" for c p
  proof -
    have "redis \<and> c \<in> set (socket_channels s)" using i that unfolding socket_inv_def by blast
    then show ?thesis
      unfolding socket_channels_def \<open>so_event_id s = event_id\<close> by (cases event_id) auto
  qed
  ultimately show ?thesis by blast
qed

section \<open>The theorems at work\<close>

definition ada_ticket :: ticket_claims where
  "ada_ticket = \<lparr>tk_session_version = 0, tk_sub = ''ada@x'', tk_exp = 60, tk_event_id = Some 10, tk_purpose = ''realtime'',
     tk_nonce = ''7''\<rparr>"

definition one_ticket :: realtime_service where
  "one_ticket = \<lparr>rs_origins = [''https://fiestaaa.app''],
     rs_encode = (\<lambda>c. if c = ada_ticket then Some ''t'' else None),
     rs_decode = (\<lambda>t tok. if tok = ''t'' \<and> t < seconds 60 then Some ada_ticket else None)\<rparr>"

definition from_app :: ws_request where
  "from_app = \<lparr>r_authorization = None, r_session_cookie = Some ''ada@x'', wr_origin = Some ''https://fiestaaa.app/''\<rparr>"

definition ada_socket :: socket where
  "ada_socket = start_socket True (Some 10) 60 500"

lemma sockets_open_for_members_witness:
  "fst (websocket one_ticket from_app (Some ''t'') (example_world example_db)) = Inr ada_socket
     \<and> request_origin_allowed one_ticket from_app
     \<and> active_account ''ada@x'' 0 (example_world example_db)"
proof -
  let ?w = "example_world example_db"
  have e: "fst (websocket one_ticket from_app (Some ''t'') ?w) = Inr ada_socket" by code_simp
  then obtain v where "websocket one_ticket from_app (Some ''t'') ?w = (Inr ada_socket, v)"
    by (metis prod.collapse)
  from sockets_open_for_members [OF this]
  show ?thesis using e by (auto simp: one_ticket_def ada_ticket_def example_config_def split: if_splits)
qed

lemma issued_tickets_open_sockets_witness:
  "\<exists>a w1. issue_realtime_ticket one_ticket 7 from_app (Some 10) (example_world example_db) = (Inr a, w1)
     \<and> fst (websocket one_ticket from_app (Some (tr_ticket (ans_body a))) (w1\<lparr>clock := seconds 59\<rparr>))
         = Inr (start_socket True (Some 10) 60 (seconds 59))"
proof -
  let ?w = "example_world example_db"
  have "fst (issue_realtime_ticket one_ticket 7 from_app (Some 10) ?w)
      = Inr (Answer 200 \<lparr>tr_ticket = ''t'', tr_expires_at = seconds 60 + 500, tr_event_id = Some 10\<rparr>)"
    by code_simp
  then obtain w1 where e: "issue_realtime_ticket one_ticket 7 from_app (Some 10) ?w
      = (Inr (Answer 200 \<lparr>tr_ticket = ''t'', tr_expires_at = seconds 60 + 500, tr_event_id = Some 10\<rparr>), w1)"
    by (metis prod.collapse)
  have same: "cfg w1 = example_config" "faults w1 = []"
    using wp_Inr [OF issue_spec e] by (auto simp: same_data_def)
  have "websocket one_ticket from_app (Some (tr_ticket (ans_body (Answer 200
          \<lparr>tr_ticket = ''t'', tr_expires_at = seconds 60 + 500, tr_event_id = Some 10\<rparr>)))) (w1\<lparr>clock := seconds 59\<rparr>)
      = (Inr (start_socket (redis_configured (cfg ?w)) (Some 10) (now_ts ?w + 60) (clock (w1\<lparr>clock := seconds 59\<rparr>))),
         w1\<lparr>clock := seconds 59\<rparr>)"
  proof (rule issued_tickets_open_sockets [OF e])
    show "rs_decode one_ticket t x = Some c" if "rs_encode one_ticket c = Some x" "t < seconds (int (tk_exp c))" for c x t
      using that by (auto simp: one_ticket_def ada_ticket_def split: if_splits)
    show "request_origin_allowed one_ticket from_app" by code_simp
    show "u_email_hash u = email_lookup (cfg ?w) (u_email u)" if "u \<in> set (users (db ?w))" for u
      using that by (auto simp: example_db_def example_user_def example_config_def)
  qed (simp_all add: same example_config_def)
  then show ?thesis using e by (auto simp: now_ts_def example_config_def)
qed

lemma open_sockets_are_watched_witness:
  "\<exists>s. socket_step\<^sup>*\<^sup>* (0, seconds 15, start_socket True (Some 10) 60 0) (seconds 15, seconds 30, s)
     \<and> so_open s \<and> Forwarded (event_channel 10) ''p'' \<in> set (so_sent s) \<and> seconds 15 - so_hb s \<le> seconds 60"
proof -
  let ?s = "start_socket True (Some 10) 60 0"
  let ?f = "forward (event_channel 10) ''p'' (subscribed ?s)"
  let ?e = "heartbeat (seconds 15) ?f"
  have "socket_step (0, seconds 15, ?s) (0, seconds 15, subscribed ?s)"
    by (rule socket_step.subscribe) (simp_all add: start_socket_def)
  moreover have "socket_step (0, seconds 15, subscribed ?s) (0, seconds 15, ?f)"
    by (rule socket_step.publication) (simp add: start_socket_def subscribed_def)
  moreover have "socket_step (0, seconds 15, ?f) (seconds 15, seconds 15, ?f)"
    by (rule socket_step.pass) simp_all
  moreover have "socket_step (seconds 15, seconds 15, ?f) (seconds 15, seconds 15 + seconds 15, ?e)"
    by (rule socket_step.beat) (simp add: start_socket_def subscribed_def forward_def)
  ultimately have r: "socket_step\<^sup>*\<^sup>* (0, seconds 15, ?s) (seconds 15, seconds 30, ?e)"
    by (simp add: converse_rtranclp_into_rtranclp)
  have "so_open ?e" "Forwarded (event_channel 10) ''p'' \<in> set (so_sent ?e)"
    by (simp_all add: start_socket_def subscribed_def forward_def heartbeat_def socket_channels_def)
  then show ?thesis using r open_sockets_are_watched [of 0 True "Some 10" 60] by fastforce
qed

end
