(* ===== verification/Geocoding.thy ===== *)
theory Geocoding
  imports Access
begin

text \<open>
  The search for addresses (\<open>src/routes/events/address.rs\<close>): a proxy of a geocoding service shared by all
  workers.  Redis holds a cache of answers and a gate that spaces the calls of the service.  Searches run
  concurrently, so a search is a process whose steps are its Redis commands and its call; Redis runs a
  command or a script at once.  Times are milliseconds.  The digest of a query, \<open>serde_json\<close>, the parser
  of numbers and of URLs are parameters; the answer of the service is whatever arrives.
\<close>

section \<open>Numbers\<close>

text \<open>
  A finite \<open>f64\<close> is, up to its sign, its mantissa times two to the power of its exponent less 1075; the
  comparison with an integer is exact.
\<close>

definition f64_exponent_field :: "f64_bits \<Rightarrow> nat" where
  "f64_exponent_field b = b div 2 ^ 52 mod 2048"

definition f64_is_finite :: "f64_bits \<Rightarrow> bool" where
  "f64_is_finite b \<longleftrightarrow> f64_exponent_field b \<noteq> 2047"

definition f64_mantissa :: "f64_bits \<Rightarrow> nat" where
  "f64_mantissa b = (if f64_exponent_field b = 0 then b mod 2 ^ 52 else b mod 2 ^ 52 + 2 ^ 52)"

definition f64_magnitude_le :: "f64_bits \<Rightarrow> nat \<Rightarrow> bool" where
  "f64_magnitude_le b n \<longleftrightarrow> f64_mantissa b * 2 ^ max 1 (f64_exponent_field b) \<le> n * 2 ^ 1075"

section \<open>Queries\<close>

record address_suggestion =
  as_label :: string
  as_latitude :: f64_bits
  as_longitude :: f64_bits

record cached_suggestions =
  cs_created_at :: nat
  cs_results :: "address_suggestion list"

record place =
  pl_display_name :: string
  pl_lat :: string
  pl_lon :: string

record geocoder =
  gc_redis :: bool
  gc_base_url :: string
  gc_country_codes :: "string option"
  gc_digest :: "string \<Rightarrow> string option \<Rightarrow> string \<Rightarrow> nat \<Rightarrow> string option"
  gc_show :: "cached_suggestions \<Rightarrow> string option"
  gc_parse :: "string \<Rightarrow> cached_suggestions option"
  gc_parse_places :: "string \<Rightarrow> place list option"
  gc_parse_f64 :: "string \<Rightarrow> f64_bits option"
  gc_valid_url :: "string \<Rightarrow> bool"

record search =
  se_query :: string
  se_limit :: nat

definition accepted_search :: "string \<Rightarrow> nat option \<Rightarrow> api_error + search" where
  "accepted_search q limit =
     (let query = trim q in
      if length query < 3 then Inl (bad_request ''query_too_short'')
      else if 256 < length query then Inl (bad_request ''query_too_long'')
      else Inr \<lparr>se_query = query, se_limit = min 10 (max 1 (case limit of None \<Rightarrow> 5 | Some n \<Rightarrow> n))\<rparr>)"

text \<open>
  The handler up to the search itself, which is the process below; the limit of the request is a \<open>u8\<close>.
\<close>

definition search_address :: "request \<Rightarrow> string \<Rightarrow> nat option \<Rightarrow> search act" where
  "search_address req q limit = andthen (claims_email req) (\<lambda>_. from_result (accepted_search q limit))"

definition geo_unavailable :: api_error where
  "geo_unavailable = ApiError 502 ''geocoding_unreachable''"

section \<open>The call of the service\<close>

definition address_url :: "geocoder \<Rightarrow> string" where
  "address_url g = trim_end_char CHR ''/'' (gc_base_url g) @ ''/search''"

definition address_pairs :: "geocoder \<Rightarrow> search \<Rightarrow> (string \<times> string) list" where
  "address_pairs g s = [(''format'', ''jsonv2''), (''addressdetails'', ''0''), (''limit'', show_int (int (se_limit s))),
     (''q'', se_query s)] @ (case gc_country_codes g of None \<Rightarrow> [] | Some cc \<Rightarrow> [(''countrycodes'', cc)])"

text \<open>What arrives: nothing, or a status and the chunks of a body that may break off.\<close>

datatype geo_reply = NoReply | GeoReply nat "string option list"

fun read_body :: "string \<Rightarrow> string option list \<Rightarrow> string option" where
  "read_body body [] = Some body"
| "read_body body (None # chunks) = None"
| "read_body body (Some chunk # chunks) =
     (if 65536 < length body + length chunk then None else read_body (body @ chunk) chunks)"

definition suggestion_of :: "geocoder \<Rightarrow> place \<Rightarrow> address_suggestion option" where
  "suggestion_of g p =
     Option.bind (gc_parse_f64 g (pl_lat p)) (\<lambda>lat.
     Option.bind (gc_parse_f64 g (pl_lon p)) (\<lambda>lon.
     if \<not> f64_is_finite lat \<or> \<not> f64_is_finite lon \<or> \<not> f64_magnitude_le lat 90 \<or> \<not> f64_magnitude_le lon 180
     then None
     else Some \<lparr>as_label = pl_display_name p, as_latitude = lat, as_longitude = lon\<rparr>))"

definition fetch_address_suggestions ::
    "geocoder \<Rightarrow> search \<Rightarrow> geo_reply \<Rightarrow> api_error + address_suggestion list" where
  "fetch_address_suggestions g s reply =
     (if \<not> gc_valid_url g (address_url g) then Inl (ApiError 500 ''geocoding_config_error'')
      else case reply of
        NoReply \<Rightarrow> Inl geo_unavailable
      | GeoReply status chunks \<Rightarrow>
          if status < 200 \<or> 299 < status then Inl (ApiError 502 ''geocoding_error'')
          else case read_body [] chunks of
            None \<Rightarrow> Inl geo_unavailable
          | Some body \<Rightarrow> (case gc_parse_places g body of
              None \<Rightarrow> Inl (ApiError 502 ''geocoding_parse_error'')
            | Some places \<Rightarrow> Inr (List.map_filter (suggestion_of g) (take (se_limit s) places))))"

section \<open>Redis\<close>

text \<open>
  Every key with the instant it expires.  The order of the cache is a sorted set: scores, ascending, with
  the keys.
\<close>

record geo_redis =
  gr_gate :: "(string \<times> nat) option"
  gr_cache :: "string \<Rightarrow> (string \<times> nat) option"
  gr_order :: "(nat \<times> string) list \<times> nat"
  gr_sequence :: "nat \<times> nat"

definition cache_key :: "string \<Rightarrow> string" where
  "cache_key digest = ''fiestaaa:geocoding:cache:v1:'' @ digest"

definition day_ms :: nat where
  "day_ms = 86400000"

definition cache_get :: "nat \<Rightarrow> string \<Rightarrow> geo_redis \<Rightarrow> string option" where
  "cache_get t key r = Option.bind (gr_cache r key) (\<lambda>(v, e). if t < e then Some v else None)"

definition usable_entry :: "geocoder \<Rightarrow> nat \<Rightarrow> string option \<Rightarrow> address_suggestion list option" where
  "usable_entry g t cached =
     Option.bind cached (\<lambda>v. Option.bind (gc_parse g v) (\<lambda>entry. let now = t div 1000 in
       if cs_created_at entry \<le> now \<and> now - cs_created_at entry < 86400 then Some (cs_results entry) else None))"

text \<open>\<open>SET NX PX 30000\<close>.\<close>

definition gate_free :: "nat \<Rightarrow> geo_redis \<Rightarrow> bool" where
  "gate_free t r \<longleftrightarrow> (case gr_gate r of None \<Rightarrow> True | Some (_, e) \<Rightarrow> e \<le> t)"

definition take_gate :: "string \<Rightarrow> nat \<Rightarrow> geo_redis \<Rightarrow> bool \<times> geo_redis" where
  "take_gate tok t r =
     (if gate_free t r then (True, r\<lparr>gr_gate := Some (tok, t + 30000)\<rparr>) else (False, r))"

text \<open>The script that ends a lease: the gate stays closed for another second.\<close>

definition release_gate :: "string \<Rightarrow> nat \<Rightarrow> geo_redis \<Rightarrow> bool \<times> geo_redis" where
  "release_gate tok t r =
     (case gr_gate r of
        Some (holder, e) \<Rightarrow>
          if t < e \<and> holder = tok then (True, r\<lparr>gr_gate := Some (tok, t + 1000)\<rparr>) else (False, r)
      | None \<Rightarrow> (False, r))"

text \<open>
  \<open>ZADD\<close> of a score: an old score of the key goes.  Equal scores, which Redis orders by the key, do not
  occur, since the sequence is above all of them.
\<close>

fun zinsert :: "nat \<Rightarrow> string \<Rightarrow> (nat \<times> string) list \<Rightarrow> (nat \<times> string) list" where
  "zinsert n key [] = [(n, key)]"
| "zinsert n key ((m, k) # zs) = (if n < m then (n, key) # (m, k) # zs else (m, k) # zinsert n key zs)"

definition zadd :: "nat \<Rightarrow> string \<Rightarrow> (nat \<times> string) list \<Rightarrow> (nat \<times> string) list" where
  "zadd n key zs = zinsert n key (filter (\<lambda>z. snd z \<noteq> key) zs)"

definition live_order :: "nat \<Rightarrow> geo_redis \<Rightarrow> (nat \<times> string) list" where
  "live_order t r = (if t < snd (gr_order r) then fst (gr_order r) else [])"

definition next_sequence :: "nat \<Rightarrow> geo_redis \<Rightarrow> nat" where
  "next_sequence t r = (if t < snd (gr_sequence r) then fst (gr_sequence r) + 1 else 1)"

definition store_cache :: "string \<Rightarrow> string \<Rightarrow> nat \<Rightarrow> geo_redis \<Rightarrow> geo_redis" where
  "store_cache key value t r =
     (let order = zadd (next_sequence t r) key (live_order t r);
          surplus = length order - 128;
          old = map snd (take surplus order);
          cache = (gr_cache r)(key \<mapsto> (value, t + day_ms)) in
      r\<lparr>gr_cache := (\<lambda>k. if k \<in> set old then None else cache k),
        gr_order := (drop surplus order, t + day_ms), gr_sequence := (next_sequence t r, t + day_ms)\<rparr>)"

section \<open>Searches\<close>

text \<open>Where a search stands in \<open>cached_address_suggestions\<close>; \<open>Fetching\<close> has the instant of its call.\<close>

datatype phase =
    Looking search string
  | Gating search string
  | Fetching search string string nat
  | Releasing search string string "api_error + address_suggestion list"
  | Storing search string string
  | Answered search "api_error + address_suggestion list"

definition begin_search :: "geocoder \<Rightarrow> search \<Rightarrow> phase" where
  "begin_search g s =
     (if \<not> gc_redis g then Answered s (Inl geo_unavailable)
      else case gc_digest g (gc_base_url g) (gc_country_codes g) (se_query s) (se_limit s) of
        None \<Rightarrow> Answered s (Inl geo_unavailable)
      | Some digest \<Rightarrow> Looking s (cache_key digest))"

definition after_lookup :: "geocoder \<Rightarrow> search \<Rightarrow> string \<Rightarrow> nat \<Rightarrow> geo_redis \<Rightarrow> phase" where
  "after_lookup g s key t r =
     (case usable_entry g t (cache_get t key r) of
        Some results \<Rightarrow> Answered s (Inr results)
      | None \<Rightarrow> Gating s key)"

definition after_gate :: "search \<Rightarrow> string \<Rightarrow> string \<Rightarrow> nat \<Rightarrow> bool \<Rightarrow> phase" where
  "after_gate s key tok t acquired =
     (if acquired then Fetching s key tok t else Answered s (Inl (ApiError 429 ''geocoding_busy'')))"

definition after_release ::
    "geocoder \<Rightarrow> search \<Rightarrow> string \<Rightarrow> nat \<Rightarrow> bool \<Rightarrow> api_error + address_suggestion list \<Rightarrow> phase" where
  "after_release g s key t released result =
     (if \<not> released then Answered s (Inl geo_unavailable)
      else case result of
        Inl e \<Rightarrow> Answered s (Inl e)
      | Inr results \<Rightarrow> (case gc_show g \<lparr>cs_created_at = t div 1000, cs_results = results\<rparr> of
          None \<Rightarrow> Answered s (Inl geo_unavailable)
        | Some value \<Rightarrow> Storing s key value))"

definition after_store :: "geocoder \<Rightarrow> search \<Rightarrow> string \<Rightarrow> phase" where
  "after_store g s value =
     Answered s (case gc_parse g value of None \<Rightarrow> Inl geo_unavailable | Some entry \<Rightarrow> Inr (cs_results entry))"

text \<open>
  The searches of all workers, and when they were let through to the service so far, latest first.
\<close>

record geo_state =
  gs_time :: nat
  gs_redis :: geo_redis
  gs_searches :: "nat \<Rightarrow> phase option"
  gs_calls :: "nat list"

definition enter :: "nat \<Rightarrow> phase \<Rightarrow> geo_state \<Rightarrow> geo_state" where
  "enter p ph s = s\<lparr>gs_searches := (gs_searches s)(p \<mapsto> ph)\<rparr>"

definition search_of :: "phase \<Rightarrow> search" where
  "search_of ph = (case ph of Looking s _ \<Rightarrow> s | Gating s _ \<Rightarrow> s | Fetching s _ _ _ \<Rightarrow> s
     | Releasing s _ _ _ \<Rightarrow> s | Storing s _ _ \<Rightarrow> s | Answered s _ \<Rightarrow> s)"

definition awaits_redis :: "phase \<Rightarrow> bool" where
  "awaits_redis ph \<longleftrightarrow> (case ph of Fetching _ _ _ _ \<Rightarrow> False | Answered _ _ \<Rightarrow> False | _ \<Rightarrow> True)"

fun lease_token :: "phase \<Rightarrow> string option" where
  "lease_token (Fetching _ _ tok _) = Some tok"
| "lease_token (Releasing _ _ tok _) = Some tok"
| "lease_token _ = None"

text \<open>
  One step of one search, or time.  A token is a new random UUID: no other search has it.  Redis may fail
  at any command, and a command may have been carried out although its answer is lost; a client may hang
  up, which drops its search where it stands.
\<close>

inductive geo_step :: "geocoder \<Rightarrow> geo_state \<Rightarrow> geo_state \<Rightarrow> bool" for g where
  wait: "geo_step g s (s\<lparr>gs_time := gs_time s + n\<rparr>)"
| arrive: "gs_searches s p = None \<Longrightarrow> accepted_search q limit = Inr srch
    \<Longrightarrow> geo_step g s (enter p (begin_search g srch) s)"
| look: "gs_searches s p = Some (Looking srch key)
    \<Longrightarrow> geo_step g s (enter p (after_lookup g srch key (gs_time s) (gs_redis s)) s)"
| gate: "gs_searches s p = Some (Gating srch key)
    \<Longrightarrow> \<forall>q ph. gs_searches s q = Some ph \<longrightarrow> lease_token ph \<noteq> Some tok
    \<Longrightarrow> take_gate tok (gs_time s) (gs_redis s) = (ok, r)
    \<Longrightarrow> geo_step g s (enter p (after_gate srch key tok (gs_time s) ok)
          (s\<lparr>gs_redis := r, gs_calls := (if ok then gs_time s # gs_calls s else gs_calls s)\<rparr>))"
| fetched: "gs_searches s p = Some (Fetching srch key tok start)
    \<Longrightarrow> geo_step g s (enter p (Releasing srch key tok (fetch_address_suggestions g srch reply)) s)"
| release: "gs_searches s p = Some (Releasing srch key tok result)
    \<Longrightarrow> release_gate tok (gs_time s) (gs_redis s) = (ok, r)
    \<Longrightarrow> geo_step g s (enter p (after_release g srch key (gs_time s) ok result) (s\<lparr>gs_redis := r\<rparr>))"
| store: "gs_searches s p = Some (Storing srch key val)
    \<Longrightarrow> geo_step g s (enter p (after_store g srch val) (s\<lparr>gs_redis := store_cache key val (gs_time s) (gs_redis s)\<rparr>))"
| unreachable: "gs_searches s p = Some ph \<Longrightarrow> awaits_redis ph
    \<Longrightarrow> geo_step g s (enter p (Answered (search_of ph) (Inl geo_unavailable)) s)"
| lost_gate: "gs_searches s p = Some (Gating srch key)
    \<Longrightarrow> \<forall>q ph. gs_searches s q = Some ph \<longrightarrow> lease_token ph \<noteq> Some tok
    \<Longrightarrow> geo_step g s (enter p (Answered srch (Inl geo_unavailable))
          (s\<lparr>gs_redis := snd (take_gate tok (gs_time s) (gs_redis s))\<rparr>))"
| lost_release: "gs_searches s p = Some (Releasing srch key tok result)
    \<Longrightarrow> geo_step g s (enter p (Answered srch (Inl geo_unavailable))
          (s\<lparr>gs_redis := snd (release_gate tok (gs_time s) (gs_redis s))\<rparr>))"
| lost_store: "gs_searches s p = Some (Storing srch key val)
    \<Longrightarrow> geo_step g s (enter p (Answered srch (Inl geo_unavailable))
          (s\<lparr>gs_redis := store_cache key val (gs_time s) (gs_redis s)\<rparr>))"
| hang_up: "geo_step g s (s\<lparr>gs_searches := (gs_searches s)(p := None)\<rparr>)"

definition empty_redis :: geo_redis where
  "empty_redis = \<lparr>gr_gate = None, gr_cache = Map.empty, gr_order = ([], 0), gr_sequence = (0, 0)\<rparr>"

definition no_searches :: "geo_state \<Rightarrow> bool" where
  "no_searches s \<longleftrightarrow> gs_redis s = empty_redis \<and> gs_searches s = Map.empty \<and> gs_calls s = []"

end
