(* ===== verification/Geocoding_Properties.thy ===== *)
theory Geocoding_Properties
  imports Geocoding "HOL-Library.Code_Target_Nat"
begin

text \<open>
  What holds of the search for addresses, however many searches run at once and whatever fails: the calls of
  the service are spaced, the cache stays small, and what is answered lies on the globe.
\<close>

section \<open>The gate\<close>

text \<open>
  Calls are a second apart, and the gate is closed for the second after the latest; a search that is
  fetching holds the gate for thirty seconds, so that of two such searches one began thirty seconds
  before the other.
\<close>

definition spaced :: "nat list \<Rightarrow> bool" where
  "spaced calls \<longleftrightarrow> sorted_wrt (\<lambda>later earlier. earlier + 1000 \<le> later) calls"

definition holds_gate :: "string \<Rightarrow> nat \<Rightarrow> nat \<Rightarrow> geo_redis \<Rightarrow> bool" where
  "holds_gate tok until t r \<longleftrightarrow> until \<le> t \<or> gr_gate r = Some (tok, until)"

definition calls_cooled :: "geo_state \<Rightarrow> bool" where
  "calls_cooled s \<longleftrightarrow> (\<forall>c \<in> set (gs_calls s). c \<le> gs_time s \<and> (c + 1000 \<le> gs_time s
     \<or> (\<exists>tok e. gr_gate (gs_redis s) = Some (tok, e) \<and> c + 1000 \<le> e)))"

definition leases_held :: "geo_state \<Rightarrow> bool" where
  "leases_held s \<longleftrightarrow> (\<forall>p srch key tok start. gs_searches s p = Some (Fetching srch key tok start) \<longrightarrow>
     start \<le> gs_time s \<and> holds_gate tok (start + 30000) (gs_time s) (gs_redis s))"

definition tokens_differ :: "geo_state \<Rightarrow> bool" where
  "tokens_differ s \<longleftrightarrow> (\<forall>p q ph ph' tok. gs_searches s p = Some ph \<longrightarrow> gs_searches s q = Some ph' \<longrightarrow>
     lease_token ph = Some tok \<longrightarrow> lease_token ph' = Some tok \<longrightarrow> p = q)"

definition leases_apart :: "geo_state \<Rightarrow> bool" where
  "leases_apart s \<longleftrightarrow> (\<forall>p q srch key tok a srch' key' tok' b. p \<noteq> q \<longrightarrow>
     gs_searches s p = Some (Fetching srch key tok a) \<longrightarrow> gs_searches s q = Some (Fetching srch' key' tok' b) \<longrightarrow>
     a + 30000 \<le> b \<or> b + 30000 \<le> a)"

definition gate_inv :: "geo_state \<Rightarrow> bool" where
  "gate_inv s \<longleftrightarrow> spaced (gs_calls s) \<and> calls_cooled s \<and> leases_held s \<and> tokens_differ s \<and> leases_apart s"

lemmas gate_inv_defs = gate_inv_def calls_cooled_def leases_held_def tokens_differ_def leases_apart_def

lemma gate_invI:
  assumes "spaced (gs_calls s)"
    and "\<And>c. c \<in> set (gs_calls s) \<Longrightarrow> c \<le> gs_time s \<and> (c + 1000 \<le> gs_time s
      \<or> (\<exists>tok e. gr_gate (gs_redis s) = Some (tok, e) \<and> c + 1000 \<le> e))"
    and "\<And>p srch key tok start. gs_searches s p = Some (Fetching srch key tok start) \<Longrightarrow>
          start \<le> gs_time s \<and> holds_gate tok (start + 30000) (gs_time s) (gs_redis s)"
    and "\<And>p q ph ph' tok. gs_searches s p = Some ph \<Longrightarrow> gs_searches s q = Some ph' \<Longrightarrow> lease_token ph = Some tok
          \<Longrightarrow> lease_token ph' = Some tok \<Longrightarrow> p = q"
    and "\<And>p q srch key tok a srch' key' tok' b. p \<noteq> q \<Longrightarrow> gs_searches s p = Some (Fetching srch key tok a)
          \<Longrightarrow> gs_searches s q = Some (Fetching srch' key' tok' b) \<Longrightarrow> a + 30000 \<le> b \<or> b + 30000 \<le> a"
  shows "gate_inv s"
  unfolding gate_inv_defs using assms by (intro conjI allI impI ballI) blast+

lemma gate_invD:
  assumes "gate_inv s"
  shows "spaced (gs_calls s)"
    and "c \<in> set (gs_calls s) \<Longrightarrow> c \<le> gs_time s \<and> (c + 1000 \<le> gs_time s
      \<or> (\<exists>tok e. gr_gate (gs_redis s) = Some (tok, e) \<and> c + 1000 \<le> e))"
    and "gs_searches s p = Some (Fetching srch key tok start) \<Longrightarrow>
          start \<le> gs_time s \<and> holds_gate tok (start + 30000) (gs_time s) (gs_redis s)"
    and "gs_searches s p = Some ph \<Longrightarrow> gs_searches s q = Some ph' \<Longrightarrow> lease_token ph = Some tok'
          \<Longrightarrow> lease_token ph' = Some tok' \<Longrightarrow> p = q"
    and "p \<noteq> q \<Longrightarrow> gs_searches s p = Some (Fetching srch key tok a)
          \<Longrightarrow> gs_searches s q = Some (Fetching srch' key' tok'' b) \<Longrightarrow> a + 30000 \<le> b \<or> b + 30000 \<le> a"
proof -
  have "spaced (gs_calls s)" "calls_cooled s" "leases_held s" "tokens_differ s" "leases_apart s"
    using assms by (simp_all add: gate_inv_def)
  note parts = this [unfolded calls_cooled_def leases_held_def tokens_differ_def leases_apart_def]
  show "spaced (gs_calls s)" by (fact parts(1))
  show "c \<in> set (gs_calls s) \<Longrightarrow> c \<le> gs_time s \<and> (c + 1000 \<le> gs_time s
      \<or> (\<exists>tok e. gr_gate (gs_redis s) = Some (tok, e) \<and> c + 1000 \<le> e))" by (rule parts(2) [rule_format])
  show "gs_searches s p = Some (Fetching srch key tok start) \<Longrightarrow>
          start \<le> gs_time s \<and> holds_gate tok (start + 30000) (gs_time s) (gs_redis s)" by (rule parts(3) [rule_format])
  show "gs_searches s p = Some ph \<Longrightarrow> gs_searches s q = Some ph' \<Longrightarrow> lease_token ph = Some tok'
          \<Longrightarrow> lease_token ph' = Some tok' \<Longrightarrow> p = q" by (rule parts(4) [rule_format])
  show "p \<noteq> q \<Longrightarrow> gs_searches s p = Some (Fetching srch key tok a)
          \<Longrightarrow> gs_searches s q = Some (Fetching srch' key' tok'' b) \<Longrightarrow> a + 30000 \<le> b \<or> b + 30000 \<le> a"
    by (rule parts(5) [rule_format])
qed

text \<open>Steps that leave the gate and the calls alone and make no search hold the gate that did not.\<close>

definition quieter :: "phase option \<Rightarrow> phase \<Rightarrow> bool" where
  "quieter old ph \<longleftrightarrow> (\<forall>tok. lease_token ph = Some tok \<longrightarrow> (\<exists>o'. old = Some o' \<and> lease_token o' = Some tok))
     \<and> (\<forall>srch key tok a. ph \<noteq> Fetching srch key tok a)"

lemma gate_inv_redis:
  assumes i: "gate_inv s" and "gr_gate r = gr_gate (gs_redis s)"
  shows "gate_inv (s\<lparr>gs_redis := r\<rparr>)"
  using gate_invD [OF i] assms(2) by (intro gate_invI) (auto simp: holds_gate_def)

lemma gate_inv_enter:
  assumes i: "gate_inv s" and q: "quieter (gs_searches s p) ph"
  shows "gate_inv (enter p ph s)"
proof (rule gate_invI, goal_cases)
  case (3 p' srch key tok start)
  then show ?case using gate_invD(3) [OF i] q by (auto simp: enter_def quieter_def split: if_split_asm)
next
  case (4 p' q' ph' ph'' tok)
  then show ?case using gate_invD(4) [OF i] q by (auto simp: enter_def quieter_def split: if_split_asm)
next
  case (5 p' q')
  then show ?case using gate_invD(5) [OF i] q by (auto simp: enter_def quieter_def split: if_split_asm)
qed (use gate_invD(1,2) [OF i] in \<open>auto simp: enter_def\<close>)

lemma gate_inv_later: "gate_inv s \<Longrightarrow> gate_inv (s\<lparr>gs_time := gs_time s + n\<rparr>)"
  by (intro gate_invI) (auto simp: holds_gate_def dest: gate_invD)

lemma gate_inv_gone: "gate_inv s \<Longrightarrow> gate_inv (s\<lparr>gs_searches := (gs_searches s)(p := None)\<rparr>)"
  by (intro gate_invI) (auto dest: gate_invD split: if_split_asm)

lemma quieter_phases [simp]:
  "quieter old (begin_search g srch)" "quieter old (after_lookup g srch key t r)"
  "quieter old (after_release g srch key t ok result)" "quieter old (after_store g srch val)"
  "quieter old (Answered srch answer)"
  "quieter (Some (Fetching srch key tok a)) (Releasing srch' key' tok answer)"
  by (auto simp: quieter_def begin_search_def after_lookup_def after_release_def after_store_def
      split: option.split sum.split)

lemma store_cache_gate [simp]: "gr_gate (store_cache key val t r) = gr_gate r"
  by (simp add: store_cache_def Let_def)

text \<open>Taking the gate, which is free, and letting the search through.\<close>

lemma free_gate:
  assumes "gate_inv s" and "gate_free (gs_time s) (gs_redis s)"
  shows "c \<in> set (gs_calls s) \<Longrightarrow> c + 1000 \<le> gs_time s"
    and "gs_searches s p = Some (Fetching srch key tok start) \<Longrightarrow> start + 30000 \<le> gs_time s"
  using gate_invD(2,3) [OF assms(1)] assms(2)
  by (force simp: gate_free_def holds_gate_def split: option.split_asm prod.split_asm)+

lemma gate_inv_taken:
  assumes i: "gate_inv s" and "gate_free (gs_time s) (gs_redis s)"
    and "gr_gate r = Some (tok, gs_time s + 30000)"
  shows "gate_inv (s\<lparr>gs_redis := r\<rparr>)"
  using gate_invD [OF i] free_gate [OF assms(1,2)] assms(3)
  by (intro gate_invI) (auto simp: holds_gate_def)

lemma gate_inv_fetch:
  assumes i: "gate_inv s" and "\<And>c. c \<in> set (gs_calls s) \<Longrightarrow> c + 1000 \<le> gs_time s"
    and old: "\<And>q srch key tok start. gs_searches s q = Some (Fetching srch key tok start) \<Longrightarrow> start + 30000 \<le> gs_time s"
    and "gr_gate (gs_redis s) = Some (tok, gs_time s + 30000)"
    and fresh: "\<And>q ph. gs_searches s q = Some ph \<Longrightarrow> lease_token ph \<noteq> Some tok"
  shows "gate_inv (enter p (Fetching srch key tok (gs_time s)) (s\<lparr>gs_calls := gs_time s # gs_calls s\<rparr>))"
proof (rule gate_invI, goal_cases)
  case 1
  then show ?case using gate_invD(1) [OF i] assms(2) by (simp add: enter_def spaced_def)
next
  case (2 c)
  then show ?case using gate_invD(2) [OF i, of c] assms(4) by (auto simp: enter_def)
next
  case (3 p srch key tok start)
  then show ?case using gate_invD(3) [OF i] assms(4) by (auto simp: enter_def holds_gate_def split: if_split_asm)
next
  case (4 p q ph ph' tok)
  then show ?case using gate_invD(4) [OF i] fresh by (auto simp: enter_def split: if_split_asm)
next
  case (5 p q)
  then show ?case using gate_invD(5) [OF i] old by (auto simp: enter_def split: if_split_asm)
qed

text \<open>The holder of a lease ends it.\<close>

lemma gate_inv_released:
  assumes i: "gate_inv s" and "gs_searches s p = Some (Releasing srch key tok result)"
  shows "gate_inv (s\<lparr>gs_redis := snd (release_gate tok (gs_time s) (gs_redis s))\<rparr>)"
proof (cases "\<exists>e. gr_gate (gs_redis s) = Some (tok, e) \<and> gs_time s < e")
  case True
  then have g: "gr_gate (snd (release_gate tok (gs_time s) (gs_redis s))) = Some (tok, gs_time s + 1000)"
    by (auto simp: release_gate_def)
  have old: "a \<le> gs_time s \<and> a + 30000 \<le> gs_time s"
    if "gs_searches s q = Some (Fetching srch' key' tok' a)" for q srch' key' tok' a
    using gate_invD(3) [OF i that] gate_invD(4) [OF i assms(2) that] assms(2) that True by (auto simp: holds_gate_def)
  show ?thesis
  proof (rule gate_invI, goal_cases)
    case (3 q srch' key' tok' a)
    then show ?case using old by (simp add: holds_gate_def)
  qed (use gate_invD(1,2,4,5) [OF i] g in \<open>auto\<close>)
next
  case False
  then have "snd (release_gate tok (gs_time s) (gs_redis s)) = gs_redis s"
    by (auto simp: release_gate_def split: option.split prod.split)
  then show ?thesis using i by simp
qed

lemma gate_inv_step:
  assumes "geo_step g s s'" and i: "gate_inv s"
  shows "gate_inv s'"
  using assms(1)
proof cases
  case (gate p srch key tok ok r)
  show ?thesis
  proof (cases ok)
    case True
    then have f: "gate_free (gs_time s) (gs_redis s)" and r: "gr_gate r = Some (tok, gs_time s + 30000)"
      using gate(4) by (auto simp: take_gate_def split: if_splits)
    have "gate_inv (s\<lparr>gs_redis := r\<rparr>)" by (rule gate_inv_taken [OF i f r])
    then show ?thesis
      using gate_inv_fetch [of "s\<lparr>gs_redis := r\<rparr>" tok p srch key] gate(1,3) True r free_gate [OF i f]
      by (simp add: after_gate_def)
  next
    case False
    then show ?thesis using gate i gate_inv_enter [OF i] by (auto simp: take_gate_def after_gate_def split: if_splits)
  qed
next
  case (lost_gate p srch key tok)
  have "gate_inv (s\<lparr>gs_redis := snd (take_gate tok (gs_time s) (gs_redis s))\<rparr>)"
    by (cases "gate_free (gs_time s) (gs_redis s)") (use i in \<open>auto simp: take_gate_def intro: gate_inv_taken\<close>)
  then show ?thesis using lost_gate(1) by (auto intro: gate_inv_enter)
next
  case (release p srch key tok result ok r)
  then have "gate_inv (s\<lparr>gs_redis := r\<rparr>)" using gate_inv_released [OF i, of p srch key tok result] by simp
  then show ?thesis using release(1) by (auto intro: gate_inv_enter)
next
  case (lost_release p srch key tok result)
  then show ?thesis using gate_inv_released [OF i lost_release(2)] by (auto intro: gate_inv_enter)
qed (use i in \<open>auto intro!: gate_inv_later gate_inv_gone gate_inv_enter gate_inv_redis\<close>)

interpretation gate: invariant_system no_searches "geo_step g" gate_inv for g
proof
  show "gate_inv s" if "no_searches s" for s
    using that by (intro gate_invI) (auto simp: no_searches_def spaced_def)
qed (rule gate_inv_step)

section \<open>The cache\<close>

text \<open>
  Every entry that has not expired is in the order of the cache, whose scores ascend up to the sequence; order
  and sequence expire together and after every entry.
\<close>

definition cache_inv :: "nat \<Rightarrow> geo_redis \<Rightarrow> bool" where
  "cache_inv t r \<longleftrightarrow> length (live_order t r) \<le> 128 \<and> snd (gr_order r) = snd (gr_sequence r)
     \<and> snd (gr_order r) \<le> t + day_ms
     \<and> (\<forall>z \<in> set (live_order t r). fst z \<le> fst (gr_sequence r))
     \<and> (\<forall>k v e. gr_cache r k = Some (v, e) \<longrightarrow> e \<le> t \<or> k \<in> snd ` set (live_order t r) \<and> e \<le> snd (gr_order r))"

lemma zinsert_last: "\<forall>z \<in> set zs. fst z < n \<Longrightarrow> zinsert n key zs = zs @ [(n, key)]"
  by (induction n key zs rule: zinsert.induct) auto

lemma cache_inv_later: "cache_inv t r \<Longrightarrow> cache_inv (t + n) r"
  by (force simp: cache_inv_def live_order_def)

lemma cache_inv_gate: "cache_inv t (r\<lparr>gr_gate := gt\<rparr>) = cache_inv t r"
  by (simp add: cache_inv_def live_order_def)

lemma cache_inv_stored:
  assumes i: "cache_inv t r"
  shows "cache_inv t (store_cache key val t r)"
proof -
  define zs where "zs = filter (\<lambda>z. snd z \<noteq> key) (live_order t r)"
  define order where "order = zs @ [(next_sequence t r, key)]"
  have below: "\<forall>z \<in> set (live_order t r). fst z < next_sequence t r"
    using i by (auto simp: cache_inv_def next_sequence_def live_order_def)
  then have order: "zadd (next_sequence t r) key (live_order t r) = order"
    by (simp add: zadd_def zs_def order_def zinsert_last)
  have r': "store_cache key val t r = r\<lparr>gr_cache := (\<lambda>k. if k \<in> snd ` set (take (length order - 128) order) then None
        else ((gr_cache r)(key \<mapsto> (val, t + day_ms))) k),
        gr_order := (drop (length order - 128) order, t + day_ms), gr_sequence := (next_sequence t r, t + day_ms)\<rparr>"
    by (simp add: store_cache_def Let_def order)
  have live: "live_order t (store_cache key val t r) = drop (length order - 128) order"
    by (simp add: r' live_order_def day_ms_def)
  have split: "set order = set (take (length order - 128) order) \<union> set (drop (length order - 128) order)"
    by (metis append_take_drop_id set_append)
  have kept: "k \<in> snd ` set order" if "k \<in> snd ` set (live_order t r) \<or> k = key" for k
    using that by (force simp: order_def zs_def)
  show ?thesis
    unfolding cache_inv_def live
  proof (intro conjI ballI allI impI, goal_cases)
    case (4 z)
    then have "z \<in> set order" by (rule in_set_dropD)
    then show ?case using below by (auto simp: r' order_def zs_def)
  next
    case (5 k v e)
    then have k: "k \<notin> snd ` set (take (length order - 128) order)"
      and old: "k = key \<and> e = t + day_ms \<or> gr_cache r k = Some (v, e)"
      by (auto simp: r' split: if_split_asm)
    show ?case
    proof (cases "e \<le> t")
      case False
      then have "(k \<in> snd ` set (live_order t r) \<or> k = key) \<and> e \<le> t + day_ms"
        using old i by (force simp: cache_inv_def)
      then have "k \<in> snd ` set order \<and> e \<le> t + day_ms" using kept by blast
      then show ?thesis using k unfolding split by (auto simp: r')
    qed simp
  qed (simp_all add: r')
qed

definition cached_inv :: "geo_state \<Rightarrow> bool" where
  "cached_inv s \<longleftrightarrow> cache_inv (gs_time s) (gs_redis s)"

lemma cache_inv_taken: "cache_inv t r \<Longrightarrow> cache_inv t (snd (take_gate tok t r))"
  by (simp add: take_gate_def cache_inv_gate)

lemma cache_inv_released: "cache_inv t r \<Longrightarrow> cache_inv t (snd (release_gate tok t r))"
  by (simp add: release_gate_def cache_inv_gate split: option.split prod.split)

lemma enter_fields [simp]:
  "gs_time (enter p ph s) = gs_time s" "gs_redis (enter p ph s) = gs_redis s" "gs_calls (enter p ph s) = gs_calls s"
  by (simp_all add: enter_def)

interpretation cached: invariant_system no_searches "geo_step g" cached_inv for g
proof
  show "cached_inv s" if "no_searches s" for s
    using that by (simp add: no_searches_def cached_inv_def cache_inv_def empty_redis_def live_order_def)
  show "cached_inv s'" if "cached_inv s" "geo_step g s s'" for s s'
    using that(2,1)
    by cases (auto simp: cached_inv_def dest: cache_inv_later cache_inv_taken cache_inv_released cache_inv_stored
        intro: cache_inv_stored cache_inv_later cache_inv_taken cache_inv_released
        dest!: arg_cong [where f = snd])
qed

section \<open>The answers\<close>

definition on_the_globe :: "address_suggestion \<Rightarrow> bool" where
  "on_the_globe x \<longleftrightarrow> f64_is_finite (as_latitude x) \<and> f64_magnitude_le (as_latitude x) 90
     \<and> f64_is_finite (as_longitude x) \<and> f64_magnitude_le (as_longitude x) 180"

definition good_answer :: "api_error + address_suggestion list \<Rightarrow> bool" where
  "good_answer a \<longleftrightarrow> (case a of Inl _ \<Rightarrow> True | Inr xs \<Rightarrow> length xs \<le> 10 \<and> (\<forall>x \<in> set xs. on_the_globe x))"

definition good_value :: "geocoder \<Rightarrow> string \<Rightarrow> bool" where
  "good_value g v \<longleftrightarrow> (\<forall>c. gc_parse g v = Some c \<longrightarrow> good_answer (Inr (cs_results c)))"

fun good_phase :: "geocoder \<Rightarrow> phase \<Rightarrow> bool" where
  "good_phase g (Releasing srch key tok a) = (se_limit srch \<le> 10 \<and> good_answer a)"
| "good_phase g (Storing srch key v) = (se_limit srch \<le> 10 \<and> good_value g v)"
| "good_phase g (Answered srch a) = (se_limit srch \<le> 10 \<and> good_answer a)"
| "good_phase g ph = (se_limit (search_of ph) \<le> 10)"

definition answers_inv :: "geocoder \<Rightarrow> geo_state \<Rightarrow> bool" where
  "answers_inv g s \<longleftrightarrow> (\<forall>k v e. gr_cache (gs_redis s) k = Some (v, e) \<longrightarrow> good_value g v)
     \<and> (\<forall>p ph. gs_searches s p = Some ph \<longrightarrow> good_phase g ph)"

lemma good_error [simp]: "good_answer (Inl e)"
  by (simp add: good_answer_def)

lemma length_map_filter: "length (List.map_filter f xs) \<le> length xs"
  by (induction xs) (auto simp: List.map_filter_simps split: option.split)

lemma set_map_filter_iff: "y \<in> set (List.map_filter f xs) \<longleftrightarrow> (\<exists>x \<in> set xs. f x = Some y)"
  by (induction xs) (auto simp: List.map_filter_simps split: option.split)

lemma good_fetch:
  assumes "se_limit srch \<le> 10"
  shows "good_answer (fetch_address_suggestions g srch reply)"
proof -
  have "length (List.map_filter (suggestion_of g) (take (se_limit srch) places)) \<le> 10" for places
    using length_map_filter [of "suggestion_of g" "take (se_limit srch) places"] assms by simp
  moreover have "on_the_globe x" if "suggestion_of g pl = Some x" for pl x
    using that by (auto simp: suggestion_of_def on_the_globe_def bind_eq_Some_conv split: if_splits)
  ultimately show ?thesis
    by (auto simp: fetch_address_suggestions_def good_answer_def set_map_filter_iff split: geo_reply.split option.split)
qed

lemma good_begin: "accepted_search q limit = Inr srch \<Longrightarrow> good_phase g (begin_search g srch)"
  by (auto simp: accepted_search_def begin_search_def search_of_def Let_def split: if_splits option.split)

lemma good_lookup:
  assumes "answers_inv g s" and "se_limit srch \<le> 10"
  shows "good_phase g (after_lookup g srch key t (gs_redis s))"
  using assms
  by (auto simp: after_lookup_def usable_entry_def cache_get_def answers_inv_def good_value_def search_of_def
      bind_eq_Some_conv Let_def split: option.split if_splits)

lemma good_released:
  assumes "\<And>c v. gc_show g c = Some v \<Longrightarrow> gc_parse g v = Some c" and "se_limit srch \<le> 10" and "good_answer result"
  shows "good_phase g (after_release g srch key t ok result)"
  using assms by (auto simp: after_release_def good_value_def good_answer_def split: sum.split option.split)

lemma good_stored: "se_limit srch \<le> 10 \<Longrightarrow> good_value g v \<Longrightarrow> good_phase g (after_store g srch v)"
  by (auto simp: after_store_def good_value_def split: option.split)

lemma gate_keeps_cache [simp]:
  "gr_cache (snd (take_gate tok t r)) = gr_cache r" "gr_cache (snd (release_gate tok t r)) = gr_cache r"
  by (simp_all add: take_gate_def release_gate_def split: option.split prod.split)

lemma gated_cache: "take_gate tok t r = (ok, r') \<Longrightarrow> gr_cache r' = gr_cache r"
    "release_gate tok t r = (ok, r') \<Longrightarrow> gr_cache r' = gr_cache r"
  using gate_keeps_cache by (metis snd_conv)+

lemma answers_inv_enter:
  assumes "answers_inv g s" and "good_phase g ph" and "gr_cache r = gr_cache (gs_redis s)"
  shows "answers_inv g (enter p ph (s\<lparr>gs_redis := r, gs_calls := cs\<rparr>))" "answers_inv g (enter p ph (s\<lparr>gs_redis := r\<rparr>))"
    "answers_inv g (enter p ph s)"
  using assms by (auto simp: answers_inv_def enter_def)

lemma answers_inv_stored:
  assumes "answers_inv g s" and "good_phase g ph" and "good_value g val"
  shows "answers_inv g (enter p ph (s\<lparr>gs_redis := store_cache key val t (gs_redis s)\<rparr>))"
  using assms by (auto simp: answers_inv_def enter_def store_cache_def Let_def split: if_split_asm)

lemma good_phaseD:
  "answers_inv g s \<Longrightarrow> gs_searches s p = Some ph \<Longrightarrow> good_phase g ph"
  by (simp add: answers_inv_def)

lemma good_phase_limit: "good_phase g ph \<Longrightarrow> se_limit (search_of ph) \<le> 10"
  by (cases ph) (auto simp: search_of_def)

lemma answers_inv_step:
  assumes parse: "\<And>c v. gc_show g c = Some v \<Longrightarrow> gc_parse g v = Some c"
    and "geo_step g s s'" and i: "answers_inv g s"
  shows "answers_inv g s'"
  using assms(2)
proof cases
  case (arrive p q limit srch)
  then show ?thesis by (simp add: answers_inv_enter(3) [OF i good_begin])
next
  case (look p srch key)
  then show ?thesis
    using good_phaseD [OF i look(2)] by (simp add: search_of_def answers_inv_enter(3) [OF i good_lookup [OF i]])
next
  case (gate p srch key tok ok r)
  have "good_phase g (after_gate srch key tok (gs_time s) ok)"
    using good_phaseD [OF i gate(2)] by (simp add: after_gate_def search_of_def)
  then show ?thesis using gate(1) answers_inv_enter(1) [OF i _ gated_cache(1) [OF gate(4)]] by simp
next
  case (fetched p srch key tok start reply)
  then show ?thesis
    using good_phaseD [OF i fetched(2)] by (simp add: search_of_def answers_inv_enter(3) [OF i] good_fetch)
next
  case (release p srch key tok result ok r)
  then show ?thesis
    using good_phaseD [OF i release(2)] answers_inv_enter(2) [OF i good_released [OF parse] gated_cache(2) [OF release(3)]]
    by simp
next
  case (store p srch key val)
  then show ?thesis
    using good_phaseD [OF i store(2)] by (simp add: answers_inv_stored [OF i good_stored])
next
  case (unreachable p ph)
  then show ?thesis
    using good_phase_limit [OF good_phaseD [OF i unreachable(2)]] by (simp add: answers_inv_enter(3) [OF i])
next
  case (lost_gate p srch key tok)
  then show ?thesis
    using good_phaseD [OF i lost_gate(2)] by (simp add: search_of_def answers_inv_enter(2) [OF i])
next
  case (lost_release p srch key tok result)
  then show ?thesis
    using good_phaseD [OF i lost_release(2)] by (simp add: answers_inv_enter(2) [OF i])
next
  case (lost_store p srch key val)
  then show ?thesis
    using good_phaseD [OF i lost_store(2)] by (simp add: answers_inv_stored [OF i])
qed (use i in \<open>auto simp: answers_inv_def split: if_split_asm\<close>)

section \<open>Properties\<close>

text \<open>
  C40. However many searches run at once, on whichever workers, and whichever commands of Redis fail or lose their
  answer: the service is called at most once a second, and two searches that both wait for it began to
  at least thirty seconds apart, three times the longest a client waits.
\<close>

theorem calls_are_spaced:
  assumes "reachable no_searches (geo_step g) s"
  shows "sorted_wrt (\<lambda>later earlier. earlier + 1000 \<le> later) (gs_calls s)
     \<and> (\<forall>p q srch key tok a srch' key' tok' b. p \<noteq> q \<and> gs_searches s p = Some (Fetching srch key tok a)
          \<and> gs_searches s q = Some (Fetching srch' key' tok' b) \<longrightarrow> a + 30000 \<le> b \<or> b + 30000 \<le> a)"
  using gate_invD(1,5) [OF gate.reachable_inv [OF assms]] unfolding spaced_def by blast

text \<open>
  The cache of all workers holds at most 128 answers at any time, however the searches interleave.
\<close>

theorem the_cache_is_bounded:
  assumes "reachable no_searches (geo_step g) s"
  shows "finite {k. cache_get (gs_time s) k (gs_redis s) \<noteq> None}
     \<and> card {k. cache_get (gs_time s) k (gs_redis s) \<noteq> None} \<le> 128"
proof -
  have i: "cache_inv (gs_time s) (gs_redis s)"
    using cached.reachable_inv [OF assms] by (simp add: cached_inv_def)
  let ?live = "set (map snd (live_order (gs_time s) (gs_redis s)))"
  have sub: "{k. cache_get (gs_time s) k (gs_redis s) \<noteq> None} \<subseteq> ?live"
    using i by (force simp: cache_get_def cache_inv_def bind_eq_Some_conv split: if_splits)
  have "card ?live \<le> 128" using i card_length [of "map snd (live_order (gs_time s) (gs_redis s))"]
    by (simp add: cache_inv_def)
  then show ?thesis using sub by (meson List.finite_set card_mono finite_subset le_trans)
qed

text \<open>
  Every list of suggestions that is answered, new or from the cache, has at most ten entries, with finite
  coordinates on the globe, provided that \<open>serde_json\<close> reads back what it wrote.
\<close>

theorem answers_lie_on_the_globe:
  assumes "reachable no_searches (geo_step g) s"
    and "\<And>c v. gc_show g c = Some v \<Longrightarrow> gc_parse g v = Some c"
    and "gs_searches s p = Some (Answered srch (Inr xs))"
  shows "length xs \<le> 10 \<and> (\<forall>x \<in> set xs. f64_is_finite (as_latitude x) \<and> f64_magnitude_le (as_latitude x) 90
     \<and> f64_is_finite (as_longitude x) \<and> f64_magnitude_le (as_longitude x) 180)"
proof -
  have "answers_inv g s"
    using assms(1)
  proof (induction rule: reachable.induct)
    case (start s)
    then show ?case by (simp add: no_searches_def answers_inv_def empty_redis_def)
  next
    case (next_step s t)
    then show ?case using answers_inv_step [OF assms(2)] by blast
  qed
  then have "good_answer (Inr xs)" using good_phaseD [OF _ assms(3)] by simp
  then show ?thesis by (simp add: good_answer_def on_the_globe_def)
qed

section \<open>The theorems at work\<close>

definition paris :: address_suggestion where
  "paris = \<lparr>as_label = ''Paris'', as_latitude = 0x4048000000000000, as_longitude = 0x4000000000000000\<rparr>"

definition paris_cached :: cached_suggestions where
  "paris_cached = \<lparr>cs_created_at = 0, cs_results = [paris]\<rparr>"

definition paris_geocoder :: geocoder where
  "paris_geocoder = \<lparr>gc_redis = True, gc_base_url = ''https://geo/'', gc_country_codes = None,
     gc_digest = (\<lambda>_ _ q _. Some q),
     gc_show = (\<lambda>c. if c = paris_cached then Some ''v'' else None),
     gc_parse = (\<lambda>v. if v = ''v'' then Some paris_cached else None),
     gc_parse_places = (\<lambda>_. Some [\<lparr>pl_display_name = ''Paris'', pl_lat = ''48'', pl_lon = ''2''\<rparr>,
        \<lparr>pl_display_name = ''Nowhere'', pl_lat = ''2'', pl_lon = ''nan''\<rparr>]),
     gc_parse_f64 = (\<lambda>n. if n = ''48'' then Some 0x4048000000000000 else if n = ''2'' then Some 0x4000000000000000
        else Some 0x7FF8000000000000),
     gc_valid_url = (\<lambda>_. True)\<rparr>"

definition for_paris :: search where
  "for_paris = \<lparr>se_query = ''Paris'', se_limit = 5\<rparr>"

definition idle :: geo_state where
  "idle = \<lparr>gs_time = 0, gs_redis = empty_redis, gs_searches = Map.empty, gs_calls = []\<rparr>"

definition let_in :: "nat \<Rightarrow> string \<Rightarrow> geo_state \<Rightarrow> geo_state" where
  "let_in p tok s = enter p (Fetching for_paris (cache_key ''Paris'') tok (gs_time s))
     (s\<lparr>gs_redis := snd (take_gate tok (gs_time s) (gs_redis s)), gs_calls := gs_time s # gs_calls s\<rparr>)"

lemma let_in_reachable:
  assumes s: "reachable no_searches (geo_step paris_geocoder) s" and "gs_searches s p = None"
    and "gate_free (gs_time s) (gs_redis s)" and "cache_get (gs_time s) (cache_key ''Paris'') (gs_redis s) = None"
    and "\<forall>q ph. gs_searches s q = Some ph \<longrightarrow> lease_token ph \<noteq> Some tok"
  shows "reachable no_searches (geo_step paris_geocoder) (let_in p tok s)"
proof -
  let ?g = paris_geocoder and ?k = "cache_key ''Paris''"
  define s1 where "s1 = enter p (Looking for_paris ?k) s"
  define s2 where "s2 = enter p (Gating for_paris ?k) s1"
  have same: "gs_time s1 = gs_time s" "gs_redis s1 = gs_redis s" "gs_time s2 = gs_time s" "gs_redis s2 = gs_redis s"
    "gs_searches s2 = (gs_searches s)(p \<mapsto> Gating for_paris ?k)"
    by (simp_all add: s1_def s2_def enter_def)
  have "accepted_search ''Paris'' None = Inr for_paris" by code_simp
  then have "geo_step ?g s (enter p (begin_search ?g for_paris) s)" by (rule geo_step.arrive [OF assms(2)])
  then have 1: "geo_step ?g s s1" by (simp add: begin_search_def paris_geocoder_def for_paris_def s1_def)
  have "gs_searches s1 p = Some (Looking for_paris ?k)" by (simp add: s1_def enter_def)
  from geo_step.look [OF this, of ?g] have 2: "geo_step ?g s1 s2"
    using assms(4) by (simp add: after_lookup_def usable_entry_def same s2_def)
  have "take_gate tok (gs_time s2) (gs_redis s2) = (True, snd (take_gate tok (gs_time s) (gs_redis s)))"
    using assms(3) by (simp add: take_gate_def same)
  from geo_step.gate [OF _ _ this, of p for_paris ?k ?g]
  have 3: "geo_step ?g s2 (enter p (Fetching for_paris ?k tok (gs_time s))
      (s2\<lparr>gs_redis := snd (take_gate tok (gs_time s) (gs_redis s)), gs_calls := gs_time s # gs_calls s2\<rparr>))"
    using assms(5) by (auto simp: same after_gate_def split: if_split_asm)
  have "enter p (Fetching for_paris ?k tok (gs_time s))
      (s2\<lparr>gs_redis := snd (take_gate tok (gs_time s) (gs_redis s)), gs_calls := gs_time s # gs_calls s2\<rparr>) = let_in p tok s"
    by (simp add: enter_def let_in_def s1_def s2_def)
  with 3 have "geo_step ?g s2 (let_in p tok s)" by (simp only:)
  from reachable.next_step [OF reachable.next_step [OF reachable.next_step [OF s 1] 2] this] show ?thesis .
qed

lemma first_reachable: "reachable no_searches (geo_step paris_geocoder) (let_in 1 ''a'' idle)"
proof (rule let_in_reachable)
  show "reachable no_searches (geo_step paris_geocoder) idle"
    by (rule reachable.start) (simp add: no_searches_def idle_def)
qed (simp_all add: idle_def empty_redis_def gate_free_def cache_get_def)

text \<open>A second search is let through while the first still waits, thirty seconds later.\<close>

definition both_wait :: geo_state where
  "both_wait = let_in 2 ''b'' ((let_in 1 ''a'' idle)\<lparr>gs_time := 30000\<rparr>)"

lemma both_wait_reachable: "reachable no_searches (geo_step paris_geocoder) both_wait"
  unfolding both_wait_def
proof (rule let_in_reachable)
  have "geo_step paris_geocoder (let_in 1 ''a'' idle) ((let_in 1 ''a'' idle)\<lparr>gs_time := gs_time (let_in 1 ''a'' idle) + 30000\<rparr>)"
    by (rule geo_step.wait)
  then show "reachable no_searches (geo_step paris_geocoder) ((let_in 1 ''a'' idle)\<lparr>gs_time := 30000\<rparr>)"
    using first_reachable by (simp add: let_in_def idle_def enter_def reachable.next_step)
qed (auto simp: let_in_def idle_def enter_def empty_redis_def gate_free_def cache_get_def take_gate_def)

lemma calls_are_spaced_witness:
  "gs_calls both_wait = [30000, 0]
     \<and> gs_searches both_wait 1 = Some (Fetching for_paris (cache_key ''Paris'') ''a'' 0)
     \<and> gs_searches both_wait 2 = Some (Fetching for_paris (cache_key ''Paris'') ''b'' 30000)
     \<and> sorted_wrt (\<lambda>later earlier. earlier + 1000 \<le> later) (gs_calls both_wait)"
  using calls_are_spaced [OF both_wait_reachable]
  by (simp add: both_wait_def let_in_def idle_def enter_def)

text \<open>The first search comes to its end.\<close>

definition found :: geo_state where
  "found = (let s = let_in 1 ''a'' idle in enter 1 (Answered for_paris (Inr [paris]))
     (s\<lparr>gs_redis := store_cache (cache_key ''Paris'') ''v'' 0 (snd (release_gate ''a'' 0 (gs_redis s)))\<rparr>))"

lemma fetch_paris: "fetch_address_suggestions paris_geocoder for_paris (GeoReply 200 []) = Inr [paris]"
proof -
  have "f64_magnitude_le 0x4048000000000000 90" "f64_magnitude_le 0x4000000000000000 180"
    "f64_is_finite 0x4048000000000000" "f64_is_finite 0x4000000000000000" "\<not> f64_is_finite 0x7FF8000000000000"
    by (simp_all add: f64_magnitude_le_def f64_is_finite_def f64_exponent_field_def f64_mantissa_def)
  then show ?thesis
    by (simp add: fetch_address_suggestions_def paris_geocoder_def suggestion_of_def List.map_filter_simps paris_def
        for_paris_def)
qed

lemma found_reachable: "reachable no_searches (geo_step paris_geocoder) found"
proof -
  let ?g = paris_geocoder and ?k = "cache_key ''Paris''"
  define s where "s = let_in 1 ''a'' idle"
  define r where "r = snd (release_gate ''a'' 0 (gs_redis s))"
  define s1 where "s1 = enter 1 (Releasing for_paris ?k ''a'' (Inr [paris])) s"
  define s2 where "s2 = enter 1 (Storing for_paris ?k ''v'') (s1\<lparr>gs_redis := r\<rparr>)"
  have t: "gs_time s = 0" "gs_time s1 = 0" "gs_time s2 = 0" by (simp_all add: s_def s1_def s2_def let_in_def idle_def)
  have "gs_searches s 1 = Some (Fetching for_paris ?k ''a'' 0)" by (simp add: s_def let_in_def idle_def enter_def)
  from geo_step.fetched [OF this, of ?g "GeoReply 200 []"] have 1: "geo_step ?g s s1" by (simp only: fetch_paris s1_def)
  have "gs_searches s1 1 = Some (Releasing for_paris ?k ''a'' (Inr [paris]))" by (simp add: s1_def enter_def)
  moreover have "release_gate ''a'' (gs_time s1) (gs_redis s1) = (True, r)"
    by (simp add: r_def s1_def s_def let_in_def idle_def take_gate_def gate_free_def empty_redis_def release_gate_def)
  ultimately have "geo_step ?g s1 (enter 1 (after_release ?g for_paris ?k (gs_time s1) True (Inr [paris])) (s1\<lparr>gs_redis := r\<rparr>))"
    by (rule geo_step.release)
  moreover have "after_release ?g for_paris ?k (gs_time s1) True (Inr [paris]) = Storing for_paris ?k ''v''"
    by (simp add: after_release_def t paris_geocoder_def paris_cached_def)
  ultimately have 2: "geo_step ?g s1 s2" by (simp add: s2_def)
  have "gs_searches s2 1 = Some (Storing for_paris ?k ''v'')" by (simp add: s2_def enter_def)
  from geo_step.store [OF this, of ?g]
  have "geo_step ?g s2 (enter 1 (after_store ?g for_paris ''v'') (s2\<lparr>gs_redis := store_cache ?k ''v'' 0 r\<rparr>))"
    by (simp add: t) (simp add: s2_def)
  moreover have "after_store ?g for_paris ''v'' = Answered for_paris (Inr [paris])"
    by (simp add: after_store_def paris_geocoder_def paris_cached_def)
  moreover have "enter 1 (Answered for_paris (Inr [paris])) (s2\<lparr>gs_redis := store_cache ?k ''v'' 0 r\<rparr>) = found"
    by (simp add: found_def Let_def r_def s2_def s1_def s_def enter_def)
  ultimately have 3: "geo_step ?g s2 found" by (simp only:)
  have "reachable no_searches (geo_step ?g) s" using first_reachable by (simp only: s_def)
  from reachable.next_step [OF reachable.next_step [OF reachable.next_step [OF this 1] 2] 3] show ?thesis .
qed

lemma the_cache_is_bounded_witness:
  "cache_get (gs_time found) (cache_key ''Paris'') (gs_redis found) = Some ''v''
     \<and> card {k. cache_get (gs_time found) k (gs_redis found) \<noteq> None} \<le> 128"
proof -
  have "cache_get (gs_time found) (cache_key ''Paris'') (gs_redis found) = Some ''v''" by code_simp
  then show ?thesis using the_cache_is_bounded [OF found_reachable] by blast
qed

lemma answers_lie_on_the_globe_witness:
  "gs_searches found 1 = Some (Answered for_paris (Inr [paris])) \<and> f64_magnitude_le (as_latitude paris) 90"
proof -
  have "gs_searches found 1 = Some (Answered for_paris (Inr [paris]))" by (simp add: found_def enter_def Let_def)
  moreover have "gc_parse paris_geocoder v = Some c" if "gc_show paris_geocoder c = Some v" for c v
    using that by (simp add: paris_geocoder_def split: if_splits)
  ultimately show ?thesis using answers_lie_on_the_globe [OF found_reachable] by auto
qed

end
