(* ===== verification/Spec2Isabelle.thy ===== *)
theory Spec2Isabelle
  imports Carpool_Properties Invitation_Properties Expense_Properties Friend_Properties Poll_Properties
    Item_Properties Account_Properties Checkin_Properties Rate_Limit Event_Properties Event_Listing
    Profile Devices Session_Properties Realtime_Properties Geocoding_Properties
begin

text \<open>
  The back end of Fiestaaa: friends organise a party.  It is a Rust program (actix-web, sqlx on
  PostgreSQL, Redis); one HTTP handler per operation reads and writes the tables of the migrations,
  publishes messages for open web sockets and queues push notifications.  The organiser of an event
  invites users and addresses; accepted guests offer and take seats in cars, say what they bring,
  vote, share expenses and are registered at the door; users are friends or block one another.

  \<^bold>\<open>How the program is modelled.\<close>
  A handler is an action (\<open>Prelude\<close>): a function from the world to a result, \<open>Inl\<close> an error answer
  with its status and code or \<open>Inr\<close> the value, and the next world.  \<open>andthen\<close> is the \<open>?\<close> of Rust and
  the early return of the handlers; \<open>require\<close>, \<open>some_or\<close>, \<open>attempt\<close>, \<open>map_error\<close> and \<open>for_each\<close> are
  the other ways the code composes.  The world (\<open>World\<close>) is a record: the tables as lists of rows, the
  sequences behind the \<open>BIGSERIAL\<close> columns, the clock, the messages published, pushed and mailed so
  far, and the settings.  A statement (\<open>query\<close>, \<open>execute\<close>, \<open>stmt\<close>) may fail at any time: the list
  \<open>faults\<close> says which ones do, so theorems hold for every choice of failing statements.  \<open>transact\<close> is
  a transaction: it rolls the tables back, but not the sequences, on an error or when \<open>COMMIT\<close> fails.
  Constraints, foreign keys and triggers are part of the statements that run into them.

  \<^bold>\<open>The parts\<close>, each with the theory that models it, its facts and its properties.
  \<^item> \<open>Prelude\<close>, \<open>Text\<close>, \<open>World\<close>: actions and weakest preconditions (\<open>wp\<close>), Rust strings as UTF-8 bytes,
    the state.  \<open>Checks\<close>: the calculus of handlers, that is guards that change nothing (\<open>checks\<close>),
    tails that only send messages (\<open>trails\<close>, \<open>tells\<close>), invariants (\<open>keeps\<close>, the locales
    \<open>table_invariant\<close> and \<open>invariant_system\<close> of \<open>World\<close>, interpreted once per component).
    \<open>Example\<close>: the concrete world on which theorems with hypotheses are applied.
  \<^item> \<open>Auth\<close> (\<open>src/auth.rs\<close>): from the token of a request to its user; revocation.
  \<^item> \<open>Access\<close> (\<open>src/repositories/event_repository.rs\<close>, \<open>src/routes/event_access.rs\<close>, helpers of
    \<open>src/routes/events/mod.rs\<close>): owner, member, life cycle of an event.  \<open>Event_View\<close>: an event as
    it is answered.
  \<^item> \<open>Pagination\<close> (\<open>src/pagination.rs\<close>): pages and cursors; the locale \<open>paged_listing\<close> shows that
    following the cursors ends and yields every row once, under laws that some listings break.
  \<^item> \<open>Outbox\<close> (\<open>src/notifications.rs\<close>): queueing with deduplication, the delivery worker.
  \<^item> \<open>Carpools\<close>, \<open>Carpool_Facts\<close>, \<open>Carpool_Listing\<close>, \<open>Carpool_Properties\<close>
    (\<open>src/routes/carpools.rs\<close>): the tables refine a map of roles (driver of, passenger of).
  \<^item> \<open>Event_Form\<close>, \<open>Events\<close>, \<open>Event_Listing\<close>, \<open>Event_Facts\<close>, \<open>Event_Invariant\<close>, \<open>Event_Properties\<close>
    (\<open>src/routes/events/mod.rs\<close>, \<open>core.rs\<close>, \<open>listing.rs\<close>): the form of an event, its checks, the table
    with its trigger and constraints, the trash.  \<open>Payment_Providers\<close>
    (\<open>src/routes/payment_providers.rs\<close>) and \<open>Moderation\<close> (\<open>src/routes/safety.rs\<close>) write the same table
    and are steps of the same invariant.  \<open>Private_Hosts\<close>: the filter for links is a list of networks.
  \<^item> \<open>Invitations\<close>, \<open>Share_Links\<close>, \<open>Invitation_Facts\<close>, \<open>Refusal_Facts\<close>, \<open>Invitation_Handlers\<close>,
    \<open>Invitation_Answers\<close>, \<open>Invitation_Properties\<close> (\<open>src/routes/invitations.rs\<close>,
    \<open>src/routes/events/share_links.rs\<close>): the tables refine a map from guests to their standing; a
    refusal reaches into the reservations and the carpools.
  \<^item> \<open>Expenses\<close>, \<open>Expense_Facts\<close>, \<open>Expense_Handlers\<close>, \<open>Expense_Properties\<close>
    (\<open>src/routes/events/expenses.rs\<close>): splitting an amount, balances, the transfers that settle them;
    sums of \<open>i64\<close> wrap.
  \<^item> \<open>Items\<close>, \<open>Item_Facts\<close>, \<open>Item_Properties\<close> (\<open>src/routes/events/items.rs\<close>, \<open>src/routes/items.rs\<close>):
    the catalogue and the ledger of reservations, with \<open>i32\<close> wrap-around.
  \<^item> \<open>Polls\<close>, \<open>Poll_Facts\<close>, \<open>Poll_Properties\<close> (\<open>src/routes/events/polls.rs\<close>): ballots and tallies.
  \<^item> \<open>Checkins\<close>, \<open>Checkin_Properties\<close> (\<open>src/routes/qr_codes.rs\<close>): registration at the door.
  \<^item> \<open>Handles\<close>, \<open>Friends\<close>, \<open>Friend_Facts\<close>, \<open>Friend_Graph\<close>, \<open>Friend_Properties\<close> (\<open>src/handles.rs\<close>,
    \<open>src/routes/friends.rs\<close>, blocks of \<open>src/routes/safety.rs\<close>): the tables refine a social graph.
  \<^item> \<open>Account\<close>, \<open>Account_Facts\<close>, \<open>Account_Properties\<close> (\<open>delete_account\<close> of \<open>src/routes/users.rs\<close>,
    \<open>src/cleanup.rs\<close>): what a deleted account leaves behind.  \<open>Avatars\<close>, \<open>Profile\<close>
    (\<open>src/routes/users.rs\<close>), \<open>Devices\<close> (\<open>src/routes/notifications.rs\<close>): handle, avatar and its file,
    the devices that receive messages.
  \<^item> \<open>Sessions\<close>, \<open>Registration\<close>, \<open>Recovery\<close>, \<open>Oauth\<close>, \<open>Apple\<close> (\<open>src/routes/auth.rs\<close>,
    \<open>src/routes/account_recovery.rs\<close>, \<open>src/apple.rs\<close>, passwords and cookies of \<open>src/auth.rs\<close>): signing
    in, renewable sessions, new accounts, forgotten passwords, identities of Google and Apple.
    \<open>Session_Facts\<close>, \<open>Session_Invariant\<close>, \<open>Session_Properties\<close>: the invariant of accounts and sessions under
    every handler that writes their tables (those of \<open>Account\<close>, \<open>Profile\<close> and \<open>Moderation\<close> too), by a small
    logic of the users an action has read (\<open>yields\<close>); who gets in, and that a revoked session is gone.
  \<^item> \<open>Realtime\<close>, \<open>Realtime_Properties\<close> (\<open>src/realtime.rs\<close>, \<open>src/realtime/actor_ws.rs\<close>): tickets and
    sockets, a socket as a step relation over time.
  \<^item> \<open>Geocoding\<close>, \<open>Geocoding_Properties\<close> (\<open>src/routes/events/address.rs\<close>): concurrent searches for
    addresses, whose steps are the commands of Redis: the gate that spaces the calls, the cache.
  \<^item> \<open>Rate_Limit\<close> (\<open>src/rate_limit.rs\<close>): the limiter equals a log that forgets nothing.

  \<^bold>\<open>What the lemmas show.\<close>
  For every component: a well-formedness invariant of its tables kept by every operation and every
  fault; what every operation does on success, as a step on an abstract state (roles, standing,
  social graph, ballots, shares of items, registrations), with the conditions under which it happens;
  that refused requests change nothing; and for the algorithms (split, settlement, tallies, limiter,
  cursors) that they equal a reference definition.  Some theorems show behaviour that looks wrong:
  pages that lose rows, sums that wrap, a refusal that is lost, seats that stay taken.

  \<^bold>\<open>Conventions.\<close>
  Texts for people (\<open>details\<close> of errors, log lines) are left out; an answer made by \<open>finish()\<close> has the
  empty code.  Encrypted columns hold the plain text.  Requests run one after the other, each at one
  instant of the clock (searches for addresses and sockets excepted, which interleave): row locks and
  advisory locks are what makes this so in the code.  The database runs in UTC.  A \<open>SELECT\<close> without \<open>ORDER BY\<close> yields the order of the table.  A failed
  \<open>COMMIT\<close> counts as rolled back; an error that is ignored inside a transaction aborts it
  (\<open>commit_unless_aborted\<close>).  Identifiers are integers, \<open>f64\<close> values are their bit patterns, \<open>i64\<close> and
  \<open>i32\<close> sums wrap (\<open>wrap64\<close>, \<open>wrap32\<close>).  The record \<open>config\<close> holds what comes from outside: Unicode
  lower case, the SQL functions \<open>lower\<close>, \<open>LIKE\<close>, collation keys, \<open>to_timestamp\<close> and \<open>hmac\<close>, JWT,
  SHA-256, UUID syntax, time zones, regular expressions, URL parsing, \<open>serde_json\<close> of cursors, the
  push and the mail service; theorems hold for every choice of them.  Random numbers, tokens and the
  verdict of the limiter are arguments.  Loops are structural recursions; the only fuel is that of
  \<open>follow\<close> (pages), for which more fuel than rows is shown to be enough, and of the worker, which
  takes one batch.

  \<^bold>\<open>Not modelled.\<close>
  Start-up, settings, logging and metrics (\<open>main.rs\<close>, \<open>config.rs\<close>, \<open>observability.rs\<close>, \<open>db.rs\<close>,
  \<open>user_metrics.rs\<close>, \<open>docs.rs\<close>, \<open>bin\<close>); the worker that retries revocations (\<open>apple.rs\<close>), which
  mostly calls a service; the health and root routes.
  Also the recovery-journal triggers, and requests on the database that interleave.
\<close>

end
